(* ===== verification/Prelude.thy ===== *)
theory Prelude
  imports Main "HOL-Library.Word"
begin

text \<open>
  The vocabulary every component shares: the C integer types as words, pointers as
  options, byte memories as lists with \<open>memcpy\<close>-like reads and writes, and the generic
  lemmas on words and memories that the component proofs are built from. The collections
  \<open>ring_simps\<close> and \<open>mem_simps\<close> hold the rewrite rules for ring offsets and for
  memory accesses.
\<close>

unbundle bit_operations_syntax

section \<open>C types\<close>

type_synonym u8 = "8 word"
type_synonym s16 = "16 word"
type_synonym s32 = "32 word"
type_synonym u16 = "16 word"
type_synonym u32 = "32 word"
type_synonym u64 = "64 word"

text \<open>A pointer argument is an option: \<open>None\<close> is the null pointer and \<open>Some x\<close> points to
  an object whose current value is \<open>x\<close>. A function that changes the object returns it.\<close>

type_synonym 'a ptr = "'a option"

abbreviation NULL :: "'a ptr" where
  "NULL \<equiv> None"

named_theorems mem_simps \<open>reads and writes of list-modelled memory\<close>
named_theorems ring_simps \<open>ring buffer offsets\<close>

section \<open>Memory\<close>

text \<open>\<open>mem_read m off n\<close> is the \<open>n\<close> cells a \<open>memcpy\<close> from \<open>m + off\<close> copies, and
  \<open>mem_write m off xs\<close> the memory after \<open>xs\<close> is copied to \<open>m + off\<close>. Both describe the C
  access only inside the object (\<open>off + n \<le> length m\<close>), which the components prove.\<close>

definition mem_read :: "'a list \<Rightarrow> nat \<Rightarrow> nat \<Rightarrow> 'a list" where
  "mem_read m off n = take n (drop off m)"

definition mem_write :: "'a list \<Rightarrow> nat \<Rightarrow> 'a list \<Rightarrow> 'a list" where
  "mem_write m off xs = take off m @ xs @ drop (off + length xs) m"

lemma mem_read_0 [simp, mem_simps]: "mem_read m off 0 = []"
  by (simp add: mem_read_def)

lemma mem_write_Nil [simp, mem_simps]: "mem_write m off [] = m"
  by (simp add: mem_write_def)

lemma length_mem_read [mem_simps]: "off + n \<le> length m \<Longrightarrow> length (mem_read m off n) = n"
  by (simp add: mem_read_def)

lemma mem_write_split:
  assumes "off + length xs \<le> length m"
  shows "take (off + length xs) (mem_write m off xs) = take off m @ xs"
    "off + length xs \<le> n \<Longrightarrow> drop n (mem_write m off xs) = drop n m"
  using assms by (simp_all add: mem_write_def)

lemma mem_write_append:
  assumes "off + length xs \<le> length m"
  shows "mem_write (mem_write m off xs) (off + length xs) ys = mem_write m off (xs @ ys)"
  using assms by (simp add: mem_write_def ac_simps)

lemma length_mem_write [mem_simps]:
  "off + length xs \<le> length m \<Longrightarrow> length (mem_write m off xs) = length m"
  by (simp add: mem_write_def)

lemma mem_read_write_same [mem_simps]:
  "off + length xs \<le> length m \<Longrightarrow> n = length xs \<Longrightarrow> mem_read (mem_write m off xs) off n = xs"
  by (simp add: mem_read_def mem_write_def)

lemma mem_read_append: "mem_read m off (a + b) = mem_read m off a @ mem_read m (off + a) b"
  by (simp add: mem_read_def take_add add.commute)

lemma mem_read_write_before [mem_simps]:
  "a + n \<le> off \<Longrightarrow> off + length xs \<le> length m \<Longrightarrow>
   mem_read (mem_write m off xs) a n = mem_read m a n"
  by (simp add: mem_read_def mem_write_def take_drop min_def)

lemma mem_read_write_after [mem_simps]:
  "off + length xs \<le> a \<Longrightarrow> off + length xs \<le> length m \<Longrightarrow>
   mem_read (mem_write m off xs) a n = mem_read m a n"
  by (simp add: mem_read_def mem_write_def)

lemma take_mem_read: "take k (mem_read m off n) = mem_read m off (min k n)"
  by (simp add: mem_read_def)

lemma drop_mem_read: "drop k (mem_read m off n) = mem_read m (off + k) (n - k)"
  by (simp add: mem_read_def drop_take add.commute)

section \<open>Words\<close>

lemma unat_diff_le: "b \<le> a \<Longrightarrow> unat (a - b) = unat a - unat b" for a b :: "'a::len word"
  by (simp add: unat_sub)

lemma unat_add_lt: "unat a + unat b < 2 ^ LENGTH('a) \<Longrightarrow> unat (a + b) = unat a + unat b"
  for a b :: "'a::len word"
  by (simp add: unat_word_ariths)

lemma unat_mult_lt: "unat a * unat b < 2 ^ LENGTH('a) \<Longrightarrow> unat (a * b) = unat a * unat b"
  for a b :: "'a::len word"
  by (simp add: unat_word_ariths)

lemma unat_ucast_u32_u64 [simp]: "unat (ucast (a :: u32) :: u64) = unat a"
  by transfer (simp add: take_bit_eq_mod)

lemma unat_ucast_u64_u32: "unat (ucast (a :: u64) :: u32) = unat a mod 2 ^ 32"
  by transfer (simp add: take_bit_eq_mod nat_mod_distrib)

lemma unat_lt_u32 [simp]: "unat (a :: u32) < 4294967296"
  using unsigned_less [of a] by simp

lemma unat_lt_u64 [simp]: "unat (a :: u64) < 18446744073709551616"
  using unsigned_less [of a] by simp

lemma and_low31: "x AND 0x7FFFFFFF = take_bit 31 x" for x :: u32
  by (simp add: take_bit_eq_mask mask_eq_exp_minus_1)

lemma bit_0x80000000: "bit (0x80000000 :: int) n \<longleftrightarrow> n = 31"
proof -
  have "bit (0x80000000 :: int) n = bit (2 ^ 31 :: int) n" by simp
  also have "\<dots> \<longleftrightarrow> n = 31" by (simp only: bit_exp_iff possible_bit_int) auto
  finally show ?thesis .
qed

lemma and_bit31_cases: "x AND 0x80000000 = 0 \<or> x AND 0x80000000 = 0x80000000" for x :: u32
proof (cases "bit x 31")
  case True
  then have "x AND 0x80000000 = 0x80000000"
    by (intro bit_word_eqI) (auto simp: bit_and_iff bit_0x80000000)
  then show ?thesis ..
next
  case False
  then have "x AND 0x80000000 = 0"
    by (intro bit_word_eqI) (auto simp: bit_and_iff bit_0x80000000)
  then show ?thesis ..
qed

lemma take_bit_31_id: "unat off < 2 ^ 31 \<Longrightarrow> take_bit 31 off = off" for off :: u32
  by (simp add: take_bit_eq_mod word_less_nat_alt mod_word_less)

lemma or_and_low31:
  fixes off flag :: u32
  assumes "unat off < 2 ^ 31" "flag = 0 \<or> flag = 0x80000000"
  shows "(flag OR off) AND 0x7FFFFFFF = off"
proof -
  have "take_bit 31 off = off" using assms(1) by (rule take_bit_31_id)
  moreover have "take_bit 31 flag = 0" using assms(2) by auto
  ultimately show ?thesis by (simp add: and_low31)
qed

lemma or_and_bit31:
  fixes off flag :: u32
  assumes "unat off < 2 ^ 31" "flag = 0 \<or> flag = 0x80000000"
  shows "(flag OR off) AND 0x80000000 = flag"
proof -
  have "\<not> bit off 31" using take_bit_31_id [OF assms(1)] by (metis bit_take_bit_iff less_irrefl)
  then show ?thesis using assms(2)
    by (intro bit_word_eqI) (auto simp: bit_and_iff bit_or_iff bit_0x80000000)
qed

lemma unat_and_low31_less: "unat (x AND 0x7FFFFFFF) < 2 ^ 31" for x :: u32
  unfolding and_low31 by (metis take_bit_nat_less_exp unsigned_take_bit_eq)

lemma and_bit31_toggle:
  "(x AND 0x80000000) XOR 0x80000000 \<noteq> x AND 0x80000000"
  "(x AND 0x80000000) XOR 0x80000000 = 0 \<or> (x AND 0x80000000) XOR 0x80000000 = 0x80000000" for x :: u32
  using and_bit31_cases [of x] by auto

lemma toggle_eq_iff:
  "(x AND 0x80000000) XOR 0x80000000 = y AND 0x80000000 \<longleftrightarrow> x AND 0x80000000 \<noteq> y AND 0x80000000"
  for x y :: u32
  using and_bit31_cases [of x] and_bit31_cases [of y] by auto

lemma eq_toggle_iff:
  "y AND 0x80000000 = (x AND 0x80000000) XOR 0x80000000 \<longleftrightarrow> y AND 0x80000000 \<noteq> x AND 0x80000000"
  for x y :: u32
  using and_bit31_cases [of x] and_bit31_cases [of y] by auto

lemma unat_min_if: "unat (if b < a then b else a) = min (unat a) (unat b)" for a b :: "'a::len word"
  by (simp add: word_less_nat_alt min_def)

section \<open>Splitting a memory into frames\<close>

function chunks :: "nat \<Rightarrow> 'a list \<Rightarrow> 'a list list" where
  "chunks n xs = (if n = 0 \<or> xs = [] then [] else take n xs # chunks n (drop n xs))"
  by pat_completeness auto
termination
  by (relation "measure (length \<circ> snd)") auto

declare chunks.simps [simp del]

lemma chunks_Nil [simp]: "chunks n [] = []"
  by (simp add: chunks.simps)

lemma chunks_step: "0 < n \<Longrightarrow> xs \<noteq> [] \<Longrightarrow> chunks n xs = take n xs # chunks n (drop n xs)"
  by (subst chunks.simps) simp

lemma concat_chunks: "0 < n \<Longrightarrow> concat (chunks n xs) = xs"
proof (induction n xs rule: chunks.induct)
  case (1 n xs)
  then show ?case by (cases "xs = []") (simp_all add: chunks_step)
qed

lemma length_chunks: "0 < n \<Longrightarrow> n dvd length xs \<Longrightarrow> length (chunks n xs) = length xs div n"
proof (induction n xs rule: chunks.induct)
  case (1 n xs)
  show ?case
  proof (cases "xs = []")
    case False
    with "1.prems" have "n \<le> length xs" by (simp add: dvd_imp_le)
    with False "1.IH" "1.prems" show ?thesis
      by (simp add: chunks_step le_div_geq)
  qed simp
qed

lemma chunks_lengths: "0 < n \<Longrightarrow> n dvd length xs \<Longrightarrow> f \<in> set (chunks n xs) \<Longrightarrow> length f = n"
proof (induction n xs rule: chunks.induct)
  case (1 n xs)
  show ?case
  proof (cases "xs = []")
    case False
    with "1.prems" have "n \<le> length xs" by (auto dest: dvd_imp_le)
    moreover have "n dvd length (drop n xs)" using "1.prems"(2) by (simp add: dvd_diff_nat)
    ultimately show ?thesis using "1.IH" "1.prems" False by (auto simp: chunks_step)
  qed (use "1.prems" in simp)
qed

lemma chunks_append:
  "0 < n \<Longrightarrow> n dvd length xs \<Longrightarrow> chunks n (xs @ ys) = chunks n xs @ chunks n ys"
proof (induction n xs rule: chunks.induct)
  case (1 n xs)
  show ?case
  proof (cases "xs = []")
    case False
    with "1.prems" have "n \<le> length xs" by (simp add: dvd_imp_le)
    with False "1.IH" "1.prems" show ?thesis by (simp add: chunks_step)
  qed simp
qed

lemma chunks_take: "0 < n \<Longrightarrow> chunks n (take (k * n) xs) = take k (chunks n xs)"
proof (induction k arbitrary: xs)
  case (Suc k)
  show ?case
  proof (cases "xs = []")
    case False
    then have "take (Suc k * n) xs \<noteq> []" using Suc.prems by simp
    with False Suc show ?thesis
      by (simp add: chunks_step drop_take min_def)
  qed simp
qed simp

lemma chunks_drop: "0 < n \<Longrightarrow> chunks n (drop (k * n) xs) = drop k (chunks n xs)"
proof (induction k arbitrary: xs)
  case (Suc k)
  show ?case
  proof (cases "xs = []")
    case False
    with Suc.IH [of "drop n xs"] Suc.prems show ?thesis
      by (simp add: chunks_step add.commute)
  qed simp
qed simp

lemma chunks_concat:
  "0 < n \<Longrightarrow> (\<And>f. f \<in> set fs \<Longrightarrow> length f = n) \<Longrightarrow> chunks n (concat fs) = fs"
proof (induction fs)
  case (Cons f fs)
  then have "length f = n" "f \<noteq> []" by auto
  with Cons show ?case by (simp add: chunks_step)
qed simp

lemma chunks_eq_Nil: "0 < n \<Longrightarrow> chunks n xs = [] \<longleftrightarrow> xs = []"
  by (cases "xs = []") (simp_all add: chunks_step)

lemma length_concat_const: "(\<And>f. f \<in> set fs \<Longrightarrow> length f = n) \<Longrightarrow> length (concat fs) = length fs * n"
  by (induction fs) auto

lemma mem_read_concat:
  assumes "\<forall>f\<in>set fs. length f = b"
  shows "mem_read (concat fs) (i * b) (k * b) = concat (take k (drop i fs))"
proof -
  have dc: "drop (i * b) (concat fs) = concat (drop i fs)" if "\<forall>f\<in>set fs. length f = b" for fs :: "'a list list" and i
    using that
  proof (induction fs arbitrary: i)
    case (Cons f fs)
    then show ?case by (cases i) simp_all
  qed simp
  have tc: "take (k * b) (concat fs) = concat (take k fs)" if "\<forall>f\<in>set fs. length f = b" for fs :: "'a list list" and k
    using that
  proof (induction fs arbitrary: k)
    case (Cons f fs)
    then show ?case by (cases k) simp_all
  qed simp
  show ?thesis unfolding mem_read_def dc [OF assms]
    by (rule tc) (use assms in \<open>auto dest: in_set_dropD\<close>)
qed

end
