(* ===== verification/MaBase.thy ===== *)
theory MaBase
  imports Prelude
begin

text \<open>
  The parts of miniaudio every other component uses: the result codes with their numeric
  values and descriptions, the sample formats and their sizes, and the allocation
  callbacks with the aligned allocator on top of them.
\<close>

section \<open>Result codes\<close>

text \<open>\<open>ma_result\<close> is a C enumeration that the code stores in an \<open>int\<close>: a result is an
  integer and each enumerator a name of its value.\<close>

type_synonym ma_result = int

abbreviation (input) MA_SUCCESS :: ma_result where "MA_SUCCESS \<equiv> 0"
abbreviation (input) MA_ERROR :: ma_result where "MA_ERROR \<equiv> - 1"
abbreviation (input) MA_INVALID_ARGS :: ma_result where "MA_INVALID_ARGS \<equiv> - 2"
abbreviation (input) MA_INVALID_OPERATION :: ma_result where "MA_INVALID_OPERATION \<equiv> - 3"
abbreviation (input) MA_OUT_OF_MEMORY :: ma_result where "MA_OUT_OF_MEMORY \<equiv> - 4"
abbreviation (input) MA_OUT_OF_RANGE :: ma_result where "MA_OUT_OF_RANGE \<equiv> - 5"
abbreviation (input) MA_ACCESS_DENIED :: ma_result where "MA_ACCESS_DENIED \<equiv> - 6"
abbreviation (input) MA_DOES_NOT_EXIST :: ma_result where "MA_DOES_NOT_EXIST \<equiv> - 7"
abbreviation (input) MA_ALREADY_EXISTS :: ma_result where "MA_ALREADY_EXISTS \<equiv> - 8"
abbreviation (input) MA_TOO_MANY_OPEN_FILES :: ma_result where "MA_TOO_MANY_OPEN_FILES \<equiv> - 9"
abbreviation (input) MA_INVALID_FILE :: ma_result where "MA_INVALID_FILE \<equiv> - 10"
abbreviation (input) MA_TOO_BIG :: ma_result where "MA_TOO_BIG \<equiv> - 11"
abbreviation (input) MA_PATH_TOO_LONG :: ma_result where "MA_PATH_TOO_LONG \<equiv> - 12"
abbreviation (input) MA_NAME_TOO_LONG :: ma_result where "MA_NAME_TOO_LONG \<equiv> - 13"
abbreviation (input) MA_NOT_DIRECTORY :: ma_result where "MA_NOT_DIRECTORY \<equiv> - 14"
abbreviation (input) MA_IS_DIRECTORY :: ma_result where "MA_IS_DIRECTORY \<equiv> - 15"
abbreviation (input) MA_DIRECTORY_NOT_EMPTY :: ma_result where "MA_DIRECTORY_NOT_EMPTY \<equiv> - 16"
abbreviation (input) MA_AT_END :: ma_result where "MA_AT_END \<equiv> - 17"
abbreviation (input) MA_NO_SPACE :: ma_result where "MA_NO_SPACE \<equiv> - 18"
abbreviation (input) MA_BUSY :: ma_result where "MA_BUSY \<equiv> - 19"
abbreviation (input) MA_IO_ERROR :: ma_result where "MA_IO_ERROR \<equiv> - 20"
abbreviation (input) MA_INTERRUPT :: ma_result where "MA_INTERRUPT \<equiv> - 21"
abbreviation (input) MA_UNAVAILABLE :: ma_result where "MA_UNAVAILABLE \<equiv> - 22"
abbreviation (input) MA_ALREADY_IN_USE :: ma_result where "MA_ALREADY_IN_USE \<equiv> - 23"
abbreviation (input) MA_BAD_ADDRESS :: ma_result where "MA_BAD_ADDRESS \<equiv> - 24"
abbreviation (input) MA_BAD_SEEK :: ma_result where "MA_BAD_SEEK \<equiv> - 25"
abbreviation (input) MA_BAD_PIPE :: ma_result where "MA_BAD_PIPE \<equiv> - 26"
abbreviation (input) MA_DEADLOCK :: ma_result where "MA_DEADLOCK \<equiv> - 27"
abbreviation (input) MA_TOO_MANY_LINKS :: ma_result where "MA_TOO_MANY_LINKS \<equiv> - 28"
abbreviation (input) MA_NOT_IMPLEMENTED :: ma_result where "MA_NOT_IMPLEMENTED \<equiv> - 29"
abbreviation (input) MA_NO_MESSAGE :: ma_result where "MA_NO_MESSAGE \<equiv> - 30"
abbreviation (input) MA_BAD_MESSAGE :: ma_result where "MA_BAD_MESSAGE \<equiv> - 31"
abbreviation (input) MA_NO_DATA_AVAILABLE :: ma_result where "MA_NO_DATA_AVAILABLE \<equiv> - 32"
abbreviation (input) MA_INVALID_DATA :: ma_result where "MA_INVALID_DATA \<equiv> - 33"
abbreviation (input) MA_TIMEOUT :: ma_result where "MA_TIMEOUT \<equiv> - 34"
abbreviation (input) MA_NO_NETWORK :: ma_result where "MA_NO_NETWORK \<equiv> - 35"
abbreviation (input) MA_NOT_UNIQUE :: ma_result where "MA_NOT_UNIQUE \<equiv> - 36"
abbreviation (input) MA_NOT_SOCKET :: ma_result where "MA_NOT_SOCKET \<equiv> - 37"
abbreviation (input) MA_NO_ADDRESS :: ma_result where "MA_NO_ADDRESS \<equiv> - 38"
abbreviation (input) MA_BAD_PROTOCOL :: ma_result where "MA_BAD_PROTOCOL \<equiv> - 39"
abbreviation (input) MA_PROTOCOL_UNAVAILABLE :: ma_result where "MA_PROTOCOL_UNAVAILABLE \<equiv> - 40"
abbreviation (input) MA_PROTOCOL_NOT_SUPPORTED :: ma_result where "MA_PROTOCOL_NOT_SUPPORTED \<equiv> - 41"
abbreviation (input) MA_PROTOCOL_FAMILY_NOT_SUPPORTED :: ma_result where "MA_PROTOCOL_FAMILY_NOT_SUPPORTED \<equiv> - 42"
abbreviation (input) MA_ADDRESS_FAMILY_NOT_SUPPORTED :: ma_result where "MA_ADDRESS_FAMILY_NOT_SUPPORTED \<equiv> - 43"
abbreviation (input) MA_SOCKET_NOT_SUPPORTED :: ma_result where "MA_SOCKET_NOT_SUPPORTED \<equiv> - 44"
abbreviation (input) MA_CONNECTION_RESET :: ma_result where "MA_CONNECTION_RESET \<equiv> - 45"
abbreviation (input) MA_ALREADY_CONNECTED :: ma_result where "MA_ALREADY_CONNECTED \<equiv> - 46"
abbreviation (input) MA_NOT_CONNECTED :: ma_result where "MA_NOT_CONNECTED \<equiv> - 47"
abbreviation (input) MA_CONNECTION_REFUSED :: ma_result where "MA_CONNECTION_REFUSED \<equiv> - 48"
abbreviation (input) MA_NO_HOST :: ma_result where "MA_NO_HOST \<equiv> - 49"
abbreviation (input) MA_IN_PROGRESS :: ma_result where "MA_IN_PROGRESS \<equiv> - 50"
abbreviation (input) MA_CANCELLED :: ma_result where "MA_CANCELLED \<equiv> - 51"
abbreviation (input) MA_MEMORY_ALREADY_MAPPED :: ma_result where "MA_MEMORY_ALREADY_MAPPED \<equiv> - 52"
abbreviation (input) MA_CRC_MISMATCH :: ma_result where "MA_CRC_MISMATCH \<equiv> - 100"
abbreviation (input) MA_FORMAT_NOT_SUPPORTED :: ma_result where "MA_FORMAT_NOT_SUPPORTED \<equiv> - 200"
abbreviation (input) MA_DEVICE_TYPE_NOT_SUPPORTED :: ma_result where "MA_DEVICE_TYPE_NOT_SUPPORTED \<equiv> - 201"
abbreviation (input) MA_SHARE_MODE_NOT_SUPPORTED :: ma_result where "MA_SHARE_MODE_NOT_SUPPORTED \<equiv> - 202"
abbreviation (input) MA_NO_BACKEND :: ma_result where "MA_NO_BACKEND \<equiv> - 203"
abbreviation (input) MA_NO_DEVICE :: ma_result where "MA_NO_DEVICE \<equiv> - 204"
abbreviation (input) MA_API_NOT_FOUND :: ma_result where "MA_API_NOT_FOUND \<equiv> - 205"
abbreviation (input) MA_INVALID_DEVICE_CONFIG :: ma_result where "MA_INVALID_DEVICE_CONFIG \<equiv> - 206"
abbreviation (input) MA_LOOP :: ma_result where "MA_LOOP \<equiv> - 207"
abbreviation (input) MA_BACKEND_NOT_ENABLED :: ma_result where "MA_BACKEND_NOT_ENABLED \<equiv> - 208"
abbreviation (input) MA_DEVICE_NOT_INITIALIZED :: ma_result where "MA_DEVICE_NOT_INITIALIZED \<equiv> - 300"
abbreviation (input) MA_DEVICE_ALREADY_INITIALIZED :: ma_result where "MA_DEVICE_ALREADY_INITIALIZED \<equiv> - 301"
abbreviation (input) MA_DEVICE_NOT_STARTED :: ma_result where "MA_DEVICE_NOT_STARTED \<equiv> - 302"
abbreviation (input) MA_DEVICE_NOT_STOPPED :: ma_result where "MA_DEVICE_NOT_STOPPED \<equiv> - 303"
abbreviation (input) MA_FAILED_TO_INIT_BACKEND :: ma_result where "MA_FAILED_TO_INIT_BACKEND \<equiv> - 400"
abbreviation (input) MA_FAILED_TO_OPEN_BACKEND_DEVICE :: ma_result where "MA_FAILED_TO_OPEN_BACKEND_DEVICE \<equiv> - 401"
abbreviation (input) MA_FAILED_TO_START_BACKEND_DEVICE :: ma_result where "MA_FAILED_TO_START_BACKEND_DEVICE \<equiv> - 402"
abbreviation (input) MA_FAILED_TO_STOP_BACKEND_DEVICE :: ma_result where "MA_FAILED_TO_STOP_BACKEND_DEVICE \<equiv> - 403"

definition ma_result_description :: "ma_result \<Rightarrow> string" where
  "ma_result_description result =
     (if result = MA_SUCCESS then ''No error'' else
      if result = MA_ERROR then ''Unknown error'' else
      if result = MA_INVALID_ARGS then ''Invalid argument'' else
      if result = MA_INVALID_OPERATION then ''Invalid operation'' else
      if result = MA_OUT_OF_MEMORY then ''Out of memory'' else
      if result = MA_OUT_OF_RANGE then ''Out of range'' else
      if result = MA_ACCESS_DENIED then ''Permission denied'' else
      if result = MA_DOES_NOT_EXIST then ''Resource does not exist'' else
      if result = MA_ALREADY_EXISTS then ''Resource already exists'' else
      if result = MA_TOO_MANY_OPEN_FILES then ''Too many open files'' else
      if result = MA_INVALID_FILE then ''Invalid file'' else
      if result = MA_TOO_BIG then ''Too large'' else
      if result = MA_PATH_TOO_LONG then ''Path too long'' else
      if result = MA_NAME_TOO_LONG then ''Name too long'' else
      if result = MA_NOT_DIRECTORY then ''Not a directory'' else
      if result = MA_IS_DIRECTORY then ''Is a directory'' else
      if result = MA_DIRECTORY_NOT_EMPTY then ''Directory not empty'' else
      if result = MA_AT_END then ''At end'' else
      if result = MA_NO_SPACE then ''No space available'' else
      if result = MA_BUSY then ''Device or resource busy'' else
      if result = MA_IO_ERROR then ''Input/output error'' else
      if result = MA_INTERRUPT then ''Interrupted'' else
      if result = MA_UNAVAILABLE then ''Resource unavailable'' else
      if result = MA_ALREADY_IN_USE then ''Resource already in use'' else
      if result = MA_BAD_ADDRESS then ''Bad address'' else
      if result = MA_BAD_SEEK then ''Illegal seek'' else
      if result = MA_BAD_PIPE then ''Broken pipe'' else
      if result = MA_DEADLOCK then ''Deadlock'' else
      if result = MA_TOO_MANY_LINKS then ''Too many links'' else
      if result = MA_NOT_IMPLEMENTED then ''Not implemented'' else
      if result = MA_NO_MESSAGE then ''No message of desired type'' else
      if result = MA_BAD_MESSAGE then ''Invalid message'' else
      if result = MA_NO_DATA_AVAILABLE then ''No data available'' else
      if result = MA_INVALID_DATA then ''Invalid data'' else
      if result = MA_TIMEOUT then ''Timeout'' else
      if result = MA_NO_NETWORK then ''Network unavailable'' else
      if result = MA_NOT_UNIQUE then ''Not unique'' else
      if result = MA_NOT_SOCKET then ''Socket operation on non-socket'' else
      if result = MA_NO_ADDRESS then ''Destination address required'' else
      if result = MA_BAD_PROTOCOL then ''Protocol wrong type for socket'' else
      if result = MA_PROTOCOL_UNAVAILABLE then ''Protocol not available'' else
      if result = MA_PROTOCOL_NOT_SUPPORTED then ''Protocol not supported'' else
      if result = MA_PROTOCOL_FAMILY_NOT_SUPPORTED then ''Protocol family not supported'' else
      if result = MA_ADDRESS_FAMILY_NOT_SUPPORTED then ''Address family not supported'' else
      if result = MA_SOCKET_NOT_SUPPORTED then ''Socket type not supported'' else
      if result = MA_CONNECTION_RESET then ''Connection reset'' else
      if result = MA_ALREADY_CONNECTED then ''Already connected'' else
      if result = MA_NOT_CONNECTED then ''Not connected'' else
      if result = MA_CONNECTION_REFUSED then ''Connection refused'' else
      if result = MA_NO_HOST then ''No host'' else
      if result = MA_IN_PROGRESS then ''Operation in progress'' else
      if result = MA_CANCELLED then ''Operation cancelled'' else
      if result = MA_MEMORY_ALREADY_MAPPED then ''Memory already mapped'' else
      if result = MA_FORMAT_NOT_SUPPORTED then ''Format not supported'' else
      if result = MA_DEVICE_TYPE_NOT_SUPPORTED then ''Device type not supported'' else
      if result = MA_SHARE_MODE_NOT_SUPPORTED then ''Share mode not supported'' else
      if result = MA_NO_BACKEND then ''No backend'' else
      if result = MA_NO_DEVICE then ''No device'' else
      if result = MA_API_NOT_FOUND then ''API not found'' else
      if result = MA_INVALID_DEVICE_CONFIG then ''Invalid device config'' else
      if result = MA_DEVICE_NOT_INITIALIZED then ''Device not initialized'' else
      if result = MA_DEVICE_NOT_STARTED then ''Device not started'' else
      if result = MA_FAILED_TO_INIT_BACKEND then ''Failed to initialize backend'' else
      if result = MA_FAILED_TO_OPEN_BACKEND_DEVICE then ''Failed to open backend device'' else
      if result = MA_FAILED_TO_START_BACKEND_DEVICE then ''Failed to start backend device'' else
      if result = MA_FAILED_TO_STOP_BACKEND_DEVICE then ''Failed to stop backend device'' else
      ''Unknown error'')"

section \<open>Sample formats\<close>

datatype ma_format =
    ma_format_unknown
  | ma_format_u8
  | ma_format_s16
  | ma_format_s24
  | ma_format_s32
  | ma_format_f32

fun ma_get_bytes_per_sample :: "ma_format \<Rightarrow> u32" where
    "ma_get_bytes_per_sample ma_format_unknown = 0"
  | "ma_get_bytes_per_sample ma_format_u8 = 1"
  | "ma_get_bytes_per_sample ma_format_s16 = 2"
  | "ma_get_bytes_per_sample ma_format_s24 = 3"
  | "ma_get_bytes_per_sample ma_format_s32 = 4"
  | "ma_get_bytes_per_sample ma_format_f32 = 4"

definition ma_get_bytes_per_frame :: "ma_format \<Rightarrow> u32 \<Rightarrow> u32" where
  "ma_get_bytes_per_frame format channels = ma_get_bytes_per_sample format * channels"

section \<open>Allocation\<close>

text \<open>\<open>ma_align(x, a)\<close> on 32-bit operands.\<close>

definition ma_align :: "u32 \<Rightarrow> u32 \<Rightarrow> u32" where
  "ma_align x a = (x + (a - 1)) AND NOT (a - 1)"

abbreviation MA_SIMD_ALIGNMENT :: u32 where
  "MA_SIMD_ALIGNMENT \<equiv> 32"

text \<open>An allocation callback maps a requested size to the address it returns, null when it
  has no memory. What \<open>realloc\<close> and \<open>free\<close> do to memory is not observable here, only
  whether the callbacks are set.\<close>

record ma_allocation_callbacks =
  pUserData :: "u64 ptr"
  onMalloc :: "(u64 \<Rightarrow> u64 ptr) ptr"
  onRealloc :: "(u64 ptr \<Rightarrow> u64 \<Rightarrow> u64 ptr) ptr"
  onFree :: "unit ptr"

text \<open>The C library's \<open>malloc\<close> and \<open>realloc\<close> (\<open>MA_MALLOC\<close>, \<open>MA_REALLOC\<close>) are a
  parameter of every definition that may reach them.\<close>

record libc =
  c_malloc :: "u64 \<Rightarrow> u64 ptr"
  c_realloc :: "u64 ptr \<Rightarrow> u64 \<Rightarrow> u64 ptr"

definition ma_allocation_callbacks_init_default :: "libc \<Rightarrow> ma_allocation_callbacks" where
  "ma_allocation_callbacks_init_default sys =
     \<lparr>pUserData = NULL, onMalloc = Some (c_malloc sys), onRealloc = Some (c_realloc sys),
      onFree = Some ()\<rparr>"

definition ma_allocation_callbacks_init_copy ::
  "libc \<Rightarrow> ma_allocation_callbacks ptr \<Rightarrow> ma_allocation_callbacks ptr
   \<Rightarrow> ma_result \<times> ma_allocation_callbacks ptr" where
  "ma_allocation_callbacks_init_copy sys pDst pSrc =
     (case pDst of
        None \<Rightarrow> (MA_INVALID_ARGS, pDst)
      | Some dst \<Rightarrow>
          (case pSrc of
             None \<Rightarrow> (MA_SUCCESS, Some (ma_allocation_callbacks_init_default sys))
           | Some src \<Rightarrow>
               if pUserData src = NULL \<and> onFree src = NULL \<and> onMalloc src = NULL \<and> onRealloc src = NULL
               then (MA_SUCCESS, Some (ma_allocation_callbacks_init_default sys))
               else if onFree src = NULL \<or> (onMalloc src = NULL \<and> onRealloc src = NULL)
               then (MA_INVALID_ARGS, pDst)
               else (MA_SUCCESS, Some src)))"

definition ma_malloc :: "libc \<Rightarrow> u64 \<Rightarrow> ma_allocation_callbacks ptr \<Rightarrow> u64 ptr" where
  "ma_malloc sys sz pAllocationCallbacks =
     (case pAllocationCallbacks of
        Some cb \<Rightarrow> (case onMalloc cb of Some f \<Rightarrow> f sz | None \<Rightarrow> NULL)
      | None \<Rightarrow> c_malloc sys sz)"

text \<open>\<open>sizeof(void*)\<close> is 8: the targets are 64-bit.\<close>

definition ma_aligned_malloc :: "libc \<Rightarrow> u64 \<Rightarrow> u64 \<Rightarrow> ma_allocation_callbacks ptr \<Rightarrow> u64 ptr" where
  "ma_aligned_malloc sys sz alignment cb =
     (if alignment = 0 then NULL
      else let extraBytes = alignment - 1 + 8
           in case ma_malloc sys (sz + extraBytes) cb of
                None \<Rightarrow> NULL
              | Some pUnaligned \<Rightarrow> Some ((pUnaligned + extraBytes) AND NOT (alignment - 1)))"

end
