(* ===== verification/CFloat.thy ===== *)
theory CFloat
  imports Complex_Main Prelude
begin

text \<open>
  C's \<open>float\<close> and \<open>double\<close>: IEEE 754 binary32 and binary64 with rounding to nearest, ties to
  even. A value is a NaN, a signed infinity, or a sign and a rational magnitude; every
  operation computes the exact rational result and rounds it to the format. The second half
  is the representation in memory, bit patterns and little-endian bytes, with its round trips.
\<close>

section \<open>Binary logarithm of a positive rational\<close>

fun ilog2 :: "nat \<Rightarrow> nat" where
  "ilog2 n = (if n < 2 then 0 else Suc (ilog2 (n div 2)))"

declare ilog2.simps [simp del]

lemma ilog2_bounds: "0 < n \<Longrightarrow> 2 ^ ilog2 n \<le> n \<and> n < 2 * 2 ^ ilog2 n"
proof (induction n rule: ilog2.induct)
  case (1 n)
  show ?case
  proof (cases "n < 2")
    case True
    with 1 show ?thesis by (subst (1 2) ilog2.simps) auto
  next
    case False
    with 1 have "2 ^ ilog2 (n div 2) \<le> n div 2 \<and> n div 2 < 2 * 2 ^ ilog2 (n div 2)" by auto
    with False show ?thesis by (subst (1 2) ilog2.simps) auto
  qed
qed

lemma ilog2_int:
  assumes "0 < a"
  shows "2 ^ ilog2 (nat a) \<le> (of_int a :: rat)" "(of_int a :: rat) < 2 * 2 ^ ilog2 (nat a)"
proof -
  have "of_nat (2 ^ ilog2 (nat a)) \<le> (of_nat (nat a) :: rat)" "(of_nat (nat a) :: rat) < of_nat (2 * 2 ^ ilog2 (nat a))"
    unfolding of_nat_le_iff of_nat_less_iff using ilog2_bounds [of "nat a"] assms by simp_all
  then show "2 ^ ilog2 (nat a) \<le> (of_int a :: rat)" "(of_int a :: rat) < 2 * 2 ^ ilog2 (nat a)"
    using assms by simp_all
qed

definition flog2 :: "rat \<Rightarrow> int" where
  "flog2 m = (case quotient_of m of (a, b) \<Rightarrow>
     let e = int (ilog2 (nat a)) - int (ilog2 (nat b)) in if m < 2 powi e then e - 1 else e)"

lemma flog2_bounds:
  assumes "0 < m"
  shows "2 powi flog2 m \<le> m" "m < 2 powi (flog2 m + 1)"
proof -
  obtain a b where ab: "quotient_of m = (a, b)" by fastforce
  have b: "0 < b" using quotient_of_denom_pos [OF ab] .
  have m: "m = of_int a / of_int b" using quotient_of_div [OF ab] .
  have a: "0 < a" using assms b by (simp add: m zero_less_divide_iff)
  let ?i = "ilog2 (nat a)" and ?j = "ilog2 (nat b)"
  define e where "e = int ?i - int ?j"
  note A = ilog2_int [OF a] and B = ilog2_int [OF b]
  have pe: "(2 :: rat) powi e = 2 ^ ?i / 2 ^ ?j" by (simp add: e_def power_int_diff)
  have b': "0 < (of_int b :: rat)" using b by simp
  have up: "m < 2 * 2 powi e"
  proof -
    have "of_int a * 2 ^ ?j \<le> of_int a * (of_int b :: rat)" using B(1) a by simp
    also have "\<dots> < 2 * 2 ^ ?i * of_int b" using A(2) b' by simp
    finally show ?thesis unfolding pe m using b' by (simp add: divide_simps mult.commute)
  qed
  have lo: "2 powi e < 2 * m"
  proof -
    have "2 ^ ?i * of_int b \<le> (of_int a * of_int b :: rat)" using A(1) b' by simp
    also have "\<dots> < of_int a * (2 * 2 ^ ?j)" using B(2) a by simp
    finally show ?thesis unfolding pe m using b' by (simp add: divide_simps mult.commute mult.assoc)
  qed
  have f: "flog2 m = (if m < 2 powi e then e - 1 else e)"
    by (simp add: flog2_def ab e_def Let_def)
  show "2 powi flog2 m \<le> m" using lo by (simp add: f power_int_diff)
  show "m < 2 powi (flog2 m + 1)" using up by (simp add: f power_int_add power_int_diff)
qed

lemma powi2_mono: "a \<le> b \<Longrightarrow> (2 :: rat) powi a \<le> 2 powi b"
  by (rule power_int_increasing) simp_all

lemma powi2_less_iff: "(2 :: rat) powi a < 2 powi b \<longleftrightarrow> a < b"
  by (metis linorder_not_le powi2_mono power_int_strict_increasing one_less_numeral_iff semiring_norm(76))

lemma flog2_unique:
  assumes "2 powi e \<le> m" "m < 2 powi (e + 1)"
  shows "flog2 m = e"
proof -
  have "0 < m" using assms(1) less_le_trans [of 0 "2 powi e" m] by simp
  note f = flog2_bounds [OF this]
  have "flog2 m < e + 1" using le_less_trans [OF f(1) assms(2)] by (simp add: powi2_less_iff)
  moreover have "e < flog2 m + 1" using le_less_trans [OF assms(1) f(2)] by (simp add: powi2_less_iff)
  ultimately show ?thesis by simp
qed


section \<open>Formats and rounding\<close>

record ffmt =
  prec :: nat
  emin :: int
  emax :: int

definition binary32 :: ffmt where
  "binary32 = \<lparr>prec = 24, emin = -149, emax = 104\<rparr>"

definition binary64 :: ffmt where
  "binary64 = \<lparr>prec = 53, emin = -1074, emax = 971\<rparr>"

datatype fval = FNaN | FInf bool | FNum bool rat

definition round_even :: "rat \<Rightarrow> int" where
  "round_even x = (let f = \<lfloor>x\<rfloor>; d = x - of_int f
     in if d < 1 / 2 then f else if 1 / 2 < d then f + 1 else if even f then f else f + 1)"

definition ulp_exp :: "ffmt \<Rightarrow> rat \<Rightarrow> int" where
  "ulp_exp F m = max (flog2 m - int (prec F) + 1) (emin F)"

definition fround :: "ffmt \<Rightarrow> bool \<Rightarrow> rat \<Rightarrow> fval" where
  "fround F s m =
     (if m = 0 then FNum s 0
      else let q = ulp_exp F m; r = of_int (round_even (m / 2 powi q)) * 2 powi q
           in if r < 2 powi (emax F + int (prec F)) then FNum s r else FInf s)"

text \<open>The magnitudes of a format, and its values.\<close>

definition fmag :: "ffmt \<Rightarrow> rat \<Rightarrow> bool" where
  "fmag F m \<longleftrightarrow> (\<exists>k q. m = of_int k * 2 powi q \<and> 0 \<le> k \<and> k < 2 ^ prec F \<and> emin F \<le> q \<and> q \<le> emax F)"

primrec fval_ok :: "ffmt \<Rightarrow> fval \<Rightarrow> bool" where
  "fval_ok F FNaN \<longleftrightarrow> True"
| "fval_ok F (FInf s) \<longleftrightarrow> True"
| "fval_ok F (FNum s m) \<longleftrightarrow> fmag F m"

definition fmt_ok :: "ffmt \<Rightarrow> bool" where
  "fmt_ok F \<longleftrightarrow> 0 < prec F \<and> emin F \<le> emax F"

lemma fmt_ok_binary [simp]: "fmt_ok binary32" "fmt_ok binary64"
  by (simp_all add: fmt_ok_def binary32_def binary64_def)

lemma binary_simps [simp]:
  "prec binary32 = 24" "emin binary32 = -149" "emax binary32 = 104"
  "prec binary64 = 53" "emin binary64 = -1074" "emax binary64 = 971"
  by (simp_all add: binary32_def binary64_def)

lemma round_even_bounds: "\<bar>of_int (round_even x) - x\<bar> \<le> 1 / 2"
proof -
  have f: "of_int \<lfloor>x\<rfloor> \<le> x" "x < of_int \<lfloor>x\<rfloor> + 1" by linarith+
  then show ?thesis by (auto simp: round_even_def Let_def abs_le_iff)
qed

lemma round_even_of_int [simp]: "round_even (of_int k) = k"
  by (simp add: round_even_def)

lemma round_even_le: "x \<le> of_int k \<Longrightarrow> round_even x \<le> k"
proof -
  assume x: "x \<le> of_int k"
  then have "\<lfloor>x\<rfloor> \<le> k" by linarith
  moreover have "\<lfloor>x\<rfloor> = k \<Longrightarrow> x - of_int \<lfloor>x\<rfloor> < 1 / 2" using x by simp
  ultimately show ?thesis by (cases "\<lfloor>x\<rfloor> = k") (auto simp: round_even_def Let_def)
qed

lemma round_even_ge: "of_int k \<le> x \<Longrightarrow> k \<le> round_even x"
proof -
  assume "of_int k \<le> x"
  then have "k \<le> \<lfloor>x\<rfloor>" by (simp add: le_floor_iff)
  then show ?thesis by (auto simp: round_even_def Let_def)
qed

lemma fmagI: "m = of_int k * 2 powi q \<Longrightarrow> 0 \<le> k \<Longrightarrow> k < 2 ^ prec F \<Longrightarrow> emin F \<le> q \<Longrightarrow> q \<le> emax F \<Longrightarrow> fmag F m"
  by (auto simp: fmag_def)

lemma fmag_0 [simp]: "fmt_ok F \<Longrightarrow> fmag F 0"
  by (rule fmagI [of _ 0 "emin F"]) (auto simp: fmt_ok_def)

lemma fmag_nonneg: "fmag F m \<Longrightarrow> 0 \<le> m"
  by (auto simp: fmag_def)

text \<open>A magnitude of the format is not changed by rounding.\<close>

lemma fmag_ulp:
  assumes F: "fmt_ok F" and m: "fmag F m" "0 < m"
  obtains k where "m = of_int k * 2 powi ulp_exp F m" "0 < k" "k < 2 ^ prec F"
    "emin F \<le> ulp_exp F m" "ulp_exp F m \<le> emax F"
proof -
  obtain k q where kq: "m = of_int k * 2 powi q" "0 \<le> k" "k < 2 ^ prec F" "emin F \<le> q" "q \<le> emax F"
    using m(1) by (auto simp: fmag_def)
  have up: "m < 2 powi (int (prec F) + q)"
  proof -
    have "(of_int k :: rat) < of_int (2 ^ prec F)" using kq(3) by (simp only: of_int_less_iff)
    then have "of_int k * (2 :: rat) powi q < 2 ^ prec F * 2 powi q" by simp
    then show ?thesis unfolding kq(1) by (simp add: power_int_add)
  qed
  have "flog2 m < int (prec F) + q"
    using le_less_trans [OF flog2_bounds(1) [OF m(2)] up] by (simp add: powi2_less_iff)
  then have le: "ulp_exp F m \<le> q" using kq(4) by (simp add: ulp_exp_def)
  define j where "j = k * 2 ^ nat (q - ulp_exp F m)"
  have "(2 :: rat) powi q = 2 ^ nat (q - ulp_exp F m) * 2 powi ulp_exp F m"
    using le by (simp add: power_int_add [symmetric] power_int_def [symmetric] flip: power_int_of_nat)
  then have mj: "m = of_int j * 2 powi ulp_exp F m" by (simp add: kq(1) j_def)
  have "m < 2 powi (flog2 m + 1)" by (rule flog2_bounds [OF m(2)])
  also have "\<dots> \<le> 2 powi (int (prec F) + ulp_exp F m)" by (rule powi2_mono) (simp add: ulp_exp_def)
  finally have "of_int j * (2 :: rat) powi ulp_exp F m < 2 ^ prec F * 2 powi ulp_exp F m"
    using mj by (simp add: power_int_add)
  then have "(of_int j :: rat) < of_int (2 ^ prec F)" by simp
  then have "j < 2 ^ prec F" by (simp only: of_int_less_iff)
  moreover have "0 < (of_int j :: rat) * 2 powi ulp_exp F m" using m(2) by (subst (asm) mj)
  then have "0 < (of_int j :: rat)" by (rule zero_less_mult_pos2) simp
  then have "0 < j" by simp
  ultimately show ?thesis using that mj le kq(5) by (simp add: ulp_exp_def)
qed

lemma fround_exact:
  assumes F: "fmt_ok F" and m: "fmag F m"
  shows "fround F s m = FNum s m"
proof (cases "m = 0")
  case False
  with fmag_nonneg [OF m] have pos: "0 < m" by simp
  obtain k where k: "m = of_int k * 2 powi ulp_exp F m" "0 < k" "k < 2 ^ prec F"
    "emin F \<le> ulp_exp F m" "ulp_exp F m \<le> emax F"
    using fmag_ulp [OF F m pos] by metis
  have "(of_int k :: rat) < of_int (2 ^ prec F)" using k(3) by (simp only: of_int_less_iff)
  then have "of_int k * (2 :: rat) powi ulp_exp F m < 2 ^ prec F * 2 powi emax F"
    using k(2,5) powi2_mono [OF k(5)] by (intro mult_less_le_imp_less) auto
  then have "m < 2 powi (emax F + int (prec F))" using k(1) by (simp add: power_int_add mult.commute)
  moreover have "m / 2 powi ulp_exp F m = of_int k" using k(1) by (metis nonzero_mult_div_cancel_right power_int_not_zero zero_neq_numeral)
  ultimately show ?thesis using False k(1) by (simp add: fround_def Let_def)
qed (simp add: fround_def)


lemma fround_ok:
  assumes F: "fmt_ok F" and m: "0 \<le> m"
  shows "fval_ok F (fround F s m)"
proof (cases "m = 0")
  case False
  with m have pos: "0 < m" by simp
  let ?q = "ulp_exp F m" and ?P = "(2 :: rat) powi (emax F + int (prec F))"
  let ?k = "round_even (m / 2 powi ?q)"
  have k0: "0 \<le> ?k" using pos by (intro round_even_ge) simp
  have "m < 2 powi (flog2 m + 1)" by (rule flog2_bounds [OF pos])
  also have "\<dots> \<le> 2 powi (int (prec F) + ?q)" by (rule powi2_mono) (simp add: ulp_exp_def)
  finally have "m / 2 powi ?q \<le> of_int (2 ^ prec F)"
    by (simp add: power_int_add divide_le_eq less_imp_le)
  then have kp: "?k \<le> 2 ^ prec F" by (rule round_even_le)
  have qmin: "emin F \<le> ?q" by (simp add: ulp_exp_def)
  show ?thesis
  proof (cases "of_int ?k * 2 powi ?q < ?P")
    case True
    have "fmag F (of_int ?k * 2 powi ?q)"
    proof (cases "?k = 2 ^ prec F")
      case eq: True
      then have "(2 :: rat) powi (int (prec F) + ?q) < ?P" using True by (simp add: power_int_add)
      then have "?q + 1 \<le> emax F" by (simp add: powi2_less_iff)
      moreover obtain n where "prec F = Suc n" using F by (cases "prec F") (auto simp: fmt_ok_def)
      ultimately show ?thesis
        using qmin eq by (intro fmagI [of _ "2 ^ n" "?q + 1"]) (auto simp: power_int_add)
    next
      case ne: False
      show ?thesis
      proof (cases "?q \<le> emax F")
        case le: True
        then show ?thesis using k0 kp ne qmin by (intro fmagI [of _ ?k ?q]) auto
      next
        case gt: False
        then have q: "?q = flog2 m - int (prec F) + 1" using F by (simp add: ulp_exp_def fmt_ok_def max_def split: if_splits)
        have "2 powi (flog2 m) \<le> m" by (rule flog2_bounds [OF pos])
        moreover have "(2 :: rat) powi flog2 m = of_int (2 ^ (prec F - 1)) * 2 powi ?q"
          using F by (simp add: q fmt_ok_def flip: power_int_of_nat power_int_add)
        ultimately have "of_int (2 ^ (prec F - 1)) \<le> m / 2 powi ?q" by (simp add: le_divide_eq)
        then have "2 ^ (prec F - 1) \<le> ?k" by (rule round_even_ge)
        then have "(of_int (2 ^ (prec F - 1)) :: rat) \<le> of_int ?k" by (simp only: of_int_le_iff)
        then have "of_int (2 ^ (prec F - 1)) * (2 :: rat) powi ?q \<le> of_int ?k * 2 powi ?q" by simp
        moreover have "?P \<le> 2 powi (int (prec F - 1) + ?q)"
          using F gt by (intro powi2_mono) (simp add: fmt_ok_def)
        then have "?P \<le> of_int (2 ^ (prec F - 1)) * (2 :: rat) powi ?q"
          by (simp add: power_int_add)
        ultimately show ?thesis using True by linarith
      qed
    qed
    then show ?thesis using True False by (simp add: fround_def Let_def)
  qed (use False in \<open>simp add: fround_def Let_def\<close>)
qed (simp add: fround_def F)


section \<open>Arithmetic\<close>

text \<open>The value of a finite number; each operation computes the exact result and rounds it
  once, to nearest with ties to even. An exact zero keeps the sign IEEE 754 gives it.\<close>

definition fsval :: "bool \<Rightarrow> rat \<Rightarrow> rat" where
  "fsval s m = (if s then - m else m)"

fun fneg :: "fval \<Rightarrow> fval" where
  "fneg FNaN = FNaN"
| "fneg (FInf s) = FInf (\<not> s)"
| "fneg (FNum s m) = FNum (\<not> s) m"

fun fabs :: "fval \<Rightarrow> fval" where
  "fabs FNaN = FNaN"
| "fabs (FInf s) = FInf False"
| "fabs (FNum s m) = FNum False m"

fun fadd :: "ffmt \<Rightarrow> fval \<Rightarrow> fval \<Rightarrow> fval" where
  "fadd F FNaN b = FNaN"
| "fadd F a FNaN = FNaN"
| "fadd F (FInf s) (FInf t) = (if s = t then FInf s else FNaN)"
| "fadd F (FInf s) (FNum t n) = FInf s"
| "fadd F (FNum s m) (FInf t) = FInf t"
| "fadd F (FNum s m) (FNum t n) =
     (let r = fsval s m + fsval t n
      in if r = 0 then FNum (s \<and> t) 0 else fround F (r < 0) \<bar>r\<bar>)"

definition fsub :: "ffmt \<Rightarrow> fval \<Rightarrow> fval \<Rightarrow> fval" where
  "fsub F a b = fadd F a (fneg b)"

fun fmul :: "ffmt \<Rightarrow> fval \<Rightarrow> fval \<Rightarrow> fval" where
  "fmul F FNaN b = FNaN"
| "fmul F a FNaN = FNaN"
| "fmul F (FInf s) (FInf t) = FInf (s \<noteq> t)"
| "fmul F (FInf s) (FNum t n) = (if n = 0 then FNaN else FInf (s \<noteq> t))"
| "fmul F (FNum s m) (FInf t) = (if m = 0 then FNaN else FInf (s \<noteq> t))"
| "fmul F (FNum s m) (FNum t n) = fround F (s \<noteq> t) (m * n)"

fun fdiv :: "ffmt \<Rightarrow> fval \<Rightarrow> fval \<Rightarrow> fval" where
  "fdiv F FNaN b = FNaN"
| "fdiv F a FNaN = FNaN"
| "fdiv F (FInf s) (FInf t) = FNaN"
| "fdiv F (FInf s) (FNum t n) = FInf (s \<noteq> t)"
| "fdiv F (FNum s m) (FInf t) = FNum (s \<noteq> t) 0"
| "fdiv F (FNum s m) (FNum t n) =
     (if n = 0 then (if m = 0 then FNaN else FInf (s \<noteq> t)) else fround F (s \<noteq> t) (m / n))"

text \<open>Comparisons: every one with a NaN is false, and the two zeros are equal.\<close>

fun flt :: "fval \<Rightarrow> fval \<Rightarrow> bool" where
  "flt FNaN b = False"
| "flt a FNaN = False"
| "flt (FInf s) (FInf t) = (s \<and> \<not> t)"
| "flt (FInf s) (FNum t n) = s"
| "flt (FNum s m) (FInf t) = (\<not> t)"
| "flt (FNum s m) (FNum t n) = (fsval s m < fsval t n)"

fun feq :: "fval \<Rightarrow> fval \<Rightarrow> bool" where
  "feq FNaN b = False"
| "feq a FNaN = False"
| "feq (FInf s) (FInf t) = (s = t)"
| "feq (FNum s m) (FNum t n) = (fsval s m = fsval t n)"
| "feq (FInf s) (FNum t n) = False"
| "feq (FNum s m) (FInf t) = False"

definition fle :: "fval \<Rightarrow> fval \<Rightarrow> bool" where
  "fle a b \<longleftrightarrow> flt a b \<or> feq a b"

text \<open>Conversions: between formats, from an integer, and the truncation towards zero of a
  cast to an integer type (undefined in C for a NaN, an infinity and a value out of range,
  which is \<open>None\<close>).\<close>

fun fcast :: "ffmt \<Rightarrow> fval \<Rightarrow> fval" where
  "fcast F FNaN = FNaN"
| "fcast F (FInf s) = FInf s"
| "fcast F (FNum s m) = fround F s m"

definition fofint :: "ffmt \<Rightarrow> int \<Rightarrow> fval" where
  "fofint F i = fround F (i < 0) (of_int \<bar>i\<bar>)"

definition frat :: "ffmt \<Rightarrow> rat \<Rightarrow> fval" where
  "frat F r = fround F (r < 0) \<bar>r\<bar>"

fun ftoint :: "int \<Rightarrow> int \<Rightarrow> fval \<Rightarrow> int option" where
  "ftoint lo hi (FNum s m) =
     (let i = (if s then - \<lfloor>m\<rfloor> else \<lfloor>m\<rfloor>) in if lo \<le> i \<and> i \<le> hi then Some i else None)"
| "ftoint lo hi v = None"

lemma fadd_ok: "fmt_ok F \<Longrightarrow> fval_ok F (fadd F a b)"
  by (cases "(F, a, b)" rule: fadd.cases) (auto simp: Let_def fround_ok)

lemma fneg_ok [simp]: "fval_ok F (fneg a) = fval_ok F a"
  by (cases a) auto

lemma fsub_ok: "fmt_ok F \<Longrightarrow> fval_ok F (fsub F a b)"
  by (simp add: fsub_def fadd_ok)

definition fval_nonneg :: "fval \<Rightarrow> bool" where
  "fval_nonneg v = (case v of FNum s m \<Rightarrow> 0 \<le> m | _ \<Rightarrow> True)"

lemma fval_ok_nonneg: "fval_ok F v \<Longrightarrow> fval_nonneg v"
  by (cases v) (auto simp: fval_nonneg_def fmag_nonneg)

lemma fmul_ok: "fmt_ok F \<Longrightarrow> fval_ok F a \<Longrightarrow> fval_ok F b \<Longrightarrow> fval_ok F (fmul F a b)"
  by (cases "(F, a, b)" rule: fmul.cases) (auto dest!: fmag_nonneg intro!: fround_ok)

lemma fdiv_ok: "fmt_ok F \<Longrightarrow> fval_ok F a \<Longrightarrow> fval_ok F b \<Longrightarrow> fval_ok F (fdiv F a b)"
  by (cases "(F, a, b)" rule: fdiv.cases) (auto dest!: fmag_nonneg intro!: fround_ok)

lemma frat_ok: "fmt_ok F \<Longrightarrow> fval_ok F (frat F r)" "fmt_ok F \<Longrightarrow> fval_ok F (fofint F i)"
  by (auto simp: frat_def fofint_def intro!: fround_ok)

section \<open>Bit patterns\<close>

text \<open>The exponent and mantissa fields of a magnitude, as the number below the sign bit.
  \<open>mbits\<close> is the width of the mantissa field, \<open>nan_field\<close> the exponent field of the infinities
  and NaNs.\<close>

definition mbits :: "ffmt \<Rightarrow> nat" where
  "mbits F = prec F - 1"

definition nan_field :: "ffmt \<Rightarrow> nat" where
  "nan_field F = nat (emax F - emin F + 2)"

definition dec_mag :: "ffmt \<Rightarrow> nat \<Rightarrow> rat" where
  "dec_mag F n = (let e = n div 2 ^ mbits F; m = n mod 2 ^ mbits F
     in if e = 0 then of_nat m * 2 powi emin F
        else of_nat (m + 2 ^ mbits F) * 2 powi (emin F + int e - 1))"

definition enc_mag :: "ffmt \<Rightarrow> rat \<Rightarrow> nat" where
  "enc_mag F m = (if m = 0 then 0
     else nat (ulp_exp F m - emin F) * 2 ^ mbits F + nat \<lfloor>m / 2 powi ulp_exp F m\<rfloor>)"

definition dec_fval :: "ffmt \<Rightarrow> bool \<Rightarrow> nat \<Rightarrow> fval" where
  "dec_fval F s n =
     (if n div 2 ^ mbits F = nan_field F then (if n mod 2 ^ mbits F = 0 then FInf s else FNaN)
      else FNum s (dec_mag F n))"

text \<open>A NaN is written as the canonical quiet one; its payload is not part of the model.\<close>

fun enc_fval :: "ffmt \<Rightarrow> fval \<Rightarrow> bool \<times> nat" where
  "enc_fval F FNaN = (False, nan_field F * 2 ^ mbits F + 2 ^ (mbits F - 1))"
| "enc_fval F (FInf s) = (s, nan_field F * 2 ^ mbits F)"
| "enc_fval F (FNum s m) = (s, enc_mag F m)"

lemma dec_mag_parts:
  assumes "k < 2 ^ mbits F"
  shows "dec_mag F k = of_nat k * 2 powi emin F"
    "dec_mag F (j * 2 ^ mbits F + (k + 2 ^ mbits F)) = of_nat (k + 2 ^ mbits F) * 2 powi (emin F + int j)"
proof -
  show "dec_mag F k = of_nat k * 2 powi emin F" using assms by (simp add: dec_mag_def)
  have eq: "j * 2 ^ mbits F + (k + 2 ^ mbits F) = k + Suc j * 2 ^ mbits F" by simp
  have "(j * 2 ^ mbits F + (k + 2 ^ mbits F)) div 2 ^ mbits F = Suc j"
    "(j * 2 ^ mbits F + (k + 2 ^ mbits F)) mod 2 ^ mbits F = k"
    unfolding eq div_mult_self1 [OF power_not_zero [OF zero_neq_numeral [symmetric]]] mod_mult_self1
    using assms by simp_all
  then show "dec_mag F (j * 2 ^ mbits F + (k + 2 ^ mbits F)) = of_nat (k + 2 ^ mbits F) * 2 powi (emin F + int j)"
    by (simp add: dec_mag_def)
qed

lemma ulp_normal:
  assumes F: "fmt_ok F" and pos: "0 < m" and k: "m = of_int k * 2 powi ulp_exp F m" "k < 2 ^ mbits F"
  shows "ulp_exp F m = emin F"
proof (rule ccontr)
  assume "ulp_exp F m \<noteq> emin F"
  then have q: "ulp_exp F m = flog2 m - int (prec F) + 1" by (simp add: ulp_exp_def max_def split: if_splits)
  have "(2 :: rat) powi flog2 m = of_int (2 ^ mbits F) * 2 powi ulp_exp F m"
    using F by (simp add: q fmt_ok_def mbits_def flip: power_int_of_nat power_int_add)
  with flog2_bounds(1) [OF pos] have "of_int (2 ^ mbits F) * 2 powi ulp_exp F m \<le> m" by simp
  then have "of_int (2 ^ mbits F) * 2 powi ulp_exp F m \<le> of_int k * (2 :: rat) powi ulp_exp F m"
    using k(1) by (rule ord_le_eq_trans)
  then have "(of_int (2 ^ mbits F) :: rat) \<le> of_int k" by simp
  then have "2 ^ mbits F \<le> k" by (simp only: of_int_le_iff)
  then show False using k(2) by simp
qed

lemma enc_mag_ulp:
  assumes "0 < m" "m = of_int k * 2 powi ulp_exp F m"
  shows "enc_mag F m = nat (ulp_exp F m - emin F) * 2 ^ mbits F + nat k"
proof -
  have "m / 2 powi ulp_exp F m = of_int k"
    using assms(2) by (metis nonzero_mult_div_cancel_right power_int_not_zero zero_neq_numeral)
  then show ?thesis using assms(1) by (simp add: enc_mag_def)
qed

lemma prec_mbits: "fmt_ok F \<Longrightarrow> 2 ^ prec F = (2 :: 'a::semiring_1) * 2 ^ mbits F"
  by (cases "prec F") (simp_all add: fmt_ok_def mbits_def)

theorem dec_enc_mag:
  assumes F: "fmt_ok F" and m: "fmag F m"
  shows "dec_mag F (enc_mag F m) = m" "enc_mag F m < nan_field F * 2 ^ mbits F"
proof -
  have "dec_mag F (enc_mag F m) = m \<and> enc_mag F m < nan_field F * 2 ^ mbits F"
  proof (cases "m = 0")
    case True
    then show ?thesis using F dec_mag_parts(1) [of 0 F] by (simp add: enc_mag_def nan_field_def fmt_ok_def)
  next
    case False
    with fmag_nonneg [OF m] have pos: "0 < m" by simp
    obtain k where k: "m = of_int k * 2 powi ulp_exp F m" "0 < k" "k < 2 ^ prec F"
      "emin F \<le> ulp_exp F m" "ulp_exp F m \<le> emax F"
      using fmag_ulp [OF F m pos] by metis
    note e = enc_mag_ulp [OF pos k(1)]
    obtain n where n: "k = int n" using k(2) nonneg_int_cases [of k] by auto
    define j where "j = nat (ulp_exp F m - emin F)"
    have uq: "ulp_exp F m = emin F + int j" using k(4) by (simp add: j_def)
    have jn: "Suc (Suc j) \<le> nan_field F" using k(4,5) by (simp add: j_def nan_field_def)
    have "int n < int (2 * 2 ^ mbits F)" using k(3) prec_mbits [OF F, where 'a = int] n by simp
    then have np': "n < 2 * 2 ^ mbits F" by (simp only: of_nat_less_iff)
    show ?thesis
    proof (cases "n < 2 ^ mbits F")
      case True
      then have "k < 2 ^ mbits F" by (simp add: n)
      from ulp_normal [OF F pos k(1) this] have "j = 0" by (simp add: j_def)
      then have "dec_mag F (enc_mag F m) = m"
        using dec_mag_parts(1) [OF True] k(1) uq unfolding e j_def [symmetric] by (simp add: n)
      moreover have "enc_mag F m < 1 * 2 ^ mbits F" using True \<open>j = 0\<close> by (simp add: e j_def [symmetric] n)
      then have "enc_mag F m < nan_field F * 2 ^ mbits F"
        using jn mult_le_mono1 [of 1 "nan_field F" "2 ^ mbits F"] by linarith
      ultimately show ?thesis by blast
    next
      case False
      define i where "i = n - 2 ^ mbits F"
      have i: "i < 2 ^ mbits F" "n = i + 2 ^ mbits F" using False np' by (simp_all add: i_def)
      have "enc_mag F m = j * 2 ^ mbits F + n" by (simp add: e j_def [symmetric] n)
      then have e': "enc_mag F m = j * 2 ^ mbits F + (i + 2 ^ mbits F)" using i(2) by simp
      have "dec_mag F (enc_mag F m) = m"
        unfolding e' dec_mag_parts(2) [OF i(1)] using k(1) by (simp add: n i(2) uq)
      moreover have "enc_mag F m < Suc (Suc j) * 2 ^ mbits F" using i(1) by (simp add: e')
      then have "enc_mag F m < nan_field F * 2 ^ mbits F" using jn by (meson less_le_trans mult_le_mono1)
      ultimately show ?thesis by blast
    qed
  qed
  then show "dec_mag F (enc_mag F m) = m" "enc_mag F m < nan_field F * 2 ^ mbits F" by simp_all
qed


theorem enc_dec_mag:
  assumes F: "fmt_ok F" and n: "n < nan_field F * 2 ^ mbits F"
  shows "enc_mag F (dec_mag F n) = n" "fmag F (dec_mag F n)"
proof -
  let ?M = "2 ^ mbits F :: nat" and ?v = "dec_mag F n"
  define e i where ei: "e = n div ?M" "i = n mod ?M"
  have i: "i < ?M" by (simp add: ei)
  have nei: "n = e * ?M + i" unfolding ei by (simp only: div_mult_mod_eq)
  have "e * ?M < nan_field F * ?M" using n nei by linarith
  then have e: "int e \<le> emax F - emin F + 1" by (simp add: nan_field_def)
  have p: "int (prec F) = int (mbits F) + 1" using F by (simp add: fmt_ok_def mbits_def)
  have "enc_mag F ?v = n \<and> fmag F ?v"
  proof (cases "e = 0")
    case True
    then have v: "?v = of_nat n * 2 powi emin F" using dec_mag_parts(1) [OF i] nei by simp
    show ?thesis
    proof (cases "n = 0")
      case True
      then show ?thesis using F v by (simp add: enc_mag_def)
    next
      case False
      have pos: "0 < ?v" using False v by simp
      have "(of_nat n :: rat) < of_nat ?M" using i nei \<open>e = 0\<close> by (simp only: of_nat_less_iff)
      then have "?v < 2 powi (int (mbits F) + emin F)" by (simp add: v power_int_add)
      from le_less_trans [OF flog2_bounds(1) [OF pos] this]
      have "flog2 ?v < int (mbits F) + emin F" by (simp only: powi2_less_iff)
      then have u: "ulp_exp F ?v = emin F" by (simp add: ulp_exp_def p)
      have "fmag F ?v"
      proof (rule fmagI [of _ "int n" "emin F"])
        have "int n < int ?M" using i nei \<open>e = 0\<close> by (simp only: of_nat_less_iff)
        also have "int ?M \<le> 2 ^ prec F" using prec_mbits [OF F, where 'a = int] by simp
        finally show "int n < 2 ^ prec F" .
      qed (use v F in \<open>simp_all add: fmt_ok_def\<close>)
      moreover have "enc_mag F ?v = n"
        using enc_mag_ulp [OF pos, of "int n" F] v u by simp
      ultimately show ?thesis by simp
    qed
  next
    case False
    then obtain j where j: "e = Suc j" by (cases e) auto
    have v: "?v = of_nat (i + ?M) * 2 powi (emin F + int j)"
      using dec_mag_parts(2) [OF i, of j] nei by (simp add: j ac_simps)
    have pos: "0 < ?v" unfolding v by (intro mult_pos_pos) (simp_all add: add_nonneg_pos)
    have fl: "flog2 ?v = int (mbits F) + (emin F + int j)"
    proof (rule flog2_unique)
      have "(of_nat ?M :: rat) \<le> of_nat (i + ?M)" by simp
      then show "2 powi (int (mbits F) + (emin F + int j)) \<le> ?v" by (simp add: v power_int_add)
      have "(of_nat (i + ?M) :: rat) < of_nat (2 * ?M)" using i by simp
      then show "?v < 2 powi (int (mbits F) + (emin F + int j) + 1)"
        by (simp add: v power_int_add)
    qed
    then have u: "ulp_exp F ?v = emin F + int j" by (simp add: ulp_exp_def p)
    have "int i < int ?M" using i by (simp only: of_nat_less_iff)
    then have "fmag F ?v"
      using e prec_mbits [OF F, where 'a = int] j
      by (intro fmagI [of _ "int (i + ?M)" "emin F + int j"]) (auto simp: v)
    moreover have "enc_mag F ?v = n"
    proof -
      have "?v = of_int (int (i + ?M)) * 2 powi ulp_exp F ?v" unfolding u of_int_of_nat_eq by (rule v)
      from enc_mag_ulp [OF pos this] show ?thesis unfolding nat_int u using nei j by simp
    qed
    ultimately show ?thesis by simp
  qed
  then show "enc_mag F (dec_mag F n) = n" "fmag F (dec_mag F n)" by simp_all
qed


section \<open>Memory representation\<close>

text \<open>Little-endian byte sequences of integers of any width.\<close>

primrec le_bytes :: "nat \<Rightarrow> nat \<Rightarrow> u8 list" where
  "le_bytes 0 n = []"
| "le_bytes (Suc k) n = of_nat (n mod 256) # le_bytes k (n div 256)"

primrec le_nat :: "u8 list \<Rightarrow> nat" where
  "le_nat [] = 0"
| "le_nat (b # bs) = unat b + 256 * le_nat bs"

lemma length_le_bytes [simp]: "length (le_bytes k n) = k"
  by (induction k arbitrary: n) simp_all

lemma le_nat_bytes: "n < 256 ^ k \<Longrightarrow> le_nat (le_bytes k n) = n"
  by (induction k arbitrary: n) (simp_all add: unat_of_nat take_bit_eq_mod less_mult_imp_div_less mult.commute)

lemma le_bytes_nat: "le_bytes (length bs) (le_nat bs) = bs"
proof (induction bs)
  case (Cons b bs)
  have "unat b < 256" using unsigned_less [of b] by simp
  then have "(unat b + 256 * le_nat bs) mod 256 = unat b" "(unat b + 256 * le_nat bs) div 256 = le_nat bs" by simp_all
  with Cons show ?case by simp
qed simp

lemma le_nat_less: "le_nat bs < 256 ^ length bs"
proof (induction bs)
  case (Cons b bs)
  have "unat b < 256" using unsigned_less [of b] by simp
  with Cons show ?case by simp
qed simp

text \<open>A \<open>float\<close> is a 32-bit pattern, a \<open>double\<close> a 64-bit one.\<close>

definition f32_of_bits :: "u32 \<Rightarrow> fval" where
  "f32_of_bits w = dec_fval binary32 (2 ^ 31 \<le> unat w) (unat w mod 2 ^ 31)"

definition bits_of_f32 :: "fval \<Rightarrow> u32" where
  "bits_of_f32 v = (case enc_fval binary32 v of (s, n) \<Rightarrow> of_nat (if s then 2 ^ 31 + n else n))"

definition f64_of_bits :: "u64 \<Rightarrow> fval" where
  "f64_of_bits w = dec_fval binary64 (2 ^ 63 \<le> unat w) (unat w mod 2 ^ 63)"

definition bits_of_f64 :: "fval \<Rightarrow> u64" where
  "bits_of_f64 v = (case enc_fval binary64 v of (s, n) \<Rightarrow> of_nat (if s then 2 ^ 63 + n else n))"

definition f32_of_bytes :: "u8 list \<Rightarrow> fval" where
  "f32_of_bytes bs = f32_of_bits (of_nat (le_nat bs))"

definition bytes_of_f32 :: "fval \<Rightarrow> u8 list" where
  "bytes_of_f32 v = le_bytes 4 (unat (bits_of_f32 v))"

definition f64_of_bytes :: "u8 list \<Rightarrow> fval" where
  "f64_of_bytes bs = f64_of_bits (of_nat (le_nat bs))"

definition bytes_of_f64 :: "fval \<Rightarrow> u8 list" where
  "bytes_of_f64 v = le_bytes 8 (unat (bits_of_f64 v))"

lemma mbits_simps [simp]: "mbits binary32 = 23" "mbits binary64 = 52"
  "nan_field binary32 = 255" "nan_field binary64 = 2047"
  by (simp_all add: mbits_def nan_field_def binary32_def binary64_def)

lemma dec_enc_fval:
  assumes F: "fmt_ok F" and v: "fval_ok F v" and mb: "0 < mbits F"
  shows "dec_fval F (fst (enc_fval F v)) (snd (enc_fval F v)) = v"
    "snd (enc_fval F v) < Suc (nan_field F) * 2 ^ mbits F"
proof -
  have lt: "2 ^ (mbits F - 1) < (2 :: nat) ^ mbits F" using mb by simp
  then have "(nan_field F * 2 ^ mbits F + 2 ^ (mbits F - 1)) div 2 ^ mbits F = nan_field F" by simp
  moreover have "enc_mag F m div 2 ^ mbits F \<noteq> nan_field F" if "fmag F m" for m
    using less_mult_imp_div_less [OF dec_enc_mag(2) [OF F that]] by simp
  ultimately show "dec_fval F (fst (enc_fval F v)) (snd (enc_fval F v)) = v"
    using v dec_enc_mag(1) [OF F] lt by (cases v) (auto simp: dec_fval_def)
  show "snd (enc_fval F v) < Suc (nan_field F) * 2 ^ mbits F"
    using v dec_enc_mag(2) [OF F] lt by (cases v) (auto simp: trans_less_add2)
qed

lemma f32_round_trip: "fval_ok binary32 v \<Longrightarrow> f32_of_bits (bits_of_f32 v) = v"
proof -
  assume v: "fval_ok binary32 v"
  obtain s n where e: "enc_fval binary32 v = (s, n)" by fastforce
  have n: "n < 2 ^ 31" and d: "dec_fval binary32 s n = v"
    using dec_enc_fval [OF fmt_ok_binary(1) v] e by simp_all
  have "unat (of_nat (if s then 2 ^ 31 + n else n) :: u32) = (if s then 2 ^ 31 + n else n)"
    using n by (simp add: unat_of_nat take_bit_eq_mod)
  then show ?thesis using n d by (cases s) (simp_all add: f32_of_bits_def bits_of_f32_def e)
qed

lemma f64_round_trip: "fval_ok binary64 v \<Longrightarrow> f64_of_bits (bits_of_f64 v) = v"
proof -
  assume v: "fval_ok binary64 v"
  obtain s n where e: "enc_fval binary64 v = (s, n)" by fastforce
  have n: "n < 2 ^ 63" and d: "dec_fval binary64 s n = v"
    using dec_enc_fval [OF fmt_ok_binary(2) v] e by simp_all
  have "unat (of_nat (if s then 2 ^ 63 + n else n) :: u64) = (if s then 2 ^ 63 + n else n)"
    using n by (simp add: unat_of_nat take_bit_eq_mod)
  then show ?thesis using n d by (cases s) (simp_all add: f64_of_bits_def bits_of_f64_def e)
qed

lemma dec_fval_ok: "fmt_ok F \<Longrightarrow> n < Suc (nan_field F) * 2 ^ mbits F \<Longrightarrow> fval_ok F (dec_fval F s n)"
proof -
  assume F: "fmt_ok F" and n: "n < Suc (nan_field F) * 2 ^ mbits F"
  then have "n div 2 ^ mbits F < Suc (nan_field F)" by (simp only: div_less_iff_less_mult zero_less_power zero_less_numeral)
  then have "n div 2 ^ mbits F \<noteq> nan_field F \<Longrightarrow> n < nan_field F * 2 ^ mbits F"
    by (simp add: div_less_iff_less_mult [symmetric])
  then show ?thesis using enc_dec_mag(2) [OF F, of n] by (auto simp: dec_fval_def)
qed

lemma f32_of_bits_ok [simp]: "fval_ok binary32 (f32_of_bits w)"
  unfolding f32_of_bits_def by (rule dec_fval_ok) (simp_all add: mod_less_divisor [of "2 ^ 31", simplified])

lemma f64_of_bits_ok [simp]: "fval_ok binary64 (f64_of_bits w)"
  unfolding f64_of_bits_def by (rule dec_fval_ok) (simp_all add: mod_less_divisor [of "2 ^ 63", simplified])

lemma f32_bytes_round_trip: "fval_ok binary32 v \<Longrightarrow> f32_of_bytes (bytes_of_f32 v) = v"
  by (simp add: f32_of_bytes_def bytes_of_f32_def le_nat_bytes f32_round_trip)

lemma f64_bytes_round_trip: "fval_ok binary64 v \<Longrightarrow> f64_of_bytes (bytes_of_f64 v) = v"
  by (simp add: f64_of_bytes_def bytes_of_f64_def le_nat_bytes f64_round_trip)

lemma length_f32_bytes [simp]: "length (bytes_of_f32 v) = 4" "length (bytes_of_f64 v) = 8"
  by (simp_all add: bytes_of_f32_def bytes_of_f64_def)

lemma f32_of_zero_bytes [simp]: "f32_of_bytes [0, 0, 0, 0] = FNum False 0"
  by (simp add: f32_of_bytes_def f32_of_bits_def dec_fval_def dec_mag_def)

text \<open>Every pattern but a NaN is recovered from its value.\<close>

lemma mod_split_half: "x < 2 * M \<Longrightarrow> x = (if M \<le> x then M + x mod M else x mod M)" for M :: nat
  by (simp add: le_mod_geq)

lemma f32_bits_round_trip:
  assumes "f32_of_bits w \<noteq> FNaN"
  shows "bits_of_f32 (f32_of_bits w) = w"
proof -
  let ?n = "unat w mod 2 ^ 31" and ?s = "2 ^ 31 \<le> unat w"
  have w: "unat w = (if ?s then 2 ^ 31 + ?n else ?n)"
    by (rule mod_split_half) (simp add: less_le_trans [OF unat_lt_u32])
  have "enc_fval binary32 (f32_of_bits w) = (?s, ?n)"
  proof (cases "?n div 2 ^ 23 = 255")
    case True
    moreover from this have "?n mod 2 ^ 23 = 0"
      using assms by (auto simp: f32_of_bits_def dec_fval_def split: if_splits)
    ultimately have "?n = 255 * 2 ^ 23" using div_mult_mod_eq [of ?n "2 ^ 23"] by simp
    then show ?thesis by (simp add: f32_of_bits_def dec_fval_def)
  next
    case False
    have "?n div 2 ^ 23 < 256" by (simp add: div_less_iff_less_mult mod_less_divisor [of "2 ^ 31", simplified])
    with False have "?n < 255 * 2 ^ 23" by (simp add: div_less_iff_less_mult [symmetric])
    then show ?thesis
      using enc_dec_mag(1) [OF fmt_ok_binary(1), of ?n] False by (simp add: f32_of_bits_def dec_fval_def)
  qed
  then have "bits_of_f32 (f32_of_bits w) = of_nat (if ?s then 2 ^ 31 + ?n else ?n)"
    unfolding bits_of_f32_def by (simp only: prod.case)
  also have "\<dots> = of_nat (unat w)" by (rule arg_cong [OF w [symmetric]])
  finally show ?thesis by simp
qed

text \<open>Sample \<open>k\<close> of a float array.\<close>

definition f32_at :: "u8 list \<Rightarrow> nat \<Rightarrow> fval" where
  "f32_at m k = f32_of_bytes (mem_read m (4 * k) 4)"

definition f32_put :: "u8 list \<Rightarrow> nat \<Rightarrow> fval \<Rightarrow> u8 list" where
  "f32_put m k v = mem_write m (4 * k) (bytes_of_f32 v)"

lemma f32_at_append:
  "4 * x + 4 \<le> length a \<Longrightarrow> f32_at (a @ b) x = f32_at a x"
  "length a = 4 * n \<Longrightarrow> n \<le> x \<Longrightarrow> f32_at (a @ b) x = f32_at b (x - n)"
  by (simp_all add: f32_at_def mem_read_def diff_mult_distrib2)

section \<open>Rounding stays between representable bounds\<close>

lemma flog2_mono:
  assumes "0 < a" "a \<le> b"
  shows "flog2 a \<le> flog2 b"
proof -
  have "(2 :: rat) powi flog2 a \<le> a" by (rule flog2_bounds) (use assms in simp)
  also have "\<dots> \<le> b" by fact
  also have "b < 2 powi (flog2 b + 1)" by (rule flog2_bounds) (use assms in simp)
  finally have "flog2 a < flog2 b + 1" by (simp only: powi2_less_iff)
  then show ?thesis by simp
qed

lemma fmag_multiple:
  assumes F: "fmt_ok F" and m: "fmag F m" "0 < m" and e: "e \<le> ulp_exp F m"
  obtains k where "m = of_int k * 2 powi e"
proof -
  obtain k where k: "m = of_int k * 2 powi ulp_exp F m" using fmag_ulp [OF F m] by metis
  have "(2 :: rat) powi ulp_exp F m = 2 powi int (nat (ulp_exp F m - e)) * 2 powi e"
    using e by (simp flip: power_int_add)
  then have "(2 :: rat) powi ulp_exp F m = of_int (2 ^ nat (ulp_exp F m - e)) * 2 powi e"
    by (simp only: power_int_of_nat of_int_power of_int_numeral)
  then have "m = of_int (k * 2 ^ nat (ulp_exp F m - e)) * 2 powi e" using k by (metis of_int_mult mult.assoc)
  then show ?thesis by (rule that)
qed

lemma fround_bounds:
  assumes F: "fmt_ok F" and lo: "fmag F lo" "lo \<le> r" and hi: "fmag F hi" "r \<le> hi"
  shows "\<exists>r'. fround F s r = FNum s r' \<and> lo \<le> r' \<and> r' \<le> hi"
proof (cases "r = 0")
  case True
  then show ?thesis using lo hi fmag_nonneg [OF lo(1)] by (simp add: fround_def)
next
  case False
  then have r: "0 < r" using lo fmag_nonneg [OF lo(1)] by simp
  let ?e = "ulp_exp F r"
  let ?k = "round_even (r / 2 powi ?e)"
  have pos: "(0 :: rat) < 2 powi ?e" by simp
  have "?e \<le> ulp_exp F hi" using flog2_mono [OF r hi(2)] by (simp add: ulp_exp_def)
  then obtain h where h: "hi = of_int h * 2 powi ?e" using fmag_multiple [OF F hi(1)] r hi(2) by (metis order.strict_trans2)
  have "r / 2 powi ?e \<le> of_int h" using hi(2) h pos by (simp add: divide_le_eq)
  then have "of_int ?k * 2 powi ?e \<le> hi" unfolding h using round_even_le by simp
  moreover have "hi < 2 powi (emax F + int (prec F))"
    using fround_exact [OF F hi(1), of s] r hi(2) by (auto simp: fround_def Let_def split: if_splits)
  moreover have "lo \<le> of_int ?k * 2 powi ?e"
  proof (cases "0 < lo \<and> ulp_exp F lo = ?e")
    case True
    then obtain l where l: "lo = of_int l * 2 powi ?e" using fmag_multiple [OF F lo(1)] by (metis order_refl)
    have "of_int l \<le> r / 2 powi ?e" using lo(2) l pos by (simp add: le_divide_eq)
    then show ?thesis unfolding l using round_even_ge by simp
  next
    case ne: False
    show ?thesis
    proof (cases "0 < lo")
      case True
      with ne have "flog2 lo < flog2 r" "?e = flog2 r - int (prec F) + 1"
        using flog2_mono [OF True lo(2)] by (auto simp: ulp_exp_def max_def split: if_splits)
      then have p: "(2 :: rat) powi flog2 r = of_int (2 ^ (prec F - 1)) * 2 powi ?e"
        using F by (simp add: fmt_ok_def of_nat_diff flip: power_int_of_nat power_int_add)
      have "lo < 2 powi (flog2 lo + 1)" by (rule flog2_bounds [OF True])
      also have "\<dots> \<le> 2 powi flog2 r" using \<open>flog2 lo < flog2 r\<close> by (intro powi2_mono) simp
      finally have "lo \<le> of_int (2 ^ (prec F - 1)) * 2 powi ?e" using p by simp
      moreover have "of_int (2 ^ (prec F - 1)) \<le> r / 2 powi ?e"
        using flog2_bounds(1) [OF r] p pos by (simp add: le_divide_eq)
      then have "of_int (2 ^ (prec F - 1)) * 2 powi ?e \<le> of_int ?k * (2 :: rat) powi ?e"
        using round_even_ge [of "2 ^ (prec F - 1)"] pos by (metis mult_right_mono of_int_le_iff less_imp_le)
      ultimately show ?thesis by linarith
    next
      case False
      have "0 \<le> ?k" using r by (intro round_even_ge) simp
      then have "0 \<le> of_int ?k * (2 :: rat) powi ?e" by simp
      then show ?thesis using False by linarith
    qed
  qed
  ultimately show ?thesis using False by (simp add: fround_def Let_def)
qed

text \<open>The integers a format holds exactly.\<close>

lemma fmag_int:
  assumes "fmt_ok F" "k < 2 ^ prec F" "emin F \<le> 0" "0 \<le> emax F"
  shows "fmag F (of_nat k)"
  using assms by (intro fmagI [of _ "int k" 0]) auto

section \<open>Rounding in integer arithmetic\<close>

definition rdiv_even :: "int \<Rightarrow> int \<Rightarrow> int" where
  "rdiv_even a b = (let q = a div b; r = a mod b
     in if 2 * r < b then q else if b < 2 * r then q + 1 else if even q then q else q + 1)"

lemma round_even_ratio:
  assumes "0 < b"
  shows "round_even (of_int a / of_int b) = rdiv_even a b"
proof -
  have f: "\<lfloor>of_int a / of_int b :: rat\<rfloor> = a div b" by (rule floor_divide_of_int_eq)
  have "of_int a = (of_int b * of_int (a div b) + of_int (a mod b) :: rat)"
    by (metis mult_div_mod_eq of_int_add of_int_mult)
  then have d: "of_int a / of_int b - of_int (a div b) = (of_int (a mod b) / of_int b :: rat)"
    using assms by (simp add: field_simps)
  have "of_int (a mod b) / of_int b < (1 / 2 :: rat) \<longleftrightarrow> 2 * (a mod b) < b"
       "(1 / 2 :: rat) < of_int (a mod b) / of_int b \<longleftrightarrow> b < 2 * (a mod b)"
  proof -
    have "of_int (a mod b) / of_int b < (1 / 2 :: rat) \<longleftrightarrow> (of_int (2 * (a mod b)) :: rat) < of_int b"
      using assms by (simp add: field_simps)
    then show "of_int (a mod b) / of_int b < (1 / 2 :: rat) \<longleftrightarrow> 2 * (a mod b) < b" by (simp only: of_int_less_iff)
    have "(1 / 2 :: rat) < of_int (a mod b) / of_int b \<longleftrightarrow> (of_int b :: rat) < of_int (2 * (a mod b))"
      using assms by (simp add: field_simps)
    then show "(1 / 2 :: rat) < of_int (a mod b) / of_int b \<longleftrightarrow> b < 2 * (a mod b)" by (simp only: of_int_less_iff)
  qed
  then show ?thesis unfolding round_even_def rdiv_even_def Let_def f d by simp
qed

text \<open>The rounding of a ratio to \<open>float\<close> in integer arithmetic, when the result has \<open>n\<close> binary places.\<close>

lemma fround_ratio:
  assumes b: "0 < b" and n: "n < 140" and lo: "2 ^ 23 * b \<le> a * 2 ^ n" and hi: "a * 2 ^ n < 2 ^ 24 * b"
  shows "fround binary32 s (of_int a / of_int b) = FNum s (of_int (rdiv_even (a * 2 ^ n) b) / 2 ^ n)"
proof -
  let ?m = "of_int a / of_int b :: rat"
  have b': "0 < (of_int b :: rat)" using b by simp
  have "(of_int (2 ^ 23 * b) :: rat) \<le> of_int (a * 2 ^ n)" using lo by (simp only: of_int_le_iff)
  then have l: "2 ^ 23 \<le> ?m * 2 ^ n" using b' by (simp add: field_simps)
  have "(of_int (a * 2 ^ n) :: rat) < of_int (2 ^ 24 * b)" using hi by (simp only: of_int_less_iff)
  then have h: "?m * 2 ^ n < 2 ^ 24" using b' by (simp add: field_simps)
  have pe: "2 powi (23 - int n) = (2 ^ 23 / 2 ^ n :: rat)" "2 powi (24 - int n) = (2 ^ 24 / 2 ^ n :: rat)"
    "2 powi (- int n) = (1 / 2 ^ n :: rat)" by (simp_all add: power_int_diff power_int_minus field_simps)
  have fl: "flog2 ?m = 23 - int n" by (rule flog2_unique) (use l h in \<open>simp_all add: pe field_simps\<close>)
  have u: "ulp_exp binary32 ?m = - int n" using n by (simp add: ulp_exp_def fl)
  have mn: "?m \<noteq> 0" using l by auto
  have q: "?m / 2 powi (- int n) = of_int (a * 2 ^ n) / of_int b" by (simp add: pe)
  have "round_even (?m * 2 ^ n) \<le> 2 ^ 24" by (rule round_even_le) (use h in simp)
  then have k: "rdiv_even (a * 2 ^ n) b \<le> 2 ^ 24" using round_even_ratio [OF b, of "a * 2 ^ n"] by simp
  have "of_int (rdiv_even (a * 2 ^ n) b) / 2 ^ n \<le> (2 ^ 24 / 1 :: rat)"
  proof (rule frac_le)
    show "of_int (rdiv_even (a * 2 ^ n) b) \<le> (2 ^ 24 :: rat)" using k by (metis of_int_le_iff of_int_numeral of_int_power)
  qed simp_all
  also have "\<dots> < 2 powi 128" by simp
  finally show ?thesis
    unfolding fround_def Let_def u q round_even_ratio [OF b] using mn by (simp add: pe)
qed

section \<open>Bounds of floating-point results\<close>

definition fbetween :: "rat \<Rightarrow> rat \<Rightarrow> fval \<Rightarrow> bool" where
  "fbetween lo hi v \<longleftrightarrow> (\<exists>h. v = FNum False h \<and> lo \<le> h \<and> h \<le> hi)"

lemma fmag_pow2: "int n \<le> emax F \<Longrightarrow> fmt_ok F \<Longrightarrow> emin F \<le> 0 \<Longrightarrow> fmag F (2 ^ n)"
  by (rule fmagI [of _ 1 "int n"]) (auto simp: fmt_ok_def)

lemma fround_between:
  assumes "fmt_ok F" "fmag F lo" "fmag F hi" "lo \<le> r" "r \<le> hi"
  shows "fbetween lo hi (fround F False r)"
  using fround_bounds [OF assms(1,2,4,3,5), of False] by (auto simp: fbetween_def)

lemma fmul_between:
  assumes "fbetween a b x" "fbetween c d y" "0 \<le> a" "0 \<le> c" "fmt_ok F" "fmag F lo" "fmag F hi" "lo \<le> a * c" "b * d \<le> hi"
  shows "fbetween lo hi (fmul F x y)"
proof -
  obtain m n where xy: "x = FNum False m" "y = FNum False n" "a \<le> m" "m \<le> b" "c \<le> n" "n \<le> d"
    using assms(1,2) by (auto simp: fbetween_def)
  have "a * c \<le> m * n" "m * n \<le> b * d" using xy assms(3,4) by (auto intro!: mult_mono)
  then show ?thesis using assms xy by (simp add: fround_between)
qed

lemma fadd_between:
  assumes "fbetween a b x" "fbetween c d y" "0 \<le> a" "0 \<le> c" "fmt_ok F" "fmag F lo" "fmag F hi" "lo \<le> a + c" "b + d \<le> hi"
  shows "fbetween lo hi (fadd F x y)"
proof -
  obtain m n where xy: "x = FNum False m" "y = FNum False n" "a \<le> m" "m \<le> b" "c \<le> n" "n \<le> d"
    using assms(1,2) by (auto simp: fbetween_def)
  show ?thesis
  proof (cases "m + n = 0")
    case True
    then show ?thesis using xy assms by (auto simp: fbetween_def fsval_def)
  next
    case False
    then show ?thesis using assms xy fround_between [OF assms(5-7), of "m + n"] by (simp add: fsval_def Let_def)
  qed
qed

lemma fdiv_between:
  assumes "fbetween a b x" "fbetween c d y" "0 \<le> a" "0 < c" "fmt_ok F" "fmag F lo" "fmag F hi" "lo \<le> a / d" "b / c \<le> hi"
  shows "fbetween lo hi (fdiv F x y)"
proof -
  obtain m n where xy: "x = FNum False m" "y = FNum False n" "a \<le> m" "m \<le> b" "c \<le> n" "n \<le> d"
    using assms(1,2) by (auto simp: fbetween_def)
  have "a / d \<le> m / n" "m / n \<le> b / c" using xy assms(3,4) by (auto intro!: frac_le)
  then show ?thesis using assms xy by (simp add: fround_between)
qed

lemma fcast_between: "fbetween lo hi x \<Longrightarrow> fmt_ok F \<Longrightarrow> fmag F lo \<Longrightarrow> fmag F hi \<Longrightarrow> fbetween lo hi (fcast F x)"
  by (auto simp: fbetween_def [of lo hi x] intro: fround_between)

lemma frat_between: "fmt_ok F \<Longrightarrow> fmag F lo \<Longrightarrow> fmag F hi \<Longrightarrow> lo \<le> r \<Longrightarrow> r \<le> hi \<Longrightarrow> fbetween lo hi (frat F r)"
  using fround_between [of F lo hi r] fmag_nonneg [of F lo] by (simp add: frat_def)

lemma fbetween_mono: "fbetween a b v \<Longrightarrow> lo \<le> a \<Longrightarrow> b \<le> hi \<Longrightarrow> fbetween lo hi v"
  by (auto simp: fbetween_def)

end
