(* ===== verification/MaPcm.thy ===== *)
theory MaPcm
  imports MaBase CFloat
begin

text \<open>
  Sample format conversion (the section \<open>Format Conversion\<close> of miniaudio.h): the
  conversions between the five sample formats with their dithering, their dispatch on the
  processor, and interleaving. A \<open>void*\<close> buffer is a list of bytes; \<open>s16_at m i\<close> is
  \<open>((ma_int16*)m)[i]\<close> and \<open>s16_put m i v\<close> the buffer after \<open>((ma_int16*)m)[i] = v\<close>.
  Signed machine integers are words read with \<open>sint\<close>; a signed addition or left shift that
  leaves its type wraps.
\<close>

unbundle bit_operations_syntax

section \<open>Typed access to byte buffers\<close>

definition s16_at :: "u8 list \<Rightarrow> nat \<Rightarrow> s16" where
  "s16_at m i = of_nat (le_nat (mem_read m (2 * i) 2))"

definition s16_put :: "u8 list \<Rightarrow> nat \<Rightarrow> s16 \<Rightarrow> u8 list" where
  "s16_put m i v = mem_write m (2 * i) (le_bytes 2 (unat v))"

definition s32_at :: "u8 list \<Rightarrow> nat \<Rightarrow> s32" where
  "s32_at m i = of_nat (le_nat (mem_read m (4 * i) 4))"

definition s32_put :: "u8 list \<Rightarrow> nat \<Rightarrow> s32 \<Rightarrow> u8 list" where
  "s32_put m i v = mem_write m (4 * i) (le_bytes 4 (unat v))"

text \<open>The three byte stores \<open>m[i*3+0] = a; m[i*3+1] = b; m[i*3+2] = c\<close>.\<close>

definition s24_put :: "u8 list \<Rightarrow> nat \<Rightarrow> u8 \<Rightarrow> u8 \<Rightarrow> u8 \<Rightarrow> u8 list" where
  "s24_put m i a b c = m[i * 3 := a, i * 3 + 1 := b, i * 3 + 2 := c]"

text \<open>The assignment \<open>m[i] = src[j]\<close> for elements of \<open>z\<close> bytes.\<close>

definition elem_copy :: "nat \<Rightarrow> u8 list \<Rightarrow> nat \<Rightarrow> u8 list \<Rightarrow> nat \<Rightarrow> u8 list" where
  "elem_copy z m i src j = mem_write m (z * i) (mem_read src (z * j) z)"

text \<open>The loop \<open>for (i = 0; i < n; i += 1) s = f(i, s)\<close> with a counter as wide as its bound.\<close>

definition for_count :: "'n::len word \<Rightarrow> (nat \<Rightarrow> 's \<Rightarrow> 's) \<Rightarrow> 's \<Rightarrow> 's" where
  "for_count n f s = fold f [0..<unat n] s"

definition ma_copy_memory_64 :: "u8 list \<Rightarrow> u8 list \<Rightarrow> u64 \<Rightarrow> u8 list" where
  "ma_copy_memory_64 dst src sizeInBytes = mem_write dst 0 (mem_read src 0 (unat sizeInBytes))"

section \<open>Random numbers and dithering\<close>

datatype ma_dither_mode = ma_dither_mode_none | ma_dither_mode_rectangle | ma_dither_mode_triangle

text \<open>The state of the global generator \<open>g_maLCG\<close>, threaded through every function that
  draws from it. The product \<open>MA_LCG_A * state\<close> is an unsigned 32-bit product and wraps.\<close>

type_synonym ma_lcg = u32

definition g_maLCG :: ma_lcg where
  "g_maLCG = 4321"

definition ma_lcg_rand_s32 :: "ma_lcg \<Rightarrow> s32 \<times> ma_lcg" where
  "ma_lcg_rand_s32 state = (let state' = (48271 * state) mod 2147483647 in (state', state'))"

definition ma_lcg_rand_u32 :: "ma_lcg \<Rightarrow> u32 \<times> ma_lcg" where
  "ma_lcg_rand_u32 state = ma_lcg_rand_s32 state"

definition ma_lcg_rand_f64 :: "ma_lcg \<Rightarrow> fval \<times> ma_lcg" where
  "ma_lcg_rand_f64 state = (case ma_lcg_rand_s32 state of (r, state') \<Rightarrow>
     (fdiv binary64 (fofint binary64 (sint r)) (fofint binary64 0x7FFFFFFF), state'))"

definition ma_lcg_rand_f32 :: "ma_lcg \<Rightarrow> fval \<times> ma_lcg" where
  "ma_lcg_rand_f32 state = (case ma_lcg_rand_f64 state of (r, state') \<Rightarrow> (fcast binary32 r, state'))"

definition ma_scale_to_range_f32 :: "fval \<Rightarrow> fval \<Rightarrow> fval \<Rightarrow> fval" where
  "ma_scale_to_range_f32 x lo hi = fadd binary32 lo (fmul binary32 x (fsub binary32 hi lo))"

definition ma_lcg_rand_range_f32 :: "ma_lcg \<Rightarrow> fval \<Rightarrow> fval \<Rightarrow> fval \<times> ma_lcg" where
  "ma_lcg_rand_range_f32 state lo hi =
     (case ma_lcg_rand_f32 state of (r, state') \<Rightarrow> (ma_scale_to_range_f32 r lo hi, state'))"

text \<open>The unsigned division makes the whole sum unsigned; it is converted back on return.\<close>

definition ma_lcg_rand_range_s32 :: "ma_lcg \<Rightarrow> s32 \<Rightarrow> s32 \<Rightarrow> s32 \<times> ma_lcg" where
  "ma_lcg_rand_range_s32 state lo hi =
     (if lo = hi then (lo, state)
      else case ma_lcg_rand_u32 state of (r, state') \<Rightarrow> (lo + r div (0xFFFFFFFF div (hi - lo + 1) + 1), state'))"

definition ma_dither_f32_rectangle :: "ma_lcg \<Rightarrow> fval \<Rightarrow> fval \<Rightarrow> fval \<times> ma_lcg" where
  "ma_dither_f32_rectangle lcg ditherMin ditherMax = ma_lcg_rand_range_f32 lcg ditherMin ditherMax"

definition ma_dither_f32_triangle :: "ma_lcg \<Rightarrow> fval \<Rightarrow> fval \<Rightarrow> fval \<times> ma_lcg" where
  "ma_dither_f32_triangle lcg ditherMin ditherMax =
     (case ma_lcg_rand_range_f32 lcg ditherMin (FNum False 0) of (a, lcg1) \<Rightarrow>
      case ma_lcg_rand_range_f32 lcg1 (FNum False 0) ditherMax of (b, lcg2) \<Rightarrow> (fadd binary32 a b, lcg2))"

definition ma_dither_f32 :: "ma_dither_mode \<Rightarrow> fval \<Rightarrow> fval \<Rightarrow> ma_lcg \<Rightarrow> fval \<times> ma_lcg" where
  "ma_dither_f32 ditherMode ditherMin ditherMax lcg =
     (if ditherMode = ma_dither_mode_rectangle then ma_dither_f32_rectangle lcg ditherMin ditherMax
      else if ditherMode = ma_dither_mode_triangle then ma_dither_f32_triangle lcg ditherMin ditherMax
      else (FNum False 0, lcg))"

definition ma_dither_s32 :: "ma_dither_mode \<Rightarrow> s32 \<Rightarrow> s32 \<Rightarrow> ma_lcg \<Rightarrow> s32 \<times> ma_lcg" where
  "ma_dither_s32 ditherMode ditherMin ditherMax lcg =
     (if ditherMode = ma_dither_mode_rectangle then ma_lcg_rand_range_s32 lcg ditherMin ditherMax
      else if ditherMode = ma_dither_mode_triangle
      then case ma_lcg_rand_range_s32 lcg ditherMin 0 of (a, lcg1) \<Rightarrow>
           case ma_lcg_rand_range_s32 lcg1 0 ditherMax of (b, lcg2) \<Rightarrow> (a + b, lcg2)
      else (0, lcg))"

section \<open>Conversions\<close>

text \<open>What the compiled code depends on: the vector unit in use, whether both buffers are
  aligned to 16 bytes, in which order the compiler evaluates the arguments of
  \<open>_mm_set_ps\<close> (\<open>cpu_draw k\<close> is the number of the draw that ends in lane \<open>k\<close>), and what the
  machine yields for a float-to-integer conversion that C leaves undefined.\<close>

datatype ma_simd = no_simd | simd_sse2 | simd_neon

record ma_cpu =
  cpu_simd :: ma_simd
  cpu_aligned :: bool
  cpu_draw :: "nat \<Rightarrow> nat"
  cpu_badcast :: "fval \<Rightarrow> int"

text \<open>Every conversion takes the destination, the source, the sample count, the dither mode
  and the generator, and returns the destination and the generator.\<close>

type_synonym pcm_conv = "u8 list \<Rightarrow> u8 list \<Rightarrow> u64 \<Rightarrow> ma_dither_mode \<Rightarrow> ma_lcg \<Rightarrow> u8 list \<times> ma_lcg"

definition pcm_dispatch :: "ma_cpu \<Rightarrow> 'c \<Rightarrow> 'c \<Rightarrow> 'c \<Rightarrow> 'c" where
  "pcm_dispatch cpu sse2 neon optimized =
     (case cpu_simd cpu of simd_sse2 \<Rightarrow> sse2 | simd_neon \<Rightarrow> neon | no_simd \<Rightarrow> optimized)"

definition c_cast :: "ma_cpu \<Rightarrow> int \<Rightarrow> int \<Rightarrow> fval \<Rightarrow> int" where
  "c_cast cpu lo hi v = (case ftoint lo hi v of Some i \<Rightarrow> i | None \<Rightarrow> cpu_badcast cpu v)"

text \<open>The clip \<open>(x < -1) ? -1 : ((x > 1) ? 1 : x)\<close>.\<close>

definition pcm_clip :: "fval \<Rightarrow> fval" where
  "pcm_clip x = (if flt x (FNum True 1) then FNum True 1 else if flt (FNum False 1) x then FNum False 1 else x)"

text \<open>Adding a dither value, bounded above only.\<close>

definition dither_add16 :: "s16 \<Rightarrow> s32 \<Rightarrow> s16" where
  "dither_add16 x d = (if sint x + sint d \<le> 0x7FFF then word_of_int (sint x + sint d) else 0x7FFF)"

definition dither_add32 :: "s32 \<Rightarrow> s32 \<Rightarrow> s32" where
  "dither_add32 x d = (if sint x + sint d \<le> 0x7FFFFFFF then x + d else 0x7FFFFFFF)"

text \<open>A sample of three bytes moved to the top of 32 bits.\<close>

definition s24_at :: "u8 list \<Rightarrow> nat \<Rightarrow> s32" where
  "s24_at m i = push_bit 8 (ucast (m ! (i * 3))) OR push_bit 16 (ucast (m ! (i * 3 + 1))) OR push_bit 24 (ucast (m ! (i * 3 + 2)))"

subsection \<open>From unsigned 8 bit\<close>

definition ma_pcm_u8_to_u8 :: pcm_conv where
  "ma_pcm_u8_to_u8 dst src count ditherMode lcg = (ma_copy_memory_64 dst src (count * 1), lcg)"

definition ma_pcm_u8_to_s16__reference :: pcm_conv where
  "ma_pcm_u8_to_s16__reference dst src count ditherMode lcg =
     (for_count count (\<lambda>i dst. s16_put dst i (push_bit 8 (ucast (src ! i) - 128))) dst, lcg)"

definition ma_pcm_u8_to_s16__optimized :: pcm_conv where
  "ma_pcm_u8_to_s16__optimized = ma_pcm_u8_to_s16__reference"

definition ma_pcm_u8_to_s16__sse2 :: pcm_conv where
  "ma_pcm_u8_to_s16__sse2 = ma_pcm_u8_to_s16__optimized"

definition ma_pcm_u8_to_s16__neon :: pcm_conv where
  "ma_pcm_u8_to_s16__neon = ma_pcm_u8_to_s16__optimized"

definition ma_pcm_u8_to_s16 :: "ma_cpu \<Rightarrow> pcm_conv" where
  "ma_pcm_u8_to_s16 cpu = pcm_dispatch cpu (ma_pcm_u8_to_s16__sse2) (ma_pcm_u8_to_s16__neon) (ma_pcm_u8_to_s16__optimized)"

definition ma_pcm_u8_to_s24__reference :: pcm_conv where
  "ma_pcm_u8_to_s24__reference dst src count ditherMode lcg =
     (for_count count (\<lambda>i dst. s24_put dst i 0 0 (ucast (ucast (src ! i) - 128 :: s16))) dst, lcg)"

definition ma_pcm_u8_to_s24__optimized :: pcm_conv where
  "ma_pcm_u8_to_s24__optimized = ma_pcm_u8_to_s24__reference"

definition ma_pcm_u8_to_s24__sse2 :: pcm_conv where
  "ma_pcm_u8_to_s24__sse2 = ma_pcm_u8_to_s24__optimized"

definition ma_pcm_u8_to_s24__neon :: pcm_conv where
  "ma_pcm_u8_to_s24__neon = ma_pcm_u8_to_s24__optimized"

definition ma_pcm_u8_to_s24 :: "ma_cpu \<Rightarrow> pcm_conv" where
  "ma_pcm_u8_to_s24 cpu = pcm_dispatch cpu (ma_pcm_u8_to_s24__sse2) (ma_pcm_u8_to_s24__neon) (ma_pcm_u8_to_s24__optimized)"

definition ma_pcm_u8_to_s32__reference :: pcm_conv where
  "ma_pcm_u8_to_s32__reference dst src count ditherMode lcg =
     (for_count count (\<lambda>i dst. s32_put dst i (push_bit 24 (ucast (src ! i) - 128))) dst, lcg)"

definition ma_pcm_u8_to_s32__optimized :: pcm_conv where
  "ma_pcm_u8_to_s32__optimized = ma_pcm_u8_to_s32__reference"

definition ma_pcm_u8_to_s32__sse2 :: pcm_conv where
  "ma_pcm_u8_to_s32__sse2 = ma_pcm_u8_to_s32__optimized"

definition ma_pcm_u8_to_s32__neon :: pcm_conv where
  "ma_pcm_u8_to_s32__neon = ma_pcm_u8_to_s32__optimized"

definition ma_pcm_u8_to_s32 :: "ma_cpu \<Rightarrow> pcm_conv" where
  "ma_pcm_u8_to_s32 cpu = pcm_dispatch cpu (ma_pcm_u8_to_s32__sse2) (ma_pcm_u8_to_s32__neon) (ma_pcm_u8_to_s32__optimized)"

definition ma_pcm_u8_to_f32__reference :: pcm_conv where
  "ma_pcm_u8_to_f32__reference dst src count ditherMode lcg =
     (for_count count (\<lambda>i dst. f32_put dst i (fsub binary32 (fmul binary32 (fofint binary32 (uint (src ! i)))
         (frat binary32 (784313725490196078 / 100000000000000000000))) (FNum False 1))) dst, lcg)"

definition ma_pcm_u8_to_f32__optimized :: pcm_conv where
  "ma_pcm_u8_to_f32__optimized = ma_pcm_u8_to_f32__reference"

definition ma_pcm_u8_to_f32__sse2 :: pcm_conv where
  "ma_pcm_u8_to_f32__sse2 = ma_pcm_u8_to_f32__optimized"

definition ma_pcm_u8_to_f32__neon :: pcm_conv where
  "ma_pcm_u8_to_f32__neon = ma_pcm_u8_to_f32__optimized"

definition ma_pcm_u8_to_f32 :: "ma_cpu \<Rightarrow> pcm_conv" where
  "ma_pcm_u8_to_f32 cpu = pcm_dispatch cpu (ma_pcm_u8_to_f32__sse2) (ma_pcm_u8_to_f32__neon) (ma_pcm_u8_to_f32__optimized)"

subsection \<open>From signed 16 bit\<close>

definition ma_pcm_s16_to_u8__reference :: pcm_conv where
  "ma_pcm_s16_to_u8__reference dst src count ditherMode lcg =
     (if ditherMode = ma_dither_mode_none then (for_count count (\<lambda>i dst. dst[i := ucast (signed_drop_bit 8 (s16_at src i) + 128)]) dst, lcg)
      else for_count count (\<lambda>i (dst, lcg). case ma_dither_s32 ditherMode (- 0x80) 0x7F lcg of (d, lcg') \<Rightarrow>
             (dst[i := ucast (signed_drop_bit 8 (dither_add16 (s16_at src i) d) + 128)], lcg')) (dst, lcg))"

definition ma_pcm_s16_to_u8__optimized :: pcm_conv where
  "ma_pcm_s16_to_u8__optimized = ma_pcm_s16_to_u8__reference"

definition ma_pcm_s16_to_u8__sse2 :: pcm_conv where
  "ma_pcm_s16_to_u8__sse2 = ma_pcm_s16_to_u8__optimized"

definition ma_pcm_s16_to_u8__neon :: pcm_conv where
  "ma_pcm_s16_to_u8__neon = ma_pcm_s16_to_u8__optimized"

definition ma_pcm_s16_to_u8 :: "ma_cpu \<Rightarrow> pcm_conv" where
  "ma_pcm_s16_to_u8 cpu = pcm_dispatch cpu (ma_pcm_s16_to_u8__sse2) (ma_pcm_s16_to_u8__neon) (ma_pcm_s16_to_u8__optimized)"

definition ma_pcm_s16_to_s16 :: pcm_conv where
  "ma_pcm_s16_to_s16 dst src count ditherMode lcg = (ma_copy_memory_64 dst src (count * 2), lcg)"

definition ma_pcm_s16_to_s24__reference :: pcm_conv where
  "ma_pcm_s16_to_s24__reference dst src count ditherMode lcg =
     (for_count count (\<lambda>i dst. s24_put dst i 0 (ucast (s16_at src i AND 0xFF)) (ucast (signed_drop_bit 8 (s16_at src i)))) dst, lcg)"

definition ma_pcm_s16_to_s24__optimized :: pcm_conv where
  "ma_pcm_s16_to_s24__optimized = ma_pcm_s16_to_s24__reference"

definition ma_pcm_s16_to_s24__sse2 :: pcm_conv where
  "ma_pcm_s16_to_s24__sse2 = ma_pcm_s16_to_s24__optimized"

definition ma_pcm_s16_to_s24__neon :: pcm_conv where
  "ma_pcm_s16_to_s24__neon = ma_pcm_s16_to_s24__optimized"

definition ma_pcm_s16_to_s24 :: "ma_cpu \<Rightarrow> pcm_conv" where
  "ma_pcm_s16_to_s24 cpu = pcm_dispatch cpu (ma_pcm_s16_to_s24__sse2) (ma_pcm_s16_to_s24__neon) (ma_pcm_s16_to_s24__optimized)"

definition ma_pcm_s16_to_s32__reference :: pcm_conv where
  "ma_pcm_s16_to_s32__reference dst src count ditherMode lcg =
     (for_count count (\<lambda>i dst. s32_put dst i (push_bit 16 (scast (s16_at src i)))) dst, lcg)"

definition ma_pcm_s16_to_s32__optimized :: pcm_conv where
  "ma_pcm_s16_to_s32__optimized = ma_pcm_s16_to_s32__reference"

definition ma_pcm_s16_to_s32__sse2 :: pcm_conv where
  "ma_pcm_s16_to_s32__sse2 = ma_pcm_s16_to_s32__optimized"

definition ma_pcm_s16_to_s32__neon :: pcm_conv where
  "ma_pcm_s16_to_s32__neon = ma_pcm_s16_to_s32__optimized"

definition ma_pcm_s16_to_s32 :: "ma_cpu \<Rightarrow> pcm_conv" where
  "ma_pcm_s16_to_s32 cpu = pcm_dispatch cpu (ma_pcm_s16_to_s32__sse2) (ma_pcm_s16_to_s32__neon) (ma_pcm_s16_to_s32__optimized)"

definition ma_pcm_s16_to_f32__reference :: pcm_conv where
  "ma_pcm_s16_to_f32__reference dst src count ditherMode lcg =
     (for_count count (\<lambda>i dst. f32_put dst i (fmul binary32 (fofint binary32 (sint (s16_at src i))) (frat binary32 (1 / 32768)))) dst, lcg)"

definition ma_pcm_s16_to_f32__optimized :: pcm_conv where
  "ma_pcm_s16_to_f32__optimized = ma_pcm_s16_to_f32__reference"

definition ma_pcm_s16_to_f32__sse2 :: pcm_conv where
  "ma_pcm_s16_to_f32__sse2 = ma_pcm_s16_to_f32__optimized"

definition ma_pcm_s16_to_f32__neon :: pcm_conv where
  "ma_pcm_s16_to_f32__neon = ma_pcm_s16_to_f32__optimized"

definition ma_pcm_s16_to_f32 :: "ma_cpu \<Rightarrow> pcm_conv" where
  "ma_pcm_s16_to_f32 cpu = pcm_dispatch cpu (ma_pcm_s16_to_f32__sse2) (ma_pcm_s16_to_f32__neon) (ma_pcm_s16_to_f32__optimized)"

subsection \<open>From signed 24 bit\<close>

definition ma_pcm_s24_to_u8__reference :: pcm_conv where
  "ma_pcm_s24_to_u8__reference dst src count ditherMode lcg =
     (if ditherMode = ma_dither_mode_none then (for_count count (\<lambda>i dst. dst[i := ucast (scast (src ! (i * 3 + 2)) + 128 :: s32)]) dst, lcg)
      else for_count count (\<lambda>i (dst, lcg). case ma_dither_s32 ditherMode (- 0x800000) 0x7FFFFF lcg of (d, lcg') \<Rightarrow>
             (dst[i := ucast (signed_drop_bit 24 (dither_add32 (s24_at src i) d) + 128)], lcg')) (dst, lcg))"

definition ma_pcm_s24_to_u8__optimized :: pcm_conv where
  "ma_pcm_s24_to_u8__optimized = ma_pcm_s24_to_u8__reference"

definition ma_pcm_s24_to_u8__sse2 :: pcm_conv where
  "ma_pcm_s24_to_u8__sse2 = ma_pcm_s24_to_u8__optimized"

definition ma_pcm_s24_to_u8__neon :: pcm_conv where
  "ma_pcm_s24_to_u8__neon = ma_pcm_s24_to_u8__optimized"

definition ma_pcm_s24_to_u8 :: "ma_cpu \<Rightarrow> pcm_conv" where
  "ma_pcm_s24_to_u8 cpu = pcm_dispatch cpu (ma_pcm_s24_to_u8__sse2) (ma_pcm_s24_to_u8__neon) (ma_pcm_s24_to_u8__optimized)"

definition ma_pcm_s24_to_s16__reference :: pcm_conv where
  "ma_pcm_s24_to_s16__reference dst src count ditherMode lcg =
     (if ditherMode = ma_dither_mode_none then (for_count count (\<lambda>i dst. s16_put dst i (ucast (src ! (i * 3 + 1)) OR push_bit 8 (ucast (src ! (i * 3 + 2))))) dst, lcg)
      else for_count count (\<lambda>i (dst, lcg). case ma_dither_s32 ditherMode (- 0x8000) 0x7FFF lcg of (d, lcg') \<Rightarrow>
             (s16_put dst i (ucast (signed_drop_bit 16 (dither_add32 (s24_at src i) d))), lcg')) (dst, lcg))"

definition ma_pcm_s24_to_s16__optimized :: pcm_conv where
  "ma_pcm_s24_to_s16__optimized = ma_pcm_s24_to_s16__reference"

definition ma_pcm_s24_to_s16__sse2 :: pcm_conv where
  "ma_pcm_s24_to_s16__sse2 = ma_pcm_s24_to_s16__optimized"

definition ma_pcm_s24_to_s16__neon :: pcm_conv where
  "ma_pcm_s24_to_s16__neon = ma_pcm_s24_to_s16__optimized"

definition ma_pcm_s24_to_s16 :: "ma_cpu \<Rightarrow> pcm_conv" where
  "ma_pcm_s24_to_s16 cpu = pcm_dispatch cpu (ma_pcm_s24_to_s16__sse2) (ma_pcm_s24_to_s16__neon) (ma_pcm_s24_to_s16__optimized)"

definition ma_pcm_s24_to_s24 :: pcm_conv where
  "ma_pcm_s24_to_s24 dst src count ditherMode lcg = (ma_copy_memory_64 dst src (count * 3), lcg)"

definition ma_pcm_s24_to_s32__reference :: pcm_conv where
  "ma_pcm_s24_to_s32__reference dst src count ditherMode lcg =
     (for_count count (\<lambda>i dst. s32_put dst i (s24_at src i)) dst, lcg)"

definition ma_pcm_s24_to_s32__optimized :: pcm_conv where
  "ma_pcm_s24_to_s32__optimized = ma_pcm_s24_to_s32__reference"

definition ma_pcm_s24_to_s32__sse2 :: pcm_conv where
  "ma_pcm_s24_to_s32__sse2 = ma_pcm_s24_to_s32__optimized"

definition ma_pcm_s24_to_s32__neon :: pcm_conv where
  "ma_pcm_s24_to_s32__neon = ma_pcm_s24_to_s32__optimized"

definition ma_pcm_s24_to_s32 :: "ma_cpu \<Rightarrow> pcm_conv" where
  "ma_pcm_s24_to_s32 cpu = pcm_dispatch cpu (ma_pcm_s24_to_s32__sse2) (ma_pcm_s24_to_s32__neon) (ma_pcm_s24_to_s32__optimized)"

definition ma_pcm_s24_to_f32__reference :: pcm_conv where
  "ma_pcm_s24_to_f32__reference dst src count ditherMode lcg =
     (for_count count (\<lambda>i dst. f32_put dst i (fmul binary32 (fofint binary32 (sint (signed_drop_bit 8 (s24_at src i)))) (frat binary32 (1 / 8388608)))) dst, lcg)"

definition ma_pcm_s24_to_f32__optimized :: pcm_conv where
  "ma_pcm_s24_to_f32__optimized = ma_pcm_s24_to_f32__reference"

definition ma_pcm_s24_to_f32__sse2 :: pcm_conv where
  "ma_pcm_s24_to_f32__sse2 = ma_pcm_s24_to_f32__optimized"

definition ma_pcm_s24_to_f32__neon :: pcm_conv where
  "ma_pcm_s24_to_f32__neon = ma_pcm_s24_to_f32__optimized"

definition ma_pcm_s24_to_f32 :: "ma_cpu \<Rightarrow> pcm_conv" where
  "ma_pcm_s24_to_f32 cpu = pcm_dispatch cpu (ma_pcm_s24_to_f32__sse2) (ma_pcm_s24_to_f32__neon) (ma_pcm_s24_to_f32__optimized)"

subsection \<open>From signed 32 bit\<close>

definition ma_pcm_s32_to_u8__reference :: pcm_conv where
  "ma_pcm_s32_to_u8__reference dst src count ditherMode lcg =
     (if ditherMode = ma_dither_mode_none then (for_count count (\<lambda>i dst. dst[i := ucast (signed_drop_bit 24 (s32_at src i) + 128)]) dst, lcg)
      else for_count count (\<lambda>i (dst, lcg). case ma_dither_s32 ditherMode (- 0x800000) 0x7FFFFF lcg of (d, lcg') \<Rightarrow>
             (dst[i := ucast (signed_drop_bit 24 (dither_add32 (s32_at src i) d) + 128)], lcg')) (dst, lcg))"

definition ma_pcm_s32_to_u8__optimized :: pcm_conv where
  "ma_pcm_s32_to_u8__optimized = ma_pcm_s32_to_u8__reference"

definition ma_pcm_s32_to_u8__sse2 :: pcm_conv where
  "ma_pcm_s32_to_u8__sse2 = ma_pcm_s32_to_u8__optimized"

definition ma_pcm_s32_to_u8__neon :: pcm_conv where
  "ma_pcm_s32_to_u8__neon = ma_pcm_s32_to_u8__optimized"

definition ma_pcm_s32_to_u8 :: "ma_cpu \<Rightarrow> pcm_conv" where
  "ma_pcm_s32_to_u8 cpu = pcm_dispatch cpu (ma_pcm_s32_to_u8__sse2) (ma_pcm_s32_to_u8__neon) (ma_pcm_s32_to_u8__optimized)"

definition ma_pcm_s32_to_s16__reference :: pcm_conv where
  "ma_pcm_s32_to_s16__reference dst src count ditherMode lcg =
     (if ditherMode = ma_dither_mode_none then (for_count count (\<lambda>i dst. s16_put dst i (ucast (signed_drop_bit 16 (s32_at src i)))) dst, lcg)
      else for_count count (\<lambda>i (dst, lcg). case ma_dither_s32 ditherMode (- 0x8000) 0x7FFF lcg of (d, lcg') \<Rightarrow>
             (s16_put dst i (ucast (signed_drop_bit 16 (dither_add32 (s32_at src i) d))), lcg')) (dst, lcg))"

definition ma_pcm_s32_to_s16__optimized :: pcm_conv where
  "ma_pcm_s32_to_s16__optimized = ma_pcm_s32_to_s16__reference"

definition ma_pcm_s32_to_s16__sse2 :: pcm_conv where
  "ma_pcm_s32_to_s16__sse2 = ma_pcm_s32_to_s16__optimized"

definition ma_pcm_s32_to_s16__neon :: pcm_conv where
  "ma_pcm_s32_to_s16__neon = ma_pcm_s32_to_s16__optimized"

definition ma_pcm_s32_to_s16 :: "ma_cpu \<Rightarrow> pcm_conv" where
  "ma_pcm_s32_to_s16 cpu = pcm_dispatch cpu (ma_pcm_s32_to_s16__sse2) (ma_pcm_s32_to_s16__neon) (ma_pcm_s32_to_s16__optimized)"

definition ma_pcm_s32_to_s24__reference :: pcm_conv where
  "ma_pcm_s32_to_s24__reference dst src count ditherMode lcg =
     (for_count count (\<lambda>i dst. (let x = s32_at src i
       in s24_put dst i (ucast (drop_bit 8 (x AND 0xFF00))) (ucast (drop_bit 16 (x AND 0xFF0000))) (ucast (drop_bit 24 (x AND 0xFF000000))))) dst, lcg)"

definition ma_pcm_s32_to_s24__optimized :: pcm_conv where
  "ma_pcm_s32_to_s24__optimized = ma_pcm_s32_to_s24__reference"

definition ma_pcm_s32_to_s24__sse2 :: pcm_conv where
  "ma_pcm_s32_to_s24__sse2 = ma_pcm_s32_to_s24__optimized"

definition ma_pcm_s32_to_s24__neon :: pcm_conv where
  "ma_pcm_s32_to_s24__neon = ma_pcm_s32_to_s24__optimized"

definition ma_pcm_s32_to_s24 :: "ma_cpu \<Rightarrow> pcm_conv" where
  "ma_pcm_s32_to_s24 cpu = pcm_dispatch cpu (ma_pcm_s32_to_s24__sse2) (ma_pcm_s32_to_s24__neon) (ma_pcm_s32_to_s24__optimized)"

definition ma_pcm_s32_to_s32 :: pcm_conv where
  "ma_pcm_s32_to_s32 dst src count ditherMode lcg = (ma_copy_memory_64 dst src (count * 4), lcg)"

definition ma_pcm_s32_to_f32__reference :: pcm_conv where
  "ma_pcm_s32_to_f32__reference dst src count ditherMode lcg =
     (for_count count (\<lambda>i dst. f32_put dst i (fcast binary32 (fdiv binary64 (fofint binary64 (sint (s32_at src i))) (fofint binary64 2147483648)))) dst, lcg)"

definition ma_pcm_s32_to_f32__optimized :: pcm_conv where
  "ma_pcm_s32_to_f32__optimized = ma_pcm_s32_to_f32__reference"

definition ma_pcm_s32_to_f32__sse2 :: pcm_conv where
  "ma_pcm_s32_to_f32__sse2 = ma_pcm_s32_to_f32__optimized"

definition ma_pcm_s32_to_f32__neon :: pcm_conv where
  "ma_pcm_s32_to_f32__neon = ma_pcm_s32_to_f32__optimized"

definition ma_pcm_s32_to_f32 :: "ma_cpu \<Rightarrow> pcm_conv" where
  "ma_pcm_s32_to_f32 cpu = pcm_dispatch cpu (ma_pcm_s32_to_f32__sse2) (ma_pcm_s32_to_f32__neon) (ma_pcm_s32_to_f32__optimized)"

subsection \<open>From 32 bit float\<close>

definition ma_pcm_f32_to_u8__reference :: "ma_cpu \<Rightarrow> pcm_conv" where
  "ma_pcm_f32_to_u8__reference cpu dst src count ditherMode lcg =
     (let ditherMin = (if ditherMode = ma_dither_mode_none then FNum False 0 else fdiv binary32 (FNum False 1) (FNum True 128));
          ditherMax = (if ditherMode = ma_dither_mode_none then FNum False 0 else fdiv binary32 (FNum False 1) (FNum False 127))
      in for_count count (\<lambda>i (dst, lcg). case ma_dither_f32 ditherMode ditherMin ditherMax lcg of (d, lcg') \<Rightarrow>
           (dst[i := word_of_int (c_cast cpu 0 255 (fmul binary32
             (fadd binary32 (pcm_clip (fadd binary32 (f32_at src i) d)) (FNum False 1)) (frat binary32 (255 / 2))))], lcg')) (dst, lcg))"

definition ma_pcm_f32_to_u8__optimized :: "ma_cpu \<Rightarrow> pcm_conv" where
  "ma_pcm_f32_to_u8__optimized = ma_pcm_f32_to_u8__reference"

definition ma_pcm_f32_to_u8__sse2 :: "ma_cpu \<Rightarrow> pcm_conv" where
  "ma_pcm_f32_to_u8__sse2 = ma_pcm_f32_to_u8__optimized"

definition ma_pcm_f32_to_u8__neon :: "ma_cpu \<Rightarrow> pcm_conv" where
  "ma_pcm_f32_to_u8__neon = ma_pcm_f32_to_u8__optimized"

definition ma_pcm_f32_to_u8 :: "ma_cpu \<Rightarrow> pcm_conv" where
  "ma_pcm_f32_to_u8 cpu = pcm_dispatch cpu (ma_pcm_f32_to_u8__sse2 cpu) (ma_pcm_f32_to_u8__neon cpu) (ma_pcm_f32_to_u8__optimized cpu)"

text \<open>One sample of the conversion to 16 bit: dither, clip, scale, truncate.\<close>

definition f32_s16_sample :: "ma_cpu \<Rightarrow> fval \<Rightarrow> fval \<Rightarrow> s16" where
  "f32_s16_sample cpu x d =
     word_of_int (c_cast cpu (- 32768) 32767 (fmul binary32 (pcm_clip (fadd binary32 x d)) (FNum False 32767)))"

definition f32_s16_dither :: "ma_dither_mode \<Rightarrow> fval \<times> fval" where
  "f32_s16_dither ditherMode =
     (if ditherMode \<noteq> ma_dither_mode_none
      then (fdiv binary32 (FNum False 1) (FNum True 32768), fdiv binary32 (FNum False 1) (FNum False 32767))
      else (FNum False 0, FNum False 0))"

definition ma_pcm_f32_to_s16__reference :: "ma_cpu \<Rightarrow> pcm_conv" where
  "ma_pcm_f32_to_s16__reference cpu dst src count ditherMode lcg =
     (case f32_s16_dither ditherMode of (ditherMin, ditherMax) \<Rightarrow>
      for_count count (\<lambda>i (dst, lcg). case ma_dither_f32 ditherMode ditherMin ditherMax lcg of (d, lcg') \<Rightarrow>
        (s16_put dst i (f32_s16_sample cpu (f32_at src i) d), lcg')) (dst, lcg))"

text \<open>The leftover loop of the unrolled versions, from sample \<open>i\<close> to the end.\<close>

definition f32_s16_leftover :: "ma_cpu \<Rightarrow> u8 list \<Rightarrow> nat \<Rightarrow> u64 \<Rightarrow> ma_dither_mode \<Rightarrow> u8 list \<times> ma_lcg \<Rightarrow> u8 list \<times> ma_lcg" where
  "f32_s16_leftover cpu src i0 count ditherMode s =
     (case f32_s16_dither ditherMode of (ditherMin, ditherMax) \<Rightarrow>
      fold (\<lambda>i (dst, lcg). case ma_dither_f32 ditherMode ditherMin ditherMax lcg of (d, lcg') \<Rightarrow>
        (s16_put dst i (f32_s16_sample cpu (f32_at src i) d), lcg')) [i0..<unat count] s)"

text \<open>Four samples a round: the four dither values are drawn first, then four samples written.\<close>

definition ma_pcm_f32_to_s16__optimized :: "ma_cpu \<Rightarrow> pcm_conv" where
  "ma_pcm_f32_to_s16__optimized cpu dst src count ditherMode lcg =
     (case f32_s16_dither ditherMode of (ditherMin, ditherMax) \<Rightarrow>
      let draw = ma_dither_f32 ditherMode ditherMin ditherMax;
          count4 = drop_bit 2 count
      in f32_s16_leftover cpu src (4 * unat count4) count ditherMode
        (for_count count4 (\<lambda>i4 (dst, lcg).
           let i = 4 * i4; (d0, lcg) = draw lcg; (d1, lcg) = draw lcg; (d2, lcg) = draw lcg; (d3, lcg) = draw lcg;
               dst = s16_put dst i (f32_s16_sample cpu (f32_at src i) d0);
               dst = s16_put dst (i + 1) (f32_s16_sample cpu (f32_at src (i + 1)) d1);
               dst = s16_put dst (i + 2) (f32_s16_sample cpu (f32_at src (i + 2)) d2);
               dst = s16_put dst (i + 3) (f32_s16_sample cpu (f32_at src (i + 3)) d3)
           in (dst, lcg)) (dst, lcg)))"

text \<open>The vector versions. Eight dither values are drawn (none without dithering); the
  product is not clipped, but converted to 32 bit by the vector instruction and packed to
  16 bit with saturation.\<close>

definition f32_s16_draws :: "ma_dither_mode \<Rightarrow> ma_lcg \<Rightarrow> (nat \<Rightarrow> fval) \<times> ma_lcg" where
  "f32_s16_draws ditherMode lcg =
     (if ditherMode = ma_dither_mode_none then (\<lambda>_. FNum False 0, lcg)
      else case f32_s16_dither ditherMode of (ditherMin, ditherMax) \<Rightarrow>
        let draw = (if ditherMode = ma_dither_mode_rectangle then (\<lambda>g. ma_dither_f32_rectangle g ditherMin ditherMax)
                    else (\<lambda>g. ma_dither_f32_triangle g ditherMin ditherMax));
            (ds, lcg') = fold (\<lambda>_ (ds, g). case draw g of (d, g') \<Rightarrow> (ds @ [d], g')) [0..<8] ([], lcg)
        in (\<lambda>k. ds ! k, lcg'))"

text \<open>\<open>_mm_cvttps_epi32\<close> truncates and yields the smallest integer where C leaves the
  conversion undefined; \<open>vcvtq_s32_f32\<close> truncates and saturates, with 0 for a NaN.
  \<open>_mm_packs_epi32\<close> and \<open>vqmovn_s32\<close> saturate to 16 bit.\<close>

definition mm_cvttps :: "fval \<Rightarrow> int" where
  "mm_cvttps v = (case ftoint (- 2147483648) 2147483647 v of Some i \<Rightarrow> i | None \<Rightarrow> - 2147483648)"

fun vcvtq_s32 :: "fval \<Rightarrow> int" where
  "vcvtq_s32 FNaN = 0"
| "vcvtq_s32 (FInf s) = (if s then - 2147483648 else 2147483647)"
| "vcvtq_s32 (FNum s m) = max (- 2147483648) (min 2147483647 (if s then - \<lfloor>m\<rfloor> else \<lfloor>m\<rfloor>))"

definition saturate16 :: "int \<Rightarrow> s16" where
  "saturate16 i = word_of_int (max (- 32768) (min 32767 i))"

definition f32_s16_vector :: "(fval \<Rightarrow> int) \<Rightarrow> (nat \<Rightarrow> nat) \<Rightarrow> ma_cpu \<Rightarrow> pcm_conv" where
  "f32_s16_vector cvt lane cpu dst src count ditherMode lcg =
     (let count8 = drop_bit 3 count
      in f32_s16_leftover cpu src (8 * unat count8) count ditherMode
        (for_count count8 (\<lambda>i8 (dst, lcg).
           let i = 8 * i8; (d, lcg) = f32_s16_draws ditherMode lcg;
               dst = fold (\<lambda>k dst. s16_put dst (i + k) (saturate16 (cvt
                       (fmul binary32 (fadd binary32 (f32_at src (i + k)) (d (lane k))) (FNum False 32767))))) [0..<8] dst
           in (dst, lcg)) (dst, lcg)))"

definition ma_pcm_f32_to_s16__sse2 :: "ma_cpu \<Rightarrow> pcm_conv" where
  "ma_pcm_f32_to_s16__sse2 cpu dst src count ditherMode lcg =
     (if \<not> cpu_aligned cpu then ma_pcm_f32_to_s16__optimized cpu dst src count ditherMode lcg
      else f32_s16_vector mm_cvttps (\<lambda>k. 4 * (k div 4) + cpu_draw cpu (k mod 4)) cpu dst src count ditherMode lcg)"

definition ma_pcm_f32_to_s16__neon :: "ma_cpu \<Rightarrow> pcm_conv" where
  "ma_pcm_f32_to_s16__neon cpu dst src count ditherMode lcg =
     (if cpu_simd cpu \<noteq> simd_neon then ma_pcm_f32_to_s16__optimized cpu dst src count ditherMode lcg
      else if \<not> cpu_aligned cpu then ma_pcm_f32_to_s16__optimized cpu dst src count ditherMode lcg
      else f32_s16_vector vcvtq_s32 (\<lambda>k. k) cpu dst src count ditherMode lcg)"

definition ma_pcm_f32_to_s16 :: "ma_cpu \<Rightarrow> pcm_conv" where
  "ma_pcm_f32_to_s16 cpu = pcm_dispatch cpu (ma_pcm_f32_to_s16__sse2 cpu) (ma_pcm_f32_to_s16__neon cpu) (ma_pcm_f32_to_s16__optimized cpu)"

definition ma_pcm_f32_to_s24__reference :: "ma_cpu \<Rightarrow> pcm_conv" where
  "ma_pcm_f32_to_s24__reference cpu dst src count ditherMode lcg =
     (for_count count (\<lambda>i dst. (let r = word_of_int (c_cast cpu (- 2147483648) 2147483647 (fmul binary32 (pcm_clip (f32_at src i)) (FNum False 8388607))) :: s32
       in s24_put dst i (ucast (r AND 0xFF)) (ucast (drop_bit 8 (r AND 0xFF00))) (ucast (drop_bit 16 (r AND 0xFF0000))))) dst, lcg)"

definition ma_pcm_f32_to_s24__optimized :: "ma_cpu \<Rightarrow> pcm_conv" where
  "ma_pcm_f32_to_s24__optimized = ma_pcm_f32_to_s24__reference"

definition ma_pcm_f32_to_s24__sse2 :: "ma_cpu \<Rightarrow> pcm_conv" where
  "ma_pcm_f32_to_s24__sse2 = ma_pcm_f32_to_s24__optimized"

definition ma_pcm_f32_to_s24__neon :: "ma_cpu \<Rightarrow> pcm_conv" where
  "ma_pcm_f32_to_s24__neon = ma_pcm_f32_to_s24__optimized"

definition ma_pcm_f32_to_s24 :: "ma_cpu \<Rightarrow> pcm_conv" where
  "ma_pcm_f32_to_s24 cpu = pcm_dispatch cpu (ma_pcm_f32_to_s24__sse2 cpu) (ma_pcm_f32_to_s24__neon cpu) (ma_pcm_f32_to_s24__optimized cpu)"

text \<open>The conversion to 32 bit counts with a 32-bit variable up to a 64-bit count, so it
  need not end: \<open>None\<close> is a call that does not return.\<close>

partial_function (option) f32_s32_loop :: "ma_cpu \<Rightarrow> u8 list \<Rightarrow> u8 list \<Rightarrow> u64 \<Rightarrow> u32 \<Rightarrow> u8 list option" where
  "f32_s32_loop cpu dst src count i =
     (if ucast i < count
      then f32_s32_loop cpu (s32_put dst (unat i) (word_of_int (c_cast cpu (- 2147483648) 2147483647
             (fmul binary64 (pcm_clip (fcast binary64 (f32_at src (unat i)))) (FNum False 2147483647))))) src count (i + 1)
      else Some dst)"

definition ma_pcm_f32_to_s32__reference :: "ma_cpu \<Rightarrow> u8 list \<Rightarrow> u8 list \<Rightarrow> u64 \<Rightarrow> ma_dither_mode \<Rightarrow> u8 list option" where
  "ma_pcm_f32_to_s32__reference cpu dst src count ditherMode = f32_s32_loop cpu dst src count 0"

definition ma_pcm_f32_to_s32__optimized :: "ma_cpu \<Rightarrow> u8 list \<Rightarrow> u8 list \<Rightarrow> u64 \<Rightarrow> ma_dither_mode \<Rightarrow> u8 list option" where
  "ma_pcm_f32_to_s32__optimized = ma_pcm_f32_to_s32__reference"

definition ma_pcm_f32_to_s32__sse2 :: "ma_cpu \<Rightarrow> u8 list \<Rightarrow> u8 list \<Rightarrow> u64 \<Rightarrow> ma_dither_mode \<Rightarrow> u8 list option" where
  "ma_pcm_f32_to_s32__sse2 = ma_pcm_f32_to_s32__optimized"

definition ma_pcm_f32_to_s32__neon :: "ma_cpu \<Rightarrow> u8 list \<Rightarrow> u8 list \<Rightarrow> u64 \<Rightarrow> ma_dither_mode \<Rightarrow> u8 list option" where
  "ma_pcm_f32_to_s32__neon = ma_pcm_f32_to_s32__optimized"

definition ma_pcm_f32_to_s32 :: "ma_cpu \<Rightarrow> u8 list \<Rightarrow> u8 list \<Rightarrow> u64 \<Rightarrow> ma_dither_mode \<Rightarrow> u8 list option" where
  "ma_pcm_f32_to_s32 cpu = pcm_dispatch cpu (ma_pcm_f32_to_s32__sse2 cpu) (ma_pcm_f32_to_s32__neon cpu) (ma_pcm_f32_to_s32__optimized cpu)"

definition ma_pcm_f32_to_f32 :: pcm_conv where
  "ma_pcm_f32_to_f32 dst src count ditherMode lcg = (ma_copy_memory_64 dst src (count * 4), lcg)"

section \<open>Conversion between any two formats\<close>

definition ma_pcm_convert :: "ma_cpu \<Rightarrow> u8 list \<Rightarrow> ma_format \<Rightarrow> u8 list \<Rightarrow> ma_format \<Rightarrow> u64 \<Rightarrow> ma_dither_mode \<Rightarrow> ma_lcg
    \<Rightarrow> (u8 list \<times> ma_lcg) option" where
  "ma_pcm_convert cpu pOut formatOut pIn formatIn sampleCount ditherMode lcg =
     (if formatOut = formatIn then Some (ma_copy_memory_64 pOut pIn (sampleCount * ucast (ma_get_bytes_per_sample formatOut)), lcg)
      else case formatIn of
        ma_format_u8 \<Rightarrow>
          (case formatOut of
             ma_format_s16 \<Rightarrow> Some (ma_pcm_u8_to_s16 cpu pOut pIn sampleCount ditherMode lcg)
           | ma_format_s24 \<Rightarrow> Some (ma_pcm_u8_to_s24 cpu pOut pIn sampleCount ditherMode lcg)
           | ma_format_s32 \<Rightarrow> Some (ma_pcm_u8_to_s32 cpu pOut pIn sampleCount ditherMode lcg)
           | ma_format_f32 \<Rightarrow> Some (ma_pcm_u8_to_f32 cpu pOut pIn sampleCount ditherMode lcg)
           | _ \<Rightarrow> Some (pOut, lcg))
      | ma_format_s16 \<Rightarrow>
          (case formatOut of
             ma_format_u8 \<Rightarrow> Some (ma_pcm_s16_to_u8 cpu pOut pIn sampleCount ditherMode lcg)
           | ma_format_s24 \<Rightarrow> Some (ma_pcm_s16_to_s24 cpu pOut pIn sampleCount ditherMode lcg)
           | ma_format_s32 \<Rightarrow> Some (ma_pcm_s16_to_s32 cpu pOut pIn sampleCount ditherMode lcg)
           | ma_format_f32 \<Rightarrow> Some (ma_pcm_s16_to_f32 cpu pOut pIn sampleCount ditherMode lcg)
           | _ \<Rightarrow> Some (pOut, lcg))
      | ma_format_s24 \<Rightarrow>
          (case formatOut of
             ma_format_u8 \<Rightarrow> Some (ma_pcm_s24_to_u8 cpu pOut pIn sampleCount ditherMode lcg)
           | ma_format_s16 \<Rightarrow> Some (ma_pcm_s24_to_s16 cpu pOut pIn sampleCount ditherMode lcg)
           | ma_format_s32 \<Rightarrow> Some (ma_pcm_s24_to_s32 cpu pOut pIn sampleCount ditherMode lcg)
           | ma_format_f32 \<Rightarrow> Some (ma_pcm_s24_to_f32 cpu pOut pIn sampleCount ditherMode lcg)
           | _ \<Rightarrow> Some (pOut, lcg))
      | ma_format_s32 \<Rightarrow>
          (case formatOut of
             ma_format_u8 \<Rightarrow> Some (ma_pcm_s32_to_u8 cpu pOut pIn sampleCount ditherMode lcg)
           | ma_format_s16 \<Rightarrow> Some (ma_pcm_s32_to_s16 cpu pOut pIn sampleCount ditherMode lcg)
           | ma_format_s24 \<Rightarrow> Some (ma_pcm_s32_to_s24 cpu pOut pIn sampleCount ditherMode lcg)
           | ma_format_f32 \<Rightarrow> Some (ma_pcm_s32_to_f32 cpu pOut pIn sampleCount ditherMode lcg)
           | _ \<Rightarrow> Some (pOut, lcg))
      | ma_format_f32 \<Rightarrow>
          (case formatOut of
             ma_format_u8 \<Rightarrow> Some (ma_pcm_f32_to_u8 cpu pOut pIn sampleCount ditherMode lcg)
           | ma_format_s16 \<Rightarrow> Some (ma_pcm_f32_to_s16 cpu pOut pIn sampleCount ditherMode lcg)
           | ma_format_s24 \<Rightarrow> Some (ma_pcm_f32_to_s24 cpu pOut pIn sampleCount ditherMode lcg)
           | ma_format_s32 \<Rightarrow> map_option (\<lambda>out. (out, lcg)) (ma_pcm_f32_to_s32 cpu pOut pIn sampleCount ditherMode)
           | _ \<Rightarrow> Some (pOut, lcg))
      | _ \<Rightarrow> Some (pOut, lcg))"

definition ma_convert_pcm_frames_format :: "ma_cpu \<Rightarrow> u8 list \<Rightarrow> ma_format \<Rightarrow> u8 list \<Rightarrow> ma_format \<Rightarrow> u64 \<Rightarrow> u32 \<Rightarrow> ma_dither_mode
    \<Rightarrow> ma_lcg \<Rightarrow> (u8 list \<times> ma_lcg) option" where
  "ma_convert_pcm_frames_format cpu pOut formatOut pIn formatIn frameCount channels ditherMode lcg =
     ma_pcm_convert cpu pOut formatOut pIn formatIn (frameCount * ucast channels) ditherMode lcg"

section \<open>Interleaving\<close>

text \<open>The loop nest every interleaving is, for elements of \<open>z\<close> bytes.\<close>

definition interleave_loop :: "nat \<Rightarrow> u8 list \<Rightarrow> u8 list list \<Rightarrow> u64 \<Rightarrow> u32 \<Rightarrow> u8 list" where
  "interleave_loop z dst src frameCount channels =
     for_count frameCount (\<lambda>iFrame. for_count channels (\<lambda>iChannel dst.
       elem_copy z dst (iFrame * unat channels + iChannel) (src ! iChannel) iFrame)) dst"

definition deinterleave_loop :: "nat \<Rightarrow> u8 list list \<Rightarrow> u8 list \<Rightarrow> u64 \<Rightarrow> u32 \<Rightarrow> u8 list list" where
  "deinterleave_loop z dst src frameCount channels =
     for_count frameCount (\<lambda>iFrame. for_count channels (\<lambda>iChannel dst.
       dst[iChannel := elem_copy z (dst ! iChannel) iFrame src (iFrame * unat channels + iChannel)])) dst"

definition ma_pcm_interleave_u8__reference :: "u8 list \<Rightarrow> u8 list list \<Rightarrow> u64 \<Rightarrow> u32 \<Rightarrow> u8 list" where
  "ma_pcm_interleave_u8__reference dst src frameCount channels = interleave_loop 1 dst src frameCount channels"

definition ma_pcm_interleave_u8__optimized :: "u8 list \<Rightarrow> u8 list list \<Rightarrow> u64 \<Rightarrow> u32 \<Rightarrow> u8 list" where
  "ma_pcm_interleave_u8__optimized dst src frameCount channels =
     (if channels = 1 then ma_copy_memory_64 dst (src ! 0) (frameCount * 1)
      else if channels = 2
      then for_count frameCount (\<lambda>iFrame dst. dst[iFrame * 2 := src ! 0 ! iFrame, iFrame * 2 + 1 := src ! 1 ! iFrame]) dst
      else interleave_loop 1 dst src frameCount channels)"

definition ma_pcm_interleave_u8 :: "u8 list \<Rightarrow> u8 list list \<Rightarrow> u64 \<Rightarrow> u32 \<Rightarrow> u8 list" where
  "ma_pcm_interleave_u8 = ma_pcm_interleave_u8__optimized"

definition ma_pcm_deinterleave_u8__reference :: "u8 list list \<Rightarrow> u8 list \<Rightarrow> u64 \<Rightarrow> u32 \<Rightarrow> u8 list list" where
  "ma_pcm_deinterleave_u8__reference dst src frameCount channels = deinterleave_loop 1 dst src frameCount channels"

definition ma_pcm_deinterleave_u8__optimized :: "u8 list list \<Rightarrow> u8 list \<Rightarrow> u64 \<Rightarrow> u32 \<Rightarrow> u8 list list" where
  "ma_pcm_deinterleave_u8__optimized = ma_pcm_deinterleave_u8__reference"

definition ma_pcm_deinterleave_u8 :: "u8 list list \<Rightarrow> u8 list \<Rightarrow> u64 \<Rightarrow> u32 \<Rightarrow> u8 list list" where
  "ma_pcm_deinterleave_u8 = ma_pcm_deinterleave_u8__optimized"

definition ma_pcm_interleave_s16__reference :: "u8 list \<Rightarrow> u8 list list \<Rightarrow> u64 \<Rightarrow> u32 \<Rightarrow> u8 list" where
  "ma_pcm_interleave_s16__reference dst src frameCount channels = interleave_loop 2 dst src frameCount channels"

definition ma_pcm_interleave_s16__optimized :: "u8 list \<Rightarrow> u8 list list \<Rightarrow> u64 \<Rightarrow> u32 \<Rightarrow> u8 list" where
  "ma_pcm_interleave_s16__optimized = ma_pcm_interleave_s16__reference"

definition ma_pcm_interleave_s16 :: "u8 list \<Rightarrow> u8 list list \<Rightarrow> u64 \<Rightarrow> u32 \<Rightarrow> u8 list" where
  "ma_pcm_interleave_s16 = ma_pcm_interleave_s16__optimized"

definition ma_pcm_deinterleave_s16__reference :: "u8 list list \<Rightarrow> u8 list \<Rightarrow> u64 \<Rightarrow> u32 \<Rightarrow> u8 list list" where
  "ma_pcm_deinterleave_s16__reference dst src frameCount channels = deinterleave_loop 2 dst src frameCount channels"

definition ma_pcm_deinterleave_s16__optimized :: "u8 list list \<Rightarrow> u8 list \<Rightarrow> u64 \<Rightarrow> u32 \<Rightarrow> u8 list list" where
  "ma_pcm_deinterleave_s16__optimized = ma_pcm_deinterleave_s16__reference"

definition ma_pcm_deinterleave_s16 :: "u8 list list \<Rightarrow> u8 list \<Rightarrow> u64 \<Rightarrow> u32 \<Rightarrow> u8 list list" where
  "ma_pcm_deinterleave_s16 = ma_pcm_deinterleave_s16__optimized"

definition ma_pcm_interleave_s24__reference :: "u8 list \<Rightarrow> u8 list list \<Rightarrow> u64 \<Rightarrow> u32 \<Rightarrow> u8 list" where
  "ma_pcm_interleave_s24__reference dst src frameCount channels = interleave_loop 3 dst src frameCount channels"

definition ma_pcm_interleave_s24__optimized :: "u8 list \<Rightarrow> u8 list list \<Rightarrow> u64 \<Rightarrow> u32 \<Rightarrow> u8 list" where
  "ma_pcm_interleave_s24__optimized = ma_pcm_interleave_s24__reference"

definition ma_pcm_interleave_s24 :: "u8 list \<Rightarrow> u8 list list \<Rightarrow> u64 \<Rightarrow> u32 \<Rightarrow> u8 list" where
  "ma_pcm_interleave_s24 = ma_pcm_interleave_s24__optimized"

text \<open>The frame counter of this one is 32 bits wide as well, and so are the indices
  computed from it.\<close>

partial_function (option) deinterleave_s24_loop :: "u8 list list \<Rightarrow> u8 list \<Rightarrow> u64 \<Rightarrow> u32 \<Rightarrow> u32 \<Rightarrow> u8 list list option" where
  "deinterleave_s24_loop dst src frameCount channels iFrame =
     (if ucast iFrame < frameCount
      then deinterleave_s24_loop (for_count channels (\<lambda>iChannel dst.
             let s = iFrame * 3 * channels + of_nat iChannel * 3
             in dst[iChannel := (dst ! iChannel)
                      [unat (iFrame * 3) := src ! unat s, unat (iFrame * 3 + 1) := src ! unat (s + 1),
                       unat (iFrame * 3 + 2) := src ! unat (s + 2)]]) dst)
             src frameCount channels (iFrame + 1)
      else Some dst)"

definition ma_pcm_deinterleave_s24__reference :: "u8 list list \<Rightarrow> u8 list \<Rightarrow> u64 \<Rightarrow> u32 \<Rightarrow> u8 list list option" where
  "ma_pcm_deinterleave_s24__reference dst src frameCount channels = deinterleave_s24_loop dst src frameCount channels 0"

definition ma_pcm_deinterleave_s24__optimized :: "u8 list list \<Rightarrow> u8 list \<Rightarrow> u64 \<Rightarrow> u32 \<Rightarrow> u8 list list option" where
  "ma_pcm_deinterleave_s24__optimized = ma_pcm_deinterleave_s24__reference"

definition ma_pcm_deinterleave_s24 :: "u8 list list \<Rightarrow> u8 list \<Rightarrow> u64 \<Rightarrow> u32 \<Rightarrow> u8 list list option" where
  "ma_pcm_deinterleave_s24 = ma_pcm_deinterleave_s24__optimized"

definition ma_pcm_interleave_s32__reference :: "u8 list \<Rightarrow> u8 list list \<Rightarrow> u64 \<Rightarrow> u32 \<Rightarrow> u8 list" where
  "ma_pcm_interleave_s32__reference dst src frameCount channels = interleave_loop 4 dst src frameCount channels"

definition ma_pcm_interleave_s32__optimized :: "u8 list \<Rightarrow> u8 list list \<Rightarrow> u64 \<Rightarrow> u32 \<Rightarrow> u8 list" where
  "ma_pcm_interleave_s32__optimized = ma_pcm_interleave_s32__reference"

definition ma_pcm_interleave_s32 :: "u8 list \<Rightarrow> u8 list list \<Rightarrow> u64 \<Rightarrow> u32 \<Rightarrow> u8 list" where
  "ma_pcm_interleave_s32 = ma_pcm_interleave_s32__optimized"

definition ma_pcm_deinterleave_s32__reference :: "u8 list list \<Rightarrow> u8 list \<Rightarrow> u64 \<Rightarrow> u32 \<Rightarrow> u8 list list" where
  "ma_pcm_deinterleave_s32__reference dst src frameCount channels = deinterleave_loop 4 dst src frameCount channels"

definition ma_pcm_deinterleave_s32__optimized :: "u8 list list \<Rightarrow> u8 list \<Rightarrow> u64 \<Rightarrow> u32 \<Rightarrow> u8 list list" where
  "ma_pcm_deinterleave_s32__optimized = ma_pcm_deinterleave_s32__reference"

definition ma_pcm_deinterleave_s32 :: "u8 list list \<Rightarrow> u8 list \<Rightarrow> u64 \<Rightarrow> u32 \<Rightarrow> u8 list list" where
  "ma_pcm_deinterleave_s32 = ma_pcm_deinterleave_s32__optimized"

definition ma_pcm_interleave_f32__reference :: "u8 list \<Rightarrow> u8 list list \<Rightarrow> u64 \<Rightarrow> u32 \<Rightarrow> u8 list" where
  "ma_pcm_interleave_f32__reference dst src frameCount channels = interleave_loop 4 dst src frameCount channels"

definition ma_pcm_interleave_f32__optimized :: "u8 list \<Rightarrow> u8 list list \<Rightarrow> u64 \<Rightarrow> u32 \<Rightarrow> u8 list" where
  "ma_pcm_interleave_f32__optimized = ma_pcm_interleave_f32__reference"

definition ma_pcm_interleave_f32 :: "u8 list \<Rightarrow> u8 list list \<Rightarrow> u64 \<Rightarrow> u32 \<Rightarrow> u8 list" where
  "ma_pcm_interleave_f32 = ma_pcm_interleave_f32__optimized"

definition ma_pcm_deinterleave_f32__reference :: "u8 list list \<Rightarrow> u8 list \<Rightarrow> u64 \<Rightarrow> u32 \<Rightarrow> u8 list list" where
  "ma_pcm_deinterleave_f32__reference dst src frameCount channels = deinterleave_loop 4 dst src frameCount channels"

definition ma_pcm_deinterleave_f32__optimized :: "u8 list list \<Rightarrow> u8 list \<Rightarrow> u64 \<Rightarrow> u32 \<Rightarrow> u8 list list" where
  "ma_pcm_deinterleave_f32__optimized = ma_pcm_deinterleave_f32__reference"

definition ma_pcm_deinterleave_f32 :: "u8 list list \<Rightarrow> u8 list \<Rightarrow> u64 \<Rightarrow> u32 \<Rightarrow> u8 list list" where
  "ma_pcm_deinterleave_f32 = ma_pcm_deinterleave_f32__optimized"

text \<open>The frame-wise entry points; a null pointer makes the first one return at once.\<close>

definition ma_deinterleave_pcm_frames :: "ma_format \<Rightarrow> u32 \<Rightarrow> u64 \<Rightarrow> u8 list ptr \<Rightarrow> u8 list list ptr \<Rightarrow> u8 list list ptr" where
  "ma_deinterleave_pcm_frames format channels frameCount pInterleaved ppDeinterleaved =
     (case (pInterleaved, ppDeinterleaved) of
        (Some src, Some dst) \<Rightarrow> Some (case format of
            ma_format_s16 \<Rightarrow> deinterleave_loop 2 dst src frameCount channels
          | ma_format_f32 \<Rightarrow> deinterleave_loop 4 dst src frameCount channels
          | _ \<Rightarrow> deinterleave_loop (unat (ma_get_bytes_per_sample format)) dst src frameCount channels)
      | _ \<Rightarrow> ppDeinterleaved)"

definition ma_interleave_pcm_frames :: "ma_format \<Rightarrow> u32 \<Rightarrow> u64 \<Rightarrow> u8 list list \<Rightarrow> u8 list \<Rightarrow> u8 list" where
  "ma_interleave_pcm_frames format channels frameCount src dst =
     (case format of
        ma_format_s16 \<Rightarrow> interleave_loop 2 dst src frameCount channels
      | ma_format_f32 \<Rightarrow> interleave_loop 4 dst src frameCount channels
      | _ \<Rightarrow> interleave_loop (unat (ma_get_bytes_per_sample format)) dst src frameCount channels)"

lemmas pcm_wrappers = ma_pcm_u8_to_s16__optimized_def
  ma_pcm_u8_to_s16__sse2_def
  ma_pcm_u8_to_s16__neon_def
  ma_pcm_u8_to_s16_def
  ma_pcm_u8_to_s24__optimized_def
  ma_pcm_u8_to_s24__sse2_def
  ma_pcm_u8_to_s24__neon_def
  ma_pcm_u8_to_s24_def
  ma_pcm_u8_to_s32__optimized_def
  ma_pcm_u8_to_s32__sse2_def
  ma_pcm_u8_to_s32__neon_def
  ma_pcm_u8_to_s32_def
  ma_pcm_u8_to_f32__optimized_def
  ma_pcm_u8_to_f32__sse2_def
  ma_pcm_u8_to_f32__neon_def
  ma_pcm_u8_to_f32_def
  ma_pcm_s16_to_u8__optimized_def
  ma_pcm_s16_to_u8__sse2_def
  ma_pcm_s16_to_u8__neon_def
  ma_pcm_s16_to_u8_def
  ma_pcm_s16_to_s24__optimized_def
  ma_pcm_s16_to_s24__sse2_def
  ma_pcm_s16_to_s24__neon_def
  ma_pcm_s16_to_s24_def
  ma_pcm_s16_to_s32__optimized_def
  ma_pcm_s16_to_s32__sse2_def
  ma_pcm_s16_to_s32__neon_def
  ma_pcm_s16_to_s32_def
  ma_pcm_s16_to_f32__optimized_def
  ma_pcm_s16_to_f32__sse2_def
  ma_pcm_s16_to_f32__neon_def
  ma_pcm_s16_to_f32_def
  ma_pcm_s24_to_u8__optimized_def
  ma_pcm_s24_to_u8__sse2_def
  ma_pcm_s24_to_u8__neon_def
  ma_pcm_s24_to_u8_def
  ma_pcm_s24_to_s16__optimized_def
  ma_pcm_s24_to_s16__sse2_def
  ma_pcm_s24_to_s16__neon_def
  ma_pcm_s24_to_s16_def
  ma_pcm_s24_to_s32__optimized_def
  ma_pcm_s24_to_s32__sse2_def
  ma_pcm_s24_to_s32__neon_def
  ma_pcm_s24_to_s32_def
  ma_pcm_s24_to_f32__optimized_def
  ma_pcm_s24_to_f32__sse2_def
  ma_pcm_s24_to_f32__neon_def
  ma_pcm_s24_to_f32_def
  ma_pcm_s32_to_u8__optimized_def
  ma_pcm_s32_to_u8__sse2_def
  ma_pcm_s32_to_u8__neon_def
  ma_pcm_s32_to_u8_def
  ma_pcm_s32_to_s16__optimized_def
  ma_pcm_s32_to_s16__sse2_def
  ma_pcm_s32_to_s16__neon_def
  ma_pcm_s32_to_s16_def
  ma_pcm_s32_to_s24__optimized_def
  ma_pcm_s32_to_s24__sse2_def
  ma_pcm_s32_to_s24__neon_def
  ma_pcm_s32_to_s24_def
  ma_pcm_s32_to_f32__optimized_def
  ma_pcm_s32_to_f32__sse2_def
  ma_pcm_s32_to_f32__neon_def
  ma_pcm_s32_to_f32_def
  ma_pcm_f32_to_u8__optimized_def
  ma_pcm_f32_to_u8__sse2_def
  ma_pcm_f32_to_u8__neon_def
  ma_pcm_f32_to_u8_def
  ma_pcm_f32_to_s24__optimized_def
  ma_pcm_f32_to_s24__sse2_def
  ma_pcm_f32_to_s24__neon_def
  ma_pcm_f32_to_s24_def
  pcm_dispatch_def

section \<open>What the loops leave in a buffer\<close>

lemma length_concat_upt: "(\<And>i. i < n \<Longrightarrow> length (g i) = z) \<Longrightarrow> length (concat (map g [0..<n])) = z * n"
  by (induction n) simp_all

lemma for_writes:
  assumes step: "\<And>i m. i < n \<Longrightarrow> z * Suc i \<le> length m \<Longrightarrow> f i m = mem_write m (z * i) (g i)"
    and len: "\<And>i. i < n \<Longrightarrow> length (g i) = z" and "z * n \<le> length m"
  shows "fold f [0..<n] m = concat (map g [0..<n]) @ drop (z * n) m"
  using assms
proof (induction n)
  case (Suc n)
  have c: "length (concat (map g [0..<n])) = z * n"
    using Suc.prems(2) by (intro length_concat_upt) simp
  have "fold f [0..<n] m = concat (map g [0..<n]) @ drop (z * n) m"
    using Suc.prems by (intro Suc.IH) auto
  moreover have "f n (concat (map g [0..<n]) @ drop (z * n) m) = mem_write (concat (map g [0..<n]) @ drop (z * n) m) (z * n) (g n)"
    using Suc.prems(1,3) c by simp
  ultimately show ?case using c Suc.prems(2) by (simp add: mem_write_def)
qed simp

lemma read_concat:
  assumes "\<And>i. i < n \<Longrightarrow> length (g i) = z" "k < n"
  shows "mem_read (concat (map g [0..<n]) @ r) (z * k) z = g k"
proof -
  have l: "length (concat (map g [0..<j])) = z * j" if "j \<le> n" for j
    using that assms(1) by (intro length_concat_upt) simp
  have "[0..<n] = [0..<k] @ k # [Suc k..<n]" using assms(2) upt_add_eq_append [of 0 k "n - k"] by (simp add: upt_conv_Cons)
  then have "concat (map g [0..<n]) @ r = concat (map g [0..<k]) @ g k @ (concat (map g [Suc k..<n]) @ r)" by simp
  then show ?thesis using l [of k] assms by (simp add: mem_read_def)
qed

lemma concat_reads:
  assumes "z * n = length m"
  shows "concat (map (\<lambda>i. mem_read m (z * i) z) [0..<n]) = m"
proof -
  have "concat (map (\<lambda>i. mem_read m (z * i) z) [0..<k]) = take (z * k) m" if "k \<le> n" for k
    using that
  proof (induction k)
    case (Suc k)
    then show ?case using take_add [of "z * k" z m] by (simp add: mem_read_def add.commute)
  qed simp
  then show ?thesis using assms by simp
qed

lemma list_update_write: "i < length m \<Longrightarrow> m[i := v] = mem_write m i [v]"
  by (simp add: mem_write_def upd_conv_take_nth_drop)

lemma s24_put_write: "3 * Suc i \<le> length m \<Longrightarrow> s24_put m i a b c = mem_write m (3 * i) [a, b, c]"
  by (rule nth_equalityI)
    (auto simp: s24_put_def mem_write_def nth_append nth_list_update nth_Cons' mult.commute numeral_3_eq_3 Suc_diff_Suc)

lemma le_bytes_word: "of_nat (le_nat (le_bytes 2 (unat (v :: s16)))) = v" "of_nat (le_nat (le_bytes 4 (unat (w :: s32)))) = w"
proof -
  have "unat v < 2 ^ LENGTH(16)" "unat w < 2 ^ LENGTH(32)" by (rule unsigned_less)+
  then show "of_nat (le_nat (le_bytes 2 (unat v))) = v" "of_nat (le_nat (le_bytes 4 (unat w))) = w"
    by (simp_all add: le_nat_bytes)
qed

lemma mem_read_bytes: "2 * Suc i \<le> length m \<Longrightarrow> le_bytes 2 (unat (s16_at m i)) = mem_read m (2 * i) 2"
  "4 * Suc i \<le> length m \<Longrightarrow> le_bytes 4 (unat (s32_at m i)) = mem_read m (4 * i) 4"
proof -
  show "le_bytes 2 (unat (s16_at m i)) = mem_read m (2 * i) 2" if "2 * Suc i \<le> length m"
  proof -
    have l: "length (mem_read m (2 * i) 2) = 2" using that by (simp add: mem_read_def)
    then show ?thesis using le_nat_less [of "mem_read m (2 * i) 2"] le_bytes_nat [of "mem_read m (2 * i) 2"]
      by (simp add: s16_at_def unat_of_nat)
  qed
  show "le_bytes 4 (unat (s32_at m i)) = mem_read m (4 * i) 4" if "4 * Suc i \<le> length m"
  proof -
    have l: "length (mem_read m (4 * i) 4) = 4" using that by (simp add: mem_read_def)
    then show ?thesis using le_nat_less [of "mem_read m (4 * i) 4"] le_bytes_nat [of "mem_read m (4 * i) 4"]
      by (simp add: s32_at_def unat_of_nat)
  qed
qed

text \<open>A loop that stores one element a round, for each element size.\<close>

lemma u8_loop: "unat n \<le> length dst \<Longrightarrow>
  for_count n (\<lambda>i dst. dst[i := h i]) dst = map h [0..<unat n] @ drop (unat n) dst"
  using for_writes [of "unat n" 1 "\<lambda>i dst. dst[i := h i]" "\<lambda>i. [h i]" dst]
  by (simp add: for_count_def list_update_write concat_map_singleton)

lemma s16_loop: "2 * unat n \<le> length dst \<Longrightarrow>
  for_count n (\<lambda>i dst. s16_put dst i (h i)) dst = concat (map (\<lambda>i. le_bytes 2 (unat (h i))) [0..<unat n]) @ drop (2 * unat n) dst"
  unfolding for_count_def by (rule for_writes) (simp_all add: s16_put_def)

lemma s32_loop: "4 * unat n \<le> length dst \<Longrightarrow>
  for_count n (\<lambda>i dst. s32_put dst i (h i)) dst = concat (map (\<lambda>i. le_bytes 4 (unat (h i))) [0..<unat n]) @ drop (4 * unat n) dst"
  unfolding for_count_def by (rule for_writes) (simp_all add: s32_put_def)

lemma f32_loop: "4 * unat n \<le> length dst \<Longrightarrow>
  for_count n (\<lambda>i dst. f32_put dst i (h i)) dst = concat (map (\<lambda>i. bytes_of_f32 (h i)) [0..<unat n]) @ drop (4 * unat n) dst"
  unfolding for_count_def by (rule for_writes) (simp_all add: f32_put_def)

lemma s24_loop: "3 * unat n \<le> length dst \<Longrightarrow>
  for_count n (\<lambda>i dst. s24_put dst i (a i) (b i) (c i)) dst
    = concat (map (\<lambda>i. [a i, b i, c i]) [0..<unat n]) @ drop (3 * unat n) dst"
  unfolding for_count_def by (rule for_writes) (simp_all add: s24_put_write)

lemma s16_at_concat: "k < n \<Longrightarrow> s16_at (concat (map (\<lambda>i. le_bytes 2 (unat (h i))) [0..<n]) @ r) k = h k"
  using read_concat [of n "\<lambda>i. le_bytes 2 (unat (h i))" 2 k r] by (simp add: s16_at_def le_bytes_word)

lemma s32_at_concat: "k < n \<Longrightarrow> s32_at (concat (map (\<lambda>i. le_bytes 4 (unat (h i))) [0..<n]) @ r) k = h k"
  using read_concat [of n "\<lambda>i. le_bytes 4 (unat (h i))" 4 k r] by (simp add: s32_at_def le_bytes_word)

lemma f32_at_concat: "k < n \<Longrightarrow> fval_ok binary32 (h k) \<Longrightarrow> f32_at (concat (map (\<lambda>i. bytes_of_f32 (h i)) [0..<n]) @ r) k = h k"
  using read_concat [of n "\<lambda>i. bytes_of_f32 (h i)" 4 k r] by (simp add: f32_at_def f32_bytes_round_trip)

lemma nth_concat3:
  assumes "k < n"
  shows "(concat (map (\<lambda>i. [a i, b i, c i]) [0..<n]) @ r) ! (k * 3) = a k"
    "(concat (map (\<lambda>i. [a i, b i, c i]) [0..<n]) @ r) ! (k * 3 + 1) = b k"
    "(concat (map (\<lambda>i. [a i, b i, c i]) [0..<n]) @ r) ! (k * 3 + 2) = c k"
proof -
  let ?m = "concat (map (\<lambda>i. [a i, b i, c i]) [0..<n]) @ r"
  have r: "mem_read ?m (3 * k) 3 = [a k, b k, c k]" using assms read_concat [of n "\<lambda>i. [a i, b i, c i]" 3 k r] by simp
  have "k * 3 + 3 \<le> length (concat (map (\<lambda>i. [a i, b i, c i]) [0..<n]))"
    using assms by (simp add: length_concat comp_def sum_list_triv)
  then have "?m ! (k * 3 + j) = mem_read ?m (3 * k) 3 ! j" if "j < 3" for j
    using that by (simp add: mem_read_def mult.commute nth_append)
  from this [of 0] this [of 1] this [of 2] show "?m ! (k * 3) = a k" "?m ! (k * 3 + 1) = b k" "?m ! (k * 3 + 2) = c k"
    by (simp_all add: r)
qed

section \<open>Widening and narrowing\<close>

text \<open>One sample, up and down again.\<close>

lemma ucast_shift_back:
  "(ucast (signed_drop_bit 8 (push_bit 8 w :: s16)) :: u8) = ucast w"
  "(ucast (signed_drop_bit 24 (push_bit 24 v :: s32)) :: u8) = ucast v"
  "(ucast (signed_drop_bit 16 (push_bit 16 (scast x :: s32))) :: s16) = x"
  for w :: s16 and v :: s32 and x :: s16
  by (rule bit_word_eqI; simp add: bit_simps)+

lemma ucast_up_down [simp]:
  "(ucast (ucast x :: s16) :: u8) = x" "(ucast (ucast x :: s32) :: u8) = x" "(ucast (scast x :: s32) :: u8) = x" for x :: u8
  by (rule bit_word_eqI; auto simp: bit_simps)+

lemma take_bit_inner:
  fixes a b :: int
  assumes "m \<le> n"
  shows "take_bit m (take_bit n a + take_bit n b) = take_bit m (a + b)" "take_bit m (take_bit n a - take_bit n b) = take_bit m (a - b)"
proof -
  have t: "take_bit m (take_bit n c) = take_bit m c" for c :: int using assms by (simp add: min_absorb1)
  show "take_bit m (take_bit n a + take_bit n b) = take_bit m (a + b)"
    by (metis take_bit_add t)
  show "take_bit m (take_bit n a - take_bit n b) = take_bit m (a - b)"
    by (metis take_bit_diff t)
qed

lemma narrow_u8:
  "(ucast (signed_drop_bit 8 (push_bit 8 (ucast x - 128) :: s16) + 128) :: u8) = x"
  "(ucast (scast (ucast (ucast x - 128 :: s16) :: u8) + 128 :: s32) :: u8) = x"
  "(ucast (signed_drop_bit 24 (push_bit 24 (ucast x - 128) :: s32) + 128) :: u8) = x"
  for x :: u8
proof -
  have down: "(ucast (a + b) :: u8) = ucast a + ucast b" "(ucast (c + d) :: u8) = ucast c + ucast d"
     "(ucast (a - b) :: u8) = ucast a - ucast b" "(ucast (c - d) :: u8) = ucast c - ucast d" for a b :: s16 and c d :: s32
    by (transfer, simp add: take_bit_inner)+
  show "(ucast (signed_drop_bit 8 (push_bit 8 (ucast x - 128) :: s16) + 128) :: u8) = x"
    by (simp add: down ucast_shift_back)
  show "(ucast (scast (ucast (ucast x - 128 :: s16) :: u8) + 128 :: s32) :: u8) = x"
    by (simp add: down)
  show "(ucast (signed_drop_bit 24 (push_bit 24 (ucast x - 128) :: s32) + 128) :: u8) = x"
    by (simp add: down ucast_shift_back)
qed

lemma mask_literals:
  "(0xFF :: 'a::len word) = mask 8" "(0xFF00 :: 'a word) = push_bit 8 (mask 8)"
  "(0xFF0000 :: 'a word) = push_bit 16 (mask 8)" "(0xFF000000 :: 'a word) = push_bit 24 (mask 8)"
  by (simp_all add: mask_eq_exp_minus_1 push_bit_eq_mult)

lemma narrow_s16:
  "ucast (ucast (x AND 0xFF) :: u8) OR push_bit 8 (ucast (ucast (signed_drop_bit 8 x) :: u8)) = x" for x :: s16
proof (unfold mask_literals, rule bit_word_eqI)
  fix n assume "n < LENGTH(16)"
  then show "bit (ucast (ucast (x AND mask 8) :: u8) OR push_bit 8 (ucast (ucast (signed_drop_bit 8 x) :: u8)) :: s16) n = bit x n"
    by (cases "n < 8") (auto simp: bit_simps)
qed

lemma narrow_s24:
  fixes w :: s32 and a b c :: u8
  assumes "w = push_bit 8 (ucast a) OR push_bit 16 (ucast b) OR push_bit 24 (ucast c)"
  shows "(ucast (drop_bit 8 (w AND 0xFF00)) :: u8) = a" "(ucast (drop_bit 16 (w AND 0xFF0000)) :: u8) = b"
    "(ucast (drop_bit 24 (w AND 0xFF000000)) :: u8) = c"
  unfolding assms mask_literals by (rule bit_word_eqI; auto simp: bit_simps dest: bit_imp_le_length)+

text \<open>The narrowing conversion without dithering undoes the widening one, for every pair of
  integer formats.\<close>

fun wider :: "ma_format \<Rightarrow> ma_format \<Rightarrow> bool" where
  "wider ma_format_u8 f \<longleftrightarrow> f \<in> {ma_format_s16, ma_format_s24, ma_format_s32}"
| "wider ma_format_s16 f \<longleftrightarrow> f \<in> {ma_format_s24, ma_format_s32}"
| "wider ma_format_s24 f \<longleftrightarrow> f = ma_format_s32"
| "wider _ f \<longleftrightarrow> False"

lemma pcm_convert_copies:
  "formatOut \<noteq> formatIn \<Longrightarrow> ma_pcm_convert cpu pOut formatOut pIn formatIn n dm lcg =
     (case (formatIn, formatOut) of
        (ma_format_u8, ma_format_s16) \<Rightarrow> Some (ma_pcm_u8_to_s16__reference pOut pIn n dm lcg)
      | (ma_format_u8, ma_format_s24) \<Rightarrow> Some (ma_pcm_u8_to_s24__reference pOut pIn n dm lcg)
      | (ma_format_u8, ma_format_s32) \<Rightarrow> Some (ma_pcm_u8_to_s32__reference pOut pIn n dm lcg)
      | (ma_format_u8, ma_format_f32) \<Rightarrow> Some (ma_pcm_u8_to_f32__reference pOut pIn n dm lcg)
      | (ma_format_s16, ma_format_u8) \<Rightarrow> Some (ma_pcm_s16_to_u8__reference pOut pIn n dm lcg)
      | (ma_format_s16, ma_format_s24) \<Rightarrow> Some (ma_pcm_s16_to_s24__reference pOut pIn n dm lcg)
      | (ma_format_s16, ma_format_s32) \<Rightarrow> Some (ma_pcm_s16_to_s32__reference pOut pIn n dm lcg)
      | (ma_format_s16, ma_format_f32) \<Rightarrow> Some (ma_pcm_s16_to_f32__reference pOut pIn n dm lcg)
      | (ma_format_s24, ma_format_u8) \<Rightarrow> Some (ma_pcm_s24_to_u8__reference pOut pIn n dm lcg)
      | (ma_format_s24, ma_format_s16) \<Rightarrow> Some (ma_pcm_s24_to_s16__reference pOut pIn n dm lcg)
      | (ma_format_s24, ma_format_s32) \<Rightarrow> Some (ma_pcm_s24_to_s32__reference pOut pIn n dm lcg)
      | (ma_format_s24, ma_format_f32) \<Rightarrow> Some (ma_pcm_s24_to_f32__reference pOut pIn n dm lcg)
      | (ma_format_s32, ma_format_u8) \<Rightarrow> Some (ma_pcm_s32_to_u8__reference pOut pIn n dm lcg)
      | (ma_format_s32, ma_format_s16) \<Rightarrow> Some (ma_pcm_s32_to_s16__reference pOut pIn n dm lcg)
      | (ma_format_s32, ma_format_s24) \<Rightarrow> Some (ma_pcm_s32_to_s24__reference pOut pIn n dm lcg)
      | (ma_format_s32, ma_format_f32) \<Rightarrow> Some (ma_pcm_s32_to_f32__reference pOut pIn n dm lcg)
      | (ma_format_f32, ma_format_u8) \<Rightarrow> Some (ma_pcm_f32_to_u8__reference cpu pOut pIn n dm lcg)
      | (ma_format_f32, ma_format_s16) \<Rightarrow> Some (ma_pcm_f32_to_s16 cpu pOut pIn n dm lcg)
      | (ma_format_f32, ma_format_s24) \<Rightarrow> Some (ma_pcm_f32_to_s24__reference cpu pOut pIn n dm lcg)
      | (ma_format_f32, ma_format_s32) \<Rightarrow> map_option (\<lambda>out. (out, lcg)) (ma_pcm_f32_to_s32__reference cpu pOut pIn n dm)
      | _ \<Rightarrow> Some (pOut, lcg))"
  by (cases formatIn; cases formatOut; cases "cpu_simd cpu")
    (simp_all add: ma_pcm_convert_def pcm_wrappers ma_pcm_f32_to_s32_def ma_pcm_f32_to_s32__sse2_def
      ma_pcm_f32_to_s32__neon_def ma_pcm_f32_to_s32__optimized_def)

lemma bytes_of_reads:
  "2 * n = length m \<Longrightarrow> concat (map (\<lambda>i. le_bytes 2 (unat (s16_at m i))) [0..<n]) = m"
  "3 * n = length m \<Longrightarrow> concat (map (\<lambda>i. [m ! (i * 3), m ! (i * 3 + 1), m ! (i * 3 + 2)]) [0..<n]) = m"
proof -
  have "concat (map (\<lambda>i. le_bytes 2 (unat (s16_at m i))) [0..<n]) = concat (map (\<lambda>i. mem_read m (2 * i) 2) [0..<n])"
    if "2 * n = length m" using that by (intro arg_cong [where f = concat] map_cong refl) (auto simp: mem_read_bytes)
  then show "2 * n = length m \<Longrightarrow> concat (map (\<lambda>i. le_bytes 2 (unat (s16_at m i))) [0..<n]) = m"
    by (simp add: concat_reads)
  have "[m ! (i * 3), m ! (i * 3 + 1), m ! (i * 3 + 2)] = mem_read m (3 * i) 3" if "3 * n = length m" "i < n" for i
    using that by (intro nth_equalityI) (auto simp: mem_read_def mult.commute nth_Cons' numeral_3_eq_3 less_Suc_eq)
  then have "concat (map (\<lambda>i. [m ! (i * 3), m ! (i * 3 + 1), m ! (i * 3 + 2)]) [0..<n]) = concat (map (\<lambda>i. mem_read m (3 * i) 3) [0..<n])"
    if "3 * n = length m" using that by (intro arg_cong [where f = concat] map_cong refl) auto
  then show "3 * n = length m \<Longrightarrow> concat (map (\<lambda>i. [m ! (i * 3), m ! (i * 3 + 1), m ! (i * 3 + 2)]) [0..<n]) = m"
    by (simp add: concat_reads)
qed

lemmas pcm_loops = u8_loop s16_loop s24_loop s32_loop f32_loop
lemmas pcm_reads = s16_at_concat [where r = "[]", simplified] s32_at_concat [where r = "[]", simplified]
  f32_at_concat [where r = "[]", simplified] nth_concat3 [where r = "[]", simplified]

lemma concat_map_upt_cong: "(\<And>i. i < n \<Longrightarrow> g i = h i) \<Longrightarrow> concat (map g [0..<n]) = concat (map h [0..<n])"
  by (intro arg_cong [where f = concat] map_cong) simp_all

lemma u8_round_trips:
  assumes "length src = unat n" "length dst = unat n"
  shows "length tmp = 2 * unat n \<Longrightarrow>
      ma_pcm_s16_to_u8__reference dst (fst (ma_pcm_u8_to_s16__reference tmp src n dm lcg)) n ma_dither_mode_none lcg = (src, lcg)"
    "length tmp = 3 * unat n \<Longrightarrow>
      ma_pcm_s24_to_u8__reference dst (fst (ma_pcm_u8_to_s24__reference tmp src n dm lcg)) n ma_dither_mode_none lcg = (src, lcg)"
    "length tmp = 4 * unat n \<Longrightarrow>
      ma_pcm_s32_to_u8__reference dst (fst (ma_pcm_u8_to_s32__reference tmp src n dm lcg)) n ma_dither_mode_none lcg = (src, lcg)"
  unfolding ma_pcm_s16_to_u8__reference_def ma_pcm_u8_to_s16__reference_def ma_pcm_s24_to_u8__reference_def
    ma_pcm_u8_to_s24__reference_def ma_pcm_s32_to_u8__reference_def ma_pcm_u8_to_s32__reference_def
  using assms by (simp_all add: pcm_loops) (rule map_upt_eqI; simp add: pcm_reads narrow_u8)+

lemma s16_round_trips:
  assumes "length src = 2 * unat n" "length dst = 2 * unat n"
  shows "length tmp = 3 * unat n \<Longrightarrow>
      ma_pcm_s24_to_s16__reference dst (fst (ma_pcm_s16_to_s24__reference tmp src n dm lcg)) n ma_dither_mode_none lcg = (src, lcg)"
    "length tmp = 4 * unat n \<Longrightarrow>
      ma_pcm_s32_to_s16__reference dst (fst (ma_pcm_s16_to_s32__reference tmp src n dm lcg)) n ma_dither_mode_none lcg = (src, lcg)"
  unfolding ma_pcm_s24_to_s16__reference_def ma_pcm_s16_to_s24__reference_def ma_pcm_s32_to_s16__reference_def
    ma_pcm_s16_to_s32__reference_def
  using assms by (simp_all add: pcm_loops)
    (rule trans [OF concat_map_upt_cong bytes_of_reads(1)]; simp add: pcm_reads narrow_s16 ucast_shift_back)+

lemma s24_round_trip:
  assumes "length src = 3 * unat n" "length dst = 3 * unat n" "length tmp = 4 * unat n"
  shows "ma_pcm_s32_to_s24__reference dst (fst (ma_pcm_s24_to_s32__reference tmp src n dm lcg)) n dm' lcg = (src, lcg)"
  unfolding ma_pcm_s32_to_s24__reference_def ma_pcm_s24_to_s32__reference_def Let_def
  using assms by (simp add: pcm_loops)
    (rule trans [OF concat_map_upt_cong bytes_of_reads(2)]; simp add: pcm_reads narrow_s24 [OF s24_at_def, simplified])

lemma widening_ok:
  "snd (ma_pcm_u8_to_s16__reference tmp src n dm lcg) = lcg" "snd (ma_pcm_u8_to_s24__reference tmp src n dm lcg) = lcg"
  "snd (ma_pcm_u8_to_s32__reference tmp src n dm lcg) = lcg" "snd (ma_pcm_s16_to_s24__reference tmp src n dm lcg) = lcg"
  "snd (ma_pcm_s16_to_s32__reference tmp src n dm lcg) = lcg" "snd (ma_pcm_s24_to_s32__reference tmp src n dm lcg) = lcg"
  by (simp_all add: ma_pcm_u8_to_s16__reference_def ma_pcm_u8_to_s24__reference_def ma_pcm_u8_to_s32__reference_def
      ma_pcm_s16_to_s24__reference_def ma_pcm_s16_to_s32__reference_def ma_pcm_s24_to_s32__reference_def)

lemma pcm_widen_narrow:
  assumes "wider a b" "length src = unat (ma_get_bytes_per_sample a) * unat n"
    "length tmp = unat (ma_get_bytes_per_sample b) * unat n" "length dst = length src"
  shows "\<exists>tmp'. ma_pcm_convert cpu tmp b src a n dm lcg = Some (tmp', lcg)
    \<and> ma_pcm_convert cpu dst a tmp' b n ma_dither_mode_none lcg = Some (src, lcg)"
proof -
  consider "a = ma_format_u8" "b = ma_format_s16" | "a = ma_format_u8" "b = ma_format_s24" | "a = ma_format_u8" "b = ma_format_s32"
    | "a = ma_format_s16" "b = ma_format_s24" | "a = ma_format_s16" "b = ma_format_s32" | "a = ma_format_s24" "b = ma_format_s32"
    using assms(1) by (cases a) auto
  then show ?thesis
  proof cases
    case 1
    then show ?thesis using assms u8_round_trips(1) [of src n dst tmp dm lcg]
      by (intro exI [of _ "fst (ma_pcm_u8_to_s16__reference tmp src n dm lcg)"]) (simp add: pcm_convert_copies widening_ok prod_eq_iff)
  next
    case 2
    then show ?thesis using assms u8_round_trips(2) [of src n dst tmp dm lcg]
      by (intro exI [of _ "fst (ma_pcm_u8_to_s24__reference tmp src n dm lcg)"]) (simp add: pcm_convert_copies widening_ok prod_eq_iff)
  next
    case 3
    then show ?thesis using assms u8_round_trips(3) [of src n dst tmp dm lcg]
      by (intro exI [of _ "fst (ma_pcm_u8_to_s32__reference tmp src n dm lcg)"]) (simp add: pcm_convert_copies widening_ok prod_eq_iff)
  next
    case 4
    then show ?thesis using assms s16_round_trips(1) [of src n dst tmp dm lcg]
      by (intro exI [of _ "fst (ma_pcm_s16_to_s24__reference tmp src n dm lcg)"]) (simp add: pcm_convert_copies widening_ok prod_eq_iff)
  next
    case 5
    then show ?thesis using assms s16_round_trips(2) [of src n dst tmp dm lcg]
      by (intro exI [of _ "fst (ma_pcm_s16_to_s32__reference tmp src n dm lcg)"]) (simp add: pcm_convert_copies widening_ok prod_eq_iff)
  next
    case 6
    then show ?thesis using assms s24_round_trip [of src n dst tmp dm lcg ma_dither_mode_none]
      by (intro exI [of _ "fst (ma_pcm_s24_to_s32__reference tmp src n dm lcg)"]) (simp add: pcm_convert_copies widening_ok prod_eq_iff)
  qed
qed

section \<open>Float samples\<close>

lemma fadd_zero:
  assumes "fmag binary32 m"
  shows "\<exists>s'. fadd binary32 (FNum s m) (FNum False 0) = FNum s' m \<and> (0 < m \<longrightarrow> s' = s)"
  using fmag_nonneg [OF assms] fround_exact [OF fmt_ok_binary(1) assms] by (auto simp: fsval_def)

lemma pcm_clip_range:
  assumes "fval_ok binary32 x" "x \<noteq> FNaN"
  shows "\<exists>s m. pcm_clip x = FNum s m \<and> fmag binary32 m \<and> m \<le> 1"
proof -
  have one: "fmag binary32 1" using fmag_int [of binary32 1] by simp
  show ?thesis
    using assms one fmag_nonneg by (cases x) (auto simp: pcm_clip_def fsval_def)
qed

lemma pcm_clip_id: "fmag binary32 m \<Longrightarrow> m \<le> 1 \<Longrightarrow> pcm_clip (FNum s m) = FNum s m"
  using fmag_nonneg by (fastforce simp: pcm_clip_def fsval_def)

lemma scale_16:
  assumes "fmag binary32 m" "m \<le> 1"
  shows "\<exists>r. fmul binary32 (FNum s m) (FNum False 32767) = FNum s r \<and> 0 \<le> r \<and> r \<le> 32767"
proof -
  have "fmag binary32 32767" using fmag_int [of binary32 32767] by simp
  then show ?thesis
    using fround_bounds [OF fmt_ok_binary(1), of 0 "m * 32767" 32767 s] assms fmag_nonneg [OF assms(1)] by auto
qed

lemma ftoint_16:
  assumes "0 \<le> r" "r \<le> 32767"
  shows "ftoint (- 32768) 32767 (FNum s r) = Some (if s then - \<lfloor>r\<rfloor> else \<lfloor>r\<rfloor>)"
    "ftoint (- 2147483648) 2147483647 (FNum s r) = Some (if s then - \<lfloor>r\<rfloor> else \<lfloor>r\<rfloor>)"
    "0 \<le> \<lfloor>r\<rfloor>" "\<lfloor>r\<rfloor> \<le> 32767"
proof -
  show f: "0 \<le> \<lfloor>r\<rfloor>" "\<lfloor>r\<rfloor> \<le> 32767" using assms floor_mono [OF assms(2)] by simp_all
  obtain k where k: "\<lfloor>r\<rfloor> = k" by simp
  show "ftoint (- 32768) 32767 (FNum s r) = Some (if s then - \<lfloor>r\<rfloor> else \<lfloor>r\<rfloor>)"
    "ftoint (- 2147483648) 2147483647 (FNum s r) = Some (if s then - \<lfloor>r\<rfloor> else \<lfloor>r\<rfloor>)"
    using f unfolding k by (auto simp: Let_def k)
qed

text \<open>A sample of a number is converted without undefined behaviour, to at most 32767 in
  magnitude.\<close>

lemma f32_s16_sample_ok:
  assumes "fval_ok binary32 (fadd binary32 x d)" "fadd binary32 x d \<noteq> FNaN"
  shows "\<exists>i. (\<forall>cpu. f32_s16_sample cpu x d = word_of_int i) \<and> \<bar>i\<bar> \<le> 32767"
proof -
  obtain s m where c: "pcm_clip (fadd binary32 x d) = FNum s m" "fmag binary32 m" "m \<le> 1"
    using pcm_clip_range [OF assms] by auto
  obtain r where r: "fmul binary32 (FNum s m) (FNum False 32767) = FNum s r" "0 \<le> r" "r \<le> 32767"
    using scale_16 [OF c(2,3)] by auto
  note t = ftoint_16 [OF r(2,3)]
  have "f32_s16_sample cpu x d = word_of_int (if s then - \<lfloor>r\<rfloor> else \<lfloor>r\<rfloor>)" for cpu
    unfolding f32_s16_sample_def c_cast_def c(1) r(1) t(1) by simp
  moreover have "\<bar>if s then - \<lfloor>r\<rfloor> else \<lfloor>r\<rfloor>\<bar> \<le> 32767" using t(3,4) by simp
  ultimately show ?thesis by (intro exI [of _ "if s then - \<lfloor>r\<rfloor> else \<lfloor>r\<rfloor>"]) blast
qed

text \<open>The saturating vector conversions agree with it on samples between -1 and 1.\<close>

lemma saturate_sample:
  assumes "fmag binary32 m" "m \<le> 1"
  shows "saturate16 (mm_cvttps (fmul binary32 (fadd binary32 (FNum s m) (FNum False 0)) (FNum False 32767)))
      = f32_s16_sample cpu (FNum s m) (FNum False 0)" (is "saturate16 (mm_cvttps ?v) = _")
    and "saturate16 (vcvtq_s32 (fmul binary32 (fadd binary32 (FNum s m) (FNum False 0)) (FNum False 32767)))
      = f32_s16_sample cpu (FNum s m) (FNum False 0)"
proof -
  obtain s' where a: "fadd binary32 (FNum s m) (FNum False 0) = FNum s' m" using fadd_zero [OF assms(1)] by blast
  obtain r where r: "fmul binary32 (FNum s' m) (FNum False 32767) = FNum s' r" "0 \<le> r" "r \<le> 32767"
    using scale_16 [OF assms] by blast
  note t = ftoint_16 [OF r(2,3)]
  have f: "f32_s16_sample cpu (FNum s m) (FNum False 0) = word_of_int (if s' then - \<lfloor>r\<rfloor> else \<lfloor>r\<rfloor>)"
    unfolding f32_s16_sample_def c_cast_def a pcm_clip_id [OF assms] r(1) t(1) by simp
  obtain k where k: "\<lfloor>r\<rfloor> = k" by simp
  show "saturate16 (mm_cvttps ?v) = f32_s16_sample cpu (FNum s m) (FNum False 0)"
    unfolding f unfolding a r(1) mm_cvttps_def t(2) saturate16_def using t(3,4) unfolding k by simp
  show "saturate16 (vcvtq_s32 ?v) = f32_s16_sample cpu (FNum s m) (FNum False 0)"
    unfolding f unfolding a r(1) saturate16_def using t(3,4) unfolding k by (simp add: k)
qed

section \<open>Unrolled and vector loops\<close>

lemma block_le: "2 ^ n * unat (drop_bit n w) \<le> unat w" for w :: "'a::len word"
  by (subst unat_drop_bit_eq) (simp add: drop_bit_eq_div)

lemma fold_blocks: "fold (\<lambda>b. fold (\<lambda>k. f (z * b + k)) [0..<z]) [0..<m] s = fold f [0..<z * m] s"
proof (induction m)
  case (Suc m)
  have "[0..<z * Suc m] = [0..<z * m] @ map (\<lambda>k. z * m + k) [0..<z]"
    using upt_add_eq_append [of 0 "z * m" z] map_add_upt [of "z * m" z] by (simp add: add.commute)
  then show ?case using Suc by (simp add: fold_map comp_def)
qed simp

lemma fold_pair: "fold (\<lambda>i (d, l). (g i d, l)) xs (d, l) = (fold g xs d, l)"
  by (induction xs arbitrary: d) simp_all

lemma upt_split: "k \<le> n \<Longrightarrow> fold f [k..<n] (fold f [0..<k] s) = fold f [0..<n] s"
  using upt_add_eq_append [of 0 k "n - k"] by simp

text \<open>One round of the reference loop.\<close>

definition f32_s16_round :: "ma_cpu \<Rightarrow> u8 list \<Rightarrow> ma_dither_mode \<Rightarrow> nat \<Rightarrow> u8 list \<times> ma_lcg \<Rightarrow> u8 list \<times> ma_lcg" where
  "f32_s16_round cpu src ditherMode i = (\<lambda>(dst, lcg).
     case ma_dither_f32 ditherMode (fst (f32_s16_dither ditherMode)) (snd (f32_s16_dither ditherMode)) lcg of (d, lcg') \<Rightarrow>
       (s16_put dst i (f32_s16_sample cpu (f32_at src i) d), lcg'))"

lemma f32_s16_reference_fold:
  "ma_pcm_f32_to_s16__reference cpu dst src count dm lcg = fold (f32_s16_round cpu src dm) [0..<unat count] (dst, lcg)"
  by (simp add: ma_pcm_f32_to_s16__reference_def f32_s16_round_def [abs_def] for_count_def split_def)

lemma f32_s16_leftover_fold: "f32_s16_leftover cpu src i count dm s = fold (f32_s16_round cpu src dm) [i..<unat count] s"
  by (simp add: f32_s16_leftover_def f32_s16_round_def [abs_def] split_def)

lemma f32_s16_unrolled: "ma_pcm_f32_to_s16__optimized = ma_pcm_f32_to_s16__reference"
proof (intro ext)
  fix cpu dst src count dm lcg
  have upt: "[0..<4] = [0, 1, 2, 3 :: nat]" by (simp add: upt_rec)
  have le: "4 * unat (drop_bit 2 count) \<le> unat (count :: u64)" using block_le [of 2 count] by simp
  have "(\<lambda>b. fold (\<lambda>k. f32_s16_round cpu src dm (4 * b + k)) [0..<4]) = (\<lambda>i4 (dst, lcg).
        let i = 4 * i4; draw = ma_dither_f32 dm (fst (f32_s16_dither dm)) (snd (f32_s16_dither dm));
            (d0, lcg) = draw lcg; (d1, lcg) = draw lcg; (d2, lcg) = draw lcg; (d3, lcg) = draw lcg;
            dst = s16_put dst i (f32_s16_sample cpu (f32_at src i) d0);
            dst = s16_put dst (i + 1) (f32_s16_sample cpu (f32_at src (i + 1)) d1);
            dst = s16_put dst (i + 2) (f32_s16_sample cpu (f32_at src (i + 2)) d2);
            dst = s16_put dst (i + 3) (f32_s16_sample cpu (f32_at src (i + 3)) d3)
        in (dst, lcg))"
    by (rule ext, rule ext) (simp add: upt f32_s16_round_def split_def Let_def)
  then show "ma_pcm_f32_to_s16__optimized cpu dst src count dm lcg = ma_pcm_f32_to_s16__reference cpu dst src count dm lcg"
    using fold_blocks [of "f32_s16_round cpu src dm" 4 "unat (drop_bit 2 count)" "(dst, lcg)"]
      upt_split [OF le, of "f32_s16_round cpu src dm" "(dst, lcg)"]
    by (simp add: ma_pcm_f32_to_s16__optimized_def f32_s16_reference_fold f32_s16_leftover_fold for_count_def Let_def split_def)
qed

text \<open>Without dithering, a vector loop that converts every sample as the reference does
  leaves the same buffer.\<close>

lemma f32_s16_vector_eq:
  assumes "\<And>i. i < unat count \<Longrightarrow>
    saturate16 (cvt (fmul binary32 (fadd binary32 (f32_at src i) (FNum False 0)) (FNum False 32767)))
      = f32_s16_sample cpu (f32_at src i) (FNum False 0)"
  shows "f32_s16_vector cvt lane cpu dst src count ma_dither_mode_none lcg
    = ma_pcm_f32_to_s16__reference cpu dst src count ma_dither_mode_none lcg"
proof -
  let ?g = "\<lambda>i dst. s16_put dst i (f32_s16_sample cpu (f32_at src i) (FNum False 0))"
  let ?v = "\<lambda>i dst. s16_put dst i (saturate16 (cvt (fmul binary32 (fadd binary32 (f32_at src i) (FNum False 0)) (FNum False 32767))))"
  let ?m = "unat (drop_bit 3 count)"
  have le: "8 * ?m \<le> unat count" using block_le [of 3 count] by simp
  have r: "f32_s16_round cpu src ma_dither_mode_none = (\<lambda>i (d, l). (?g i d, l))"
    by (intro ext) (simp add: f32_s16_round_def ma_dither_f32_def split_def)
  have "fold (\<lambda>b. fold (\<lambda>k. ?v (8 * b + k)) [0..<8]) [0..<?m] dst = fold ?v [0..<8 * ?m] dst" by (rule fold_blocks)
  also have "\<dots> = fold ?g [0..<8 * ?m] dst" using assms le by (intro fold_cong) auto
  finally have "fold (\<lambda>i8 (dst, lcg). let i = 8 * i8; (d, lcg) = f32_s16_draws ma_dither_mode_none lcg;
      dst = fold (\<lambda>k dst. s16_put dst (i + k) (saturate16 (cvt
              (fmul binary32 (fadd binary32 (f32_at src (i + k)) (d (lane k))) (FNum False 32767))))) [0..<8] dst
      in (dst, lcg)) [0..<?m] (dst, lcg) = (fold ?g [0..<8 * ?m] dst, lcg)"
    using fold_pair [of "\<lambda>b. fold (\<lambda>k. ?v (8 * b + k)) [0..<8]" "[0..<?m]" dst lcg] by (simp add: f32_s16_draws_def Let_def)
  then show ?thesis
    using upt_split [OF le, of ?g dst]
    by (simp add: f32_s16_vector_def f32_s16_reference_fold f32_s16_leftover_fold r fold_pair for_count_def Let_def)
qed

lemma f32_s16_dispatch:
  assumes "\<And>i. i < unat count \<Longrightarrow> \<exists>s m. f32_at src i = FNum s m \<and> fmag binary32 m \<and> m \<le> 1"
  shows "ma_pcm_f32_to_s16 cpu dst src count ma_dither_mode_none lcg
    = ma_pcm_f32_to_s16__reference cpu dst src count ma_dither_mode_none lcg"
proof -
  have "f32_s16_vector mm_cvttps lane cpu dst src count ma_dither_mode_none lcg
      = ma_pcm_f32_to_s16__reference cpu dst src count ma_dither_mode_none lcg"
    "f32_s16_vector vcvtq_s32 lane cpu dst src count ma_dither_mode_none lcg
      = ma_pcm_f32_to_s16__reference cpu dst src count ma_dither_mode_none lcg" for lane
    by (rule f32_s16_vector_eq, use assms saturate_sample in metis)+
  then show ?thesis
    by (simp add: ma_pcm_f32_to_s16_def pcm_dispatch_def ma_pcm_f32_to_s16__sse2_def ma_pcm_f32_to_s16__neon_def
        f32_s16_unrolled split: ma_simd.split)
qed

section \<open>Dither values\<close>

lemma sint_add_bounded:
  fixes a b :: "'a::len word"
  assumes "- (2 ^ (LENGTH('a) - 1)) \<le> sint a + int (unat b)" "sint a + int (unat b) < 2 ^ (LENGTH('a) - 1)"
  shows "sint (a + b) = sint a + int (unat b)"
proof -
  have "a + b = word_of_int (sint a + int (unat b))" by simp
  then have "sint (a + b) = signed_take_bit (LENGTH('a) - 1) (sint a + int (unat b))"
    by (simp only: sint_sbintrunc')
  then show ?thesis using assms signed_take_bit_int_eq_self [of "LENGTH('a) - 1"] by simp
qed

lemma rand_range_bounds:
  assumes "sint lo \<le> sint hi" "sint hi - sint lo < 2 ^ 32 - 1"
  shows "sint lo \<le> sint (fst (ma_lcg_rand_range_s32 g lo hi)) \<and> sint (fst (ma_lcg_rand_range_s32 g lo hi)) \<le> sint hi"
proof (cases "lo = hi")
  case False
  obtain r g' where rg: "ma_lcg_rand_u32 g = (r, g')" by fastforce
  let ?R = "nat (sint hi - sint lo + 1)"
  have ne: "sint lo \<noteq> sint hi" using False by (auto dest: signed_word_eqI)
  have R: "2 \<le> ?R" "?R < 2 ^ 32" using assms ne by auto
  have "hi - lo + 1 = word_of_int (sint hi - sint lo + 1)" by simp
  also have "\<dots> = word_of_int (int ?R)" using assms(1) by simp
  also have "\<dots> = of_nat ?R" by simp
  finally have uR: "unat (hi - lo + 1) = ?R" using R(2) by (simp add: unat_of_nat)
  let ?q = "(2 ^ 32 - 1) div ?R"
  have "?q * 2 \<le> ?q * ?R" using R(1) by (intro mult_le_mono) auto
  also have "\<dots> \<le> 2 ^ 32 - 1" by (simp add: div_times_less_eq_dividend)
  finally have q2: "?q + 1 < 2 ^ 32" by simp
  have ud: "unat (0xFFFFFFFF div (hi - lo + 1) + 1 :: u32) = ?q + 1"
  proof -
    have "unat (0xFFFFFFFF div (hi - lo + 1) :: u32) = ?q" using uR by (simp add: unat_div)
    then show ?thesis using q2 by (subst unat_add_lem [THEN iffD1]) auto
  qed
  have "unat r < 2 ^ 32" using unsigned_less [of r] by simp
  also have "2 ^ 32 \<le> (?q + 1) * ?R"
  proof -
    have "2 ^ 32 - 1 < ?q * ?R + ?R" using R(1) div_mult_mod_eq [of "2 ^ 32 - 1" ?R] mod_less_divisor [of ?R "2 ^ 32 - 1"] by linarith
    then show ?thesis by (simp add: algebra_simps)
  qed
  finally have "unat r < ?R * (?q + 1)" by (simp add: mult.commute)
  then have d: "unat r div (?q + 1) < ?R" by (simp add: less_mult_imp_div_less)
  have u: "unat (r div (0xFFFFFFFF div (hi - lo + 1) + 1)) = unat r div (?q + 1)" using ud by (simp add: unat_div)
  have "sint (lo + r div (0xFFFFFFFF div (hi - lo + 1) + 1)) = sint lo + int (unat r div (?q + 1))"
    using d assms(1) sint_ge [of lo] sint_less [of hi] u by (subst sint_add_bounded) auto
  then show ?thesis using d assms(1) False rg by (auto simp: ma_lcg_rand_range_s32_def)
qed (use assms in \<open>simp add: ma_lcg_rand_range_s32_def\<close>)

section \<open>16 bit samples as floats\<close>

lemma fmag_ratio:
  assumes "k < 2 ^ 24" "j \<le> 100"
  shows "fmag binary32 (of_nat k / 2 ^ j)"
  using assms by (intro fmagI [of _ "int k" "- int j"]) (auto simp: power_int_minus divide_inverse)

lemma s16_as_f32:
  assumes "\<bar>x\<bar> \<le> 32768"
  shows "fmul binary32 (fofint binary32 x) (frat binary32 (1 / 32768)) = FNum (x < 0) (of_int \<bar>x\<bar> / 32768)"
proof -
  obtain k where k: "\<bar>x\<bar> = int k" "k \<le> 32768" using assms by (metis abs_ge_zero nonneg_int_cases of_nat_le_iff of_nat_numeral)
  have "fofint binary32 x = FNum (x < 0) (of_nat k)"
    using fround_exact [OF fmt_ok_binary(1) fmag_ratio [of k 0], of "x < 0"] k by (simp add: fofint_def)
  moreover have "frat binary32 (1 / 32768) = FNum False (1 / 32768)"
    using fround_exact [OF fmt_ok_binary(1) fmag_ratio [of 1 15], of False] by (simp add: frat_def)
  moreover have "fround binary32 (x < 0) (of_nat k / 32768) = FNum (x < 0) (of_nat k / 32768)"
    using fround_exact [OF fmt_ok_binary(1) fmag_ratio [of k 15], of "x < 0"] k by simp
  ultimately show ?thesis by (simp add: k)
qed

lemma f32_s16_shrinks:
  assumes "\<bar>x\<bar> \<le> 32768"
  shows "f32_s16_sample cpu (FNum (x < 0) (of_int \<bar>x\<bar> / 32768)) (FNum False 0) = word_of_int (x - sgn x)"
proof -
  obtain k where k: "\<bar>x\<bar> = int k" "k \<le> 32768" using assms by (metis abs_ge_zero nonneg_int_cases of_nat_le_iff of_nat_numeral)
  have m: "fmag binary32 (of_nat k / 32768)" "(of_nat k / 32768 :: rat) \<le> 1" using fmag_ratio [of k 15] k(2) by simp_all
  obtain s' where a: "fadd binary32 (FNum (x < 0) (of_nat k / 32768)) (FNum False 0) = FNum s' (of_nat k / 32768)"
    "0 < k \<longrightarrow> s' = (x < 0)" using fadd_zero [OF m(1), of "x < 0"] by auto
  show ?thesis
  proof (cases "k = 0")
    case True
    then show ?thesis using k(1) by (simp add: f32_s16_sample_def c_cast_def fsval_def pcm_clip_def fround_def)
  next
    case False
    let ?h = "if k < 64 then (of_nat (k * 2 ^ 15 - 1) / 2 ^ 15 :: rat) else of_nat (k * 2 ^ 9 - 1) / 2 ^ 9"
    have le: "of_nat k / 32768 * 32767 \<le> ?h"
      using False k(2) by (auto simp: of_nat_diff field_simps)
    have lo: "of_nat (k - 1) \<le> (of_nat k / 32768 * 32767 :: rat)"
      using False k(2) by (simp add: of_nat_diff field_simps)
    have fh: "fmag binary32 ?h" "fmag binary32 (of_nat (k - 1))" using k(2) fmag_ratio [of "k * 2 ^ 15 - 1" 15] fmag_ratio [of "k * 2 ^ 9 - 1" 9] fmag_ratio [of "k - 1" 0]
      by auto
    obtain r where r: "fmul binary32 (FNum s' (of_nat k / 32768)) (FNum False 32767) = FNum s' r" "of_nat (k - 1) \<le> r" "r \<le> ?h"
      using fround_bounds [OF fmt_ok_binary(1) fh(2) lo fh(1) le, of s'] by auto
    have "?h < of_nat k" using False by (auto simp: of_nat_diff field_simps)
    then have "r < of_nat k" using r(3) by linarith
    then have fl: "\<lfloor>r\<rfloor> = int k - 1" using r(2) False by (intro floor_unique) (auto simp: of_nat_diff)
    have "c_cast cpu (- 32768) 32767 (FNum s' r) = (if s' then - (int k - 1) else int k - 1)"
      using False k(2) by (auto simp: c_cast_def fl)
    moreover have "(if s' then - (int k - 1) else int k - 1) = x - sgn x" using a(2) False k(1) by (auto simp: sgn_if)
    ultimately show ?thesis using a(1) pcm_clip_id [OF m, of s'] r(1) by (simp add: f32_s16_sample_def k(1))
  qed
qed

text \<open>A buffer of 16 bit samples, to float and back: every sample loses one unit of
  magnitude.\<close>

lemma s16_f32_s16:
  assumes "length src = 2 * unat n" "length tmp = 4 * unat n" "length dst = 2 * unat n" "i < unat n"
  shows "s16_at (fst (ma_pcm_f32_to_s16 cpu dst (fst (ma_pcm_s16_to_f32__reference tmp src n dm lcg)) n ma_dither_mode_none lcg')) i
    = word_of_int (sint (s16_at src i) - sgn (sint (s16_at src i)))"
proof -
  let ?t = "fst (ma_pcm_s16_to_f32__reference tmp src n dm lcg)"
  let ?v = "\<lambda>i. FNum (sint (s16_at src i) < 0) (of_int \<bar>sint (s16_at src i)\<bar> / 32768)"
  have b: "\<bar>sint (s16_at src i)\<bar> \<le> 32768" for i using sint_ge [of "s16_at src i"] sint_less [of "s16_at src i"] by simp
  have ok: "fval_ok binary32 (?v i)" "(of_int \<bar>sint (s16_at src i)\<bar> / 32768 :: rat) \<le> 1" for i
  proof -
    obtain k where k: "\<bar>sint (s16_at src i)\<bar> = int k" "k \<le> 32768"
      using b [of i] by (metis abs_ge_zero nonneg_int_cases of_nat_le_iff of_nat_numeral)
    then show "fval_ok binary32 (?v i)" "(of_int \<bar>sint (s16_at src i)\<bar> / 32768 :: rat) \<le> 1" using fmag_ratio [of k 15] by auto
  qed
  have t: "?t = concat (map (\<lambda>i. bytes_of_f32 (?v i)) [0..<unat n])"
    using assms(2) by (simp add: ma_pcm_s16_to_f32__reference_def pcm_loops s16_as_f32 [OF b])
  have r: "f32_at ?t i = ?v i" if "i < unat n" for i
    using pcm_reads(3) [OF that, of ?v] ok(1) [of i] unfolding t by simp
  have "ma_pcm_f32_to_s16 cpu dst ?t n ma_dither_mode_none lcg' = ma_pcm_f32_to_s16__reference cpu dst ?t n ma_dither_mode_none lcg'"
  proof (rule f32_s16_dispatch)
    fix i assume "i < unat n"
    from r [OF this] ok [of i] show "\<exists>s m. f32_at ?t i = FNum s m \<and> fmag binary32 m \<and> m \<le> 1"
      by (intro exI [of _ "sint (s16_at src i) < 0"] exI [of _ "of_int \<bar>sint (s16_at src i)\<bar> / 32768"]) simp
  qed
  also have "\<dots> = (concat (map (\<lambda>i. le_bytes 2 (unat (f32_s16_sample cpu (f32_at ?t i) (FNum False 0)))) [0..<unat n]), lcg')"
    using assms(3) s16_loop [of n dst "\<lambda>i. f32_s16_sample cpu (f32_at ?t i) (FNum False 0)"]
      fold_pair [of "\<lambda>i dst. s16_put dst i (f32_s16_sample cpu (f32_at ?t i) (FNum False 0))" "[0..<unat n]" dst lcg']
    by (simp add: ma_pcm_f32_to_s16__reference_def ma_dither_f32_def for_count_def split_def)
  finally show ?thesis
    using pcm_reads(1) [OF assms(4), of "\<lambda>i. f32_s16_sample cpu (f32_at ?t i) (FNum False 0)"] r [OF assms(4)]
      f32_s16_shrinks [OF b] by simp
qed

section \<open>Counters narrower than their bound\<close>

lemma narrow_count_less: "count < 2 ^ 32 \<longleftrightarrow> unat count < 2 ^ 32" for count :: u64
  by (simp add: word_less_nat_alt)

lemma f32_s32_loop_ends:
  assumes "unat count < 2 ^ 32" "unat i \<le> unat count"
  shows "\<exists>out. f32_s32_loop cpu dst src count i = Some out"
  using assms
proof (induction "unat count - unat i" arbitrary: i dst)
  case 0
  then have "\<not> (ucast i :: u64) < count" by (simp add: word_less_nat_alt)
  then show ?case by (subst f32_s32_loop.simps) simp
next
  case (Suc k)
  then have lt: "unat i < unat count" by simp
  then have "(ucast i :: u64) < count" by (simp add: word_less_nat_alt)
  moreover have "unat (i + 1) = unat i + 1" using lt Suc.prems(1) by (subst unat_add_lem [THEN iffD1]) auto
  ultimately show ?case using Suc lt by (subst f32_s32_loop.simps) simp
qed

lemma narrow_counter_less: "2 ^ 32 \<le> unat count \<Longrightarrow> (ucast i :: u64) < count" for i :: u32 and count :: u64
  using less_le_trans [OF unat_lt_u32 [of i], of "unat count"] by (simp add: word_less_nat_alt)

lemma f32_s32_loop_hangs:
  assumes "2 ^ 32 \<le> unat count"
  shows "f32_s32_loop cpu dst src count i = None"
proof -
  have "f32_s32_loop cpu dst src count i \<noteq> Some out" for out
  proof
    assume "f32_s32_loop cpu dst src count i = Some out"
    then have "2 ^ 32 \<le> unat count \<longrightarrow> False"
      by (rule f32_s32_loop.raw_induct [rotated]) (fastforce simp: narrow_counter_less)
    then show False using assms by simp
  qed
  then show ?thesis by (metis option.exhaust)
qed

lemma f32_to_s32_total: "(\<exists>out. ma_pcm_f32_to_s32 cpu dst src count dm = Some out) \<longleftrightarrow> unat count < 2 ^ 32"
  using f32_s32_loop_ends [of count 0 cpu dst src] f32_s32_loop_hangs [of count cpu dst src 0]
  by (cases "unat count < 2 ^ 32") (auto simp: ma_pcm_f32_to_s32_def pcm_dispatch_def ma_pcm_f32_to_s32__sse2_def ma_pcm_f32_to_s32__neon_def
      ma_pcm_f32_to_s32__optimized_def ma_pcm_f32_to_s32__reference_def split: ma_simd.split)

section \<open>Interleaving\<close>

lemma fold_nest:
  "fold (\<lambda>f. fold (\<lambda>c. h (f * ch + c)) [0..<ch]) [0..<n] s = fold h [0..<n * ch] s" for ch :: nat
  using fold_blocks [of h ch n s] by (simp add: mult.commute)

lemma interleave_loop_eq:
  assumes "length dst = z * (unat n * unat ch)" "length src = unat ch" "\<forall>c < unat ch. length (src ! c) = z * unat n"
  shows "interleave_loop z dst src n ch
    = concat (map (\<lambda>k. mem_read (src ! (k mod unat ch)) (z * (k div unat ch)) z) [0..<unat n * unat ch])"
proof -
  let ?g = "\<lambda>k. mem_read (src ! (k mod unat ch)) (z * (k div unat ch)) z"
  have "interleave_loop z dst src n ch = fold (\<lambda>f. fold (\<lambda>c m. mem_write m (z * (f * unat ch + c)) (?g (f * unat ch + c))) [0..<unat ch]) [0..<unat n] dst"
    unfolding interleave_loop_def for_count_def elem_copy_def
    by (intro fold_cong refl ext) (auto simp: div_mult_self3)
  also have "\<dots> = fold (\<lambda>k m. mem_write m (z * k) (?g k)) [0..<unat n * unat ch] dst" by (rule fold_nest)
  also have "\<dots> = concat (map ?g [0..<unat n * unat ch]) @ drop (z * (unat n * unat ch)) dst"
  proof (rule for_writes)
    fix k assume "k < unat n * unat ch"
    then have "k div unat ch < unat n" "k mod unat ch < unat ch" by (auto simp: less_mult_imp_div_less intro!: mod_less_divisor gr0I)
    then have "length (src ! (k mod unat ch)) = z * unat n" "z * Suc (k div unat ch) \<le> z * unat n"
      using assms(3) mult_le_mono2 [of "Suc (k div unat ch)" "unat n" z] by simp_all
    then show "length (?g k) = z" by (simp add: mem_read_def)
  qed (simp_all add: assms)
  finally show ?thesis using assms(1) by simp
qed

lemma fold_update_each:
  "ch \<le> length d \<Longrightarrow> fold (\<lambda>c d. d[c := h c (d ! c)]) [0..<ch] d = map (\<lambda>c. h c (d ! c)) [0..<ch] @ drop ch d"
proof (induction ch)
  case (Suc ch)
  then have "drop ch d = d ! ch # drop (Suc ch) d" by (simp add: Cons_nth_drop_Suc)
  then show ?case using Suc by (simp add: nth_append list_update_append)
qed simp

lemma deinterleave_loop_eq:
  assumes "length dst = unat ch" "\<forall>c < unat ch. length (dst ! c) = z * unat n" "length src = z * (unat n * unat ch)"
  shows "deinterleave_loop z dst src n ch
    = map (\<lambda>c. concat (map (\<lambda>f. mem_read src (z * (f * unat ch + c)) z) [0..<unat n])) [0..<unat ch]"
proof -
  let ?g = "\<lambda>c f. mem_read src (z * (f * unat ch + c)) z"
  let ?step = "\<lambda>f. fold (\<lambda>c dst. dst[c := elem_copy z (dst ! c) f src (f * unat ch + c)]) [0..<unat ch]"
  have g: "length (?g c f) = z" if "c < unat ch" "f < unat n" for c f
  proof -
    have "Suc (f * unat ch + c) \<le> Suc f * unat ch" using that by simp
    also have "\<dots> \<le> unat n * unat ch" using that by (intro mult_le_mono) auto
    finally have "z * Suc (f * unat ch + c) \<le> length src" unfolding assms(3) by (intro mult_le_mono) auto
    then show ?thesis by (simp add: mem_read_def)
  qed
  have "fold ?step [0..<m] dst = map (\<lambda>c. concat (map (?g c) [0..<m]) @ drop (z * m) (dst ! c)) [0..<unat ch]"
    if "m \<le> unat n" for m using that
  proof (induction m)
    case 0
    show ?case using map_nth [of dst] assms(1) by simp
  next
    case (Suc m)
    let ?D = "\<lambda>m. map (\<lambda>c. concat (map (?g c) [0..<m]) @ drop (z * m) (dst ! c)) [0..<unat ch]"
    have e: "elem_copy z (concat (map (?g c) [0..<m]) @ drop (z * m) (dst ! c)) m src (m * unat ch + c)
        = concat (map (?g c) [0..<Suc m]) @ drop (z * Suc m) (dst ! c)" if "c < unat ch" for c
    proof -
      have "length (concat (map (?g c) [0..<m])) = z * m" using that Suc.prems by (intro length_concat_upt g) auto
      then show ?thesis using g [OF that, of m] Suc.prems by (simp add: elem_copy_def mem_write_def)
    qed
    have "fold ?step [0..<Suc m] dst = ?step m (?D m)" using Suc by simp
    also have "\<dots> = map (\<lambda>c. elem_copy z (?D m ! c) m src (m * unat ch + c)) [0..<unat ch]"
      using fold_update_each [of "unat ch" "?D m" "\<lambda>c x. elem_copy z x m src (m * unat ch + c)"] by simp
    also have "\<dots> = ?D (Suc m)" using e by (intro map_cong refl) (simp del: upt_Suc)
    finally show ?case .
  qed
  from this [of "unat n"] show ?thesis
    unfolding deinterleave_loop_def for_count_def using assms(2) by (auto intro!: map_cong)
qed

lemma interleave_deinterleave:
  assumes "length dst = unat ch" "\<forall>c < unat ch. length (dst ! c) = z * unat n" "length src = z * (unat n * unat ch)"
    "length out = length src"
  shows "interleave_loop z out (deinterleave_loop z dst src n ch) n ch = src"
proof -
  let ?d = "deinterleave_loop z dst src n ch"
  let ?g = "\<lambda>c f. mem_read src (z * (f * unat ch + c)) z"
  have g: "length (?g c f) = z" if "c < unat ch" "f < unat n" for c f
  proof -
    have "Suc (f * unat ch + c) \<le> Suc f * unat ch" using that by simp
    also have "\<dots> \<le> unat n * unat ch" using that by (intro mult_le_mono) auto
    finally have "z * Suc (f * unat ch + c) \<le> length src" unfolding assms(3) by (intro mult_le_mono) auto
    then show ?thesis by (simp add: mem_read_def)
  qed
  have d: "?d = map (\<lambda>c. concat (map (?g c) [0..<unat n])) [0..<unat ch]" by (rule deinterleave_loop_eq [OF assms(1-3)])
  have r: "mem_read (?d ! c) (z * f) z = ?g c f" if "c < unat ch" "f < unat n" for c f
    using that g read_concat [of "unat n" "?g c" z f "[]"] by (simp add: d)
  have "length (?d ! c) = z * unat n" if "c < unat ch" for c
    using that g by (simp add: d length_concat_upt)
  then have "interleave_loop z out ?d n ch
      = concat (map (\<lambda>k. mem_read (?d ! (k mod unat ch)) (z * (k div unat ch)) z) [0..<unat n * unat ch])"
    using assms(3,4) by (intro interleave_loop_eq) (simp_all add: d)
  also have "\<dots> = concat (map (\<lambda>k. mem_read src (z * k) z) [0..<unat n * unat ch])"
  proof (rule concat_map_upt_cong)
    fix k assume "k < unat n * unat ch"
    then have "k div unat ch < unat n" "k mod unat ch < unat ch"
      by (auto simp: less_mult_imp_div_less intro!: mod_less_divisor gr0I)
    then show "mem_read (?d ! (k mod unat ch)) (z * (k div unat ch)) z = mem_read src (z * k) z" by (simp add: r)
  qed
  also have "\<dots> = src" using assms(3) by (intro concat_reads) simp
  finally show ?thesis .
qed

section \<open>Samples beyond full scale\<close>

lemma loud_sample:
  "saturate16 (mm_cvttps (fmul binary32 (fadd binary32 (FNum False 131072) (FNum False 0)) (FNum False 32767))) = - 32768"
  "f32_s16_sample cpu (FNum False 131072) (FNum False 0) = 32767"
proof -
  have m: "fmag binary32 131072" "fmag binary32 (131072 * 32767)" "fmag binary32 32767"
    using fmag_int [of binary32 131072] fmag_int [of binary32 32767] by (simp_all add: fmagI [of _ 32767 17])
  have a: "fadd binary32 (FNum False 131072) (FNum False 0) = FNum False 131072"
    using fround_exact [OF fmt_ok_binary(1) m(1), of False] by (simp add: fsval_def)
  have b: "fmul binary32 (FNum False 131072) (FNum False 32767) = FNum False (131072 * 32767)"
    using fround_exact [OF fmt_ok_binary(1) m(2), of False] by simp
  have c: "fmul binary32 (FNum False 1) (FNum False 32767) = FNum False 32767"
    using fround_exact [OF fmt_ok_binary(1) m(3), of False] by simp
  show "saturate16 (mm_cvttps (fmul binary32 (fadd binary32 (FNum False 131072) (FNum False 0)) (FNum False 32767))) = - 32768"
    unfolding a b by (simp add: mm_cvttps_def saturate16_def)
  have "pcm_clip (FNum False 131072) = FNum False 1" by (simp add: pcm_clip_def fsval_def)
  then show "f32_s16_sample cpu (FNum False 131072) (FNum False 0) = 32767"
    unfolding f32_s16_sample_def a by (simp only: c) (simp add: c_cast_def)
qed

lemma loud_block:
  assumes "\<And>i. i < 8 \<Longrightarrow> f32_at src i = FNum False 131072" "length dst = 16" "i < 8"
  shows "s16_at (fst (f32_s16_vector mm_cvttps lane cpu dst src 8 ma_dither_mode_none lcg)) i = - 32768"
    "s16_at (fst (ma_pcm_f32_to_s16__reference cpu dst src 8 ma_dither_mode_none lcg)) i = 32767"
proof -
  have upt1: "[0..<Suc 0] = [0]" by simp
  have "fst (f32_s16_vector mm_cvttps lane cpu dst src 8 ma_dither_mode_none lcg)
      = for_count (8 :: u64) (\<lambda>i dst. s16_put dst i (- 32768)) dst"
    unfolding f32_s16_vector_def f32_s16_leftover_fold f32_s16_draws_def for_count_def
    by (simp add: Let_def upt1) (intro fold_cong refl ext, simp del: fadd.simps add: assms(1) loud_sample(1))
  also have "\<dots> = concat (map (\<lambda>i. le_bytes 2 (unat (- 32768 :: s16))) [0..<8])"
    using s16_loop [of "8 :: u64" dst "\<lambda>_. - 32768"] assms(2) by simp
  finally show "s16_at (fst (f32_s16_vector mm_cvttps lane cpu dst src 8 ma_dither_mode_none lcg)) i = - 32768"
    using pcm_reads(1) [OF assms(3), of "\<lambda>_. - 32768"] by simp
  have "fst (ma_pcm_f32_to_s16__reference cpu dst src 8 ma_dither_mode_none lcg)
      = fst (fold (\<lambda>i (dst, lcg). (s16_put dst i 32767, lcg)) [0..<8] (dst, lcg))"
    unfolding f32_s16_reference_fold f32_s16_round_def ma_dither_f32_def
    by (intro arg_cong [where f = fst] fold_cong) (auto simp: assms(1) loud_sample(2))
  also have "\<dots> = concat (map (\<lambda>i. le_bytes 2 (unat (32767 :: s16))) [0..<8])"
    using s16_loop [of "8 :: u64" dst "\<lambda>_. 32767"] assms(2) by (simp add: for_count_def fold_pair)
  finally show "s16_at (fst (ma_pcm_f32_to_s16__reference cpu dst src 8 ma_dither_mode_none lcg)) i = 32767"
    using pcm_reads(1) [OF assms(3), of "\<lambda>_. 32767"] by simp
qed

lemma sse2_loud:
  assumes "\<And>i. i < 8 \<Longrightarrow> f32_at src i = FNum False 131072" "length dst = 16" "i < 8"
    and "cpu_simd cpu = simd_sse2" "cpu_aligned cpu"
  shows "s16_at (fst (ma_pcm_f32_to_s16 cpu dst src 8 ma_dither_mode_none lcg)) i = - 32768"
    "s16_at (fst (ma_pcm_f32_to_s16 (cpu\<lparr>cpu_aligned := False\<rparr>) dst src 8 ma_dither_mode_none lcg)) i = 32767"
  using loud_block [OF assms(1-3)] assms(4,5)
  by (simp_all add: ma_pcm_f32_to_s16_def pcm_dispatch_def ma_pcm_f32_to_s16__sse2_def f32_s16_unrolled)

section \<open>Interleaving bytes\<close>

lemma interleave_u8_optimized:
  assumes "length dst = unat n * unat ch" "length src = unat ch" "\<forall>c < unat ch. length (src ! c) = unat n"
  shows "ma_pcm_interleave_u8__optimized dst src n ch = ma_pcm_interleave_u8__reference dst src n ch"
proof -
  have g: "interleave_loop 1 dst src n ch = concat (map (\<lambda>k. mem_read (src ! (k mod unat ch)) (k div unat ch) 1) [0..<unat n * unat ch])"
    using interleave_loop_eq [of dst 1 n ch src] assms by simp
  consider "ch = 1" | "ch = 2" | "ch \<noteq> 1" "ch \<noteq> 2" by blast
  then show ?thesis
  proof cases
    case 1
    then have "ma_copy_memory_64 dst (src ! 0) (n * 1) = src ! 0"
      using assms by (simp add: ma_copy_memory_64_def mem_write_def mem_read_def)
    moreover have "interleave_loop 1 dst src n ch = src ! 0"
      unfolding g using 1 assms concat_reads [of 1 "unat n" "src ! 0"] by simp
    ultimately show ?thesis using 1 by (simp add: ma_pcm_interleave_u8__optimized_def ma_pcm_interleave_u8__reference_def)
  next
    case 2
    have "(\<lambda>f dst. dst[f * 2 := src ! 0 ! f, f * 2 + 1 := src ! 1 ! f]) =
        (\<lambda>f. fold (\<lambda>c dst. dst[f * 2 + c := src ! c ! f]) [0..<2])" by (intro ext) (simp add: upt_rec)
    then have "for_count n (\<lambda>f dst. dst[f * 2 := src ! 0 ! f, f * 2 + 1 := src ! 1 ! f]) dst
        = fold (\<lambda>f. fold (\<lambda>c dst. dst[f * 2 + c := src ! c ! f]) [0..<2]) [0..<unat n] dst" by (simp add: for_count_def)
    also have "\<dots> = fold (\<lambda>f. fold (\<lambda>c dst. dst[f * 2 + c := src ! ((f * 2 + c) mod 2) ! ((f * 2 + c) div 2)]) [0..<2]) [0..<unat n] dst"
      by (intro fold_cong refl ext) auto
    also have "\<dots> = fold (\<lambda>k dst. dst[k := src ! (k mod 2) ! (k div 2)]) [0..<unat n * 2] dst" by (rule fold_nest)
    also have "\<dots> = concat (map (\<lambda>k. [src ! (k mod 2) ! (k div 2)]) [0..<unat n * 2]) @ drop (1 * (unat n * 2)) dst"
      using assms 2 by (intro for_writes) (simp_all add: list_update_write)
    also have "\<dots> = interleave_loop 1 dst src n ch"
    proof -
      have "[src ! (k mod 2) ! (k div 2)] = mem_read (src ! (k mod 2)) (k div 2) 1" if "k < unat n * 2" for k
        using that assms(3) 2 by (simp add: mem_read_def take_Suc_conv_app_nth hd_drop_conv_nth take_Suc)
      from concat_map_upt_cong [OF this] show ?thesis unfolding g using assms(1) 2 by simp
    qed
    finally show ?thesis using 2 by (simp add: ma_pcm_interleave_u8__optimized_def ma_pcm_interleave_u8__reference_def)
  qed (simp add: ma_pcm_interleave_u8__optimized_def ma_pcm_interleave_u8__reference_def)
qed

section \<open>Dithering to 8 bits\<close>

text \<open>The values that the generator gives, one after the other, and its state after \<open>n\<close> of them.\<close>

primrec dither_state :: "ma_dither_mode \<Rightarrow> s32 \<Rightarrow> s32 \<Rightarrow> ma_lcg \<Rightarrow> nat \<Rightarrow> ma_lcg" where
  "dither_state m lo hi g 0 = g"
| "dither_state m lo hi g (Suc n) = snd (ma_dither_s32 m lo hi (dither_state m lo hi g n))"

definition dither_draw :: "ma_dither_mode \<Rightarrow> s32 \<Rightarrow> s32 \<Rightarrow> ma_lcg \<Rightarrow> nat \<Rightarrow> s32" where
  "dither_draw m lo hi g i = fst (ma_dither_s32 m lo hi (dither_state m lo hi g i))"

lemma dither_bounds:
  assumes "sint lo \<le> 0" "0 \<le> sint hi" "- (2 ^ 30) \<le> sint lo" "sint hi < 2 ^ 30"
  shows "sint lo \<le> sint (fst (ma_dither_s32 m lo hi g))" "sint (fst (ma_dither_s32 m lo hi g)) \<le> sint hi"
proof -
  obtain a g1 where a: "ma_lcg_rand_range_s32 g lo 0 = (a, g1)" by (metis prod.exhaust)
  obtain b g2 where b: "ma_lcg_rand_range_s32 g1 0 hi = (b, g2)" by (metis prod.exhaust)
  have ra: "sint lo \<le> sint a" "sint a \<le> 0" using rand_range_bounds [of lo 0 g] a assms by auto
  have rb: "0 \<le> sint b" "sint b \<le> sint hi" using rand_range_bounds [of 0 hi g1] b assms by auto
  have "a + b = word_of_int (sint a + sint b)" by simp
  then have s: "sint (a + b) = sint a + sint b" using ra rb assms by (simp add: sint_sbintrunc' signed_take_bit_int_eq_self del: of_int_add)
  have rc: "sint lo \<le> sint (fst (ma_lcg_rand_range_s32 g lo hi))" "sint (fst (ma_lcg_rand_range_s32 g lo hi)) \<le> sint hi"
    using rand_range_bounds [of lo hi g] assms by auto
  show "sint lo \<le> sint (fst (ma_dither_s32 m lo hi g))" "sint (fst (ma_dither_s32 m lo hi g)) \<le> sint hi"
    using assms ra rb rc s by (auto simp: ma_dither_s32_def a b)
qed

lemma byte_of_s16: "sint v = k \<Longrightarrow> ucast (v + 128) = (word_of_int (k + 128) :: u8)" for v :: s16
proof -
  assume "sint v = k"
  then have "v + 128 = word_of_int (k + 128)" by (simp flip: \<open>sint v = k\<close>)
  then have "ucast (v + 128) = (ucast (word_of_int (k + 128) :: s16) :: u8)" by (rule arg_cong)
  also have "\<dots> = word_of_int (k + 128)" by (rule bit_word_eqI) (simp add: bit_simps del: of_int_add)
  finally show ?thesis .
qed

lemma dither_byte:
  fixes x :: s16 and d :: s32
  assumes "- 128 \<le> sint d" "sint d \<le> 127"
  shows "ucast (signed_drop_bit 8 (dither_add16 x d) + 128) =
    (if sint x + sint d < - 32768 \<or> 32767 < sint x + sint d then 255 else word_of_int ((sint x + sint d + 32768) div 256) :: u8)"
proof -
  define k where "k = sint x + sint d"
  have x: "- 32768 \<le> sint x" "sint x \<le> 32767" using sint_ge [of x] sint_lt [of x] by simp_all
  have dr: "sint (signed_drop_bit 8 w) = sint w div 256" for w :: s16 by (simp add: sint_signed_drop_bit_eq drop_bit_eq_div)
  consider "32767 < k" | "k < - 32768" | "- 32768 \<le> k" "k \<le> 32767" by linarith
  then show ?thesis
  proof cases
    case 1
    then have "dither_add16 x d = 0x7FFF" by (simp add: dither_add16_def k_def)
    moreover have "sint (0x7FFF :: s16) = 32767" by simp
    ultimately have "sint (signed_drop_bit 8 (dither_add16 x d)) = 127" by (simp add: dr)
    from byte_of_s16 [OF this] 1 show ?thesis by (simp add: k_def)
  next
    case 2
    then have "dither_add16 x d = word_of_int k" by (simp add: dither_add16_def k_def)
    also have "\<dots> = word_of_int (k + 65536)" by simp
    finally have "sint (dither_add16 x d) = k + 65536" using 2 x assms
      by (simp add: k_def sint_sbintrunc' signed_take_bit_int_eq_self del: of_int_add)
    moreover have "(k + 65536) div 256 = 127" using 2 x assms by (simp add: k_def)
    ultimately have "sint (signed_drop_bit 8 (dither_add16 x d)) = 127" by (simp add: dr)
    from byte_of_s16 [OF this] 2 show ?thesis by (simp add: k_def)
  next
    case 3
    then have "sint (dither_add16 x d) = k"
      by (simp add: dither_add16_def k_def sint_sbintrunc' signed_take_bit_int_eq_self del: of_int_add)
    then have "sint (signed_drop_bit 8 (dither_add16 x d)) = k div 256" by (simp add: dr)
    from byte_of_s16 [OF this] have "ucast (signed_drop_bit 8 (dither_add16 x d) + 128) = (word_of_int (k div 256 + 128) :: u8)" .
    moreover have "k div 256 + 128 = (k + 32768) div 256" by simp
    ultimately show ?thesis using 3 by (simp add: k_def del: of_int_add)
  qed
qed

lemma s16_to_u8_loop:
  "fold (\<lambda>i (dst, lcg). case ma_dither_s32 m lo hi lcg of (d, lcg') \<Rightarrow> (dst[i := f i d], lcg')) [0..<n] (dst, g)
   = (map (\<lambda>i. f i (dither_draw m lo hi g i)) [0..<n] @ drop n dst, dither_state m lo hi g n)" if "n \<le> length dst"
  using that
proof (induction n)
  case (Suc n)
  then have "drop n dst = dst ! n # drop (Suc n) dst" by (simp add: Cons_nth_drop_Suc)
  with Suc show ?case by (simp add: dither_draw_def list_update_append split_beta)
qed simp

lemma s16_to_u8_dither:
  assumes "length dst = unat n"
  shows "ma_pcm_s16_to_u8 cpu dst src n m g = (map (\<lambda>i. ucast (signed_drop_bit 8 (dither_add16 (s16_at src i) (dither_draw m (- 0x80) 0x7F g i)) + 128)) [0..<unat n],
    dither_state m (- 0x80) 0x7F g (unat n))"
proof -
  have r: "ma_pcm_s16_to_u8 cpu = ma_pcm_s16_to_u8__reference" by (cases "cpu_simd cpu") (simp_all add: pcm_wrappers)
  show ?thesis
  proof (cases "m = ma_dither_mode_none")
    case True
    have st: "dither_state m (- 0x80) 0x7F g k = g" for k by (induction k) (simp_all add: True ma_dither_s32_def)
    have "dither_draw m (- 0x80) 0x7F g i = 0" for i by (simp add: dither_draw_def True ma_dither_s32_def)
    moreover have "dither_add16 x 0 = x" for x using sint_lt [of x] by (simp add: dither_add16_def)
    ultimately show ?thesis using fold_update_each [of "unat n" dst "\<lambda>i _. ucast (signed_drop_bit 8 (s16_at src i) + 128)"] assms
      by (simp add: r ma_pcm_s16_to_u8__reference_def True for_count_def st [unfolded True])
  next
    case False
    then show ?thesis using s16_to_u8_loop [where n = "unat n" and dst = dst and m = m and lo = "- 0x80" and hi = "0x7F" and g = g
      and f = "\<lambda>i d. ucast (signed_drop_bit 8 (dither_add16 (s16_at src i) d) + 128)"] assms
      by (simp add: r ma_pcm_s16_to_u8__reference_def for_count_def)
  qed
qed

end
