(* ===== verification/RingSpec.thy ===== *)
theory RingSpec
  imports Prelude
begin

text \<open>
  The interface a ring buffer offers to its clients, as a locale: a bounded queue whose
  reads and writes are granted in contiguous regions, so that a client may need two
  rounds where the buffer wraps. The client loops (read or write until done or no more
  is granted) are verified here once, against the interface; \<open>ma_rb\<close> provides it for
  bytes and \<open>ma_pcm_rb\<close> for frames.
\<close>

locale ring_fifo =
  fixes inv :: "'r \<Rightarrow> bool"
    and cap :: "'r \<Rightarrow> nat"
    and contents :: "'r \<Rightarrow> 'c list"
    and readable :: "'r \<Rightarrow> nat"
    and writable :: "'r \<Rightarrow> nat"
    and peek :: "'r \<Rightarrow> nat \<Rightarrow> 'c list"
    and consume :: "'r \<Rightarrow> nat \<Rightarrow> 'r"
    and put :: "'r \<Rightarrow> 'c list \<Rightarrow> 'r"
    and cell_ok :: "'r \<Rightarrow> 'c \<Rightarrow> bool"
  assumes readable_le: "inv r \<Longrightarrow> readable r \<le> length (contents r)"
    and readable_0: "inv r \<Longrightarrow> readable r = 0 \<longleftrightarrow> contents r = []"
    and peek_take: "inv r \<Longrightarrow> k \<le> readable r \<Longrightarrow> peek r k = take k (contents r)"
    and inv_consume: "inv r \<Longrightarrow> k \<le> readable r \<Longrightarrow> inv (consume r k)"
    and contents_consume: "inv r \<Longrightarrow> k \<le> readable r \<Longrightarrow> contents (consume r k) = drop k (contents r)"
    and cap_consume: "inv r \<Longrightarrow> k \<le> readable r \<Longrightarrow> cap (consume r k) = cap r"
    and writable_le: "inv r \<Longrightarrow> writable r \<le> cap r - length (contents r)"
    and writable_0: "inv r \<Longrightarrow> writable r = 0 \<longleftrightarrow> length (contents r) = cap r"
    and inv_put: "inv r \<Longrightarrow> list_all (cell_ok r) xs \<Longrightarrow> length xs \<le> writable r \<Longrightarrow> inv (put r xs)"
    and contents_put: "inv r \<Longrightarrow> list_all (cell_ok r) xs \<Longrightarrow> length xs \<le> writable r \<Longrightarrow> contents (put r xs) = contents r @ xs"
    and cap_put: "inv r \<Longrightarrow> list_all (cell_ok r) xs \<Longrightarrow> length xs \<le> writable r \<Longrightarrow> cap (put r xs) = cap r"
    and cell_ok_put: "inv r \<Longrightarrow> list_all (cell_ok r) xs \<Longrightarrow> length xs \<le> writable r \<Longrightarrow>
      cell_ok (put r xs) = cell_ok r"
    and contents_le: "inv r \<Longrightarrow> length (contents r) \<le> cap r"
begin

text \<open>Read up to \<open>n\<close> cells in as many rounds as it takes.\<close>

function read_loop :: "'r \<Rightarrow> nat \<Rightarrow> 'c list \<times> 'r" where
  "read_loop r n =
     (let k = min n (readable r)
      in if k = 0 then ([], r)
         else case read_loop (consume r k) (n - k) of (xs, r') \<Rightarrow> (peek r k @ xs, r'))"
  by pat_completeness auto
termination
  by (relation "measure snd") auto

text \<open>Write a list of cells in as many rounds as it takes, until the ring is full.\<close>

function write_loop :: "'r \<Rightarrow> 'c list \<Rightarrow> nat \<times> 'r" where
  "write_loop r xs =
     (let k = min (length xs) (writable r)
      in if k = 0 then (0, r)
         else case write_loop (put r (take k xs)) (drop k xs) of (m, r') \<Rightarrow> (k + m, r'))"
  by pat_completeness auto
termination
  by (relation "measure (length \<circ> snd)") auto

declare read_loop.simps [simp del] write_loop.simps [simp del]

text \<open>One round of either loop.\<close>

lemma read_round:
  "k = min n (readable r) \<Longrightarrow> read_loop r n = (if k = 0 then ([], r)
     else case read_loop (consume r k) (n - k) of (xs, r') \<Rightarrow> (peek r k @ xs, r'))"
  by (subst read_loop.simps) (simp only: Let_def)

lemma write_round:
  "k = min (length xs) (writable r) \<Longrightarrow> write_loop r xs = (if k = 0 then (0, r)
     else case write_loop (put r (take k xs)) (drop k xs) of (m, r') \<Rightarrow> (k + m, r'))"
  by (subst write_loop.simps) (simp only: Let_def)

lemma read_loop_spec:
  "inv r \<Longrightarrow> \<exists>r'. read_loop r n = (take n (contents r), r') \<and> inv r' \<and> cap r' = cap r
     \<and> contents r' = drop n (contents r)"
proof (induction r n rule: read_loop.induct)
  case (1 r n)
  let ?k = "min n (readable r)"
  show ?case
  proof (cases "?k = 0")
    case True
    then have "take n (contents r) = [] \<and> drop n (contents r) = contents r"
      using readable_0 [OF "1.prems"] by (auto simp: min_def split: if_splits)
    with True "1.prems" show ?thesis by (subst read_loop.simps) simp
  next
    case False
    have k: "?k \<le> readable r" by simp
    have "\<exists>r'. read_loop (consume r ?k) (n - ?k) = (take (n - ?k) (contents (consume r ?k)), r')
        \<and> inv r' \<and> cap r' = cap (consume r ?k) \<and> contents r' = drop (n - ?k) (contents (consume r ?k))"
      using "1.IH" [OF refl False] inv_consume [OF "1.prems" k] by blast
    then obtain r' where r': "read_loop (consume r ?k) (n - ?k) = (take (n - ?k) (drop ?k (contents r)), r')"
        "inv r'" "cap r' = cap r" "contents r' = drop (n - ?k) (drop ?k (contents r))"
      using "1.prems" k by (auto simp: contents_consume cap_consume)
    have t: "take ?k (contents r) @ take (n - ?k) (drop ?k (contents r)) = take n (contents r)"
      by (metis le_add_diff_inverse min.cobounded1 take_add)
    have d: "drop (n - ?k) (drop ?k (contents r)) = drop n (contents r)"
      by (metis drop_drop le_add_diff_inverse2 min.cobounded1)
    have "read_loop r n = (case read_loop (consume r ?k) (n - ?k) of (xs, r') \<Rightarrow> (peek r ?k @ xs, r'))"
      using False by (subst read_loop.simps) (simp only: Let_def if_False)
    also have "\<dots> = (take n (contents r), r')"
      unfolding r'(1) peek_take [OF "1.prems" k] by (simp add: t)
    finally show ?thesis using r'(2,3,4) d by auto
  qed
qed

lemma write_loop_spec:
  "inv r \<Longrightarrow> list_all (cell_ok r) xs \<Longrightarrow> \<exists>r'. write_loop r xs = (min (length xs) (cap r - length (contents r)), r') \<and> inv r'
     \<and> cap r' = cap r \<and> contents r' = contents r @ take (cap r - length (contents r)) xs"
proof (induction r xs rule: write_loop.induct)
  case (1 r xs)
  let ?k = "min (length xs) (writable r)" and ?free = "cap r - length (contents r)"
  show ?case
  proof (cases "?k = 0")
    case True
    then have "xs = [] \<or> ?free = 0"
      using writable_0 [OF "1.prems"(1)] by (auto simp: min_def split: if_splits)
    with True "1.prems" show ?thesis by (subst write_loop.simps) auto
  next
    case False
    let ?r = "put r (take ?k xs)"
    have k: "length (take ?k xs) \<le> writable r" by simp
    have ok: "list_all (cell_ok r) (take ?k xs)" "list_all (cell_ok r) (drop ?k xs)"
      using "1.prems"(2) by (auto simp: list_all_iff dest: in_set_takeD in_set_dropD)
    note put = inv_put [OF "1.prems"(1) ok(1) k] cap_put [OF "1.prems"(1) ok(1) k]
      contents_put [OF "1.prems"(1) ok(1) k] cell_ok_put [OF "1.prems"(1) ok(1) k]
    have kf: "?k \<le> ?free" using writable_le [OF "1.prems"(1)] by simp
    obtain r' where r': "write_loop ?r (drop ?k xs) = (min (length (drop ?k xs)) (cap ?r - length (contents ?r)), r')"
        "inv r'" "cap r' = cap ?r"
        "contents r' = contents ?r @ take (cap ?r - length (contents ?r)) (drop ?k xs)"
      using "1.IH" [OF refl False put(1)] ok(2) put(4) by auto
    have c: "cap ?r = cap r" "contents ?r = contents r @ take ?k xs"
      by (rule put)+
    have f: "cap ?r - length (contents ?r) = ?free - ?k" by (simp add: c)
    have t: "take ?k xs @ take (?free - ?k) (drop ?k xs) = take ?free xs"
      using kf by (metis le_add_diff_inverse take_add)
    have m: "?k + min (length xs - ?k) (?free - ?k) = min (length xs) ?free"
      using kf by (simp only: min_diff)
    have "write_loop r xs = (case write_loop ?r (drop ?k xs) of (m, r') \<Rightarrow> (?k + m, r'))"
      using False by (subst write_loop.simps) (simp only: Let_def if_False)
    also have "\<dots> = (min (length xs) ?free, r')"
      unfolding r'(1) f using m by simp
    finally have "write_loop r xs = (min (length xs) ?free, r')" .
    moreover have "contents r' = contents r @ take ?free xs"
      using r'(4) [unfolded f] by (simp only: c(2) append_assoc t)
    moreover have "cap r' = cap r" using r'(3) c(1) by simp
    ultimately show ?thesis using r'(2) by blast
  qed
qed

end

end
