(* ===== verification/MaRb.thy ===== *)
theory MaRb
  imports MaBase RingSpec
begin

text \<open>
  The lock-free byte ring buffer \<open>ma_rb\<close> of miniaudio.h. A 32-bit word holds each cursor:
  bit 31 is a flag that flips at every turn round the buffer, the low 31 bits are the
  offset in bytes. Reading and writing are two-phase (acquire a region, then commit how
  much of it was used). The definitions follow the C functions; the lemmas show that the
  ring is a bounded queue of bytes.
\<close>

section \<open>State and offsets\<close>

text \<open>\<open>pBuffer\<close> is the memory the C pointer points to; the empty list stands for a null
  pointer, since a buffer in use is never empty.\<close>

record ma_rb =
  pBuffer :: "u8 list"
  subbufferSizeInBytes :: u32
  subbufferCount :: u32
  subbufferStrideInBytes :: u32
  encodedReadOffset :: u32
  encodedWriteOffset :: u32
  ownsBuffer :: bool
  clearOnWriteAcquire :: bool
  allocationCallbacks :: "ma_allocation_callbacks"

definition ma_rb__extract_offset_in_bytes :: "u32 \<Rightarrow> u32" where
  "ma_rb__extract_offset_in_bytes encodedOffset = encodedOffset AND 0x7FFFFFFF"

definition ma_rb__extract_offset_loop_flag :: "u32 \<Rightarrow> u32" where
  "ma_rb__extract_offset_loop_flag encodedOffset = encodedOffset AND 0x80000000"

definition ma_rb__construct_offset :: "u32 \<Rightarrow> u32 \<Rightarrow> u32" where
  "ma_rb__construct_offset offsetInBytes offsetLoopFlag = offsetLoopFlag OR offsetInBytes"

definition ma_rb__deconstruct_offset :: "u32 \<Rightarrow> u32 \<times> u32" where
  "ma_rb__deconstruct_offset encodedOffset =
     (ma_rb__extract_offset_in_bytes encodedOffset, ma_rb__extract_offset_loop_flag encodedOffset)"

text \<open>A pointer into the buffer is its byte offset from \<open>pBuffer\<close>.\<close>

definition ma_rb__get_read_ptr :: "ma_rb \<Rightarrow> u32" where
  "ma_rb__get_read_ptr rb = ma_rb__extract_offset_in_bytes (encodedReadOffset rb)"

definition ma_rb__get_write_ptr :: "ma_rb \<Rightarrow> u32" where
  "ma_rb__get_write_ptr rb = ma_rb__extract_offset_in_bytes (encodedWriteOffset rb)"

section \<open>Initialisation\<close>

definition zero_callbacks :: ma_allocation_callbacks where
  "zero_callbacks = \<lparr>pUserData = NULL, onMalloc = NULL, onRealloc = NULL, onFree = NULL\<rparr>"

text \<open>\<open>MA_ZERO_OBJECT(pRB)\<close>.\<close>

definition zero_rb :: ma_rb where
  "zero_rb = \<lparr>pBuffer = [], subbufferSizeInBytes = 0, subbufferCount = 0,
     subbufferStrideInBytes = 0, encodedReadOffset = 0, encodedWriteOffset = 0,
     ownsBuffer = False, clearOnWriteAcquire = False, allocationCallbacks = zero_callbacks\<rparr>"

definition ma_rb_init_ex :: "libc \<Rightarrow> u64 \<Rightarrow> u64 \<Rightarrow> u64 \<Rightarrow> u8 list ptr
    \<Rightarrow> ma_allocation_callbacks ptr \<Rightarrow> ma_rb ptr \<Rightarrow> ma_result \<times> ma_rb ptr" where
  "ma_rb_init_ex sys subbufferSize count stride pre cb pRB =
     (let maxSubBufferSize = 0x7FFFFFFF - (MA_SIMD_ALIGNMENT - 1) :: u32
      in case pRB of
        None \<Rightarrow> (MA_INVALID_ARGS, NULL)
      | Some rb0 \<Rightarrow>
        if subbufferSize = 0 \<or> count = 0 then (MA_INVALID_ARGS, pRB)
        else if subbufferSize > ucast maxSubBufferSize then (MA_INVALID_ARGS, pRB)
        else case ma_allocation_callbacks_init_copy sys (Some (allocationCallbacks zero_rb)) cb of
          (result, acb) \<Rightarrow>
            let rb = zero_rb\<lparr>allocationCallbacks := the acb\<rparr>
            in if result \<noteq> MA_SUCCESS then (result, Some rb)
            else let rb = rb\<lparr>subbufferSizeInBytes := ucast subbufferSize, subbufferCount := ucast count\<rparr>
            in case pre of
                Some mem \<Rightarrow>
                  (MA_SUCCESS, Some (rb\<lparr>subbufferStrideInBytes := ucast stride, pBuffer := mem\<rparr>))
              | None \<Rightarrow>
                  let rb = rb\<lparr>subbufferStrideInBytes :=
                              ma_align (subbufferSizeInBytes rb) MA_SIMD_ALIGNMENT\<rparr>;
                      bufferSizeInBytes = ucast (subbufferCount rb) * ucast (subbufferStrideInBytes rb) :: u64
                  in case ma_aligned_malloc sys bufferSizeInBytes (ucast MA_SIMD_ALIGNMENT)
                            (Some (allocationCallbacks rb)) of
                       None \<Rightarrow> (MA_OUT_OF_MEMORY, Some rb)
                     | Some _ \<Rightarrow>
                         (MA_SUCCESS, Some (rb\<lparr>pBuffer := replicate (unat bufferSizeInBytes) 0,
                                              ownsBuffer := True\<rparr>)))"

definition ma_rb_init :: "libc \<Rightarrow> u64 \<Rightarrow> u8 list ptr \<Rightarrow> ma_allocation_callbacks ptr \<Rightarrow> ma_rb ptr
    \<Rightarrow> ma_result \<times> ma_rb ptr" where
  "ma_rb_init sys bufferSizeInBytes pre cb pRB = ma_rb_init_ex sys bufferSizeInBytes 1 0 pre cb pRB"

text \<open>Whether the buffer is handed back to the allocator.\<close>

definition ma_rb_uninit :: "ma_rb ptr \<Rightarrow> bool" where
  "ma_rb_uninit pRB = (case pRB of None \<Rightarrow> False | Some rb \<Rightarrow> ownsBuffer rb)"

definition ma_rb_reset :: "ma_rb ptr \<Rightarrow> ma_rb ptr" where
  "ma_rb_reset pRB = (case pRB of None \<Rightarrow> NULL
     | Some rb \<Rightarrow> Some (rb\<lparr>encodedReadOffset := 0, encodedWriteOffset := 0\<rparr>))"

section \<open>Reading and writing\<close>

text \<open>The size is an in-out argument and the data pointer an out argument: both are
  pointers the caller passes, and their new targets are returned.\<close>

definition ma_rb_acquire_read :: "ma_rb ptr \<Rightarrow> u64 ptr \<Rightarrow> u32 ptr ptr
    \<Rightarrow> ma_result \<times> u64 ptr \<times> u32 ptr ptr" where
  "ma_rb_acquire_read pRB pSizeInBytes ppBufferOut =
     (case (pRB, pSizeInBytes, ppBufferOut) of
        (Some rb, Some sizeInBytes, Some _) \<Rightarrow>
          let (writeOffsetInBytes, writeOffsetLoopFlag) = ma_rb__deconstruct_offset (encodedWriteOffset rb);
              (readOffsetInBytes, readOffsetLoopFlag) = ma_rb__deconstruct_offset (encodedReadOffset rb);
              bytesAvailable =
                (if readOffsetLoopFlag = writeOffsetLoopFlag
                 then ucast (writeOffsetInBytes - readOffsetInBytes)
                 else ucast (subbufferSizeInBytes rb - readOffsetInBytes)) :: u64;
              bytesRequested = (if sizeInBytes > bytesAvailable then bytesAvailable else sizeInBytes)
          in (MA_SUCCESS, Some bytesRequested, Some (Some (ma_rb__get_read_ptr rb)))
      | _ \<Rightarrow> (MA_INVALID_ARGS, pSizeInBytes, ppBufferOut))"

definition ma_rb_commit_read :: "ma_rb ptr \<Rightarrow> u64 \<Rightarrow> ma_result \<times> ma_rb ptr" where
  "ma_rb_commit_read pRB sizeInBytes =
     (case pRB of
        None \<Rightarrow> (MA_INVALID_ARGS, NULL)
      | Some rb \<Rightarrow>
          let (readOffsetInBytes, readOffsetLoopFlag) = ma_rb__deconstruct_offset (encodedReadOffset rb);
              newReadOffsetInBytes = ucast (ucast readOffsetInBytes + sizeInBytes) :: u32
          in if newReadOffsetInBytes > subbufferSizeInBytes rb then (MA_INVALID_ARGS, pRB)
             else let (newOff, newFlag) =
                        (if newReadOffsetInBytes = subbufferSizeInBytes rb
                         then (0, readOffsetLoopFlag XOR 0x80000000)
                         else (newReadOffsetInBytes, readOffsetLoopFlag))
                  in (MA_SUCCESS, Some (rb\<lparr>encodedReadOffset := ma_rb__construct_offset newOff newFlag\<rparr>)))"

definition ma_rb_acquire_write :: "ma_rb ptr \<Rightarrow> u64 ptr \<Rightarrow> u32 ptr ptr
    \<Rightarrow> ma_result \<times> u64 ptr \<times> u32 ptr ptr \<times> ma_rb ptr" where
  "ma_rb_acquire_write pRB pSizeInBytes ppBufferOut =
     (case (pRB, pSizeInBytes, ppBufferOut) of
        (Some rb, Some sizeInBytes, Some _) \<Rightarrow>
          let (readOffsetInBytes, readOffsetLoopFlag) = ma_rb__deconstruct_offset (encodedReadOffset rb);
              (writeOffsetInBytes, writeOffsetLoopFlag) = ma_rb__deconstruct_offset (encodedWriteOffset rb);
              bytesAvailable =
                (if writeOffsetLoopFlag = readOffsetLoopFlag
                 then ucast (subbufferSizeInBytes rb - writeOffsetInBytes)
                 else ucast (readOffsetInBytes - writeOffsetInBytes)) :: u64;
              bytesRequested = (if sizeInBytes > bytesAvailable then bytesAvailable else sizeInBytes);
              ptr = ma_rb__get_write_ptr rb;
              rb' = (if clearOnWriteAcquire rb
                     then rb\<lparr>pBuffer := mem_write (pBuffer rb) (unat ptr) (replicate (unat bytesRequested) 0)\<rparr>
                     else rb)
          in (MA_SUCCESS, Some bytesRequested, Some (Some ptr), Some rb')
      | _ \<Rightarrow> (MA_INVALID_ARGS, pSizeInBytes, ppBufferOut, pRB))"

definition ma_rb_commit_write :: "ma_rb ptr \<Rightarrow> u64 \<Rightarrow> ma_result \<times> ma_rb ptr" where
  "ma_rb_commit_write pRB sizeInBytes =
     (case pRB of
        None \<Rightarrow> (MA_INVALID_ARGS, NULL)
      | Some rb \<Rightarrow>
          let (writeOffsetInBytes, writeOffsetLoopFlag) = ma_rb__deconstruct_offset (encodedWriteOffset rb);
              newWriteOffsetInBytes = ucast (ucast writeOffsetInBytes + sizeInBytes) :: u32
          in if newWriteOffsetInBytes > subbufferSizeInBytes rb then (MA_INVALID_ARGS, pRB)
             else let (newOff, newFlag) =
                        (if newWriteOffsetInBytes = subbufferSizeInBytes rb
                         then (0, writeOffsetLoopFlag XOR 0x80000000)
                         else (newWriteOffsetInBytes, writeOffsetLoopFlag))
                  in (MA_SUCCESS, Some (rb\<lparr>encodedWriteOffset := ma_rb__construct_offset newOff newFlag\<rparr>)))"

section \<open>Seeking and measuring\<close>

definition ma_rb_seek_read :: "ma_rb ptr \<Rightarrow> u64 \<Rightarrow> ma_result \<times> ma_rb ptr" where
  "ma_rb_seek_read pRB offsetInBytes =
     (case pRB of
        None \<Rightarrow> (MA_INVALID_ARGS, NULL)
      | Some rb \<Rightarrow>
        if offsetInBytes > ucast (subbufferSizeInBytes rb) then (MA_INVALID_ARGS, pRB)
        else let (readOffsetInBytes, readOffsetLoopFlag) = ma_rb__deconstruct_offset (encodedReadOffset rb);
                 (writeOffsetInBytes, writeOffsetLoopFlag) = ma_rb__deconstruct_offset (encodedWriteOffset rb);
                 sum = ucast readOffsetInBytes + offsetInBytes :: u64;
                 (newOff, newFlag) =
                   (if readOffsetLoopFlag = writeOffsetLoopFlag
                    then (if sum > ucast writeOffsetInBytes then (writeOffsetInBytes, readOffsetLoopFlag)
                          else (ucast sum, readOffsetLoopFlag))
                    else (if sum \<ge> ucast (subbufferSizeInBytes rb)
                          then (ucast sum - subbufferSizeInBytes rb, readOffsetLoopFlag XOR 0x80000000)
                          else (ucast sum, readOffsetLoopFlag)))
             in (MA_SUCCESS, Some (rb\<lparr>encodedReadOffset := ma_rb__construct_offset newOff newFlag\<rparr>)))"

definition ma_rb_seek_write :: "ma_rb ptr \<Rightarrow> u64 \<Rightarrow> ma_result \<times> ma_rb ptr" where
  "ma_rb_seek_write pRB offsetInBytes =
     (case pRB of
        None \<Rightarrow> (MA_INVALID_ARGS, NULL)
      | Some rb \<Rightarrow>
             let (readOffsetInBytes, readOffsetLoopFlag) = ma_rb__deconstruct_offset (encodedReadOffset rb);
                 (writeOffsetInBytes, writeOffsetLoopFlag) = ma_rb__deconstruct_offset (encodedWriteOffset rb);
                 sum = ucast writeOffsetInBytes + offsetInBytes :: u64;
                 (newOff, newFlag) =
                   (if readOffsetLoopFlag = writeOffsetLoopFlag
                    then (if sum \<ge> ucast (subbufferSizeInBytes rb)
                          then (ucast sum - subbufferSizeInBytes rb, writeOffsetLoopFlag XOR 0x80000000)
                          else (ucast sum, writeOffsetLoopFlag))
                    else (if sum > ucast readOffsetInBytes then (readOffsetInBytes, writeOffsetLoopFlag)
                          else (ucast sum, writeOffsetLoopFlag)))
             in (MA_SUCCESS, Some (rb\<lparr>encodedWriteOffset := ma_rb__construct_offset newOff newFlag\<rparr>)))"

text \<open>The result is an \<open>ma_int32\<close>, read with \<open>sint\<close>.\<close>

definition ma_rb_pointer_distance :: "ma_rb ptr \<Rightarrow> u32" where
  "ma_rb_pointer_distance pRB =
     (case pRB of
        None \<Rightarrow> 0
      | Some rb \<Rightarrow>
          let (readOffsetInBytes, readOffsetLoopFlag) = ma_rb__deconstruct_offset (encodedReadOffset rb);
              (writeOffsetInBytes, writeOffsetLoopFlag) = ma_rb__deconstruct_offset (encodedWriteOffset rb)
          in if readOffsetLoopFlag = writeOffsetLoopFlag then writeOffsetInBytes - readOffsetInBytes
             else writeOffsetInBytes + (subbufferSizeInBytes rb - readOffsetInBytes))"

definition ma_rb_available_read :: "ma_rb ptr \<Rightarrow> u32" where
  "ma_rb_available_read pRB =
     (case pRB of
        None \<Rightarrow> 0
      | Some _ \<Rightarrow> let dist = ma_rb_pointer_distance pRB in if sint dist < 0 then 0 else dist)"

definition ma_rb_get_subbuffer_size :: "ma_rb ptr \<Rightarrow> u64" where
  "ma_rb_get_subbuffer_size pRB = (case pRB of None \<Rightarrow> 0 | Some rb \<Rightarrow> ucast (subbufferSizeInBytes rb))"

definition ma_rb_available_write :: "ma_rb ptr \<Rightarrow> u32" where
  "ma_rb_available_write pRB =
     (case pRB of
        None \<Rightarrow> 0
      | Some _ \<Rightarrow> ucast (ma_rb_get_subbuffer_size pRB - scast (ma_rb_pointer_distance pRB) :: u64))"

definition ma_rb_get_subbuffer_stride :: "ma_rb ptr \<Rightarrow> u64" where
  "ma_rb_get_subbuffer_stride pRB =
     (case pRB of
        None \<Rightarrow> 0
      | Some rb \<Rightarrow> if subbufferStrideInBytes rb = 0 then ucast (subbufferSizeInBytes rb)
                   else ucast (subbufferStrideInBytes rb))"

definition ma_rb_get_subbuffer_offset :: "ma_rb ptr \<Rightarrow> u64 \<Rightarrow> u64" where
  "ma_rb_get_subbuffer_offset pRB subbufferIndex =
     (case pRB of None \<Rightarrow> 0 | Some _ \<Rightarrow> subbufferIndex * ma_rb_get_subbuffer_stride pRB)"

text \<open>The pointer \<open>pBuffer\<close> is an address here.\<close>

definition ma_rb_get_subbuffer_ptr :: "ma_rb ptr \<Rightarrow> u64 \<Rightarrow> u64 \<Rightarrow> u64 ptr" where
  "ma_rb_get_subbuffer_ptr pRB subbufferIndex buf =
     (case pRB of None \<Rightarrow> NULL | Some _ \<Rightarrow> Some (buf + ma_rb_get_subbuffer_offset pRB subbufferIndex))"

section \<open>The ring as a bounded queue of bytes\<close>

text \<open>The two offsets, the capacity and whether both cursors are on the same turn.\<close>

definition rb_rd :: "ma_rb \<Rightarrow> nat" where
  "rb_rd rb = unat (ma_rb__get_read_ptr rb)"

definition rb_wr :: "ma_rb \<Rightarrow> nat" where
  "rb_wr rb = unat (ma_rb__get_write_ptr rb)"

definition rb_cap :: "ma_rb \<Rightarrow> nat" where
  "rb_cap rb = unat (subbufferSizeInBytes rb)"

definition rb_same :: "ma_rb \<Rightarrow> bool" where
  "rb_same rb \<longleftrightarrow> ma_rb__extract_offset_loop_flag (encodedReadOffset rb)
                 = ma_rb__extract_offset_loop_flag (encodedWriteOffset rb)"

text \<open>The well-formedness invariant: offsets inside the buffer, the buffer as large as the
  capacity, the writer ahead of the reader by at most one turn.\<close>

definition rb_wf :: "ma_rb \<Rightarrow> bool" where
  "rb_wf rb \<longleftrightarrow> 0 < rb_cap rb \<and> rb_cap rb \<le> 0x7FFFFFE0 \<and> rb_cap rb \<le> length (pBuffer rb)
     \<and> rb_rd rb < rb_cap rb \<and> rb_wr rb < rb_cap rb
     \<and> (if rb_same rb then rb_rd rb \<le> rb_wr rb else rb_wr rb \<le> rb_rd rb)"

text \<open>The bytes written and not yet read, oldest first.\<close>

definition rb_contents :: "ma_rb \<Rightarrow> u8 list" where
  "rb_contents rb =
     (if rb_same rb then mem_read (pBuffer rb) (rb_rd rb) (rb_wr rb - rb_rd rb)
      else mem_read (pBuffer rb) (rb_rd rb) (rb_cap rb - rb_rd rb) @ mem_read (pBuffer rb) 0 (rb_wr rb))"

text \<open>How much one acquire can grant: the region up to the other cursor or the end.\<close>

definition rb_readable :: "ma_rb \<Rightarrow> nat" where
  "rb_readable rb = (if rb_same rb then rb_wr rb - rb_rd rb else rb_cap rb - rb_rd rb)"

definition rb_writable :: "ma_rb \<Rightarrow> nat" where
  "rb_writable rb = (if rb_same rb then rb_cap rb - rb_wr rb else rb_rd rb - rb_wr rb)"

lemmas rb_view_defs = rb_rd_def rb_wr_def rb_cap_def rb_same_def rb_wf_def rb_contents_def
  rb_readable_def rb_writable_def

lemma length_rb_contents:
  "rb_wf rb \<Longrightarrow> length (rb_contents rb) =
     (if rb_same rb then rb_wr rb - rb_rd rb else rb_cap rb - rb_rd rb + rb_wr rb)"
  by (simp add: rb_wf_def rb_contents_def length_mem_read)

lemma length_rb_contents_le: "rb_wf rb \<Longrightarrow> length (rb_contents rb) \<le> rb_cap rb"
  by (auto simp: length_rb_contents rb_wf_def split: if_splits)

lemma rb_readable_le: "rb_wf rb \<Longrightarrow> rb_readable rb \<le> length (rb_contents rb)"
  by (simp add: length_rb_contents rb_readable_def)

lemma rb_readable_pos: "rb_wf rb \<Longrightarrow> rb_readable rb = 0 \<longleftrightarrow> rb_contents rb = []"
  using length_rb_contents [of rb]
  by (auto simp: rb_readable_def rb_wf_def split: if_splits)

lemma rb_writable_le: "rb_wf rb \<Longrightarrow> rb_writable rb \<le> rb_cap rb - length (rb_contents rb)"
  by (auto simp: length_rb_contents rb_writable_def rb_wf_def split: if_splits)

lemma rb_writable_pos: "rb_wf rb \<Longrightarrow> rb_writable rb = 0 \<longleftrightarrow> length (rb_contents rb) = rb_cap rb"
  by (auto simp: length_rb_contents rb_writable_def rb_wf_def split: if_splits)

lemma rb_region_bounds:
  assumes "rb_wf rb"
  shows "rb_rd rb + rb_readable rb \<le> rb_cap rb" "rb_wr rb + rb_writable rb \<le> rb_cap rb"
    "rb_cap rb \<le> length (pBuffer rb)"
  using assms by (auto simp: rb_wf_def rb_readable_def rb_writable_def)

text \<open>The region an acquire for reading grants holds the oldest bytes.\<close>

lemma rb_read_region:
  "rb_wf rb \<Longrightarrow> k \<le> rb_readable rb \<Longrightarrow> mem_read (pBuffer rb) (rb_rd rb) k = take k (rb_contents rb)"
  by (auto simp: rb_contents_def rb_readable_def rb_wf_def take_mem_read length_mem_read min_def
    split: if_splits)

subsection \<open>Moving a cursor\<close>

text \<open>What both commits do to their own cursor.\<close>

definition ring_advance :: "u32 \<Rightarrow> u32 \<Rightarrow> nat \<Rightarrow> u32" where
  "ring_advance sz enc k =
     (if unat (ma_rb__extract_offset_in_bytes enc) + k = unat sz
      then ma_rb__construct_offset 0 (ma_rb__extract_offset_loop_flag enc XOR 0x80000000)
      else ma_rb__construct_offset (ma_rb__extract_offset_in_bytes enc + of_nat k)
             (ma_rb__extract_offset_loop_flag enc))"

lemmas offset_defs = ma_rb__extract_offset_in_bytes_def ma_rb__extract_offset_loop_flag_def
  ma_rb__construct_offset_def ma_rb__deconstruct_offset_def ma_rb__get_read_ptr_def
  ma_rb__get_write_ptr_def

lemma offset_less: "unat (ma_rb__extract_offset_in_bytes x) < 2 ^ 31"
  unfolding offset_defs by (rule unat_and_low31_less)

lemma ring_advance_offset:
  assumes "unat (ma_rb__extract_offset_in_bytes enc) + k \<le> unat sz" "unat sz < 2 ^ 31"
  shows "unat (ma_rb__extract_offset_in_bytes (ring_advance sz enc k)) =
    (if unat (ma_rb__extract_offset_in_bytes enc) + k = unat sz then 0
     else unat (ma_rb__extract_offset_in_bytes enc) + k)"
proof -
  have "unat (of_nat k :: u32) = k" using assms by (simp add: unat_of_nat)
  then have "unat (ma_rb__extract_offset_in_bytes enc + of_nat k) = unat (ma_rb__extract_offset_in_bytes enc) + k"
    using assms by (subst unat_add_lt) auto
  then show ?thesis
    using assms and_bit31_cases [of enc] and_bit31_toggle [of enc]
    by (auto simp: ring_advance_def offset_defs or_and_low31)
qed

lemma ring_advance_flag:
  assumes "unat (ma_rb__extract_offset_in_bytes enc) + k \<le> unat sz" "unat sz < 2 ^ 31"
  shows "ma_rb__extract_offset_loop_flag (ring_advance sz enc k) =
    (if unat (ma_rb__extract_offset_in_bytes enc) + k = unat sz
     then ma_rb__extract_offset_loop_flag enc XOR 0x80000000
     else ma_rb__extract_offset_loop_flag enc)"
proof -
  have "unat (of_nat k :: u32) = k" using assms by (simp add: unat_of_nat)
  then have "unat (ma_rb__extract_offset_in_bytes enc + of_nat k) = unat (ma_rb__extract_offset_in_bytes enc) + k"
    using assms by (subst unat_add_lt) auto
  then show ?thesis
    using assms and_bit31_cases [of enc] and_bit31_toggle [of enc]
    by (auto simp: ring_advance_def offset_defs or_and_bit31)
qed

definition rb_advance_read :: "ma_rb \<Rightarrow> nat \<Rightarrow> ma_rb" where
  "rb_advance_read rb k = rb\<lparr>encodedReadOffset := ring_advance (subbufferSizeInBytes rb) (encodedReadOffset rb) k\<rparr>"

definition rb_advance_write :: "ma_rb \<Rightarrow> nat \<Rightarrow> ma_rb" where
  "rb_advance_write rb k = rb\<lparr>encodedWriteOffset := ring_advance (subbufferSizeInBytes rb) (encodedWriteOffset rb) k\<rparr>"

text \<open>The 64-bit sum truncated to 32 bits that the commits compute is exact inside the buffer.\<close>

lemma truncated_sum:
  fixes off :: u32 and n :: u64 and sz :: u32
  assumes "unat off + unat n \<le> unat sz"
  shows "(ucast (ucast off + n) :: u32) = off + of_nat (unat n)"
    and "unat (ucast (ucast off + n) :: u32) = unat off + unat n"
proof -
  have lt: "unat off + unat n < 2 ^ 32"
    by (rule le_less_trans [OF assms]) simp
  have "unat (ucast off + n :: u64) = unat off + unat n"
    using lt by (subst unat_add_lt) auto
  then show u: "unat (ucast (ucast off + n) :: u32) = unat off + unat n"
    using lt by (simp add: unat_ucast_u64_u32)
  have n32: "unat (of_nat (unat n) :: u32) = unat n" using lt by (simp add: unat_ucast_u64_u32)
  then have "unat (off + of_nat (unat n)) = unat off + unat n"
    using lt by (subst unat_add_lt) auto
  with u show "(ucast (ucast off + n) :: u32) = off + of_nat (unat n)"
    by (metis word_unat_eq_iff)
qed

lemma ma_rb_commit_read_ok:
  assumes "rb_rd rb + unat n \<le> rb_cap rb"
  shows "ma_rb_commit_read (Some rb) n = (MA_SUCCESS, Some (rb_advance_read rb (unat n)))"
proof -
  let ?off = "ma_rb__extract_offset_in_bytes (encodedReadOffset rb)"
  have le: "unat ?off + unat n \<le> unat (subbufferSizeInBytes rb)"
    using assms by (simp add: rb_view_defs offset_defs)
  note sum = truncated_sum [OF le]
  have "\<not> subbufferSizeInBytes rb < (ucast (ucast ?off + n) :: u32)"
    using le sum(2) by (simp add: word_less_nat_alt)
  moreover have "(ucast (ucast ?off + n) :: u32) = subbufferSizeInBytes rb
      \<longleftrightarrow> unat ?off + unat n = unat (subbufferSizeInBytes rb)"
    using sum(2) by (metis word_unat_eq_iff)
  ultimately show ?thesis
    by (auto simp: ma_rb_commit_read_def ma_rb__deconstruct_offset_def rb_advance_read_def
      ring_advance_def Let_def sum(1))
qed

lemma ma_rb_commit_write_ok:
  assumes "rb_wr rb + unat n \<le> rb_cap rb"
  shows "ma_rb_commit_write (Some rb) n = (MA_SUCCESS, Some (rb_advance_write rb (unat n)))"
proof -
  let ?off = "ma_rb__extract_offset_in_bytes (encodedWriteOffset rb)"
  have le: "unat ?off + unat n \<le> unat (subbufferSizeInBytes rb)"
    using assms by (simp add: rb_view_defs offset_defs)
  note sum = truncated_sum [OF le]
  have "\<not> subbufferSizeInBytes rb < (ucast (ucast ?off + n) :: u32)"
    using le sum(2) by (simp add: word_less_nat_alt)
  moreover have "(ucast (ucast ?off + n) :: u32) = subbufferSizeInBytes rb
      \<longleftrightarrow> unat ?off + unat n = unat (subbufferSizeInBytes rb)"
    using sum(2) by (metis word_unat_eq_iff)
  ultimately show ?thesis
    by (auto simp: ma_rb_commit_write_def ma_rb__deconstruct_offset_def rb_advance_write_def
      ring_advance_def Let_def sum(1))
qed

text \<open>The views of an advanced ring.\<close>

lemma rb_advance_read_view:
  assumes "rb_wf rb" "rb_rd rb + k \<le> rb_cap rb"
  shows "rb_rd (rb_advance_read rb k) = (if rb_rd rb + k = rb_cap rb then 0 else rb_rd rb + k)"
    and "rb_wr (rb_advance_read rb k) = rb_wr rb"
    and "rb_cap (rb_advance_read rb k) = rb_cap rb"
    and "rb_same (rb_advance_read rb k) = (if rb_rd rb + k = rb_cap rb then \<not> rb_same rb else rb_same rb)"
    and "pBuffer (rb_advance_read rb k) = pBuffer rb"
proof -
  let ?e = "encodedReadOffset rb"
  have le: "unat (ma_rb__extract_offset_in_bytes ?e) + k \<le> unat (subbufferSizeInBytes rb)"
    using assms(2) by (simp add: rb_view_defs ma_rb__get_read_ptr_def)
  have sz: "unat (subbufferSizeInBytes rb) < 2 ^ 31"
    using assms(1) by (simp add: rb_wf_def rb_cap_def)
  note adv = ring_advance_offset [OF le sz] ring_advance_flag [OF le sz]
  show "rb_rd (rb_advance_read rb k) = (if rb_rd rb + k = rb_cap rb then 0 else rb_rd rb + k)"
    using adv(1) by (simp add: rb_rd_def rb_cap_def rb_advance_read_def ma_rb__get_read_ptr_def)
  show "rb_same (rb_advance_read rb k) = (if rb_rd rb + k = rb_cap rb then \<not> rb_same rb else rb_same rb)"
    using adv(2)
    by (auto simp: rb_same_def rb_rd_def rb_cap_def rb_advance_read_def ma_rb__get_read_ptr_def
      ma_rb__extract_offset_loop_flag_def toggle_eq_iff)
qed (simp_all add: rb_wr_def rb_cap_def rb_advance_read_def ma_rb__get_write_ptr_def)

lemma rb_advance_write_view:
  assumes "rb_wf rb" "rb_wr rb + k \<le> rb_cap rb"
  shows "rb_wr (rb_advance_write rb k) = (if rb_wr rb + k = rb_cap rb then 0 else rb_wr rb + k)"
    and "rb_rd (rb_advance_write rb k) = rb_rd rb"
    and "rb_cap (rb_advance_write rb k) = rb_cap rb"
    and "rb_same (rb_advance_write rb k) = (if rb_wr rb + k = rb_cap rb then \<not> rb_same rb else rb_same rb)"
    and "pBuffer (rb_advance_write rb k) = pBuffer rb"
proof -
  let ?e = "encodedWriteOffset rb"
  have le: "unat (ma_rb__extract_offset_in_bytes ?e) + k \<le> unat (subbufferSizeInBytes rb)"
    using assms(2) by (simp add: rb_view_defs ma_rb__get_write_ptr_def)
  have sz: "unat (subbufferSizeInBytes rb) < 2 ^ 31"
    using assms(1) by (simp add: rb_wf_def rb_cap_def)
  note adv = ring_advance_offset [OF le sz] ring_advance_flag [OF le sz]
  show "rb_wr (rb_advance_write rb k) = (if rb_wr rb + k = rb_cap rb then 0 else rb_wr rb + k)"
    using adv(1) by (simp add: rb_wr_def rb_cap_def rb_advance_write_def ma_rb__get_write_ptr_def)
  show "rb_same (rb_advance_write rb k) = (if rb_wr rb + k = rb_cap rb then \<not> rb_same rb else rb_same rb)"
    using adv(2)
    by (auto simp: rb_same_def rb_wr_def rb_cap_def rb_advance_write_def ma_rb__get_write_ptr_def
      ma_rb__extract_offset_loop_flag_def eq_toggle_iff)
qed (simp_all add: rb_rd_def rb_cap_def rb_advance_write_def ma_rb__get_read_ptr_def)

text \<open>Consuming from the front and appending at the back.\<close>

lemma rb_advance_read_contents:
  assumes wf: "rb_wf rb" and k: "k \<le> rb_readable rb"
  shows "rb_wf (rb_advance_read rb k)"
    and "rb_contents (rb_advance_read rb k) = drop k (rb_contents rb)"
proof -
  have le: "rb_rd rb + k \<le> rb_cap rb" using rb_region_bounds(1) [OF wf] k by simp
  note v = rb_advance_read_view [OF wf le]
  show "rb_wf (rb_advance_read rb k)"
    using wf k unfolding rb_wf_def v by (auto simp: rb_readable_def split: if_splits)
  show "rb_contents (rb_advance_read rb k) = drop k (rb_contents rb)"
    using wf k unfolding rb_contents_def v
    by (auto simp: rb_wf_def rb_readable_def drop_mem_read length_mem_read split: if_splits)
qed

lemma rb_put_contents:
  assumes wf: "rb_wf rb" and k: "length xs \<le> rb_writable rb"
  defines "rb' \<equiv> rb_advance_write (rb\<lparr>pBuffer := mem_write (pBuffer rb) (rb_wr rb) xs\<rparr>) (length xs)"
  shows "rb_wf rb'" and "rb_contents rb' = rb_contents rb @ xs"
proof -
  let ?r = "rb\<lparr>pBuffer := mem_write (pBuffer rb) (rb_wr rb) xs\<rparr>"
  have le: "rb_wr rb + length xs \<le> rb_cap rb" using rb_region_bounds(2) [OF wf] k by simp
  have len: "length (mem_write (pBuffer rb) (rb_wr rb) xs) = length (pBuffer rb)"
    using wf le by (intro length_mem_write) (simp add: rb_wf_def)
  have views: "rb_wr ?r = rb_wr rb" "rb_rd ?r = rb_rd rb" "rb_cap ?r = rb_cap rb" "rb_same ?r = rb_same rb"
    by (simp_all add: rb_view_defs offset_defs)
  have wfr: "rb_wf ?r" using wf by (simp add: rb_wf_def views len)
  have ler: "rb_wr ?r + length xs \<le> rb_cap ?r" using le by (simp add: views)
  note v = rb_advance_write_view [OF wfr ler, unfolded views]
  show "rb_wf rb'"
    using wf k unfolding rb'_def rb_wf_def v
    by (auto simp: rb_writable_def len split: if_splits)
  show "rb_contents rb' = rb_contents rb @ xs"
    using wf k le mem_read_append [of "mem_write (pBuffer rb) (rb_wr rb) xs" "rb_rd rb" "rb_wr rb - rb_rd rb" "length xs"]
      mem_read_append [of "mem_write (pBuffer rb) (rb_wr rb) xs" 0 "rb_wr rb" "length xs"]
    unfolding rb'_def rb_contents_def v
    by (auto simp: rb_wf_def rb_writable_def mem_simps split: if_splits)
qed

definition rb_peek :: "ma_rb \<Rightarrow> nat \<Rightarrow> u8 list" where
  "rb_peek rb k = mem_read (pBuffer rb) (rb_rd rb) k"

definition rb_put :: "ma_rb \<Rightarrow> u8 list \<Rightarrow> ma_rb" where
  "rb_put rb xs = rb_advance_write (rb\<lparr>pBuffer := mem_write (pBuffer rb) (rb_wr rb) xs\<rparr>) (length xs)"

lemma rb_cap_simps [simp]:
  "rb_cap (rb_advance_read rb k) = rb_cap rb" "rb_cap (rb_advance_write rb k) = rb_cap rb"
  "rb_cap (rb_put rb xs) = rb_cap rb" "rb_cap (rb\<lparr>pBuffer := m\<rparr>) = rb_cap rb"
  by (simp_all add: rb_cap_def rb_advance_read_def rb_advance_write_def rb_put_def)

interpretation byte_ring: ring_fifo rb_wf rb_cap rb_contents rb_readable rb_writable rb_peek
  rb_advance_read rb_put "\<lambda>_ _. True"
  by unfold_locales
    (simp_all add: rb_readable_le rb_readable_pos rb_peek_def rb_read_region
      rb_advance_read_contents rb_writable_le rb_writable_pos rb_put_def rb_put_contents
      length_rb_contents_le)

subsection \<open>The acquire, measure and seek functions\<close>

lemma word_min_of_nat: "(if a < n then a else n) = of_nat (min (unat n) (unat a))"
  for a n :: "'a::len word"
  by (simp add: min_def word_less_nat_alt)

lemma ma_rb_acquire_read_ok:
  assumes "rb_wf rb"
  shows "ma_rb_acquire_read (Some rb) (Some n) (Some p) =
    (MA_SUCCESS, Some (of_nat (min (unat n) (rb_readable rb))), Some (Some (ma_rb__get_read_ptr rb)))"
proof -
  have "unat (ucast (ma_rb__get_write_ptr rb - ma_rb__get_read_ptr rb) :: u64) = rb_readable rb"
    if "rb_same rb" using that assms
    by (simp add: rb_readable_def rb_wf_def rb_rd_def rb_wr_def unat_diff_le word_le_nat_alt)
  moreover have "unat (ucast (subbufferSizeInBytes rb - ma_rb__get_read_ptr rb) :: u64) = rb_readable rb"
    if "\<not> rb_same rb" using that assms
    by (simp add: rb_readable_def rb_wf_def rb_rd_def rb_cap_def unat_diff_le word_le_nat_alt)
  ultimately show ?thesis
    by (auto simp: ma_rb_acquire_read_def ma_rb__deconstruct_offset_def Let_def word_min_of_nat
      rb_same_def ma_rb__get_read_ptr_def ma_rb__get_write_ptr_def)
qed

lemma ma_rb_acquire_write_ok:
  assumes "rb_wf rb" "\<not> clearOnWriteAcquire rb"
  shows "ma_rb_acquire_write (Some rb) (Some n) (Some p) =
    (MA_SUCCESS, Some (of_nat (min (unat n) (rb_writable rb))), Some (Some (ma_rb__get_write_ptr rb)), Some rb)"
proof -
  have "unat (ucast (subbufferSizeInBytes rb - ma_rb__get_write_ptr rb) :: u64) = rb_writable rb"
    if "rb_same rb" using that assms
    by (simp add: rb_writable_def rb_wf_def rb_wr_def rb_cap_def unat_diff_le word_le_nat_alt)
  moreover have "unat (ucast (ma_rb__get_read_ptr rb - ma_rb__get_write_ptr rb) :: u64) = rb_writable rb"
    if "\<not> rb_same rb" using that assms
    by (simp add: rb_writable_def rb_wf_def rb_rd_def rb_wr_def unat_diff_le word_le_nat_alt)
  ultimately show ?thesis
    using assms(2)
    by (auto simp: ma_rb_acquire_write_def ma_rb__deconstruct_offset_def Let_def word_min_of_nat
      rb_same_def ma_rb__get_read_ptr_def ma_rb__get_write_ptr_def)
qed

lemma unat_pointer_distance:
  assumes "rb_wf rb"
  shows "unat (ma_rb_pointer_distance (Some rb)) = length (rb_contents rb)"
proof (cases "rb_same rb")
  case True
  with assms show ?thesis
    by (simp add: length_rb_contents ma_rb_pointer_distance_def ma_rb__deconstruct_offset_def rb_wf_def
      rb_same_def rb_rd_def rb_wr_def unat_diff_le word_le_nat_alt ma_rb__get_read_ptr_def
      ma_rb__get_write_ptr_def)
next
  case False
  have d: "unat (subbufferSizeInBytes rb - ma_rb__get_read_ptr rb) = rb_cap rb - rb_rd rb"
    using assms by (simp add: rb_wf_def rb_rd_def rb_cap_def unat_diff_le word_le_nat_alt)
  have "unat (ma_rb__get_write_ptr rb + (subbufferSizeInBytes rb - ma_rb__get_read_ptr rb))
      = rb_wr rb + (rb_cap rb - rb_rd rb)"
    using assms d by (subst unat_add_lt) (auto simp: rb_wf_def rb_wr_def [symmetric])
  with False assms show ?thesis
    by (simp add: length_rb_contents ma_rb_pointer_distance_def ma_rb__deconstruct_offset_def
      rb_same_def ma_rb__get_read_ptr_def ma_rb__get_write_ptr_def)
qed

lemma sint_nonneg_lt:
  fixes x :: u32
  assumes "unat x < 2 ^ 31"
  shows "sint x = int (unat x)"
proof -
  have "sint x = signed_take_bit 31 (uint x)" by (simp add: sint_uint)
  also have "\<dots> = signed_take_bit 31 (int (unat x))" by (simp only: uint_nat)
  also have "\<dots> = int (unat x)"
  proof (rule signed_take_bit_int_eq_self)
    show "- (2 ^ 31) \<le> int (unat x)" by (rule order_trans [of _ 0]) simp_all
    have "int (unat x) < int (2 ^ 31)" using assms by (simp only: of_nat_less_iff)
    then show "int (unat x) < 2 ^ 31" by simp
  qed
  finally show ?thesis .
qed

lemma unat_scast_nonneg:
  fixes x :: u32
  assumes "unat x < 2 ^ 31"
  shows "unat (scast x :: u64) = unat x"
proof -
  have "(scast x :: u64) = of_nat (unat x)"
    by (simp only: scast_eq sint_nonneg_lt [OF assms]) simp
  then show ?thesis using assms by simp
qed

lemma unat_available_read:
  assumes "rb_wf rb"
  shows "unat (ma_rb_available_read (Some rb)) = length (rb_contents rb)"
proof -
  have "length (rb_contents rb) < 2 ^ 31"
    using length_rb_contents_le [OF assms] assms by (simp add: rb_wf_def)
  then show ?thesis
    using unat_pointer_distance [OF assms]
    by (simp add: ma_rb_available_read_def Let_def sint_nonneg_lt)
qed

lemma unat_available_write:
  assumes "rb_wf rb"
  shows "unat (ma_rb_available_write (Some rb)) = rb_cap rb - length (rb_contents rb)"
proof -
  let ?d = "ma_rb_pointer_distance (Some rb)"
  have len: "length (rb_contents rb) \<le> rb_cap rb" "rb_cap rb < 2 ^ 31"
    using length_rb_contents_le [OF assms] assms by (simp_all add: rb_wf_def)
  have s: "unat (scast ?d :: u64) = length (rb_contents rb)"
    using len by (simp add: unat_scast_nonneg unat_pointer_distance [OF assms])
  have "unat (ma_rb_get_subbuffer_size (Some rb) - scast ?d) = rb_cap rb - length (rb_contents rb)"
    using len s by (subst unat_diff_le) (auto simp: ma_rb_get_subbuffer_size_def rb_cap_def word_le_nat_alt)
  then show ?thesis
    using len by (simp add: ma_rb_available_write_def unat_ucast_u64_u32)
qed
subsection \<open>Initialisation\<close>

lemma ma_align_32:
  assumes "unat x \<le> 0x7FFFFFE0"
  shows "unat (ma_align x MA_SIMD_ALIGNMENT) = (unat x + 31) div 32 * 32"
proof -
  have "ma_align x MA_SIMD_ALIGNMENT = (x + 31) AND NOT (mask 5)"
    by (simp add: ma_align_def mask_eq_exp_minus_1)
  also have "\<dots> = push_bit 5 (drop_bit 5 (x + 31))"
    by (rule bit_word_eqI)
      (simp only: bit_and_iff bit_not_iff bit_mask_iff bit_push_bit_iff bit_drop_bit_eq, auto)
  finally have "ma_align x MA_SIMD_ALIGNMENT = push_bit 5 (drop_bit 5 (x + 31))" .
  moreover have "unat (x + 31) = unat x + 31"
    using assms by (subst unat_add_lt) simp_all
  ultimately show ?thesis
    using assms
    by (simp add: push_bit_eq_mult drop_bit_eq_div unat_word_ariths unat_div)
qed

text \<open>A ring that owns its buffer: a successful initialisation gives an empty, well-formed
  ring of exactly the requested capacity, for every size the code admits.\<close>

definition rb_fresh :: "u64 \<Rightarrow> ma_rb \<Rightarrow> bool" where
  "rb_fresh sz rb \<longleftrightarrow> rb_wf rb \<and> rb_contents rb = [] \<and> rb_cap rb = unat sz
     \<and> \<not> clearOnWriteAcquire rb \<and> ownsBuffer rb \<and> length (pBuffer rb) mod 32 = 0
     \<and> rb_rd rb = 0 \<and> rb_wr rb = 0 \<and> rb_same rb \<and> pBuffer rb = replicate (length (pBuffer rb)) 0"

lemma ma_rb_init_ok:
  assumes "0 < unat sz" "unat sz \<le> 0x7FFFFFE0"
    and alloc: "c_malloc sys (of_nat ((unat sz + 31) div 32 * 32 + 39)) = Some addr"
  shows "\<exists>rb'. ma_rb_init sys sz NULL NULL (Some rb) = (MA_SUCCESS, Some rb') \<and> rb_fresh sz rb'"
proof -
  let ?size = "ucast sz :: u32"
  have size: "unat ?size = unat sz" using assms(2) by (simp add: unat_ucast_u64_u32)
  let ?stride = "ma_align ?size MA_SIMD_ALIGNMENT"
  have stride: "unat ?stride = (unat sz + 31) div 32 * 32"
    using assms(2) by (simp add: ma_align_32 size)
  have guards: "sz \<noteq> 0" "\<not> (0x7FFFFFE0 :: u64) < sz"
    using assms(1,2) by (auto simp: word_less_nat_alt)
  have total: "(ucast ?stride + 39 :: u64) = of_nat ((unat sz + 31) div 32 * 32 + 39)"
    by (simp add: stride [symmetric])
  have m: "c_malloc sys (ucast ?stride + 39) = Some addr" using alloc unfolding total .
  define rb' where "rb' = zero_rb\<lparr>allocationCallbacks := ma_allocation_callbacks_init_default sys,
     subbufferSizeInBytes := ?size, subbufferCount := 1, subbufferStrideInBytes := ?stride,
     pBuffer := replicate (unat ?stride) 0, ownsBuffer := True\<rparr>"
  have "ma_rb_init sys sz NULL NULL (Some rb) = (MA_SUCCESS, Some rb')"
    using guards m
    by (simp add: ma_rb_init_def ma_rb_init_ex_def ma_allocation_callbacks_init_copy_def Let_def
      ma_aligned_malloc_def ma_malloc_def ma_allocation_callbacks_init_default_def rb'_def)
  moreover have "rb_fresh sz rb'"
    using assms(1,2) size stride
    by (simp add: rb_fresh_def rb'_def rb_view_defs offset_defs zero_rb_def)
  ultimately show ?thesis by blast
qed

lemma ma_rb_init_ex_rejects:
  assumes "unat sz = 0 \<or> unat count = 0 \<or> 0x7FFFFFE0 < unat sz"
  shows "ma_rb_init_ex sys sz count stride pre cb p = (MA_INVALID_ARGS, p)"
proof -
  have "sz = 0 \<or> count = 0 \<or> (0x7FFFFFE0 :: u64) < sz"
    using assms by (auto simp: word_less_nat_alt unat_eq_zero)
  then show ?thesis by (auto simp: ma_rb_init_ex_def split: option.splits)
qed

subsection \<open>Seeking\<close>

lemma rb_seek_sum:
  assumes "rb_wf rb" "off \<le> ucast (subbufferSizeInBytes rb)"
  shows "unat (ucast (ma_rb__get_read_ptr rb) + off :: u64) = rb_rd rb + unat off"
    and "unat (ucast (ucast (ma_rb__get_read_ptr rb) + off :: u64) :: u32) = rb_rd rb + unat off"
    and "rb_rd rb + unat off < 2 ^ 32"
proof -
  have o: "unat off \<le> rb_cap rb"
    using assms(2) by (simp add: word_le_nat_alt rb_cap_def)
  then show lt: "rb_rd rb + unat off < 2 ^ 32"
    using assms(1) by (simp add: rb_wf_def)
  show s: "unat (ucast (ma_rb__get_read_ptr rb) + off :: u64) = rb_rd rb + unat off"
    using lt by (subst unat_add_lt) (simp_all add: rb_rd_def)
  show "unat (ucast (ucast (ma_rb__get_read_ptr rb) + off :: u64) :: u32) = rb_rd rb + unat off"
    using lt by (simp add: unat_ucast_u64_u32 s)
qed

definition rb_move_read :: "ma_rb \<Rightarrow> u32 \<Rightarrow> bool \<Rightarrow> ma_rb" where
  "rb_move_read rb off turn = rb\<lparr>encodedReadOffset := ma_rb__construct_offset off
     (if turn then ma_rb__extract_offset_loop_flag (encodedReadOffset rb) XOR 0x80000000
      else ma_rb__extract_offset_loop_flag (encodedReadOffset rb))\<rparr>"

lemma rb_move_read_view:
  assumes "unat off < 2 ^ 31"
  shows "rb_rd (rb_move_read rb off turn) = unat off" "rb_wr (rb_move_read rb off turn) = rb_wr rb"
    "rb_cap (rb_move_read rb off turn) = rb_cap rb" "rb_same (rb_move_read rb off turn) = (rb_same rb \<noteq> turn)"
    "pBuffer (rb_move_read rb off turn) = pBuffer rb"
  using assms and_bit31_cases [of "encodedReadOffset rb"] and_bit31_toggle(2) [of "encodedReadOffset rb"]
  by (auto simp: rb_move_read_def rb_rd_def rb_wr_def rb_cap_def rb_same_def offset_defs
    or_and_low31 or_and_bit31 toggle_eq_iff)

lemma ma_rb_seek_read_eq:
  assumes wf: "rb_wf rb" and ok: "off \<le> ucast (subbufferSizeInBytes rb)"
  shows "\<exists>new. unat new = (if rb_same rb then min (rb_rd rb + unat off) (rb_wr rb)
           else if rb_cap rb \<le> rb_rd rb + unat off then rb_rd rb + unat off - rb_cap rb
           else rb_rd rb + unat off)
     \<and> ma_rb_seek_read (Some rb) off = (MA_SUCCESS, Some (rb_move_read rb new
           (\<not> rb_same rb \<and> rb_cap rb \<le> rb_rd rb + unat off)))"
proof -
  note s = rb_seek_sum [OF wf ok]
  let ?sum = "ucast (ma_rb__get_read_ptr rb) + off :: u64" and ?S = "subbufferSizeInBytes rb"
  have br: "(ucast ?S \<le> ?sum) = (rb_cap rb \<le> rb_rd rb + unat off)"
    "(ucast (ma_rb__get_write_ptr rb) < ?sum) = (rb_wr rb < rb_rd rb + unat off)"
    using s(1) by (simp_all add: word_le_nat_alt word_less_nat_alt rb_cap_def rb_wr_def)
  let ?new = "if rb_same rb then (if rb_wr rb < rb_rd rb + unat off then ma_rb__get_write_ptr rb else ucast ?sum)
              else if rb_cap rb \<le> rb_rd rb + unat off then ucast ?sum - ?S else ucast ?sum :: u32"
  have "unat ?new = (if rb_same rb then min (rb_rd rb + unat off) (rb_wr rb)
           else if rb_cap rb \<le> rb_rd rb + unat off then rb_rd rb + unat off - rb_cap rb
           else rb_rd rb + unat off)"
    using s(2) by (simp add: unat_diff_le word_le_nat_alt rb_cap_def rb_wr_def)
  moreover have "ma_rb_seek_read (Some rb) off = (MA_SUCCESS, Some (rb_move_read rb ?new
           (\<not> rb_same rb \<and> rb_cap rb \<le> rb_rd rb + unat off)))"
    using ok br by (auto simp: ma_rb_seek_read_def ma_rb__deconstruct_offset_def Let_def rb_same_def
      rb_move_read_def ma_rb__get_read_ptr_def ma_rb__get_write_ptr_def not_le)
  ultimately show ?thesis by blast
qed

text \<open>Inside the readable data, a forward seek drops exactly what it skips.\<close>

lemma ma_rb_seek_read_within:
  assumes wf: "rb_wf rb" and n: "unat off \<le> length (rb_contents rb)"
  shows "\<exists>rb'. ma_rb_seek_read (Some rb) off = (MA_SUCCESS, Some rb') \<and> rb_wf rb'
    \<and> rb_contents rb' = drop (unat off) (rb_contents rb)"
proof -
  have ok: "off \<le> ucast (subbufferSizeInBytes rb)"
    using n length_rb_contents_le [OF wf] by (simp add: word_le_nat_alt rb_cap_def)
  obtain new where new: "unat new = (if rb_same rb then min (rb_rd rb + unat off) (rb_wr rb)
           else if rb_cap rb \<le> rb_rd rb + unat off then rb_rd rb + unat off - rb_cap rb
           else rb_rd rb + unat off)"
     and eq: "ma_rb_seek_read (Some rb) off = (MA_SUCCESS, Some (rb_move_read rb new
           (\<not> rb_same rb \<and> rb_cap rb \<le> rb_rd rb + unat off)))"
    using ma_rb_seek_read_eq [OF wf ok] by blast
  have b: "rb_rd rb + unat off \<le> (if rb_same rb then rb_wr rb else rb_cap rb + rb_wr rb)"
    "rb_rd rb < rb_cap rb" "rb_wr rb < rb_cap rb" "rb_cap rb < 2 ^ 31"
    using n wf by (auto simp: length_rb_contents rb_wf_def split: if_splits)
  have lt: "unat new < 2 ^ 31" using new b by (auto split: if_splits)
  note v = rb_move_read_view [OF lt]
  have "rb_wf (rb_move_read rb new (\<not> rb_same rb \<and> rb_cap rb \<le> rb_rd rb + unat off))"
    using wf new b unfolding rb_wf_def v by (auto split: if_splits)
  moreover have "rb_contents (rb_move_read rb new (\<not> rb_same rb \<and> rb_cap rb \<le> rb_rd rb + unat off))
      = drop (unat off) (rb_contents rb)"
    using wf new b unfolding rb_contents_def v
    by (auto simp: drop_mem_read length_mem_read rb_wf_def add.commute split: if_splits)
  ultimately show ?thesis using eq by blast
qed

text \<open>With the cursors on the same turn the seek stops at the write cursor, as intended.\<close>

lemma ma_rb_seek_read_clamps:
  assumes wf: "rb_wf rb" and same: "rb_same rb"
    and n: "length (rb_contents rb) \<le> unat off" "unat off \<le> rb_cap rb"
  shows "\<exists>rb'. ma_rb_seek_read (Some rb) off = (MA_SUCCESS, Some rb') \<and> rb_wf rb' \<and> rb_contents rb' = []"
proof -
  have ok: "off \<le> ucast (subbufferSizeInBytes rb)"
    using n(2) by (simp add: word_le_nat_alt rb_cap_def)
  have m: "min (rb_rd rb + unat off) (rb_wr rb) = rb_wr rb"
    using n(1) wf same by (auto simp: length_rb_contents rb_wf_def)
  obtain new where new: "unat new = rb_wr rb"
     and eq: "ma_rb_seek_read (Some rb) off = (MA_SUCCESS, Some (rb_move_read rb new False))"
    using ma_rb_seek_read_eq [OF wf ok] same m by auto
  have lt: "unat new < 2 ^ 31" using new wf by (simp add: rb_wf_def)
  have "rb_wf (rb_move_read rb new False)" "rb_contents (rb_move_read rb new False) = []"
    using wf same new unfolding rb_wf_def rb_contents_def rb_move_read_view [OF lt] by auto
  with eq show ?thesis by blast
qed

text \<open>On different turns nothing stops it: past the readable data the read cursor ends up
  ahead of the write cursor, and the ring is no longer well-formed.\<close>

lemma ma_rb_seek_read_overtakes:
  assumes wf: "rb_wf rb" and turn: "\<not> rb_same rb"
    and n: "length (rb_contents rb) < unat off" "unat off \<le> rb_cap rb"
  shows "\<exists>rb'. ma_rb_seek_read (Some rb) off = (MA_SUCCESS, Some rb') \<and> rb_same rb' \<and> rb_wr rb' < rb_rd rb'"
proof -
  have ok: "off \<le> ucast (subbufferSizeInBytes rb)"
    using n(2) by (simp add: word_le_nat_alt rb_cap_def)
  have b: "rb_cap rb + rb_wr rb < rb_rd rb + unat off"
    using n(1) wf turn by (auto simp: length_rb_contents rb_wf_def)
  then obtain new where new: "unat new = rb_rd rb + unat off - rb_cap rb"
     and eq: "ma_rb_seek_read (Some rb) off = (MA_SUCCESS, Some (rb_move_read rb new True))"
    using ma_rb_seek_read_eq [OF wf ok] turn by auto
  have lt: "unat new < 2 ^ 31" using new n(2) wf by (auto simp: rb_wf_def)
  have "rb_same (rb_move_read rb new True)"
      "rb_wr (rb_move_read rb new True) < rb_rd (rb_move_read rb new True)"
    using turn new b unfolding rb_move_read_view [OF lt] by auto
  with eq show ?thesis by blast
qed

lemma ring_write_cycle:
  assumes wf: "rb_wf rb" and cl: "\<not> clearOnWriteAcquire rb" and xs: "length xs = min (unat n) (rb_writable rb)"
  shows "\<exists>k rb'. ma_rb_acquire_write (Some rb) (Some n) (Some NULL)
        = (MA_SUCCESS, Some k, Some (Some (ma_rb__get_write_ptr rb)), Some rb) \<and> unat k = length xs
    \<and> ma_rb_commit_write (Some (rb\<lparr>pBuffer := mem_write (pBuffer rb) (unat (ma_rb__get_write_ptr rb)) xs\<rparr>)) k
        = (MA_SUCCESS, Some rb')
    \<and> rb_wf rb' \<and> rb_contents rb' = rb_contents rb @ xs \<and> rb_cap rb' = rb_cap rb"
proof -
  define k where "k = (of_nat (length xs) :: u64)"
  have le: "length xs \<le> rb_writable rb" using xs by simp
  have "length xs \<le> unat n" using xs by simp
  then have "length xs < 2 ^ 64" by (rule le_less_trans) simp
  then have uk: "unat k = length xs" by (simp add: k_def unat_of_nat)
  let ?r = "rb\<lparr>pBuffer := mem_write (pBuffer rb) (rb_wr rb) xs\<rparr>"
  have "rb_wr ?r + unat k \<le> rb_cap ?r"
    using le uk rb_region_bounds(2) [OF wf] by (simp add: rb_view_defs offset_defs)
  then have "ma_rb_commit_write (Some ?r) k = (MA_SUCCESS, Some (rb_put rb xs))"
    by (simp add: ma_rb_commit_write_ok rb_put_def uk)
  moreover have "list_all (\<lambda>_. True) xs" by (simp add: list_all_iff)
  ultimately show ?thesis
    using ma_rb_acquire_write_ok [OF wf cl, of n NULL] xs uk byte_ring.inv_put [OF wf _ le]
      byte_ring.contents_put [OF wf _ le] byte_ring.cap_put [OF wf _ le]
    by (intro exI [of _ k] exI [of _ "rb_put rb xs"]) (simp add: k_def rb_wr_def)
qed

lemma ring_read_cycle:
  assumes wf: "rb_wf rb"
  shows "\<exists>k rb'. ma_rb_acquire_read (Some rb) (Some n) (Some NULL)
        = (MA_SUCCESS, Some k, Some (Some (ma_rb__get_read_ptr rb))) \<and> unat k = min (unat n) (rb_readable rb)
    \<and> mem_read (pBuffer rb) (unat (ma_rb__get_read_ptr rb)) (unat k) = take (unat k) (rb_contents rb)
    \<and> ma_rb_commit_read (Some rb) k = (MA_SUCCESS, Some rb')
    \<and> rb_wf rb' \<and> rb_contents rb' = drop (unat k) (rb_contents rb) \<and> rb_cap rb' = rb_cap rb"
proof -
  define m where "m = min (unat n) (rb_readable rb)"
  define k where "k = (of_nat m :: u64)"
  have le: "m \<le> rb_readable rb" "m \<le> unat n" by (simp_all add: m_def)
  have "m < 2 ^ 64" using le(2) by (rule le_less_trans) simp
  then have uk: "unat k = m" by (simp add: k_def unat_of_nat)
  have "rb_rd rb + unat k \<le> rb_cap rb" using le(1) uk rb_region_bounds(1) [OF wf] by simp
  then have "ma_rb_commit_read (Some rb) k = (MA_SUCCESS, Some (rb_advance_read rb m))"
    by (simp add: ma_rb_commit_read_ok uk)
  then show ?thesis
    using ma_rb_acquire_read_ok [OF wf, of n NULL] uk rb_read_region [OF wf le(1)] rb_advance_read_contents [OF wf le(1)]
    by (intro exI [of _ k] exI [of _ "rb_advance_read rb m"]) (simp add: k_def m_def rb_rd_def)
qed

end
