(* ===== verification/MaPcmRb.thy ===== *)
theory MaPcmRb
  imports MaRb
begin

text \<open>
  The PCM ring buffer \<open>ma_pcm_rb\<close>: \<open>ma_rb\<close> with its sizes counted in frames of
  \<open>ma_get_bytes_per_frame\<close> bytes, wrapped as a data source; and the duplex ring on top
  of it. The lemmas show that it is a bounded queue of whole frames.
\<close>

section \<open>State\<close>

datatype ma_data_source_vtable = ma_gRBDataSourceVTable

record ma_data_source_base =
  ds_vtable :: "ma_data_source_vtable ptr"
  rangeBegInFrames :: u64
  rangeEndInFrames :: u64
  loopBegInFrames :: u64
  loopEndInFrames :: u64

record ma_pcm_rb =
  pcm_ds :: ma_data_source_base
  pcm_rb :: ma_rb
  pcm_format :: ma_format
  pcm_channels :: u32
  pcm_sampleRate :: u32

definition zero_ds :: ma_data_source_base where
  "zero_ds = \<lparr>ds_vtable = NULL, rangeBegInFrames = 0, rangeEndInFrames = 0,
     loopBegInFrames = 0, loopEndInFrames = 0\<rparr>"

definition zero_pcm_rb :: ma_pcm_rb where
  "zero_pcm_rb = \<lparr>pcm_ds = zero_ds, pcm_rb = zero_rb, pcm_format = ma_format_unknown,
     pcm_channels = 0, pcm_sampleRate = 0\<rparr>"

text \<open>\<open>ma_data_source_init\<close>: the configuration is its vtable; the links of a data source
  chain (\<open>pCurrent\<close>, \<open>pNext\<close>, \<open>onGetNext\<close>) are not used by a ring.\<close>

definition ma_data_source_init :: "ma_data_source_vtable ptr ptr \<Rightarrow> ma_data_source_base ptr
    \<Rightarrow> ma_result \<times> ma_data_source_base ptr" where
  "ma_data_source_init pConfig pDataSource =
     (case pDataSource of
        None \<Rightarrow> (MA_INVALID_ARGS, NULL)
      | Some _ \<Rightarrow>
        (case pConfig of
           Some (Some vt) \<Rightarrow>
             (MA_SUCCESS, Some (zero_ds\<lparr>ds_vtable := Some vt, rangeBegInFrames := 0,
                rangeEndInFrames := NOT 0, loopBegInFrames := 0, loopEndInFrames := NOT 0\<rparr>))
         | _ \<Rightarrow> (MA_INVALID_ARGS, Some zero_ds)))"

definition ma_pcm_rb_get_bpf :: "ma_pcm_rb \<Rightarrow> u32" where
  "ma_pcm_rb_get_bpf p = ma_get_bytes_per_frame (pcm_format p) (pcm_channels p)"

section \<open>Operations\<close>

definition ma_pcm_rb_init_ex :: "libc \<Rightarrow> ma_format \<Rightarrow> u32 \<Rightarrow> u32 \<Rightarrow> u32 \<Rightarrow> u32 \<Rightarrow> u8 list ptr
    \<Rightarrow> ma_allocation_callbacks ptr \<Rightarrow> ma_pcm_rb ptr \<Rightarrow> ma_result \<times> ma_pcm_rb ptr" where
  "ma_pcm_rb_init_ex sys fmt chs subbufferSizeInFrames count subbufferStrideInFrames pre cb pRB =
     (case pRB of
        None \<Rightarrow> (MA_INVALID_ARGS, NULL)
      | Some _ \<Rightarrow>
        let p = zero_pcm_rb; bpf = ma_get_bytes_per_frame fmt chs
        in if bpf = 0 then (MA_INVALID_ARGS, Some p)
           else case ma_rb_init_ex sys (ucast (subbufferSizeInFrames * bpf)) (ucast count)
                       (ucast (subbufferStrideInFrames * bpf)) pre cb (Some (pcm_rb p)) of
             (result, prb) \<Rightarrow>
               let p = p\<lparr>pcm_rb := the prb\<rparr>
               in if result \<noteq> MA_SUCCESS then (result, Some p)
                  else let p = p\<lparr>pcm_format := fmt, pcm_channels := chs, pcm_sampleRate := 0\<rparr>
                  in case ma_data_source_init (Some (Some ma_gRBDataSourceVTable)) (Some (pcm_ds p)) of
                       (result, ds) \<Rightarrow>
                         let p = p\<lparr>pcm_ds := the ds\<rparr>
                         in if result \<noteq> MA_SUCCESS then (result, Some p) else (MA_SUCCESS, Some p))"

definition ma_pcm_rb_init :: "libc \<Rightarrow> ma_format \<Rightarrow> u32 \<Rightarrow> u32 \<Rightarrow> u8 list ptr
    \<Rightarrow> ma_allocation_callbacks ptr \<Rightarrow> ma_pcm_rb ptr \<Rightarrow> ma_result \<times> ma_pcm_rb ptr" where
  "ma_pcm_rb_init sys fmt chs bufferSizeInFrames pre cb pRB =
     ma_pcm_rb_init_ex sys fmt chs bufferSizeInFrames 1 0 pre cb pRB"

definition ma_pcm_rb_uninit :: "ma_pcm_rb ptr \<Rightarrow> bool" where
  "ma_pcm_rb_uninit pRB = (case pRB of None \<Rightarrow> False | Some p \<Rightarrow> ma_rb_uninit (Some (pcm_rb p)))"

definition ma_pcm_rb_reset :: "ma_pcm_rb ptr \<Rightarrow> ma_pcm_rb ptr" where
  "ma_pcm_rb_reset pRB =
     (case pRB of None \<Rightarrow> NULL | Some p \<Rightarrow> Some (p\<lparr>pcm_rb := the (ma_rb_reset (Some (pcm_rb p)))\<rparr>))"

definition ma_pcm_rb_acquire_read :: "ma_pcm_rb ptr \<Rightarrow> u32 ptr \<Rightarrow> u32 ptr ptr
    \<Rightarrow> ma_result \<times> u32 ptr \<times> u32 ptr ptr" where
  "ma_pcm_rb_acquire_read pRB pSizeInFrames ppBufferOut =
     (case (pRB, pSizeInFrames) of
        (Some p, Some sizeInFrames) \<Rightarrow>
          (case ma_rb_acquire_read (Some (pcm_rb p))
                  (Some (ucast (sizeInFrames * ma_pcm_rb_get_bpf p))) ppBufferOut of
             (result, size', out') \<Rightarrow>
               if result \<noteq> MA_SUCCESS then (result, pSizeInFrames, out')
               else (MA_SUCCESS, Some (ucast (the size' div ucast (ma_pcm_rb_get_bpf p))), out'))
      | _ \<Rightarrow> (MA_INVALID_ARGS, pSizeInFrames, ppBufferOut))"

definition ma_pcm_rb_commit_read :: "ma_pcm_rb ptr \<Rightarrow> u32 \<Rightarrow> ma_result \<times> ma_pcm_rb ptr" where
  "ma_pcm_rb_commit_read pRB sizeInFrames =
     (case pRB of
        None \<Rightarrow> (MA_INVALID_ARGS, NULL)
      | Some p \<Rightarrow>
          (case ma_rb_commit_read (Some (pcm_rb p)) (ucast (sizeInFrames * ma_pcm_rb_get_bpf p)) of
             (result, r) \<Rightarrow> (result, Some (p\<lparr>pcm_rb := the r\<rparr>))))"

text \<open>Unlike the read side, the C function reads \<open>*pSizeInFrames\<close> without testing the
  pointer: it has to be valid.\<close>

definition ma_pcm_rb_acquire_write :: "ma_pcm_rb ptr \<Rightarrow> u32 \<Rightarrow> u32 ptr ptr
    \<Rightarrow> ma_result \<times> u32 \<times> u32 ptr ptr \<times> ma_pcm_rb ptr" where
  "ma_pcm_rb_acquire_write pRB sizeInFrames ppBufferOut =
     (case pRB of
        None \<Rightarrow> (MA_INVALID_ARGS, sizeInFrames, ppBufferOut, NULL)
      | Some p \<Rightarrow>
          (case ma_rb_acquire_write (Some (pcm_rb p))
                  (Some (ucast (sizeInFrames * ma_pcm_rb_get_bpf p))) ppBufferOut of
             (result, size', out', r) \<Rightarrow>
               let p' = Some (p\<lparr>pcm_rb := the r\<rparr>)
               in if result \<noteq> MA_SUCCESS then (result, sizeInFrames, out', p')
                  else (MA_SUCCESS, ucast (the size' div ucast (ma_pcm_rb_get_bpf p)), out', p')))"

definition ma_pcm_rb_commit_write :: "ma_pcm_rb ptr \<Rightarrow> u32 \<Rightarrow> ma_result \<times> ma_pcm_rb ptr" where
  "ma_pcm_rb_commit_write pRB sizeInFrames =
     (case pRB of
        None \<Rightarrow> (MA_INVALID_ARGS, NULL)
      | Some p \<Rightarrow>
          (case ma_rb_commit_write (Some (pcm_rb p)) (ucast (sizeInFrames * ma_pcm_rb_get_bpf p)) of
             (result, r) \<Rightarrow> (result, Some (p\<lparr>pcm_rb := the r\<rparr>))))"

definition ma_pcm_rb_seek_read :: "ma_pcm_rb ptr \<Rightarrow> u32 \<Rightarrow> ma_result \<times> ma_pcm_rb ptr" where
  "ma_pcm_rb_seek_read pRB offsetInFrames =
     (case pRB of
        None \<Rightarrow> (MA_INVALID_ARGS, NULL)
      | Some p \<Rightarrow>
          (case ma_rb_seek_read (Some (pcm_rb p)) (ucast (offsetInFrames * ma_pcm_rb_get_bpf p)) of
             (result, r) \<Rightarrow> (result, Some (p\<lparr>pcm_rb := the r\<rparr>))))"

definition ma_pcm_rb_seek_write :: "ma_pcm_rb ptr \<Rightarrow> u32 \<Rightarrow> ma_result \<times> ma_pcm_rb ptr" where
  "ma_pcm_rb_seek_write pRB offsetInFrames =
     (case pRB of
        None \<Rightarrow> (MA_INVALID_ARGS, NULL)
      | Some p \<Rightarrow>
          (case ma_rb_seek_write (Some (pcm_rb p)) (ucast (offsetInFrames * ma_pcm_rb_get_bpf p)) of
             (result, r) \<Rightarrow> (result, Some (p\<lparr>pcm_rb := the r\<rparr>))))"

text \<open>\<open>ma_int32 / ma_uint32\<close> is an unsigned division.\<close>

definition ma_pcm_rb_pointer_distance :: "ma_pcm_rb ptr \<Rightarrow> u32" where
  "ma_pcm_rb_pointer_distance pRB =
     (case pRB of None \<Rightarrow> 0
      | Some p \<Rightarrow> ma_rb_pointer_distance (Some (pcm_rb p)) div ma_pcm_rb_get_bpf p)"

definition ma_pcm_rb_available_read :: "ma_pcm_rb ptr \<Rightarrow> u32" where
  "ma_pcm_rb_available_read pRB =
     (case pRB of None \<Rightarrow> 0
      | Some p \<Rightarrow> ma_rb_available_read (Some (pcm_rb p)) div ma_pcm_rb_get_bpf p)"

definition ma_pcm_rb_available_write :: "ma_pcm_rb ptr \<Rightarrow> u32" where
  "ma_pcm_rb_available_write pRB =
     (case pRB of None \<Rightarrow> 0
      | Some p \<Rightarrow> ma_rb_available_write (Some (pcm_rb p)) div ma_pcm_rb_get_bpf p)"

definition ma_pcm_rb_get_subbuffer_size :: "ma_pcm_rb ptr \<Rightarrow> u32" where
  "ma_pcm_rb_get_subbuffer_size pRB =
     (case pRB of None \<Rightarrow> 0
      | Some p \<Rightarrow> ucast (ma_rb_get_subbuffer_size (Some (pcm_rb p)) div ucast (ma_pcm_rb_get_bpf p)))"

definition ma_pcm_rb_get_subbuffer_stride :: "ma_pcm_rb ptr \<Rightarrow> u32" where
  "ma_pcm_rb_get_subbuffer_stride pRB =
     (case pRB of None \<Rightarrow> 0
      | Some p \<Rightarrow> ucast (ma_rb_get_subbuffer_stride (Some (pcm_rb p)) div ucast (ma_pcm_rb_get_bpf p)))"

definition ma_pcm_rb_get_subbuffer_offset :: "ma_pcm_rb ptr \<Rightarrow> u32 \<Rightarrow> u32" where
  "ma_pcm_rb_get_subbuffer_offset pRB subbufferIndex =
     (case pRB of None \<Rightarrow> 0
      | Some p \<Rightarrow> ucast (ma_rb_get_subbuffer_offset (Some (pcm_rb p)) (ucast subbufferIndex)
                          div ucast (ma_pcm_rb_get_bpf p)))"

definition ma_pcm_rb_get_subbuffer_ptr :: "ma_pcm_rb ptr \<Rightarrow> u32 \<Rightarrow> u64 \<Rightarrow> u64 ptr" where
  "ma_pcm_rb_get_subbuffer_ptr pRB subbufferIndex buf =
     (case pRB of None \<Rightarrow> NULL
      | Some p \<Rightarrow> ma_rb_get_subbuffer_ptr (Some (pcm_rb p)) (ucast subbufferIndex) buf)"

definition ma_pcm_rb_get_format :: "ma_pcm_rb ptr \<Rightarrow> ma_format" where
  "ma_pcm_rb_get_format pRB = (case pRB of None \<Rightarrow> ma_format_unknown | Some p \<Rightarrow> pcm_format p)"

definition ma_pcm_rb_get_channels :: "ma_pcm_rb ptr \<Rightarrow> u32" where
  "ma_pcm_rb_get_channels pRB = (case pRB of None \<Rightarrow> 0 | Some p \<Rightarrow> pcm_channels p)"

definition ma_pcm_rb_get_sample_rate :: "ma_pcm_rb ptr \<Rightarrow> u32" where
  "ma_pcm_rb_get_sample_rate pRB = (case pRB of None \<Rightarrow> 0 | Some p \<Rightarrow> pcm_sampleRate p)"

definition ma_pcm_rb_set_sample_rate :: "ma_pcm_rb ptr \<Rightarrow> u32 \<Rightarrow> ma_pcm_rb ptr" where
  "ma_pcm_rb_set_sample_rate pRB rate =
     (case pRB of None \<Rightarrow> NULL | Some p \<Rightarrow> Some (p\<lparr>pcm_sampleRate := rate\<rparr>))"

section \<open>The PCM ring as a bounded queue of frames\<close>

definition pcm_bpf :: "ma_pcm_rb \<Rightarrow> nat" where
  "pcm_bpf p = unat (ma_pcm_rb_get_bpf p)"

definition pcm_wf :: "ma_pcm_rb \<Rightarrow> bool" where
  "pcm_wf p \<longleftrightarrow> rb_wf (pcm_rb p) \<and> \<not> clearOnWriteAcquire (pcm_rb p) \<and> 0 < pcm_bpf p
     \<and> pcm_bpf p dvd rb_cap (pcm_rb p) \<and> pcm_bpf p dvd rb_rd (pcm_rb p) \<and> pcm_bpf p dvd rb_wr (pcm_rb p)"

definition pcm_cap :: "ma_pcm_rb \<Rightarrow> nat" where
  "pcm_cap p = rb_cap (pcm_rb p) div pcm_bpf p"

definition pcm_contents :: "ma_pcm_rb \<Rightarrow> u8 list list" where
  "pcm_contents p = chunks (pcm_bpf p) (rb_contents (pcm_rb p))"

definition pcm_readable :: "ma_pcm_rb \<Rightarrow> nat" where
  "pcm_readable p = rb_readable (pcm_rb p) div pcm_bpf p"

definition pcm_writable :: "ma_pcm_rb \<Rightarrow> nat" where
  "pcm_writable p = rb_writable (pcm_rb p) div pcm_bpf p"

definition pcm_peek :: "ma_pcm_rb \<Rightarrow> nat \<Rightarrow> u8 list list" where
  "pcm_peek p k = chunks (pcm_bpf p) (rb_peek (pcm_rb p) (k * pcm_bpf p))"

definition pcm_consume :: "ma_pcm_rb \<Rightarrow> nat \<Rightarrow> ma_pcm_rb" where
  "pcm_consume p k = p\<lparr>pcm_rb := rb_advance_read (pcm_rb p) (k * pcm_bpf p)\<rparr>"

definition pcm_put :: "ma_pcm_rb \<Rightarrow> u8 list list \<Rightarrow> ma_pcm_rb" where
  "pcm_put p fs = p\<lparr>pcm_rb := rb_put (pcm_rb p) (concat fs)\<rparr>"

definition is_frame :: "ma_pcm_rb \<Rightarrow> u8 list \<Rightarrow> bool" where
  "is_frame p f \<longleftrightarrow> length f = pcm_bpf p"

lemma pcm_bpf_simps [simp]:
  "pcm_bpf (pcm_consume p k) = pcm_bpf p" "pcm_bpf (pcm_put p fs) = pcm_bpf p"
  "pcm_bpf (p\<lparr>pcm_rb := r\<rparr>) = pcm_bpf p"
  by (simp_all add: pcm_bpf_def ma_pcm_rb_get_bpf_def pcm_consume_def pcm_put_def)

lemma pcm_format_simps [simp]:
  "pcm_format (pcm_consume p k) = pcm_format p" "pcm_channels (pcm_consume p k) = pcm_channels p"
  "pcm_format (pcm_put p fs) = pcm_format p" "pcm_channels (pcm_put p fs) = pcm_channels p"
  by (simp_all add: pcm_consume_def pcm_put_def)

lemma clear_simps [simp]:
  "clearOnWriteAcquire (rb_advance_read rb k) = clearOnWriteAcquire rb"
  "clearOnWriteAcquire (rb_put rb xs) = clearOnWriteAcquire rb"
  by (simp_all add: rb_advance_read_def rb_put_def rb_advance_write_def)

lemma pcm_divides:
  assumes "pcm_wf p"
  shows "pcm_bpf p dvd rb_readable (pcm_rb p)" "pcm_bpf p dvd rb_writable (pcm_rb p)"
    "pcm_bpf p dvd length (rb_contents (pcm_rb p))"
  using assms length_rb_contents [of "pcm_rb p"]
  by (auto simp: pcm_wf_def rb_readable_def rb_writable_def intro: dvd_add dvd_diff_nat)

lemma pcm_contents_frames:
  assumes "pcm_wf p" "f \<in> set (pcm_contents p)"
  shows "length f = pcm_bpf p"
  using assms pcm_divides(3) [OF assms(1)] by (auto simp: pcm_contents_def pcm_wf_def intro: chunks_lengths)

lemma pcm_grant:
  assumes "pcm_wf p"
  shows "k \<le> pcm_readable p \<longleftrightarrow> k * pcm_bpf p \<le> rb_readable (pcm_rb p)"
    "k \<le> pcm_writable p \<longleftrightarrow> k * pcm_bpf p \<le> rb_writable (pcm_rb p)"
    "length (pcm_contents p) * pcm_bpf p = length (rb_contents (pcm_rb p))"
    "pcm_cap p * pcm_bpf p = rb_cap (pcm_rb p)"
    "pcm_readable p * pcm_bpf p = rb_readable (pcm_rb p)"
    "pcm_writable p * pcm_bpf p = rb_writable (pcm_rb p)"
  using assms pcm_divides [OF assms]
  by (auto simp: pcm_readable_def pcm_writable_def pcm_contents_def length_chunks pcm_wf_def pcm_cap_def
    less_eq_div_iff_mult_less_eq)

lemma pcm_consume_ok:
  assumes wf: "pcm_wf p" and k: "k \<le> pcm_readable p"
  shows "pcm_wf (pcm_consume p k)" "pcm_contents (pcm_consume p k) = drop k (pcm_contents p)"
proof -
  have r: "rb_wf (pcm_rb p)" and kb: "k * pcm_bpf p \<le> rb_readable (pcm_rb p)"
    using wf k pcm_grant(1) [OF wf] by (simp_all add: pcm_wf_def)
  note adv = rb_advance_read_contents [OF r kb]
  have "rb_rd (pcm_rb p) + k * pcm_bpf p \<le> rb_cap (pcm_rb p)"
    using kb rb_region_bounds(1) [OF r] by simp
  note v = rb_advance_read_view [OF r this]
  show "pcm_wf (pcm_consume p k)"
    unfolding pcm_wf_def pcm_bpf_simps using wf adv(1)
    by (auto simp: pcm_consume_def pcm_wf_def v)
  show "pcm_contents (pcm_consume p k) = drop k (pcm_contents p)"
    using wf unfolding pcm_contents_def pcm_bpf_simps
    by (simp add: pcm_consume_def adv(2) chunks_drop pcm_wf_def)
qed

lemma rb_put_view:
  assumes "rb_wf rb" "length xs \<le> rb_writable rb"
  shows "rb_wr (rb_put rb xs) = (if rb_wr rb + length xs = rb_cap rb then 0 else rb_wr rb + length xs)"
    "rb_rd (rb_put rb xs) = rb_rd rb"
proof -
  let ?r = "rb\<lparr>pBuffer := mem_write (pBuffer rb) (rb_wr rb) xs\<rparr>"
  have le: "rb_wr rb + length xs \<le> rb_cap rb" using rb_region_bounds(2) [OF assms(1)] assms(2) by simp
  have views: "rb_wr ?r = rb_wr rb" "rb_rd ?r = rb_rd rb" "rb_same ?r = rb_same rb"
    by (simp_all add: rb_view_defs offset_defs)
  have "rb_wf ?r" using assms(1) le by (simp add: rb_wf_def views length_mem_write)
  from rb_advance_write_view [OF this, of "length xs"] le
  show "rb_wr (rb_put rb xs) = (if rb_wr rb + length xs = rb_cap rb then 0 else rb_wr rb + length xs)"
    "rb_rd (rb_put rb xs) = rb_rd rb"
    by (simp_all add: rb_put_def views)
qed

lemma pcm_put_ok:
  assumes wf: "pcm_wf p" and fr: "list_all (is_frame p) fs" and k: "length fs \<le> pcm_writable p"
  shows "pcm_wf (pcm_put p fs)" "pcm_contents (pcm_put p fs) = pcm_contents p @ fs"
proof -
  have len: "length (concat fs) = length fs * pcm_bpf p"
    using fr by (intro length_concat_const) (auto simp: list_all_iff is_frame_def)
  have r: "rb_wf (pcm_rb p)" and kb: "length (concat fs) \<le> rb_writable (pcm_rb p)"
    using wf k pcm_grant(2) [OF wf] by (simp_all add: pcm_wf_def len)
  note v = rb_put_view [OF r kb]
  show "pcm_wf (pcm_put p fs)"
    unfolding pcm_wf_def pcm_bpf_simps using wf byte_ring.inv_put [OF r _ kb]
    by (auto simp: pcm_put_def pcm_wf_def v len list_all_iff)
  have "chunks (pcm_bpf p) (concat fs) = fs"
    using wf fr by (intro chunks_concat) (auto simp: pcm_wf_def list_all_iff is_frame_def)
  then show "pcm_contents (pcm_put p fs) = pcm_contents p @ fs"
    using wf pcm_divides(3) [OF wf] byte_ring.contents_put [OF r _ kb] unfolding pcm_contents_def pcm_bpf_simps
    by (simp add: pcm_put_def chunks_append pcm_wf_def list_all_iff)
qed

interpretation frame_ring: ring_fifo pcm_wf pcm_cap pcm_contents pcm_readable pcm_writable pcm_peek
  pcm_consume pcm_put is_frame
proof
  fix p k xs assume wf: "pcm_wf p"
  then have b: "0 < pcm_bpf p" and r: "rb_wf (pcm_rb p)" by (simp_all add: pcm_wf_def)
  note g = pcm_grant [OF wf]
  have le: "x * pcm_bpf p \<le> y * pcm_bpf p \<Longrightarrow> x \<le> y" for x y
    using b by simp
  show "pcm_readable p \<le> length (pcm_contents p)"
    by (rule le) (unfold g, rule byte_ring.readable_le [OF r])
  show "pcm_readable p = 0 \<longleftrightarrow> pcm_contents p = []"
    using byte_ring.readable_0 [OF r] b g(5) by (auto simp: pcm_contents_def chunks_eq_Nil)
  show "length (pcm_contents p) \<le> pcm_cap p"
    by (rule le) (unfold g, rule byte_ring.contents_le [OF r])
  show "pcm_writable p \<le> pcm_cap p - length (pcm_contents p)"
    by (rule le) (unfold diff_mult_distrib g, rule byte_ring.writable_le [OF r])
  show "pcm_writable p = 0 \<longleftrightarrow> length (pcm_contents p) = pcm_cap p"
    using byte_ring.writable_0 [OF r] b g(3,4,6) by (metis mult_cancel2 mult_eq_0_iff less_not_refl)
  show "k \<le> pcm_readable p \<Longrightarrow> pcm_cap (pcm_consume p k) = pcm_cap p"
    by (simp add: pcm_cap_def) (simp add: pcm_consume_def)
  show "pcm_cap (pcm_put p xs) = pcm_cap p"
    by (simp add: pcm_cap_def) (simp add: pcm_put_def)
  show "is_frame (pcm_put p xs) = is_frame p"
    by (simp add: is_frame_def fun_eq_iff)
  show "pcm_peek p k = take k (pcm_contents p)" if "k \<le> pcm_readable p"
    using b byte_ring.peek_take [OF r g(1) [THEN iffD1, OF that]]
    by (simp add: pcm_peek_def pcm_contents_def chunks_take)
qed (auto intro: pcm_consume_ok pcm_put_ok)

subsection \<open>The functions in terms of the queue\<close>

lemma unat_div_word: "unat (a div b) = unat a div unat b" for a b :: "'a::len word"
  by (simp add: unat_div)

lemma ma_rb_acquire_read_le:
  "ma_rb_acquire_read (Some r) (Some n) out = (res, m, out') \<Longrightarrow> \<exists>k. m = Some k \<and> unat k \<le> unat n"
  by (auto simp: ma_rb_acquire_read_def Let_def word_less_nat_alt split: option.splits prod.splits if_splits)

lemma ma_rb_acquire_write_le:
  "ma_rb_acquire_write (Some r) (Some n) out = (res, m, out', r') \<Longrightarrow> \<exists>k. m = Some k \<and> unat k \<le> unat n"
  by (auto simp: ma_rb_acquire_write_def Let_def word_less_nat_alt split: option.splits prod.splits if_splits)

lemma frames_of_bytes_le:
  fixes n b :: u32 and k :: u64
  assumes "unat k \<le> unat (ucast (n * b) :: u64)"
  shows "unat (ucast (k div ucast b) :: u32) \<le> unat n"
proof (cases "b = 0")
  case False
  then have b: "0 < unat b" by (simp add: unat_gt_0)
  have "unat k \<le> unat n * unat b"
    using assms by (simp add: unat_word_ariths)
  then have "unat k div unat b \<le> unat n"
    using b by (metis div_le_mono nonzero_mult_div_cancel_right not_less_zero)
  then show ?thesis
    by (simp add: unat_ucast_u64_u32 unat_div_word)
qed (simp add: unat_ucast_u64_u32 unat_div_word)

lemma ma_pcm_rb_acquire_read_le:
  assumes "ma_pcm_rb_acquire_read (Some p) (Some n) out = (res, m, out')"
  shows "\<exists>k. m = Some k \<and> unat k \<le> unat n"
  using assms ma_rb_acquire_read_le
  by (fastforce simp: ma_pcm_rb_acquire_read_def intro: frames_of_bytes_le split: prod.splits if_splits)

lemma ma_pcm_rb_acquire_write_le:
  assumes "ma_pcm_rb_acquire_write (Some p) n out = (res, m, out', p')"
  shows "unat m \<le> unat n"
  using assms ma_rb_acquire_write_le
  by (fastforce simp: ma_pcm_rb_acquire_write_def Let_def intro: frames_of_bytes_le split: prod.splits if_splits)

lemma min_mult_div: "0 < b \<Longrightarrow> b dvd r \<Longrightarrow> min (n * b) r div b = min n (r div b)" for b :: nat
  by (auto simp: min_def less_eq_div_iff_mult_less_eq)

lemma frames_of_granted:
  fixes n b :: u32
  assumes "0 < unat b" "unat n * unat b < 2 ^ 32" "unat b dvd r" "r < 2 ^ 32"
  shows "(ucast ((of_nat (min (unat (ucast (n * b) :: u64)) r) :: u64) div ucast b) :: u32)
    = of_nat (min (unat n) (r div unat b))"
proof -
  have nb: "unat (n * b) = unat n * unat b" using assms(2) by (simp add: unat_mult_lt)
  have lt: "min (unat n) (r div unat b) < 4294967296"
    by (rule le_less_trans [OF min.cobounded1 unat_lt_u32])
  have m: "min (unat n * unat b) r < 2 ^ 32" using assms(4) by simp
  have "unat (ucast ((of_nat (min (unat (ucast (n * b) :: u64)) r) :: u64) div ucast b) :: u32)
      = (min (unat n * unat b) r div unat b) mod 2 ^ 32"
    using m by (simp add: unat_ucast_u64_u32 unat_div_word nb unat_of_nat)
  also have "\<dots> = min (unat n) (r div unat b)"
    using assms(1,3) lt by (simp add: min_mult_div)
  finally show ?thesis
    using lt by (intro word_unat_eq_iff [THEN iffD2]) (simp only: unat_of_nat, simp)
qed

lemma ma_pcm_rb_acquire_read_ok:
  assumes wf: "pcm_wf p" and n: "unat n * pcm_bpf p < 2 ^ 32"
  shows "ma_pcm_rb_acquire_read (Some p) (Some n) (Some q) = (MA_SUCCESS,
    Some (of_nat (min (unat n) (pcm_readable p))), Some (Some (ma_rb__get_read_ptr (pcm_rb p))))"
proof -
  have r: "rb_wf (pcm_rb p)" using wf by (simp add: pcm_wf_def)
  have "rb_readable (pcm_rb p) < 2 ^ 32"
    using rb_readable_le [OF r] length_rb_contents_le [OF r] r by (simp add: rb_wf_def)
  then show ?thesis
    using frames_of_granted [OF _ n [unfolded pcm_bpf_def] pcm_divides(1) [OF wf, unfolded pcm_bpf_def]] wf
    by (simp add: ma_pcm_rb_acquire_read_def ma_rb_acquire_read_ok [OF r] pcm_readable_def pcm_bpf_def pcm_wf_def)
qed

lemma ma_pcm_rb_acquire_write_ok:
  assumes wf: "pcm_wf p" and n: "unat n * pcm_bpf p < 2 ^ 32"
  shows "ma_pcm_rb_acquire_write (Some p) n (Some q) = (MA_SUCCESS,
    of_nat (min (unat n) (pcm_writable p)), Some (Some (ma_rb__get_write_ptr (pcm_rb p))), Some p)"
proof -
  have r: "rb_wf (pcm_rb p)" "\<not> clearOnWriteAcquire (pcm_rb p)" using wf by (simp_all add: pcm_wf_def)
  have "rb_writable (pcm_rb p) < 2 ^ 32"
    using rb_region_bounds(2) [OF r(1)] r(1) by (simp add: rb_wf_def)
  then show ?thesis
    using frames_of_granted [OF _ n [unfolded pcm_bpf_def] pcm_divides(2) [OF wf, unfolded pcm_bpf_def]] wf
    by (simp add: ma_pcm_rb_acquire_write_def ma_rb_acquire_write_ok [OF r] pcm_writable_def pcm_bpf_def pcm_wf_def)
qed

lemma pcm_region_bytes:
  assumes "pcm_wf p"
  shows "k \<le> pcm_readable p \<Longrightarrow> rb_rd (pcm_rb p) + k * pcm_bpf p \<le> rb_cap (pcm_rb p)"
    "k \<le> pcm_writable p \<Longrightarrow> rb_wr (pcm_rb p) + k * pcm_bpf p \<le> rb_cap (pcm_rb p)"
    "rb_cap (pcm_rb p) < 2 ^ 31"
proof -
  have r: "rb_wf (pcm_rb p)" using assms by (simp add: pcm_wf_def)
  note b = rb_region_bounds(1,2) [OF r] pcm_grant(1,2) [OF assms, of k]
  show "rb_rd (pcm_rb p) + k * pcm_bpf p \<le> rb_cap (pcm_rb p)" if "k \<le> pcm_readable p"
    using that b by linarith
  show "rb_wr (pcm_rb p) + k * pcm_bpf p \<le> rb_cap (pcm_rb p)" if "k \<le> pcm_writable p"
    using that b by linarith
  show "rb_cap (pcm_rb p) < 2 ^ 31" using r by (simp add: rb_wf_def)
qed

lemma ma_pcm_rb_commit_read_ok:
  assumes wf: "pcm_wf p" and n: "unat n \<le> pcm_readable p"
  shows "ma_pcm_rb_commit_read (Some p) n = (MA_SUCCESS, Some (pcm_consume p (unat n)))"
proof -
  have "unat n * pcm_bpf p < 2 ^ 32" using pcm_region_bytes(1) [OF wf n] pcm_region_bytes(3) [OF wf] by simp
  then have u: "unat (ucast (n * ma_pcm_rb_get_bpf p) :: u64) = unat n * pcm_bpf p"
    by (simp add: pcm_bpf_def unat_mult_lt)
  then show ?thesis
    using pcm_region_bytes(1) [OF wf n]
    by (simp add: ma_pcm_rb_commit_read_def ma_rb_commit_read_ok pcm_consume_def del: unat_ucast_u32_u64)
qed

lemma ma_pcm_rb_commit_write_ok:
  assumes wf: "pcm_wf p" and n: "unat n \<le> pcm_writable p"
    and m: "length m = length (pBuffer (pcm_rb p))"
  shows "ma_pcm_rb_commit_write (Some (p\<lparr>pcm_rb := (pcm_rb p)\<lparr>pBuffer := m\<rparr>\<rparr>)) n
    = (MA_SUCCESS, Some (p\<lparr>pcm_rb := rb_advance_write ((pcm_rb p)\<lparr>pBuffer := m\<rparr>) (unat n * pcm_bpf p)\<rparr>))"
proof -
  have "unat n * pcm_bpf p < 2 ^ 32" using pcm_region_bytes(2) [OF wf n] pcm_region_bytes(3) [OF wf] by simp
  then have u: "unat (ucast (n * ma_pcm_rb_get_bpf (p\<lparr>pcm_rb := r\<rparr>)) :: u64) = unat n * pcm_bpf p" for r
    by (simp add: pcm_bpf_def unat_mult_lt ma_pcm_rb_get_bpf_def)
  have "rb_wr ((pcm_rb p)\<lparr>pBuffer := m\<rparr>) = rb_wr (pcm_rb p)" by (simp add: rb_wr_def offset_defs)
  then show ?thesis
    using pcm_region_bytes(2) [OF wf n] u
    by (simp add: ma_pcm_rb_commit_write_def ma_rb_commit_write_ok del: unat_ucast_u32_u64)
qed

lemma ma_pcm_rb_available_ok:
  assumes wf: "pcm_wf p"
  shows "unat (ma_pcm_rb_available_read (Some p)) = length (pcm_contents p)"
    "unat (ma_pcm_rb_available_write (Some p)) = pcm_cap p - length (pcm_contents p)"
proof -
  have r: "rb_wf (pcm_rb p)" and b: "0 < pcm_bpf p" using wf by (simp_all add: pcm_wf_def)
  show "unat (ma_pcm_rb_available_read (Some p)) = length (pcm_contents p)"
    using b pcm_grant(3) [OF wf]
    by (simp add: ma_pcm_rb_available_read_def unat_div_word unat_available_read [OF r] flip: pcm_bpf_def)
      (metis nonzero_mult_div_cancel_right not_gr_zero)
  have "rb_cap (pcm_rb p) - length (rb_contents (pcm_rb p)) = (pcm_cap p - length (pcm_contents p)) * pcm_bpf p"
    by (simp add: diff_mult_distrib pcm_grant(3,4) [OF wf])
  then show "unat (ma_pcm_rb_available_write (Some p)) = pcm_cap p - length (pcm_contents p)"
    using b by (simp add: ma_pcm_rb_available_write_def unat_div_word unat_available_write [OF r] flip: pcm_bpf_def)
qed

subsection \<open>Initialisation\<close>

definition pcm_fresh :: "nat \<Rightarrow> ma_format \<Rightarrow> u32 \<Rightarrow> ma_pcm_rb \<Rightarrow> bool" where
  "pcm_fresh frames fmt chs p \<longleftrightarrow> pcm_wf p \<and> pcm_contents p = [] \<and> pcm_cap p = frames
     \<and> pcm_format p = fmt \<and> pcm_channels p = chs
     \<and> rb_fresh (of_nat (frames * unat (ma_get_bytes_per_frame fmt chs))) (pcm_rb p)"

lemma ma_pcm_rb_init_ok:
  assumes b: "0 < unat (ma_get_bytes_per_frame fmt chs)" and f: "0 < unat frames"
    and sz: "unat frames * unat (ma_get_bytes_per_frame fmt chs) \<le> 0x7FFFFFE0"
    and alloc: "c_malloc sys (of_nat ((unat frames * unat (ma_get_bytes_per_frame fmt chs) + 31) div 32 * 32 + 39))
      = Some addr"
  shows "\<exists>p'. ma_pcm_rb_init sys fmt chs frames NULL NULL (Some p) = (MA_SUCCESS, Some p')
    \<and> pcm_fresh (unat frames) fmt chs p'"
proof -
  let ?bpf = "ma_get_bytes_per_frame fmt chs"
  let ?sz = "ucast (frames * ?bpf) :: u64"
  have usz: "unat ?sz = unat frames * unat ?bpf"
    using sz by (simp add: unat_mult_lt)
  have pos: "0 < unat ?sz" unfolding usz using b f by simp
  obtain rb' where rb': "ma_rb_init sys ?sz NULL NULL (Some zero_rb) = (MA_SUCCESS, Some rb')" "rb_fresh ?sz rb'"
    using ma_rb_init_ok [OF pos, of sys addr zero_rb] sz alloc unfolding usz by blast
  define p' where "p' = zero_pcm_rb\<lparr>pcm_rb := rb', pcm_format := fmt, pcm_channels := chs, pcm_sampleRate := 0,
    pcm_ds := zero_ds\<lparr>ds_vtable := Some ma_gRBDataSourceVTable, rangeEndInFrames := NOT 0,
      loopEndInFrames := NOT 0\<rparr>\<rparr>"
  have "?bpf \<noteq> 0" using b by auto
  then have "ma_pcm_rb_init sys fmt chs frames NULL NULL (Some p) = (MA_SUCCESS, Some p')"
    using rb'(1)
    by (simp add: ma_pcm_rb_init_def ma_pcm_rb_init_ex_def Let_def ma_rb_init_def ma_data_source_init_def
      zero_pcm_rb_def p'_def zero_ds_def)
  moreover have "rb_fresh (of_nat (unat frames * unat ?bpf)) rb'"
    using rb'(2) unfolding usz [symmetric] by simp
  then have "pcm_fresh (unat frames) fmt chs p'"
    using b rb'(2) usz
    by (simp add: pcm_fresh_def p'_def pcm_wf_def pcm_contents_def pcm_cap_def pcm_bpf_def
      ma_pcm_rb_get_bpf_def rb_fresh_def zero_pcm_rb_def)
  ultimately show ?thesis by blast
qed

section \<open>Reading as a data source\<close>

definition ma_silence_pcm_frames :: "u64 \<Rightarrow> ma_format \<Rightarrow> u32 \<Rightarrow> u8 list" where
  "ma_silence_pcm_frames frameCount fmt chs =
     (if fmt = ma_format_u8 then replicate (unat (frameCount * ucast chs)) 128
      else replicate (unat (frameCount * ucast (ma_get_bytes_per_frame fmt chs))) 0)"

lemma on_read_progress:
  fixes frameCount totalRead x :: u64
  assumes "totalRead < frameCount"
    and "(res, m, b) = ma_pcm_rb_acquire_read (Some p) (Some (ucast x)) q" "the m \<noteq> 0"
    and "x \<le> frameCount - totalRead"
  shows "unat frameCount - unat (totalRead + ucast (the m)) < unat frameCount - unat totalRead"
    "unat (totalRead + ucast (the m)) = unat totalRead + unat (the m)"
proof -
  obtain k where k: "m = Some k" "unat k \<le> unat (ucast x :: u32)"
    using ma_pcm_rb_acquire_read_le [OF assms(2) [symmetric]] by blast
  have "unat (ucast x :: u32) \<le> unat x" by (simp add: unat_ucast_u64_u32)
  also have "unat x \<le> unat frameCount - unat totalRead"
    using assms(4) unat_diff_le [OF less_imp_le [OF assms(1)]] by (simp add: word_le_nat_alt)
  finally have le: "unat k \<le> unat frameCount - unat totalRead" using k(2) by simp
  have lt: "unat totalRead < unat frameCount" using assms(1) by (simp add: word_less_nat_alt)
  have "unat totalRead + unat k \<le> unat frameCount" using le lt by simp
  also have "\<dots> < 2 ^ 64" by simp
  finally show s: "unat (totalRead + ucast (the m)) = unat totalRead + unat (the m)"
    by (simp add: k(1) unat_add_lt)
  have "0 < unat k" using assms(3) k(1) by (simp add: unat_gt_0)
  then show "unat frameCount - unat (totalRead + ucast (the m)) < unat frameCount - unat totalRead"
    unfolding s using le lt k(1) by simp
qed

text \<open>The loop of \<open>ma_pcm_rb_data_source__on_read\<close>: the frames read so far, the output
  memory and the ring. The output offset and the copy length are 64-bit products.\<close>

function pcm_on_read_loop :: "ma_pcm_rb \<Rightarrow> u64 \<Rightarrow> u64 \<Rightarrow> u8 list \<Rightarrow> u64 \<times> u8 list \<times> ma_pcm_rb" where
  "pcm_on_read_loop p frameCount totalRead out =
     (if totalRead < frameCount
      then let framesToRead = (if frameCount - totalRead > 0xFFFFFFFF then 0xFFFFFFFF else frameCount - totalRead)
      in case ma_pcm_rb_acquire_read (Some p) (Some (ucast framesToRead)) (Some NULL) of
        (result, mapped, mappedBuffer) \<Rightarrow>
          if result \<noteq> MA_SUCCESS then (totalRead, out, p)
          else if the mapped = 0 then (totalRead, out, p)
          else let bpf = ucast (ma_pcm_rb_get_bpf p) :: u64;
                   out' = mem_write out (unat (totalRead * bpf))
                     (mem_read (pBuffer (pcm_rb p)) (unat (the (the mappedBuffer))) (unat (ucast (the mapped) * bpf)))
               in case ma_pcm_rb_commit_read (Some p) (the mapped) of
                 (result, p') \<Rightarrow>
                   if result \<noteq> MA_SUCCESS then (totalRead, out', the p')
                   else pcm_on_read_loop (the p') frameCount (totalRead + ucast (the mapped)) out'
      else (totalRead, out, p))"
  by pat_completeness auto
termination
proof (relation "measure (\<lambda>(p, n, totalRead, out). unat n - unat totalRead)", goal_cases)
  case (2 p frameCount totalRead out x xa y xb ya xc xd xe yb)
  have "(xa, xb, ya) = ma_pcm_rb_acquire_read (Some p) (Some (ucast x)) (Some NULL)"
    using 2(3,4) by simp
  moreover have "x \<le> frameCount - totalRead"
    unfolding 2(2) by (simp add: word_le_nat_alt word_less_nat_alt)
  ultimately show ?case
    using on_read_progress(1) [OF 2(1)] 2(6) by simp
qed simp

declare pcm_on_read_loop.simps [simp del]

definition ma_pcm_rb_data_source__on_read ::
  "ma_pcm_rb \<Rightarrow> u8 list \<Rightarrow> u64 \<Rightarrow> ma_result \<times> u8 list \<times> u64 \<times> ma_pcm_rb" where
  "ma_pcm_rb_data_source__on_read p pFramesOut frameCount =
     (case pcm_on_read_loop p frameCount 0 pFramesOut of
        (totalFramesRead, out, p') \<Rightarrow>
          if totalFramesRead < frameCount
          then (MA_SUCCESS,
                mem_write out (unat (totalFramesRead * ucast (ma_pcm_rb_get_bpf p')))
                  (ma_silence_pcm_frames (frameCount - totalFramesRead) (pcm_format p') (pcm_channels p')),
                frameCount, p')
          else (MA_SUCCESS, out, totalFramesRead, p'))"

lemma pcm_bytes_of_peek:
  assumes wf: "pcm_wf p" and k: "k \<le> pcm_readable p"
  shows "mem_read (pBuffer (pcm_rb p)) (rb_rd (pcm_rb p)) (k * pcm_bpf p) = concat (take k (pcm_contents p))"
    "length (concat (take k (pcm_contents p))) = k * pcm_bpf p"
proof -
  have r: "rb_wf (pcm_rb p)" and b: "0 < pcm_bpf p" using wf by (simp_all add: pcm_wf_def)
  have kb: "k * pcm_bpf p \<le> rb_readable (pcm_rb p)" using k pcm_grant(1) [OF wf] by simp
  have e: "concat (take k (pcm_contents p)) = take (k * pcm_bpf p) (rb_contents (pcm_rb p))"
    using b by (simp add: pcm_contents_def concat_chunks flip: chunks_take)
  then show "mem_read (pBuffer (pcm_rb p)) (rb_rd (pcm_rb p)) (k * pcm_bpf p) = concat (take k (pcm_contents p))"
    using rb_read_region [OF r kb] by simp
  show "length (concat (take k (pcm_contents p))) = k * pcm_bpf p"
    unfolding e using kb rb_readable_le [OF r] by simp
qed

lemma on_read_request:
  assumes "pcm_wf p" "unat n * pcm_bpf p < 2 ^ 32" "t < n"
  defines "x \<equiv> (if n - t > 0xFFFFFFFF then 0xFFFFFFFF else n - t) :: u64"
  shows "unat (ucast x :: u32) = unat n - unat t" "(unat n - unat t) * pcm_bpf p < 2 ^ 32" "unat n < 2 ^ 32"
proof -
  have b: "1 \<le> pcm_bpf p" using assms(1) by (simp add: pcm_wf_def)
  show n: "unat n < 2 ^ 32" using le_less_trans [OF mult_le_mono2 [OF b, of "unat n"]] assms(2) by simp
  have d: "unat (n - t) = unat n - unat t" by (rule unat_diff_le [OF less_imp_le [OF assms(3)]])
  have "\<not> 0xFFFFFFFF < n - t" using n d by (simp add: word_less_nat_alt)
  then have "x = n - t" by (simp add: x_def)
  then show "unat (ucast x :: u32) = unat n - unat t" using n by (simp add: unat_ucast_u64_u32 d)
  show "(unat n - unat t) * pcm_bpf p < 2 ^ 32"
    using le_less_trans [OF mult_le_mono1 assms(2)] by simp
qed

lemma pcm_on_read_step:
  assumes wf: "pcm_wf p" and n: "unat n * pcm_bpf p < 2 ^ 32" and t: "t < n"
  defines "k \<equiv> min (unat n - unat t) (pcm_readable p)"
  shows "k = 0 \<Longrightarrow> pcm_on_read_loop p n t out = (t, out, p)"
    "0 < k \<Longrightarrow> pcm_on_read_loop p n t out = pcm_on_read_loop (pcm_consume p k) n (t + of_nat k)
       (mem_write out (unat t * pcm_bpf p) (concat (take k (pcm_contents p))))"
proof -
  note rq = on_read_request [OF wf n t]
  let ?x = "(if n - t > 0xFFFFFFFF then 0xFFFFFFFF else n - t) :: u64"
  have acq: "ma_pcm_rb_acquire_read (Some p) (Some (ucast ?x)) (Some NULL) = (MA_SUCCESS, Some (of_nat k),
      Some (Some (ma_rb__get_read_ptr (pcm_rb p))))"
    using ma_pcm_rb_acquire_read_ok [OF wf, of "ucast ?x" NULL] rq(1,2) by (simp only: k_def)
  have k32: "k < 2 ^ 32" using rq(3) by (simp add: k_def)
  then have uk: "unat (of_nat k :: u32) = k" by (simp add: unat_of_nat)
  then have zero: "(of_nat k :: u32) = 0 \<longleftrightarrow> k = 0" by (metis unat_0 unat_eq_zero)
  show "pcm_on_read_loop p n t out = (t, out, p)" if "k = 0"
    using t acq zero that by (subst pcm_on_read_loop.simps) (simp add: Let_def)
  have "unat t * pcm_bpf p \<le> unat n * pcm_bpf p"
    using t by (intro mult_le_mono1) (simp add: word_less_nat_alt)
  also have "\<dots> < 2 ^ 64" using n by simp
  finally have ut: "unat (t * ucast (ma_pcm_rb_get_bpf p)) = unat t * pcm_bpf p"
    by (subst unat_mult_lt) (simp_all add: pcm_bpf_def)
  have "k * pcm_bpf p \<le> (unat n - unat t) * pcm_bpf p" by (simp add: k_def)
  also have "\<dots> < 2 ^ 64" using rq(2) by simp
  finally have ub: "unat (ucast (of_nat k :: u32) * ucast (ma_pcm_rb_get_bpf p) :: u64) = k * pcm_bpf p"
    using uk by (subst unat_mult_lt) (simp_all add: pcm_bpf_def)
  have com: "ma_pcm_rb_commit_read (Some p) (of_nat k) = (MA_SUCCESS, Some (pcm_consume p k))"
    using ma_pcm_rb_commit_read_ok [OF wf, of "of_nat k"] uk by (simp add: k_def)
  have data: "mem_read (pBuffer (pcm_rb p)) (unat (ma_rb__get_read_ptr (pcm_rb p))) (k * pcm_bpf p)
      = concat (take k (pcm_contents p))"
    using pcm_bytes_of_peek(1) [OF wf, of k] by (simp add: k_def rb_rd_def)
  show "pcm_on_read_loop p n t out = pcm_on_read_loop (pcm_consume p k) n (t + of_nat k)
       (mem_write out (unat t * pcm_bpf p) (concat (take k (pcm_contents p))))" if "0 < k"
  proof -
    have "(ucast (of_nat k :: u32) :: u64) = of_nat k"
      using k32 uk by (intro word_unat_eq_iff [THEN iffD2]) (simp add: unat_of_nat)
    then show ?thesis
      using t zero that ub
      by (subst pcm_on_read_loop.simps) (simp add: Let_def acq com ut data)
  qed
qed

text \<open>The loop moves whole frames, oldest first, until the request is met or the ring is
  empty; the rest of the output is untouched.\<close>

lemma pcm_on_read_loop_spec:
  assumes "pcm_wf p" "unat n * pcm_bpf p < 2 ^ 32" "length out = unat n * pcm_bpf p" "unat t \<le> unat n"
  shows "\<exists>t' p'. pcm_on_read_loop p n t out = (t', take (unat t * pcm_bpf p) out
        @ concat (take (unat n - unat t) (pcm_contents p)) @ drop (unat t' * pcm_bpf p) out, p')
     \<and> unat t' = unat t + min (unat n - unat t) (length (pcm_contents p))
     \<and> pcm_wf p' \<and> pcm_contents p' = drop (unat n - unat t) (pcm_contents p)
     \<and> pcm_format p' = pcm_format p \<and> pcm_channels p' = pcm_channels p"
  using assms
proof (induction "unat n - unat t" arbitrary: p t out rule: less_induct)
  case less
  let ?b = "pcm_bpf p" and ?k = "min (unat n - unat t) (pcm_readable p)" and ?c = "pcm_contents p"
  show ?case
  proof (cases "0 < ?k")
    case False
    have d: "unat n = unat t \<or> ?c = []"
      using False less.prems(4) frame_ring.readable_0 [OF less.prems(1)]
      by (auto simp: min_def split: if_splits)
    have "pcm_on_read_loop p n t out = (t, out, p)"
    proof (cases "t < n")
      case True
      have "?k = 0" using False by (simp only: not_gr0)
      then show ?thesis by (rule pcm_on_read_step(1) [OF less.prems(1,2) True])
    qed (subst pcm_on_read_loop.simps, simp)
    then show ?thesis using d less.prems(1) by auto
  next
    case True
    then have t: "t < n" by (simp add: word_less_nat_alt)
    obtain k where k: "k = ?k" by blast
    have kt: "k \<le> unat n - unat t" and kr: "k \<le> pcm_readable p" and k0: "0 < k" using True by (simp_all add: k)
    let ?p = "pcm_consume p k" and ?t = "t + of_nat k" and ?new = "concat (take k ?c)"
    let ?out = "mem_write out (unat t * ?b) ?new"
    note con = pcm_consume_ok [OF less.prems(1) kr] and len = pcm_bytes_of_peek(2) [OF less.prems(1) kr]
    have step: "pcm_on_read_loop p n t out = pcm_on_read_loop ?p n ?t ?out"
      unfolding k by (rule pcm_on_read_step(2) [OF less.prems(1,2) t True])
    have ut: "unat ?t = unat t + k"
      using on_read_request(3) [OF less.prems(1,2) t] less.prems(4) kt by (subst unat_add_lt) (auto simp: unat_of_nat)
    have "(unat t + k) * ?b \<le> unat n * ?b" using kt less.prems(4) by (intro mult_le_mono1) simp
    then have bound: "unat t * ?b + length ?new \<le> length out"
      unfolding len less.prems(3) by (simp only: add_mult_distrib)
    have tn: "unat ?t \<le> unat n" "unat n - unat ?t < unat n - unat t"
      unfolding ut using kt k0 less.prems(4) by simp_all
    have "unat n * pcm_bpf ?p < 2 ^ 32" "length ?out = unat n * pcm_bpf ?p"
      using less.prems(2,3) length_mem_write [OF bound] by simp_all
    from less.hyps [OF tn(2) con(1) this tn(1)]
    obtain t' p' where ih: "pcm_on_read_loop ?p n ?t ?out = (t', take (unat ?t * ?b) ?out
        @ concat (take (unat n - unat ?t) (drop k ?c)) @ drop (unat t' * ?b) ?out, p')"
      "unat t' = unat ?t + min (unat n - unat ?t) (length (drop k ?c))" "pcm_wf p'"
      "pcm_contents p' = drop (unat n - unat ?t) (drop k ?c)"
      "pcm_format p' = pcm_format ?p" "pcm_channels p' = pcm_channels ?p"
      unfolding con(2) pcm_bpf_simps by blast
    have "unat t * ?b + k * ?b \<le> unat t' * ?b"
      using ih(2) unfolding ut by (simp flip: add_mult_distrib)
    with mem_write_split [OF bound]
    have w: "take (unat ?t * ?b) ?out = take (unat t * ?b) out @ ?new"
      "drop (unat t' * ?b) ?out = drop (unat t' * ?b) out"
      unfolding ut len by (simp_all only: add_mult_distrib)
    have nt: "unat n - unat t = k + (unat n - unat ?t)" using kt unfolding ut by simp
    have c: "?new @ concat (take (unat n - unat ?t) (drop k ?c)) = concat (take (unat n - unat t) ?c)"
      unfolding nt by (simp only: take_add concat_append)
    have "k \<le> length ?c" using kr frame_ring.readable_le [OF less.prems(1)] by simp
    then have "unat t' = unat t + min (unat n - unat t) (length ?c)"
      using ih(2) kt less.prems(4) unfolding ut length_drop by linarith
    moreover have "pcm_contents p' = drop (unat n - unat t) ?c"
      using ih(4) unfolding nt by (simp only: drop_drop add.commute)
    moreover have "pcm_on_read_loop p n t out
        = (t', take (unat t * ?b) out @ concat (take (unat n - unat t) ?c) @ drop (unat t' * ?b) out, p')"
      unfolding step ih(1) w c [symmetric] by simp
    ultimately show ?thesis using ih(3,5,6) by (auto simp: pcm_consume_def)
  qed
qed

lemma frame_ring_concat:
  assumes "pcm_wf p"
  shows "length (concat (take k (pcm_contents p))) = min k (length (pcm_contents p)) * pcm_bpf p"
proof -
  have d: "0 < pcm_bpf p" "pcm_bpf p dvd length (rb_contents (pcm_rb p))"
    using assms pcm_divides(3) [OF assms] by (simp_all add: pcm_wf_def)
  have "concat (take k (pcm_contents p)) = take (k * pcm_bpf p) (rb_contents (pcm_rb p))"
    using d(1) by (simp add: pcm_contents_def concat_chunks flip: chunks_take)
  then show ?thesis
    using pcm_grant(3) [OF assms] by (simp only: min.commute nat_mult_min_left length_take)
qed

lemma length_silence:
  assumes "unat n * unat (ma_get_bytes_per_frame fmt chs) < 2 ^ 32"
  shows "length (ma_silence_pcm_frames n fmt chs) = unat n * unat (ma_get_bytes_per_frame fmt chs)"
proof -
  have "fmt = ma_format_u8 \<Longrightarrow> ma_get_bytes_per_frame fmt chs = chs"
    by (simp add: ma_get_bytes_per_frame_def)
  then show ?thesis
    using assms by (auto simp: ma_silence_pcm_frames_def unat_mult_lt)
qed

lemma pcm_on_read_ok:
  assumes wf: "pcm_wf p" and n: "unat n * pcm_bpf p < 2 ^ 32" and out: "length out = unat n * pcm_bpf p"
  shows "\<exists>p'. ma_pcm_rb_data_source__on_read p out n = (MA_SUCCESS,
      concat (take (unat n) (pcm_contents p))
        @ ma_silence_pcm_frames (n - of_nat (min (unat n) (length (pcm_contents p)))) (pcm_format p) (pcm_channels p),
      n, p')
    \<and> pcm_wf p' \<and> pcm_contents p' = drop (unat n) (pcm_contents p)"
proof -
  let ?c = "pcm_contents p" and ?m = "min (unat n) (length (pcm_contents p))"
  obtain t' p' where l: "pcm_on_read_loop p n 0 out
      = (t', concat (take (unat n) ?c) @ drop (unat t' * pcm_bpf p) out, p')"
    "unat t' = ?m" "pcm_wf p'" "pcm_contents p' = drop (unat n) ?c"
    "pcm_format p' = pcm_format p" "pcm_channels p' = pcm_channels p"
    using pcm_on_read_loop_spec [OF wf n out, of 0] by auto
  have bpf: "ma_pcm_rb_get_bpf p' = ma_pcm_rb_get_bpf p" using l(5,6) by (simp add: ma_pcm_rb_get_bpf_def)
  have t': "t' = of_nat ?m" using l(2) by (metis of_nat_unat ucast_id)
  show ?thesis
  proof (cases "t' < n")
    case False
    then have "unat t' = unat n" using l(2) by (simp add: word_less_nat_alt)
    moreover from this have "t' = n" by (simp add: word_unat_eq_iff)
    ultimately show ?thesis
      using l out by (simp add: ma_pcm_rb_data_source__on_read_def t' [symmetric] ma_silence_pcm_frames_def)
  next
    case True
    have ud: "unat (n - t') = unat n - unat t'" by (rule unat_diff_le [OF less_imp_le [OF True]])
    have "(unat n - unat t') * pcm_bpf p < 2 ^ 32" using le_less_trans [OF mult_le_mono1 n] by simp
    then have ls: "length (ma_silence_pcm_frames (n - t') (pcm_format p) (pcm_channels p))
        = (unat n - unat t') * pcm_bpf p"
      using length_silence [of "n - t'" "pcm_format p" "pcm_channels p"] ud
      by (simp add: pcm_bpf_def ma_pcm_rb_get_bpf_def)
    have "unat t' * pcm_bpf p \<le> unat n * pcm_bpf p" using True by (intro mult_le_mono1) (simp add: word_less_nat_alt)
    also have "\<dots> < 2 ^ 64" using n by simp
    finally have off: "unat (t' * ucast (ma_pcm_rb_get_bpf p) :: u64) = unat t' * pcm_bpf p"
      by (subst unat_mult_lt) (simp_all add: pcm_bpf_def)
    have lc: "length (concat (take (unat n) ?c)) = unat t' * pcm_bpf p"
      using True l(2) frame_ring_concat [OF wf, of "unat n"] by (simp add: word_less_nat_alt min_def)
    have "ma_pcm_rb_data_source__on_read p out n = (MA_SUCCESS, concat (take (unat n) ?c)
        @ ma_silence_pcm_frames (n - t') (pcm_format p) (pcm_channels p), n, p')"
      using True l(1,5,6) out lc ls
      by (simp add: ma_pcm_rb_data_source__on_read_def bpf off mem_write_def diff_mult_distrib)
    with l(3,4) show ?thesis unfolding t' [symmetric] by blast
  qed
qed

section \<open>The duplex ring\<close>

text \<open>The products are 64 bits wide; the quotient and the remainder of the two rates are
  taken at 32 bits and then widened.\<close>

definition ma_calculate_frame_count_after_resampling :: "u32 \<Rightarrow> u32 \<Rightarrow> u64 \<Rightarrow> u64" where
  "ma_calculate_frame_count_after_resampling sampleRateOut sampleRateIn frameCountIn =
     (if sampleRateIn = 0 \<or> sampleRateOut = 0 \<or> frameCountIn = 0 then 0
      else if sampleRateOut = sampleRateIn then frameCountIn
      else let outputFrameCount = (frameCountIn * ucast sampleRateOut) div ucast sampleRateIn;
               preliminaryInputFrameCountFromFrac =
                 (outputFrameCount * ucast (sampleRateIn div sampleRateOut)) div ucast sampleRateOut;
               preliminaryInputFrameCount =
                 (outputFrameCount * ucast (sampleRateIn mod sampleRateOut)) + preliminaryInputFrameCountFromFrac
           in if preliminaryInputFrameCount \<le> frameCountIn then outputFrameCount + 1 else outputFrameCount)"

definition ma_duplex_rb_init :: "libc \<Rightarrow> ma_format \<Rightarrow> u32 \<Rightarrow> u32 \<Rightarrow> u32 \<Rightarrow> u32
    \<Rightarrow> ma_allocation_callbacks ptr \<Rightarrow> ma_pcm_rb ptr \<Rightarrow> ma_result \<times> ma_pcm_rb ptr" where
  "ma_duplex_rb_init sys captureFormat captureChannels sampleRate captureInternalSampleRate
       captureInternalPeriodSizeInFrames cb pRB =
     (let sizeInFrames = ucast (ma_calculate_frame_count_after_resampling sampleRate
             captureInternalSampleRate (ucast (captureInternalPeriodSizeInFrames * 5))) :: u32
      in if sizeInFrames = 0 then (MA_INVALID_ARGS, pRB)
         else case ma_pcm_rb_init sys captureFormat captureChannels sizeInFrames NULL cb pRB of
           (result, pRB') \<Rightarrow>
             if result \<noteq> MA_SUCCESS then (result, pRB')
             else (MA_SUCCESS, snd (ma_pcm_rb_seek_write pRB' (captureInternalPeriodSizeInFrames * 2))))"

definition ma_duplex_rb_uninit :: "ma_pcm_rb ptr \<Rightarrow> ma_result \<times> bool" where
  "ma_duplex_rb_uninit pRB = (MA_SUCCESS, ma_pcm_rb_uninit pRB)"

lemma calculate_same_rate: "r \<noteq> 0 \<Longrightarrow> ma_calculate_frame_count_after_resampling r r n = n"
  by (simp add: ma_calculate_frame_count_after_resampling_def)

definition rb_move_write :: "ma_rb \<Rightarrow> u32 \<Rightarrow> bool \<Rightarrow> ma_rb" where
  "rb_move_write rb off turn = rb\<lparr>encodedWriteOffset := ma_rb__construct_offset off
     (if turn then ma_rb__extract_offset_loop_flag (encodedWriteOffset rb) XOR 0x80000000
      else ma_rb__extract_offset_loop_flag (encodedWriteOffset rb))\<rparr>"

lemma rb_move_write_view:
  assumes "unat off < 2 ^ 31"
  shows "rb_wr (rb_move_write rb off turn) = unat off" "rb_rd (rb_move_write rb off turn) = rb_rd rb"
    "rb_cap (rb_move_write rb off turn) = rb_cap rb" "rb_same (rb_move_write rb off turn) = (rb_same rb \<noteq> turn)"
    "pBuffer (rb_move_write rb off turn) = pBuffer rb"
    "clearOnWriteAcquire (rb_move_write rb off turn) = clearOnWriteAcquire rb"
  using assms and_bit31_cases [of "encodedWriteOffset rb"] and_bit31_toggle(2) [of "encodedWriteOffset rb"]
  by (auto simp: rb_move_write_def rb_rd_def rb_wr_def rb_cap_def rb_same_def offset_defs
    or_and_low31 or_and_bit31 eq_toggle_iff)

lemma ma_rb_seek_write_same:
  assumes wf: "rb_wf rb" and same: "rb_same rb" and off: "unat off < 2 ^ 31"
  shows "\<exists>new. unat new = (if rb_cap rb \<le> rb_wr rb + unat off then rb_wr rb + unat off - rb_cap rb
           else rb_wr rb + unat off)
     \<and> ma_rb_seek_write (Some rb) off = (MA_SUCCESS, Some (rb_move_write rb new (rb_cap rb \<le> rb_wr rb + unat off)))"
proof -
  let ?sum = "ucast (ma_rb__get_write_ptr rb) + off :: u64" and ?S = "subbufferSizeInBytes rb"
  have lt: "rb_wr rb + unat off < 2 ^ 32" using wf off by (simp add: rb_wf_def)
  have s: "unat ?sum = rb_wr rb + unat off"
    using lt by (subst unat_add_lt) (simp_all add: rb_wr_def)
  have s': "unat (ucast ?sum :: u32) = rb_wr rb + unat off"
    using lt by (simp add: unat_ucast_u64_u32 s)
  have br: "(ucast ?S \<le> ?sum) = (rb_cap rb \<le> rb_wr rb + unat off)"
    using s by (simp add: word_le_nat_alt rb_cap_def)
  let ?new = "if rb_cap rb \<le> rb_wr rb + unat off then ucast ?sum - ?S else ucast ?sum :: u32"
  have "unat ?new = (if rb_cap rb \<le> rb_wr rb + unat off then rb_wr rb + unat off - rb_cap rb
           else rb_wr rb + unat off)"
    using s' by (simp add: unat_diff_le word_le_nat_alt rb_cap_def)
  moreover have "ma_rb_seek_write (Some rb) off
      = (MA_SUCCESS, Some (rb_move_write rb ?new (rb_cap rb \<le> rb_wr rb + unat off)))"
    using br same by (auto simp: ma_rb_seek_write_def ma_rb__deconstruct_offset_def Let_def rb_same_def
      rb_move_write_def ma_rb__get_write_ptr_def)
  ultimately show ?thesis by blast
qed


lemma chunks_replicate: "0 < n \<Longrightarrow> chunks n (replicate (k * n) x) = replicate k (replicate n x)"
proof (induction k)
  case (Suc k)
  then show ?case
    using chunks_append [of n "replicate n x" "replicate (k * n) x"] chunks_concat [of n "[replicate n x]"]
    by (simp add: replicate_add)
qed simp

lemma rb_fresh_seek_write:
  assumes "rb_fresh sz rb" "unat off < rb_cap rb"
  shows "\<exists>rb'. ma_rb_seek_write (Some rb) off = (MA_SUCCESS, Some rb') \<and> rb_wf rb'
    \<and> rb_contents rb' = replicate (unat off) 0 \<and> rb_cap rb' = rb_cap rb \<and> rb_rd rb' = 0 \<and> rb_wr rb' = unat off
    \<and> \<not> clearOnWriteAcquire rb'"
proof -
  have f: "rb_wf rb" "rb_same rb" "rb_wr rb = 0" "rb_rd rb = 0" "\<not> clearOnWriteAcquire rb"
    and z: "pBuffer rb = replicate (length (pBuffer rb)) 0" and l: "rb_cap rb \<le> length (pBuffer rb)"
    using assms(1) by (auto simp: rb_fresh_def rb_wf_def)
  have lt: "unat off < 2 ^ 31" using assms(2) f(1) by (simp add: rb_wf_def)
  from ma_rb_seek_write_same [OF f(1,2) lt] obtain new where new: "unat new = unat off"
    "ma_rb_seek_write (Some rb) off = (MA_SUCCESS, Some (rb_move_write rb new False))"
    using assms(2) f(3) by auto
  have lt': "unat new < 2 ^ 31" using new(1) lt by simp
  note v = rb_move_write_view [OF lt']
  have "rb_wf (rb_move_write rb new False)"
    using f assms(2) new(1) unfolding rb_wf_def v by auto
  moreover have "rb_contents (rb_move_write rb new False) = replicate (unat off) 0"
    using f new(1) assms(2) l unfolding rb_contents_def v mem_read_def by (subst z) (simp add: min_def)
  ultimately show ?thesis
    using new f v by (intro exI [of _ "rb_move_write rb new False"]) simp
qed

lemma ma_duplex_rb_init_ok:
  assumes r: "rate \<noteq> 0" and b: "0 < unat (ma_get_bytes_per_frame fmt chs)" and P: "0 < unat period"
    and sz: "unat period * 5 * unat (ma_get_bytes_per_frame fmt chs) \<le> 0x7FFFFFE0"
    and alloc: "c_malloc sys (of_nat ((unat period * 5 * unat (ma_get_bytes_per_frame fmt chs) + 31) div 32 * 32 + 39))
      = Some addr"
  shows "\<exists>p'. ma_duplex_rb_init sys fmt chs rate rate period NULL (Some p) = (MA_SUCCESS, Some p')
    \<and> pcm_wf p' \<and> pcm_cap p' = 5 * unat period
    \<and> pcm_contents p' = replicate (2 * unat period) (replicate (unat (ma_get_bytes_per_frame fmt chs)) 0)"
proof -
  let ?b = "unat (ma_get_bytes_per_frame fmt chs)"
  have "unat period * 5 \<le> unat period * 5 * ?b" using b by (cases ?b) simp_all
  also note sz
  finally have lt: "unat period * 5 \<le> 0x7FFFFFE0" .
  have u5: "unat (period * 5) = unat period * 5" using lt by (subst unat_mult_lt) simp_all
  have u2: "unat (period * 2) = unat period * 2" using lt by (subst unat_mult_lt) simp_all
  have size: "(ucast (ma_calculate_frame_count_after_resampling rate rate (ucast (period * 5))) :: u32) = period * 5"
    by (simp add: calculate_same_rate [OF r] word_unat_eq_iff unat_ucast_u64_u32)
  have ne: "period * 5 \<noteq> 0" using u5 P by (metis mult_is_0 neq0_conv unat_0 zero_neq_numeral)
  obtain p0 where p0: "ma_pcm_rb_init sys fmt chs (period * 5) NULL NULL (Some p) = (MA_SUCCESS, Some p0)"
    "pcm_fresh (unat (period * 5)) fmt chs p0"
    using ma_pcm_rb_init_ok [OF b, of "period * 5" sys addr p] P sz alloc unfolding u5 by auto
  have fr: "rb_fresh (of_nat (unat period * 5 * ?b)) (pcm_rb p0)" "pcm_bpf p0 = ?b" "pcm_wf p0"
    "pcm_cap p0 = unat period * 5"
    using p0(2) by (simp_all add: pcm_fresh_def u5 pcm_bpf_def ma_pcm_rb_get_bpf_def)
  have cap: "rb_cap (pcm_rb p0) = unat period * 5 * ?b"
    using pcm_grant(4) [OF fr(3)] fr(2,4) by simp
  have off: "unat (ucast (period * 2 * ma_pcm_rb_get_bpf p0) :: u64) = 2 * unat period * ?b"
    using sz u2 fr(2) by (simp add: pcm_bpf_def unat_mult_lt)
  obtain rb' where rb': "ma_rb_seek_write (Some (pcm_rb p0)) (ucast (period * 2 * ma_pcm_rb_get_bpf p0)) = (MA_SUCCESS, Some rb')"
    "rb_wf rb'" "rb_contents rb' = replicate (2 * unat period * ?b) 0" "rb_cap rb' = rb_cap (pcm_rb p0)"
    "rb_rd rb' = 0" "rb_wr rb' = 2 * unat period * ?b" "\<not> clearOnWriteAcquire rb'"
    using rb_fresh_seek_write [OF fr(1), of "ucast (period * 2 * ma_pcm_rb_get_bpf p0)"] P b unfolding off cap by auto
  let ?p = "p0\<lparr>pcm_rb := rb'\<rparr>"
  have "ma_duplex_rb_init sys fmt chs rate rate period NULL (Some p) = (MA_SUCCESS, Some ?p)"
    using p0(1) ne rb'(1) by (simp add: ma_duplex_rb_init_def size Let_def ma_pcm_rb_seek_write_def)
  moreover have "pcm_wf ?p" "pcm_cap ?p = 5 * unat period"
    using rb' fr(2) b by (simp_all add: pcm_wf_def pcm_cap_def cap)
  moreover have "pcm_contents ?p = replicate (2 * unat period) (replicate ?b 0)"
    using rb'(3) fr(2) chunks_replicate [OF b, of "2 * unat period" 0] by (simp add: pcm_contents_def)
  ultimately show ?thesis by blast
qed


text \<open>When the application rate is below two fifths of the internal rate, the ring is smaller
  than the two periods the write cursor is moved: the cursor laps the reader and the ring
  claims more data than it has room for.\<close>

lemma rb_seek_write_laps:
  assumes "rb_fresh sz rb" "rb_cap rb < unat off" "unat off < 2 ^ 31"
  shows "\<exists>rb'. ma_rb_seek_write (Some rb) off = (MA_SUCCESS, Some rb') \<and> rb_cap rb' = rb_cap rb
    \<and> \<not> rb_same rb' \<and> rb_rd rb' < rb_wr rb' \<and> unat (ma_rb_available_read (Some rb')) = unat off"
proof -
  have f: "rb_wf rb" "rb_same rb" "rb_wr rb = 0" "rb_rd rb = 0"
    using assms(1) by (auto simp: rb_fresh_def)
  from ma_rb_seek_write_same [OF f(1,2) assms(3)] obtain new where new: "unat new = unat off - rb_cap rb"
    "ma_rb_seek_write (Some rb) off = (MA_SUCCESS, Some (rb_move_write rb new True))"
    using assms(2) f(3) by auto
  have lt: "unat new < 2 ^ 31" using new(1) assms(3) by simp
  let ?rb = "rb_move_write rb new True"
  note v = rb_move_write_view [OF lt, of rb True]
  have "unat (ma_rb__get_write_ptr ?rb + (subbufferSizeInBytes ?rb - ma_rb__get_read_ptr ?rb)) = unat off"
  proof -
    have "unat (subbufferSizeInBytes ?rb - ma_rb__get_read_ptr ?rb) = rb_cap rb"
      using v(2,3) f(4) unat_eq_zero [of "ma_rb__get_read_ptr ?rb"] by (simp add: rb_cap_def rb_rd_def)
    then show ?thesis using v(1) new(1) assms(2,3) by (subst unat_add_lt) (simp_all add: rb_wr_def)
  qed
  then have d: "unat (ma_rb_pointer_distance (Some ?rb)) = unat off"
    using v(4) f(2) by (simp add: ma_rb_pointer_distance_def ma_rb__deconstruct_offset_def rb_same_def ma_rb__get_read_ptr_def ma_rb__get_write_ptr_def)
  then have "unat (ma_rb_available_read (Some ?rb)) = unat off" using assms(3) by (simp add: ma_rb_available_read_def Let_def sint_nonneg_lt)
  then show ?thesis using new f assms(2) v by (intro exI [of _ ?rb]) simp
qed

text \<open>The size of the ring, up to one frame.\<close>

lemma calculate_frame_count_bounds:
  assumes "0 < unat out" "0 < unat inn" "out \<noteq> inn" "0 < unat n" "unat n * unat out + 1 < 2 ^ 64"
  shows "0 < unat (ma_calculate_frame_count_after_resampling out inn n)"
    "unat (ma_calculate_frame_count_after_resampling out inn n) \<le> unat n * unat out div unat inn + 1"
proof -
  define k where "k = (n * ucast out) div (ucast inn :: u64)"
  have k: "unat k = unat n * unat out div unat inn" using assms(5) by (simp add: k_def unat_div unat_mult_lt)
  have nz: "inn \<noteq> 0" "out \<noteq> 0" "n \<noteq> 0" using assms(1,2,4) by auto
  have c: "ma_calculate_frame_count_after_resampling out inn n = k + 1 \<or> ma_calculate_frame_count_after_resampling out inn n = k \<and> k \<noteq> 0"
    using nz assms(3) unfolding ma_calculate_frame_count_after_resampling_def k_def Let_def by auto
  have "unat k \<le> unat n * unat out" unfolding k by (rule div_le_dividend)
  then have "unat (k + 1) = unat k + 1" using assms(5) by (subst unat_add_lt) simp_all
  with c k show "0 < unat (ma_calculate_frame_count_after_resampling out inn n)"
    "unat (ma_calculate_frame_count_after_resampling out inn n) \<le> unat n * unat out div unat inn + 1"
    by (auto simp: unat_gt_0)
qed

lemma ma_duplex_rb_init_laps:
  fixes fmt :: ma_format and chs rate internal period :: u32
  defines "b \<equiv> unat (ma_get_bytes_per_frame fmt chs)"
  assumes b: "0 < b" and r: "0 < unat rate" "0 < unat internal" and alloc: "\<forall>n. c_malloc sys n \<noteq> NULL"
    and small: "5 * unat period * unat rate div unat internal + 1 < 2 * unat period"
    and sz: "5 * unat period < 2 ^ 32" "2 * unat period * b \<le> 0x7FFFFFE0"
  shows "\<exists>p'. ma_duplex_rb_init sys fmt chs rate internal period NULL (Some p) = (MA_SUCCESS, Some p')
    \<and> unat (ma_pcm_rb_available_read (Some p')) = 2 * unat period \<and> pcm_cap p' < 2 * unat period \<and> \<not> pcm_wf p'"
proof -
  have u5: "unat (period * 5) = 5 * unat period" using sz(1) by (subst unat_mult_lt) simp_all
  have u2: "unat (period * 2) = 2 * unat period" using sz(1) by (subst unat_mult_lt) simp_all
  have ne: "rate \<noteq> internal" using small r by auto
  let ?n = "ma_calculate_frame_count_after_resampling rate internal (ucast (period * 5))"
  have pr: "5 * unat period * unat rate + 1 < 2 ^ 64"
  proof -
    have "unat rate < 2 ^ 32" using unsigned_less [of rate] by simp
    then have "5 * unat period \<le> 2 ^ 32 - 1" "unat rate \<le> 2 ^ 32 - 1" using sz(1) by linarith+
    from mult_le_mono [OF this] show ?thesis by simp
  qed
  have n: "0 < unat ?n" "unat ?n < 2 * unat period"
    using calculate_frame_count_bounds [OF r ne, of "ucast (period * 5)"] small pr
    by (simp_all add: u5)
  define size :: u32 where "size = ucast ?n"
  have size: "unat size = unat ?n" using n(2) sz(1) by (simp add: size_def unat_ucast_u64_u32)
  have lt: "unat size * b < 2 * unat period * b" using n(2) b unfolding size by simp
  then have le: "unat size * b \<le> 0x7FFFFFE0" using sz(2) by linarith
  obtain addr where "c_malloc sys (of_nat ((unat size * b + 31) div 32 * 32 + 39)) = Some addr" using alloc by blast
  then obtain p0 where p0: "ma_pcm_rb_init sys fmt chs size NULL NULL (Some p) = (MA_SUCCESS, Some p0)" "pcm_fresh (unat size) fmt chs p0"
    using ma_pcm_rb_init_ok [of fmt chs size sys addr p, folded b_def] b n(1) le by (auto simp only: size)
  have fr: "rb_fresh (of_nat (unat size * b)) (pcm_rb p0)" "pcm_bpf p0 = b" "pcm_wf p0" "pcm_cap p0 = unat size"
    using p0(2) by (simp_all add: pcm_fresh_def pcm_bpf_def ma_pcm_rb_get_bpf_def b_def)
  have cap: "rb_cap (pcm_rb p0) = unat size * b" using pcm_grant(4) [OF fr(3)] fr(2,4) by simp
  have off: "unat (ucast (period * 2 * ma_pcm_rb_get_bpf p0) :: u64) = 2 * unat period * b"
    using sz(2) u2 fr(2) by (simp add: pcm_bpf_def unat_mult_lt)
  obtain rb' where rb': "ma_rb_seek_write (Some (pcm_rb p0)) (ucast (period * 2 * ma_pcm_rb_get_bpf p0)) = (MA_SUCCESS, Some rb')"
    "rb_cap rb' = unat size * b" "\<not> rb_same rb'" "rb_rd rb' < rb_wr rb'" "unat (ma_rb_available_read (Some rb')) = 2 * unat period * b"
    using rb_seek_write_laps [OF fr(1), of "ucast (period * 2 * ma_pcm_rb_get_bpf p0)"] lt sz(2) unfolding off cap by auto
  let ?p = "p0\<lparr>pcm_rb := rb'\<rparr>"
  have bp: "pcm_bpf ?p = b" "unat (ma_pcm_rb_get_bpf ?p) = b" using fr(2) by (simp_all add: pcm_bpf_def ma_pcm_rb_get_bpf_def)
  have "size \<noteq> 0" using n(1) size by auto
  then have "ma_duplex_rb_init sys fmt chs rate internal period NULL (Some p) = (MA_SUCCESS, Some ?p)"
    using p0(1) rb'(1) unfolding size_def by (simp add: ma_duplex_rb_init_def Let_def ma_pcm_rb_seek_write_def)
  moreover have "unat (ma_pcm_rb_available_read (Some ?p)) = 2 * unat period"
    using rb'(5) bp b by (simp add: ma_pcm_rb_available_read_def unat_div)
  moreover have "pcm_cap ?p < 2 * unat period" using rb'(2) bp b n(2) size by (simp add: pcm_cap_def)
  moreover have "\<not> pcm_wf ?p" using rb'(3,4) by (auto simp: pcm_wf_def rb_wf_def)
  ultimately show ?thesis by blast
qed

end
