(* ===== verification/MaVolume.thy ===== *)
theory MaVolume
  imports MaPcm MaPcmRb
begin

text \<open>
  Copying, clipping and scaling of PCM frames (the section before \<open>Format Conversion\<close> of
  miniaudio.h) and the volume of a device. Buffers are byte lists as in \<open>MaPcm\<close>. Each loop
  reads element \<open>i\<close> of its source before it writes element \<open>i\<close> of the same size of its
  destination, so a call with both pointers equal is the call with the old contents as source.
\<close>

unbundle bit_operations_syntax

section \<open>Copying and clipping\<close>

definition ma_copy_pcm_frames :: "u8 list \<Rightarrow> u8 list \<Rightarrow> u64 \<Rightarrow> ma_format \<Rightarrow> u32 \<Rightarrow> u8 list" where
  "ma_copy_pcm_frames dst src frameCount fmt chs = ma_copy_memory_64 dst src (frameCount * ucast (ma_get_bytes_per_frame fmt chs))"

definition ma_clip_u8 :: "int \<Rightarrow> u8" where
  "ma_clip_u8 x = word_of_int (max (- 128) (min x 127) + 128)"

definition ma_clip_s16 :: "int \<Rightarrow> s16" where
  "ma_clip_s16 x = word_of_int (max (- 32768) (min x 32767))"

definition ma_clip_s24 :: "int \<Rightarrow> int" where
  "ma_clip_s24 x = max (- 8388608) (min x 8388607)"

definition ma_clip_s32 :: "int \<Rightarrow> s32" where
  "ma_clip_s32 x = word_of_int (max (- 2147483648) (min x 2147483647))"

definition ma_clip_f32 :: "fval \<Rightarrow> fval" where
  "ma_clip_f32 x = (if flt x (FNum True 1) then FNum True 1 else if flt (FNum False 1) x then FNum False 1 else x)"

text \<open>The element \<open>((ma_int64*)m)[i]\<close>, and the three low bytes of a sample.\<close>

definition s64_at :: "u8 list \<Rightarrow> nat \<Rightarrow> u64" where
  "s64_at m i = of_nat (le_nat (mem_read m (8 * i) 8))"

definition s24_store :: "u8 list \<Rightarrow> nat \<Rightarrow> int \<Rightarrow> u8 list" where
  "s24_store m i s = (let w = word_of_int s :: u64
     in s24_put m i (ucast (w AND 0xFF)) (ucast (drop_bit 8 (w AND 0xFF00))) (ucast (drop_bit 16 (w AND 0xFF0000))))"

definition ma_clip_samples_u8 :: "u8 list \<Rightarrow> u8 list \<Rightarrow> u64 \<Rightarrow> u8 list" where
  "ma_clip_samples_u8 pDst pSrc count = for_count count (\<lambda>i dst. dst[i := ma_clip_u8 (sint (s16_at pSrc i))]) pDst"

definition ma_clip_samples_s16 :: "u8 list \<Rightarrow> u8 list \<Rightarrow> u64 \<Rightarrow> u8 list" where
  "ma_clip_samples_s16 pDst pSrc count = for_count count (\<lambda>i dst. s16_put dst i (ma_clip_s16 (sint (s32_at pSrc i)))) pDst"

definition ma_clip_samples_s24 :: "u8 list \<Rightarrow> u8 list \<Rightarrow> u64 \<Rightarrow> u8 list" where
  "ma_clip_samples_s24 pDst pSrc count = for_count count (\<lambda>i dst. s24_store dst i (ma_clip_s24 (sint (s64_at pSrc i)))) pDst"

definition ma_clip_samples_s32 :: "u8 list \<Rightarrow> u8 list \<Rightarrow> u64 \<Rightarrow> u8 list" where
  "ma_clip_samples_s32 pDst pSrc count = for_count count (\<lambda>i dst. s32_put dst i (ma_clip_s32 (sint (s64_at pSrc i)))) pDst"

definition ma_clip_samples_f32 :: "u8 list \<Rightarrow> u8 list \<Rightarrow> u64 \<Rightarrow> u8 list" where
  "ma_clip_samples_f32 pDst pSrc count = for_count count (\<lambda>i dst. f32_put dst i (ma_clip_f32 (f32_at pSrc i))) pDst"

definition ma_clip_pcm_frames :: "u8 list \<Rightarrow> u8 list \<Rightarrow> u64 \<Rightarrow> ma_format \<Rightarrow> u32 \<Rightarrow> u8 list" where
  "ma_clip_pcm_frames pDst pSrc frameCount fmt chs =
     (let sampleCount = frameCount * ucast chs in
      case fmt of
        ma_format_u8 \<Rightarrow> ma_clip_samples_u8 pDst pSrc sampleCount
      | ma_format_s16 \<Rightarrow> ma_clip_samples_s16 pDst pSrc sampleCount
      | ma_format_s24 \<Rightarrow> ma_clip_samples_s24 pDst pSrc sampleCount
      | ma_format_s32 \<Rightarrow> ma_clip_samples_s32 pDst pSrc sampleCount
      | ma_format_f32 \<Rightarrow> ma_clip_samples_f32 pDst pSrc sampleCount
      | ma_format_unknown \<Rightarrow> pDst)"

section \<open>Volume\<close>

text \<open>A sample converted to \<open>float\<close>, scaled, and converted back by truncation.\<close>

definition vol_scale :: "ma_cpu \<Rightarrow> int \<Rightarrow> int \<Rightarrow> fval \<Rightarrow> int \<Rightarrow> int" where
  "vol_scale cpu lo hi factor x = c_cast cpu lo hi (fmul binary32 (fofint binary32 x) factor)"

definition ma_copy_and_apply_volume_factor_u8 :: "ma_cpu \<Rightarrow> u8 list ptr \<Rightarrow> u8 list ptr \<Rightarrow> u64 \<Rightarrow> fval \<Rightarrow> u8 list ptr" where
  "ma_copy_and_apply_volume_factor_u8 cpu pSamplesOut pSamplesIn sampleCount factor =
     (case (pSamplesOut, pSamplesIn) of
        (Some dst, Some src) \<Rightarrow> Some (for_count sampleCount (\<lambda>i dst. dst[i := word_of_int (vol_scale cpu 0 255 factor (uint (src ! i)))]) dst)
      | _ \<Rightarrow> pSamplesOut)"

definition ma_copy_and_apply_volume_factor_s16 :: "ma_cpu \<Rightarrow> u8 list ptr \<Rightarrow> u8 list ptr \<Rightarrow> u64 \<Rightarrow> fval \<Rightarrow> u8 list ptr" where
  "ma_copy_and_apply_volume_factor_s16 cpu pSamplesOut pSamplesIn sampleCount factor =
     (case (pSamplesOut, pSamplesIn) of
        (Some dst, Some src) \<Rightarrow> Some (for_count sampleCount
           (\<lambda>i dst. s16_put dst i (word_of_int (vol_scale cpu (- 32768) 32767 factor (sint (s16_at src i))))) dst)
      | _ \<Rightarrow> pSamplesOut)"

definition ma_copy_and_apply_volume_factor_s24 :: "ma_cpu \<Rightarrow> u8 list ptr \<Rightarrow> u8 list ptr \<Rightarrow> u64 \<Rightarrow> fval \<Rightarrow> u8 list ptr" where
  "ma_copy_and_apply_volume_factor_s24 cpu pSamplesOut pSamplesIn sampleCount factor =
     (case (pSamplesOut, pSamplesIn) of
        (Some dst, Some src) \<Rightarrow> Some (for_count sampleCount
           (\<lambda>i dst. let s = word_of_int (vol_scale cpu (- 2147483648) 2147483647 factor (sint (s24_at src i))) :: s32
                    in s24_put dst i (ucast (drop_bit 8 (s AND 0xFF00))) (ucast (drop_bit 16 (s AND 0xFF0000))) (ucast (drop_bit 24 (s AND 0xFF000000)))) dst)
      | _ \<Rightarrow> pSamplesOut)"

definition ma_copy_and_apply_volume_factor_s32 :: "ma_cpu \<Rightarrow> u8 list ptr \<Rightarrow> u8 list ptr \<Rightarrow> u64 \<Rightarrow> fval \<Rightarrow> u8 list ptr" where
  "ma_copy_and_apply_volume_factor_s32 cpu pSamplesOut pSamplesIn sampleCount factor =
     (case (pSamplesOut, pSamplesIn) of
        (Some dst, Some src) \<Rightarrow> Some (for_count sampleCount
           (\<lambda>i dst. s32_put dst i (word_of_int (vol_scale cpu (- 2147483648) 2147483647 factor (sint (s32_at src i))))) dst)
      | _ \<Rightarrow> pSamplesOut)"

definition ma_copy_and_apply_volume_factor_f32 :: "u8 list ptr \<Rightarrow> u8 list ptr \<Rightarrow> u64 \<Rightarrow> fval \<Rightarrow> u8 list ptr" where
  "ma_copy_and_apply_volume_factor_f32 pSamplesOut pSamplesIn sampleCount factor =
     (case (pSamplesOut, pSamplesIn) of
        (Some dst, Some src) \<Rightarrow>
          if feq factor (FNum False 1) then Some (for_count sampleCount (\<lambda>i dst. elem_copy 4 dst i src i) dst)
          else Some (for_count sampleCount (\<lambda>i dst. f32_put dst i (fmul binary32 (f32_at src i) factor)) dst)
      | _ \<Rightarrow> pSamplesOut)"

definition ma_apply_volume_factor_u8 :: "ma_cpu \<Rightarrow> u8 list ptr \<Rightarrow> u64 \<Rightarrow> fval \<Rightarrow> u8 list ptr" where
  "ma_apply_volume_factor_u8 cpu pSamples sampleCount factor = ma_copy_and_apply_volume_factor_u8 cpu pSamples pSamples sampleCount factor"

definition ma_apply_volume_factor_s16 :: "ma_cpu \<Rightarrow> u8 list ptr \<Rightarrow> u64 \<Rightarrow> fval \<Rightarrow> u8 list ptr" where
  "ma_apply_volume_factor_s16 cpu pSamples sampleCount factor = ma_copy_and_apply_volume_factor_s16 cpu pSamples pSamples sampleCount factor"

definition ma_apply_volume_factor_s24 :: "ma_cpu \<Rightarrow> u8 list ptr \<Rightarrow> u64 \<Rightarrow> fval \<Rightarrow> u8 list ptr" where
  "ma_apply_volume_factor_s24 cpu pSamples sampleCount factor = ma_copy_and_apply_volume_factor_s24 cpu pSamples pSamples sampleCount factor"

definition ma_apply_volume_factor_s32 :: "ma_cpu \<Rightarrow> u8 list ptr \<Rightarrow> u64 \<Rightarrow> fval \<Rightarrow> u8 list ptr" where
  "ma_apply_volume_factor_s32 cpu pSamples sampleCount factor = ma_copy_and_apply_volume_factor_s32 cpu pSamples pSamples sampleCount factor"

definition ma_apply_volume_factor_f32 :: "u8 list ptr \<Rightarrow> u64 \<Rightarrow> fval \<Rightarrow> u8 list ptr" where
  "ma_apply_volume_factor_f32 pSamples sampleCount factor = ma_copy_and_apply_volume_factor_f32 pSamples pSamples sampleCount factor"

definition ma_copy_and_apply_volume_factor_pcm_frames_u8 :: "ma_cpu \<Rightarrow> u8 list ptr \<Rightarrow> u8 list ptr \<Rightarrow> u64 \<Rightarrow> u32 \<Rightarrow> fval \<Rightarrow> u8 list ptr" where
  "ma_copy_and_apply_volume_factor_pcm_frames_u8 cpu pFramesOut pFramesIn frameCount chs factor =
     ma_copy_and_apply_volume_factor_u8 cpu pFramesOut pFramesIn (frameCount * ucast chs) factor"

definition ma_copy_and_apply_volume_factor_pcm_frames_s16 :: "ma_cpu \<Rightarrow> u8 list ptr \<Rightarrow> u8 list ptr \<Rightarrow> u64 \<Rightarrow> u32 \<Rightarrow> fval \<Rightarrow> u8 list ptr" where
  "ma_copy_and_apply_volume_factor_pcm_frames_s16 cpu pFramesOut pFramesIn frameCount chs factor =
     ma_copy_and_apply_volume_factor_s16 cpu pFramesOut pFramesIn (frameCount * ucast chs) factor"

definition ma_copy_and_apply_volume_factor_pcm_frames_s24 :: "ma_cpu \<Rightarrow> u8 list ptr \<Rightarrow> u8 list ptr \<Rightarrow> u64 \<Rightarrow> u32 \<Rightarrow> fval \<Rightarrow> u8 list ptr" where
  "ma_copy_and_apply_volume_factor_pcm_frames_s24 cpu pFramesOut pFramesIn frameCount chs factor =
     ma_copy_and_apply_volume_factor_s24 cpu pFramesOut pFramesIn (frameCount * ucast chs) factor"

definition ma_copy_and_apply_volume_factor_pcm_frames_s32 :: "ma_cpu \<Rightarrow> u8 list ptr \<Rightarrow> u8 list ptr \<Rightarrow> u64 \<Rightarrow> u32 \<Rightarrow> fval \<Rightarrow> u8 list ptr" where
  "ma_copy_and_apply_volume_factor_pcm_frames_s32 cpu pFramesOut pFramesIn frameCount chs factor =
     ma_copy_and_apply_volume_factor_s32 cpu pFramesOut pFramesIn (frameCount * ucast chs) factor"

definition ma_copy_and_apply_volume_factor_pcm_frames_f32 :: "u8 list ptr \<Rightarrow> u8 list ptr \<Rightarrow> u64 \<Rightarrow> u32 \<Rightarrow> fval \<Rightarrow> u8 list ptr" where
  "ma_copy_and_apply_volume_factor_pcm_frames_f32 pFramesOut pFramesIn frameCount chs factor =
     ma_copy_and_apply_volume_factor_f32 pFramesOut pFramesIn (frameCount * ucast chs) factor"

definition ma_copy_and_apply_volume_factor_pcm_frames :: "ma_cpu \<Rightarrow> u8 list ptr \<Rightarrow> u8 list ptr \<Rightarrow> u64 \<Rightarrow> ma_format \<Rightarrow> u32 \<Rightarrow> fval \<Rightarrow> u8 list ptr" where
  "ma_copy_and_apply_volume_factor_pcm_frames cpu pFramesOut pFramesIn frameCount fmt chs factor =
     (case fmt of
        ma_format_u8 \<Rightarrow> ma_copy_and_apply_volume_factor_pcm_frames_u8 cpu pFramesOut pFramesIn frameCount chs factor
      | ma_format_s16 \<Rightarrow> ma_copy_and_apply_volume_factor_pcm_frames_s16 cpu pFramesOut pFramesIn frameCount chs factor
      | ma_format_s24 \<Rightarrow> ma_copy_and_apply_volume_factor_pcm_frames_s24 cpu pFramesOut pFramesIn frameCount chs factor
      | ma_format_s32 \<Rightarrow> ma_copy_and_apply_volume_factor_pcm_frames_s32 cpu pFramesOut pFramesIn frameCount chs factor
      | ma_format_f32 \<Rightarrow> ma_copy_and_apply_volume_factor_pcm_frames_f32 pFramesOut pFramesIn frameCount chs factor
      | ma_format_unknown \<Rightarrow> pFramesOut)"

definition ma_apply_volume_factor_pcm_frames_u8 :: "ma_cpu \<Rightarrow> u8 list ptr \<Rightarrow> u64 \<Rightarrow> u32 \<Rightarrow> fval \<Rightarrow> u8 list ptr" where
  "ma_apply_volume_factor_pcm_frames_u8 cpu pFrames frameCount chs factor = ma_copy_and_apply_volume_factor_pcm_frames_u8 cpu pFrames pFrames frameCount chs factor"

definition ma_apply_volume_factor_pcm_frames_s16 :: "ma_cpu \<Rightarrow> u8 list ptr \<Rightarrow> u64 \<Rightarrow> u32 \<Rightarrow> fval \<Rightarrow> u8 list ptr" where
  "ma_apply_volume_factor_pcm_frames_s16 cpu pFrames frameCount chs factor = ma_copy_and_apply_volume_factor_pcm_frames_s16 cpu pFrames pFrames frameCount chs factor"

definition ma_apply_volume_factor_pcm_frames_s24 :: "ma_cpu \<Rightarrow> u8 list ptr \<Rightarrow> u64 \<Rightarrow> u32 \<Rightarrow> fval \<Rightarrow> u8 list ptr" where
  "ma_apply_volume_factor_pcm_frames_s24 cpu pFrames frameCount chs factor = ma_copy_and_apply_volume_factor_pcm_frames_s24 cpu pFrames pFrames frameCount chs factor"

definition ma_apply_volume_factor_pcm_frames_s32 :: "ma_cpu \<Rightarrow> u8 list ptr \<Rightarrow> u64 \<Rightarrow> u32 \<Rightarrow> fval \<Rightarrow> u8 list ptr" where
  "ma_apply_volume_factor_pcm_frames_s32 cpu pFrames frameCount chs factor = ma_copy_and_apply_volume_factor_pcm_frames_s32 cpu pFrames pFrames frameCount chs factor"

definition ma_apply_volume_factor_pcm_frames_f32 :: "u8 list ptr \<Rightarrow> u64 \<Rightarrow> u32 \<Rightarrow> fval \<Rightarrow> u8 list ptr" where
  "ma_apply_volume_factor_pcm_frames_f32 pFrames frameCount chs factor = ma_copy_and_apply_volume_factor_pcm_frames_f32 pFrames pFrames frameCount chs factor"

definition ma_apply_volume_factor_pcm_frames :: "ma_cpu \<Rightarrow> u8 list ptr \<Rightarrow> u64 \<Rightarrow> ma_format \<Rightarrow> u32 \<Rightarrow> fval \<Rightarrow> u8 list ptr" where
  "ma_apply_volume_factor_pcm_frames cpu pFramesOut frameCount fmt chs factor =
     ma_copy_and_apply_volume_factor_pcm_frames cpu pFramesOut pFramesOut frameCount fmt chs factor"

definition ma_copy_and_apply_volume_factor_per_channel_f32 :: "u8 list \<Rightarrow> u8 list \<Rightarrow> u64 \<Rightarrow> u32 \<Rightarrow> fval list \<Rightarrow> u8 list" where
  "ma_copy_and_apply_volume_factor_per_channel_f32 pFramesOut pFramesIn frameCount chs pChannelGains =
     for_count frameCount (\<lambda>iFrame. for_count chs (\<lambda>iChannel dst.
       let k = unat (of_nat iFrame * ucast chs + of_nat iChannel :: u64)
       in f32_put dst k (fmul binary32 (f32_at pFramesIn k) (pChannelGains ! iChannel)))) pFramesOut"

subsection \<open>Fixed-point volume with clipping\<close>

definition ma_float_to_fixed_16 :: "ma_cpu \<Rightarrow> fval \<Rightarrow> s16" where
  "ma_float_to_fixed_16 cpu x = word_of_int (c_cast cpu (- 32768) 32767 (fmul binary32 x (fofint binary32 256)))"

definition ma_apply_volume_unclipped_u8 :: "s16 \<Rightarrow> s16 \<Rightarrow> s16" where
  "ma_apply_volume_unclipped_u8 x volume = word_of_int (drop_bit 8 (sint x * sint volume))"

text \<open>The product of the 16-bit variant is computed in 32 bits and wraps; those of the 24-bit and
  32-bit variants are computed in 64 bits.\<close>

definition ma_apply_volume_unclipped_s16 :: "s32 \<Rightarrow> s16 \<Rightarrow> s32" where
  "ma_apply_volume_unclipped_s16 x volume = signed_drop_bit 8 (x * scast volume)"

definition ma_apply_volume_unclipped_s24 :: "u64 \<Rightarrow> s16 \<Rightarrow> u64" where
  "ma_apply_volume_unclipped_s24 x volume = signed_drop_bit 8 (x * scast volume)"

definition ma_apply_volume_unclipped_s32 :: "u64 \<Rightarrow> s16 \<Rightarrow> u64" where
  "ma_apply_volume_unclipped_s32 x volume = signed_drop_bit 8 (x * scast volume)"

definition ma_apply_volume_unclipped_f32 :: "fval \<Rightarrow> fval \<Rightarrow> fval" where
  "ma_apply_volume_unclipped_f32 x volume = fmul binary32 x volume"

definition ma_copy_and_apply_volume_and_clip_samples_u8 :: "ma_cpu \<Rightarrow> u8 list \<Rightarrow> u8 list \<Rightarrow> u64 \<Rightarrow> fval \<Rightarrow> u8 list" where
  "ma_copy_and_apply_volume_and_clip_samples_u8 cpu pDst pSrc count volume =
     (let v = ma_float_to_fixed_16 cpu volume
      in for_count count (\<lambda>i dst. dst[i := ma_clip_u8 (sint (ma_apply_volume_unclipped_u8 (s16_at pSrc i) v))]) pDst)"

definition ma_copy_and_apply_volume_and_clip_samples_s16 :: "ma_cpu \<Rightarrow> u8 list \<Rightarrow> u8 list \<Rightarrow> u64 \<Rightarrow> fval \<Rightarrow> u8 list" where
  "ma_copy_and_apply_volume_and_clip_samples_s16 cpu pDst pSrc count volume =
     (let v = ma_float_to_fixed_16 cpu volume
      in for_count count (\<lambda>i dst. s16_put dst i (ma_clip_s16 (sint (ma_apply_volume_unclipped_s16 (s32_at pSrc i) v)))) pDst)"

definition ma_copy_and_apply_volume_and_clip_samples_s24 :: "ma_cpu \<Rightarrow> u8 list \<Rightarrow> u8 list \<Rightarrow> u64 \<Rightarrow> fval \<Rightarrow> u8 list" where
  "ma_copy_and_apply_volume_and_clip_samples_s24 cpu pDst pSrc count volume =
     (let v = ma_float_to_fixed_16 cpu volume
      in for_count count (\<lambda>i dst. s24_store dst i (ma_clip_s24 (sint (ma_apply_volume_unclipped_s24 (s64_at pSrc i) v)))) pDst)"

definition ma_copy_and_apply_volume_and_clip_samples_s32 :: "ma_cpu \<Rightarrow> u8 list \<Rightarrow> u8 list \<Rightarrow> u64 \<Rightarrow> fval \<Rightarrow> u8 list" where
  "ma_copy_and_apply_volume_and_clip_samples_s32 cpu pDst pSrc count volume =
     (let v = ma_float_to_fixed_16 cpu volume
      in for_count count (\<lambda>i dst. s32_put dst i (ma_clip_s32 (sint (ma_apply_volume_unclipped_s32 (s64_at pSrc i) v)))) pDst)"

definition ma_copy_and_apply_volume_and_clip_samples_f32 :: "u8 list \<Rightarrow> u8 list \<Rightarrow> u64 \<Rightarrow> fval \<Rightarrow> u8 list" where
  "ma_copy_and_apply_volume_and_clip_samples_f32 pDst pSrc count volume =
     for_count count (\<lambda>i dst. f32_put dst i (ma_clip_f32 (ma_apply_volume_unclipped_f32 (f32_at pSrc i) volume))) pDst"

definition ma_copy_and_apply_volume_and_clip_pcm_frames :: "ma_cpu \<Rightarrow> u8 list \<Rightarrow> u8 list \<Rightarrow> u64 \<Rightarrow> ma_format \<Rightarrow> u32 \<Rightarrow> fval \<Rightarrow> u8 list" where
  "ma_copy_and_apply_volume_and_clip_pcm_frames cpu pDst pSrc frameCount fmt chs volume =
     (if feq volume (FNum False 1) then ma_clip_pcm_frames pDst pSrc frameCount fmt chs
      else if feq volume (FNum False 0) then mem_write pDst 0 (ma_silence_pcm_frames frameCount fmt chs)
      else let sampleCount = frameCount * ucast chs in
           case fmt of
             ma_format_u8 \<Rightarrow> ma_copy_and_apply_volume_and_clip_samples_u8 cpu pDst pSrc sampleCount volume
           | ma_format_s16 \<Rightarrow> ma_copy_and_apply_volume_and_clip_samples_s16 cpu pDst pSrc sampleCount volume
           | ma_format_s24 \<Rightarrow> ma_copy_and_apply_volume_and_clip_samples_s24 cpu pDst pSrc sampleCount volume
           | ma_format_s32 \<Rightarrow> ma_copy_and_apply_volume_and_clip_samples_s32 cpu pDst pSrc sampleCount volume
           | ma_format_f32 \<Rightarrow> ma_copy_and_apply_volume_and_clip_samples_f32 pDst pSrc sampleCount volume
           | ma_format_unknown \<Rightarrow> pDst)"

definition ma_mix_pcm_frames_f32 :: "u8 list ptr \<Rightarrow> u8 list ptr \<Rightarrow> u64 \<Rightarrow> u32 \<Rightarrow> fval \<Rightarrow> ma_result \<times> u8 list ptr" where
  "ma_mix_pcm_frames_f32 pDst pSrc frameCount chs volume =
     (case (pDst, pSrc) of
        (Some dst, Some src) \<Rightarrow>
          if chs = 0 then (MA_INVALID_ARGS, pDst)
          else if feq volume (FNum False 0) then (MA_SUCCESS, pDst)
          else let sampleCount = frameCount * ucast chs in
               if feq volume (FNum False 1)
               then (MA_SUCCESS, Some (for_count sampleCount (\<lambda>i dst. f32_put dst i (fadd binary32 (f32_at dst i) (f32_at src i))) dst))
               else (MA_SUCCESS, Some (for_count sampleCount
                      (\<lambda>i dst. f32_put dst i (fadd binary32 (f32_at dst i) (ma_apply_volume_unclipped_f32 (f32_at src i) volume))) dst))
      | _ \<Rightarrow> (MA_INVALID_ARGS, pDst))"

end
