(* ===== verification/MaContext.thy ===== *)
theory MaContext
  imports MaBase
begin

text \<open>
  Device enumeration of \<open>miniaudio.h\<close>: the list of device descriptions a context collects from
  its backend, playback devices first. What the backend enumerates is a parameter.
\<close>

section \<open>State\<close>

datatype ma_device_type = ma_device_type_playback | ma_device_type_capture | ma_device_type_duplex | ma_device_type_loopback

record ma_device_info =
  di_id :: "u8 list"
  di_name :: string
  di_isDefault :: bool

definition blank_info :: ma_device_info where
  "blank_info = \<lparr>di_id = [], di_name = [], di_isDefault = False\<rparr>"

record ma_context =
  pDeviceInfos :: "ma_device_info list"
  deviceInfoCapacity :: u32
  playbackDeviceInfoCount :: u32
  captureDeviceInfoCount :: u32

section \<open>Collecting descriptions\<close>

text \<open>The loop that moves the capture devices one slot down, last one first.\<close>

primrec shift_down :: "nat \<Rightarrow> nat \<Rightarrow> 'a list \<Rightarrow> 'a list" where
  "shift_down 0 first xs = xs"
| "shift_down (Suc i) first xs =
     (if Suc i > first then shift_down i first (xs[Suc i := xs ! i]) else xs)"

definition ma_context_get_devices__enum_callback ::
  "(u64 \<Rightarrow> bool) \<Rightarrow> ma_context \<Rightarrow> ma_device_type \<Rightarrow> ma_device_info \<Rightarrow> bool \<times> ma_context" where
  "ma_context_get_devices__enum_callback realloc_ok ctx deviceType info =
     (let bufferExpansionCount = 2;
          totalDeviceInfoCount = playbackDeviceInfoCount ctx + captureDeviceInfoCount ctx;
          grown = (if totalDeviceInfoCount \<ge> deviceInfoCapacity ctx
                   then let newCapacity = deviceInfoCapacity ctx + bufferExpansionCount
                        in if realloc_ok (ucast newCapacity)
                           then Some (ctx\<lparr>pDeviceInfos := pDeviceInfos ctx
                                  @ replicate (unat newCapacity - length (pDeviceInfos ctx)) blank_info,
                                deviceInfoCapacity := newCapacity\<rparr>)
                           else None
                   else Some ctx)
      in case grown of
           None \<Rightarrow> (False, ctx)
         | Some ctx \<Rightarrow>
             if deviceType = ma_device_type_playback
             then let iFirstCaptureDevice = playbackDeviceInfoCount ctx;
                      infos = shift_down (unat totalDeviceInfoCount) (unat iFirstCaptureDevice) (pDeviceInfos ctx)
                  in (True, ctx\<lparr>pDeviceInfos := infos[unat iFirstCaptureDevice := info],
                                playbackDeviceInfoCount := playbackDeviceInfoCount ctx + 1\<rparr>)
             else (True, ctx\<lparr>pDeviceInfos := (pDeviceInfos ctx)[unat totalDeviceInfoCount := info],
                             captureDeviceInfoCount := captureDeviceInfoCount ctx + 1\<rparr>))"

text \<open>A backend calls the callback for each of its devices until it returns false.\<close>

fun enumerate_devices :: "(u64 \<Rightarrow> bool) \<Rightarrow> (ma_device_type \<times> ma_device_info) list \<Rightarrow> ma_context \<Rightarrow> ma_context" where
  "enumerate_devices realloc_ok [] ctx = ctx"
| "enumerate_devices realloc_ok ((ty, info) # ds) ctx =
     (case ma_context_get_devices__enum_callback realloc_ok ctx ty info of
        (True, ctx') \<Rightarrow> enumerate_devices realloc_ok ds ctx'
      | (False, ctx') \<Rightarrow> ctx')"

record backend =
  be_enumerate :: "(ma_result \<times> (ma_device_type \<times> ma_device_info) list) ptr"
  be_realloc_ok :: "u64 \<Rightarrow> bool"

definition ma_context_get_devices :: "backend \<Rightarrow> ma_context ptr
    \<Rightarrow> ma_result \<times> ma_device_info list \<times> ma_device_info list \<times> ma_context ptr" where
  "ma_context_get_devices be pContext =
     (case pContext of
        None \<Rightarrow> (MA_INVALID_ARGS, [], [], NULL)
      | Some ctx \<Rightarrow>
        (case be_enumerate be of
           None \<Rightarrow> (MA_INVALID_OPERATION, [], [], Some ctx)
         | Some (result, devices) \<Rightarrow>
             let ctx = enumerate_devices (be_realloc_ok be) devices
                         (ctx\<lparr>playbackDeviceInfoCount := 0, captureDeviceInfoCount := 0\<rparr>)
             in if result = MA_SUCCESS
                then (MA_SUCCESS, take (unat (playbackDeviceInfoCount ctx)) (pDeviceInfos ctx),
                      take (unat (captureDeviceInfoCount ctx)) (drop (unat (playbackDeviceInfoCount ctx)) (pDeviceInfos ctx)),
                      Some ctx)
                else (result, [], [], Some ctx)))"

section \<open>The lists are the enumeration, split by type\<close>

lemma shift_down_eq:
  "first \<le> n \<Longrightarrow> n < length xs \<Longrightarrow>
   shift_down n first xs = take first xs @ [xs ! first] @ take (n - first) (drop first xs) @ drop (Suc n) xs"
proof (induction n arbitrary: xs)
  case 0
  then show ?case by (cases xs) simp_all
next
  case (Suc n)
  show ?case
  proof (cases "first = Suc n")
    case True
    then show ?thesis using Suc.prems id_take_nth_drop [of first xs] by simp
  next
    case False
    let ?ys = "xs[Suc n := xs ! n]"
    have le: "first \<le> n" and lt: "n < length ?ys" using False Suc.prems by simp_all
    have "shift_down (Suc n) first xs = shift_down n first ?ys" using le by simp
    also have "\<dots> = take first ?ys @ [?ys ! first] @ take (n - first) (drop first ?ys) @ drop (Suc n) ?ys"
      by (rule Suc.IH [OF le lt])
    finally have "shift_down (Suc n) first xs = take first xs @ [xs ! first] @ take (n - first) (drop first xs) @ [xs ! n] @ drop (Suc (Suc n)) xs"
    proof -
      assume a: "shift_down (Suc n) first xs = take first ?ys @ [?ys ! first] @ take (n - first) (drop first ?ys) @ drop (Suc n) ?ys"
      have "take (n - first) (drop first ?ys) = take (n - first) (drop first xs)"
        unfolding take_drop using le by simp
      moreover have "drop (Suc n) ?ys = xs ! n # drop (Suc (Suc n)) xs"
        using Suc.prems(2) Cons_nth_drop_Suc [of "Suc n" ?ys] by simp
      ultimately show ?thesis using le a by simp
    qed
    moreover have "take (n - first) (drop first xs) @ [xs ! n] = take (Suc n - first) (drop first xs)"
      using le Suc.prems(2) take_Suc_conv_app_nth [of "n - first" "drop first xs"] by (simp add: Suc_diff_le)
    ultimately show ?thesis by simp
  qed
qed

text \<open>The collected descriptions: \<open>ps\<close> playback and \<open>cs\<close> capture devices.\<close>

definition collected :: "ma_context \<Rightarrow> ma_device_info list \<Rightarrow> ma_device_info list \<Rightarrow> bool" where
  "collected ctx ps cs \<longleftrightarrow> unat (playbackDeviceInfoCount ctx) = length ps \<and> unat (captureDeviceInfoCount ctx) = length cs
     \<and> length (pDeviceInfos ctx) = unat (deviceInfoCapacity ctx) \<and> length ps + length cs \<le> unat (deviceInfoCapacity ctx)
     \<and> take (length ps + length cs) (pDeviceInfos ctx) = ps @ cs"

lemma enum_callback_ok:
  assumes c: "collected ctx ps cs" and room: "unat (deviceInfoCapacity ctx) + 2 < 2 ^ 32" and alloc: "\<forall>n. realloc_ok n"
  shows "\<exists>ctx'. ma_context_get_devices__enum_callback realloc_ok ctx ty info = (True, ctx')
    \<and> collected ctx' (if ty = ma_device_type_playback then ps @ [info] else ps)
        (if ty = ma_device_type_playback then cs else cs @ [info])
    \<and> unat (deviceInfoCapacity ctx') \<le> max (unat (deviceInfoCapacity ctx)) (length ps + length cs + 2)"
proof -
  let ?p = "playbackDeviceInfoCount ctx" and ?c = "captureDeviceInfoCount ctx" and ?cap = "unat (deviceInfoCapacity ctx)"
  let ?n = "length ps + length cs"
  have f: "unat ?p = length ps" "unat ?c = length cs" "length (pDeviceInfos ctx) = ?cap" "?n \<le> ?cap"
    "take ?n (pDeviceInfos ctx) = ps @ cs"
    using c by (simp_all add: collected_def)
  have tot: "unat (?p + ?c) = ?n" using f room by (simp add: unat_add_lt)
  obtain ctx1 where g: "ma_context_get_devices__enum_callback realloc_ok ctx ty info =
      (if ty = ma_device_type_playback
       then (True, ctx1\<lparr>pDeviceInfos := (shift_down ?n (length ps) (pDeviceInfos ctx1))[length ps := info],
               playbackDeviceInfoCount := ?p + 1\<rparr>)
       else (True, ctx1\<lparr>pDeviceInfos := (pDeviceInfos ctx1)[?n := info], captureDeviceInfoCount := ?c + 1\<rparr>))"
    and c1: "collected ctx1 ps cs" "?n < length (pDeviceInfos ctx1)"
      "unat (deviceInfoCapacity ctx1) \<le> max ?cap (?n + 2)"
  proof (cases "?p + ?c \<ge> deviceInfoCapacity ctx")
    case True
    let ?k = "deviceInfoCapacity ctx + 2"
    let ?ctx = "ctx\<lparr>pDeviceInfos := pDeviceInfos ctx @ replicate (unat ?k - length (pDeviceInfos ctx)) blank_info,
      deviceInfoCapacity := ?k\<rparr>"
    have k: "unat ?k = ?cap + 2" using room by (simp add: unat_add_lt)
    have "?cap = ?n" using True f(4) tot by (simp add: word_le_nat_alt)
    then show ?thesis
      using that [of ?ctx] True alloc tot f k
      by (simp add: ma_context_get_devices__enum_callback_def Let_def collected_def)
  next
    case False
    then have "?n < ?cap" using tot by (simp add: word_le_nat_alt)
    then show ?thesis
      using that [of ctx] False tot f c by (simp add: ma_context_get_devices__enum_callback_def Let_def)
  qed
  have l1: "unat (playbackDeviceInfoCount ctx1) = length ps" "unat (captureDeviceInfoCount ctx1) = length cs"
    "length (pDeviceInfos ctx1) = unat (deviceInfoCapacity ctx1)" "take ?n (pDeviceInfos ctx1) = ps @ cs"
    using c1(1) by (simp_all add: collected_def)
  obtain y rest where xs: "pDeviceInfos ctx1 = ps @ cs @ y # rest"
    using l1(4) c1(2) Cons_nth_drop_Suc [of ?n "pDeviceInfos ctx1"] append_take_drop_id [of ?n "pDeviceInfos ctx1"]
    by (metis append.assoc)
  have "shift_down ?n (length ps) (pDeviceInfos ctx1) = ps @ (pDeviceInfos ctx1 ! length ps) # cs @ rest"
    using shift_down_eq [of "length ps" ?n "pDeviceInfos ctx1"] by (simp add: xs)
  then have sh: "(shift_down ?n (length ps) (pDeviceInfos ctx1))[length ps := info] = (ps @ [info]) @ cs @ rest"
    by simp
  have ap: "(pDeviceInfos ctx1)[?n := info] = ps @ (cs @ [info]) @ rest"
    by (simp add: xs list_update_append)
  have u: "unat (?p + 1) = length ps + 1" "unat (?c + 1) = length cs + 1"
    using f room by (simp_all add: unat_add_lt)
  have cap: "?n + 1 + length rest = unat (deviceInfoCapacity ctx1)" using l1(3) by (simp add: xs)
  show ?thesis
  proof (cases "ty = ma_device_type_playback")
    case True
    then show ?thesis
      using g l1 u cap c1(3) by (auto simp: collected_def sh)
  next
    case False
    then show ?thesis
      using g l1 u cap c1(3) by (auto simp: collected_def ap)
  qed
qed

lemma enumerate_devices_ok:
  assumes "collected ctx ps cs" "\<forall>n. realloc_ok n"
    and "max (unat (deviceInfoCapacity ctx)) (length ps + length cs + length ds + 2) + 2 < 2 ^ 32"
  shows "collected (enumerate_devices realloc_ok ds ctx)
    (ps @ map snd (filter (\<lambda>d. fst d = ma_device_type_playback) ds))
    (cs @ map snd (filter (\<lambda>d. fst d \<noteq> ma_device_type_playback) ds))"
  using assms
proof (induction ds arbitrary: ctx ps cs)
  case (Cons d ds)
  obtain ty info where d: "d = (ty, info)" by fastforce
  have "unat (deviceInfoCapacity ctx) + 2 < 2 ^ 32" using Cons.prems(3) by simp
  from enum_callback_ok [OF Cons.prems(1) this Cons.prems(2), of ty info] obtain ctx' where
    e: "ma_context_get_devices__enum_callback realloc_ok ctx ty info = (True, ctx')"
    "collected ctx' (if ty = ma_device_type_playback then ps @ [info] else ps)
        (if ty = ma_device_type_playback then cs else cs @ [info])"
    "unat (deviceInfoCapacity ctx') \<le> max (unat (deviceInfoCapacity ctx)) (length ps + length cs + 2)"
    by blast
  have "unat (deviceInfoCapacity ctx') < 4294967294"
    using e(3) Cons.prems(3) by (auto simp: max_def split: if_splits)
  with Cons.IH [OF e(2) Cons.prems(2)] e(1) Cons.prems(3) show ?case
    by (cases ty) (simp_all add: d)
qed simp

lemma ma_context_get_devices_ok:
  assumes "be_enumerate be = Some (MA_SUCCESS, ds)" "\<forall>n. be_realloc_ok be n"
    and "length (pDeviceInfos ctx) = unat (deviceInfoCapacity ctx)"
    and "max (unat (deviceInfoCapacity ctx)) (length ds + 2) + 2 < 2 ^ 32"
  shows "\<exists>ctx'. ma_context_get_devices be (Some ctx) = (MA_SUCCESS,
    map snd (filter (\<lambda>d. fst d = ma_device_type_playback) ds),
    map snd (filter (\<lambda>d. fst d \<noteq> ma_device_type_playback) ds), Some ctx')"
proof -
  let ?ctx = "ctx\<lparr>playbackDeviceInfoCount := 0, captureDeviceInfoCount := 0\<rparr>"
  let ?ps = "map snd (filter (\<lambda>d. fst d = ma_device_type_playback) ds)"
    and ?cs = "map snd (filter (\<lambda>d. fst d \<noteq> ma_device_type_playback) ds)"
  have "collected ?ctx [] []" using assms(3) by (simp add: collected_def)
  from enumerate_devices_ok [OF this assms(2), of ds] assms(4)
  obtain ctx' where ctx': "ctx' = enumerate_devices (be_realloc_ok be) ds ?ctx" "collected ctx' ?ps ?cs" by simp
  have l: "length ?ps \<le> length (pDeviceInfos ctx')" "take (length ?ps + length ?cs) (pDeviceInfos ctx') = ?ps @ ?cs"
    using ctx'(2) by (simp_all add: collected_def)
  have "take (length ?ps) (take (length ?ps + length ?cs) (pDeviceInfos ctx')) = ?ps"
    "drop (length ?ps) (take (length ?ps + length ?cs) (pDeviceInfos ctx')) = ?cs"
    unfolding l(2) by simp_all
  then have "take (length ?ps) (pDeviceInfos ctx') = ?ps" "take (length ?cs) (drop (length ?ps) (pDeviceInfos ctx')) = ?cs"
    by (simp_all add: drop_take)
  then show ?thesis
    using ctx' assms(1) by (simp add: ma_context_get_devices_def Let_def collected_def)
qed

end
