(* ===== verification/MaDevice.thy ===== *)
theory MaDevice
  imports MaVolume MaContext
begin

text \<open>
  The data path of a miniaudio device, between the frames a backend asks for or delivers and the
  data callback of the application: the intermediary buffers that give the callback a fixed number
  of frames, the master volume, clipping, and format conversion. A buffer is a byte list; a
  pointer into a buffer is the rest of the list from there. The application's state is a
  component of the device, and its callback takes and returns it. \<open>None\<close> is a call that does not
  return. The flush-to-zero mode around the callback is left out.
\<close>

section \<open>State\<close>

datatype ma_device_state = ma_device_state_uninitialized | ma_device_state_stopped | ma_device_state_started
  | ma_device_state_starting | ma_device_state_stopping

text \<open>The data callback: output, input, frame count and the application's state; it returns the
  output and the state.\<close>

type_synonym 'c ma_device_data_proc = "u8 list ptr \<Rightarrow> u8 list ptr \<Rightarrow> u32 \<Rightarrow> 'c \<Rightarrow> u8 list ptr \<times> 'c"

text \<open>A data converter: processing (input, input frames, output, output frames), and the number
  of input frames that a number of output frames needs.\<close>

record 'k converter_ops =
  cv_process :: "'k \<Rightarrow> u8 list \<Rightarrow> u64 \<Rightarrow> u8 list \<Rightarrow> u64 \<Rightarrow> ma_result \<times> u64 \<times> u8 list \<times> u64 \<times> 'k"
  cv_required :: "'k \<Rightarrow> u64 \<Rightarrow> u64"

text \<open>One side of a device. \<open>sd_hasIntermediaryBuffer\<close> says that the pointer to the intermediary buffer is
  not null.\<close>

record 'k ma_device_side =
  sd_format :: ma_format
  sd_channels :: u32
  sd_internalFormat :: ma_format
  sd_internalChannels :: u32
  sd_internalSampleRate :: u32
  sd_internalPeriodSizeInFrames :: u32
  sd_internalPeriods :: u32
  sd_isPassthrough :: bool
  sd_converter :: 'k
  sd_pIntermediaryBuffer :: "u8 list"
  sd_hasIntermediaryBuffer :: bool
  sd_intermediaryBufferCap :: u32
  sd_intermediaryBufferLen :: u32
  sd_pInputCache :: "u8 list ptr"
  sd_inputCacheCap :: u64
  sd_inputCacheConsumed :: u64
  sd_inputCacheRemaining :: u64

record ('c, 'k) ma_device =
  dev_type :: ma_device_type
  dev_state :: ma_device_state
  dev_sampleRate :: u32
  dev_onData :: "'c ma_device_data_proc option"
  dev_client :: 'c
  dev_masterVolumeFactor :: fval
  dev_noPreSilencedOutputBuffer :: bool
  dev_noClip :: bool
  dev_noFixedSizedCallback :: bool
  dev_capture :: "'k ma_device_side"
  dev_playback :: "'k ma_device_side"
  dev_duplexRB :: ma_pcm_rb

definition sd_bpf :: "'k ma_device_side \<Rightarrow> u32" where
  "sd_bpf sd = ma_get_bytes_per_frame (sd_format sd) (sd_channels sd)"

definition sd_internal_bpf :: "'k ma_device_side \<Rightarrow> u32" where
  "sd_internal_bpf sd = ma_get_bytes_per_frame (sd_internalFormat sd) (sd_internalChannels sd)"

section \<open>Volume of a device\<close>

definition ma_device_set_master_volume :: "('c, 'k) ma_device ptr \<Rightarrow> fval \<Rightarrow> ma_result \<times> ('c, 'k) ma_device ptr" where
  "ma_device_set_master_volume pDevice volume =
     (case pDevice of None \<Rightarrow> (MA_INVALID_ARGS, None)
      | Some dev \<Rightarrow> if flt volume (FNum False 0) then (MA_INVALID_ARGS, Some dev)
                    else (MA_SUCCESS, Some (dev\<lparr>dev_masterVolumeFactor := volume\<rparr>)))"

definition ma_device_get_master_volume :: "('c, 'k) ma_device ptr \<Rightarrow> fval ptr \<Rightarrow> ma_result \<times> fval ptr" where
  "ma_device_get_master_volume pDevice pVolume =
     (if pVolume = NULL then (MA_INVALID_ARGS, NULL)
      else case pDevice of None \<Rightarrow> (MA_INVALID_ARGS, Some (FNum False 0))
           | Some dev \<Rightarrow> (MA_SUCCESS, Some (dev_masterVolumeFactor dev)))"

definition ma_device_get_state :: "('c, 'k) ma_device ptr \<Rightarrow> ma_device_state" where
  "ma_device_get_state pDevice = (case pDevice of None \<Rightarrow> ma_device_state_uninitialized | Some dev \<Rightarrow> dev_state dev)"

definition ma_device_is_started :: "('c, 'k) ma_device ptr \<Rightarrow> bool" where
  "ma_device_is_started pDevice \<longleftrightarrow> ma_device_get_state pDevice = ma_device_state_started"

section \<open>Fixed-size callbacks\<close>

definition ma_offset_pcm_frames_ptr :: "u64 \<Rightarrow> ma_format \<Rightarrow> u32 \<Rightarrow> nat" where
  "ma_offset_pcm_frames_ptr offsetInFrames fmt chs = unat (offsetInFrames * ucast (ma_get_bytes_per_frame fmt chs))"

text \<open>\<open>ma_copy_pcm_frames\<close> between two offset pointers.\<close>

definition copy_frames_at :: "u8 list \<Rightarrow> u32 \<Rightarrow> u8 list \<Rightarrow> u32 \<Rightarrow> u32 \<Rightarrow> ma_format \<Rightarrow> u32 \<Rightarrow> u8 list" where
  "copy_frames_at dst dstOff src srcOff n fmt chs =
     (let d = ma_offset_pcm_frames_ptr (ucast dstOff) fmt chs; s = ma_offset_pcm_frames_ptr (ucast srcOff) fmt chs
      in take d dst @ ma_copy_pcm_frames (drop d dst) (drop s src) (ucast n) fmt chs)"

definition ma_device__on_data_inner :: "u8 list ptr \<Rightarrow> u8 list ptr \<Rightarrow> u32 \<Rightarrow> ('c, 'k) ma_device \<Rightarrow> u8 list ptr \<times> ('c, 'k) ma_device" where
  "ma_device__on_data_inner pFramesOut pFramesIn frameCount dev =
     (let pb = dev_playback dev;
          out = (if dev_noPreSilencedOutputBuffer dev then pFramesOut
                 else map_option (\<lambda>buf. mem_write buf 0 (ma_silence_pcm_frames (ucast frameCount) (sd_format pb) (sd_channels pb))) pFramesOut)
      in case dev_onData dev of
           None \<Rightarrow> (out, dev)
         | Some onData \<Rightarrow> (case onData out pFramesIn frameCount (dev_client dev) of (out, c) \<Rightarrow> (out, dev\<lparr>dev_client := c\<rparr>)))"

text \<open>The capture half of an iteration: the frames taken from the input, and the device.\<close>

definition on_data_capture :: "u8 list \<Rightarrow> u32 \<Rightarrow> u32 \<Rightarrow> ('c, 'k) ma_device \<Rightarrow> u32 \<times> ('c, 'k) ma_device" where
  "on_data_capture input processed frameCount dev =
     (let cp = dev_capture dev; remaining = frameCount - processed;
          (n, cp) = (if sd_intermediaryBufferLen cp < sd_intermediaryBufferCap cp
             then let room = sd_intermediaryBufferCap cp - sd_intermediaryBufferLen cp;
                      n = (if room < remaining then room else remaining)
                  in (n, cp\<lparr>sd_pIntermediaryBuffer := copy_frames_at (sd_pIntermediaryBuffer cp) (sd_intermediaryBufferLen cp) input processed n
                              (sd_format cp) (sd_channels cp),
                            sd_intermediaryBufferLen := sd_intermediaryBufferLen cp + n\<rparr>)
             else (0, cp));
          dev = dev\<lparr>dev_capture := cp\<rparr>
      in if sd_intermediaryBufferLen cp = sd_intermediaryBufferCap cp \<and> dev_type dev \<noteq> ma_device_type_duplex
         then let dev = snd (ma_device__on_data_inner NULL (Some (sd_pIntermediaryBuffer cp)) (sd_intermediaryBufferCap cp) dev)
              in (n, dev\<lparr>dev_capture := (dev_capture dev)\<lparr>sd_intermediaryBufferLen := 0\<rparr>\<rparr>)
         else (n, dev))"

text \<open>The playback half: the frames of this iteration, the output and the device. In duplex the
  number of frames is the one of the capture half.\<close>

definition on_data_playback :: "u32 \<Rightarrow> u8 list \<Rightarrow> u32 \<Rightarrow> u32 \<Rightarrow> ('c, 'k) ma_device \<Rightarrow> u32 \<times> u8 list \<times> ('c, 'k) ma_device" where
  "on_data_playback n output processed frameCount dev =
     (let pb = dev_playback dev; remaining = frameCount - processed;
          (n, output, pb) = (if 0 < sd_intermediaryBufferLen pb
             then let n = (if dev_type dev = ma_device_type_duplex then n
                           else if sd_intermediaryBufferLen pb < remaining then sd_intermediaryBufferLen pb else remaining)
                  in (n, copy_frames_at output processed (sd_pIntermediaryBuffer pb) (sd_intermediaryBufferCap pb - sd_intermediaryBufferLen pb) n
                           (sd_format pb) (sd_channels pb),
                      pb\<lparr>sd_intermediaryBufferLen := sd_intermediaryBufferLen pb - n\<rparr>)
             else (n, output, pb));
          dev = dev\<lparr>dev_playback := pb\<rparr>
      in if sd_intermediaryBufferLen pb = 0 \<and> dev_type dev \<noteq> ma_device_type_duplex
         then case ma_device__on_data_inner (Some (sd_pIntermediaryBuffer pb)) NULL (sd_intermediaryBufferCap pb) dev of
                (out, dev) \<Rightarrow> (n, output, dev\<lparr>dev_playback := (dev_playback dev)\<lparr>sd_pIntermediaryBuffer := the out,
                                 sd_intermediaryBufferLen := sd_intermediaryBufferCap pb\<rparr>\<rparr>)
         else (n, output, dev))"

text \<open>In duplex, a full capture buffer is handed to the callback, which fills the playback buffer.\<close>

definition on_data_duplex :: "('c, 'k) ma_device \<Rightarrow> ('c, 'k) ma_device" where
  "on_data_duplex dev =
     (let cp = dev_capture dev; pb = dev_playback dev
      in if dev_type dev = ma_device_type_duplex \<and> sd_intermediaryBufferLen cp = sd_intermediaryBufferCap cp
         then case ma_device__on_data_inner (Some (sd_pIntermediaryBuffer pb)) (Some (sd_pIntermediaryBuffer cp)) (sd_intermediaryBufferCap cp) dev of
                (out, dev) \<Rightarrow> dev\<lparr>dev_playback := (dev_playback dev)\<lparr>sd_pIntermediaryBuffer := the out,
                                  sd_intermediaryBufferLen := sd_intermediaryBufferCap pb\<rparr>,
                                dev_capture := (dev_capture dev)\<lparr>sd_intermediaryBufferLen := 0\<rparr>\<rparr>
         else dev)"

definition on_data_step :: "u8 list ptr \<Rightarrow> u32 \<Rightarrow> u32 \<Rightarrow> u8 list ptr \<Rightarrow> ('c, 'k) ma_device \<Rightarrow> u32 \<times> u8 list ptr \<times> ('c, 'k) ma_device" where
  "on_data_step pFramesIn frameCount processed pFramesOut dev =
     (let (n, dev) = (case pFramesIn of Some input \<Rightarrow> on_data_capture input processed frameCount dev | None \<Rightarrow> (0, dev));
          (n, out, dev) = (case pFramesOut of
             Some output \<Rightarrow> (case on_data_playback n output processed frameCount dev of (n, output, dev) \<Rightarrow> (n, Some output, dev))
           | None \<Rightarrow> (n, None, dev))
      in (processed + n, out, on_data_duplex dev))"

partial_function (option) on_data_loop :: "u8 list ptr \<Rightarrow> u32 \<Rightarrow> u32 \<Rightarrow> u8 list ptr \<Rightarrow> ('c, 'k) ma_device
    \<Rightarrow> (u8 list ptr \<times> ('c, 'k) ma_device) option" where
  "on_data_loop pFramesIn frameCount processed pFramesOut dev =
     (if processed < frameCount
      then case on_data_step pFramesIn frameCount processed pFramesOut dev of
             (processed, out, dev) \<Rightarrow> on_data_loop pFramesIn frameCount processed out dev
      else Some (pFramesOut, dev))"

definition ma_device__on_data :: "u8 list ptr \<Rightarrow> u8 list ptr \<Rightarrow> u32 \<Rightarrow> ('c, 'k) ma_device \<Rightarrow> (u8 list ptr \<times> ('c, 'k) ma_device) option" where
  "ma_device__on_data pFramesOut pFramesIn frameCount dev =
     (if dev_state dev = ma_device_state_stopping then Some (pFramesOut, dev)
      else if dev_noFixedSizedCallback dev then Some (ma_device__on_data_inner pFramesOut pFramesIn frameCount dev)
      else on_data_loop pFramesIn frameCount 0 pFramesOut dev)"

section \<open>Volume, clipping and the callback\<close>

abbreviation (input) MA_DATA_CONVERTER_STACK_BUFFER_SIZE :: nat where "MA_DATA_CONVERTER_STACK_BUFFER_SIZE \<equiv> 4096"

text \<open>A frame of zero bytes in the division, and an offset added to the null pointer, are undefined:
  \<open>None\<close>. The stack buffer is not initialised; only what is written to it is passed on.\<close>

partial_function (option) volume_loop :: "ma_cpu \<Rightarrow> fval \<Rightarrow> u8 list \<Rightarrow> u32 \<Rightarrow> u32 \<Rightarrow> u8 list ptr \<Rightarrow> ('c, 'k) ma_device
    \<Rightarrow> (u8 list ptr \<times> ('c, 'k) ma_device) option" where
  "volume_loop cpu factor input frameCount processed pFramesOut dev =
     (if processed < frameCount
      then let cp = dev_capture dev; bpfC = sd_bpf cp; off = unat (processed * sd_bpf (dev_playback dev))
           in if bpfC = 0 \<or> pFramesOut = NULL \<and> off \<noteq> 0 then None
              else let remaining = frameCount - processed; cap = of_nat (MA_DATA_CONVERTER_STACK_BUFFER_SIZE div unat bpfC);
                       n = (if cap < remaining then cap else remaining);
                       temp = the (ma_copy_and_apply_volume_factor_pcm_frames cpu (Some (replicate MA_DATA_CONVERTER_STACK_BUFFER_SIZE 0))
                                     (Some (drop (unat (processed * bpfC)) input)) (ucast n) (sd_format cp) (sd_channels cp) factor)
                   in case ma_device__on_data (map_option (drop off) pFramesOut) (Some temp) n dev of
                        None \<Rightarrow> None
                      | Some (out, dev) \<Rightarrow> volume_loop cpu factor input frameCount (processed + n)
                          (case (pFramesOut, out) of (Some buf, Some rest) \<Rightarrow> Some (take off buf @ rest) | _ \<Rightarrow> pFramesOut) dev
      else Some (pFramesOut, dev))"

definition ma_device__handle_data_callback :: "ma_cpu \<Rightarrow> u8 list ptr \<Rightarrow> u8 list ptr \<Rightarrow> u32 \<Rightarrow> ('c, 'k) ma_device
    \<Rightarrow> (u8 list ptr \<times> ('c, 'k) ma_device) option" where
  "ma_device__handle_data_callback cpu pFramesOut pFramesIn frameCount dev =
     (let factor = the (snd (ma_device_get_master_volume (Some dev) (Some (FNum False 0)))); pb = dev_playback dev
      in if dev_onData dev \<noteq> None
         then case (case pFramesIn of
                      Some input \<Rightarrow> if \<not> feq factor (FNum False 1) then volume_loop cpu factor input frameCount 0 pFramesOut dev
                                    else ma_device__on_data pFramesOut pFramesIn frameCount dev
                    | None \<Rightarrow> ma_device__on_data pFramesOut pFramesIn frameCount dev) of
                None \<Rightarrow> None
              | Some (out, dev) \<Rightarrow>
                  let out = (if out \<noteq> NULL \<and> \<not> feq factor (FNum False 1) \<and> pFramesIn = NULL
                             then ma_apply_volume_factor_pcm_frames cpu out (ucast frameCount) (sd_format pb) (sd_channels pb) factor else out);
                      out = (if \<not> dev_noClip dev \<and> sd_format pb = ma_format_f32
                             then map_option (\<lambda>buf. ma_clip_samples_f32 buf buf (ucast (frameCount * sd_channels pb))) out else out)
                  in Some (out, dev)
         else Some (map_option (\<lambda>buf. mem_write buf 0 (ma_silence_pcm_frames (ucast frameCount) (sd_format pb) (sd_channels pb))) pFramesOut, dev))"

section \<open>Conversion between the application's and the backend's format\<close>

text \<open>Reading from the application with a cache of its frames. \<open>off\<close> is the running output pointer.\<close>

partial_function (option) read_cached_loop :: "ma_cpu \<Rightarrow> 'k converter_ops \<Rightarrow> u32 \<Rightarrow> u64 \<Rightarrow> nat \<Rightarrow> u8 list \<Rightarrow> ('c, 'k) ma_device
    \<Rightarrow> (u8 list \<times> ('c, 'k) ma_device) option" where
  "read_cached_loop cpu ops frameCount readOut off out dev =
     (if readOut < ucast frameCount
      then let pb = dev_playback dev;
               (stop, readOut, off, out, pb) =
                 (if 0 < sd_inputCacheRemaining pb
                  then let outN = ucast frameCount - readOut;
                           inN = (if sd_inputCacheRemaining pb < outN then sd_inputCacheRemaining pb else outN)
                       in case cv_process ops (sd_converter pb) (drop (ma_offset_pcm_frames_ptr (sd_inputCacheConsumed pb) (sd_format pb) (sd_channels pb))
                                 (the (sd_pInputCache pb))) inN (drop off out) outN of
                            (result, inN, rest, outN, k) \<Rightarrow>
                              if result \<noteq> MA_SUCCESS then (True, readOut, off, take off out @ rest, pb\<lparr>sd_converter := k\<rparr>)
                              else (inN = 0 \<and> outN = 0, readOut + outN, off + unat (outN * ucast (sd_internal_bpf pb)), take off out @ rest,
                                    pb\<lparr>sd_converter := k, sd_inputCacheConsumed := sd_inputCacheConsumed pb + inN,
                                       sd_inputCacheRemaining := sd_inputCacheRemaining pb - inN\<rparr>)
                  else (False, readOut, off, out, pb));
               dev = dev\<lparr>dev_playback := pb\<rparr>
           in if stop then Some (out, dev)
              else if sd_inputCacheRemaining pb = 0
              then case ma_device__handle_data_callback cpu (sd_pInputCache pb) NULL (ucast (sd_inputCacheCap pb)) dev of
                     None \<Rightarrow> None
                   | Some (cache, dev) \<Rightarrow> read_cached_loop cpu ops frameCount readOut off out
                       (dev\<lparr>dev_playback := (dev_playback dev)\<lparr>sd_pInputCache := cache, sd_inputCacheConsumed := 0,
                          sd_inputCacheRemaining := sd_inputCacheCap (dev_playback dev)\<rparr>\<rparr>)
              else read_cached_loop cpu ops frameCount readOut off out dev
      else Some (out, dev))"

partial_function (option) read_uncached_loop :: "ma_cpu \<Rightarrow> 'k converter_ops \<Rightarrow> u32 \<Rightarrow> u64 \<Rightarrow> nat \<Rightarrow> u8 list \<Rightarrow> ('c, 'k) ma_device
    \<Rightarrow> (u8 list \<times> ('c, 'k) ma_device) option" where
  "read_uncached_loop cpu ops frameCount readOut off out dev =
     (if readOut < ucast frameCount
      then let pb = dev_playback dev; bpf = sd_bpf pb
           in if bpf = 0 then None
              else let cap = of_nat (MA_DATA_CONVERTER_STACK_BUFFER_SIZE div unat bpf); outN = ucast frameCount - readOut;
                       inN = (if cap < outN then cap else outN); required = cv_required ops (sd_converter pb) outN;
                       inN = (if required < inN then required else inN)
                   in case ma_device__handle_data_callback cpu (Some (replicate MA_DATA_CONVERTER_STACK_BUFFER_SIZE 0)) NULL (ucast inN) dev of
                        None \<Rightarrow> None
                      | Some (buf, dev) \<Rightarrow>
                          let pb = dev_playback dev
                          in case cv_process ops (sd_converter pb) (the buf) inN (drop off out) outN of
                               (result, inN, rest, outN, k) \<Rightarrow>
                                 let dev = dev\<lparr>dev_playback := pb\<lparr>sd_converter := k\<rparr>\<rparr>; out = take off out @ rest
                                 in if result \<noteq> MA_SUCCESS \<or> inN = 0 \<and> outN = 0 then Some (out, dev)
                                    else read_uncached_loop cpu ops frameCount (readOut + outN) (off + unat (outN * ucast (sd_internal_bpf pb))) out dev
      else Some (out, dev))"

definition ma_device__read_frames_from_client :: "ma_cpu \<Rightarrow> 'k converter_ops \<Rightarrow> u32 \<Rightarrow> u8 list \<Rightarrow> ('c, 'k) ma_device
    \<Rightarrow> (u8 list \<times> ('c, 'k) ma_device) option" where
  "ma_device__read_frames_from_client cpu ops frameCount pFramesOut dev =
     (if sd_isPassthrough (dev_playback dev)
      then map_option (\<lambda>(out, dev). (the out, dev)) (ma_device__handle_data_callback cpu (Some pFramesOut) NULL frameCount dev)
      else if sd_pInputCache (dev_playback dev) \<noteq> NULL then read_cached_loop cpu ops frameCount 0 0 pFramesOut dev
      else read_uncached_loop cpu ops frameCount 0 0 pFramesOut dev)"

partial_function (option) send_loop :: "ma_cpu \<Rightarrow> 'k converter_ops \<Rightarrow> u32 \<Rightarrow> u64 \<Rightarrow> nat \<Rightarrow> u8 list \<Rightarrow> ('c, 'k) ma_device
    \<Rightarrow> ('c, 'k) ma_device option" where
  "send_loop cpu ops frameCount processed off input dev =
     (let cp = dev_capture dev; bpf = sd_bpf cp
      in if bpf = 0 then None
         else case cv_process ops (sd_converter cp) (drop off input) (ucast frameCount - processed) (replicate MA_DATA_CONVERTER_STACK_BUFFER_SIZE 0)
                     (of_nat (MA_DATA_CONVERTER_STACK_BUFFER_SIZE div unat bpf)) of
                (result, devN, buf, clientN, k) \<Rightarrow>
                  let dev = dev\<lparr>dev_capture := cp\<lparr>sd_converter := k\<rparr>\<rparr>
                  in if result \<noteq> MA_SUCCESS then Some dev
                     else case (if 0 < clientN then map_option snd (ma_device__handle_data_callback cpu NULL (Some buf) (ucast clientN) dev) else Some dev) of
                            None \<Rightarrow> None
                          | Some dev \<Rightarrow>
                              if devN = 0 \<and> clientN = 0 then Some dev
                              else send_loop cpu ops frameCount (processed + devN) (off + unat (devN * ucast (sd_internal_bpf cp))) input dev)"

definition ma_device__send_frames_to_client :: "ma_cpu \<Rightarrow> 'k converter_ops \<Rightarrow> u32 \<Rightarrow> u8 list \<Rightarrow> ('c, 'k) ma_device \<Rightarrow> ('c, 'k) ma_device option" where
  "ma_device__send_frames_to_client cpu ops frameCount pFramesIn dev =
     (if sd_isPassthrough (dev_capture dev)
      then map_option snd (ma_device__handle_data_callback cpu NULL (Some pFramesIn) frameCount dev)
      else send_loop cpu ops frameCount 0 0 pFramesIn dev)"

section \<open>Duplex on an asynchronous backend\<close>

text \<open>The captured frames are converted into a ring. The function reports success in every case.\<close>

partial_function (option) duplex_capture_loop :: "'k converter_ops \<Rightarrow> u32 \<Rightarrow> u32 \<Rightarrow> nat \<Rightarrow> u8 list \<Rightarrow> ('c, 'k) ma_device
    \<Rightarrow> ('c, 'k) ma_device option" where
  "duplex_capture_loop ops frameCount processed off input dev =
     (let cp = dev_capture dev; bpf = sd_bpf cp
      in if bpf = 0 then None
         else case ma_pcm_rb_acquire_write (Some (dev_duplexRB dev)) (of_nat (MA_DATA_CONVERTER_STACK_BUFFER_SIZE div unat bpf)) (Some NULL) of
                (result, n, data, rb) \<Rightarrow>
                  let dev = dev\<lparr>dev_duplexRB := the rb\<rparr>; rb = dev_duplexRB dev
                  in if result \<noteq> MA_SUCCESS then Some dev
                     else if n = 0 \<and> ma_pcm_rb_pointer_distance (Some rb) = ma_pcm_rb_get_subbuffer_size (Some rb) then Some dev
                     else let o1 = unat (the (the data)); mem = pBuffer (pcm_rb rb)
                          in case cv_process ops (sd_converter cp) (drop off input) (ucast (frameCount - processed)) (drop o1 mem) (ucast n) of
                               (result, devN, rest, clientN, k) \<Rightarrow>
                                 let dev = dev\<lparr>dev_capture := cp\<lparr>sd_converter := k\<rparr>,
                                               dev_duplexRB := rb\<lparr>pcm_rb := (pcm_rb rb)\<lparr>pBuffer := take o1 mem @ rest\<rparr>\<rparr>\<rparr>
                                 in if result \<noteq> MA_SUCCESS then Some dev
                                    else case ma_pcm_rb_commit_write (Some (dev_duplexRB dev)) (ucast clientN) of
                                      (result, rb) \<Rightarrow>
                                        let dev = dev\<lparr>dev_duplexRB := the rb\<rparr>
                                        in if result \<noteq> MA_SUCCESS \<or> clientN = 0 \<and> devN = 0 then Some dev
                                           else duplex_capture_loop ops frameCount (processed + ucast devN) (off + unat (devN * ucast (sd_internal_bpf cp))) input dev)"

definition ma_device__handle_duplex_callback_capture :: "'k converter_ops \<Rightarrow> u32 \<Rightarrow> u8 list \<Rightarrow> ('c, 'k) ma_device \<Rightarrow> (ma_result \<times> ('c, 'k) ma_device) option" where
  "ma_device__handle_duplex_callback_capture ops frameCount pFramesIn dev =
     map_option (\<lambda>dev. (MA_SUCCESS, dev)) (duplex_capture_loop ops frameCount 0 0 pFramesIn dev)"

text \<open>Refilling the playback cache from the ring through the callback: \<open>Inl\<close> is an underrun, which
  ends the loop, and otherwise the frames read, the input for the callback and the device.\<close>

definition duplex_refill :: "ma_cpu \<Rightarrow> ('c, 'k) ma_device \<Rightarrow> (unit + u32 \<times> ('c, 'k) ma_device) option" where
  "duplex_refill cpu dev =
     (let pb = dev_playback dev; rb = dev_duplexRB dev
      in case ma_pcm_rb_acquire_read (Some rb) (Some (ucast (sd_inputCacheCap pb))) (Some NULL) of
           (result, n, data) \<Rightarrow>
             if result = MA_SUCCESS
             then if 0 < the n
                  then map_option (\<lambda>(cache, dev). Inr (the n, dev\<lparr>dev_playback := (dev_playback dev)\<lparr>sd_pInputCache := cache\<rparr>\<rparr>))
                         (ma_device__handle_data_callback cpu (sd_pInputCache pb) (Some (drop (unat (the (the data))) (pBuffer (pcm_rb rb)))) (the n) dev)
                  else if ma_pcm_rb_pointer_distance (Some rb) = 0 then Some (Inl ())
                  else Some (Inr (the n, dev))
             else if sd_bpf (dev_capture dev) = 0 then None
             else let cap = of_nat (MA_DATA_CONVERTER_STACK_BUFFER_SIZE div unat (sd_bpf (dev_capture dev)));
                      n = ucast (if sd_inputCacheCap pb < cap then sd_inputCacheCap pb else cap)
                  in map_option (\<lambda>(cache, dev). Inr (n, dev\<lparr>dev_playback := (dev_playback dev)\<lparr>sd_pInputCache := cache\<rparr>\<rparr>))
                       (ma_device__handle_data_callback cpu (sd_pInputCache pb) (Some (replicate MA_DATA_CONVERTER_STACK_BUFFER_SIZE 0)) n dev))"

partial_function (option) duplex_playback_loop :: "ma_cpu \<Rightarrow> 'k converter_ops \<Rightarrow> u32 \<Rightarrow> u32 \<Rightarrow> nat \<Rightarrow> u8 list \<Rightarrow> ('c, 'k) ma_device
    \<Rightarrow> (ma_result \<times> u8 list \<times> ('c, 'k) ma_device) option" where
  "duplex_playback_loop cpu ops frameCount readOut off out dev =
     (if readOut < frameCount \<and> ma_device_is_started (Some dev)
      then let pb = dev_playback dev;
               (readOut, off, out, pb) =
                 (if 0 < sd_inputCacheRemaining pb
                  then case cv_process ops (sd_converter pb) (drop (ma_offset_pcm_frames_ptr (sd_inputCacheConsumed pb) (sd_format pb) (sd_channels pb))
                              (the (sd_pInputCache pb))) (sd_inputCacheRemaining pb) (drop off out) (ucast (frameCount - readOut)) of
                         (result, inN, rest, outN, k) \<Rightarrow>
                           (readOut + ucast outN, off + unat (outN * ucast (sd_internal_bpf pb)), take off out @ rest,
                            pb\<lparr>sd_converter := k, sd_inputCacheConsumed := sd_inputCacheConsumed pb + inN,
                               sd_inputCacheRemaining := sd_inputCacheRemaining pb - inN\<rparr>)
                  else (readOut, off, out, pb));
               dev = dev\<lparr>dev_playback := pb\<rparr>
           in if readOut < frameCount \<and> sd_inputCacheRemaining pb = 0
              then case duplex_refill cpu dev of
                     None \<Rightarrow> None
                   | Some (Inl _) \<Rightarrow> Some (MA_SUCCESS, out, dev)
                   | Some (Inr (n, dev)) \<Rightarrow>
                       let dev = dev\<lparr>dev_playback := (dev_playback dev)\<lparr>sd_inputCacheConsumed := 0, sd_inputCacheRemaining := ucast n\<rparr>\<rparr>
                       in case ma_pcm_rb_commit_read (Some (dev_duplexRB dev)) n of
                            (result, rb) \<Rightarrow>
                              let dev = dev\<lparr>dev_duplexRB := the rb\<rparr>
                              in if result \<noteq> MA_SUCCESS then Some (result, out, dev)
                                 else duplex_playback_loop cpu ops frameCount readOut off out dev
              else duplex_playback_loop cpu ops frameCount readOut off out dev
      else Some (MA_SUCCESS, out, dev))"

definition ma_device__handle_duplex_callback_playback :: "ma_cpu \<Rightarrow> 'k converter_ops \<Rightarrow> u32 \<Rightarrow> u8 list \<Rightarrow> ('c, 'k) ma_device
    \<Rightarrow> (ma_result \<times> u8 list \<times> ('c, 'k) ma_device) option" where
  "ma_device__handle_duplex_callback_playback cpu ops frameCount pFramesOut dev = duplex_playback_loop cpu ops frameCount 0 0 pFramesOut dev"

section \<open>Entry point of a backend\<close>

definition ma_device_handle_backend_data_callback :: "ma_cpu \<Rightarrow> 'k converter_ops \<Rightarrow> ('c, 'k) ma_device ptr \<Rightarrow> u8 list ptr \<Rightarrow> u8 list ptr \<Rightarrow> u32
    \<Rightarrow> (ma_result \<times> u8 list ptr \<times> ('c, 'k) ma_device ptr) option" where
  "ma_device_handle_backend_data_callback cpu ops pDevice pOutput pInput frameCount =
     (case pDevice of
        None \<Rightarrow> Some (MA_INVALID_ARGS, pOutput, NULL)
      | Some dev \<Rightarrow>
          if pOutput = NULL \<and> pInput = NULL \<or> frameCount = 0 then Some (MA_INVALID_ARGS, pOutput, pDevice)
          else if dev_type dev = ma_device_type_duplex
          then case (case pInput of Some input \<Rightarrow> map_option snd (ma_device__handle_duplex_callback_capture ops frameCount input dev)
                     | None \<Rightarrow> Some dev) of
                 None \<Rightarrow> None
               | Some dev \<Rightarrow>
                   (case pOutput of
                      Some out \<Rightarrow> map_option (\<lambda>(r, out, dev). (MA_SUCCESS, Some out, Some dev))
                                    (ma_device__handle_duplex_callback_playback cpu ops frameCount out dev)
                    | None \<Rightarrow> Some (MA_SUCCESS, pOutput, Some dev))
          else if dev_type dev = ma_device_type_playback
          then (case pOutput of
                  None \<Rightarrow> Some (MA_INVALID_ARGS, pOutput, pDevice)
                | Some out \<Rightarrow> map_option (\<lambda>(out, dev). (MA_SUCCESS, Some out, Some dev)) (ma_device__read_frames_from_client cpu ops frameCount out dev))
          else (case pInput of
                  None \<Rightarrow> Some (MA_INVALID_ARGS, pOutput, pDevice)
                | Some input \<Rightarrow> map_option (\<lambda>dev. (MA_SUCCESS, pOutput, Some dev)) (ma_device__send_frames_to_client cpu ops frameCount input dev)))"

end
