(* ===== verification/MaDeviceData.thy ===== *)
theory MaDeviceData
  imports MaDevice
begin

text \<open>
  What the fixed-size callback of a device guarantees. A playback device gives the backend the
  concatenation of the periods the application produced, in order, across any sequence of request
  sizes; a capture device gives the application the captured stream cut into periods.
\<close>

section \<open>Copies between buffers\<close>

lemma offset_ptr_eq: "ma_offset_pcm_frames_ptr (ucast (n :: u32)) fmt chs = unat n * unat (ma_get_bytes_per_frame fmt chs)"
proof -
  have "unat n * unat (ma_get_bytes_per_frame fmt chs) < 2 ^ 32 * 2 ^ 32" by (intro mult_strict_mono) simp_all
  then show ?thesis by (simp add: ma_offset_pcm_frames_ptr_def unat_mult_lt)
qed

lemma copy_frames_at_eq:
  "copy_frames_at dst d src s n fmt chs =
     (let b = unat (ma_get_bytes_per_frame fmt chs) in mem_write dst (unat d * b) (mem_read src (unat s * b) (unat n * b)))"
  if "unat d * unat (ma_get_bytes_per_frame fmt chs) \<le> length dst"
proof -
  let ?b = "unat (ma_get_bytes_per_frame fmt chs)"
  have "unat (ucast n * ucast (ma_get_bytes_per_frame fmt chs) :: u64) = unat n * ?b"
    using offset_ptr_eq [of n fmt chs] by (simp add: ma_offset_pcm_frames_ptr_def)
  then show ?thesis
    using that unfolding copy_frames_at_def offset_ptr_eq ma_copy_pcm_frames_def ma_copy_memory_64_def Let_def
    by (simp add: mem_write_def mem_read_def add.commute)
qed

section \<open>Playback\<close>

text \<open>A side whose buffer holds \<open>cap\<close> frames, some of them pending.\<close>

definition sd_wf :: "'k ma_device_side \<Rightarrow> bool" where
  "sd_wf sd \<longleftrightarrow> 0 < unat (sd_bpf sd) \<and> 0 < unat (sd_intermediaryBufferCap sd) \<and>
     unat (sd_intermediaryBufferLen sd) \<le> unat (sd_intermediaryBufferCap sd) \<and>
     length (sd_pIntermediaryBuffer sd) = unat (sd_intermediaryBufferCap sd) * unat (sd_bpf sd) \<and>
     unat (sd_intermediaryBufferCap sd) * unat (sd_bpf sd) < 2 ^ 32"

definition sd_unplayed :: "'k ma_device_side \<Rightarrow> u8 list" where
  "sd_unplayed sd = drop ((unat (sd_intermediaryBufferCap sd) - unat (sd_intermediaryBufferLen sd)) * unat (sd_bpf sd)) (sd_pIntermediaryBuffer sd)"

definition sd_uncut :: "'k ma_device_side \<Rightarrow> u8 list" where
  "sd_uncut sd = take (unat (sd_intermediaryBufferLen sd) * unat (sd_bpf sd)) (sd_pIntermediaryBuffer sd)"

text \<open>Playing \<open>k\<close> frames of a side, and taking \<open>k\<close> frames into one.\<close>

lemma sd_played:
  assumes wf: "sd_wf sd" and k: "unat k \<le> unat (sd_intermediaryBufferLen sd)"
  defines "sd' \<equiv> sd\<lparr>sd_intermediaryBufferLen := sd_intermediaryBufferLen sd - k\<rparr>"
  shows "sd_wf sd'" "sd_unplayed sd' = drop (unat k * unat (sd_bpf sd)) (sd_unplayed sd)"
    "unat (sd_intermediaryBufferLen sd') = unat (sd_intermediaryBufferLen sd) - unat k"
proof -
  let ?L = "unat (sd_intermediaryBufferLen sd)" and ?C = "unat (sd_intermediaryBufferCap sd)"
  have l: "unat (sd_intermediaryBufferLen sd - k) = ?L - unat k" using k by (simp add: unat_diff_le word_le_nat_alt)
  have le: "?L \<le> ?C" using wf by (simp add: sd_wf_def)
  then have "?L - unat k \<le> ?C" by simp
  then show "sd_wf sd'" using wf by (simp add: sd'_def sd_wf_def sd_bpf_def l)
  have e: "?C - (?L - unat k) = unat k + (?C - ?L)" using k le by simp
  have "sd_unplayed sd' = drop ((?C - (?L - unat k)) * unat (sd_bpf sd)) (sd_pIntermediaryBuffer sd)"
    by (simp add: sd'_def sd_unplayed_def l sd_bpf_def)
  then show "sd_unplayed sd' = drop (unat k * unat (sd_bpf sd)) (sd_unplayed sd)"
    unfolding e by (simp add: sd_unplayed_def add_mult_distrib)
  show "unat (sd_intermediaryBufferLen sd') = ?L - unat k" by (simp add: sd'_def l)
qed

lemma length_sd_unplayed: "sd_wf sd \<Longrightarrow> length (sd_unplayed sd) = unat (sd_intermediaryBufferLen sd) * unat (sd_bpf sd)"
  by (simp add: sd_wf_def sd_unplayed_def diff_mult_distrib)

lemma length_sd_uncut: "sd_wf sd \<Longrightarrow> length (sd_uncut sd) = unat (sd_intermediaryBufferLen sd) * unat (sd_bpf sd)"
  by (simp add: sd_wf_def sd_uncut_def)

lemma copy_unplayed:
  assumes "sd_wf sd" "unat p * unat (sd_bpf sd) \<le> length out"
  shows "copy_frames_at out p (sd_pIntermediaryBuffer sd) (sd_intermediaryBufferCap sd - sd_intermediaryBufferLen sd) k (sd_format sd) (sd_channels sd)
    = mem_write out (unat p * unat (sd_bpf sd)) (take (unat k * unat (sd_bpf sd)) (sd_unplayed sd))"
proof -
  have "unat (sd_intermediaryBufferCap sd - sd_intermediaryBufferLen sd) = unat (sd_intermediaryBufferCap sd) - unat (sd_intermediaryBufferLen sd)"
    using assms(1) by (simp add: sd_wf_def unat_diff_le word_le_nat_alt)
  then show ?thesis
    using assms(2) by (subst copy_frames_at_eq) (simp_all add: Let_def sd_unplayed_def sd_bpf_def mem_read_def)
qed

lemma sd_taken:
  assumes wf: "sd_wf sd" and k: "unat (sd_intermediaryBufferLen sd) + unat k \<le> unat (sd_intermediaryBufferCap sd)"
    and inp: "(unat p + unat k) * unat (sd_bpf sd) \<le> length input"
  defines "seg \<equiv> mem_read input (unat p * unat (sd_bpf sd)) (unat k * unat (sd_bpf sd))"
  defines "sd' \<equiv> sd\<lparr>sd_pIntermediaryBuffer := copy_frames_at (sd_pIntermediaryBuffer sd) (sd_intermediaryBufferLen sd) input p k (sd_format sd) (sd_channels sd),
      sd_intermediaryBufferLen := sd_intermediaryBufferLen sd + k\<rparr>"
  shows "sd_wf sd'" "sd_uncut sd' = sd_uncut sd @ seg" "unat (sd_intermediaryBufferLen sd') = unat (sd_intermediaryBufferLen sd) + unat k"
proof -
  let ?L = "unat (sd_intermediaryBufferLen sd)" and ?b = "unat (sd_bpf sd)" and ?m = "sd_pIntermediaryBuffer sd"
  have l: "unat (sd_intermediaryBufferLen sd + k) = ?L + unat k" using order_le_less_trans [OF k, of "2 ^ 32"] by (simp add: unat_add_lt)
  have ls: "length seg = unat k * ?b" using inp by (simp add: seg_def mem_read_def add_mult_distrib)
  have lm: "?L * ?b + length seg \<le> length ?m"
    using wf ls mult_le_mono1 [OF k, of ?b] by (simp add: sd_wf_def add_mult_distrib)
  then have c: "copy_frames_at ?m (sd_intermediaryBufferLen sd) input p k (sd_format sd) (sd_channels sd) = mem_write ?m (?L * ?b) seg"
    by (subst copy_frames_at_eq) (simp_all add: sd_bpf_def Let_def seg_def)
  have lw: "length (mem_write ?m (?L * ?b) seg) = length ?m" using lm by (simp add: mem_write_def)
  show "sd_wf sd'" using wf k by (simp add: sd'_def c sd_wf_def sd_bpf_def l lw [unfolded sd_bpf_def])
  show "unat (sd_intermediaryBufferLen sd') = ?L + unat k" by (simp add: sd'_def l)
  have "sd_uncut sd' = take ((?L + unat k) * ?b) (mem_write ?m (?L * ?b) seg)"
    unfolding sd'_def c by (simp add: sd_uncut_def l sd_bpf_def)
  also have "\<dots> = take (?L * ?b) ?m @ seg" using lm ls by (simp add: mem_write_def add_mult_distrib)
  finally show "sd_uncut sd' = sd_uncut sd @ seg" by (simp add: sd_uncut_def)
qed

text \<open>The frames of an iteration: the smaller of what the buffer allows and what remains.\<close>

lemma step_frames:
  fixes p N m k :: u32
  assumes "p < N" "0 < m" and k: "k = (if m < N - p then m else N - p)"
  shows "0 < k" "unat k \<le> unat m" "unat p + unat k \<le> unat N" "unat (p + k) = unat p + unat k"
proof -
  have np: "unat (N - p) = unat N - unat p" "unat p < unat N"
    using assms(1) by (simp_all add: unat_diff_le less_imp_le) (simp add: word_less_nat_alt)
  show "0 < k" "unat k \<le> unat m" "unat p + unat k \<le> unat N"
    using assms np by (auto simp: k word_less_nat_alt split: if_splits)
  then have "unat p + unat k < 2 ^ 32" by (rule_tac order_le_less_trans [of _ "unat N"]) simp_all
  then show "unat (p + k) = unat p + unat k" by (simp add: unat_add_lt)
qed

text \<open>What the interface asks of an application that plays: given a buffer of a period it returns a
  buffer of a period.\<close>

locale playback_client =
  fixes onData :: "'c ma_device_data_proc" and ok :: "'c \<Rightarrow> bool" and n :: u32 and b :: nat
  assumes fills: "ok c \<Longrightarrow> length buf = unat n * b \<Longrightarrow>
    \<exists>buf' c'. onData (Some buf) NULL n c = (Some buf', c') \<and> length buf' = unat n * b \<and> ok c'"

text \<open>A period of the application: its output on a buffer of silence. A stream of periods.\<close>

definition client_period :: "'c ma_device_data_proc \<Rightarrow> u8 list \<Rightarrow> u32 \<Rightarrow> 'c \<Rightarrow> u8 list \<times> 'c" where
  "client_period onData silence n c = (case onData (Some silence) NULL n c of (out, c') \<Rightarrow> (the out, c'))"

fun client_stream :: "('c \<Rightarrow> u8 list \<times> 'c) \<Rightarrow> nat \<Rightarrow> 'c \<Rightarrow> u8 list \<times> 'c" where
  "client_stream f 0 c = ([], c)"
| "client_stream f (Suc m) c = (case f c of (bs, c1) \<Rightarrow> case client_stream f m c1 of (rest, c2) \<Rightarrow> (bs @ rest, c2))"

definition sd_silence :: "'k ma_device_side \<Rightarrow> u8 list" where
  "sd_silence sd = ma_silence_pcm_frames (ucast (sd_intermediaryBufferCap sd)) (sd_format sd) (sd_channels sd)"

text \<open>The device parameters that a callback leaves alone, and a playback device ready to run.\<close>

definition pb_ready :: "'c ma_device_data_proc \<Rightarrow> ('c \<Rightarrow> bool) \<Rightarrow> ('c, 'k) ma_device \<Rightarrow> bool" where
  "pb_ready onData ok dev \<longleftrightarrow> dev_type dev = ma_device_type_playback \<and> dev_onData dev = Some onData \<and>
     \<not> dev_noPreSilencedOutputBuffer dev \<and> sd_wf (dev_playback dev) \<and> ok (dev_client dev)"

definition pb_same :: "('c, 'k) ma_device \<Rightarrow> ('c, 'k) ma_device \<Rightarrow> bool" where
  "pb_same dev dev' \<longleftrightarrow> (\<exists>buf len c. dev' = dev\<lparr>dev_playback := (dev_playback dev)\<lparr>sd_pIntermediaryBuffer := buf, sd_intermediaryBufferLen := len\<rparr>,
     dev_client := c\<rparr>)"

lemma length_sd_silence: "sd_wf sd \<Longrightarrow> length (sd_silence sd) = unat (sd_intermediaryBufferCap sd) * unat (sd_bpf sd)"
  using length_silence [of "ucast (sd_intermediaryBufferCap sd)" "sd_format sd" "sd_channels sd"]
  by (simp add: sd_wf_def sd_silence_def sd_bpf_def)

lemma mem_write_all: "length xs = length m \<Longrightarrow> mem_write m 0 xs = xs"
  by (simp add: mem_write_def)

text \<open>The application fills the empty playback buffer.\<close>

definition pb_refill :: "('c, 'k) ma_device \<Rightarrow> ('c, 'k) ma_device" where
  "pb_refill dev = (case ma_device__on_data_inner (Some (sd_pIntermediaryBuffer (dev_playback dev))) NULL (sd_intermediaryBufferCap (dev_playback dev)) dev of
     (out, d) \<Rightarrow> d\<lparr>dev_playback := (dev_playback d)\<lparr>sd_pIntermediaryBuffer := the out, sd_intermediaryBufferLen := sd_intermediaryBufferCap (dev_playback dev)\<rparr>\<rparr>)"

lemma inner_keeps [simp]:
  "dev_type (snd (ma_device__on_data_inner out inp n dev)) = dev_type dev"
  "dev_playback (snd (ma_device__on_data_inner out inp n dev)) = dev_playback dev"
  "dev_capture (snd (ma_device__on_data_inner out inp n dev)) = dev_capture dev"
  by (simp_all add: ma_device__on_data_inner_def Let_def split_beta split: option.split)

lemma on_data_step_playback:
  assumes "dev_type dev = ma_device_type_playback" "0 < sd_intermediaryBufferLen (dev_playback dev)"
  shows "on_data_step NULL N p (Some out) dev =
    (let pb = dev_playback dev; len = sd_intermediaryBufferLen pb; k = (if len < N - p then len else N - p);
         d = dev\<lparr>dev_playback := pb\<lparr>sd_intermediaryBufferLen := len - k\<rparr>\<rparr>
     in (p + k, Some (copy_frames_at out p (sd_pIntermediaryBuffer pb) (sd_intermediaryBufferCap pb - len) k (sd_format pb) (sd_channels pb)),
         if len - k = 0 then pb_refill d else d))"
  using assms unfolding on_data_step_def on_data_playback_def on_data_duplex_def pb_refill_def Let_def
  by (auto simp: split_beta)

lemma on_data_step_empty:
  assumes "dev_type dev = ma_device_type_playback" "sd_intermediaryBufferLen (dev_playback dev) = 0"
  shows "on_data_step NULL N p (Some out) dev = (p, Some out, pb_refill dev)"
  using assms unfolding on_data_step_def on_data_playback_def on_data_duplex_def pb_refill_def Let_def
  by (auto simp: split_beta)

text \<open>After a refill a whole period is unplayed.\<close>

lemma pb_refill_ready:
  assumes cl: "playback_client onData ok (sd_intermediaryBufferCap (dev_playback dev)) (unat (sd_bpf (dev_playback dev)))"
    and r: "pb_ready onData ok dev"
  shows "pb_ready onData ok (pb_refill dev)" "pb_same dev (pb_refill dev)" "0 < sd_intermediaryBufferLen (dev_playback (pb_refill dev))"
    "(sd_unplayed (dev_playback (pb_refill dev)), dev_client (pb_refill dev)) =
       client_period onData (sd_silence (dev_playback dev)) (sd_intermediaryBufferCap (dev_playback dev)) (dev_client dev)"
proof -
  let ?pb = "dev_playback dev"
  have wf: "sd_wf ?pb" and ty: "dev_onData dev = Some onData" "\<not> dev_noPreSilencedOutputBuffer dev" "ok (dev_client dev)"
    using r by (simp_all add: pb_ready_def)
  obtain buf' c' where c': "onData (Some (sd_silence ?pb)) NULL (sd_intermediaryBufferCap ?pb) (dev_client dev) = (Some buf', c')"
      "length buf' = unat (sd_intermediaryBufferCap ?pb) * unat (sd_bpf ?pb)" "ok c'"
    using playback_client.fills [OF cl ty(3) length_sd_silence [OF wf]] by blast
  have "mem_write (sd_pIntermediaryBuffer ?pb) 0 (sd_silence ?pb) = sd_silence ?pb"
    using wf length_sd_silence [OF wf] by (intro mem_write_all) (simp add: sd_wf_def)
  then have e: "pb_refill dev = dev\<lparr>dev_playback := ?pb\<lparr>sd_pIntermediaryBuffer := buf', sd_intermediaryBufferLen := sd_intermediaryBufferCap ?pb\<rparr>, dev_client := c'\<rparr>"
    using c'(1) ty by (simp add: pb_refill_def ma_device__on_data_inner_def sd_silence_def)
  show "pb_ready onData ok (pb_refill dev)" using r c' by (simp add: e pb_ready_def sd_wf_def sd_bpf_def)
  show "pb_same dev (pb_refill dev)" by (auto simp: pb_same_def e)
  show "0 < sd_intermediaryBufferLen (dev_playback (pb_refill dev))" using wf by (simp add: e sd_wf_def word_less_nat_alt)
  show "(sd_unplayed (dev_playback (pb_refill dev)), dev_client (pb_refill dev)) =
       client_period onData (sd_silence ?pb) (sd_intermediaryBufferCap ?pb) (dev_client dev)"
    by (simp add: e sd_unplayed_def client_period_def c')
qed

lemma pb_same_refl: "pb_same dev dev"
  unfolding pb_same_def
  by (rule exI [of _ "sd_pIntermediaryBuffer (dev_playback dev)"], rule exI [of _ "sd_intermediaryBufferLen (dev_playback dev)"],
      rule exI [of _ "dev_client dev"]) simp

lemma pb_same_trans: "pb_same a b \<Longrightarrow> pb_same b c \<Longrightarrow> pb_same a c"
  unfolding pb_same_def by fastforce

lemma pb_same_simps:
  assumes "pb_same dev dev'"
  shows "sd_bpf (dev_playback dev') = sd_bpf (dev_playback dev)" "sd_intermediaryBufferCap (dev_playback dev') = sd_intermediaryBufferCap (dev_playback dev)"
    "sd_silence (dev_playback dev') = sd_silence (dev_playback dev)"
  using assms by (auto simp: pb_same_def sd_bpf_def sd_silence_def)

text \<open>One iteration with frames in the buffer: some of them are played, and when none is left the
  application provides the next period.\<close>

lemma playback_step:
  assumes cl: "playback_client onData ok (sd_intermediaryBufferCap (dev_playback dev)) (unat (sd_bpf (dev_playback dev)))"
    and r: "pb_ready onData ok dev" and len: "0 < sd_intermediaryBufferLen (dev_playback dev)" and p: "p < N"
    and out: "length out = unat N * unat (sd_bpf (dev_playback dev))"
  defines "b \<equiv> unat (sd_bpf (dev_playback dev))"
  defines "f \<equiv> client_period onData (sd_silence (dev_playback dev)) (sd_intermediaryBufferCap (dev_playback dev))"
  shows "\<exists>k dev'. 0 < k \<and> unat p + unat k \<le> unat N \<and> unat k * b \<le> length (sd_unplayed (dev_playback dev)) \<and>
    on_data_step NULL N p (Some out) dev = (p + k, Some (mem_write out (unat p * b) (take (unat k * b) (sd_unplayed (dev_playback dev)))), dev') \<and>
    pb_ready onData ok dev' \<and> pb_same dev dev' \<and> 0 < sd_intermediaryBufferLen (dev_playback dev') \<and>
    (sd_unplayed (dev_playback dev') = drop (unat k * b) (sd_unplayed (dev_playback dev)) \<and> dev_client dev' = dev_client dev
     \<or> unat k * b = length (sd_unplayed (dev_playback dev)) \<and> (sd_unplayed (dev_playback dev'), dev_client dev') = f (dev_client dev))"
proof -
  let ?pb = "dev_playback dev" and ?u = "sd_unplayed (dev_playback dev)"
  define L where "L = sd_intermediaryBufferLen ?pb"
  define k where "k = (if L < N - p then L else N - p)"
  define d where "d = dev\<lparr>dev_playback := ?pb\<lparr>sd_intermediaryBufferLen := L - k\<rparr>\<rparr>"
  define dev' where "dev' = (if L - k = 0 then pb_refill d else d)"
  have wf: "sd_wf ?pb" using r by (simp add: pb_ready_def)
  have k: "0 < k" "unat k \<le> unat L" "unat p + unat k \<le> unat N" using step_frames [OF p len, folded L_def, OF k_def] by simp_all
  note pl = sd_played [OF wf k(2) [unfolded L_def], folded L_def b_def]
  have lun: "length ?u = unat L * b" using length_sd_unplayed [OF wf] by (simp add: L_def b_def)
  have "unat p * b \<le> length out" using k(3) out by (simp add: b_def)
  then have st: "on_data_step NULL N p (Some out) dev = (p + k, Some (mem_write out (unat p * b) (take (unat k * b) ?u)), dev')"
    using on_data_step_playback [of dev N p out] r len copy_unplayed [OF wf, of p out k, folded L_def b_def]
    unfolding Let_def L_def [symmetric] k_def [symmetric] d_def [symmetric] dev'_def [symmetric] by (simp add: pb_ready_def)
  have rd: "pb_ready onData ok d" using r pl(1) by (simp add: pb_ready_def d_def)
  have sm: "pb_same dev d" unfolding pb_same_def d_def
    by (rule exI [of _ "sd_pIntermediaryBuffer ?pb"], rule exI, rule exI [of _ "dev_client dev"]) simp
  have fin: "pb_ready onData ok dev' \<and> pb_same dev dev' \<and> 0 < sd_intermediaryBufferLen (dev_playback dev') \<and>
    (sd_unplayed (dev_playback dev') = drop (unat k * b) ?u \<and> dev_client dev' = dev_client dev
     \<or> unat k * b = length ?u \<and> (sd_unplayed (dev_playback dev'), dev_client dev') = f (dev_client dev))"
  proof (cases "L - k = 0")
    case True
    have cl': "playback_client onData ok (sd_intermediaryBufferCap (dev_playback d)) (unat (sd_bpf (dev_playback d)))"
      using cl pb_same_simps [OF sm] by simp
    have "dev_client d = dev_client dev" by (simp add: d_def)
    with True lun pb_refill_ready [OF cl' rd] pb_same_trans [OF sm] pb_same_simps [OF sm] show ?thesis
      by (simp add: dev'_def f_def)
  next
    case False
    have "sd_unplayed (dev_playback d) = drop (unat k * b) ?u" using pl(2) by (simp add: d_def)
    moreover have "dev_client d = dev_client dev" "0 < sd_intermediaryBufferLen (dev_playback d)" using False by (simp_all add: d_def word_neq_0_conv [symmetric])
    ultimately show ?thesis using False rd sm by (simp add: dev'_def)
  qed
  show ?thesis
    by (rule exI [of _ k], rule exI [of _ dev']) (use k lun st fin in \<open>simp add: mult_le_mono1\<close>)
qed
text \<open>The whole loop. The output is the unplayed frames followed by as many new periods as are needed;
  what is left of them is the unplayed part afterwards.\<close>

lemma client_stream_Suc_fst: "f c = (bs, c1) \<Longrightarrow> client_stream f m c1 = (rest, c2) \<Longrightarrow> client_stream f (Suc m) c = (bs @ rest, c2)"
  by simp

lemma mem_write_twice:
  "i \<le> length m \<Longrightarrow> mem_write (mem_write m i xs) (i + length xs) ys = mem_write m i (xs @ ys)"
  by (simp add: mem_write_def ac_simps)

lemma playback_loop:
  assumes cl: "playback_client onData ok (sd_intermediaryBufferCap (dev_playback dev)) (unat (sd_bpf (dev_playback dev)))"
    and r: "pb_ready onData ok dev" and len: "0 < sd_intermediaryBufferLen (dev_playback dev)" and p: "p \<le> N"
    and out: "length out = unat N * unat (sd_bpf (dev_playback dev))"
  defines "b \<equiv> unat (sd_bpf (dev_playback dev))"
  defines "f \<equiv> client_period onData (sd_silence (dev_playback dev)) (sd_intermediaryBufferCap (dev_playback dev))"
  shows "\<exists>m rest c dev'. client_stream f m (dev_client dev) = (rest, c) \<and>
    on_data_loop NULL N p (Some out) dev =
      Some (Some (mem_write out (unat p * b) (take ((unat N - unat p) * b) (sd_unplayed (dev_playback dev) @ rest))), dev') \<and>
    pb_ready onData ok dev' \<and> pb_same dev dev' \<and> 0 < sd_intermediaryBufferLen (dev_playback dev') \<and> dev_client dev' = c \<and>
    (unat N - unat p) * b \<le> length (sd_unplayed (dev_playback dev) @ rest) \<and>
    sd_unplayed (dev_playback dev') = drop ((unat N - unat p) * b) (sd_unplayed (dev_playback dev) @ rest)"
  using cl r len p out unfolding b_def f_def
proof (induction "unat N - unat p" arbitrary: p out dev rule: less_induct)
  case less
  let ?b = "unat (sd_bpf (dev_playback dev))" and ?u = "sd_unplayed (dev_playback dev)"
  let ?f = "client_period onData (sd_silence (dev_playback dev)) (sd_intermediaryBufferCap (dev_playback dev))"
  show ?case
  proof (cases "p < N")
    case False
    then have "p = N" using less.prems(4) by simp
    then show ?thesis using less.prems
      by (intro exI [of _ 0] exI [of _ "[]"] exI [of _ "dev_client dev"] exI [of _ dev])
        (simp_all add: on_data_loop.simps mem_write_def pb_same_refl)
  next
    case True
    obtain k d where k: "0 < k" "unat p + unat k \<le> unat N" "unat k * ?b \<le> length ?u"
      and st: "on_data_step NULL N p (Some out) dev = (p + k, Some (mem_write out (unat p * ?b) (take (unat k * ?b) ?u)), d)"
      and d: "pb_ready onData ok d" "pb_same dev d" "0 < sd_intermediaryBufferLen (dev_playback d)"
      and alt: "sd_unplayed (dev_playback d) = drop (unat k * ?b) ?u \<and> dev_client d = dev_client dev
        \<or> unat k * ?b = length ?u \<and> (sd_unplayed (dev_playback d), dev_client d) = ?f (dev_client dev)"
      using playback_step [OF less.prems(1-3) True less.prems(5)] by blast
    let ?out = "mem_write out (unat p * ?b) (take (unat k * ?b) ?u)"
    have pk: "unat (p + k) = unat p + unat k" using order_le_less_trans [OF k(2), of "2 ^ 32"] by (simp add: unat_add_lt)
    have lo: "unat p * ?b \<le> length out" using True less.prems(5) by (simp add: word_less_nat_alt)
    note same = pb_same_simps [OF d(2)]
    have "unat p * ?b + unat k * ?b \<le> length out" using k(2) less.prems(5) by (metis add_mult_distrib mult_le_mono1)
    then have lo': "length ?out = unat N * ?b" using less.prems(5) k(3) by (simp add: mem_write_def)
    have lt: "unat N - unat (p + k) < unat N - unat p" using k pk by (simp add: word_less_nat_alt)
    have "p + k \<le> N" using k(2) pk by (simp add: word_le_nat_alt)
    then obtain m rest c dev' where
        s: "client_stream ?f m (dev_client d) = (rest, c)"
      and l: "on_data_loop NULL N (p + k) (Some ?out) d =
        Some (Some (mem_write ?out (unat (p + k) * ?b) (take ((unat N - unat (p + k)) * ?b) (sd_unplayed (dev_playback d) @ rest))), dev')"
      and e: "pb_ready onData ok dev'" "pb_same d dev'" "0 < sd_intermediaryBufferLen (dev_playback dev')" "dev_client dev' = c"
        "(unat N - unat (p + k)) * ?b \<le> length (sd_unplayed (dev_playback d) @ rest)"
        "sd_unplayed (dev_playback dev') = drop ((unat N - unat (p + k)) * ?b) (sd_unplayed (dev_playback d) @ rest)"
      using less.hyps [OF lt _ d(1) d(3)] less.prems(1) lo' unfolding same by blast
    have tot: "(unat N - unat p) * ?b = unat k * ?b + (unat N - unat (p + k)) * ?b"
      using k(2) pk by (simp add: add_mult_distrib [symmetric])
    obtain m' rest' where s': "client_stream ?f m' (dev_client dev) = (rest', c)" and
      u: "?u @ rest' = take (unat k * ?b) ?u @ (sd_unplayed (dev_playback d) @ rest)"
    proof (cases "sd_unplayed (dev_playback d) = drop (unat k * ?b) ?u \<and> dev_client d = dev_client dev")
      case True
      then show ?thesis using s by (intro that [of m rest]) (simp_all flip: append_assoc)
    next
      case False
      then have "unat k * ?b = length ?u" "?f (dev_client dev) = (sd_unplayed (dev_playback d), dev_client d)" using alt by auto
      then show ?thesis using s by (intro that [of "Suc m" "sd_unplayed (dev_playback d) @ rest"]) simp_all
    qed
    have tk: "length (take (unat k * ?b) ?u) = unat k * ?b" using k(3) by simp
    have w: "mem_write ?out (unat (p + k) * ?b) ys = mem_write out (unat p * ?b) (take (unat k * ?b) ?u @ ys)" for ys
      using mem_write_twice [OF lo, of "take (unat k * ?b) ?u" ys] tk pk by (simp add: add_mult_distrib)
    have t: "take ((unat N - unat p) * ?b) (?u @ rest') = take (unat k * ?b) ?u @ take ((unat N - unat (p + k)) * ?b) (sd_unplayed (dev_playback d) @ rest)"
      unfolding u tot using tk by simp
    have "on_data_loop NULL N p (Some out) dev =
      Some (Some (mem_write out (unat p * ?b) (take ((unat N - unat p) * ?b) (?u @ rest'))), dev')"
      using True l unfolding w t by (simp add: on_data_loop.simps [of NULL N p] st)
    moreover have "sd_unplayed (dev_playback dev') = drop ((unat N - unat p) * ?b) (?u @ rest')"
      unfolding u tot e(6) using tk by simp
    moreover have "(unat N - unat p) * ?b \<le> length (?u @ rest')" unfolding u tot using e(5) tk by simp
    ultimately show ?thesis using s' e pb_same_trans [OF d(2) e(2)] by blast
  qed
qed
section \<open>Requests of the backend\<close>

text \<open>Clipping of a stream of samples, whatever the way it is cut.\<close>

definition clip_stream :: "u8 list \<Rightarrow> u8 list" where
  "clip_stream bs = concat (map (\<lambda>i. bytes_of_f32 (ma_clip_f32 (f32_at bs i))) [0..<length bs div 4])"

lemma clip_samples_stream: "length bs = 4 * unat count \<Longrightarrow> ma_clip_samples_f32 bs bs count = clip_stream bs"
  unfolding ma_clip_samples_f32_def clip_stream_def by (subst f32_loop) simp_all

lemma clip_stream_append:
  assumes "length a = 4 * k"
  shows "clip_stream (a @ b) = clip_stream a @ clip_stream b"
proof -
  let ?g = "\<lambda>bs i. bytes_of_f32 (ma_clip_f32 (f32_at bs i))"
  have i: "[0..<length (a @ b) div 4] = [0..<k] @ map (\<lambda>i. i + k) [0..<length b div 4]"
    using assms by (simp add: upt_add_eq_append [of 0 k] map_add_upt add.commute)
  have a: "map (?g (a @ b)) [0..<k] = map (?g a) [0..<k]"
    using assms by (simp add: f32_at_append(1))
  have b: "map (?g (a @ b)) (map (\<lambda>i. i + k) [0..<length b div 4]) = map (?g b) [0..<length b div 4]"
    using f32_at_append(2) [OF assms] by simp
  show ?thesis unfolding clip_stream_def i map_append a b concat_append using assms by simp
qed

definition dev_clips :: "('c, 'k) ma_device \<Rightarrow> bool" where
  "dev_clips dev \<longleftrightarrow> \<not> dev_noClip dev \<and> sd_format (dev_playback dev) = ma_format_f32"

definition dev_sound :: "('c, 'k) ma_device \<Rightarrow> u8 list \<Rightarrow> u8 list" where
  "dev_sound dev bs = (if dev_clips dev then clip_stream bs else bs)"

text \<open>A playback device with the default volume whose format needs no conversion, while it runs. The
  initialisation of a device accepts at most 254 channels.\<close>

definition pb_direct :: "('c, 'k) ma_device \<Rightarrow> bool" where
  "pb_direct dev \<longleftrightarrow> sd_isPassthrough (dev_playback dev) \<and> unat (sd_channels (dev_playback dev)) \<le> 254 \<and> feq (dev_masterVolumeFactor dev) (FNum False 1) \<and>
     \<not> dev_noFixedSizedCallback dev \<and> dev_state dev \<noteq> ma_device_state_stopping"

lemma bpf_f32:
  assumes "pb_direct dev" "sd_format (dev_playback dev) = ma_format_f32"
  shows "unat (sd_bpf (dev_playback dev)) = 4 * unat (sd_channels (dev_playback dev))"
  using assms unfolding sd_bpf_def ma_get_bytes_per_frame_def pb_direct_def by (simp add: unat_mult_lt)

lemma pb_same_direct:
  assumes "pb_same dev dev'"
  shows "pb_direct dev' = pb_direct dev" "dev_sound dev' = dev_sound dev"
  using assms by (auto simp: pb_same_def pb_direct_def dev_sound_def dev_clips_def fun_eq_iff)

text \<open>The device played \<open>bs\<close>: what was unplayed, followed by the periods the application gave it
  meanwhile, is \<open>bs\<close> followed by what is unplayed now.\<close>

definition pb_played :: "('c \<Rightarrow> u8 list \<times> 'c) \<Rightarrow> ('c, 'k) ma_device \<Rightarrow> u8 list \<Rightarrow> ('c, 'k) ma_device \<Rightarrow> bool" where
  "pb_played f dev bs dev' \<longleftrightarrow> (\<exists>m rest. client_stream f m (dev_client dev) = (rest, dev_client dev') \<and>
     sd_unplayed (dev_playback dev) @ rest = bs @ sd_unplayed (dev_playback dev'))"

lemma client_stream_add:
  "client_stream f m c = (xs, c1) \<Longrightarrow> client_stream f k c1 = (ys, c2) \<Longrightarrow> client_stream f (m + k) c = (xs @ ys, c2)"
  by (induction m arbitrary: c xs) (auto split: prod.splits)

lemma pb_played_nil: "pb_played f dev [] dev"
  unfolding pb_played_def by (rule exI [of _ 0]) simp

lemma pb_played_append: "pb_played f d1 xs d2 \<Longrightarrow> pb_played f d2 ys d3 \<Longrightarrow> pb_played f d1 (xs @ ys) d3"
  unfolding pb_played_def by (metis append_assoc client_stream_add)

lemma pb_refill_played:
  assumes "playback_client onData ok (sd_intermediaryBufferCap (dev_playback dev)) (unat (sd_bpf (dev_playback dev)))"
    and "pb_ready onData ok dev" "sd_intermediaryBufferLen (dev_playback dev) = 0"
  shows "pb_played (client_period onData (sd_silence (dev_playback dev)) (sd_intermediaryBufferCap (dev_playback dev))) dev [] (pb_refill dev)"
proof -
  have "sd_unplayed (dev_playback dev) = []" using assms(2,3) by (simp add: sd_unplayed_def pb_ready_def sd_wf_def)
  with pb_refill_ready(4) [OF assms(1,2)] show ?thesis unfolding pb_played_def
    by (intro exI [of _ "Suc 0"]) (simp flip: pb_refill_ready(4) [OF assms(1,2)])
qed

text \<open>One request, whether or not the buffer is empty at first.\<close>

lemma playback_on_data:
  assumes cl: "playback_client onData ok (sd_intermediaryBufferCap (dev_playback dev)) (unat (sd_bpf (dev_playback dev)))"
    and r: "pb_ready onData ok dev" "pb_direct dev" and n: "0 < N"
    and out: "length out = unat N * unat (sd_bpf (dev_playback dev))"
  defines "f \<equiv> client_period onData (sd_silence (dev_playback dev)) (sd_intermediaryBufferCap (dev_playback dev))"
  shows "\<exists>bs dev'. ma_device__on_data (Some out) NULL N dev = Some (Some bs, dev') \<and> length bs = length out \<and>
    0 < sd_intermediaryBufferLen (dev_playback dev') \<and> pb_ready onData ok dev' \<and> pb_same dev dev' \<and> pb_played f dev bs dev'"
proof -
  have lp: "\<exists>bs dev'. on_data_loop NULL N 0 (Some out) d = Some (Some bs, dev') \<and> length bs = length out \<and>
      0 < sd_intermediaryBufferLen (dev_playback dev') \<and> pb_ready onData ok dev' \<and> pb_same dev dev' \<and> pb_played f d bs dev'"
    if d: "pb_ready onData ok d" "0 < sd_intermediaryBufferLen (dev_playback d)" "pb_same dev d" for d
  proof -
    let ?u = "sd_unplayed (dev_playback d)"
    note same = pb_same_simps [OF d(3)]
    obtain m rest dev' where s: "client_stream f m (dev_client d) = (rest, dev_client dev')" and
      l: "on_data_loop NULL N 0 (Some out) d = Some (Some (mem_write out 0 (take (length out) (?u @ rest))), dev')" and
      e: "pb_ready onData ok dev'" "pb_same d dev'" "length out \<le> length (?u @ rest)"
        "sd_unplayed (dev_playback dev') = drop (length out) (?u @ rest)" "0 < sd_intermediaryBufferLen (dev_playback dev')"
      using playback_loop [of onData ok d 0 N out] cl d(1,2) out unfolding same f_def by auto
    have "mem_write out 0 (take (length out) (?u @ rest)) = take (length out) (?u @ rest)"
      using e(3) by (intro mem_write_all) simp
    moreover have "pb_played f d (take (length out) (?u @ rest)) dev'"
      unfolding pb_played_def e(4) append_take_drop_id using s by blast
    ultimately show ?thesis using l e pb_same_trans [OF d(3) e(2)] by auto
  qed
  have od: "ma_device__on_data (Some out) NULL N dev = on_data_loop NULL N 0 (Some out) dev"
    using r(2) by (simp add: ma_device__on_data_def pb_direct_def)
  show ?thesis
  proof (cases "sd_intermediaryBufferLen (dev_playback dev) = 0")
    case False
    with lp [OF r(1) _ pb_same_refl] show ?thesis by (simp add: od word_neq_0_conv)
  next
    case True
    note rf = pb_refill_ready [OF cl r(1)]
    have "on_data_loop NULL N 0 (Some out) dev = on_data_loop NULL N 0 (Some out) (pb_refill dev)"
      using n on_data_step_empty [OF _ True, of N 0 out] r(1) by (simp add: on_data_loop.simps [of NULL N 0 _ dev] pb_ready_def)
    with lp [OF rf(1,3,2)] pb_played_append [OF pb_refill_played [OF cl r(1) True]] show ?thesis
      unfolding od f_def by fastforce
  qed
qed

text \<open>A request through the backend's entry point.\<close>

lemma playback_request:
  assumes cl: "playback_client onData ok (sd_intermediaryBufferCap (dev_playback dev)) (unat (sd_bpf (dev_playback dev)))"
    and r: "pb_ready onData ok dev" "pb_direct dev" and n: "0 < N" "unat N * unat (sd_bpf (dev_playback dev)) < 2 ^ 32"
    and out: "length out = unat N * unat (sd_bpf (dev_playback dev))"
  defines "f \<equiv> client_period onData (sd_silence (dev_playback dev)) (sd_intermediaryBufferCap (dev_playback dev))"
  shows "\<exists>bs dev'. ma_device_handle_backend_data_callback cpu ops (Some dev) (Some out) NULL N = Some (MA_SUCCESS, Some (dev_sound dev bs), Some dev') \<and>
    length bs = length out \<and> 0 < sd_intermediaryBufferLen (dev_playback dev') \<and> pb_ready onData ok dev' \<and> pb_same dev dev' \<and> pb_played f dev bs dev'"
proof -
  obtain bs dev' where bs: "ma_device__on_data (Some out) NULL N dev = Some (Some bs, dev')" "length bs = length out"
    "pb_ready onData ok dev'" "pb_same dev dev'" "pb_played f dev bs dev'" "0 < sd_intermediaryBufferLen (dev_playback dev')"
    using playback_on_data [OF cl r n(1) out] unfolding f_def by blast
  have clip: "ma_clip_samples_f32 bs bs (ucast (N * sd_channels (dev_playback dev))) = clip_stream bs" if "sd_format (dev_playback dev) = ma_format_f32"
  proof (rule clip_samples_stream)
    have c: "unat (sd_bpf (dev_playback dev)) = 4 * unat (sd_channels (dev_playback dev))" by (rule bpf_f32 [OF r(2) that])
    then have "unat (N * sd_channels (dev_playback dev)) = unat N * unat (sd_channels (dev_playback dev))"
      using n(2) by (simp add: unat_mult_lt)
    then show "length bs = 4 * unat (ucast (N * sd_channels (dev_playback dev)) :: u64)" using bs(2) out c by simp
  qed
  have "ma_device__handle_data_callback cpu (Some out) NULL N dev = Some (Some (dev_sound dev bs), dev')"
    using r bs(1) bs(4) clip unfolding pb_same_def
    by (auto simp: ma_device__handle_data_callback_def ma_device_get_master_volume_def pb_ready_def pb_direct_def dev_sound_def dev_clips_def)
  then show ?thesis using bs r n(1)
    by (auto simp: ma_device_handle_backend_data_callback_def ma_device__read_frames_from_client_def pb_ready_def pb_direct_def)
qed
text \<open>A sequence of requests, each with its buffer: the buffers that were filled, and the device.\<close>

fun backend_plays :: "ma_cpu \<Rightarrow> 'k converter_ops \<Rightarrow> (u32 \<times> u8 list) list \<Rightarrow> ('c, 'k) ma_device \<Rightarrow> (u8 list list \<times> ('c, 'k) ma_device) option" where
  "backend_plays cpu ops [] dev = Some ([], dev)"
| "backend_plays cpu ops ((n, buf) # rs) dev =
     (case ma_device_handle_backend_data_callback cpu ops (Some dev) (Some buf) NULL n of
        Some (r, Some out, Some dev') \<Rightarrow> if r = MA_SUCCESS then map_option (\<lambda>(outs, d). (out # outs, d)) (backend_plays cpu ops rs dev') else None
      | _ \<Rightarrow> None)"

definition request_ok :: "nat \<Rightarrow> u32 \<times> u8 list \<Rightarrow> bool" where
  "request_ok b r \<longleftrightarrow> 0 < fst r \<and> unat (fst r) * b < 2 ^ 32 \<and> length (snd r) = unat (fst r) * b"

lemma dev_sound_append:
  assumes "pb_direct dev" "length xs = n * unat (sd_bpf (dev_playback dev))"
  shows "dev_sound dev (xs @ ys) = dev_sound dev xs @ dev_sound dev ys"
proof (cases "dev_clips dev")
  case True
  then have "length xs = 4 * (n * unat (sd_channels (dev_playback dev)))"
    using assms(2) bpf_f32 [OF assms(1)] by (simp add: dev_clips_def)
  with True show ?thesis by (simp add: dev_sound_def clip_stream_append)
qed (simp add: dev_sound_def)

lemma length_clip_stream: "length bs = 4 * k \<Longrightarrow> length (clip_stream bs) = 4 * k"
  by (simp add: clip_stream_def length_concat comp_def sum_list_triv)

lemma length_dev_sound:
  assumes "pb_direct dev" "length xs = n * unat (sd_bpf (dev_playback dev))"
  shows "length (dev_sound dev xs) = length xs"
  using assms(2) bpf_f32 [OF assms(1)] length_clip_stream [of xs "n * unat (sd_channels (dev_playback dev))"]
  by (auto simp: dev_sound_def dev_clips_def)

lemma playback_requests:
  assumes "playback_client onData ok (sd_intermediaryBufferCap (dev_playback dev)) (unat (sd_bpf (dev_playback dev)))"
    and "pb_ready onData ok dev" "pb_direct dev" "list_all (request_ok (unat (sd_bpf (dev_playback dev)))) rs"
  shows "\<exists>outs bs dev'. backend_plays cpu ops rs dev = Some (outs, dev') \<and> map length outs = map (length \<circ> snd) rs \<and>
    concat outs = dev_sound dev bs \<and> length bs = (\<Sum>r\<leftarrow>rs. unat (fst r)) * unat (sd_bpf (dev_playback dev)) \<and>
    (rs \<noteq> [] \<longrightarrow> 0 < sd_intermediaryBufferLen (dev_playback dev')) \<and> pb_ready onData ok dev' \<and> pb_same dev dev' \<and>
    pb_played (client_period onData (sd_silence (dev_playback dev)) (sd_intermediaryBufferCap (dev_playback dev))) dev bs dev'"
  using assms
proof (induction rs arbitrary: dev)
  case Nil
  then show ?case
    by (intro exI [of _ "[]"] exI [of _ dev]) (simp add: pb_same_refl pb_played_nil dev_sound_def clip_stream_def)
next
  case (Cons r rs)
  obtain N out where r: "r = (N, out)" by (cases r)
  let ?f = "client_period onData (sd_silence (dev_playback dev)) (sd_intermediaryBufferCap (dev_playback dev))"
  have ok: "0 < N" "unat N * unat (sd_bpf (dev_playback dev)) < 2 ^ 32" "length out = unat N * unat (sd_bpf (dev_playback dev))"
    using Cons.prems(4) by (simp_all add: r request_ok_def)
  obtain bs d where d: "ma_device_handle_backend_data_callback cpu ops (Some dev) (Some out) NULL N = Some (MA_SUCCESS, Some (dev_sound dev bs), Some d)"
    "length bs = length out" "pb_ready onData ok d" "pb_same dev d" "pb_played ?f dev bs d" "0 < sd_intermediaryBufferLen (dev_playback d)"
    using playback_request [OF Cons.prems(1-3) ok] by blast
  note same = pb_same_simps [OF d(4)] pb_same_direct [OF d(4)]
  have "list_all (request_ok (unat (sd_bpf (dev_playback dev)))) rs" using Cons.prems(4) by simp
  then obtain outs bs' dev' where e: "backend_plays cpu ops rs d = Some (outs, dev')" "map length outs = map (length \<circ> snd) rs"
    "concat outs = dev_sound dev bs'" "pb_ready onData ok dev'" "pb_same d dev'" "pb_played ?f d bs' dev'"
    "length bs' = (\<Sum>r\<leftarrow>rs. unat (fst r)) * unat (sd_bpf (dev_playback dev))" "rs \<noteq> [] \<longrightarrow> 0 < sd_intermediaryBufferLen (dev_playback dev')"
    using Cons.IH [of d] Cons.prems(1,3) d(3) unfolding same by metis
  have "dev_sound dev bs @ dev_sound dev bs' = dev_sound dev (bs @ bs')"
    using dev_sound_append [OF Cons.prems(3), of bs "unat N"] d(2) ok(3) by simp
  moreover have "length (dev_sound dev bs) = length out"
    using length_dev_sound [OF Cons.prems(3), of bs "unat N"] d(2) ok(3) by simp
  ultimately show ?case
    using d(1) e pb_same_trans [OF d(4) e(5)] pb_played_append [OF d(5) e(6)]
    by (intro exI [of _ "dev_sound dev bs # outs"] exI [of _ "bs @ bs'"] exI [of _ dev']) (use ok(3) d(2,6) in \<open>cases rs; simp add: r add_mult_distrib\<close>)
qed
section \<open>Capture\<close>

text \<open>A device that records: the frames it was given are handed to the application in whole periods,
  and the rest is kept.\<close>

definition cp_ready :: "'c ma_device_data_proc \<Rightarrow> ('c, 'k) ma_device \<Rightarrow> bool" where
  "cp_ready onData dev \<longleftrightarrow> dev_type dev = ma_device_type_capture \<and> dev_onData dev = Some onData \<and> sd_wf (dev_capture dev)"

definition cp_same :: "('c, 'k) ma_device \<Rightarrow> ('c, 'k) ma_device \<Rightarrow> bool" where
  "cp_same dev dev' \<longleftrightarrow> (\<exists>buf len c. dev' = dev\<lparr>dev_capture := (dev_capture dev)\<lparr>sd_pIntermediaryBuffer := buf, sd_intermediaryBufferLen := len\<rparr>,
     dev_client := c\<rparr>)"

definition client_feed :: "'c ma_device_data_proc \<Rightarrow> u32 \<Rightarrow> u8 list list \<Rightarrow> 'c \<Rightarrow> 'c" where
  "client_feed onData n ps c = fold (\<lambda>p c. snd (onData NULL (Some p) n c)) ps c"

definition cp_taken :: "'c ma_device_data_proc \<Rightarrow> ('c, 'k) ma_device \<Rightarrow> u8 list \<Rightarrow> ('c, 'k) ma_device \<Rightarrow> bool" where
  "cp_taken onData dev bs dev' \<longleftrightarrow> (let n = sd_intermediaryBufferCap (dev_capture dev) in
     \<exists>ps. sd_uncut (dev_capture dev) @ bs = concat ps @ sd_uncut (dev_capture dev') \<and>
       list_all (\<lambda>p. length p = unat n * unat (sd_bpf (dev_capture dev))) ps \<and> dev_client dev' = client_feed onData n ps (dev_client dev))"

lemma cp_same_refl: "cp_same dev dev"
  unfolding cp_same_def
  by (rule exI [of _ "sd_pIntermediaryBuffer (dev_capture dev)"], rule exI [of _ "sd_intermediaryBufferLen (dev_capture dev)"],
      rule exI [of _ "dev_client dev"]) simp

lemma cp_same_trans: "cp_same a b \<Longrightarrow> cp_same b c \<Longrightarrow> cp_same a c"
  unfolding cp_same_def by fastforce

lemma cp_same_simps:
  assumes "cp_same dev dev'"
  shows "sd_bpf (dev_capture dev') = sd_bpf (dev_capture dev)" "sd_intermediaryBufferCap (dev_capture dev') = sd_intermediaryBufferCap (dev_capture dev)"
  using assms by (auto simp: cp_same_def sd_bpf_def)

lemma cp_taken_nil: "cp_taken onData dev [] dev"
  unfolding cp_taken_def Let_def by (rule exI [of _ "[]"]) (simp add: client_feed_def)

lemma cp_taken_append:
  assumes "cp_taken onData d1 xs d2" "cp_taken onData d2 ys d3" "cp_same d1 d2"
  shows "cp_taken onData d1 (xs @ ys) d3"
proof -
  obtain ps qs where "sd_uncut (dev_capture d1) @ xs = concat ps @ sd_uncut (dev_capture d2)"
    "sd_uncut (dev_capture d2) @ ys = concat qs @ sd_uncut (dev_capture d3)"
    and 1: "list_all (\<lambda>p. length p = unat (sd_intermediaryBufferCap (dev_capture d1)) * unat (sd_bpf (dev_capture d1))) (ps @ qs)"
      "dev_client d3 = client_feed onData (sd_intermediaryBufferCap (dev_capture d1)) (ps @ qs) (dev_client d1)"
    using assms(1,2) unfolding cp_taken_def Let_def cp_same_simps [OF assms(3)] by (auto simp: client_feed_def)
  then have "sd_uncut (dev_capture d1) @ xs @ ys = concat (ps @ qs) @ sd_uncut (dev_capture d3)" by (metis append_assoc concat_append)
  with 1 show ?thesis unfolding cp_taken_def Let_def by blast
qed

text \<open>A full buffer goes to the application.\<close>

definition cp_flush :: "('c, 'k) ma_device \<Rightarrow> ('c, 'k) ma_device" where
  "cp_flush dev = (let d = snd (ma_device__on_data_inner NULL (Some (sd_pIntermediaryBuffer (dev_capture dev))) (sd_intermediaryBufferCap (dev_capture dev)) dev)
     in d\<lparr>dev_capture := (dev_capture d)\<lparr>sd_intermediaryBufferLen := 0\<rparr>\<rparr>)"

lemma cp_flush_ready:
  assumes r: "cp_ready onData dev" and l: "sd_intermediaryBufferLen (dev_capture dev) = sd_intermediaryBufferCap (dev_capture dev)"
  shows "cp_ready onData (cp_flush dev)" "cp_same dev (cp_flush dev)" "cp_taken onData dev [] (cp_flush dev)"
    "sd_intermediaryBufferLen (dev_capture (cp_flush dev)) < sd_intermediaryBufferCap (dev_capture (cp_flush dev))"
proof -
  let ?cp = "dev_capture dev" and ?n = "sd_intermediaryBufferCap (dev_capture dev)"
  have e: "cp_flush dev = dev\<lparr>dev_capture := ?cp\<lparr>sd_intermediaryBufferLen := 0\<rparr>, dev_client := snd (onData NULL (Some (sd_pIntermediaryBuffer ?cp)) ?n (dev_client dev))\<rparr>"
    using r by (simp add: cp_flush_def ma_device__on_data_inner_def cp_ready_def split_beta Let_def)
  show "cp_ready onData (cp_flush dev)" using r by (simp add: e cp_ready_def sd_wf_def sd_bpf_def)
  show "cp_same dev (cp_flush dev)" unfolding e cp_same_def
    by (rule exI [of _ "sd_pIntermediaryBuffer ?cp"], rule exI [of _ 0], rule exI) simp
  show "sd_intermediaryBufferLen (dev_capture (cp_flush dev)) < sd_intermediaryBufferCap (dev_capture (cp_flush dev))"
    using r by (simp add: e cp_ready_def sd_wf_def word_less_nat_alt)
  show "cp_taken onData dev [] (cp_flush dev)" unfolding cp_taken_def Let_def
    by (rule exI [of _ "[sd_pIntermediaryBuffer ?cp]"])
      (use r l in \<open>simp add: e sd_uncut_def client_feed_def cp_ready_def sd_wf_def\<close>)
qed

lemma on_data_step_full:
  assumes "dev_type dev = ma_device_type_capture" "sd_intermediaryBufferLen (dev_capture dev) = sd_intermediaryBufferCap (dev_capture dev)"
  shows "on_data_step (Some input) N p NULL dev = (p, NULL, cp_flush dev)"
  using assms unfolding on_data_step_def on_data_capture_def on_data_duplex_def cp_flush_def Let_def
  by (simp add: split_beta)

lemma on_data_step_room:
  assumes "dev_type dev = ma_device_type_capture" "sd_intermediaryBufferLen (dev_capture dev) < sd_intermediaryBufferCap (dev_capture dev)"
  shows "on_data_step (Some input) N p NULL dev =
    (let cp = dev_capture dev; L = sd_intermediaryBufferLen cp; C = sd_intermediaryBufferCap cp;
         k = (if C - L < N - p then C - L else N - p);
         d = dev\<lparr>dev_capture := cp\<lparr>sd_pIntermediaryBuffer := copy_frames_at (sd_pIntermediaryBuffer cp) L input p k (sd_format cp) (sd_channels cp),
                 sd_intermediaryBufferLen := L + k\<rparr>\<rparr>
     in (p + k, NULL, if L + k = C then cp_flush d else d))"
proof -
  define C where "C = sd_intermediaryBufferCap (dev_capture dev)"
  define L where "L = sd_intermediaryBufferLen (dev_capture dev)"
  define k where "k = (if C - L < N - p then C - L else N - p)"
  show ?thesis
    using assms unfolding on_data_step_def on_data_capture_def on_data_duplex_def cp_flush_def Let_def
      C_def [symmetric] L_def [symmetric] k_def [symmetric]
    by (simp add: split_beta C_def [symmetric])
qed
text \<open>One iteration with room in the buffer.\<close>

lemma capture_step:
  assumes r: "cp_ready onData dev" and room: "sd_intermediaryBufferLen (dev_capture dev) < sd_intermediaryBufferCap (dev_capture dev)" and p: "p < N"
    and inp: "length input = unat N * unat (sd_bpf (dev_capture dev))"
  defines "b \<equiv> unat (sd_bpf (dev_capture dev))"
  shows "\<exists>k dev'. 0 < k \<and> unat p + unat k \<le> unat N \<and> on_data_step (Some input) N p NULL dev = (p + k, NULL, dev') \<and>
    cp_ready onData dev' \<and> cp_same dev dev' \<and> sd_intermediaryBufferLen (dev_capture dev') < sd_intermediaryBufferCap (dev_capture dev') \<and>
    cp_taken onData dev (mem_read input (unat p * b) (unat k * b)) dev'"
proof -
  let ?cp = "dev_capture dev"
  define L where "L = sd_intermediaryBufferLen ?cp"
  define C where "C = sd_intermediaryBufferCap ?cp"
  define k where "k = (if C - L < N - p then C - L else N - p)"
  define d where "d = dev\<lparr>dev_capture := ?cp\<lparr>sd_pIntermediaryBuffer := copy_frames_at (sd_pIntermediaryBuffer ?cp) L input p k (sd_format ?cp) (sd_channels ?cp), sd_intermediaryBufferLen := L + k\<rparr>\<rparr>"
  have wf: "sd_wf ?cp" using r by (simp add: cp_ready_def)
  have LC: "L < C" "unat (C - L) = unat C - unat L" "0 < C - L"
    using room by (simp_all add: L_def C_def unat_diff_le less_imp_le word_less_nat_alt)
  have k: "0 < k" "unat L + unat k \<le> unat C" "unat p + unat k \<le> unat N"
    using step_frames [OF p LC(3) k_def] LC by (simp_all add: word_less_nat_alt)
  have "(unat p + unat k) * b \<le> length input" using inp mult_le_mono1 [OF k(3), of b] by (simp add: b_def)
  note tk = sd_taken [OF wf k(2) [unfolded L_def C_def] this [unfolded b_def], folded L_def b_def]
  have st: "on_data_step (Some input) N p NULL dev = (p + k, NULL, if L + k = C then cp_flush d else d)"
    using on_data_step_room [of dev input N p] r room
    unfolding Let_def L_def [symmetric] C_def [symmetric] k_def [symmetric] d_def [symmetric] by (simp add: cp_ready_def)
  have rd: "cp_ready onData d" using r tk(1) by (simp add: d_def cp_ready_def)
  have sm: "cp_same dev d" unfolding cp_same_def d_def
    by (rule exI, rule exI, rule exI [of _ "dev_client dev"]) simp
  have ct: "cp_taken onData dev (mem_read input (unat p * b) (unat k * b)) d"
    using tk(2) unfolding cp_taken_def Let_def by (intro exI [of _ "[]"]) (simp add: d_def client_feed_def)
  show ?thesis
  proof (cases "L + k = C")
    case True
    then have "sd_intermediaryBufferLen (dev_capture d) = sd_intermediaryBufferCap (dev_capture d)" by (simp add: d_def C_def)
    from cp_flush_ready [OF rd this] k st True cp_same_trans [OF sm] cp_taken_append [OF ct _ sm, of "[]"] show ?thesis
      by (intro exI [of _ k] exI [of _ "cp_flush d"]) simp
  next
    case False
    then have "unat (L + k) < unat C" using k(2) tk(3) by (simp add: word_unat_eq_iff)
    then show ?thesis using k st False rd sm ct
      by (intro exI [of _ k] exI [of _ d]) (simp, simp add: d_def word_less_nat_alt C_def)
  qed
qed

lemma capture_side_loop:
  assumes "cp_ready onData dev" "sd_intermediaryBufferLen (dev_capture dev) < sd_intermediaryBufferCap (dev_capture dev)" "p \<le> N"
    and "length input = unat N * unat (sd_bpf (dev_capture dev))"
  shows "\<exists>dev'. on_data_loop (Some input) N p NULL dev = Some (NULL, dev') \<and> cp_ready onData dev' \<and> cp_same dev dev' \<and>
    sd_intermediaryBufferLen (dev_capture dev') < sd_intermediaryBufferCap (dev_capture dev') \<and>
    cp_taken onData dev (drop (unat p * unat (sd_bpf (dev_capture dev))) input) dev'"
  using assms
proof (induction "unat N - unat p" arbitrary: p dev rule: less_induct)
  case less
  let ?b = "unat (sd_bpf (dev_capture dev))"
  show ?case
  proof (cases "p < N")
    case False
    then have "p = N" using less.prems(3) by simp
    then show ?thesis using less.prems
      by (intro exI [of _ dev]) (simp add: on_data_loop.simps cp_taken_nil cp_same_refl)
  next
    case True
    obtain k d where k: "0 < k" "unat p + unat k \<le> unat N" and st: "on_data_step (Some input) N p NULL dev = (p + k, NULL, d)"
      and d: "cp_ready onData d" "sd_intermediaryBufferLen (dev_capture d) < sd_intermediaryBufferCap (dev_capture d)"
      and sm: "cp_same dev d" and tk: "cp_taken onData dev (mem_read input (unat p * ?b) (unat k * ?b)) d"
      using capture_step [OF less.prems(1,2) True less.prems(4)] by blast
    have pk: "unat (p + k) = unat p + unat k" using order_le_less_trans [OF k(2), of "2 ^ 32"] by (simp add: unat_add_lt)
    have "unat N - unat (p + k) < unat N - unat p" "p + k \<le> N" using k pk by (simp_all add: word_less_nat_alt word_le_nat_alt)
    then obtain dev' where e: "on_data_loop (Some input) N (p + k) NULL d = Some (NULL, dev')" "cp_ready onData dev'" "cp_same d dev'"
      "sd_intermediaryBufferLen (dev_capture dev') < sd_intermediaryBufferCap (dev_capture dev')"
      "cp_taken onData d (drop (unat (p + k) * ?b) input) dev'"
      using less.hyps [of "p + k" d] d less.prems(4) unfolding cp_same_simps [OF sm] by blast
    have "mem_read input (unat p * ?b) (unat k * ?b) @ drop (unat (p + k) * ?b) input = drop (unat p * ?b) input"
      unfolding pk using append_take_drop_id [of "unat k * ?b" "drop (unat p * ?b) input"] by (simp add: mem_read_def add_mult_distrib add.commute)
    with cp_taken_append [OF tk e(5) sm] e st True cp_same_trans [OF sm e(3)] show ?thesis
      by (intro exI [of _ dev']) (simp add: on_data_loop.simps [of _ N p])
  qed
qed

definition cp_direct :: "('c, 'k) ma_device \<Rightarrow> bool" where
  "cp_direct dev \<longleftrightarrow> sd_isPassthrough (dev_capture dev) \<and> feq (dev_masterVolumeFactor dev) (FNum False 1) \<and>
     \<not> dev_noFixedSizedCallback dev \<and> dev_state dev \<noteq> ma_device_state_stopping"

lemma cp_same_direct: "cp_same dev dev' \<Longrightarrow> cp_direct dev' = cp_direct dev"
  by (auto simp: cp_same_def cp_direct_def)

lemma capture_on_data:
  assumes r: "cp_ready onData dev" "cp_direct dev" and n: "0 < N" and inp: "length input = unat N * unat (sd_bpf (dev_capture dev))"
  shows "\<exists>dev'. ma_device__on_data NULL (Some input) N dev = Some (NULL, dev') \<and> cp_ready onData dev' \<and> cp_same dev dev' \<and>
    sd_intermediaryBufferLen (dev_capture dev') < sd_intermediaryBufferCap (dev_capture dev') \<and> cp_taken onData dev input dev'"
proof -
  have od: "ma_device__on_data NULL (Some input) N dev = on_data_loop (Some input) N 0 NULL dev"
    using r(2) by (simp add: ma_device__on_data_def cp_direct_def)
  show ?thesis
  proof (cases "sd_intermediaryBufferLen (dev_capture dev) = sd_intermediaryBufferCap (dev_capture dev)")
    case True
    note fl = cp_flush_ready [OF r(1) True]
    have "on_data_loop (Some input) N 0 NULL dev = on_data_loop (Some input) N 0 NULL (cp_flush dev)"
      using n r(1) on_data_step_full [OF _ True] by (simp add: on_data_loop.simps [of _ N 0 _ dev] cp_ready_def)
    with capture_side_loop [OF fl(1,4), of 0 N input] inp cp_same_trans [OF fl(2)] cp_taken_append [OF fl(3) _ fl(2)] show ?thesis
      unfolding od cp_same_simps [OF fl(2)] by fastforce
  next
    case False
    moreover have "sd_intermediaryBufferLen (dev_capture dev) \<le> sd_intermediaryBufferCap (dev_capture dev)"
      using r(1) by (simp add: cp_ready_def sd_wf_def word_le_nat_alt)
    ultimately have "sd_intermediaryBufferLen (dev_capture dev) < sd_intermediaryBufferCap (dev_capture dev)" by (rule order_neq_le_trans)
    from capture_side_loop [OF r(1) this, of 0 N input] inp show ?thesis unfolding od by simp
  qed
qed

text \<open>Deliveries of the backend through its entry point.\<close>

fun backend_records :: "ma_cpu \<Rightarrow> 'k converter_ops \<Rightarrow> (u32 \<times> u8 list) list \<Rightarrow> ('c, 'k) ma_device \<Rightarrow> ('c, 'k) ma_device option" where
  "backend_records cpu ops [] dev = Some dev"
| "backend_records cpu ops ((n, input) # rs) dev =
     (case ma_device_handle_backend_data_callback cpu ops (Some dev) NULL (Some input) n of
        Some (r, NULL, Some dev') \<Rightarrow> if r = MA_SUCCESS then backend_records cpu ops rs dev' else None
      | _ \<Rightarrow> None)"

lemma capture_request:
  assumes r: "cp_ready onData dev" "cp_direct dev" and n: "0 < N" and inp: "length input = unat N * unat (sd_bpf (dev_capture dev))"
  shows "\<exists>dev'. ma_device_handle_backend_data_callback cpu ops (Some dev) NULL (Some input) N = Some (MA_SUCCESS, NULL, Some dev') \<and>
    cp_ready onData dev' \<and> cp_same dev dev' \<and>
    sd_intermediaryBufferLen (dev_capture dev') < sd_intermediaryBufferCap (dev_capture dev') \<and> cp_taken onData dev input dev'"
proof -
  obtain dev' where e: "ma_device__on_data NULL (Some input) N dev = Some (NULL, dev')" "cp_ready onData dev'" "cp_same dev dev'"
    "sd_intermediaryBufferLen (dev_capture dev') < sd_intermediaryBufferCap (dev_capture dev')" "cp_taken onData dev input dev'"
    using capture_on_data [OF assms] by blast
  have "ma_device__handle_data_callback cpu NULL (Some input) N dev = Some (NULL, dev')"
    using r e(1) by (simp add: ma_device__handle_data_callback_def ma_device_get_master_volume_def cp_ready_def cp_direct_def Let_def)
  then show ?thesis using e r n
    by (simp add: ma_device_handle_backend_data_callback_def ma_device__send_frames_to_client_def cp_ready_def cp_direct_def)
qed

lemma capture_requests:
  assumes "cp_ready onData dev" "cp_direct dev" "list_all (request_ok (unat (sd_bpf (dev_capture dev)))) rs"
  shows "\<exists>dev'. backend_records cpu ops rs dev = Some dev' \<and> cp_ready onData dev' \<and> cp_same dev dev' \<and>
    (rs \<noteq> [] \<longrightarrow> sd_intermediaryBufferLen (dev_capture dev') < sd_intermediaryBufferCap (dev_capture dev')) \<and>
    cp_taken onData dev (concat (map snd rs)) dev'"
  using assms
proof (induction rs arbitrary: dev)
  case Nil
  then show ?case by (intro exI [of _ dev]) (simp add: cp_same_refl cp_taken_nil)
next
  case (Cons r rs)
  obtain N input where r: "r = (N, input)" by (cases r)
  have ok: "0 < N" "length input = unat N * unat (sd_bpf (dev_capture dev))" using Cons.prems(3) by (simp_all add: r request_ok_def)
  obtain d where d: "ma_device_handle_backend_data_callback cpu ops (Some dev) NULL (Some input) N = Some (MA_SUCCESS, NULL, Some d)"
    "cp_ready onData d" "cp_same dev d" "sd_intermediaryBufferLen (dev_capture d) < sd_intermediaryBufferCap (dev_capture d)"
    "cp_taken onData dev input d"
    using capture_request [OF Cons.prems(1,2) ok] by blast
  obtain dev' where e: "backend_records cpu ops rs d = Some dev'" "cp_ready onData dev'" "cp_same d dev'"
    "rs \<noteq> [] \<longrightarrow> sd_intermediaryBufferLen (dev_capture dev') < sd_intermediaryBufferCap (dev_capture dev')"
    "cp_taken onData d (concat (map snd rs)) dev'"
    using Cons.IH [OF d(2)] Cons.prems d(3) unfolding cp_same_simps [OF d(3)] cp_same_direct [OF d(3)] by auto
  show ?case
    using d e cp_same_trans [OF d(3) e(3)] cp_taken_append [OF d(5) e(5) d(3)]
    by (intro exI [of _ dev']) (cases rs; simp add: r)
qed

end
