(* ===== verification/MaDuplexData.thy ===== *)
theory MaDuplexData
  imports MaDeviceData
begin

text \<open>
  The fixed-size callback of a duplex device: the capture and the playback buffer move in lock
  step, so that every period recorded is answered by the period played after it.
\<close>

section \<open>The exchange of a period\<close>

locale duplex_client =
  fixes onData :: "'c ma_device_data_proc" and ok :: "'c \<Rightarrow> bool" and n :: u32 and b :: nat and bc :: nat
  assumes exchanges: "ok c \<Longrightarrow> length buf = unat n * b \<Longrightarrow> length inp = unat n * bc \<Longrightarrow>
    \<exists>buf' c'. onData (Some buf) (Some inp) n c = (Some buf', c') \<and> length buf' = unat n * b \<and> ok c'"

fun client_duplex :: "'c ma_device_data_proc \<Rightarrow> u8 list \<Rightarrow> u32 \<Rightarrow> u8 list list \<Rightarrow> 'c \<Rightarrow> u8 list list \<times> 'c" where
  "client_duplex onData silence n [] c = ([], c)"
| "client_duplex onData silence n (p # ps) c =
     (case onData (Some silence) (Some p) n c of (out, c1) \<Rightarrow> case client_duplex onData silence n ps c1 of (outs, c2) \<Rightarrow> (the out # outs, c2))"

lemma client_duplex_append:
  "client_duplex onData s n ps c = (xs, c1) \<Longrightarrow> client_duplex onData s n qs c1 = (ys, c2) \<Longrightarrow>
   client_duplex onData s n (ps @ qs) c = (xs @ ys, c2)"
  by (induction ps arbitrary: c xs) (auto split: prod.splits)

text \<open>Either the device waits for its first exchange, or the room in the capture buffer is what is
  left to play.\<close>

definition dx_aligned :: "('c, 'k) ma_device \<Rightarrow> bool" where
  "dx_aligned dev \<longleftrightarrow> (let C = unat (sd_intermediaryBufferCap (dev_capture dev)); L = unat (sd_intermediaryBufferLen (dev_capture dev))
     in unat (sd_intermediaryBufferLen (dev_playback dev)) = C - L)"

definition dx_ready :: "'c ma_device_data_proc \<Rightarrow> ('c \<Rightarrow> bool) \<Rightarrow> ('c, 'k) ma_device \<Rightarrow> bool" where
  "dx_ready onData ok dev \<longleftrightarrow> dev_type dev = ma_device_type_duplex \<and> dev_onData dev = Some onData \<and> \<not> dev_noPreSilencedOutputBuffer dev \<and>
     sd_wf (dev_playback dev) \<and> sd_wf (dev_capture dev) \<and> sd_intermediaryBufferCap (dev_playback dev) = sd_intermediaryBufferCap (dev_capture dev) \<and>
     dx_aligned dev \<and> ok (dev_client dev)"

definition dx_same :: "('c, 'k) ma_device \<Rightarrow> ('c, 'k) ma_device \<Rightarrow> bool" where
  "dx_same dev dev' \<longleftrightarrow> (\<exists>buf len buf' len' c. dev' = dev\<lparr>dev_playback := (dev_playback dev)\<lparr>sd_pIntermediaryBuffer := buf, sd_intermediaryBufferLen := len\<rparr>,
     dev_capture := (dev_capture dev)\<lparr>sd_pIntermediaryBuffer := buf', sd_intermediaryBufferLen := len'\<rparr>, dev_client := c\<rparr>)"

abbreviation dx_client :: "'c ma_device_data_proc \<Rightarrow> ('c \<Rightarrow> bool) \<Rightarrow> ('c, 'k) ma_device \<Rightarrow> bool" where
  "dx_client onData ok dev \<equiv> duplex_client onData ok (sd_intermediaryBufferCap (dev_capture dev)) (unat (sd_bpf (dev_playback dev))) (unat (sd_bpf (dev_capture dev)))"

text \<open>The device took \<open>inp\<close> and played \<open>outp\<close>.\<close>

definition dx_moved :: "'c ma_device_data_proc \<Rightarrow> ('c, 'k) ma_device \<Rightarrow> u8 list \<Rightarrow> u8 list \<Rightarrow> ('c, 'k) ma_device \<Rightarrow> bool" where
  "dx_moved onData dev inp outp dev' \<longleftrightarrow> (let n = sd_intermediaryBufferCap (dev_capture dev) in
     \<exists>ps outs. client_duplex onData (sd_silence (dev_playback dev)) n ps (dev_client dev) = (outs, dev_client dev') \<and>
       sd_uncut (dev_capture dev) @ inp = concat ps @ sd_uncut (dev_capture dev') \<and>
       list_all (\<lambda>p. length p = unat n * unat (sd_bpf (dev_capture dev))) ps \<and>
       sd_unplayed (dev_playback dev) @ concat outs = outp @ sd_unplayed (dev_playback dev'))"

lemma dx_same_simps:
  assumes "dx_same dev dev'"
  shows "sd_bpf (dev_capture dev') = sd_bpf (dev_capture dev)" "sd_intermediaryBufferCap (dev_capture dev') = sd_intermediaryBufferCap (dev_capture dev)"
    "sd_bpf (dev_playback dev') = sd_bpf (dev_playback dev)" "sd_silence (dev_playback dev') = sd_silence (dev_playback dev)"
    "sd_intermediaryBufferCap (dev_playback dev') = sd_intermediaryBufferCap (dev_playback dev)"
  using assms by (auto simp: dx_same_def sd_bpf_def sd_silence_def)

lemma dx_same_refl: "dx_same dev dev"
  unfolding dx_same_def
  by (rule exI [of _ "sd_pIntermediaryBuffer (dev_playback dev)"], rule exI [of _ "sd_intermediaryBufferLen (dev_playback dev)"],
      rule exI [of _ "sd_pIntermediaryBuffer (dev_capture dev)"], rule exI [of _ "sd_intermediaryBufferLen (dev_capture dev)"],
      rule exI [of _ "dev_client dev"]) simp

lemma dx_same_trans: "dx_same a b \<Longrightarrow> dx_same b c \<Longrightarrow> dx_same a c"
  unfolding dx_same_def by fastforce

lemma dx_moved_nil: "dx_moved onData dev [] [] dev"
  unfolding dx_moved_def Let_def by (rule exI [of _ "[]"]) simp

lemma dx_moved_append:
  assumes "dx_moved onData d1 xs us d2" "dx_moved onData d2 ys vs d3" "dx_same d1 d2"
  shows "dx_moved onData d1 (xs @ ys) (us @ vs) d3"
proof -
  let ?n = "sd_intermediaryBufferCap (dev_capture d1)" and ?s = "sd_silence (dev_playback d1)"
  obtain ps os qs os' where a: "client_duplex onData ?s ?n ps (dev_client d1) = (os, dev_client d2)" "client_duplex onData ?s ?n qs (dev_client d2) = (os', dev_client d3)"
    and u: "sd_uncut (dev_capture d1) @ xs = concat ps @ sd_uncut (dev_capture d2)" "sd_uncut (dev_capture d2) @ ys = concat qs @ sd_uncut (dev_capture d3)"
    and v: "sd_unplayed (dev_playback d1) @ concat os = us @ sd_unplayed (dev_playback d2)" "sd_unplayed (dev_playback d2) @ concat os' = vs @ sd_unplayed (dev_playback d3)"
    and l: "list_all (\<lambda>p. length p = unat ?n * unat (sd_bpf (dev_capture d1))) (ps @ qs)"
    using assms(1,2) unfolding dx_moved_def Let_def dx_same_simps [OF assms(3)] list_all_append by blast
  have "sd_uncut (dev_capture d1) @ xs @ ys = concat (ps @ qs) @ sd_uncut (dev_capture d3)"
    "sd_unplayed (dev_playback d1) @ concat (os @ os') = (us @ vs) @ sd_unplayed (dev_playback d3)"
    using u v by (metis append_assoc concat_append)+
  with client_duplex_append [OF a] l show ?thesis unfolding dx_moved_def Let_def by blast
qed

text \<open>A full capture buffer and an empty playback buffer: the callback exchanges them.\<close>

lemma on_data_duplex_ready:
  assumes cl: "dx_client onData ok dev" and r: "dx_ready onData ok dev"
    and full: "sd_intermediaryBufferLen (dev_capture dev) = sd_intermediaryBufferCap (dev_capture dev)"
  defines "d \<equiv> on_data_duplex dev"
  shows "dx_ready onData ok d" "dx_same dev d" "dx_moved onData dev [] [] d"
    "sd_intermediaryBufferLen (dev_capture d) < sd_intermediaryBufferCap (dev_capture d)"
proof -
  let ?pb = "dev_playback dev" and ?cp = "dev_capture dev"
  have wf: "sd_wf ?pb" "sd_wf ?cp" and ty: "dev_type dev = ma_device_type_duplex" "dev_onData dev = Some onData" "\<not> dev_noPreSilencedOutputBuffer dev"
    and c: "sd_intermediaryBufferCap ?pb = sd_intermediaryBufferCap ?cp" "ok (dev_client dev)"
    using r by (simp_all add: dx_ready_def)
  have lc: "length (sd_pIntermediaryBuffer ?cp) = unat (sd_intermediaryBufferCap ?cp) * unat (sd_bpf ?cp)" using wf(2) by (simp add: sd_wf_def)
  obtain buf c' where b: "onData (Some (sd_silence ?pb)) (Some (sd_pIntermediaryBuffer ?cp)) (sd_intermediaryBufferCap ?cp) (dev_client dev) = (Some buf, c')"
      "length buf = unat (sd_intermediaryBufferCap ?cp) * unat (sd_bpf ?pb)" "ok c'"
    using duplex_client.exchanges [OF cl c(2) length_sd_silence [OF wf(1), unfolded c(1)] lc] by blast
  have "mem_write (sd_pIntermediaryBuffer ?pb) 0 (sd_silence ?pb) = sd_silence ?pb"
    using wf(1) length_sd_silence [OF wf(1)] by (intro mem_write_all) (simp add: sd_wf_def)
  then have e: "d = dev\<lparr>dev_playback := ?pb\<lparr>sd_pIntermediaryBuffer := buf, sd_intermediaryBufferLen := sd_intermediaryBufferCap ?pb\<rparr>,
      dev_capture := ?cp\<lparr>sd_intermediaryBufferLen := 0\<rparr>, dev_client := c'\<rparr>"
    using b(1) ty full c(1) by (simp add: d_def on_data_duplex_def ma_device__on_data_inner_def sd_silence_def Let_def)
  have "sd_unplayed ?pb = []" using r full wf(1) by (simp add: dx_ready_def dx_aligned_def sd_unplayed_def sd_wf_def)
  then show "dx_moved onData dev [] [] d" unfolding dx_moved_def Let_def
    by (intro exI [of _ "[sd_pIntermediaryBuffer ?cp]"] exI [of _ "[buf]"])
      (use b(1) lc full in \<open>simp add: e sd_uncut_def sd_unplayed_def\<close>)
  show "dx_ready onData ok d" using r b wf c by (simp add: e dx_ready_def sd_wf_def sd_bpf_def dx_aligned_def)
  show "dx_same dev d" unfolding e dx_same_def
    by (rule exI, rule exI, rule exI [of _ "sd_pIntermediaryBuffer ?cp"], rule exI, rule exI) simp
  show "sd_intermediaryBufferLen (dev_capture d) < sd_intermediaryBufferCap (dev_capture d)"
    using wf(2) by (simp add: e sd_wf_def word_less_nat_alt)
qed

section \<open>Steps\<close>

lemma duplex_step_full:
  assumes "dx_ready onData ok dev" "sd_intermediaryBufferLen (dev_capture dev) = sd_intermediaryBufferCap (dev_capture dev)"
  shows "on_data_step (Some input) N p (Some out) dev = (p, Some out, on_data_duplex dev)"
proof -
  have "sd_intermediaryBufferLen (dev_playback dev) = 0"
    using assms unfolding dx_ready_def dx_aligned_def Let_def by (simp add: unat_eq_0)
  then show ?thesis
    using assms unfolding on_data_step_def on_data_capture_def on_data_playback_def Let_def dx_ready_def by simp
qed

lemma duplex_step_room:
  assumes "dev_type dev = ma_device_type_duplex" "sd_intermediaryBufferLen (dev_capture dev) < sd_intermediaryBufferCap (dev_capture dev)"
    and "0 < sd_intermediaryBufferLen (dev_playback dev)"
  shows "on_data_step (Some input) N p (Some out) dev =
    (let cp = dev_capture dev; pb = dev_playback dev; L = sd_intermediaryBufferLen cp; C = sd_intermediaryBufferCap cp;
         k = (if C - L < N - p then C - L else N - p);
         d = dev\<lparr>dev_capture := cp\<lparr>sd_pIntermediaryBuffer := copy_frames_at (sd_pIntermediaryBuffer cp) L input p k (sd_format cp) (sd_channels cp),
                 sd_intermediaryBufferLen := L + k\<rparr>,
               dev_playback := pb\<lparr>sd_intermediaryBufferLen := sd_intermediaryBufferLen pb - k\<rparr>\<rparr>
     in (p + k, Some (copy_frames_at out p (sd_pIntermediaryBuffer pb) (sd_intermediaryBufferCap pb - sd_intermediaryBufferLen pb) k (sd_format pb) (sd_channels pb)),
         on_data_duplex d))"
proof -
  define C where "C = sd_intermediaryBufferCap (dev_capture dev)"
  define L where "L = sd_intermediaryBufferLen (dev_capture dev)"
  define k where "k = (if C - L < N - p then C - L else N - p)"
  show ?thesis
    using assms unfolding on_data_step_def on_data_capture_def on_data_playback_def Let_def
      C_def [symmetric] L_def [symmetric] k_def [symmetric]
    by simp
qed

lemma duplex_step:
  assumes cl: "dx_client onData ok dev" and r: "dx_ready onData ok dev"
    and room: "sd_intermediaryBufferLen (dev_capture dev) < sd_intermediaryBufferCap (dev_capture dev)" and p: "p < N"
    and inp: "length input = unat N * unat (sd_bpf (dev_capture dev))" and out: "length out = unat N * unat (sd_bpf (dev_playback dev))"
  defines "b \<equiv> unat (sd_bpf (dev_playback dev))" and "bc \<equiv> unat (sd_bpf (dev_capture dev))"
  shows "\<exists>k seg dev'. 0 < k \<and> unat p + unat k \<le> unat N \<and> length seg = unat k * b \<and>
    on_data_step (Some input) N p (Some out) dev = (p + k, Some (mem_write out (unat p * b) seg), dev') \<and>
    dx_ready onData ok dev' \<and> dx_same dev dev' \<and> sd_intermediaryBufferLen (dev_capture dev') < sd_intermediaryBufferCap (dev_capture dev') \<and>
    dx_moved onData dev (mem_read input (unat p * bc) (unat k * bc)) seg dev'"
proof -
  let ?cp = "dev_capture dev" and ?pb = "dev_playback dev"
  define L where "L = sd_intermediaryBufferLen ?cp"
  define C where "C = sd_intermediaryBufferCap ?cp"
  define k where "k = (if C - L < N - p then C - L else N - p)"
  define seg where "seg = take (unat k * b) (sd_unplayed ?pb)"
  define d where "d = dev\<lparr>dev_capture := ?cp\<lparr>sd_pIntermediaryBuffer := copy_frames_at (sd_pIntermediaryBuffer ?cp) L input p k (sd_format ?cp) (sd_channels ?cp), sd_intermediaryBufferLen := L + k\<rparr>,
      dev_playback := ?pb\<lparr>sd_intermediaryBufferLen := sd_intermediaryBufferLen ?pb - k\<rparr>\<rparr>"
  have wf: "sd_wf ?cp" "sd_wf ?pb" and ty: "dev_type dev = ma_device_type_duplex" using r by (simp_all add: dx_ready_def)
  have LC: "L < C" "unat (C - L) = unat C - unat L" "0 < C - L"
    using room by (simp_all add: L_def C_def unat_diff_le less_imp_le word_less_nat_alt)
  have al: "unat (sd_intermediaryBufferLen ?pb) = unat C - unat L"
    using r by (simp add: dx_ready_def dx_aligned_def Let_def L_def C_def)
  then have pl: "0 < sd_intermediaryBufferLen ?pb" using LC by (simp add: word_less_nat_alt)
  have k: "0 < k" "unat k \<le> unat (sd_intermediaryBufferLen ?pb)" "unat L + unat k \<le> unat C" "unat p + unat k \<le> unat N"
    using step_frames [OF p LC(3) k_def] LC al by (simp_all add: word_less_nat_alt)
  have "(unat p + unat k) * bc \<le> length input" using inp mult_le_mono1 [OF k(4), of bc] by (simp add: bc_def)
  note tk = sd_taken [OF wf(1) k(3) [unfolded L_def C_def] this [unfolded bc_def], folded L_def bc_def]
  note pd = sd_played [OF wf(2) k(2), folded b_def]
  have lo: "unat p * b \<le> length out" using k(4) out by (simp add: b_def)
  have ls: "length seg = unat k * b" using length_sd_unplayed [OF wf(2)] k(2) by (simp add: seg_def b_def)
  have st: "on_data_step (Some input) N p (Some out) dev = (p + k, Some (mem_write out (unat p * b) seg), on_data_duplex d)"
    using duplex_step_room [OF ty room pl, of input N p out] copy_unplayed [OF wf(2) lo [unfolded b_def], folded b_def]
    unfolding Let_def L_def [symmetric] C_def [symmetric] k_def [symmetric] d_def [symmetric] seg_def by simp
  have "dx_aligned d" using tk(3) pd(3) al by (simp add: d_def dx_aligned_def C_def)
  then have rd: "dx_ready onData ok d" using r tk(1) pd(1) by (simp add: d_def dx_ready_def)
  have sm: "dx_same dev d" unfolding dx_same_def d_def
    by (rule exI [of _ "sd_pIntermediaryBuffer ?pb"], rule exI [of _ "sd_intermediaryBufferLen ?pb - k"],
        rule exI [of _ "copy_frames_at (sd_pIntermediaryBuffer ?cp) L input p k (sd_format ?cp) (sd_channels ?cp)"], rule exI [of _ "L + k"],
        rule exI [of _ "dev_client dev"]) simp
  have mv: "dx_moved onData dev (mem_read input (unat p * bc) (unat k * bc)) seg d"
    using tk(2) pd(2) unfolding dx_moved_def Let_def by (intro exI [of _ "[]"]) (simp add: d_def seg_def)
  show ?thesis
  proof (cases "L + k = C")
    case True
    then have "sd_intermediaryBufferLen (dev_capture d) = sd_intermediaryBufferCap (dev_capture d)" by (simp add: d_def C_def)
    moreover have "dx_client onData ok d" using cl dx_same_simps [OF sm] by simp
    ultimately show ?thesis
      using on_data_duplex_ready [OF _ rd] k ls st dx_same_trans [OF sm] dx_moved_append [OF mv _ sm, of "[]" "[]"]
      by (intro exI [of _ k] exI [of _ seg] exI [of _ "on_data_duplex d"]) simp
  next
    case False
    then have "unat (L + k) < unat C" using k(3) tk(3) by (simp add: word_unat_eq_iff)
    then have l: "sd_intermediaryBufferLen (dev_capture d) < sd_intermediaryBufferCap (dev_capture d)"
      by (simp add: d_def word_less_nat_alt C_def)
    then have "on_data_duplex d = d" by (auto simp: on_data_duplex_def Let_def)
    with l show ?thesis using k ls st rd sm mv
      by (intro exI [of _ k] exI [of _ seg] exI [of _ d]) simp
  qed
qed

section \<open>The loop\<close>

lemma duplex_loop:
  assumes "dx_client onData ok dev" "dx_ready onData ok dev"
    and "sd_intermediaryBufferLen (dev_capture dev) < sd_intermediaryBufferCap (dev_capture dev)" "p \<le> N"
    and "length input = unat N * unat (sd_bpf (dev_capture dev))" "length out = unat N * unat (sd_bpf (dev_playback dev))"
  shows "\<exists>seg dev'. on_data_loop (Some input) N p (Some out) dev = Some (Some (mem_write out (unat p * unat (sd_bpf (dev_playback dev))) seg), dev') \<and>
    length seg = (unat N - unat p) * unat (sd_bpf (dev_playback dev)) \<and> dx_ready onData ok dev' \<and> dx_same dev dev' \<and>
    dx_moved onData dev (drop (unat p * unat (sd_bpf (dev_capture dev))) input) seg dev'"
  using assms
proof (induction "unat N - unat p" arbitrary: p out dev rule: less_induct)
  case less
  let ?b = "unat (sd_bpf (dev_playback dev))" and ?bc = "unat (sd_bpf (dev_capture dev))"
  show ?case
  proof (cases "p < N")
    case False
    then have "p = N" using less.prems(4) by simp
    then show ?thesis using less.prems
      by (intro exI [of _ "[]"] exI [of _ dev]) (simp add: on_data_loop.simps dx_moved_nil dx_same_refl mem_write_def)
  next
    case True
    obtain k seg d where k: "0 < k" "unat p + unat k \<le> unat N" "length seg = unat k * ?b"
      and st: "on_data_step (Some input) N p (Some out) dev = (p + k, Some (mem_write out (unat p * ?b) seg), d)"
      and d: "dx_ready onData ok d" "dx_same dev d" "sd_intermediaryBufferLen (dev_capture d) < sd_intermediaryBufferCap (dev_capture d)"
      and mv: "dx_moved onData dev (mem_read input (unat p * ?bc) (unat k * ?bc)) seg d"
      using duplex_step [OF less.prems(1-3) True less.prems(5,6)] by blast
    note same = dx_same_simps [OF d(2)]
    have pk: "unat (p + k) = unat p + unat k" using order_le_less_trans [OF k(2), of "2 ^ 32"] by (simp add: unat_add_lt)
    have lo: "unat p * ?b + length seg \<le> length out" using k(2,3) less.prems(6) by (metis add_mult_distrib mult_le_mono1)
    then have "length (mem_write out (unat p * ?b) seg) = unat N * ?b" using less.prems(6) by (simp add: mem_write_def)
    moreover have "unat N - unat (p + k) < unat N - unat p" "p + k \<le> N" using k pk by (simp_all add: word_less_nat_alt word_le_nat_alt)
    ultimately obtain seg' dev' where e: "on_data_loop (Some input) N (p + k) (Some (mem_write out (unat p * ?b) seg)) d
        = Some (Some (mem_write (mem_write out (unat p * ?b) seg) (unat (p + k) * ?b) seg'), dev')"
      "length seg' = (unat N - unat (p + k)) * ?b" "dx_ready onData ok dev'" "dx_same d dev'"
      "dx_moved onData d (drop (unat (p + k) * ?bc) input) seg' dev'"
      using less.hyps [of "p + k" d "mem_write out (unat p * ?b) seg"] d(1,3) less.prems(1,5) unfolding same by blast
    have w: "mem_write (mem_write out (unat p * ?b) seg) (unat (p + k) * ?b) seg' = mem_write out (unat p * ?b) (seg @ seg')"
      using mem_write_twice [of "unat p * ?b" out seg seg'] lo k(3) pk by (simp add: add_mult_distrib)
    have "mem_read input (unat p * ?bc) (unat k * ?bc) @ drop (unat (p + k) * ?bc) input = drop (unat p * ?bc) input"
      unfolding pk using append_take_drop_id [of "unat k * ?bc" "drop (unat p * ?bc) input"] by (simp add: mem_read_def add_mult_distrib add.commute)
    with dx_moved_append [OF mv e(5) d(2)] have "dx_moved onData dev (drop (unat p * ?bc) input) (seg @ seg') dev'" by simp
    moreover have "length (seg @ seg') = (unat N - unat p) * ?b"
      using k(2,3) e(2) pk by (simp add: add_mult_distrib [symmetric])
    ultimately show ?thesis using e(1,3) st True dx_same_trans [OF d(2) e(4)] w
      by (intro exI [of _ "seg @ seg'"] exI [of _ dev']) (simp add: on_data_loop.simps [of _ N p])
  qed
qed

lemma duplex_on_data:
  assumes cl: "dx_client onData ok dev" and r: "dx_ready onData ok dev" "\<not> dev_noFixedSizedCallback dev" "dev_state dev \<noteq> ma_device_state_stopping"
    and n: "0 < N" and io: "length input = unat N * unat (sd_bpf (dev_capture dev))" "length out = unat N * unat (sd_bpf (dev_playback dev))"
  shows "\<exists>bs dev'. ma_device__on_data (Some out) (Some input) N dev = Some (Some bs, dev') \<and> length bs = length out \<and>
    dx_ready onData ok dev' \<and> dx_same dev dev' \<and> dx_moved onData dev input bs dev'"
proof -
  have od: "ma_device__on_data (Some out) (Some input) N dev = on_data_loop (Some input) N 0 (Some out) dev"
    using r by (simp add: ma_device__on_data_def)
  have lp: "\<exists>bs dev'. on_data_loop (Some input) N 0 (Some out) d = Some (Some bs, dev') \<and> length bs = length out \<and>
      dx_ready onData ok dev' \<and> dx_same dev dev' \<and> dx_moved onData dev input bs dev'"
    if d: "dx_ready onData ok d" "dx_same dev d" "dx_moved onData dev [] [] d" "sd_intermediaryBufferLen (dev_capture d) < sd_intermediaryBufferCap (dev_capture d)" for d
  proof -
    note same = dx_same_simps [OF d(2)]
    obtain bs dev' where b: "on_data_loop (Some input) N 0 (Some out) d = Some (Some (mem_write out 0 bs), dev')" "length bs = length out"
      "dx_ready onData ok dev'" "dx_same d dev'" "dx_moved onData d input bs dev'"
      using duplex_loop [of onData ok d 0 N input out] cl d(1,4) io unfolding same by auto
    then show ?thesis using dx_same_trans [OF d(2) b(4)] dx_moved_append [OF d(3) b(5) d(2)]
      by (intro exI [of _ bs] exI [of _ dev']) (simp add: mem_write_all)
  qed
  show ?thesis
  proof (cases "sd_intermediaryBufferLen (dev_capture dev) = sd_intermediaryBufferCap (dev_capture dev)")
    case True
    have "on_data_loop (Some input) N 0 (Some out) dev = on_data_loop (Some input) N 0 (Some out) (on_data_duplex dev)"
      using n duplex_step_full [OF r(1) True] by (simp add: on_data_loop.simps [of _ N 0 _ dev])
    with lp [OF on_data_duplex_ready [OF cl r(1) True]] show ?thesis unfolding od by simp
  next
    case False
    moreover have "sd_intermediaryBufferLen (dev_capture dev) \<le> sd_intermediaryBufferCap (dev_capture dev)"
      using r(1) by (simp add: dx_ready_def sd_wf_def word_le_nat_alt)
    ultimately have "sd_intermediaryBufferLen (dev_capture dev) < sd_intermediaryBufferCap (dev_capture dev)" by (rule order_neq_le_trans)
    from lp [OF r(1) dx_same_refl dx_moved_nil this] show ?thesis unfolding od .
  qed
qed

end
