(* ===== verification/RaDevice.thy ===== *)
theory RaDevice
  imports MaPcmRb CFloat
begin

text \<open>
  The audio device of \<open>native/client-audio/device.c\<close>: the capture, playback, reference and
  monitor rings, the data callback that runs on the audio thread, and the calls the client
  makes from its own thread. Sample memory is bytes, as the \<open>memcpy\<close> calls see it; a sample
  is read from it as a binary32 value. Opening and closing a device is in \<open>RaDeviceOpen\<close>.
\<close>

section \<open>State\<close>

abbreviation (input) RA_FRAME :: "'a::numeral" where "RA_FRAME \<equiv> 960"

abbreviation (input) RA_CAPACITY :: "'a::numeral" where "RA_CAPACITY \<equiv> 8"

text \<open>\<open>ra_frame\<close>: a 32-bit epoch, four bytes of padding, a \<open>double\<close> and 960 floats. The
  padding is what \<open>calloc\<close> left there.\<close>

record ra_frame =
  fr_epoch :: u32
  fr_time :: fval
  fr_samples :: "u8 list"

abbreviation (input) sizeof_ra_frame :: "'a::numeral" where "sizeof_ra_frame \<equiv> 3856"

definition ra_frame_bytes :: "ra_frame \<Rightarrow> u8 list" where
  "ra_frame_bytes f = le_bytes 4 (unat (fr_epoch f)) @ replicate 4 0 @ bytes_of_f64 (fr_time f) @ fr_samples f"

definition ra_frame_of_bytes :: "u8 list \<Rightarrow> ra_frame" where
  "ra_frame_of_bytes bs = \<lparr>fr_epoch = of_nat (le_nat (mem_read bs 0 4)),
     fr_time = f64_of_bytes (mem_read bs 8 8), fr_samples = mem_read bs 16 3840\<rparr>"

text \<open>The device. \<open>rd_clock\<close> counts the readings taken of the timer, whose values are the
  parameter \<open>now\<close> of the operations that read it; \<open>rd_wake\<close> says whether a wake callback is
  installed and \<open>rd_woken\<close> counts its calls. The arrays indexed by \<open>monitor\<close> have two elements.\<close>

record ra_device =
  rd_capture :: ma_rb
  rd_playback :: ma_pcm_rb
  rd_reference :: ma_pcm_rb
  rd_monitor :: ma_pcm_rb
  rd_written :: "u64 list"
  rd_consumed :: "u64 list"
  rd_discard :: "u64 list"
  rd_context_ok :: bool
  rd_input_ok :: bool
  rd_output_ok :: bool
  rd_capture_ok :: bool
  rd_playback_ok :: bool
  rd_reference_ok :: bool
  rd_monitor_ok :: bool
  rd_epoch :: u32
  rd_failed :: u32
  rd_closing :: u32
  rd_clock :: nat
  rd_pending :: ra_frame
  rd_captured :: u32
  rd_wake :: bool
  rd_woken :: nat

section \<open>Moving frames through a ring\<close>

lemma acquired_progress:
  fixes count start n :: u32
  assumes "start < count" "unat n \<le> unat (count - start)" "n \<noteq> 0"
  shows "unat count - unat (start + n) < unat count - unat start"
proof -
  have d: "unat (count - start) = unat count - unat start" by (rule unat_diff_le [OF less_imp_le [OF assms(1)]])
  have lt: "unat start < unat count" using assms(1) by (simp add: word_less_nat_alt)
  have n0: "0 < unat n" using assms(3) by (simp add: unat_gt_0)
  have "unat start + unat n \<le> unat count" using assms(2) d lt by simp
  also have "\<dots> < 2 ^ 32" by simp
  finally have "unat (start + n) = unat start + unat n" by (simp add: unat_add_lt)
  then show ?thesis using n0 lt by simp
qed

function rb_read_loop :: "ma_pcm_rb \<Rightarrow> u8 list \<Rightarrow> u32 \<Rightarrow> u32 \<Rightarrow> u32 \<Rightarrow> u32 \<times> u8 list \<times> ma_pcm_rb" where
  "rb_read_loop rb out count channels done =
     (if done < count
      then case ma_pcm_rb_acquire_read (Some rb) (Some (count - done)) (Some NULL) of
        (result, n, data) \<Rightarrow>
          if result \<noteq> MA_SUCCESS \<or> the n = 0 then (done, out, rb)
          else let out' = mem_write out (unat (done * channels) * 4)
                     (mem_read (pBuffer (pcm_rb rb)) (unat (the (the data)))
                        (unat (ucast (the n) * ucast channels * 4 :: u64)));
                   rb' = the (snd (ma_pcm_rb_commit_read (Some rb) (the n)))
               in rb_read_loop rb' out' count channels (done + the n)
      else (done, out, rb))"
  by pat_completeness auto
termination
proof (relation "measure (\<lambda>(rb, out, count, channels, done). unat count - unat done)", goal_cases)
  case (2 rb out count channels start x y xa ya xb xc)
  then have "ma_pcm_rb_acquire_read (Some rb) (Some (count - start)) (Some NULL) = (x, xa, ya)" by simp
  from ma_pcm_rb_acquire_read_le [OF this] have "unat (the xa) \<le> unat (count - start)" by auto
  then show ?case using acquired_progress [OF 2(1)] 2(4) by simp
qed simp

definition rb_read :: "ma_pcm_rb \<Rightarrow> u8 list \<Rightarrow> u32 \<Rightarrow> u32 \<Rightarrow> u32 \<times> u8 list \<times> ma_pcm_rb" where
  "rb_read rb out count channels = rb_read_loop rb out count channels 0"

definition rb_memcpy_in :: "ma_pcm_rb \<Rightarrow> nat \<Rightarrow> u8 list \<Rightarrow> ma_pcm_rb" where
  "rb_memcpy_in rb off xs = rb\<lparr>pcm_rb := (pcm_rb rb)\<lparr>pBuffer := mem_write (pBuffer (pcm_rb rb)) off xs\<rparr>\<rparr>"

function rb_write_loop :: "ma_pcm_rb \<Rightarrow> u8 list \<Rightarrow> u32 \<Rightarrow> u32 \<Rightarrow> u32 \<Rightarrow> u32 \<times> ma_pcm_rb" where
  "rb_write_loop rb inp count channels done =
     (if done < count
      then case ma_pcm_rb_acquire_write (Some rb) (count - done) (Some NULL) of
        (result, n, data, rb1) \<Rightarrow>
          if result \<noteq> MA_SUCCESS \<or> n = 0 then (done, the rb1)
          else let rb2 = rb_memcpy_in (the rb1) (unat (the (the data)))
                     (mem_read inp (unat (done * channels) * 4) (unat (ucast n * ucast channels * 4 :: u64)));
                   rb3 = the (snd (ma_pcm_rb_commit_write (Some rb2) n))
               in rb_write_loop rb3 inp count channels (done + n)
      else (done, rb))"
  by pat_completeness auto
termination
proof (relation "measure (\<lambda>(rb, inp, count, channels, done). unat count - unat done)", goal_cases)
  case (2 rb inp count channels start x y xa ya xb yb xc xd)
  then have "ma_pcm_rb_acquire_write (Some rb) (count - start) (Some NULL) = (x, xa, xb, yb)" by simp
  from ma_pcm_rb_acquire_write_le [OF this] show ?case using acquired_progress [OF 2(1)] 2(5) by simp
qed simp

definition rb_write :: "ma_pcm_rb \<Rightarrow> u8 list \<Rightarrow> u32 \<Rightarrow> u32 \<Rightarrow> u32 \<times> ma_pcm_rb" where
  "rb_write rb inp count channels = rb_write_loop rb inp count channels 0"

declare rb_read_loop.simps [simp del] rb_write_loop.simps [simp del]


section \<open>Output\<close>

definition rd_ring :: "ra_device \<Rightarrow> nat \<Rightarrow> ma_pcm_rb" where
  "rd_ring d monitor = (if monitor \<noteq> 0 then rd_monitor d else rd_playback d)"

definition rd_set_ring :: "ra_device \<Rightarrow> nat \<Rightarrow> ma_pcm_rb \<Rightarrow> ra_device" where
  "rd_set_ring d monitor rb = (if monitor \<noteq> 0 then d\<lparr>rd_monitor := rb\<rparr> else d\<lparr>rd_playback := rb\<rparr>)"

text \<open>The discard loop of \<open>output_read\<close>: the frames before \<open>until\<close> are released without being
  copied. The difference of the 64-bit positions is cut to 32 bits.\<close>

lemma discard_progress:
  fixes until consumed :: u64 and n :: u32
  assumes "consumed < until" "unat n \<le> unat (ucast (until - consumed) :: u32)" "n \<noteq> 0"
  shows "unat until - unat (consumed + ucast n) < unat until - unat consumed"
proof -
  have d: "unat (until - consumed) = unat until - unat consumed" by (rule unat_diff_le [OF less_imp_le [OF assms(1)]])
  have lt: "unat consumed < unat until" using assms(1) by (simp add: word_less_nat_alt)
  have n0: "0 < unat n" using assms(3) by (simp add: unat_gt_0)
  have "unat n \<le> unat (until - consumed)" using assms(2) by (simp add: unat_ucast_u64_u32)
  then have "unat consumed + unat n \<le> unat until" using d lt by simp
  also have "\<dots> < 2 ^ 64" by simp
  finally have "unat (consumed + ucast n) = unat consumed + unat n" by (simp add: unat_add_lt)
  then show ?thesis using n0 lt by simp
qed

function discard_loop :: "ma_pcm_rb \<Rightarrow> u64 \<Rightarrow> u64 \<Rightarrow> u64 \<times> ma_pcm_rb" where
  "discard_loop rb until consumed =
     (if consumed < until
      then case ma_pcm_rb_acquire_read (Some rb) (Some (ucast (until - consumed))) (Some NULL) of
        (result, n, data) \<Rightarrow>
          if result \<noteq> MA_SUCCESS \<or> the n = 0 then (consumed, rb)
          else discard_loop (the (snd (ma_pcm_rb_commit_read (Some rb) (the n)))) until (consumed + ucast (the n))
      else (consumed, rb))"
  by pat_completeness auto
termination
proof (relation "measure (\<lambda>(rb, until, consumed). unat until - unat consumed)", goal_cases)
  case (2 rb until consumed x y xa ya)
  then have "ma_pcm_rb_acquire_read (Some rb) (Some (ucast (until - consumed))) (Some NULL) = (x, xa, ya)" by simp
  from ma_pcm_rb_acquire_read_le [OF this] have "unat (the xa) \<le> unat (ucast (until - consumed) :: u32)" by auto
  then show ?case using discard_progress [OF 2(1)] 2(4) by simp
qed simp

declare discard_loop.simps [simp del]

definition output_read :: "ra_device \<Rightarrow> nat \<Rightarrow> u8 list \<Rightarrow> u32 \<Rightarrow> u32 \<times> u8 list \<times> ra_device" where
  "output_read d monitor out frames =
     (let until = rd_discard d ! monitor;
          (consumed1, rb1) = discard_loop (rd_ring d monitor) until (rd_consumed d ! monitor);
          (n, out', rb2) = rb_read rb1 out frames 2
      in (n, out', (rd_set_ring d monitor rb2)\<lparr>rd_consumed := (rd_consumed d)[monitor := consumed1 + ucast n]\<rparr>))"

section \<open>The data callback\<close>

text \<open>One round of the capture loop: the current epoch is loaded, a partial frame of another
  epoch is dropped, as many samples as fit are copied, and a full frame is stamped and
  offered to the capture ring, which takes it or, when it is full, loses it.\<close>

definition capture_store :: "ra_device \<Rightarrow> ra_device" where
  "capture_store d =
     (case ma_rb_acquire_write (Some (rd_capture d)) (Some sizeof_ra_frame) (Some NULL) of
        (result, size', data, rb1) \<Rightarrow>
          if result = MA_SUCCESS \<and> the size' = sizeof_ra_frame
          then let rb2 = (the rb1)\<lparr>pBuffer := mem_write (pBuffer (the rb1)) (unat (the (the data)))
                     (ra_frame_bytes (rd_pending d))\<rparr>
               in d\<lparr>rd_capture := the (snd (ma_rb_commit_write (Some rb2) (the size')))\<rparr>
          else d\<lparr>rd_capture := the rb1\<rparr>)"

definition capture_sync :: "ra_device \<Rightarrow> ra_device" where
  "capture_sync d =
     (let epoch = rd_epoch d
      in if fr_epoch (rd_pending d) \<noteq> epoch
         then d\<lparr>rd_pending := (rd_pending d)\<lparr>fr_epoch := epoch\<rparr>, rd_captured := 0\<rparr> else d)"

definition capture_take :: "ra_device \<Rightarrow> u32 \<Rightarrow> u32 \<Rightarrow> u32" where
  "capture_take d frames i =
     (let n = RA_FRAME - rd_captured d in if n > frames - i then frames - i else n)"

definition capture_copy :: "ra_device \<Rightarrow> u8 list \<Rightarrow> u32 \<Rightarrow> u32 \<Rightarrow> ra_device" where
  "capture_copy d samples i n =
     d\<lparr>rd_pending := (rd_pending d)\<lparr>fr_samples := mem_write (fr_samples (rd_pending d)) (unat (rd_captured d) * 4)
          (mem_read samples (unat i * 4) (unat (ucast n * 4 :: u64)))\<rparr>,
       rd_captured := rd_captured d + n\<rparr>"

definition capture_finish :: "(nat \<Rightarrow> fval) \<Rightarrow> ra_device \<Rightarrow> ra_device" where
  "capture_finish now d =
     (if rd_captured d = RA_FRAME
      then (capture_store (d\<lparr>rd_pending := (rd_pending d)\<lparr>fr_time := now (rd_clock d)\<rparr>, rd_clock := rd_clock d + 1\<rparr>))
             \<lparr>rd_captured := 0\<rparr>
      else d)"

definition capture_round :: "(nat \<Rightarrow> fval) \<Rightarrow> ra_device \<Rightarrow> u8 list \<Rightarrow> u32 \<Rightarrow> u32 \<Rightarrow> ra_device \<times> u32" where
  "capture_round now d samples frames i =
     (let d1 = capture_sync d; n = capture_take d1 frames i
      in (capture_finish now (capture_copy d1 samples i n), i + n))"

text \<open>The loop runs while \<open>i < frames\<close>; each round moves at least one sample as long as fewer
  than 960 are pending, so \<open>frames\<close> rounds are enough (\<open>capture_loop_ends\<close>).\<close>

fun capture_loop :: "nat \<Rightarrow> (nat \<Rightarrow> fval) \<Rightarrow> ra_device \<Rightarrow> u8 list \<Rightarrow> u32 \<Rightarrow> u32 \<Rightarrow> ra_device option" where
  "capture_loop fuel now d samples frames i =
     (if i < frames
      then (case fuel of 0 \<Rightarrow> None
            | Suc fuel' \<Rightarrow> (case capture_round now d samples frames i of
                (d', i') \<Rightarrow> capture_loop fuel' now d' samples frames i'))
      else Some d)"

declare capture_loop.simps [simp del]

definition mix_clamp :: "fval \<Rightarrow> fval" where
  "mix_clamp v = (if flt (FNum False 1) v then FNum False 1 else if flt v (FNum True 1) then FNum True 1 else v)"

function mix_loop :: "u8 list \<Rightarrow> u8 list \<Rightarrow> u32 \<Rightarrow> u32 \<Rightarrow> u32 \<Rightarrow> u8 list" where
  "mix_loop out local i n j =
     (if j < n * 2
      then let v = fadd binary32 (f32_at out (unat (i * 2 + j))) (f32_at local (unat j))
           in mix_loop (f32_put out (unat (i * 2 + j)) (mix_clamp v)) local i n (j + 1)
      else out)"
  by pat_completeness auto
termination
proof (relation "measure (\<lambda>(out, local, i, n, j). unat (n * 2) - unat j)", goal_cases)
  case (2 out local i n j x)
  then have lt: "unat j < unat (n * 2)" by (simp add: word_less_nat_alt)
  then have "unat j + 1 \<le> unat (n * 2)" by simp
  also have "\<dots> < 2 ^ 32" by simp
  finally have "unat (j + 1) = unat j + 1" by (simp add: unat_add_lt)
  then show ?case using lt by simp
qed simp

declare mix_loop.simps [simp del]

function monitor_loop :: "ra_device \<Rightarrow> u8 list \<Rightarrow> u32 \<Rightarrow> u32 \<Rightarrow> u8 list \<times> ra_device" where
  "monitor_loop d out frames i =
     (if i < frames
      then let n = (if RA_FRAME > frames - i then frames - i else RA_FRAME);
               (k, local, d') = output_read d 1 (replicate (unat (ucast n * 2 * 4 :: u64)) 0) n
           in monitor_loop d' (mix_loop out local i n 0) frames (i + n)
      else (out, d))"
  by pat_completeness auto
termination
proof (relation "measure (\<lambda>(d, out, frames, i). unat frames - unat i)", goal_cases)
  case (2 d out frames i x y xa ya xb)
  have "x \<le> frames - i" "x \<noteq> 0" using 2(1,2) by (auto simp: not_less)
  then show ?case using acquired_progress [OF 2(1), of x] by (simp add: word_le_nat_alt)
qed simp

declare monitor_loop.simps [simp del]

definition callback_input :: "(nat \<Rightarrow> fval) \<Rightarrow> ra_device \<Rightarrow> u8 list \<Rightarrow> u32 \<Rightarrow> ra_device option" where
  "callback_input now d samples frames = capture_loop (unat frames) now d samples frames 0"

definition callback_output :: "ra_device \<Rightarrow> u32 \<Rightarrow> u8 list \<times> ra_device" where
  "callback_output d frames =
     (let out0 = replicate (unat (ucast frames * 2 * 4 :: u64)) 0;
          (k, out1, d1) = output_read d 0 out0 frames;
          (w, ref) = rb_write (rd_reference d1) out1 frames 2
      in monitor_loop (d1\<lparr>rd_reference := ref\<rparr>) out1 frames 0)"

definition rd_call_wake :: "ra_device \<Rightarrow> ra_device" where
  "rd_call_wake d = (if rd_wake d then d\<lparr>rd_woken := Suc (rd_woken d)\<rparr> else d)"

text \<open>\<open>output\<close> and \<open>input\<close> are null when the device does not play or record.\<close>

definition data_callback :: "(nat \<Rightarrow> fval) \<Rightarrow> ra_device \<Rightarrow> u8 list ptr \<Rightarrow> u8 list ptr \<Rightarrow> u32
    \<Rightarrow> (u8 list ptr \<times> ra_device) option" where
  "data_callback now d output input frames =
     (case (case input of None \<Rightarrow> Some d | Some samples \<Rightarrow> callback_input now d samples frames) of
        None \<Rightarrow> None
      | Some d1 \<Rightarrow>
          (case output of
             None \<Rightarrow> Some (NULL, rd_call_wake d1)
           | Some out \<Rightarrow> (case callback_output d1 frames of
               (bytes, d2) \<Rightarrow> Some (Some (bytes @ drop (length bytes) out), rd_call_wake d2))))"

section \<open>The notification callback and the client's calls\<close>

datatype ma_device_notification_type = started | stopped | rerouted | interruption_began
  | interruption_ended | unlocked

definition notification_callback :: "ra_device \<Rightarrow> ma_device_notification_type \<Rightarrow> ra_device" where
  "notification_callback d type =
     (if type = stopped \<and> rd_closing d = 0 then rd_call_wake (d\<lparr>rd_failed := 1\<rparr>) else d)"

definition ra_device_pending :: "ra_device \<Rightarrow> u32" where
  "ra_device_pending d = (if rd_playback_ok d then ma_pcm_rb_available_read (Some (rd_playback d)) else 0)"

definition ra_device_failed :: "ra_device \<Rightarrow> u32" where
  "ra_device_failed d = rd_failed d"

definition ra_device_epoch :: "ra_device \<Rightarrow> u32 \<Rightarrow> ra_device" where
  "ra_device_epoch d epoch = d\<lparr>rd_epoch := epoch\<rparr>"

definition ra_device_discard :: "ra_device \<Rightarrow> ra_device" where
  "ra_device_discard d = fold (\<lambda>i d. d\<lparr>rd_discard := (rd_discard d)[i := rd_written d ! i]\<rparr>) [0..<2] d"

definition ra_device_capture :: "(nat \<Rightarrow> fval) \<Rightarrow> ra_device \<Rightarrow> ra_frame option \<times> ra_device" where
  "ra_device_capture now d =
     (case ma_rb_acquire_read (Some (rd_capture d)) (Some sizeof_ra_frame) (Some NULL) of
        (result, n, data) \<Rightarrow>
          if result \<noteq> MA_SUCCESS \<or> the n \<noteq> sizeof_ra_frame then (None, d)
          else let f = ra_frame_of_bytes (mem_read (pBuffer (rd_capture d)) (unat (the (the data))) (unat (the n)));
                   rb = the (snd (ma_rb_commit_read (Some (rd_capture d)) (the n)))
               in (Some (f\<lparr>fr_time := fsub binary64 (now (rd_clock d)) (fr_time f)\<rparr>),
                   d\<lparr>rd_capture := rb, rd_clock := rd_clock d + 1\<rparr>))"

definition ra_device_reference :: "ra_device \<Rightarrow> u8 list \<Rightarrow> u32 \<times> u8 list \<times> ra_device" where
  "ra_device_reference d out =
     (case rb_read (rd_reference d) out RA_FRAME 2 of (n, out', rb) \<Rightarrow> (n, out', d\<lparr>rd_reference := rb\<rparr>))"

definition ra_device_write :: "ra_device \<Rightarrow> u8 list \<Rightarrow> nat \<Rightarrow> u32 \<times> ra_device" where
  "ra_device_write d samples monitor =
     (case rb_write (rd_ring d monitor) samples RA_FRAME 2 of
        (n, rb) \<Rightarrow> (n, (rd_set_ring d monitor rb)
                      \<lparr>rd_written := (rd_written d)[monitor := rd_written d ! monitor + ucast n]\<rparr>))"

section \<open>The copy loops are the queue's client loops\<close>

lemma round_request:
  fixes count start :: u32
  assumes "start < count" "unat count * b < 2 ^ 32"
  shows "unat (count - start) = unat count - unat start" "unat (count - start) * b < 2 ^ 32"
proof -
  show d: "unat (count - start) = unat count - unat start" by (rule unat_diff_le [OF less_imp_le [OF assms(1)]])
  show "unat (count - start) * b < 2 ^ 32"
    unfolding d using le_less_trans [OF mult_le_mono1 assms(2)] by simp
qed

text \<open>The facts of one round with a region of \<open>k\<close> frames: nothing wraps.\<close>

lemma round_sizes:
  fixes count start channels :: u32
  assumes "start < count" "unat count * b < 2 ^ 32" "b = 4 * unat channels" "0 < b" "k \<le> unat count - unat start"
  shows "unat (of_nat k :: u32) = k"
    "unat (start * channels) * 4 = unat start * b"
    "unat (ucast (of_nat k :: u32) * ucast channels * 4 :: u64) = k * b"
    "unat (start + of_nat k) = unat start + k"
    "unat start * b + k * b \<le> unat count * b"
proof -
  have lt: "unat start < unat count" using assms(1) by (simp add: word_less_nat_alt)
  have c: "unat count < 2 ^ 32" by simp
  have "k < 2 ^ 32" using assms(5) le_less_trans [OF _ c, of k] by simp
  then show uk: "unat (of_nat k :: u32) = k" by (simp add: unat_of_nat)
  have "(unat start + k) * b \<le> unat count * b" using assms(5) lt by (intro mult_le_mono1) simp
  then show sum: "unat start * b + k * b \<le> unat count * b" by (simp only: add_mult_distrib)
  have "unat start * unat channels * 4 = unat start * b" by (simp add: assms(3))
  moreover from this have "unat start * unat channels < 2 ^ 32" using sum assms(2) by linarith
  ultimately show "unat (start * channels) * 4 = unat start * b"
    by (subst unat_mult_lt) simp_all
  have kb: "k * unat channels * 4 = k * b" by (simp add: assms(3))
  have "k * unat channels * 4 < 2 ^ 32" using kb sum assms(2) by linarith
  then have kl: "k * unat channels * 4 < 2 ^ 64" by simp
  then have "unat (ucast (of_nat k :: u32) * ucast channels :: u64) = k * unat channels"
    using uk by (subst unat_mult_lt) simp_all
  then show "unat (ucast (of_nat k :: u32) * ucast channels * 4 :: u64) = k * b"
    using kb kl by (subst unat_mult_lt) simp_all
  have "unat start + k < 2 ^ 32" using assms(5) lt c by linarith
  then show "unat (start + of_nat k) = unat start + k"
    using uk by (subst unat_add_lt) simp_all
qed

lemma rb_read_loop_refines:
  assumes "pcm_wf rb" "pcm_bpf rb = 4 * unat channels" "unat count * pcm_bpf rb < 2 ^ 32"
    "unat count * pcm_bpf rb \<le> length out" "unat start \<le> unat count"
  shows "rb_read_loop rb out count channels start =
    (case frame_ring.read_loop rb (unat count - unat start) of
       (xs, rb') \<Rightarrow> (start + of_nat (length xs), mem_write out (unat start * pcm_bpf rb) (concat xs), rb'))"
  using assms
proof (induction "unat count - unat start" arbitrary: rb out start rule: less_induct)
  case less
  let ?b = "pcm_bpf rb" and ?n = "unat count - unat start"
  obtain k where k: "k = min ?n (pcm_readable rb)" by blast
  have b: "0 < ?b" using less.prems(1) by (simp add: pcm_wf_def)
  show ?case
  proof (cases "start < count")
    case False
    then have "?n = 0" by (simp add: word_less_nat_alt)
    then show ?thesis using False frame_ring.read_round [of 0 0 rb] by (subst rb_read_loop.simps) simp
  next
    case True
    note rq = round_request [OF True less.prems(3)]
    have kn: "k \<le> ?n" and kr: "k \<le> pcm_readable rb" by (simp_all add: k)
    note sz = round_sizes [OF True less.prems(3,2) b kn]
    have acq: "ma_pcm_rb_acquire_read (Some rb) (Some (count - start)) (Some NULL)
        = (MA_SUCCESS, Some (of_nat k), Some (Some (ma_rb__get_read_ptr (pcm_rb rb))))"
      unfolding k using ma_pcm_rb_acquire_read_ok [OF less.prems(1) rq(2), of NULL] rq(1) by simp
    have zero: "(of_nat k :: u32) = 0 \<longleftrightarrow> k = 0" using sz(1) by (metis unat_0 unat_eq_zero)
    show ?thesis
    proof (cases "k = 0")
      case k0: True
      then have "frame_ring.read_loop rb ?n = ([], rb)" by (simp add: frame_ring.read_round [OF k])
      then show ?thesis using True k0 by (subst rb_read_loop.simps) (simp add: acq)
    next
      case False
      let ?rb = "pcm_consume rb k" and ?s = "start + of_nat k" and ?new = "concat (take k (pcm_contents rb))"
      note new = pcm_bytes_of_peek [OF less.prems(1) kr]
      have com: "ma_pcm_rb_commit_read (Some rb) (of_nat k) = (MA_SUCCESS, Some ?rb)"
        using ma_pcm_rb_commit_read_ok [OF less.prems(1), of "of_nat k"] sz(1) kr by simp
      have step: "rb_read_loop rb out count channels start
          = rb_read_loop ?rb (mem_write out (unat start * ?b) ?new) count channels ?s"
        using True False zero new(1) by (subst rb_read_loop.simps) (simp add: acq com sz(2,3) Let_def rb_rd_def)
      have fit: "unat start * ?b + length ?new \<le> length out" using sz(5) less.prems(4) new(2) by simp
      have pk: "pcm_peek rb k = take k (pcm_contents rb)" by (rule frame_ring.peek_take [OF less.prems(1) kr])
      obtain xs rb' where r: "frame_ring.read_loop ?rb (?n - k) = (xs, rb')" by fastforce
      have rl: "frame_ring.read_loop rb ?n = (pcm_peek rb k @ xs, rb')"
        using False r by (simp add: frame_ring.read_round [OF k])
      have lk: "length (pcm_peek rb k) = k"
        using kr frame_ring.readable_le [OF less.prems(1)] by (simp add: pk)
      have nx: "unat count - unat ?s < unat count - unat start" "unat ?s \<le> unat count" "unat count - unat ?s = ?n - k"
        unfolding sz(4) using kn False True by (auto simp: word_less_nat_alt)
      from less.hyps [OF nx(1) pcm_consume_ok(1) [OF less.prems(1) kr] _ _ _ nx(2), of "mem_write out (unat start * ?b) ?new"]
      have "rb_read_loop ?rb (mem_write out (unat start * ?b) ?new) count channels ?s =
          (?s + of_nat (length xs), mem_write (mem_write out (unat start * ?b) ?new) (unat ?s * ?b) (concat xs), rb')"
        using less.prems(2,3,4) length_mem_write [OF fit] r nx(3) by simp
      also have "mem_write (mem_write out (unat start * ?b) ?new) (unat ?s * ?b) (concat xs)
          = mem_write out (unat start * ?b) (concat (pcm_peek rb k @ xs))"
        using mem_write_append [OF fit, of "concat xs"] new(2) by (simp add: sz(4) add_mult_distrib pk)
      finally show ?thesis unfolding step rl using lk by simp
    qed
  qed
qed


lemma rb_read_ok:
  assumes wf: "pcm_wf rb" and b: "pcm_bpf rb = 4 * unat channels" and n: "unat count * pcm_bpf rb < 2 ^ 32"
    and out: "unat count * pcm_bpf rb \<le> length out"
  shows "\<exists>rb'. rb_read rb out count channels = (of_nat (min (unat count) (length (pcm_contents rb))),
      mem_write out 0 (concat (take (unat count) (pcm_contents rb))), rb')
    \<and> pcm_wf rb' \<and> pcm_cap rb' = pcm_cap rb \<and> pcm_contents rb' = drop (unat count) (pcm_contents rb)
    \<and> rb' = snd (frame_ring.read_loop rb (unat count))"
  using frame_ring.read_loop_spec [OF wf, of "unat count"] rb_read_loop_refines [OF wf b n out, of 0]
  by (auto simp: rb_read_def min.commute)

text \<open>Copying frames to the acquired region and committing it is the queue's \<open>put\<close>.\<close>

lemma commit_memcpy_in:
  assumes wf: "pcm_wf rb" and fr: "list_all (is_frame rb) fs" and n: "unat n = length fs" "length fs \<le> pcm_writable rb"
  shows "ma_pcm_rb_commit_write (Some (rb_memcpy_in rb (unat (ma_rb__get_write_ptr (pcm_rb rb))) (concat fs))) n
    = (MA_SUCCESS, Some (pcm_put rb fs))"
proof -
  have len: "length (concat fs) = length fs * pcm_bpf rb"
    using fr by (intro length_concat_const) (auto simp: list_all_iff is_frame_def)
  have "rb_cap (pcm_rb rb) \<le> length (pBuffer (pcm_rb rb))" using wf by (simp add: pcm_wf_def rb_wf_def)
  with pcm_region_bytes(2) [OF wf n(2)] len
  have "length (mem_write (pBuffer (pcm_rb rb)) (rb_wr (pcm_rb rb)) (concat fs)) = length (pBuffer (pcm_rb rb))"
    by (simp add: length_mem_write)
  from ma_pcm_rb_commit_write_ok [OF wf _ this, of n] n len show ?thesis
    by (simp add: rb_memcpy_in_def pcm_put_def rb_put_def rb_wr_def)
qed

lemma rb_write_loop_refines:
  assumes "pcm_wf rb" "pcm_bpf rb = 4 * unat channels" "unat count * pcm_bpf rb < 2 ^ 32"
    "length fs = unat count" "list_all (is_frame rb) fs" "unat start \<le> unat count"
  shows "rb_write_loop rb (concat fs) count channels start =
    (case frame_ring.write_loop rb (drop (unat start) fs) of (m, rb') \<Rightarrow> (start + of_nat m, rb'))"
  using assms
proof (induction "unat count - unat start" arbitrary: rb start rule: less_induct)
  case less
  let ?b = "pcm_bpf rb" and ?n = "unat count - unat start" and ?fs = "drop (unat start) fs"
  obtain k where k: "k = min (length ?fs) (pcm_writable rb)" by blast
  have b: "0 < ?b" using less.prems(1) by (simp add: pcm_wf_def)
  show ?case
  proof (cases "start < count")
    case False
    then have "?fs = []" using less.prems(4) by (simp add: word_less_nat_alt)
    then show ?thesis using False frame_ring.write_round [of 0 "[]" rb] by (subst rb_write_loop.simps) simp
  next
    case True
    note rq = round_request [OF True less.prems(3)]
    have kn: "k \<le> ?n" and kw: "k \<le> pcm_writable rb" using less.prems(4) by (simp_all add: k)
    note sz = round_sizes [OF True less.prems(3,2) b kn]
    have acq: "ma_pcm_rb_acquire_write (Some rb) (count - start) (Some NULL)
        = (MA_SUCCESS, of_nat k, Some (Some (ma_rb__get_write_ptr (pcm_rb rb))), Some rb)"
      unfolding k using ma_pcm_rb_acquire_write_ok [OF less.prems(1) rq(2), of NULL] rq(1) less.prems(4) by simp
    have zero: "(of_nat k :: u32) = 0 \<longleftrightarrow> k = 0" using sz(1) by (metis unat_0 unat_eq_zero)
    show ?thesis
    proof (cases "k = 0")
      case k0: True
      then have "frame_ring.write_loop rb ?fs = (0, rb)" by (simp add: frame_ring.write_round [OF k])
      then show ?thesis using True k0 by (subst rb_write_loop.simps) (simp add: acq)
    next
      case False
      let ?new = "take k ?fs" and ?s = "start + of_nat k"
      let ?rb = "pcm_put rb ?new"
      have fr: "list_all (is_frame rb) ?new" "\<forall>f\<in>set fs. length f = ?b"
        using less.prems(5) by (auto simp: list_all_iff is_frame_def dest: in_set_takeD in_set_dropD)
      have lk: "length ?new = k" using k by simp
      have data: "mem_read (concat fs) (unat start * ?b) (k * ?b) = concat ?new"
        by (rule mem_read_concat [OF fr(2)])
      have com: "the (snd (ma_pcm_rb_commit_write (Some (rb_memcpy_in rb (unat (ma_rb__get_write_ptr (pcm_rb rb))) (concat ?new)))
          (of_nat k))) = ?rb"
        using commit_memcpy_in [OF less.prems(1) fr(1), of "of_nat k"] lk kw sz(1) by simp
      have step: "rb_write_loop rb (concat fs) count channels start = rb_write_loop ?rb (concat fs) count channels ?s"
        using True False zero data com by (subst rb_write_loop.simps) (simp add: acq sz(2,3) Let_def)
      note put = pcm_put_ok [OF less.prems(1) fr(1)]
      obtain m rb' where r: "frame_ring.write_loop ?rb (drop k ?fs) = (m, rb')" by fastforce
      have wl: "frame_ring.write_loop rb ?fs = (k + m, rb')"
        using False r by (simp add: frame_ring.write_round [OF k])
      have nx: "unat count - unat ?s < unat count - unat start" "unat ?s \<le> unat count"
        unfolding sz(4) using kn False True by (auto simp: word_less_nat_alt)
      have "list_all (is_frame ?rb) fs" using less.prems(5) by (simp add: is_frame_def list_all_iff)
      from less.hyps [OF nx(1) put(1) _ _ less.prems(4) this nx(2)]
      have "rb_write_loop ?rb (concat fs) count channels ?s = (?s + of_nat m, rb')"
        using less.prems(2,3) r lk kw sz(4) by (simp add: add.commute)
      then show ?thesis unfolding step wl by simp
    qed
  qed
qed


lemma rb_write_ok:
  assumes wf: "pcm_wf rb" and b: "pcm_bpf rb = 4 * unat channels" and n: "unat count * pcm_bpf rb < 2 ^ 32"
    and fs: "length fs = unat count" "list_all (is_frame rb) fs"
  shows "\<exists>rb'. rb_write rb (concat fs) count channels
      = (of_nat (min (unat count) (pcm_cap rb - length (pcm_contents rb))), rb')
    \<and> pcm_wf rb' \<and> pcm_cap rb' = pcm_cap rb
    \<and> pcm_contents rb' = pcm_contents rb @ take (pcm_cap rb - length (pcm_contents rb)) fs
    \<and> rb' = snd (frame_ring.write_loop rb fs)"
  using frame_ring.write_loop_spec [OF wf fs(2)] rb_write_loop_refines [OF wf b n fs, of 0] fs(1)
  by (auto simp: rb_write_def)

lemma read_loop_frame [simp]:
  "pcm_format (snd (frame_ring.read_loop rb n)) = pcm_format rb"
  "pcm_channels (snd (frame_ring.read_loop rb n)) = pcm_channels rb"
proof (induction rb n rule: frame_ring.read_loop.induct)
  case (1 rb n)
  let ?k = "min n (pcm_readable rb)"
  { case 1 show ?case using "1.IH"(1) [OF refl] by (subst frame_ring.read_round [OF refl]) (auto split: prod.split) }
  { case 2 show ?case using "1.IH"(2) [OF refl] by (subst frame_ring.read_round [OF refl]) (auto split: prod.split) }
qed

lemma write_loop_frame [simp]:
  "pcm_format (snd (frame_ring.write_loop rb fs)) = pcm_format rb"
  "pcm_channels (snd (frame_ring.write_loop rb fs)) = pcm_channels rb"
proof (induction rb fs rule: frame_ring.write_loop.induct)
  case (1 rb fs)
  { case 1 show ?case using "1.IH"(1) [OF refl] by (subst frame_ring.write_round [OF refl]) (auto split: prod.split) }
  { case 2 show ?case using "1.IH"(2) [OF refl] by (subst frame_ring.write_round [OF refl]) (auto split: prod.split) }
qed

section \<open>The device invariant\<close>

text \<open>A ring of \<open>RA_CAPACITY\<close> stereo buffers of floats.\<close>

definition stereo_ring :: "ma_pcm_rb \<Rightarrow> bool" where
  "stereo_ring rb \<longleftrightarrow> pcm_wf rb \<and> pcm_format rb = ma_format_f32 \<and> pcm_channels rb = 2
     \<and> pcm_cap rb = RA_FRAME * RA_CAPACITY"

lemma stereo_bpf:
  assumes "stereo_ring rb"
  shows "pcm_wf rb" "pcm_bpf rb = 8" "pcm_bpf rb = 4 * unat (2 :: u32)"
  using assms by (simp_all add: stereo_ring_def pcm_bpf_def ma_pcm_rb_get_bpf_def ma_get_bytes_per_frame_def)

lemma stereo_is_frame: "stereo_ring rb \<Longrightarrow> is_frame rb f \<longleftrightarrow> length f = 8"
  by (simp add: is_frame_def stereo_bpf)

lemma stereo_contents:
  assumes "stereo_ring rb"
  shows "length (pcm_contents rb) \<le> 7680" "\<forall>f\<in>set (pcm_contents rb). length f = 8"
  using frame_ring.contents_le [OF stereo_bpf(1) [OF assms]] assms pcm_contents_frames [OF stereo_bpf(1) [OF assms]]
    stereo_bpf(2) [OF assms] by (auto simp: stereo_ring_def)

lemma rb_read_stereo:
  assumes "stereo_ring rb" "unat count * 8 < 2 ^ 32" "unat count * 8 \<le> length out"
  shows "\<exists>rb'. rb_read rb out count 2 = (of_nat (min (unat count) (length (pcm_contents rb))),
      mem_write out 0 (concat (take (unat count) (pcm_contents rb))), rb')
    \<and> stereo_ring rb' \<and> pcm_contents rb' = drop (unat count) (pcm_contents rb)"
proof -
  note b = stereo_bpf [OF assms(1)]
  obtain rb' where "rb_read rb out count 2 = (of_nat (min (unat count) (length (pcm_contents rb))),
      mem_write out 0 (concat (take (unat count) (pcm_contents rb))), rb')"
    "pcm_wf rb'" "pcm_cap rb' = pcm_cap rb" "pcm_contents rb' = drop (unat count) (pcm_contents rb)"
    "rb' = snd (frame_ring.read_loop rb (unat count))"
    using rb_read_ok [OF b(1,3)] assms(2,3) b(2) by auto
  then show ?thesis using assms(1) by (auto simp: stereo_ring_def)
qed

lemma rb_write_stereo:
  assumes "stereo_ring rb" "unat count * 8 < 2 ^ 32" "length fs = unat count" "\<forall>f\<in>set fs. length f = 8"
  shows "\<exists>rb'. rb_write rb (concat fs) count 2 = (of_nat (min (unat count) (7680 - length (pcm_contents rb))), rb')
    \<and> stereo_ring rb' \<and> pcm_contents rb' = pcm_contents rb @ take (7680 - length (pcm_contents rb)) fs"
proof -
  note b = stereo_bpf [OF assms(1)]
  have cap: "pcm_cap rb = 7680" using assms(1) by (simp add: stereo_ring_def)
  have fr: "list_all (is_frame rb) fs" using assms(4) stereo_is_frame [OF assms(1)] by (simp add: list_all_iff)
  obtain rb' where "rb_write rb (concat fs) count 2 = (of_nat (min (unat count) (7680 - length (pcm_contents rb))), rb')"
    "pcm_wf rb'" "pcm_cap rb' = pcm_cap rb" "pcm_contents rb' = pcm_contents rb @ take (7680 - length (pcm_contents rb)) fs"
    "rb' = snd (frame_ring.write_loop rb fs)"
    using rb_write_ok [OF b(1,3) _ assms(3) fr] assms(2) b(2) cap by auto
  then show ?thesis using assms(1) by (auto simp: stereo_ring_def)
qed

lemma discard_loop_refines:
  assumes "stereo_ring rb" "(unat until - unat consumed) * 8 < 2 ^ 32" 
  shows "discard_loop rb until consumed =
    (case frame_ring.read_loop rb (unat until - unat consumed) of
       (xs, rb') \<Rightarrow> (consumed + of_nat (length xs), rb'))"
  using assms
proof (induction "unat until - unat consumed" arbitrary: rb consumed rule: less_induct)
  case less
  let ?n = "unat until - unat consumed"
  obtain k where k: "k = min ?n (pcm_readable rb)" by blast
  note b = stereo_bpf [OF less.prems(1)]
  show ?case
  proof (cases "consumed < until")
    case False
    then have "?n = 0" by (simp add: word_less_nat_alt)
    then show ?thesis using False frame_ring.read_round [of 0 0 rb] by (subst discard_loop.simps) simp
  next
    case True
    have d: "unat (until - consumed) = ?n" by (rule unat_diff_le [OF less_imp_le [OF True]])
    have u: "unat (ucast (until - consumed) :: u32) = ?n" using less.prems(2) by (simp add: unat_ucast_u64_u32 d)
    have kn: "k \<le> ?n" and kr: "k \<le> pcm_readable rb" by (simp_all add: k)
    have k32: "k < 2 ^ 32" using kn less.prems(2) by linarith
    then have uk: "unat (of_nat k :: u32) = k" by (simp add: unat_of_nat)
    have acq: "ma_pcm_rb_acquire_read (Some rb) (Some (ucast (until - consumed))) (Some NULL)
        = (MA_SUCCESS, Some (of_nat k), Some (Some (ma_rb__get_read_ptr (pcm_rb rb))))"
      unfolding k using ma_pcm_rb_acquire_read_ok [OF b(1), of "ucast (until - consumed)" NULL] less.prems(2) u b(2) by simp
    have zero: "(of_nat k :: u32) = 0 \<longleftrightarrow> k = 0" using uk by (metis unat_0 unat_eq_zero)
    show ?thesis
    proof (cases "k = 0")
      case k0: True
      then have "frame_ring.read_loop rb ?n = ([], rb)" by (simp add: frame_ring.read_round [OF k])
      then show ?thesis using True k0 by (subst discard_loop.simps) (simp add: acq)
    next
      case False
      let ?rb = "pcm_consume rb k" and ?c = "consumed + of_nat k"
      have com: "ma_pcm_rb_commit_read (Some rb) (of_nat k) = (MA_SUCCESS, Some ?rb)"
        using ma_pcm_rb_commit_read_ok [OF b(1), of "of_nat k"] uk kr by simp
      have uu: "(ucast (of_nat k :: u32) :: u64) = of_nat k"
        using k32 uk by (intro word_unat_eq_iff [THEN iffD2]) (simp add: unat_of_nat)
      have step: "discard_loop rb until consumed = discard_loop ?rb until ?c"
        using True False zero uu by (subst discard_loop.simps) (simp add: acq com)
      have "unat consumed + k \<le> unat until" using kn True by (simp add: word_less_nat_alt)
      also have "\<dots> < 2 ^ 64" by simp
      finally have uc: "unat ?c = unat consumed + k" using k32 by (subst unat_add_lt) (simp_all add: unat_of_nat)
      have st: "stereo_ring ?rb"
        using less.prems(1) pcm_consume_ok(1) [OF b(1) kr] frame_ring.cap_consume [OF b(1) kr]
        by (simp add: stereo_ring_def)
      obtain xs rb' where r: "frame_ring.read_loop ?rb (?n - k) = (xs, rb')" by fastforce
      have rl: "frame_ring.read_loop rb ?n = (pcm_peek rb k @ xs, rb')"
        using False r by (simp add: frame_ring.read_round [OF k])
      have lk: "length (pcm_peek rb k) = k"
        using kr frame_ring.readable_le [OF b(1)] by (simp add: frame_ring.peek_take [OF b(1) kr])
      have nx: "unat until - unat ?c < ?n" "unat until - unat ?c = ?n - k"
        unfolding uc using kn False by auto
      have "discard_loop ?rb until ?c = (?c + of_nat (length xs), rb')"
        using less.hyps [OF nx(1) st] less.prems(2) r nx(2) by simp
      then show ?thesis unfolding step rl using lk by simp
    qed
  qed
qed

section \<open>The capture ring\<close>

definition frame_ok :: "ra_frame \<Rightarrow> bool" where
  "frame_ok f \<longleftrightarrow> length (fr_samples f) = 3840 \<and> fval_ok binary64 (fr_time f)"

lemma length_ra_frame_bytes: "frame_ok f \<Longrightarrow> length (ra_frame_bytes f) = 3856"
  by (simp add: ra_frame_bytes_def frame_ok_def)

lemma ra_frame_round_trip:
  assumes "frame_ok f"
  shows "ra_frame_of_bytes (ra_frame_bytes f) = f"
proof -
  have "mem_read (ra_frame_bytes f) 0 4 = le_bytes 4 (unat (fr_epoch f))"
    by (simp add: ra_frame_bytes_def mem_read_def del: le_bytes.simps)
  moreover have "mem_read (ra_frame_bytes f) 8 8 = bytes_of_f64 (fr_time f)"
    by (simp add: ra_frame_bytes_def mem_read_def del: le_bytes.simps)
  moreover have "mem_read (ra_frame_bytes f) 16 3840 = fr_samples f"
    using assms by (simp add: ra_frame_bytes_def mem_read_def frame_ok_def del: le_bytes.simps)
  ultimately show ?thesis
    using assms by (simp add: ra_frame_of_bytes_def frame_ok_def f64_bytes_round_trip le_nat_bytes)
qed

text \<open>The capture ring holds whole frames only: its capacity and both cursors are multiples
  of the frame size.\<close>

definition capture_ring :: "ma_rb \<Rightarrow> bool" where
  "capture_ring rb \<longleftrightarrow> rb_wf rb \<and> \<not> clearOnWriteAcquire rb \<and> rb_cap rb = sizeof_ra_frame * RA_CAPACITY
     \<and> sizeof_ra_frame dvd rb_rd rb \<and> sizeof_ra_frame dvd rb_wr rb"

definition capture_cells :: "ma_rb \<Rightarrow> u8 list list" where
  "capture_cells rb = chunks sizeof_ra_frame (rb_contents rb)"

definition capture_frames :: "ma_rb \<Rightarrow> ra_frame list" where
  "capture_frames rb = map ra_frame_of_bytes (capture_cells rb)"

lemma capture_ring_grants:
  assumes "capture_ring rb"
  shows "3856 dvd rb_readable rb" "3856 dvd rb_writable rb" "3856 dvd length (rb_contents rb)"
    "length (capture_cells rb) * 3856 = length (rb_contents rb)" "length (capture_cells rb) \<le> 8"
proof -
  have wf: "rb_wf rb" and c: "rb_cap rb = 3856 * 8" "3856 dvd rb_rd rb" "3856 dvd rb_wr rb"
    using assms by (simp_all add: capture_ring_def)
  have cap: "3856 dvd rb_cap rb" unfolding c(1) by simp
  show d: "3856 dvd length (rb_contents rb)"
    using length_rb_contents [OF wf] cap c(2,3) by (auto intro: dvd_add dvd_diff_nat)
  show "3856 dvd rb_readable rb" "3856 dvd rb_writable rb"
    using cap c(2,3) by (auto simp: rb_readable_def rb_writable_def intro: dvd_diff_nat)
  show e: "length (capture_cells rb) * 3856 = length (rb_contents rb)"
    using d by (simp add: capture_cells_def length_chunks)
  show "length (capture_cells rb) \<le> 8" using e length_rb_contents_le [OF wf] c(1) by simp
qed

lemma dvd_min_cell: "c dvd r \<Longrightarrow> 0 < c \<Longrightarrow> min c r = (if r = 0 then 0 else c)" for c r :: nat
  by (auto simp: min_def dest: dvd_imp_le)

lemma ra_device_capture_ok:
  assumes ring: "capture_ring (rd_capture d)"
  shows "capture_frames (rd_capture d) = [] \<Longrightarrow> ra_device_capture now d = (None, d)"
    "capture_frames (rd_capture d) = f # fs \<Longrightarrow> \<exists>rb. ra_device_capture now d =
       (Some (f\<lparr>fr_time := fsub binary64 (now (rd_clock d)) (fr_time f)\<rparr>),
        d\<lparr>rd_capture := rb, rd_clock := rd_clock d + 1\<rparr>) \<and> capture_ring rb \<and> capture_frames rb = fs"
proof -
  let ?rb = "rd_capture d"
  have wf: "rb_wf ?rb" using ring by (simp add: capture_ring_def)
  note g = capture_ring_grants [OF ring]
  have acq: "ma_rb_acquire_read (Some ?rb) (Some 3856) (Some NULL) = (MA_SUCCESS,
      Some (if rb_readable ?rb = 0 then 0 else 3856), Some (Some (ma_rb__get_read_ptr ?rb)))"
    using ma_rb_acquire_read_ok [OF wf, of 3856 NULL] dvd_min_cell [OF g(1)] by simp
  have empty: "rb_readable ?rb = 0 \<longleftrightarrow> capture_frames ?rb = []"
    using byte_ring.readable_0 [OF wf] by (auto simp: capture_frames_def capture_cells_def chunks_eq_Nil)
  show "ra_device_capture now d = (None, d)" if "capture_frames ?rb = []"
    using that empty by (simp add: ra_device_capture_def acq)
  show "\<exists>rb. ra_device_capture now d = (Some (f\<lparr>fr_time := fsub binary64 (now (rd_clock d)) (fr_time f)\<rparr>),
        d\<lparr>rd_capture := rb, rd_clock := rd_clock d + 1\<rparr>) \<and> capture_ring rb \<and> capture_frames rb = fs"
    if frames: "capture_frames ?rb = f # fs"
  proof -
    have r: "3856 \<le> rb_readable ?rb" using empty frames dvd_imp_le [OF g(1)] by simp
    let ?new = "rb_advance_read ?rb 3856"
    have le: "rb_rd ?rb + 3856 \<le> rb_cap ?rb" using r rb_region_bounds(1) [OF wf] by simp
    have com: "ma_rb_commit_read (Some ?rb) 3856 = (MA_SUCCESS, Some ?new)"
      using ma_rb_commit_read_ok [of ?rb 3856] le by simp
    have data: "mem_read (pBuffer ?rb) (unat (ma_rb__get_read_ptr ?rb)) 3856 = take 3856 (rb_contents ?rb)"
      using rb_read_region [OF wf r] by (simp add: rb_rd_def)
    have ne: "rb_contents ?rb \<noteq> []" using frames by (auto simp: capture_frames_def capture_cells_def)
    then have f: "f = ra_frame_of_bytes (take 3856 (rb_contents ?rb))"
      "fs = map ra_frame_of_bytes (chunks 3856 (drop 3856 (rb_contents ?rb)))"
      using frames by (simp_all add: capture_frames_def capture_cells_def chunks_step)
    note adv = rb_advance_read_contents [OF wf r] and v = rb_advance_read_view [OF wf le]
    have "capture_ring ?new" using ring adv(1) unfolding capture_ring_def v by (auto simp: dvd_add)
    moreover have "capture_frames ?new = fs" by (simp add: capture_frames_def capture_cells_def adv(2) f(2))
    ultimately show ?thesis
      using frames empty f(1) by (intro exI [of _ ?new]) (simp add: ra_device_capture_def acq com data Let_def)
  qed
qed

lemma capture_store_ok:
  assumes ring: "capture_ring (rd_capture d)" and fr: "frame_ok (rd_pending d)"
  shows "\<exists>rb. capture_store d = d\<lparr>rd_capture := rb\<rparr> \<and> capture_ring rb
    \<and> capture_frames rb = (if length (capture_frames (rd_capture d)) < RA_CAPACITY
        then capture_frames (rd_capture d) @ [rd_pending d] else capture_frames (rd_capture d))"
proof -
  let ?rb = "rd_capture d" and ?bs = "ra_frame_bytes (rd_pending d)"
  have wf: "rb_wf ?rb" and cl: "\<not> clearOnWriteAcquire ?rb" and cap: "rb_cap ?rb = 3856 * 8"
    using ring by (simp_all add: capture_ring_def)
  note g = capture_ring_grants [OF ring] and len = length_ra_frame_bytes [OF fr]
  have acq: "ma_rb_acquire_write (Some ?rb) (Some 3856) (Some NULL) = (MA_SUCCESS,
      Some (if rb_writable ?rb = 0 then 0 else 3856), Some (Some (ma_rb__get_write_ptr ?rb)), Some ?rb)"
    using ma_rb_acquire_write_ok [OF wf cl, of 3856 NULL] dvd_min_cell [OF g(2)] by simp
  have full: "rb_writable ?rb = 0 \<longleftrightarrow> \<not> length (capture_frames ?rb) < 8"
    using byte_ring.writable_0 [OF wf] g(4,5) cap by (auto simp: capture_frames_def)
  show ?thesis
  proof (cases "rb_writable ?rb = 0")
    case True
    then show ?thesis
      using ring full by (intro exI [of _ ?rb]) (simp add: capture_store_def acq)
  next
    case False
    let ?new = "rb_put ?rb ?bs"
    have w: "length ?bs \<le> rb_writable ?rb" using False len dvd_imp_le [OF g(2)] by simp
    have le: "rb_wr ?rb + 3856 \<le> rb_cap ?rb" using w len rb_region_bounds(2) [OF wf] by simp
    let ?r = "?rb\<lparr>pBuffer := mem_write (pBuffer ?rb) (rb_wr ?rb) ?bs\<rparr>"
    have "rb_wf ?r" using wf le len by (auto simp: rb_wf_def rb_view_defs offset_defs length_mem_write)
    then have com: "ma_rb_commit_write (Some ?r) 3856 = (MA_SUCCESS, Some ?new)"
      using ma_rb_commit_write_ok [of ?r 3856] le len by (simp add: rb_put_def rb_wr_def offset_defs)
    have ok: "list_all (\<lambda>_. True) ?bs" by (simp add: list_all_iff)
    note v = rb_put_view [OF wf w]
    have "capture_ring ?new"
      using ring byte_ring.inv_put [OF wf _ w] byte_ring.cap_put [OF wf _ w] unfolding capture_ring_def v
      by (auto simp: len dvd_add list_all_iff)
    moreover have "capture_cells ?new = capture_cells ?rb @ [?bs]"
      using byte_ring.contents_put [OF wf _ w] g(3) len chunks_concat [of 3856 "[?bs]"]
      by (simp add: capture_cells_def chunks_append list_all_iff)
    ultimately show ?thesis
      using False full ra_frame_round_trip [OF fr] com
      by (intro exI [of _ ?new]) (simp add: capture_store_def acq capture_frames_def rb_wr_def)
  qed
qed

section \<open>The device invariant and the live queues\<close>

text \<open>For the playback ring (0) and the monitor ring (1) the positions count frames since
  the device was opened: what is written and not consumed is in the ring.\<close>

definition rd_ring_ok :: "ra_device \<Rightarrow> nat \<Rightarrow> bool" where
  "rd_ring_ok d i \<longleftrightarrow> stereo_ring (rd_ring d i)
     \<and> unat (rd_written d ! i) = unat (rd_consumed d ! i) + length (pcm_contents (rd_ring d i))
     \<and> unat (rd_discard d ! i) \<le> unat (rd_written d ! i)"

definition ra_inv :: "ra_device \<Rightarrow> bool" where
  "ra_inv d \<longleftrightarrow> length (rd_written d) = 2 \<and> length (rd_consumed d) = 2 \<and> length (rd_discard d) = 2
     \<and> rd_ring_ok d 0 \<and> rd_ring_ok d 1 \<and> stereo_ring (rd_reference d) \<and> capture_ring (rd_capture d)
     \<and> unat (rd_captured d) < RA_FRAME \<and> length (fr_samples (rd_pending d)) = 3840"

text \<open>The frames that will be played: those of the ring that no discard has overtaken.\<close>

definition rd_queue :: "ra_device \<Rightarrow> nat \<Rightarrow> u8 list list" where
  "rd_queue d i = drop (unat (rd_discard d ! i) - unat (rd_consumed d ! i)) (pcm_contents (rd_ring d i))"

lemma rd_ring_simps [simp]:
  "rd_ring (rd_set_ring d i rb) i = rb"
  "i < 2 \<Longrightarrow> j < 2 \<Longrightarrow> i \<noteq> j \<Longrightarrow> rd_ring (rd_set_ring d i rb) j = rd_ring d j"
  "rd_ring (d\<lparr>rd_consumed := c\<rparr>) i = rd_ring d i" "rd_ring (d\<lparr>rd_written := c\<rparr>) i = rd_ring d i"
  "rd_ring (d\<lparr>rd_discard := c\<rparr>) i = rd_ring d i" "rd_ring (d\<lparr>rd_reference := r\<rparr>) i = rd_ring d i"
  "rd_ring (d\<lparr>rd_capture := q\<rparr>) i = rd_ring d i" "rd_ring (d\<lparr>rd_pending := p\<rparr>) i = rd_ring d i"
  "rd_ring (d\<lparr>rd_captured := n\<rparr>) i = rd_ring d i" "rd_ring (d\<lparr>rd_clock := k\<rparr>) i = rd_ring d i"
  "rd_ring (d\<lparr>rd_epoch := e\<rparr>) i = rd_ring d i" "rd_ring (d\<lparr>rd_woken := k\<rparr>) i = rd_ring d i"
  "rd_ring (d\<lparr>rd_failed := e\<rparr>) i = rd_ring d i"
  by (auto simp: rd_ring_def rd_set_ring_def)

lemma rd_set_ring_simps [simp]:
  "rd_written (rd_set_ring d i rb) = rd_written d" "rd_consumed (rd_set_ring d i rb) = rd_consumed d"
  "rd_discard (rd_set_ring d i rb) = rd_discard d" "rd_reference (rd_set_ring d i rb) = rd_reference d"
  "rd_capture (rd_set_ring d i rb) = rd_capture d" "rd_pending (rd_set_ring d i rb) = rd_pending d"
  "rd_captured (rd_set_ring d i rb) = rd_captured d" "rd_epoch (rd_set_ring d i rb) = rd_epoch d"
  "rd_clock (rd_set_ring d i rb) = rd_clock d" "rd_failed (rd_set_ring d i rb) = rd_failed d"
  "rd_closing (rd_set_ring d i rb) = rd_closing d" "rd_wake (rd_set_ring d i rb) = rd_wake d"
  "rd_woken (rd_set_ring d i rb) = rd_woken d" "rd_playback_ok (rd_set_ring d i rb) = rd_playback_ok d"
  by (auto simp: rd_set_ring_def)

lemma less_2_cases: "i < (2::nat) \<Longrightarrow> i = 0 \<or> i = 1"
  by auto

lemma ra_inv_ring: "ra_inv d \<Longrightarrow> i < 2 \<Longrightarrow> rd_ring_ok d i"
  using less_2_cases by (auto simp: ra_inv_def)

lemma rd_queue_le: "ra_inv d \<Longrightarrow> i < 2 \<Longrightarrow> length (rd_queue d i) \<le> 7680"
  using stereo_contents(1) [of "rd_ring d i"] ra_inv_ring [of d i]
  by (auto simp: rd_queue_def rd_ring_ok_def)

lemma rd_queue_frames: "ra_inv d \<Longrightarrow> i < 2 \<Longrightarrow> f \<in> set (rd_queue d i) \<Longrightarrow> length f = 8"
  using stereo_contents(2) [of "rd_ring d i"] ra_inv_ring [of d i]
  by (auto simp: rd_queue_def rd_ring_ok_def dest: in_set_dropD)

text \<open>The invariant after one ring and its positions change.\<close>

lemma ra_inv_read:
  assumes "ra_inv d" "i < 2" "stereo_ring rb" "unat (rd_written d ! i) = unat c + length (pcm_contents rb)"
  shows "ra_inv ((rd_set_ring d i rb)\<lparr>rd_consumed := (rd_consumed d)[i := c]\<rparr>)"
  using assms less_2_cases [OF assms(2)] by (auto simp: ra_inv_def rd_ring_ok_def)

lemma ra_inv_write:
  assumes "ra_inv d" "i < 2" "stereo_ring rb" "unat w = unat (rd_consumed d ! i) + length (pcm_contents rb)"
    and "unat (rd_written d ! i) \<le> unat w"
  shows "ra_inv ((rd_set_ring d i rb)\<lparr>rd_written := (rd_written d)[i := w]\<rparr>)"
  using assms less_2_cases [OF assms(2)] by (auto simp: ra_inv_def rd_ring_ok_def)

section \<open>Reading the output rings\<close>

lemma output_read_ok:
  assumes inv: "ra_inv d" and i: "i < 2" and n: "unat frames * 8 < 2 ^ 32" and out: "unat frames * 8 \<le> length out"
  shows "\<exists>rb c. output_read d i out frames = (of_nat (min (unat frames) (length (rd_queue d i))),
      mem_write out 0 (concat (take (unat frames) (rd_queue d i))),
      (rd_set_ring d i rb)\<lparr>rd_consumed := (rd_consumed d)[i := c]\<rparr>)
    \<and> ra_inv ((rd_set_ring d i rb)\<lparr>rd_consumed := (rd_consumed d)[i := c]\<rparr>)
    \<and> rd_queue ((rd_set_ring d i rb)\<lparr>rd_consumed := (rd_consumed d)[i := c]\<rparr>) i = drop (unat frames) (rd_queue d i)"
proof -
  let ?rb = "rd_ring d i" and ?u = "rd_discard d ! i" and ?c = "rd_consumed d ! i" and ?w = "rd_written d ! i"
  let ?q = "rd_queue d i" and ?s = "unat ?u - unat ?c"
  have ok: "stereo_ring ?rb" "unat ?w = unat ?c + length (pcm_contents ?rb)" "unat ?u \<le> unat ?w"
    using ra_inv_ring [OF inv i] by (simp_all add: rd_ring_ok_def)
  note b = stereo_bpf [OF ok(1)]
  have s: "?s \<le> length (pcm_contents ?rb)" using ok(2,3) by simp
  then have s8: "?s * 8 < 2 ^ 32" using stereo_contents(1) [OF ok(1)] by simp
  obtain rb1 where r1: "frame_ring.read_loop ?rb ?s = (take ?s (pcm_contents ?rb), rb1)" "pcm_wf rb1"
    "pcm_cap rb1 = pcm_cap ?rb" "pcm_contents rb1 = ?q"
    using frame_ring.read_loop_spec [OF b(1), of ?s] by (auto simp: rd_queue_def)
  have st1: "stereo_ring rb1"
    using ok(1) r1 read_loop_frame [of ?rb ?s] by (simp add: stereo_ring_def)
  have dl: "discard_loop ?rb ?u ?c = (?c + of_nat ?s, rb1)"
    using discard_loop_refines [OF ok(1) s8] r1(1) s by simp
  obtain rb2 where r2: "rb_read rb1 out frames 2 = (of_nat (min (unat frames) (length ?q)),
      mem_write out 0 (concat (take (unat frames) ?q)), rb2)" "stereo_ring rb2" "pcm_contents rb2 = drop (unat frames) ?q"
    using rb_read_stereo [OF st1 n out] r1(4) by auto
  define m where "m = min (unat frames) (length ?q)"
  define c where "c = ?c + of_nat ?s + ucast (of_nat m :: u32)"
  have lq: "length ?q = length (pcm_contents ?rb) - ?s" by (simp add: rd_queue_def)
  have m32: "m < 2 ^ 32" using n by (simp add: m_def)
  have "unat ?c + ?s + m \<le> unat ?w" using ok(2) s lq by (simp add: m_def)
  moreover have "unat ?w < 2 ^ 64" by simp
  ultimately have lt: "unat ?c + ?s + m < 2 ^ 64" by (rule le_less_trans)
  have us: "unat (of_nat ?s :: u64) = ?s" using s8 by (simp add: unat_of_nat)
  have u1: "unat (?c + of_nat ?s) = unat ?c + ?s" using lt us by (subst unat_add_lt) simp_all
  have um: "unat (ucast (of_nat m :: u32) :: u64) = m" using m32 by (simp add: unat_of_nat)
  have uc: "unat c = unat ?c + ?s + m" unfolding c_def using lt u1 um by (subst unat_add_lt) simp_all
  let ?d = "(rd_set_ring d i rb2)\<lparr>rd_consumed := (rd_consumed d)[i := c]\<rparr>"
  have eq: "output_read d i out frames = (of_nat m, mem_write out 0 (concat (take (unat frames) ?q)), ?d)"
    by (simp add: output_read_def dl r2(1) m_def [symmetric] c_def)
  have l2: "length (pcm_contents rb2) = length ?q - m" by (simp add: r2(3) m_def)
  have "m \<le> length ?q" by (simp add: m_def)
  then have "unat ?w = unat c + length (pcm_contents rb2)" using ok(2) s lq uc l2 by linarith
  note inv' = ra_inv_read [OF inv i r2(2) this]
  have "length (rd_consumed d) = 2" using inv by (simp add: ra_inv_def)
  then have "rd_queue ?d i = pcm_contents rb2" using i uc by (simp add: rd_queue_def)
  then show ?thesis using eq inv' r2(3) unfolding m_def by (intro exI [of _ rb2] exI [of _ c]) simp
qed


section \<open>The client's calls\<close>

lemma ra_device_write_ok:
  assumes inv: "ra_inv d" and i: "i < 2" and fs: "length fs = RA_FRAME" "\<forall>f\<in>set fs. length f = 8"
    and room: "unat (rd_written d ! i) + RA_FRAME < 2 ^ 64"
  shows "\<exists>rb w k. ra_device_write d (concat fs) i
      = (of_nat k, (rd_set_ring d i rb)\<lparr>rd_written := (rd_written d)[i := w]\<rparr>)
    \<and> k = min RA_FRAME (7680 - length (pcm_contents (rd_ring d i)))
    \<and> ra_inv ((rd_set_ring d i rb)\<lparr>rd_written := (rd_written d)[i := w]\<rparr>)
    \<and> rd_queue ((rd_set_ring d i rb)\<lparr>rd_written := (rd_written d)[i := w]\<rparr>) i = rd_queue d i @ take k fs"
proof -
  let ?rb = "rd_ring d i" and ?c = "rd_consumed d ! i" and ?w = "rd_written d ! i" and ?u = "rd_discard d ! i"
  let ?free = "7680 - length (pcm_contents ?rb)"
  have ok: "stereo_ring ?rb" "unat ?w = unat ?c + length (pcm_contents ?rb)" "unat ?u \<le> unat ?w"
    using ra_inv_ring [OF inv i] by (simp_all add: rd_ring_ok_def)
  define k where "k = min 960 ?free"
  obtain rb where rb: "rb_write ?rb (concat fs) 960 2 = (of_nat k, rb)" "stereo_ring rb"
    "pcm_contents rb = pcm_contents ?rb @ take ?free fs"
    using rb_write_stereo [OF ok(1), of 960 fs] fs by (auto simp: k_def)
  have tk: "take ?free fs = take k fs" using fs(1) by (simp add: k_def min_def)
  have kl: "k \<le> 960" by (simp add: k_def)
  define w where "w = ?w + ucast (of_nat k :: u32)"
  have "unat (ucast (of_nat k :: u32) :: u64) = k" using kl by (simp add: unat_of_nat)
  then have uw: "unat w = unat ?w + k" unfolding w_def using room kl by (subst unat_add_lt) simp_all
  let ?d = "(rd_set_ring d i rb)\<lparr>rd_written := (rd_written d)[i := w]\<rparr>"
  have "unat w = unat ?c + length (pcm_contents rb)" using uw ok(2) rb(3) tk fs(1) kl by simp
  from ra_inv_write [OF inv i rb(2) this] uw have "ra_inv ?d" by simp
  moreover have "rd_queue ?d i = rd_queue d i @ take k fs"
    using ok(2,3) by (simp add: rd_queue_def rb(3) tk)
  moreover have "ra_device_write d (concat fs) i = (of_nat k, ?d)"
    by (simp add: ra_device_write_def rb(1) w_def)
  ultimately show ?thesis unfolding k_def by blast
qed

lemma ra_device_discard_eq:
  assumes "ra_inv d"
  shows "ra_device_discard d = d\<lparr>rd_discard := rd_written d\<rparr>"
proof -
  obtain a b where "rd_written d = [a, b]"
    using assms by (auto simp: ra_inv_def length_Suc_conv numeral_2_eq_2)
  moreover obtain p q where "rd_discard d = [p, q]"
    using assms by (auto simp: ra_inv_def length_Suc_conv numeral_2_eq_2)
  ultimately show ?thesis by (simp add: ra_device_discard_def numeral_2_eq_2)
qed

lemma ra_device_discard_ok:
  assumes inv: "ra_inv d"
  shows "ra_inv (ra_device_discard d)" "i < 2 \<Longrightarrow> rd_queue (ra_device_discard d) i = []"
    "rd_ring (ra_device_discard d) i = rd_ring d i"
proof -
  have w: "unat (rd_written d ! i) = unat (rd_consumed d ! i) + length (pcm_contents (rd_ring d i))" if "i < 2" for i
    using ra_inv_ring [OF inv that] by (simp add: rd_ring_ok_def)
  show "ra_inv (ra_device_discard d)"
    using inv by (auto simp: ra_device_discard_eq [OF inv] ra_inv_def rd_ring_ok_def)
  show "rd_queue (ra_device_discard d) i = []" if "i < 2"
    using w [OF that] by (simp add: ra_device_discard_eq [OF inv] rd_queue_def)
  show "rd_ring (ra_device_discard d) i = rd_ring d i" by (simp add: ra_device_discard_eq [OF inv])
qed

lemma ra_device_reference_ok:
  assumes inv: "ra_inv d" and out: "7680 \<le> length out"
  shows "\<exists>rb. ra_device_reference d out = (of_nat (min RA_FRAME (length (pcm_contents (rd_reference d)))),
      mem_write out 0 (concat (take RA_FRAME (pcm_contents (rd_reference d)))), d\<lparr>rd_reference := rb\<rparr>)
    \<and> ra_inv (d\<lparr>rd_reference := rb\<rparr>) \<and> pcm_contents rb = drop RA_FRAME (pcm_contents (rd_reference d))"
proof -
  have st: "stereo_ring (rd_reference d)" using inv by (simp add: ra_inv_def)
  obtain rb where "rb_read (rd_reference d) out 960 2 = (of_nat (min 960 (length (pcm_contents (rd_reference d)))),
      mem_write out 0 (concat (take 960 (pcm_contents (rd_reference d)))), rb)" "stereo_ring rb"
    "pcm_contents rb = drop 960 (pcm_contents (rd_reference d))"
    using rb_read_stereo [OF st, of 960 out] out by auto
  then show ?thesis using inv by (auto simp: ra_device_reference_def ra_inv_def rd_ring_ok_def)
qed

lemma ra_device_pending_ok:
  assumes "ra_inv d"
  shows "unat (ra_device_pending d) = (if rd_playback_ok d then length (pcm_contents (rd_playback d)) else 0)"
proof -
  have "stereo_ring (rd_playback d)" using assms by (simp add: ra_inv_def rd_ring_ok_def rd_ring_def)
  then show ?thesis
    using ma_pcm_rb_available_ok by (auto simp: ra_device_pending_def stereo_ring_def)
qed

end
