(* ===== verification/RaCallback.thy ===== *)
theory RaCallback
  imports RaDevice "HOL-Library.Sublist"
begin

text \<open>
  What the data callback of \<open>RaDevice\<close> does: the mix it plays and records as reference, the
  frames it cuts out of the captured samples, and, over runs that interleave it with the
  client's calls, that each route is a queue that only a discard may empty.
\<close>

section \<open>Mixing\<close>

lemma f32_at_put:
  assumes "4 * k + 4 \<le> length m" "4 * x + 4 \<le> length m" "fval_ok binary32 v"
  shows "f32_at (f32_put m k v) x = (if x = k then v else f32_at m x)"
proof -
  consider "x = k" | "x < k" | "k < x" by linarith
  then show ?thesis
  proof cases
    case 1
    then show ?thesis using assms by (simp add: f32_at_def f32_put_def mem_read_write_same f32_bytes_round_trip)
  next
    case 2
    then have "mem_read (mem_write m (4 * k) (bytes_of_f32 v)) (4 * x) 4 = mem_read m (4 * x) 4"
      using assms by (intro mem_read_write_before) simp_all
    with 2 show ?thesis by (simp add: f32_at_def f32_put_def)
  next
    case 3
    then have "mem_read (mem_write m (4 * k) (bytes_of_f32 v)) (4 * x) 4 = mem_read m (4 * x) 4"
      using assms by (intro mem_read_write_after) simp_all
    with 3 show ?thesis by (simp add: f32_at_def f32_put_def)
  qed
qed

lemma length_f32_put: "4 * k + 4 \<le> length m \<Longrightarrow> length (f32_put m k v) = length m"
  by (simp add: f32_put_def length_mem_write)

lemma one_ok [simp]: "fval_ok binary32 (FNum s 1)"
  by (simp, rule fmagI [of _ 1 0]) (simp_all add: binary32_def)

lemma mix_clamp_ok: "fval_ok binary32 v \<Longrightarrow> fval_ok binary32 (mix_clamp v)"
  by (simp add: mix_clamp_def del: fval_ok.simps)

text \<open>A mixed sample is in \<open>[-1, 1]\<close> unless it is a NaN.\<close>

lemma mix_clamp_range:
  assumes "v \<noteq> FNaN"
  shows "\<exists>s m. mix_clamp v = FNum s m \<and> -1 \<le> fsval s m \<and> fsval s m \<le> 1"
proof (cases v)
  case (FInf s)
  then show ?thesis by (cases s) (auto simp: mix_clamp_def fsval_def)
next
  case (FNum s m)
  then show ?thesis by (auto simp: mix_clamp_def fsval_def)
qed (use assms in simp)

lemma mix_clamp_id: "fle v (FNum False 1) \<Longrightarrow> fle (FNum True 1) v \<Longrightarrow> mix_clamp v = v"
  by (cases v) (auto simp: mix_clamp_def fle_def fsval_def)

lemma mix_loop_ok:
  assumes "unat i * 2 + unat n * 2 < 2 ^ 32" "4 * (unat i * 2 + unat n * 2) \<le> length out" "unat j \<le> unat n * 2"
  shows "length (mix_loop out local i n j) = length out
    \<and> (\<forall>x. 4 * x + 4 \<le> length out \<longrightarrow> f32_at (mix_loop out local i n j) x =
        (if unat i * 2 + unat j \<le> x \<and> x < unat i * 2 + unat n * 2
         then mix_clamp (fadd binary32 (f32_at out x) (f32_at local (x - unat i * 2))) else f32_at out x))"
  using assms
proof (induction "unat n * 2 - unat j" arbitrary: out j)
  case 0
  have "unat (n * 2) = unat n * 2" using "0.prems"(1) by (subst unat_mult_lt) simp_all
  then have "\<not> j < n * 2" using 0 by (simp add: word_less_nat_alt)
  then have "mix_loop out local i n j = out" by (subst mix_loop.simps) simp
  with 0 show ?case by auto
next
  case (Suc r)
  have n2: "unat (n * 2) = unat n * 2" using Suc.prems(1) by (subst unat_mult_lt) simp_all
  have i2: "unat (i * 2) = unat i * 2" using Suc.prems(1) by (subst unat_mult_lt) simp_all
  have j: "unat j < unat n * 2" using Suc.hyps(2) by simp
  then have jl: "j < n * 2" by (simp add: word_less_nat_alt n2)
  have k: "unat (i * 2 + j) = unat i * 2 + unat j" using Suc.prems(1) j i2 by (subst unat_add_lt) simp_all
  have j1: "unat (j + 1) = unat j + 1" using Suc.prems(1) j by (subst unat_add_lt) simp_all
  let ?k = "unat i * 2 + unat j"
  let ?v = "mix_clamp (fadd binary32 (f32_at out ?k) (f32_at local (unat j)))"
  let ?out = "f32_put out ?k ?v"
  have kb: "4 * ?k + 4 \<le> length out" using Suc.prems(2) j by simp
  have ok: "fval_ok binary32 ?v" by (intro mix_clamp_ok fadd_ok) simp
  have len: "length ?out = length out" by (rule length_f32_put [OF kb])
  have step: "mix_loop out local i n j = mix_loop ?out local i n (j + 1)"
    using jl by (subst mix_loop.simps) (simp add: k Let_def)
  have ih: "length (mix_loop ?out local i n (j + 1)) = length ?out
    \<and> (\<forall>x. 4 * x + 4 \<le> length ?out \<longrightarrow> f32_at (mix_loop ?out local i n (j + 1)) x =
        (if unat i * 2 + unat (j + 1) \<le> x \<and> x < unat i * 2 + unat n * 2
         then mix_clamp (fadd binary32 (f32_at ?out x) (f32_at local (x - unat i * 2))) else f32_at ?out x))"
    using Suc.hyps(1) [of "j + 1" ?out] Suc.hyps(2) Suc.prems j1 j len by simp
  show ?case
    unfolding step using ih len j f32_at_put [OF kb _ ok] by (auto simp: j1)
qed

section \<open>The output half of the callback\<close>

text \<open>\<open>n\<close> frames from a queue, with silence where it runs dry.\<close>

definition padded :: "nat \<Rightarrow> u8 list list \<Rightarrow> u8 list list" where
  "padded n q = take n q @ replicate (n - length q) (replicate 8 0)"

lemma length_padded [simp]: "length (padded n q) = n"
  by (simp add: padded_def)

lemma padded_frames: "\<forall>f\<in>set q. length f = 8 \<Longrightarrow> \<forall>f\<in>set (padded n q). length f = 8"
  by (auto simp: padded_def dest: in_set_takeD)

lemma length_concat_padded: "\<forall>f\<in>set q. length f = 8 \<Longrightarrow> length (concat (padded n q)) = n * 8"
  using length_concat_const [of "padded n q" 8] padded_frames [of q n] by simp

lemma padded_add: "padded (a + b) q = padded a q @ padded b (drop a q)"
  by (cases "a \<le> length q") (simp_all add: padded_def take_add replicate_add [symmetric])

lemma read_over_silence:
  assumes "\<forall>f\<in>set q. length f = 8"
  shows "mem_write (replicate (n * 8) 0) 0 (concat (take n q)) = concat (padded n q)"
proof -
  have l: "length (concat (take n q)) = min n (length q) * 8"
    using assms length_concat_const [of "take n q" 8] by (auto simp: min.commute dest: in_set_takeD)
  have r: "concat (replicate k (replicate 8 0)) = replicate (k * 8) 0" for k
    by (induction k) (simp_all add: replicate_add [symmetric] numeral_eq_Suc)
  show ?thesis using l by (simp add: mem_write_def padded_def r min_def diff_mult_distrib)
qed


text \<open>Two devices that differ only in what reading the output rings changes.\<close>

definition same_but_output :: "ra_device \<Rightarrow> ra_device \<Rightarrow> bool" where
  "same_but_output d d' \<longleftrightarrow> d' = d\<lparr>rd_playback := rd_playback d', rd_monitor := rd_monitor d',
     rd_reference := rd_reference d', rd_consumed := rd_consumed d'\<rparr>"

lemma same_but_output_refl [simp]: "same_but_output d d"
  by (simp add: same_but_output_def)

lemma same_but_output_trans: "same_but_output d e \<Longrightarrow> same_but_output e f \<Longrightarrow> same_but_output d f"
  unfolding same_but_output_def by (cases d, cases e, cases f) simp

lemma same_but_output_read [simp]:
  "same_but_output d ((rd_set_ring d i rb)\<lparr>rd_consumed := c\<rparr>)" "same_but_output d (d\<lparr>rd_reference := r\<rparr>)"
  by (simp_all add: same_but_output_def rd_set_ring_def)

lemma mix_samples_join:
  assumes len: "length loc = 4 * (2 * n)" and x: "x < 2 * N"
    and head: "\<And>x. x < 2 * N \<Longrightarrow> f32_at o1 x = (if i * 2 \<le> x \<and> x < i * 2 + n * 2
        then mix_clamp (fadd binary32 (f32_at o0 x) (f32_at loc (x - i * 2))) else f32_at o0 x)"
    and rest: "\<And>x. x < 2 * N \<Longrightarrow> f32_at o2 x = (if x < 2 * (i + n) then f32_at o1 x
        else mix_clamp (fadd binary32 (f32_at o1 x) (f32_at later (x - 2 * (i + n)))))"
  shows "f32_at o2 x = (if x < 2 * i then f32_at o0 x
     else mix_clamp (fadd binary32 (f32_at o0 x) (f32_at (loc @ later) (x - 2 * i))))"
proof -
  consider "x < 2 * i" | "2 * i \<le> x" "x < 2 * (i + n)" | "2 * (i + n) \<le> x" by linarith
  then show ?thesis
  proof cases
    case 2
    have "f32_at (loc @ later) (x - 2 * i) = f32_at loc (x - 2 * i)"
      by (rule f32_at_append) (use 2 len in simp)
    then show ?thesis using 2 head [OF x] rest [OF x] by (simp add: mult.commute)
  next
    case 3
    have "f32_at (loc @ later) (x - 2 * i) = f32_at later (x - 2 * i - 2 * n)"
      by (rule f32_at_append(2) [OF len]) (use 3 in simp)
    then show ?thesis using 3 head [OF x] rest [OF x] by simp
  qed (use head [OF x] rest [OF x] in simp)
qed

lemma rd_queue_other:
  assumes "i < 2" "j < 2" "i \<noteq> j"
  shows "rd_queue ((rd_set_ring d i rb)\<lparr>rd_consumed := (rd_consumed d)[i := c]\<rparr>) j = rd_queue d j"
  using assms by (simp add: rd_queue_def)

lemma monitor_loop_ok:
  assumes "ra_inv d" "unat frames * 8 < 2 ^ 32" "length out = unat frames * 8" "unat i \<le> unat frames"
  shows "\<exists>out' d'. monitor_loop d out frames i = (out', d') \<and> length out' = length out \<and> ra_inv d'
    \<and> rd_queue d' 0 = rd_queue d 0 \<and> rd_queue d' 1 = drop (unat frames - unat i) (rd_queue d 1)
    \<and> same_but_output d d' \<and> rd_reference d' = rd_reference d
    \<and> (\<forall>x < 2 * unat frames. f32_at out' x = (if x < 2 * unat i then f32_at out x
         else mix_clamp (fadd binary32 (f32_at out x)
           (f32_at (concat (padded (unat frames - unat i) (rd_queue d 1))) (x - 2 * unat i)))))"
  using assms
proof (induction "unat frames - unat i" arbitrary: d out i rule: less_induct)
  case less
  show ?case
  proof (cases "i < frames")
    case False
    then have "unat i = unat frames" using less.prems(4) by (simp add: word_less_nat_alt)
    moreover have "monitor_loop d out frames i = (out, d)" using False by (subst monitor_loop.simps) simp
    ultimately show ?thesis using less.prems by auto
  next
    case True
    let ?n = "if RA_FRAME > frames - i then frames - i else RA_FRAME :: u32" and ?q = "rd_queue d 1"
    obtain n where n: "n = ?n" by blast
    have fi: "unat (frames - i) = unat frames - unat i" by (rule unat_diff_le [OF less_imp_le [OF True]])
    have lt: "unat i < unat frames" using True by (simp add: word_less_nat_alt)
    have nb: "unat n \<le> unat frames - unat i" "0 < unat n"
      using lt by (auto simp: n fi word_less_nat_alt)
    have n8: "unat n * 8 < 2 ^ 32" using nb(1) less.prems(2) by linarith
    have "unat (ucast n * 2 :: u64) = unat n * 2" using n8 by (subst unat_mult_lt) simp_all
    then have nbytes: "unat (ucast n * 2 * 4 :: u64) = unat n * 8" using n8 by (subst unat_mult_lt) simp_all
    have qf: "\<forall>f\<in>set ?q. length f = 8" using rd_queue_frames [OF less.prems(1), of 1] by auto
    let ?loc = "concat (padded (unat n) ?q)"
    obtain rb c where o: "output_read d 1 (replicate (unat n * 8) 0) n
        = (of_nat (min (unat n) (length ?q)), ?loc, (rd_set_ring d 1 rb)\<lparr>rd_consumed := (rd_consumed d)[1 := c]\<rparr>)"
      "ra_inv ((rd_set_ring d 1 rb)\<lparr>rd_consumed := (rd_consumed d)[1 := c]\<rparr>)"
      "rd_queue ((rd_set_ring d 1 rb)\<lparr>rd_consumed := (rd_consumed d)[1 := c]\<rparr>) 1 = drop (unat n) ?q"
      using output_read_ok [OF less.prems(1), of 1 n "replicate (unat n * 8) 0"] n8 read_over_silence [OF qf, of "unat n"]
      by auto
    obtain d1 where d1: "d1 = (rd_set_ring d 1 rb)\<lparr>rd_consumed := (rd_consumed d)[1 := c]\<rparr>" by blast
    have q0: "rd_queue d1 0 = rd_queue d 0" unfolding d1 by (rule rd_queue_other) simp_all
    let ?out = "mix_loop out ?loc i n 0"
    have step: "monitor_loop d out frames i = monitor_loop d1 ?out frames (i + n)"
      using True o(1) nbytes by (subst monitor_loop.simps) (simp add: Let_def d1 flip: n)
    have ub: "unat i * 2 + unat n * 2 < 2 ^ 32" "4 * (unat i * 2 + unat n * 2) \<le> length out"
      using nb(1) lt less.prems(2,3) by simp_all
    from mix_loop_ok [OF ub, of 0] have mx: "length ?out = length out"
      "\<And>x. 4 * x + 4 \<le> length out \<Longrightarrow> f32_at ?out x = (if unat i * 2 \<le> x \<and> x < unat i * 2 + unat n * 2
         then mix_clamp (fadd binary32 (f32_at out x) (f32_at ?loc (x - unat i * 2))) else f32_at out x)"
      by auto
    have "unat i + unat n \<le> unat frames" using nb(1) lt by simp
    moreover have "unat frames < 2 ^ 32" by simp
    ultimately have "unat i + unat n < 2 ^ 32" by (rule le_less_trans)
    then have iN: "unat (i + n) = unat i + unat n" by (simp add: unat_add_lt)
    have nx: "unat frames - unat (i + n) < unat frames - unat i" "unat (i + n) \<le> unat frames"
      unfolding iN using nb lt by simp_all
    from less.hyps [OF nx(1) o(2) [folded d1] less.prems(2) _ nx(2), of ?out] mx(1) less.prems(3)
    obtain out' d' where ih: "monitor_loop d1 ?out frames (i + n) = (out', d')" "length out' = length ?out" "ra_inv d'"
      "rd_queue d' 0 = rd_queue d1 0" "rd_queue d' 1 = drop (unat frames - unat (i + n)) (rd_queue d1 1)"
      "same_but_output d1 d'" "rd_reference d' = rd_reference d1"
      "\<forall>x < 2 * unat frames. f32_at out' x = (if x < 2 * unat (i + n) then f32_at ?out x
         else mix_clamp (fadd binary32 (f32_at ?out x)
           (f32_at (concat (padded (unat frames - unat (i + n)) (rd_queue d1 1))) (x - 2 * unat (i + n)))))"
      by auto
    have split: "unat frames - unat i = unat n + (unat frames - unat (i + n))" unfolding iN using nb(1) by simp
    have pad: "concat (padded (unat frames - unat i) ?q)
        = ?loc @ concat (padded (unat frames - unat (i + n)) (rd_queue d1 1))"
      unfolding split padded_add using o(3) [folded d1] by simp
    have len: "length ?loc = 4 * (2 * unat n)" using length_concat_padded [OF qf, of "unat n"] by simp
    have sample: "f32_at out' x = (if x < 2 * unat i then f32_at out x
         else mix_clamp (fadd binary32 (f32_at out x) (f32_at (concat (padded (unat frames - unat i) ?q)) (x - 2 * unat i))))"
      if "x < 2 * unat frames" for x
      unfolding pad
    proof (rule mix_samples_join [OF len that, of ?out "unat i" out])
      show "f32_at ?out y = (if unat i * 2 \<le> y \<and> y < unat i * 2 + unat n * 2
          then mix_clamp (fadd binary32 (f32_at out y) (f32_at ?loc (y - unat i * 2))) else f32_at out y)"
        if "y < 2 * unat frames" for y using that less.prems(3) by (intro mx(2)) simp
    qed (use ih(8) iN in auto)
    have "rd_queue d' 1 = drop (unat frames - unat i) ?q"
      unfolding ih(5) o(3) [folded d1] split by (simp add: add.commute)
    moreover have "same_but_output d d'"
      by (rule same_but_output_trans [OF _ ih(6)]) (simp add: d1)
    moreover have "rd_reference d' = rd_reference d" using ih(7) by (simp add: d1)
    ultimately show ?thesis
      unfolding step ih(1) using sample ih(2,3,4) mx(1) q0 by auto
  qed
qed


text \<open>The whole output half: the playback queue is played, padded with silence; it is also
  what the reference ring records, before the monitor queue is mixed in.\<close>

lemma callback_output_ok:
  assumes inv: "ra_inv d" and n: "unat frames * 8 < 2 ^ 32"
  defines "play \<equiv> padded (unat frames) (rd_queue d 0)" and "mon \<equiv> padded (unat frames) (rd_queue d 1)"
  shows "\<exists>out d'. callback_output d frames = (out, d') \<and> length out = unat frames * 8 \<and> ra_inv d'
    \<and> (\<forall>x < 2 * unat frames. f32_at out x
         = mix_clamp (fadd binary32 (f32_at (concat play) x) (f32_at (concat mon) x)))
    \<and> (\<forall>i < 2. rd_queue d' i = drop (unat frames) (rd_queue d i))
    \<and> pcm_contents (rd_reference d') = pcm_contents (rd_reference d)
         @ take (7680 - length (pcm_contents (rd_reference d))) play
    \<and> same_but_output d d'"
proof -
  let ?q = "rd_queue d 0"
  have qf: "\<forall>f\<in>set ?q. length f = 8" using rd_queue_frames [OF inv, of 0] by auto
  have "unat (ucast frames * 2 :: u64) = unat frames * 2" using n by (subst unat_mult_lt) simp_all
  then have nbytes: "unat (ucast frames * 2 * 4 :: u64) = unat frames * 8" using n by (subst unat_mult_lt) simp_all
  obtain rb c where o: "output_read d 0 (replicate (unat frames * 8) 0) frames = (of_nat (min (unat frames) (length ?q)),
      concat play, (rd_set_ring d 0 rb)\<lparr>rd_consumed := (rd_consumed d)[0 := c]\<rparr>)"
    "ra_inv ((rd_set_ring d 0 rb)\<lparr>rd_consumed := (rd_consumed d)[0 := c]\<rparr>)"
    "rd_queue ((rd_set_ring d 0 rb)\<lparr>rd_consumed := (rd_consumed d)[0 := c]\<rparr>) 0 = drop (unat frames) ?q"
    using output_read_ok [OF inv, of 0 frames "replicate (unat frames * 8) 0"] n read_over_silence [OF qf, of "unat frames"]
    by (auto simp: play_def)
  obtain d1 where d1: "d1 = (rd_set_ring d 0 rb)\<lparr>rd_consumed := (rd_consumed d)[0 := c]\<rparr>" by blast
  have q1: "rd_queue d1 1 = rd_queue d 1" unfolding d1 by (rule rd_queue_other) simp_all
  have rd1: "rd_reference d1 = rd_reference d" by (simp add: d1)
  have st: "stereo_ring (rd_reference d1)" using inv by (simp add: rd1 ra_inv_def)
  obtain ref where ref: "rb_write (rd_reference d1) (concat play) frames 2
      = (of_nat (min (unat frames) (7680 - length (pcm_contents (rd_reference d)))), ref)" "stereo_ring ref"
    "pcm_contents ref = pcm_contents (rd_reference d) @ take (7680 - length (pcm_contents (rd_reference d))) play"
    using rb_write_stereo [OF st n, of play] padded_frames [OF qf] by (auto simp: play_def rd1)
  obtain d2 where d2: "d2 = d1\<lparr>rd_reference := ref\<rparr>" by blast
  have inv2: "ra_inv d2" using o(2) [folded d1] ref(2) by (auto simp: d2 ra_inv_def rd_ring_ok_def)
  have q2: "rd_queue d2 i = rd_queue d1 i" for i by (simp add: d2 rd_queue_def)
  have lp: "length (concat play) = unat frames * 8" unfolding play_def by (rule length_concat_padded [OF qf])
  obtain out d' where m: "monitor_loop d2 (concat play) frames 0 = (out, d')" "length out = unat frames * 8" "ra_inv d'"
    "rd_queue d' 0 = rd_queue d2 0" "rd_queue d' 1 = drop (unat frames) (rd_queue d2 1)" "same_but_output d2 d'"
    "rd_reference d' = rd_reference d2"
    "\<forall>x < 2 * unat frames. f32_at out x = mix_clamp (fadd binary32 (f32_at (concat play) x) (f32_at (concat mon) x))"
    using monitor_loop_ok [OF inv2 n lp, of 0] lp by (auto simp: q2 q1 mon_def simp del: One_nat_def)
  have "callback_output d frames = (out, d')"
    unfolding callback_output_def nbytes Let_def o(1) d1 [symmetric] using m(1) by (simp add: ref(1) d2)
  moreover have "rd_queue d' i = drop (unat frames) (rd_queue d i)" if "i < 2" for i
    using less_2_cases [OF that] m(4,5) o(3) [folded d1] q1 by (auto simp: q2)
  moreover have "same_but_output d d'"
    using same_but_output_trans [of d d1 d2] same_but_output_trans [OF _ m(6)] by (simp add: d1 d2)
  ultimately show ?thesis
    using m ref(3) by (intro exI [of _ out] exI [of _ d']) (simp add: d2)
qed

section \<open>The capture half of the callback\<close>

text \<open>The bytes of the frame being assembled: none when the epoch has changed since.\<close>

definition cap_prefix :: "ra_device \<Rightarrow> u8 list" where
  "cap_prefix d = (if fr_epoch (rd_pending d) = rd_epoch d
     then take (4 * unat (rd_captured d)) (fr_samples (rd_pending d)) else [])"

definition full_blocks :: "u8 list \<Rightarrow> u8 list list" where
  "full_blocks xs = chunks 3840 (take (length xs div 3840 * 3840) xs)"

definition leftover :: "u8 list \<Rightarrow> u8 list" where
  "leftover xs = drop (length xs div 3840 * 3840) xs"

text \<open>The frames made of the blocks of one call: all of its epoch, stamped in order.\<close>

definition stamped :: "(nat \<Rightarrow> fval) \<Rightarrow> u32 \<Rightarrow> nat \<Rightarrow> u8 list list \<Rightarrow> ra_frame list" where
  "stamped now e t blocks = map (\<lambda>(k, bs). \<lparr>fr_epoch = e, fr_time = now k, fr_samples = bs\<rparr>) (enumerate t blocks)"

lemma stamped_Cons: "stamped now e t (b # bs) = \<lparr>fr_epoch = e, fr_time = now t, fr_samples = b\<rparr> # stamped now e (Suc t) bs"
  by (simp add: stamped_def)

lemma stamped_Nil [simp]: "stamped now e t [] = []"
  by (simp add: stamped_def)

lemma block_split:
  assumes "length a = 3840"
  shows "full_blocks (a @ b) = a # full_blocks b" "leftover (a @ b) = leftover b"
proof -
  have "(3840 + length b) div 3840 * 3840 = 3840 + length b div 3840 * 3840" by simp
  then show "full_blocks (a @ b) = a # full_blocks b" "leftover (a @ b) = leftover b"
    using assms chunks_append [of 3840 a] chunks_concat [of 3840 "[a]"]
    by (simp_all add: full_blocks_def leftover_def)
qed

lemma block_short: "length xs < 3840 \<Longrightarrow> full_blocks xs = []" "length xs < 3840 \<Longrightarrow> leftover xs = xs"
  by (simp_all add: full_blocks_def leftover_def)

text \<open>The timer returns doubles.\<close>

definition clock_ok :: "(nat \<Rightarrow> fval) \<Rightarrow> bool" where
  "clock_ok now \<longleftrightarrow> (\<forall>t. fval_ok binary64 (now t))"

definition same_but_capture :: "ra_device \<Rightarrow> ra_device \<Rightarrow> bool" where
  "same_but_capture d d' \<longleftrightarrow> d' = d\<lparr>rd_capture := rd_capture d', rd_pending := rd_pending d',
     rd_captured := rd_captured d', rd_clock := rd_clock d'\<rparr>"

lemma same_but_capture_refl [simp]: "same_but_capture d d"
  by (simp add: same_but_capture_def)

lemma same_but_capture_trans: "same_but_capture d e \<Longrightarrow> same_but_capture e f \<Longrightarrow> same_but_capture d f"
  unfolding same_but_capture_def by (cases d, cases e, cases f) simp

lemma same_but_capture_inv:
  assumes "ra_inv d" "same_but_capture d d'" "capture_ring (rd_capture d')" "unat (rd_captured d') < 960"
    "length (fr_samples (rd_pending d')) = 3840"
  shows "ra_inv d'"
proof -
  have r: "rd_ring d' i = rd_ring d i" for i using assms(2) by (cases d') (simp add: same_but_capture_def)
  have e: "rd_written d' = rd_written d" "rd_consumed d' = rd_consumed d" "rd_discard d' = rd_discard d"
    "rd_reference d' = rd_reference d"
    using assms(2) by (cases d', simp add: same_but_capture_def)+
  show ?thesis using assms(1,3,4,5) by (simp add: ra_inv_def rd_ring_ok_def r e)
qed

text \<open>The parts of a round in terms of the prefix.\<close>

definition assembling :: "ra_device \<Rightarrow> bool" where
  "assembling d \<longleftrightarrow> length (fr_samples (rd_pending d)) = 3840 \<and> fr_epoch (rd_pending d) = rd_epoch d"

lemma capture_sync_ok:
  assumes "ra_inv d"
  shows "assembling (capture_sync d)" "unat (rd_captured (capture_sync d)) < 960" "rd_epoch (capture_sync d) = rd_epoch d"
    "rd_capture (capture_sync d) = rd_capture d" "rd_clock (capture_sync d) = rd_clock d"
    "same_but_capture d (capture_sync d)" "cap_prefix (capture_sync d) = cap_prefix d"
  using assms by (auto simp: capture_sync_def Let_def assembling_def ra_inv_def cap_prefix_def same_but_capture_def)

lemma capture_take_ok:
  assumes "unat (rd_captured d) < 960" "i < frames"
  shows "unat (capture_take d frames i) = min (960 - unat (rd_captured d)) (unat frames - unat i)"
proof -
  have "unat (frames - i) = unat frames - unat i" by (rule unat_diff_le [OF less_imp_le [OF assms(2)]])
  moreover have "unat (960 - rd_captured d) = 960 - unat (rd_captured d)"
    using assms(1) by (subst unat_diff_le) (simp_all add: word_le_nat_alt)
  ultimately show ?thesis by (auto simp: capture_take_def Let_def word_less_nat_alt min_def)
qed

lemma capture_copy_ok:
  assumes as: "assembling d" and n: "unat (rd_captured d) + unat n \<le> 960" "(unat i + unat n) * 4 \<le> length samples"
  defines "d' \<equiv> capture_copy d samples i n"
  shows "assembling d'" "unat (rd_captured d') = unat (rd_captured d) + unat n" "rd_epoch d' = rd_epoch d"
    "rd_capture d' = rd_capture d" "rd_clock d' = rd_clock d" "same_but_capture d d'"
    "cap_prefix d' = cap_prefix d @ mem_read samples (unat i * 4) (unat n * 4)"
proof -
  let ?c = "rd_captured d" and ?m = "fr_samples (rd_pending d)" and ?seg = "mem_read samples (unat i * 4) (unat n * 4)"
  have n4: "unat (ucast n * 4 :: u64) = unat n * 4" using n(1) by (subst unat_mult_lt) simp_all
  have ls: "length ?seg = unat n * 4" using n(2) by (simp add: length_mem_read)
  have fit: "unat ?c * 4 + length ?seg \<le> length ?m" using n(1) as ls by (simp add: assembling_def)
  show cn: "unat (rd_captured d') = unat ?c + unat n"
    using n(1) by (simp add: d'_def capture_copy_def unat_add_lt)
  show "assembling d'" "rd_epoch d' = rd_epoch d" "rd_capture d' = rd_capture d" "rd_clock d' = rd_clock d"
    "same_but_capture d d'"
    using as length_mem_write [OF fit] n4
    by (simp_all add: d'_def capture_copy_def assembling_def same_but_capture_def)
  have "take (4 * (unat ?c + unat n)) (mem_write ?m (unat ?c * 4) ?seg) = take (4 * unat ?c) ?m @ ?seg"
    using mem_write_split(1) [OF fit] ls by (simp add: algebra_simps)
  then show "cap_prefix d' = cap_prefix d @ ?seg"
    using as cn n4 unfolding d'_def by (simp add: cap_prefix_def assembling_def) (simp add: capture_copy_def)
qed

lemma length_cap_prefix:
  "assembling d \<Longrightarrow> unat (rd_captured d) \<le> 960 \<Longrightarrow> length (cap_prefix d) = 4 * unat (rd_captured d)"
  by (simp add: cap_prefix_def assembling_def)

lemma capture_finish_ok:
  assumes as: "assembling d" "unat (rd_captured d) \<le> 960" "capture_ring (rd_capture d)"
    and now: "clock_ok now"
  defines "d' \<equiv> capture_finish now d"
  shows "assembling d'" "unat (rd_captured d') < 960" "rd_epoch d' = rd_epoch d" "same_but_capture d d'"
    "capture_ring (rd_capture d')" "cap_prefix d' = leftover (cap_prefix d)"
    "rd_clock d' = rd_clock d + length (full_blocks (cap_prefix d))"
    "capture_frames (rd_capture d') = capture_frames (rd_capture d)
      @ take (8 - length (capture_frames (rd_capture d))) (stamped now (rd_epoch d) (rd_clock d) (full_blocks (cap_prefix d)))"
proof -
  let ?t = "(rd_pending d)\<lparr>fr_time := now (rd_clock d)\<rparr>" and ?q = "capture_frames (rd_capture d)"
  note len = length_cap_prefix [OF as(1,2)]
  have eq: "rd_captured d = 960 \<longleftrightarrow> length (cap_prefix d) = 3840" using len by (auto simp: word_unat_eq_iff)
  have "assembling d' \<and> unat (rd_captured d') < 960 \<and> rd_epoch d' = rd_epoch d \<and> same_but_capture d d'
    \<and> capture_ring (rd_capture d') \<and> cap_prefix d' = leftover (cap_prefix d)
    \<and> rd_clock d' = rd_clock d + length (full_blocks (cap_prefix d))
    \<and> capture_frames (rd_capture d') = ?q
      @ take (8 - length ?q) (stamped now (rd_epoch d) (rd_clock d) (full_blocks (cap_prefix d)))"
  proof (cases "rd_captured d = 960")
    case False
    then have "length (cap_prefix d) < 3840" using eq len as(2) by simp
    then show ?thesis using False as len by (simp add: d'_def capture_finish_def block_short)
  next
    case True
    let ?d = "d\<lparr>rd_pending := ?t, rd_clock := rd_clock d + 1\<rparr>"
    have fr: "frame_ok (rd_pending ?d)" using as(1) now by (simp add: frame_ok_def assembling_def clock_ok_def)
    obtain rb where rb: "capture_store ?d = ?d\<lparr>rd_capture := rb\<rparr>" "capture_ring rb"
      "capture_frames rb = (if length ?q < 8 then ?q @ [?t] else ?q)"
      using capture_store_ok [OF _ fr] as(3) by auto
    have cp: "cap_prefix d = fr_samples (rd_pending d)" using True as(1) by (simp add: cap_prefix_def assembling_def)
    have bl: "full_blocks (cap_prefix d) = [cap_prefix d]" "leftover (cap_prefix d) = []"
      using block_split [of "cap_prefix d" "[]"] eq True by (simp_all add: block_short)
    have t: "?t = \<lparr>fr_epoch = rd_epoch d, fr_time = now (rd_clock d), fr_samples = cap_prefix d\<rparr>"
      using as(1) cp by (cases "rd_pending d") (simp add: assembling_def)
    have d': "d' = ?d\<lparr>rd_capture := rb, rd_captured := 0\<rparr>"
      using True rb(1) by (simp add: d'_def capture_finish_def)
    show ?thesis
      using as(1) rb(2,3) bl t True unfolding d'
      by (auto simp: assembling_def same_but_capture_def cap_prefix_def stamped_Cons)
  qed
  then show "assembling d'" "unat (rd_captured d') < 960" "rd_epoch d' = rd_epoch d" "same_but_capture d d'"
    "capture_ring (rd_capture d')" "cap_prefix d' = leftover (cap_prefix d)"
    "rd_clock d' = rd_clock d + length (full_blocks (cap_prefix d))"
    "capture_frames (rd_capture d') = ?q
      @ take (8 - length ?q) (stamped now (rd_epoch d) (rd_clock d) (full_blocks (cap_prefix d)))"
    by blast+
qed


lemma capture_round_ok:
  assumes inv: "ra_inv d" and i: "i < frames" and s: "unat frames * 4 \<le> length samples"
    and now: "clock_ok now"
  shows "\<exists>n d'. capture_round now d samples frames i = (d', i + n) \<and> unat (i + n) = unat i + unat n
    \<and> 0 < unat n \<and> unat i + unat n \<le> unat frames \<and> ra_inv d' \<and> same_but_capture d d'
    \<and> (let bs = cap_prefix d @ mem_read samples (unat i * 4) (unat n * 4)
       in (length bs < 3840 \<and> unat i + unat n = unat frames \<or> length bs = 3840)
         \<and> cap_prefix d' = leftover bs \<and> rd_clock d' = rd_clock d + length (full_blocks bs)
         \<and> capture_frames (rd_capture d') = capture_frames (rd_capture d)
            @ take (8 - length (capture_frames (rd_capture d))) (stamped now (rd_epoch d) (rd_clock d) (full_blocks bs)))"
proof -
  obtain d1 where d1: "d1 = capture_sync d" by blast
  note s1 = capture_sync_ok [OF inv, folded d1]
  obtain n where n: "n = capture_take d1 frames i" by blast
  have lt: "unat i < unat frames" using i by (simp add: word_less_nat_alt)
  have un: "unat n = min (960 - unat (rd_captured d1)) (unat frames - unat i)"
    unfolding n by (rule capture_take_ok [OF s1(2) i])
  then have nb: "0 < unat n" "unat i + unat n \<le> unat frames" "unat (rd_captured d1) + unat n \<le> 960"
    using lt s1(2) by auto
  have "unat frames < 2 ^ 32" by simp
  with nb(2) have "unat i + unat n < 2 ^ 32" by (rule le_less_trans)
  then have uin: "unat (i + n) = unat i + unat n" by (simp add: unat_add_lt)
  have sb: "(unat i + unat n) * 4 \<le> length samples" using mult_le_mono1 [OF nb(2), of 4] s by simp
  obtain d2 where d2: "d2 = capture_copy d1 samples i n" by blast
  note s2 = capture_copy_ok [OF s1(1) nb(3) sb, folded d2]
  let ?bs = "cap_prefix d @ mem_read samples (unat i * 4) (unat n * 4)"
  have c2: "unat (rd_captured d2) \<le> 960" "capture_ring (rd_capture d2)" "cap_prefix d2 = ?bs"
    using s2 s1 nb(3) inv by (simp_all add: ra_inv_def)
  obtain d3 where d3: "d3 = capture_finish now d2" by blast
  note s3 = capture_finish_ok [OF s2(1) c2(1,2) now, folded d3]
  have eq: "capture_round now d samples frames i = (d3, i + n)"
    by (simp add: capture_round_def Let_def d1 d2 d3 n)
  have same: "same_but_capture d d3" using same_but_capture_trans s1(6) s2(6) s3(4) by blast
  have inv3: "ra_inv d3"
    by (rule same_but_capture_inv [OF inv same s3(5,2)]) (use s3(1) in \<open>simp add: assembling_def\<close>)
  have "length ?bs = 4 * (unat (rd_captured d1) + unat n)"
    using length_cap_prefix [OF s2(1) c2(1)] c2(3) s2(2) by simp
  then have "length ?bs < 3840 \<and> unat i + unat n = unat frames \<or> length ?bs = 3840"
    using un lt nb(3) by (auto simp: min_def split: if_splits)
  then show ?thesis
    using eq uin nb inv3 same s3(6,7,8) c2(3) s2(3,4,5) s1(3,4,5)
    by (intro exI [of _ n] exI [of _ d3]) (simp add: Let_def)
qed

lemma length_stamped [simp]: "length (stamped now e t bs) = length bs"
  by (simp add: stamped_def)

text \<open>The loop ends within its fuel, and cuts the prefix and the samples of the call into
  frames; the capture ring keeps as many of them as it has room for.\<close>

lemma capture_loop_ends:
  assumes "ra_inv d" "unat frames * 4 = length samples" "unat i \<le> unat frames" "unat frames - unat i \<le> fuel"
    and now: "clock_ok now"
  shows "\<exists>d'. capture_loop fuel now d samples frames i = Some d' \<and> ra_inv d' \<and> same_but_capture d d'
    \<and> cap_prefix d' = leftover (cap_prefix d @ drop (unat i * 4) samples)
    \<and> rd_clock d' = rd_clock d + length (full_blocks (cap_prefix d @ drop (unat i * 4) samples))
    \<and> capture_frames (rd_capture d') = capture_frames (rd_capture d) @ take (8 - length (capture_frames (rd_capture d)))
        (stamped now (rd_epoch d) (rd_clock d) (full_blocks (cap_prefix d @ drop (unat i * 4) samples)))"
  using assms(1-4)
proof (induction fuel arbitrary: d i)
  case 0
  then have "unat i = unat frames" by simp
  moreover from this have "\<not> i < frames" by (simp add: word_less_nat_alt)
  moreover have "length (cap_prefix d) < 3840" using "0.prems"(1) by (simp add: cap_prefix_def ra_inv_def)
  ultimately show ?case using 0 by (subst capture_loop.simps) (auto simp: block_short)
next
  case (Suc fuel)
  have pre: "length (cap_prefix d) < 3840" using Suc.prems(1) by (simp add: cap_prefix_def ra_inv_def)
  show ?case
  proof (cases "i < frames")
    case False
    then have "unat i = unat frames" using Suc.prems(3) by (simp add: word_less_nat_alt)
    with False Suc.prems pre show ?thesis by (subst capture_loop.simps) (auto simp: block_short)
  next
    case True
    obtain n d1 where r: "capture_round now d samples frames i = (d1, i + n)" "unat (i + n) = unat i + unat n"
      "0 < unat n" "unat i + unat n \<le> unat frames" "ra_inv d1" "same_but_capture d d1"
      and bs: "let bs = cap_prefix d @ mem_read samples (unat i * 4) (unat n * 4)
       in (length bs < 3840 \<and> unat i + unat n = unat frames \<or> length bs = 3840)
         \<and> cap_prefix d1 = leftover bs \<and> rd_clock d1 = rd_clock d + length (full_blocks bs)
         \<and> capture_frames (rd_capture d1) = capture_frames (rd_capture d)
            @ take (8 - length (capture_frames (rd_capture d))) (stamped now (rd_epoch d) (rd_clock d) (full_blocks bs))"
      using capture_round_ok [OF Suc.prems(1) True eq_refl [OF Suc.prems(2)] now] by blast
    obtain bs where b: "bs = cap_prefix d @ mem_read samples (unat i * 4) (unat n * 4)" by blast
    note bs = bs [unfolded Let_def, folded b]
    let ?rest = "drop (unat (i + n) * 4) samples"
    have all: "cap_prefix d @ drop (unat i * 4) samples = bs @ ?rest"
      using append_take_drop_id [of "unat n * 4" "drop (unat i * 4) samples"]
      by (simp add: b r(2) mem_read_def algebra_simps)
    have ep: "rd_epoch d1 = rd_epoch d" using r(6) by (cases d1) (simp add: same_but_capture_def)
    have step: "capture_loop (Suc fuel) now d samples frames i = capture_loop fuel now d1 samples frames (i + n)"
      using True r(1) by (subst capture_loop.simps) simp
    have "unat (i + n) \<le> unat frames" "unat frames - unat (i + n) \<le> fuel" using r(2,3,4) Suc.prems(4) by simp_all
    from Suc.IH [OF r(5) Suc.prems(2) this] obtain d' where ih: "capture_loop fuel now d1 samples frames (i + n) = Some d'"
      "ra_inv d'" "same_but_capture d1 d'" "cap_prefix d' = leftover (cap_prefix d1 @ ?rest)"
      "rd_clock d' = rd_clock d1 + length (full_blocks (cap_prefix d1 @ ?rest))"
      "capture_frames (rd_capture d') = capture_frames (rd_capture d1) @ take (8 - length (capture_frames (rd_capture d1)))
        (stamped now (rd_epoch d1) (rd_clock d1) (full_blocks (cap_prefix d1 @ ?rest)))"
      by blast
    have same: "same_but_capture d d'" by (rule same_but_capture_trans [OF r(6) ih(3)])
    show ?thesis
    proof (cases "length bs = 3840")
      case full: True
      have sp: "full_blocks (bs @ ?rest) = bs # full_blocks ?rest" "leftover (bs @ ?rest) = leftover ?rest"
        "full_blocks bs = [bs]" "cap_prefix d1 = []"
        using block_split [OF full] block_split [OF full, of "[]"] bs by (simp_all add: block_short)
      show ?thesis
        unfolding step all ih(1) sp using ih bs same sp(3,4) ep
        by (auto simp: stamped_Cons take_Cons' min_def)
    next
      case False
      then have sh: "length bs < 3840" and "?rest = []" using bs r(2) Suc.prems(2) by auto
      then show ?thesis unfolding step all ih(1) using ih bs same by (simp add: block_short)
    qed
  qed
qed

section \<open>The whole callback\<close>

lemma same_but_capture_queue:
  assumes "same_but_capture d d'"
  shows "rd_queue d' i = rd_queue d i" "rd_reference d' = rd_reference d" "rd_wake d' = rd_wake d"
proof -
  have r: "rd_ring d' i = rd_ring d i" using assms by (cases d') (simp add: same_but_capture_def)
  have e: "rd_consumed d' = rd_consumed d" "rd_discard d' = rd_discard d"
    using assms by (cases d', simp add: same_but_capture_def)+
  show "rd_queue d' i = rd_queue d i" by (simp add: rd_queue_def r e)
  show "rd_reference d' = rd_reference d" "rd_wake d' = rd_wake d"
    using assms by (cases d', simp add: same_but_capture_def)+
qed

lemma same_but_output_capture:
  assumes "same_but_output d d'"
  shows "rd_capture d' = rd_capture d" "cap_prefix d' = cap_prefix d" "rd_clock d' = rd_clock d" "rd_wake d' = rd_wake d"
  using assms by (cases d', simp add: same_but_output_def cap_prefix_def)+

lemma rd_call_wake_simps [simp]:
  "rd_queue (rd_call_wake d) i = rd_queue d i" "ra_inv (rd_call_wake d) = ra_inv d"
  "rd_reference (rd_call_wake d) = rd_reference d" "rd_capture (rd_call_wake d) = rd_capture d"
  "cap_prefix (rd_call_wake d) = cap_prefix d" "rd_clock (rd_call_wake d) = rd_clock d"
  by (auto simp: rd_call_wake_def rd_queue_def ra_inv_def rd_ring_ok_def cap_prefix_def)

lemma callback_input_ok:
  assumes inv: "ra_inv d" and len: "length samples = unat frames * 4" and now: "clock_ok now"
  shows "\<exists>d'. callback_input now d samples frames = Some d' \<and> ra_inv d' \<and> same_but_capture d d'
    \<and> cap_prefix d' = leftover (cap_prefix d @ samples)
    \<and> capture_frames (rd_capture d') = capture_frames (rd_capture d) @ take (8 - length (capture_frames (rd_capture d)))
        (stamped now (rd_epoch d) (rd_clock d) (full_blocks (cap_prefix d @ samples)))"
proof -
  have "unat (0 :: u32) \<le> unat frames" "unat frames - unat (0 :: u32) \<le> unat frames" by simp_all
  from capture_loop_ends [OF inv len [symmetric] this now] show ?thesis by (auto simp: callback_input_def)
qed

text \<open>A callback of a capture device, of a playback device and of a duplex one.\<close>

lemma data_callback_ok:
  assumes inv: "ra_inv d" and n: "unat frames * 8 < 2 ^ 32" and now: "clock_ok now"
    and inp: "\<And>s. input = Some s \<Longrightarrow> length s = unat frames * 4"
    and ob: "\<And>out. outp = Some out \<Longrightarrow> length out = unat frames * 8"
  shows "\<exists>out' d'. data_callback now d outp input frames = Some (out', d') \<and> ra_inv d'
    \<and> (\<forall>i < 2. rd_queue d' i = (if outp = None then rd_queue d i else drop (unat frames) (rd_queue d i)))
    \<and> (outp = None \<longrightarrow> rd_reference d' = rd_reference d)
    \<and> (input = None \<longrightarrow> rd_capture d' = rd_capture d \<and> cap_prefix d' = cap_prefix d)"
proof -
  obtain d1 where d1: "(case input of None \<Rightarrow> Some d | Some s \<Rightarrow> callback_input now d s frames) = Some d1"
    "ra_inv d1" "same_but_capture d d1" "input = None \<longrightarrow> d1 = d"
    using inv callback_input_ok [OF inv inp now] by (cases input) auto
  show ?thesis
  proof (cases outp)
    case None
    then show ?thesis using d1 same_but_capture_queue [OF d1(3)] by (auto simp: data_callback_def)
  next
    case (Some out)
    obtain bytes d2 where d2: "callback_output d1 frames = (bytes, d2)" "ra_inv d2"
      "\<forall>i < 2. rd_queue d2 i = drop (unat frames) (rd_queue d1 i)" "same_but_output d1 d2"
      using callback_output_ok [OF d1(2) n] by auto
    show ?thesis
      using Some d1 d2 same_but_capture_queue [OF d1(3)] same_but_output_capture [OF d2(4)]
      by (auto simp: data_callback_def)
  qed
qed

section \<open>Runs of the device\<close>

text \<open>The operations the client thread and the audio thread may interleave. An output callback
  plays at least one frame.\<close>

datatype ra_event =
    EvWrite nat "u8 list list"
  | EvDiscard
  | EvEpoch u32
  | EvCapture
  | EvReference
  | EvCallback "u8 list ptr" "u8 list ptr" u32
  | EvNotify ma_device_notification_type

fun ra_exec :: "(nat \<Rightarrow> fval) \<Rightarrow> ra_event \<Rightarrow> ra_device \<Rightarrow> ra_device option" where
  "ra_exec now (EvWrite i fs) d = Some (snd (ra_device_write d (concat fs) i))"
| "ra_exec now EvDiscard d = Some (ra_device_discard d)"
| "ra_exec now (EvEpoch e) d = Some (ra_device_epoch d e)"
| "ra_exec now EvCapture d = Some (snd (ra_device_capture now d))"
| "ra_exec now EvReference d = Some (snd (snd (ra_device_reference d (replicate 7680 0))))"
| "ra_exec now (EvCallback outp inp frames) d = map_option snd (data_callback now d outp inp frames)"
| "ra_exec now (EvNotify ty) d = Some (notification_callback d ty)"

text \<open>What the callers guarantee: buffers of the right size, and no position overflow (2 to
  the 64 frames take twelve million years).\<close>

fun ev_ok :: "ra_event \<Rightarrow> ra_device \<Rightarrow> bool" where
  "ev_ok (EvWrite i fs) d \<longleftrightarrow> i < 2 \<and> length fs = RA_FRAME \<and> (\<forall>f\<in>set fs. length f = 8)
     \<and> unat (rd_written d ! i) + RA_FRAME < 2 ^ 64"
| "ev_ok (EvCallback outp inp frames) d \<longleftrightarrow> unat frames * 8 < 2 ^ 32
     \<and> (\<forall>s. inp = Some s \<longrightarrow> length s = unat frames * 4) \<and> (\<forall>s. outp = Some s \<longrightarrow> length s = unat frames * 8)"
| "ev_ok _ d \<longleftrightarrow> True"

inductive ra_reach :: "(nat \<Rightarrow> fval) \<Rightarrow> ra_device \<Rightarrow> ra_event list \<Rightarrow> ra_device \<Rightarrow> bool" for now d0 where
  start: "ra_reach now d0 [] d0"
| step: "ra_reach now d0 evs d \<Longrightarrow> ev_ok ev d \<Longrightarrow> ra_exec now ev d = Some d' \<Longrightarrow> ra_reach now d0 (evs @ [ev]) d'"

text \<open>The abstract queue of frames a route has to play.\<close>

fun queue_spec :: "nat \<Rightarrow> ra_event \<Rightarrow> u8 list list \<Rightarrow> u8 list list \<Rightarrow> bool" where
  "queue_spec i (EvWrite j fs) q q' \<longleftrightarrow> (if j = i then (\<exists>k \<le> length fs. q' = q @ take k fs) else q' = q)"
| "queue_spec i EvDiscard q q' \<longleftrightarrow> q' = []"
| "queue_spec i (EvCallback (Some out) inp frames) q q' \<longleftrightarrow> q' = drop (unat frames) q"
| "queue_spec i _ q q' \<longleftrightarrow> q' = q"

lemma ra_inv_upd [simp]:
  "ra_inv (d\<lparr>rd_epoch := e\<rparr>) = ra_inv d" "ra_inv (d\<lparr>rd_failed := e\<rparr>) = ra_inv d"
  "rd_queue (d\<lparr>rd_epoch := e\<rparr>) i = rd_queue d i" "rd_queue (d\<lparr>rd_failed := e\<rparr>) i = rd_queue d i"
  "rd_queue (d\<lparr>rd_reference := rb\<rparr>) i = rd_queue d i"
  "rd_queue (d\<lparr>rd_capture := q, rd_clock := n\<rparr>) i = rd_queue d i"
  by (simp_all add: ra_inv_def rd_ring_ok_def rd_queue_def)

lemma ra_inv_capture: "ra_inv d \<Longrightarrow> capture_ring rb \<Longrightarrow> ra_inv (d\<lparr>rd_capture := rb, rd_clock := n\<rparr>)"
  by (simp add: ra_inv_def rd_ring_ok_def)

lemma exec_capture:
  assumes "ra_inv d"
  shows "ra_inv (snd (ra_device_capture now d)) \<and> rd_queue (snd (ra_device_capture now d)) i = rd_queue d i"
proof -
  have c: "capture_ring (rd_capture d)" using assms by (simp add: ra_inv_def)
  show ?thesis
  proof (cases "capture_frames (rd_capture d)")
    case Nil
    then show ?thesis using ra_device_capture_ok(1) [OF c, of now] assms by simp
  next
    case (Cons f fs)
    then obtain rb where "snd (ra_device_capture now d) = d\<lparr>rd_capture := rb, rd_clock := rd_clock d + 1\<rparr>" "capture_ring rb"
      using ra_device_capture_ok(2) [OF c, of f fs now] by auto
    then show ?thesis using ra_inv_capture [OF assms] by simp
  qed
qed

lemma rd_queue_written_other:
  assumes "i < 2" "j < 2" "i \<noteq> j"
  shows "rd_queue ((rd_set_ring d i rb)\<lparr>rd_written := w\<rparr>) j = rd_queue d j"
  using assms by (simp add: rd_queue_def)

theorem ra_exec_refines:
  assumes inv: "ra_inv d" and ok: "ev_ok ev d" and now: "clock_ok now"
  shows "\<exists>d'. ra_exec now ev d = Some d' \<and> ra_inv d' \<and> (\<forall>i < 2. queue_spec i ev (rd_queue d i) (rd_queue d' i))"
proof (cases ev)
  case (EvWrite j fs)
  then have w: "j < 2" "length fs = 960" "\<forall>f\<in>set fs. length f = 8" "unat (rd_written d ! j) + 960 < 2 ^ 64"
    using ok by simp_all
  obtain rb w k where r: "ra_device_write d (concat fs) j = (of_nat k, (rd_set_ring d j rb)\<lparr>rd_written := (rd_written d)[j := w]\<rparr>)"
    "k = min 960 (7680 - length (pcm_contents (rd_ring d j)))"
    "ra_inv ((rd_set_ring d j rb)\<lparr>rd_written := (rd_written d)[j := w]\<rparr>)"
    "rd_queue ((rd_set_ring d j rb)\<lparr>rd_written := (rd_written d)[j := w]\<rparr>) j = rd_queue d j @ take k fs"
    using ra_device_write_ok [OF inv w] by blast
  have "k \<le> length fs" using r(2) w(2) by simp
  then show ?thesis
    using EvWrite r(1,3,4) w(1) rd_queue_written_other [OF w(1)] by auto
next
  case EvReference
  then show ?thesis using ra_device_reference_ok [OF inv, of "replicate 7680 0"] by auto
next
  case (EvCallback outp inp frames)
  with data_callback_ok [OF inv _ now, of frames inp outp] ok
  obtain out' d' where "data_callback now d outp inp frames = Some (out', d')" "ra_inv d'"
    "\<forall>i < 2. rd_queue d' i = (if outp = None then rd_queue d i else drop (unat frames) (rd_queue d i))"
    by auto
  then show ?thesis using EvCallback by (cases outp) auto
next
  case EvCapture
  then show ?thesis using exec_capture [OF inv] by simp
qed (use inv ra_device_discard_ok [OF inv] in \<open>auto simp: ra_device_epoch_def notification_callback_def\<close>)

lemma ra_reach_inv: "ra_reach now d0 evs d \<Longrightarrow> ra_inv d0 \<Longrightarrow> clock_ok now \<Longrightarrow> ra_inv d"
proof (induction rule: ra_reach.induct)
  case (step evs d ev d')
  then show ?case using ra_exec_refines [of d ev now] by auto
qed

text \<open>The frames offered to a route, and those it played, along a run.\<close>

fun offered :: "nat \<Rightarrow> ra_event \<Rightarrow> u8 list list" where
  "offered i (EvWrite j fs) = (if j = i then fs else [])"
| "offered i _ = []"

fun played :: "nat \<Rightarrow> ra_device \<Rightarrow> ra_event \<Rightarrow> u8 list list" where
  "played i d (EvCallback (Some out) inp frames) = take (unat frames) (rd_queue d i)"
| "played i d _ = []"

inductive route_run :: "(nat \<Rightarrow> fval) \<Rightarrow> nat \<Rightarrow> ra_device \<Rightarrow> u8 list list \<Rightarrow> u8 list list \<Rightarrow> ra_device \<Rightarrow> bool" for now i d0 where
  "route_run now i d0 [] [] d0"
| "route_run now i d0 ws ps d \<Longrightarrow> ev_ok ev d \<Longrightarrow> ra_exec now ev d = Some d'
     \<Longrightarrow> route_run now i d0 (ws @ offered i ev) (ps @ played i d ev) d'"

lemma queue_step_subseq:
  assumes "queue_spec i ev (rd_queue d i) q'" "subseq (ps @ rd_queue d i) ws"
  shows "subseq ((ps @ played i d ev) @ q') (ws @ offered i ev)"
proof -
  have "subseq ((ps @ played i d ev) @ q') (ps @ rd_queue d i)" if "offered i ev = []"
    using assms(1) that
    by (cases "(i, ev, rd_queue d i, q')" rule: queue_spec.cases) (auto split: if_splits)
  moreover have "subseq ((ps @ played i d ev) @ q') (ws @ offered i ev)" if ne: "offered i ev \<noteq> []"
  proof -
    obtain fs where ev: "ev = EvWrite i fs" using ne by (cases ev) (auto split: if_splits)
    with assms(1) obtain k where "q' = rd_queue d i @ take k fs" by auto
    moreover have "subseq (take k fs) fs" by (simp add: prefix_imp_subseq take_is_prefix)
    ultimately show ?thesis using list_emb_append_mono [OF assms(2), of "take k fs" fs] ev by simp
  qed
  ultimately show ?thesis using assms(2) subseq_order.order_trans by (metis append_Nil2)
qed

theorem route_run_subseq:
  assumes "route_run now i d0 ws ps d" "ra_inv d0" "clock_ok now" "i < 2" "rd_queue d0 i = []"
  shows "ra_inv d \<and> subseq (ps @ rd_queue d i) ws"
  using assms
proof (induction rule: route_run.induct)
  case (2 ws ps d ev d')
  then have "ra_inv d" "subseq (ps @ rd_queue d i) ws" by simp_all
  with ra_exec_refines [of d ev now] 2 show ?case using queue_step_subseq by fastforce
qed simp

end
