(* ===== verification/MaDeviceLife.thy ===== *)
theory MaDeviceLife
  imports MaDevice
begin

text \<open>
  Opening and closing a device: \<open>ma_device_init\<close>, \<open>ma_device_post_init\<close> and \<open>ma_device_uninit\<close>, with
  the resources they acquire and release in order. The backend, the data converter, the
  allocator and the system's threads and events answer through an environment. Channel maps
  are only checked: nothing but the converter and the backend reads them. They, the mixing and
  resampling options, which are passed on to the converter, the names and identifiers of the
  device, the share mode and the log are left out of the records.
\<close>

section \<open>Environment\<close>

datatype dev_resource = StartStopLock | WakeupEvent | StartEvent | StopEvent | BackendDevice | CaptureConverter | PlaybackConverter
  | InputCache | CaptureBuffer | PlaybackBuffer | WorkerThread | DuplexRing

datatype res_event = Acquired dev_resource | Released dev_resource

record ma_device_descriptor =
  ds_format :: ma_format
  ds_channels :: u32
  ds_sampleRate :: u32
  ds_periodSizeInFrames :: u32
  ds_periodSizeInMilliseconds :: u32
  ds_periodCount :: u32

record ma_data_converter_config =
  cc_formatIn :: ma_format
  cc_formatOut :: ma_format
  cc_channelsIn :: u32
  cc_channelsOut :: u32
  cc_sampleRateIn :: u32
  cc_sampleRateOut :: u32

record ma_device_side_config =
  sc_format :: ma_format
  sc_channels :: u32
  sc_pChannelMap :: "u8 list ptr"

record 'c ma_device_init_config =
  ic_deviceType :: ma_device_type
  ic_sampleRate :: u32
  ic_periodSizeInFrames :: u32
  ic_periodSizeInMilliseconds :: u32
  ic_periods :: u32
  ic_noPreSilencedOutputBuffer :: bool
  ic_noClip :: bool
  ic_noFixedSizedCallback :: bool
  ic_dataCallback :: "'c ma_device_data_proc option"
  ic_pUserData :: 'c
  ic_playback :: ma_device_side_config
  ic_capture :: ma_device_side_config

text \<open>A callback of the backend is absent (\<open>None\<close>) or a function. The device's own initialisation
  turns the requested descriptors into the actual ones.\<close>

record 'k dev_env =
  de_onDeviceInit :: "(ma_device_type \<Rightarrow> ma_device_descriptor \<Rightarrow> ma_device_descriptor \<Rightarrow> ma_result \<times> ma_device_descriptor \<times> ma_device_descriptor) option"
  de_onDeviceUninit :: bool
  de_onDeviceRead :: bool
  de_onDeviceWrite :: bool
  de_onDeviceDataLoop :: bool
  de_onDeviceStart :: "ma_result option"
  de_onDeviceStop :: "ma_result option"
  de_mutex_init :: ma_result
  de_event_init :: "dev_resource \<Rightarrow> ma_result"
  de_converter_init :: "ma_data_converter_config \<Rightarrow> ma_result \<times> 'k \<times> bool"
  de_converter_required :: "'k \<Rightarrow> ma_result"
  de_malloc :: "dev_resource \<Rightarrow> bool"
  de_thread_create :: ma_result
  de_libc :: libc
  de_zeroConverter :: 'k
  de_zeroRing :: ma_pcm_rb

definition ma_context_is_backend_asynchronous :: "'k dev_env \<Rightarrow> bool" where
  "ma_context_is_backend_asynchronous env \<longleftrightarrow> \<not> de_onDeviceRead env \<and> \<not> de_onDeviceWrite env \<and> \<not> de_onDeviceDataLoop env"

section \<open>Checks\<close>

abbreviation (input) MA_MAX_CHANNELS :: "'a::numeral" where "MA_MAX_CHANNELS \<equiv> 254"
abbreviation (input) MA_CHANNEL_NONE :: u8 where "MA_CHANNEL_NONE \<equiv> 0"
abbreviation (input) MA_DEFAULT_PERIODS :: u32 where "MA_DEFAULT_PERIODS \<equiv> 3"

definition ma__is_channel_map_valid :: "u8 list ptr \<Rightarrow> u32 \<Rightarrow> bool" where
  "ma__is_channel_map_valid pChannelMap channels =
     (case pChannelMap of
        None \<Rightarrow> True
      | Some m \<Rightarrow> if m ! 0 \<noteq> MA_CHANNEL_NONE
                  then if channels = 0 \<or> channels > MA_MAX_CHANNELS then False
                       else list_all (\<lambda>i. list_all (\<lambda>j. m ! i \<noteq> m ! j) [i + 1..<unat channels]) [0..<unat channels]
                  else True)"

definition ma_device_descriptor_is_valid :: "ma_device_descriptor ptr \<Rightarrow> bool" where
  "ma_device_descriptor_is_valid pDescriptor =
     (case pDescriptor of
        None \<Rightarrow> False
      | Some d \<Rightarrow> \<not> (ds_format d = ma_format_unknown) \<and> \<not> (ds_channels d = 0 \<or> ds_channels d > MA_MAX_CHANNELS) \<and> \<not> (ds_sampleRate d = 0))"

definition ma_calculate_buffer_size_in_frames_from_milliseconds :: "u32 \<Rightarrow> u32 \<Rightarrow> u32" where
  "ma_calculate_buffer_size_in_frames_from_milliseconds ms sampleRate = (if sampleRate = 0 then 0 else ms * sampleRate div 1000)"

definition captures :: "ma_device_type \<Rightarrow> bool" where
  "captures ty \<longleftrightarrow> ty = ma_device_type_capture \<or> ty = ma_device_type_duplex \<or> ty = ma_device_type_loopback"

definition plays :: "ma_device_type \<Rightarrow> bool" where
  "plays ty \<longleftrightarrow> ty = ma_device_type_playback \<or> ty = ma_device_type_duplex"

section \<open>After the backend has opened the device\<close>

definition side_defaults :: "'k ma_device_side \<Rightarrow> 'k ma_device_side" where
  "side_defaults sd = sd\<lparr>sd_format := (if sd_format sd = ma_format_unknown then sd_internalFormat sd else sd_format sd),
     sd_channels := (if sd_channels sd = 0 then sd_internalChannels sd else sd_channels sd)\<rparr>"

definition capture_converter_config :: "('c, 'k) ma_device \<Rightarrow> ma_data_converter_config" where
  "capture_converter_config dev = (let sd = dev_capture dev in
     \<lparr>cc_formatIn = sd_internalFormat sd, cc_formatOut = sd_format sd, cc_channelsIn = sd_internalChannels sd, cc_channelsOut = sd_channels sd,
      cc_sampleRateIn = sd_internalSampleRate sd, cc_sampleRateOut = dev_sampleRate dev\<rparr>)"

definition playback_converter_config :: "('c, 'k) ma_device \<Rightarrow> ma_data_converter_config" where
  "playback_converter_config dev = (let sd = dev_playback dev in
     \<lparr>cc_formatIn = sd_format sd, cc_formatOut = sd_internalFormat sd, cc_channelsIn = sd_channels sd, cc_channelsOut = sd_internalChannels sd,
      cc_sampleRateIn = dev_sampleRate dev, cc_sampleRateOut = sd_internalSampleRate sd\<rparr>)"

text \<open>The converter is initialised in place, also when that fails.\<close>

definition setup_capture_converter :: "'k dev_env \<Rightarrow> ('c, 'k) ma_device \<Rightarrow> ma_result \<times> ('c, 'k) ma_device \<times> res_event list" where
  "setup_capture_converter env dev =
     (let old = (if dev_state dev \<noteq> ma_device_state_uninitialized then [Released CaptureConverter] else [])
      in case de_converter_init env (capture_converter_config dev) of
           (result, k, pass) \<Rightarrow>
             (result, dev\<lparr>dev_capture := (dev_capture dev)\<lparr>sd_converter := k, sd_isPassthrough := pass\<rparr>\<rparr>,
              old @ (if result \<noteq> MA_SUCCESS then [] else [Acquired CaptureConverter])))"

definition setup_playback_converter :: "'k dev_env \<Rightarrow> ('c, 'k) ma_device \<Rightarrow> ma_result \<times> ('c, 'k) ma_device \<times> res_event list" where
  "setup_playback_converter env dev =
     (let old = (if dev_state dev \<noteq> ma_device_state_uninitialized then [Released PlaybackConverter] else [])
      in case de_converter_init env (playback_converter_config dev) of
           (result, k, pass) \<Rightarrow>
             (result, dev\<lparr>dev_playback := (dev_playback dev)\<lparr>sd_converter := k, sd_isPassthrough := pass\<rparr>\<rparr>,
              old @ (if result \<noteq> MA_SUCCESS then [] else [Acquired PlaybackConverter])))"

text \<open>The cache of the playback side. A reallocation that succeeds replaces what was there. The
  size never exceeds the largest 64-bit size.\<close>

definition setup_input_cache :: "'k dev_env \<Rightarrow> ('c, 'k) ma_device \<Rightarrow> ma_result \<times> ('c, 'k) ma_device \<times> res_event list" where
  "setup_input_cache env dev =
     (let pb = (dev_playback dev)\<lparr>sd_inputCacheConsumed := 0, sd_inputCacheRemaining := 0\<rparr>;
          freed = (if sd_pInputCache pb \<noteq> NULL then [Released InputCache] else []);
          none = dev\<lparr>dev_playback := pb\<lparr>sd_pInputCache := NULL, sd_inputCacheCap := 0\<rparr>\<rparr>
      in if dev_type dev = ma_device_type_duplex \<or> de_converter_required env (sd_converter pb) \<noteq> MA_SUCCESS
         then let cap = ma_calculate_frame_count_after_resampling (sd_internalSampleRate pb) (dev_sampleRate dev) (ucast (sd_internalPeriodSizeInFrames pb));
                  size = cap * ucast (ma_get_bytes_per_frame (sd_format pb) (sd_channels pb))
              in if \<not> de_malloc env InputCache then (MA_OUT_OF_MEMORY, none, freed)
                 else (MA_SUCCESS, dev\<lparr>dev_playback := pb\<lparr>sd_pInputCache := Some (replicate (unat size) 0), sd_inputCacheCap := cap\<rparr>\<rparr>,
                       freed @ [Acquired InputCache])
         else (MA_SUCCESS, none, freed))"

text \<open>Run \<open>f\<close> if the step before succeeded.\<close>

definition and_then :: "ma_result \<times> ('c, 'k) ma_device \<times> res_event list \<Rightarrow> (('c, 'k) ma_device \<Rightarrow> ma_result \<times> ('c, 'k) ma_device \<times> res_event list)
    \<Rightarrow> ma_result \<times> ('c, 'k) ma_device \<times> res_event list" where
  "and_then s f = (case s of (result, dev, tr) \<Rightarrow> if result \<noteq> MA_SUCCESS then s else case f dev of (result, dev, tr') \<Rightarrow> (result, dev, tr @ tr'))"

definition device_defaults :: "ma_device_type \<Rightarrow> ('c, 'k) ma_device \<Rightarrow> ('c, 'k) ma_device" where
  "device_defaults ty dev =
     (let dev = (if captures ty then dev\<lparr>dev_capture := side_defaults (dev_capture dev)\<rparr> else dev);
          dev = (if plays ty then dev\<lparr>dev_playback := side_defaults (dev_playback dev)\<rparr> else dev)
      in if dev_sampleRate dev = 0
         then dev\<lparr>dev_sampleRate := (if captures ty then sd_internalSampleRate (dev_capture dev) else sd_internalSampleRate (dev_playback dev))\<rparr>
         else dev)"

definition ma_device__post_init_setup :: "'k dev_env \<Rightarrow> ma_device_type \<Rightarrow> ('c, 'k) ma_device \<Rightarrow> ma_result \<times> ('c, 'k) ma_device \<times> res_event list" where
  "ma_device__post_init_setup env ty dev =
     (let dev = device_defaults ty dev;
          s = (if captures ty then setup_capture_converter env dev else (MA_SUCCESS, dev, []));
          s = (if plays ty then and_then s (setup_playback_converter env) else s)
      in if plays ty then and_then s (setup_input_cache env) else s)"

text \<open>The actual format of a side, from the descriptor of the backend.\<close>

definition side_actual :: "ma_device_descriptor \<Rightarrow> 'k ma_device_side \<Rightarrow> 'k ma_device_side" where
  "side_actual d sd = sd\<lparr>sd_internalFormat := ds_format d, sd_internalChannels := ds_channels d, sd_internalSampleRate := ds_sampleRate d,
     sd_internalPeriodSizeInFrames := (if ds_periodSizeInFrames d = 0
        then ma_calculate_buffer_size_in_frames_from_milliseconds (ds_periodSizeInMilliseconds d) (ds_sampleRate d) else ds_periodSizeInFrames d),
     sd_internalPeriods := ds_periodCount d\<rparr>"

definition ma_device_post_init :: "'k dev_env \<Rightarrow> ma_device_type \<Rightarrow> ma_device_descriptor ptr \<Rightarrow> ma_device_descriptor ptr \<Rightarrow> ('c, 'k) ma_device
    \<Rightarrow> ma_result \<times> ('c, 'k) ma_device \<times> res_event list" where
  "ma_device_post_init env ty pPlayback pCapture dev =
     (if captures ty \<and> \<not> ma_device_descriptor_is_valid pCapture then (MA_INVALID_ARGS, dev, [])
      else let dev = (if captures ty then dev\<lparr>dev_capture := side_actual (the pCapture) (dev_capture dev)\<rparr> else dev)
           in if plays ty \<and> \<not> ma_device_descriptor_is_valid pPlayback then (MA_INVALID_ARGS, dev, [])
              else ma_device__post_init_setup env ty
                     (if plays ty then dev\<lparr>dev_playback := side_actual (the pPlayback) (dev_playback dev)\<rparr> else dev))"

section \<open>Opening\<close>

definition zero_side :: "'k dev_env \<Rightarrow> 'k ma_device_side" where
  "zero_side env = \<lparr>sd_format = ma_format_unknown, sd_channels = 0, sd_internalFormat = ma_format_unknown, sd_internalChannels = 0,
     sd_internalSampleRate = 0, sd_internalPeriodSizeInFrames = 0, sd_internalPeriods = 0, sd_isPassthrough = False, sd_converter = de_zeroConverter env,
     sd_pIntermediaryBuffer = [], sd_hasIntermediaryBuffer = False, sd_intermediaryBufferCap = 0, sd_intermediaryBufferLen = 0,
     sd_pInputCache = NULL, sd_inputCacheCap = 0, sd_inputCacheConsumed = 0, sd_inputCacheRemaining = 0\<rparr>"

definition config_device :: "'k dev_env \<Rightarrow> 'c ma_device_init_config \<Rightarrow> ('c, 'k) ma_device" where
  "config_device env cfg = \<lparr>dev_type = ic_deviceType cfg, dev_state = ma_device_state_uninitialized, dev_sampleRate = ic_sampleRate cfg,
     dev_onData = ic_dataCallback cfg, dev_client = ic_pUserData cfg, dev_masterVolumeFactor = FNum False 1,
     dev_noPreSilencedOutputBuffer = ic_noPreSilencedOutputBuffer cfg, dev_noClip = ic_noClip cfg, dev_noFixedSizedCallback = ic_noFixedSizedCallback cfg,
     dev_capture = (zero_side env)\<lparr>sd_format := sc_format (ic_capture cfg), sd_channels := sc_channels (ic_capture cfg)\<rparr>,
     dev_playback = (zero_side env)\<lparr>sd_format := sc_format (ic_playback cfg), sd_channels := sc_channels (ic_playback cfg)\<rparr>,
     dev_duplexRB = de_zeroRing env\<rparr>"

definition config_descriptor :: "'c ma_device_init_config \<Rightarrow> ma_device_side_config \<Rightarrow> ma_device_descriptor" where
  "config_descriptor cfg sc = \<lparr>ds_format = sc_format sc, ds_channels = sc_channels sc, ds_sampleRate = ic_sampleRate cfg,
     ds_periodSizeInFrames = ic_periodSizeInFrames cfg, ds_periodSizeInMilliseconds = ic_periodSizeInMilliseconds cfg,
     ds_periodCount = (if ic_periods cfg = 0 then MA_DEFAULT_PERIODS else ic_periods cfg)\<rparr>"

definition side_config_ok :: "ma_device_side_config \<Rightarrow> bool" where
  "side_config_ok sc \<longleftrightarrow> \<not> sc_channels sc > MA_MAX_CHANNELS \<and> ma__is_channel_map_valid (sc_pChannelMap sc) (sc_channels sc)"

definition config_ok :: "'c ma_device_init_config \<Rightarrow> bool" where
  "config_ok cfg \<longleftrightarrow>
     (ic_deviceType cfg = ma_device_type_capture \<or> ic_deviceType cfg = ma_device_type_duplex \<longrightarrow> side_config_ok (ic_capture cfg)) \<and>
     (ic_deviceType cfg = ma_device_type_playback \<or> ic_deviceType cfg = ma_device_type_duplex \<or> ic_deviceType cfg = ma_device_type_loopback
        \<longrightarrow> side_config_ok (ic_playback cfg))"

text \<open>A buffer of \<open>cap\<close> frames of silence.\<close>

definition silent_buffer :: "'k ma_device_side \<Rightarrow> u32 \<Rightarrow> u32 \<Rightarrow> 'k ma_device_side" where
  "silent_buffer sd cap len = sd\<lparr>sd_intermediaryBufferCap := cap, sd_intermediaryBufferLen := len, sd_hasIntermediaryBuffer := True,
     sd_pIntermediaryBuffer := mem_write (replicate (unat (cap * sd_bpf sd)) 0) 0 (ma_silence_pcm_frames (ucast cap) (sd_format sd) (sd_channels sd))\<rparr>"

definition init_capture_buffer :: "'k dev_env \<Rightarrow> u32 \<Rightarrow> ('c, 'k) ma_device \<Rightarrow> ma_result \<times> ('c, 'k) ma_device \<times> res_event list" where
  "init_capture_buffer env cap dev =
     (let cp = dev_capture dev; cap = (if cap = 0 then sd_internalPeriodSizeInFrames cp else cap)
      in if \<not> de_malloc env CaptureBuffer then (MA_OUT_OF_MEMORY, dev\<lparr>dev_capture := cp\<lparr>sd_intermediaryBufferCap := cap\<rparr>\<rparr>, [])
         else (MA_SUCCESS, dev\<lparr>dev_capture := silent_buffer cp cap cap\<rparr>, [Acquired CaptureBuffer]))"

definition init_playback_buffer :: "'k dev_env \<Rightarrow> ma_device_type \<Rightarrow> u32 \<Rightarrow> ('c, 'k) ma_device \<Rightarrow> ma_result \<times> ('c, 'k) ma_device \<times> res_event list" where
  "init_playback_buffer env ty cap dev =
     (let pb = dev_playback dev;
          cap = (if ty = ma_device_type_duplex then sd_intermediaryBufferCap (dev_capture dev)
                 else if cap = 0 then sd_internalPeriodSizeInFrames pb else cap)
      in if \<not> de_malloc env PlaybackBuffer then (MA_OUT_OF_MEMORY, dev\<lparr>dev_playback := pb\<lparr>sd_intermediaryBufferCap := cap\<rparr>\<rparr>, [])
         else (MA_SUCCESS, dev\<lparr>dev_playback := silent_buffer pb cap 0\<rparr>, [Acquired PlaybackBuffer]))"

definition init_buffers :: "'k dev_env \<Rightarrow> 'c ma_device_init_config \<Rightarrow> ('c, 'k) ma_device \<Rightarrow> ma_result \<times> ('c, 'k) ma_device \<times> res_event list" where
  "init_buffers env cfg dev =
     (if ic_noFixedSizedCallback cfg then (MA_SUCCESS, dev, [])
      else let ty = ic_deviceType cfg;
               cap = (if ic_periodSizeInFrames cfg = 0
                      then ma_calculate_buffer_size_in_frames_from_milliseconds (ic_periodSizeInMilliseconds cfg) (dev_sampleRate dev)
                      else ic_periodSizeInFrames cfg);
               s = (if captures ty then init_capture_buffer env cap dev else (MA_SUCCESS, dev, []))
           in if plays ty then and_then s (init_playback_buffer env ty cap) else s)"

text \<open>The worker thread, which puts the device into the stopped state, or the ring between the two
  callbacks of a duplex device.\<close>

definition init_thread :: "'k dev_env \<Rightarrow> 'c ma_device_init_config \<Rightarrow> ('c, 'k) ma_device \<Rightarrow> ma_result \<times> ('c, 'k) ma_device \<times> res_event list" where
  "init_thread env cfg dev =
     (if \<not> ma_context_is_backend_asynchronous env
      then if de_thread_create env \<noteq> MA_SUCCESS then (de_thread_create env, dev, [])
           else (MA_SUCCESS, dev\<lparr>dev_state := ma_device_state_stopped\<rparr>, [Acquired WorkerThread])
      else if ic_deviceType cfg = ma_device_type_duplex
      then let cp = dev_capture dev
           in case ma_duplex_rb_init (de_libc env) (sd_format cp) (sd_channels cp) (dev_sampleRate dev) (sd_internalSampleRate cp)
                     (sd_internalPeriodSizeInFrames cp) NULL (Some (dev_duplexRB dev)) of
                (result, rb) \<Rightarrow>
                  if result \<noteq> MA_SUCCESS then (result, dev\<lparr>dev_duplexRB := the rb\<rparr>, [])
                  else (MA_SUCCESS, dev\<lparr>dev_duplexRB := the rb, dev_state := ma_device_state_stopped\<rparr>, [Acquired DuplexRing])
      else (MA_SUCCESS, dev\<lparr>dev_state := ma_device_state_stopped\<rparr>, []))"

text \<open>The events; a failure releases what was acquired before it.\<close>

definition init_events :: "'k dev_env \<Rightarrow> ma_result \<times> res_event list" where
  "init_events env =
     (if de_mutex_init env \<noteq> MA_SUCCESS then (de_mutex_init env, [])
      else if de_event_init env WakeupEvent \<noteq> MA_SUCCESS
      then (de_event_init env WakeupEvent, [Acquired StartStopLock, Released StartStopLock])
      else if de_event_init env StartEvent \<noteq> MA_SUCCESS
      then (de_event_init env StartEvent, [Acquired StartStopLock, Acquired WakeupEvent, Released WakeupEvent, Released StartStopLock])
      else if de_event_init env StopEvent \<noteq> MA_SUCCESS
      then (de_event_init env StopEvent, [Acquired StartStopLock, Acquired WakeupEvent, Acquired StartEvent,
              Released StartEvent, Released WakeupEvent, Released StartStopLock])
      else (MA_SUCCESS, [Acquired StartStopLock, Acquired WakeupEvent, Acquired StartEvent, Acquired StopEvent]))"

section \<open>Closing\<close>

definition zero_device_of :: "'k dev_env \<Rightarrow> ('c, 'k) ma_device \<Rightarrow> ('c, 'k) ma_device" where
  "zero_device_of env dev = dev\<lparr>dev_type := ma_device_type_playback, dev_state := ma_device_state_uninitialized, dev_sampleRate := 0, dev_onData := None,
     dev_masterVolumeFactor := FNum False 0, dev_noPreSilencedOutputBuffer := False, dev_noClip := False, dev_noFixedSizedCallback := False,
     dev_capture := zero_side env, dev_playback := zero_side env, dev_duplexRB := de_zeroRing env\<rparr>"

text \<open>The context is the application's own. The client's state is not the device's memory. The
  worker ends and is joined (\<open>MaDeviceSync\<close>).\<close>

definition ma_device_uninit :: "'k dev_env \<Rightarrow> ('c, 'k) ma_device ptr \<Rightarrow> ('c, 'k) ma_device ptr \<times> res_event list" where
  "ma_device_uninit env pDevice =
     (case pDevice of
        None \<Rightarrow> (None, [])
      | Some dev \<Rightarrow>
          if dev_state dev = ma_device_state_uninitialized then (Some dev, [])
          else (Some (zero_device_of env dev),
                (if \<not> ma_context_is_backend_asynchronous env then [Released WorkerThread] else [])
                @ (if de_onDeviceUninit env then [Released BackendDevice] else [])
                @ [Released StopEvent, Released StartEvent, Released WakeupEvent, Released StartStopLock]
                @ (if ma_context_is_backend_asynchronous env \<and> dev_type dev = ma_device_type_duplex then [Released DuplexRing] else [])
                @ (if captures (dev_type dev) then [Released CaptureConverter] else [])
                @ (if plays (dev_type dev) then [Released PlaybackConverter] else [])
                @ (if sd_pInputCache (dev_playback dev) \<noteq> NULL then [Released InputCache] else [])
                @ (if sd_hasIntermediaryBuffer (dev_capture dev) then [Released CaptureBuffer] else [])
                @ (if sd_hasIntermediaryBuffer (dev_playback dev) then [Released PlaybackBuffer] else [])))"

text \<open>After the backend has opened the device, every failure calls \<open>ma_device_uninit\<close>.\<close>

definition ma_device_init :: "'k dev_env \<Rightarrow> 'c ma_device_init_config ptr \<Rightarrow> ('c, 'k) ma_device ptr \<Rightarrow> ma_result \<times> ('c, 'k) ma_device ptr \<times> res_event list" where
  "ma_device_init env pConfig pDevice =
     (case pDevice of
        None \<Rightarrow> (MA_INVALID_ARGS, None, [])
      | Some dev \<Rightarrow> (case pConfig of
          None \<Rightarrow> (MA_INVALID_ARGS, Some (zero_device_of env dev), [])
        | Some cfg \<Rightarrow> (case de_onDeviceInit env of
            None \<Rightarrow> (MA_INVALID_OPERATION, Some (zero_device_of env dev), [])
          | Some onDeviceInit \<Rightarrow>
              if \<not> config_ok cfg then (MA_INVALID_ARGS, Some (zero_device_of env dev), [])
              else let dev = config_device env cfg
                   in case init_events env of (result, tr) \<Rightarrow>
                        if result \<noteq> MA_SUCCESS then (result, Some dev, tr)
                        else case onDeviceInit (ic_deviceType cfg) (config_descriptor cfg (ic_playback cfg)) (config_descriptor cfg (ic_capture cfg)) of
                          (result, pb, cp) \<Rightarrow>
                            if result \<noteq> MA_SUCCESS
                            then (result, Some dev, tr @ [Released StartEvent, Released WakeupEvent, Released StartStopLock])
                            else let s = ma_device_post_init env (ic_deviceType cfg) (Some pb) (Some cp) dev;
                                     s = and_then s (init_buffers env cfg);
                                     s = and_then s (init_thread env cfg)
                                 in case s of (result, dev, tr') \<Rightarrow>
                                      if result \<noteq> MA_SUCCESS
                                      then (case ma_device_uninit env (Some dev) of (p, tr'') \<Rightarrow> (result, p, tr @ Acquired BackendDevice # tr' @ tr''))
                                      else (MA_SUCCESS, Some dev, tr @ Acquired BackendDevice # tr'))))"

section \<open>Starting and stopping on an asynchronous backend\<close>

text \<open>\<open>onDeviceStart\<close> and \<open>onDeviceStop\<close> answer; with a worker thread see \<open>MaDeviceSync\<close>.\<close>

definition ma_device_start_async :: "'k dev_env \<Rightarrow> ('c, 'k) ma_device ptr \<Rightarrow> ma_result \<times> ('c, 'k) ma_device ptr" where
  "ma_device_start_async env pDevice =
     (case pDevice of
        None \<Rightarrow> (MA_INVALID_ARGS, None)
      | Some dev \<Rightarrow>
          if dev_state dev = ma_device_state_uninitialized then (MA_INVALID_OPERATION, Some dev)
          else if dev_state dev = ma_device_state_started then (MA_SUCCESS, Some dev)
          else let result = (case de_onDeviceStart env of Some r \<Rightarrow> r | None \<Rightarrow> MA_INVALID_OPERATION)
               in if result = MA_SUCCESS then (MA_SUCCESS, Some (dev\<lparr>dev_state := ma_device_state_started\<rparr>))
                  else (result, Some (dev\<lparr>dev_state := ma_device_state_stopped\<rparr>)))"

text \<open>With a worker thread, the worker asks the backend and \<open>ma_device_start\<close> waits for its answer.\<close>

definition ma_device_start :: "'k dev_env \<Rightarrow> ('c, 'k) ma_device ptr \<Rightarrow> ma_result \<times> ('c, 'k) ma_device ptr" where
  "ma_device_start env pDevice =
     (if ma_context_is_backend_asynchronous env then ma_device_start_async env pDevice
      else case pDevice of
        None \<Rightarrow> (MA_INVALID_ARGS, None)
      | Some dev \<Rightarrow>
          if dev_state dev = ma_device_state_uninitialized then (MA_INVALID_OPERATION, Some dev)
          else if dev_state dev = ma_device_state_started then (MA_SUCCESS, Some dev)
          else let startResult = (case de_onDeviceStart env of Some r \<Rightarrow> r | None \<Rightarrow> MA_SUCCESS)
               in (startResult, Some (dev\<lparr>dev_state := (if startResult = MA_SUCCESS then ma_device_state_started else ma_device_state_stopped)\<rparr>)))"

definition ma_device_stop_async :: "'k dev_env \<Rightarrow> ('c, 'k) ma_device ptr \<Rightarrow> ma_result \<times> ('c, 'k) ma_device ptr" where
  "ma_device_stop_async env pDevice =
     (case pDevice of
        None \<Rightarrow> (MA_INVALID_ARGS, None)
      | Some dev \<Rightarrow>
          if dev_state dev = ma_device_state_uninitialized then (MA_INVALID_OPERATION, Some dev)
          else if dev_state dev = ma_device_state_stopped then (MA_SUCCESS, Some dev)
          else let result = (case de_onDeviceStop env of Some r \<Rightarrow> r | None \<Rightarrow> MA_INVALID_OPERATION)
               in (result, Some (dev\<lparr>dev_state := ma_device_state_stopped,
                     dev_playback := (dev_playback dev)\<lparr>sd_intermediaryBufferLen := 0, sd_inputCacheConsumed := 0, sd_inputCacheRemaining := 0\<rparr>\<rparr>)))"

section \<open>What is held\<close>

definition dev_held :: "dev_resource \<Rightarrow> res_event list \<Rightarrow> int" where
  "dev_held r tr = int (length (filter ((=) (Acquired r)) tr)) - int (length (filter ((=) (Released r)) tr))"

lemma dev_held_simps [simp]:
  "dev_held r [] = 0" "dev_held r (Acquired x # tr) = (if x = r then 1 else 0) + dev_held r tr"
  "dev_held r (Released x # tr) = dev_held r tr - (if x = r then 1 else 0)" "dev_held r (tr @ tr') = dev_held r tr + dev_held r tr'"
  by (auto simp: dev_held_def)

lemma dev_held_if [simp]: "dev_held r (if b then tr else tr') = (if b then dev_held r tr else dev_held r tr')"
  by simp

lemma and_then_ok: "and_then s f = (MA_SUCCESS, dev, tr) \<Longrightarrow>
  \<exists>d t1 t2. s = (MA_SUCCESS, d, t1) \<and> f d = (MA_SUCCESS, dev, t2) \<and> tr = t1 @ t2"
  by (auto simp: and_then_def split: prod.splits if_splits)

text \<open>What a step leaves alone: everything but the resources it sets up.\<close>

definition life_same :: "('c, 'k) ma_device \<Rightarrow> ('c, 'k) ma_device \<Rightarrow> bool" where
  "life_same d d' \<longleftrightarrow> dev_state d' = dev_state d \<and> dev_type d' = dev_type d \<and>
     sd_hasIntermediaryBuffer (dev_capture d') = sd_hasIntermediaryBuffer (dev_capture d) \<and>
     sd_hasIntermediaryBuffer (dev_playback d') = sd_hasIntermediaryBuffer (dev_playback d)"

lemma capture_converter_ok:
  "setup_capture_converter env d = (MA_SUCCESS, d', tr) \<Longrightarrow> dev_state d = ma_device_state_uninitialized \<Longrightarrow>
   tr = [Acquired CaptureConverter] \<and> life_same d d' \<and> dev_playback d' = dev_playback d"
  by (auto simp: setup_capture_converter_def life_same_def split: prod.splits if_splits)

lemma playback_converter_ok:
  "setup_playback_converter env d = (MA_SUCCESS, d', tr) \<Longrightarrow> dev_state d = ma_device_state_uninitialized \<Longrightarrow>
   tr = [Acquired PlaybackConverter] \<and> life_same d d' \<and> sd_pInputCache (dev_playback d') = sd_pInputCache (dev_playback d)"
  by (auto simp: setup_playback_converter_def life_same_def split: prod.splits if_splits)

lemma input_cache_ok:
  "setup_input_cache env d = (MA_SUCCESS, d', tr) \<Longrightarrow> sd_pInputCache (dev_playback d) = NULL \<Longrightarrow>
   tr = (if sd_pInputCache (dev_playback d') \<noteq> NULL then [Acquired InputCache] else []) \<and> life_same d d'"
  by (auto simp: setup_input_cache_def Let_def life_same_def split: if_splits)

lemma post_init_setup_ok:
  assumes s: "ma_device__post_init_setup env ty d = (MA_SUCCESS, d', tr)"
    and d: "dev_state d = ma_device_state_uninitialized" "sd_pInputCache (dev_playback d) = NULL"
  shows "tr = (if captures ty then [Acquired CaptureConverter] else []) @ (if plays ty then [Acquired PlaybackConverter] else [])
    @ (if sd_pInputCache (dev_playback d') \<noteq> NULL then [Acquired InputCache] else []) \<and> life_same d d'"
proof -
  define e where "e = device_defaults ty d"
  have e: "dev_state e = ma_device_state_uninitialized" "sd_pInputCache (dev_playback e) = NULL" "life_same d e"
    using d by (auto simp: e_def device_defaults_def Let_def life_same_def side_defaults_def)
  define s1 where "s1 = (if captures ty then setup_capture_converter env e else (MA_SUCCESS, e, []))"
  have s1: "tr1 = (if captures ty then [Acquired CaptureConverter] else []) \<and> life_same e d1 \<and> sd_pInputCache (dev_playback d1) = NULL"
    if "s1 = (MA_SUCCESS, d1, tr1)" for d1 tr1
    using that e capture_converter_ok [of env e d1 tr1] by (auto simp: s1_def life_same_def split: if_splits)
  show ?thesis
  proof (cases "plays ty")
    case False
    then have "s1 = (MA_SUCCESS, d', tr)" using s by (auto simp: s1_def Let_def e_def ma_device__post_init_setup_def split: if_splits)
    with s1 e(3) False show ?thesis by (auto simp: life_same_def)
  next
    case True
    have "and_then (and_then s1 (setup_playback_converter env)) (setup_input_cache env) = (MA_SUCCESS, d', tr)"
      using s True unfolding s1_def Let_def e_def ma_device__post_init_setup_def by simp
    from and_then_ok [OF this] obtain d2 t2 t3 where a: "and_then s1 (setup_playback_converter env) = (MA_SUCCESS, d2, t2)"
      "setup_input_cache env d2 = (MA_SUCCESS, d', t3)" "tr = t2 @ t3" by blast
    from and_then_ok [OF a(1)] obtain d1 t1 t2' where b: "s1 = (MA_SUCCESS, d1, t1)"
      "setup_playback_converter env d1 = (MA_SUCCESS, d2, t2')" "t2 = t1 @ t2'" by blast
    have d1: "t1 = (if captures ty then [Acquired CaptureConverter] else [])" "life_same e d1" "sd_pInputCache (dev_playback d1) = NULL"
      using s1 [OF b(1)] by blast+
    have d2: "t2' = [Acquired PlaybackConverter]" "life_same d1 d2" "sd_pInputCache (dev_playback d2) = NULL"
      using playback_converter_ok [OF b(2)] d1(2,3) e(1) by (auto simp: life_same_def)
    from input_cache_ok [OF a(2) d2(3)] d1 d2 e(3) a(3) b(3) True show ?thesis by (auto simp: life_same_def)
  qed
qed

lemma post_init_ok:
  assumes "ma_device_post_init env ty pb cp d = (MA_SUCCESS, d', tr)"
    and "dev_state d = ma_device_state_uninitialized" "sd_pInputCache (dev_playback d) = NULL"
  shows "tr = (if captures ty then [Acquired CaptureConverter] else []) @ (if plays ty then [Acquired PlaybackConverter] else [])
    @ (if sd_pInputCache (dev_playback d') \<noteq> NULL then [Acquired InputCache] else []) \<and> life_same d d'"
proof -
  define e where "e = (if captures ty then d\<lparr>dev_capture := side_actual (the cp) (dev_capture d)\<rparr> else d)"
  define e' where "e' = (if plays ty then e\<lparr>dev_playback := side_actual (the pb) (dev_playback e)\<rparr> else e)"
  have "ma_device__post_init_setup env ty e' = (MA_SUCCESS, d', tr)"
    using assms(1) unfolding ma_device_post_init_def Let_def e_def [symmetric] e'_def by (auto split: if_splits)
  moreover have "dev_state e' = ma_device_state_uninitialized" "sd_pInputCache (dev_playback e') = NULL" "life_same d e'"
    using assms(2,3) by (auto simp: e_def e'_def life_same_def side_actual_def)
  ultimately show ?thesis using post_init_setup_ok [of env ty e' d' tr] by (auto simp: life_same_def)
qed

lemma init_buffers_ok:
  assumes "init_buffers env cfg d = (MA_SUCCESS, d', tr)"
    and "\<not> sd_hasIntermediaryBuffer (dev_capture d)" "\<not> sd_hasIntermediaryBuffer (dev_playback d)"
  shows "tr = (if sd_hasIntermediaryBuffer (dev_capture d') then [Acquired CaptureBuffer] else [])
      @ (if sd_hasIntermediaryBuffer (dev_playback d') then [Acquired PlaybackBuffer] else []) \<and>
    dev_state d' = dev_state d \<and> dev_type d' = dev_type d \<and> sd_pInputCache (dev_playback d') = sd_pInputCache (dev_playback d)"
  using assms unfolding init_buffers_def init_capture_buffer_def init_playback_buffer_def Let_def and_then_def
  by (auto simp: silent_buffer_def split: if_splits)

lemma init_thread_ok:
  assumes "init_thread env cfg d = (MA_SUCCESS, d', tr)"
  shows "tr = (if \<not> ma_context_is_backend_asynchronous env then [Acquired WorkerThread]
      else if ic_deviceType cfg = ma_device_type_duplex then [Acquired DuplexRing] else []) \<and>
    dev_state d' = ma_device_state_stopped \<and> dev_type d' = dev_type d \<and> dev_playback d' = dev_playback d \<and> dev_capture d' = dev_capture d"
  using assms unfolding init_thread_def Let_def by (auto split: if_splits prod.splits)

lemma init_events_ok: "init_events env = (MA_SUCCESS, tr) \<Longrightarrow> tr = [Acquired StartStopLock, Acquired WakeupEvent, Acquired StartEvent, Acquired StopEvent]"
  by (auto simp: init_events_def split: if_splits)

lemma init_events_failed: "init_events env = (r, tr) \<Longrightarrow> r \<noteq> MA_SUCCESS \<Longrightarrow> dev_held x tr = 0"
  by (auto simp: init_events_def split: if_splits)

lemma config_device_simps [simp]:
  "dev_state (config_device env cfg) = ma_device_state_uninitialized" "dev_type (config_device env cfg) = ic_deviceType cfg"
  "sd_pInputCache (dev_playback (config_device env cfg)) = NULL"
  "\<not> sd_hasIntermediaryBuffer (dev_capture (config_device env cfg))" "\<not> sd_hasIntermediaryBuffer (dev_playback (config_device env cfg))"
  by (simp_all add: config_device_def zero_side_def)

text \<open>A device that was opened and closed has given everything back.\<close>

lemma init_uninit_balanced:
  assumes "ma_device_init env (Some cfg) (Some d0) = (MA_SUCCESS, Some dev, tr)"
  shows "dev_held r (tr @ snd (ma_device_uninit env (Some dev))) = (if r = BackendDevice \<and> \<not> de_onDeviceUninit env then 1 else 0)"
proof -
  obtain onInit pb cp trE where o: "de_onDeviceInit env = Some onInit" "init_events env = (MA_SUCCESS, trE)"
    "onInit (ic_deviceType cfg) (config_descriptor cfg (ic_playback cfg)) (config_descriptor cfg (ic_capture cfg)) = (MA_SUCCESS, pb, cp)"
    using assms by (auto simp: ma_device_init_def Let_def split: option.splits prod.splits if_splits)
  obtain trD where a: "and_then (and_then (ma_device_post_init env (ic_deviceType cfg) (Some pb) (Some cp) (config_device env cfg)) (init_buffers env cfg)) (init_thread env cfg)
      = (MA_SUCCESS, dev, trD)" "tr = trE @ Acquired BackendDevice # trD"
    using assms o by (auto simp: ma_device_init_def Let_def split: prod.splits if_splits)
  obtain d2 t2 t3 where b: "and_then (ma_device_post_init env (ic_deviceType cfg) (Some pb) (Some cp) (config_device env cfg)) (init_buffers env cfg) = (MA_SUCCESS, d2, t2)"
    "init_thread env cfg d2 = (MA_SUCCESS, dev, t3)" "trD = t2 @ t3" using and_then_ok [OF a(1)] by blast
  obtain d1 t1 t2' where c: "ma_device_post_init env (ic_deviceType cfg) (Some pb) (Some cp) (config_device env cfg) = (MA_SUCCESS, d1, t1)"
    "init_buffers env cfg d1 = (MA_SUCCESS, d2, t2')" "t2 = t1 @ t2'" using and_then_ok [OF b(1)] by blast
  note p = post_init_ok [OF c(1) config_device_simps(1,3)]
  have hb: "\<not> sd_hasIntermediaryBuffer (dev_capture d1)" "\<not> sd_hasIntermediaryBuffer (dev_playback d1)" using p by (simp_all add: life_same_def)
  note q = init_buffers_ok [OF c(2) hb]
  note t = init_thread_ok [OF b(2)]
  have ty: "dev_type dev = ic_deviceType cfg" "dev_state dev \<noteq> ma_device_state_uninitialized" using p q t by (simp_all add: life_same_def)
  show ?thesis
    unfolding a(2) b(3) c(3) init_events_ok [OF o(2)] using p q t ty
    by (cases r) (simp_all add: ma_device_uninit_def)
qed

lemma init_success:
  assumes "ma_device_init env (Some cfg) (Some d0) = (MA_SUCCESS, pDevice, tr)"
  shows "\<exists>dev. pDevice = Some dev \<and> dev_state dev = ma_device_state_stopped"
proof -
  obtain s dev trD where "and_then s (init_thread env cfg) = (MA_SUCCESS, dev, trD)" "pDevice = Some dev"
    using assms by (auto simp: ma_device_init_def Let_def split: option.splits prod.splits if_splits)
  then show ?thesis by (auto dest!: and_then_ok init_thread_ok)
qed

text \<open>Starting a device that was opened changes nothing but its state: closing releases the same.\<close>

lemma start_keeps_resources:
  assumes "dev_state dev = ma_device_state_stopped"
  shows "\<exists>result dev'. ma_device_start env (Some dev) = (result, Some dev') \<and>
    snd (ma_device_uninit env (Some dev')) = snd (ma_device_uninit env (Some dev))"
  using assms by (auto simp: ma_device_start_def ma_device_start_async_def ma_device_uninit_def Let_def)

text \<open>A failure after the backend has opened the device: \<open>ma_device_uninit\<close> is called on a device that is
  still in the uninitialised state, and does nothing.\<close>

definition keeps_core :: "('c, 'k) ma_device \<Rightarrow> ma_result \<times> ('c, 'k) ma_device \<times> res_event list \<Rightarrow> bool" where
  "keeps_core d s \<longleftrightarrow> dev_state (fst (snd s)) = dev_state d \<and>
     (\<forall>r \<in> {StartStopLock, WakeupEvent, StartEvent, StopEvent, BackendDevice}. dev_held r (snd (snd s)) = 0)"

lemma keeps_core_nil: "dev_state d' = dev_state d \<Longrightarrow> keeps_core d (r, d', [])"
  by (simp add: keeps_core_def)

lemma keeps_core_state: "dev_state d' = dev_state d \<Longrightarrow> keeps_core d' s \<Longrightarrow> keeps_core d s"
  by (simp add: keeps_core_def)

lemma keeps_core_then:
  assumes "keeps_core d s" "\<And>d'. keeps_core d' (f d')"
  shows "keeps_core d (and_then s f)"
  using assms(1) assms(2) [of "fst (snd s)"] by (cases s; cases "f (fst (snd s))") (auto simp: keeps_core_def and_then_def)

lemma keeps_core_steps:
  "keeps_core d (setup_capture_converter env d)" "keeps_core d (setup_playback_converter env d)" "keeps_core d (setup_input_cache env d)"
  "keeps_core d (init_capture_buffer env cap d)" "keeps_core d (init_playback_buffer env ty cap d)"
  by (auto simp: keeps_core_def setup_capture_converter_def setup_playback_converter_def setup_input_cache_def init_capture_buffer_def
      init_playback_buffer_def Let_def split: prod.splits if_splits)

lemma defaults_state [simp]: "dev_state (device_defaults ty d) = dev_state d"
  by (simp add: device_defaults_def Let_def)

lemma post_init_setup_keeps: "keeps_core d (ma_device__post_init_setup env ty d)"
proof (rule keeps_core_state [of "device_defaults ty d"])
  show "keeps_core (device_defaults ty d) (ma_device__post_init_setup env ty d)"
    unfolding ma_device__post_init_setup_def Let_def
    by (cases "captures ty"; cases "plays ty") (simp_all add: keeps_core_then keeps_core_steps keeps_core_nil)
qed simp

lemma post_init_keeps: "keeps_core d (ma_device_post_init env ty pb cp d)"
  unfolding ma_device_post_init_def Let_def
  by (auto intro: keeps_core_nil keeps_core_state [OF _ post_init_setup_keeps])

lemma init_buffers_keeps: "keeps_core d (init_buffers env cfg d)"
  unfolding init_buffers_def Let_def
  by (cases "captures (ic_deviceType cfg)"; cases "plays (ic_deviceType cfg)") (simp_all add: keeps_core_then keeps_core_steps keeps_core_nil)

lemma failed_thread_keeps:
  assumes "keeps_core d s" "and_then s (init_thread env cfg) = (result, d', tr)" "result \<noteq> MA_SUCCESS"
  shows "keeps_core d (result, d', tr)"
  using assms unfolding and_then_def init_thread_def Let_def keeps_core_def
  by (auto split: prod.splits if_splits)

lemma failed_setup_leaks:
  assumes i: "ma_device_init env (Some cfg) (Some d0) = (result, pDevice, tr)" "result \<noteq> MA_SUCCESS"
    and o: "de_onDeviceInit env = Some onInit" "config_ok cfg" "init_events env = (MA_SUCCESS, trE)"
      "onInit (ic_deviceType cfg) (config_descriptor cfg (ic_playback cfg)) (config_descriptor cfg (ic_capture cfg)) = (MA_SUCCESS, pb, cp)"
    and r: "r \<in> {StartStopLock, WakeupEvent, StartEvent, StopEvent, BackendDevice}"
  shows "dev_held r (tr @ snd (ma_device_uninit env pDevice)) = 1"
proof -
  let ?d = "config_device env cfg"
  let ?p = "ma_device_post_init env (ic_deviceType cfg) (Some pb) (Some cp) ?d"
  obtain dev trD where s: "and_then (and_then ?p (init_buffers env cfg)) (init_thread env cfg) = (result, dev, trD)"
    "pDevice = fst (ma_device_uninit env (Some dev))" "tr = trE @ Acquired BackendDevice # trD @ snd (ma_device_uninit env (Some dev))"
    using i o by (auto simp: ma_device_init_def Let_def split: prod.splits if_splits)
  have "keeps_core ?d (result, dev, trD)"
    by (rule failed_thread_keeps [OF keeps_core_then [OF post_init_keeps init_buffers_keeps] s(1) i(2)])
  then have "dev_state dev = ma_device_state_uninitialized" "dev_held r trD = 0" using r by (auto simp: keeps_core_def)
  then show ?thesis using r by (auto simp: s init_events_ok [OF o(3)] ma_device_uninit_def)
qed

lemma failed_open_leaks:
  assumes "de_onDeviceInit env = Some onInit" "config_ok cfg" "init_events env = (MA_SUCCESS, trE)"
    and "onInit (ic_deviceType cfg) (config_descriptor cfg (ic_playback cfg)) (config_descriptor cfg (ic_capture cfg)) = (result, pb, cp)" "result \<noteq> MA_SUCCESS"
  shows "\<exists>dev tr. ma_device_init env (Some cfg) (Some d0) = (result, Some dev, tr) \<and>
    (\<forall>r. dev_held r (tr @ snd (ma_device_uninit env (Some dev))) = (if r = StopEvent then 1 else 0))"
proof -
  have "dev_held r (trE @ [Released StartEvent, Released WakeupEvent, Released StartStopLock]) = (if r = StopEvent then 1 else 0)" for r
    unfolding init_events_ok [OF assms(3)] by (cases r) simp_all
  then show ?thesis using assms by (simp add: ma_device_init_def Let_def ma_device_uninit_def del: dev_held_simps(4))
qed

section \<open>The device that is opened\<close>

text \<open>What the configuration fixes.\<close>

definition same_config :: "('c, 'k) ma_device \<Rightarrow> ('c, 'k) ma_device \<Rightarrow> bool" where
  "same_config d d' \<longleftrightarrow> dev_type d' = dev_type d \<and> dev_onData d' = dev_onData d \<and> dev_client d' = dev_client d \<and>
     dev_masterVolumeFactor d' = dev_masterVolumeFactor d \<and> dev_noPreSilencedOutputBuffer d' = dev_noPreSilencedOutputBuffer d \<and>
     dev_noClip d' = dev_noClip d \<and> dev_noFixedSizedCallback d' = dev_noFixedSizedCallback d \<and>
     sd_format (dev_playback d') = sd_format (dev_playback d) \<and> sd_channels (dev_playback d') = sd_channels (dev_playback d) \<and>
     sd_format (dev_capture d') = sd_format (dev_capture d) \<and> sd_channels (dev_capture d') = sd_channels (dev_capture d)"

definition sides_set :: "ma_device_type \<Rightarrow> ('c, 'k) ma_device \<Rightarrow> bool" where
  "sides_set ty d \<longleftrightarrow> (plays ty \<longrightarrow> sd_format (dev_playback d) \<noteq> ma_format_unknown \<and> sd_channels (dev_playback d) \<noteq> 0) \<and>
     (captures ty \<longrightarrow> sd_format (dev_capture d) \<noteq> ma_format_unknown \<and> sd_channels (dev_capture d) \<noteq> 0)"

definition config_kept :: "('c, 'k) ma_device \<Rightarrow> ma_result \<times> ('c, 'k) ma_device \<times> res_event list \<Rightarrow> bool" where
  "config_kept d s \<longleftrightarrow> same_config d (fst (snd s))"

lemma config_kept_nil: "same_config d d' \<Longrightarrow> config_kept d (r, d', tr)"
  by (simp add: config_kept_def)

lemma same_config_refl [simp]: "same_config d d"
  by (simp add: same_config_def)

lemma same_config_trans: "same_config a b \<Longrightarrow> same_config b c \<Longrightarrow> same_config a c"
  by (simp add: same_config_def)

lemma config_kept_then: "config_kept d s \<Longrightarrow> (\<And>d'. config_kept d' (f d')) \<Longrightarrow> config_kept d (and_then s f)"
  by (auto simp: config_kept_def and_then_def split: prod.splits) (metis fst_conv same_config_trans snd_conv)

lemma config_kept_first: "same_config d d' \<Longrightarrow> config_kept d' s \<Longrightarrow> config_kept d s"
  unfolding config_kept_def by (rule same_config_trans)

lemma config_kept_steps:
  "config_kept d (setup_capture_converter env d)" "config_kept d (setup_playback_converter env d)" "config_kept d (setup_input_cache env d)"
  "config_kept d (init_capture_buffer env cap d)" "config_kept d (init_playback_buffer env ty cap d)" "config_kept d (init_thread env cfg d)"
  by (auto simp: config_kept_def same_config_def setup_capture_converter_def setup_playback_converter_def setup_input_cache_def init_capture_buffer_def
      init_playback_buffer_def init_thread_def silent_buffer_def Let_def split: prod.splits if_splits)

lemma post_init_config:
  fixes d :: "('c, 'k) ma_device"
  assumes "sides_set ty d"
  shows "config_kept d (ma_device_post_init env ty pb cp d)"
proof -
  have df: "same_config e (device_defaults ty e)" if "sides_set ty e" for e :: "('c, 'k) ma_device"
    using that by (auto simp: same_config_def device_defaults_def side_defaults_def sides_set_def Let_def)
  have su: "config_kept e (ma_device__post_init_setup env ty e)" if "sides_set ty e" for e :: "('c, 'k) ma_device"
    unfolding ma_device__post_init_setup_def Let_def
    by (rule config_kept_first [OF df [OF that]], cases "captures ty"; cases "plays ty")
      (simp_all add: config_kept_then config_kept_steps config_kept_nil)
  show ?thesis using assms unfolding ma_device_post_init_def Let_def
    by (auto intro!: config_kept_nil config_kept_first [OF _ su] simp: sides_set_def same_config_def side_actual_def)
qed

text \<open>The device that a successful \<open>ma_device_init\<close> returns.\<close>

lemma init_device:
  assumes i: "ma_device_init env (Some cfg) (Some d0) = (MA_SUCCESS, Some dev, tr)"
    and f: "sides_set (ic_deviceType cfg) (config_device env cfg)" "\<not> ic_noFixedSizedCallback cfg" "ic_periodSizeInFrames cfg \<noteq> 0"
  shows "same_config (config_device env cfg) dev" "dev_state dev = ma_device_state_stopped"
    "captures (ic_deviceType cfg) \<Longrightarrow> \<exists>sd. dev_capture dev = silent_buffer sd (ic_periodSizeInFrames cfg) (ic_periodSizeInFrames cfg)"
    "ic_deviceType cfg = ma_device_type_playback \<Longrightarrow> \<exists>sd. dev_playback dev = silent_buffer sd (ic_periodSizeInFrames cfg) 0"
proof -
  let ?d = "config_device env cfg"
  obtain pb cp trD where a: "and_then (and_then (ma_device_post_init env (ic_deviceType cfg) (Some pb) (Some cp) ?d) (init_buffers env cfg)) (init_thread env cfg)
      = (MA_SUCCESS, dev, trD)"
    using i by (auto simp: ma_device_init_def Let_def split: option.splits prod.splits if_splits)
  obtain d2 t2 t3 where b: "and_then (ma_device_post_init env (ic_deviceType cfg) (Some pb) (Some cp) ?d) (init_buffers env cfg) = (MA_SUCCESS, d2, t2)"
    "init_thread env cfg d2 = (MA_SUCCESS, dev, t3)" using and_then_ok [OF a] by blast
  obtain d1 t1 t2' where c: "ma_device_post_init env (ic_deviceType cfg) (Some pb) (Some cp) ?d = (MA_SUCCESS, d1, t1)"
    "init_buffers env cfg d1 = (MA_SUCCESS, d2, t2')" using and_then_ok [OF b(1)] by blast
  have "config_kept d1 (init_buffers env cfg d1)" unfolding init_buffers_def Let_def
    by (cases "captures (ic_deviceType cfg)"; cases "plays (ic_deviceType cfg)") (simp_all add: config_kept_then config_kept_steps config_kept_nil)
  with post_init_config [OF f(1), of env "Some pb" "Some cp"] config_kept_steps(6) [of d2 env cfg] c b(2)
  show "same_config ?d dev" by (auto simp: config_kept_def intro: same_config_trans)
  note t = init_thread_ok [OF b(2)]
  then show "dev_state dev = ma_device_state_stopped" by simp
  show "\<exists>sd. dev_capture dev = silent_buffer sd (ic_periodSizeInFrames cfg) (ic_periodSizeInFrames cfg)" if "captures (ic_deviceType cfg)"
    using c(2) t f(2,3) that unfolding init_buffers_def Let_def init_capture_buffer_def init_playback_buffer_def and_then_def
    by (auto split: if_splits)
  show "\<exists>sd. dev_playback dev = silent_buffer sd (ic_periodSizeInFrames cfg) 0" if "ic_deviceType cfg = ma_device_type_playback"
    using c(2) t f(2,3) that unfolding init_buffers_def Let_def init_capture_buffer_def init_playback_buffer_def and_then_def
    by (auto simp: captures_def plays_def split: if_splits)
qed

end
