(* ===== verification/RaDeviceOpen.thy ===== *)
theory RaDeviceOpen
  imports RaCallback MaDeviceLife
begin

text \<open>
  Opening, listing and closing devices (\<open>native/client-audio/device.c\<close>). The operating system
  below miniaudio is a parameter: what \<open>calloc\<close> and the ring allocations return, how the
  initialisation of the context ends, the devices the backend enumerates, and what answers
  \<open>ma_device_init\<close>, \<open>ma_device_start\<close> and \<open>ma_device_uninit\<close>, which are those of \<open>MaDeviceLife\<close>.
  Every acquisition and release of a resource is recorded in a trace, what happens inside
  miniaudio too.
\<close>

section \<open>Device identifiers\<close>

text \<open>\<open>sizeof(ma_device_id)\<close> is 256 on every target: the union's largest members are strings of
  that size.\<close>

abbreviation (input) sizeof_ma_device_id :: nat where "sizeof_ma_device_id \<equiv> 256"

primrec id_length :: "nat \<Rightarrow> u8 list \<Rightarrow> nat" where
  "id_length 0 bytes = 0"
| "id_length (Suc n) bytes = (if Suc n > 1 \<and> bytes ! n = 0 then id_length n bytes else Suc n)"

definition hex_digits :: string where
  "hex_digits = ''0123456789abcdef''"

definition id_string :: "u8 list \<Rightarrow> string" where
  "id_string bytes =
     (let n = id_length (length bytes) bytes
      in concat (map (\<lambda>b. [hex_digits ! unat (drop_bit 4 b), hex_digits ! unat (b AND 15)]) (take n bytes)))"

section \<open>The environment\<close>

record ma_device_config =
  cfg_deviceType :: ma_device_type
  cfg_sampleRate :: u32
  cfg_periodSizeInFrames :: u32
  cfg_lowLatency :: bool
  cfg_format :: ma_format
  cfg_channels :: u32
  cfg_pDeviceID :: "u8 list ptr"

definition ma_device_config_init :: "ma_device_type \<Rightarrow> ma_device_config" where
  "ma_device_config_init ty = \<lparr>cfg_deviceType = ty, cfg_sampleRate = 0, cfg_periodSizeInFrames = 0,
     cfg_lowLatency = True, cfg_format = ma_format_unknown, cfg_channels = 0, cfg_pDeviceID = NULL\<rparr>"

text \<open>\<open>env_device\<close> is what answers for the device that a configuration asks for, with its identifier.\<close>

record 'k audio_env =
  env_calloc :: bool
  env_libc :: "nat \<Rightarrow> libc"
  env_context_init :: ma_result
  env_backend :: backend
  env_now :: "nat \<Rightarrow> fval"
  env_device :: "ma_device_config \<Rightarrow> 'k dev_env"

datatype ra_resource = Memory | CaptureRing | PlaybackRing | ReferenceRing | MonitorRing | Context | Device ma_device_type

datatype ra_trace_event = Acquire ra_resource | Release ra_resource | SetClosing | Inside ma_device_type res_event

text \<open>The memory of \<open>d->input\<close> and \<open>d->output\<close>, with what answers for the device in it.\<close>

type_synonym 'k ma_devices = "ma_device_type \<Rightarrow> ('k dev_env \<times> (ra_device, 'k) ma_device) option"

definition empty_context :: ma_context where
  "empty_context = \<lparr>pDeviceInfos = [], deviceInfoCapacity = 0, playbackDeviceInfoCount = 0, captureDeviceInfoCount = 0\<rparr>"

section \<open>Listing\<close>

text \<open>The arguments of each call of the list callback: identifier, name, kind and default flag.\<close>

type_synonym listed = "string \<times> string \<times> nat \<times> bool"

definition list_kind :: "nat \<Rightarrow> ma_device_info list \<Rightarrow> listed list" where
  "list_kind kind infos = map (\<lambda>d. (id_string (di_id d), di_name d, kind, di_isDefault d)) infos"

definition ra_device_list :: "'k audio_env \<Rightarrow> ma_result \<times> listed list \<times> ra_trace_event list" where
  "ra_device_list env =
     (if env_context_init env \<noteq> MA_SUCCESS then (env_context_init env, [], [])
      else case ma_context_get_devices (env_backend env) (Some empty_context) of
        (error, outputs, inputs, ctx) \<Rightarrow>
          let (error, calls) =
                (if error \<noteq> MA_SUCCESS then (error, [])
                 else if length outputs > 256 then (MA_TOO_BIG, [])
                 else if length inputs > 256 then (MA_TOO_BIG, list_kind 0 outputs)
                 else (error, list_kind 0 outputs @ list_kind 1 inputs))
          in (error, calls, [Acquire Context, Release Context]))"

section \<open>Closing\<close>

definition uninit_device :: "'k ma_devices \<Rightarrow> ma_device_type \<Rightarrow> ra_trace_event list" where
  "uninit_device devs ty =
     (case devs ty of None \<Rightarrow> [] | Some (env, dev) \<Rightarrow> map (Inside ty) (snd (ma_device_uninit env (Some dev)))) @ [Release (Device ty)]"

definition ra_device_close :: "'k ma_devices \<Rightarrow> ra_device ptr \<Rightarrow> ra_trace_event list" where
  "ra_device_close devs p =
     (case p of None \<Rightarrow> []
      | Some d \<Rightarrow>
          [SetClosing]
          @ (if rd_input_ok d then uninit_device devs ma_device_type_capture else [])
          @ (if rd_output_ok d then uninit_device devs ma_device_type_playback else [])
          @ (if rd_context_ok d then [Release Context] else [])
          @ (if rd_capture_ok d \<and> ma_rb_uninit (Some (rd_capture d)) then [Release CaptureRing] else [])
          @ (if rd_playback_ok d \<and> ma_pcm_rb_uninit (Some (rd_playback d)) then [Release PlaybackRing] else [])
          @ (if rd_reference_ok d \<and> ma_pcm_rb_uninit (Some (rd_reference d)) then [Release ReferenceRing] else [])
          @ (if rd_monitor_ok d \<and> ma_pcm_rb_uninit (Some (rd_monitor d)) then [Release MonitorRing] else [])
          @ [Release Memory])"

section \<open>Opening\<close>

definition zero_device :: "bool \<Rightarrow> ra_device" where
  "zero_device wake = \<lparr>rd_capture = zero_rb, rd_playback = zero_pcm_rb, rd_reference = zero_pcm_rb,
     rd_monitor = zero_pcm_rb, rd_written = [0, 0], rd_consumed = [0, 0], rd_discard = [0, 0],
     rd_context_ok = False, rd_input_ok = False, rd_output_ok = False, rd_capture_ok = False,
     rd_playback_ok = False, rd_reference_ok = False, rd_monitor_ok = False,
     rd_epoch = 0, rd_failed = 0, rd_closing = 0, rd_clock = 0,
     rd_pending = \<lparr>fr_epoch = 0, fr_time = FNum False 0, fr_samples = replicate 3840 0\<rparr>,
     rd_captured = 0, rd_wake = wake, rd_woken = 0\<rparr>"

text \<open>The identifier of the selected device: none when no device is selected.\<close>

definition select_device :: "'k audio_env \<Rightarrow> ma_device_type \<Rightarrow> string ptr \<Rightarrow> ma_result \<times> u8 list ptr" where
  "select_device env ty selected =
     (if selected = NULL \<or> the selected = [] then (MA_SUCCESS, NULL)
      else case ma_context_get_devices (env_backend env) (Some empty_context) of
        (error, outputs, inputs, ctx) \<Rightarrow>
          if error \<noteq> MA_SUCCESS then (error, NULL)
          else case List.find (\<lambda>d. id_string (di_id d) = the selected)
                      (if ty = ma_device_type_capture then inputs else outputs) of
                 None \<Rightarrow> (MA_NO_DEVICE, NULL)
               | Some d \<Rightarrow> (MA_SUCCESS, Some (di_id d)))"

text \<open>The callback of \<open>device.c\<close> in the form of a miniaudio callback. It always returns (below), so the
  last case is never taken.\<close>

definition ra_onData :: "(nat \<Rightarrow> fval) \<Rightarrow> ra_device ma_device_data_proc" where
  "ra_onData now output input frames d = (case data_callback now d output input frames of Some r \<Rightarrow> r | None \<Rightarrow> (output, d))"

text \<open>The configurations of \<open>open_device\<close>: everything it does not set is zero.\<close>

definition ra_config :: "(nat \<Rightarrow> fval) \<Rightarrow> bool \<Rightarrow> ra_device \<Rightarrow> ra_device ma_device_init_config" where
  "ra_config now input d =
     (let unset = \<lparr>sc_format = ma_format_unknown, sc_channels = 0, sc_pChannelMap = NULL\<rparr>
      in \<lparr>ic_deviceType = (if input then ma_device_type_capture else ma_device_type_playback), ic_sampleRate = 48000,
          ic_periodSizeInFrames = RA_FRAME, ic_periodSizeInMilliseconds = 0, ic_periods = 0, ic_noPreSilencedOutputBuffer = False, ic_noClip = False,
          ic_noFixedSizedCallback = False, ic_dataCallback = Some (ra_onData now), ic_pUserData = d,
          ic_playback = (if input then unset else unset\<lparr>sc_format := ma_format_f32, sc_channels := 2\<rparr>),
          ic_capture = (if input then unset\<lparr>sc_format := ma_format_f32, sc_channels := 1\<rparr> else unset)\<rparr>)"

text \<open>What \<open>ma_device_init\<close> reads of a configuration of \<open>open_device\<close>.\<close>

definition init_config :: "(nat \<Rightarrow> fval) \<Rightarrow> ra_device \<Rightarrow> ma_device_config \<Rightarrow> ra_device ma_device_init_config" where
  "init_config now d config =
     (let unset = \<lparr>sc_format = ma_format_unknown, sc_channels = 0, sc_pChannelMap = NULL\<rparr>;
          side = unset\<lparr>sc_format := cfg_format config, sc_channels := cfg_channels config\<rparr>;
          input = (cfg_deviceType config = ma_device_type_capture)
      in \<lparr>ic_deviceType = cfg_deviceType config, ic_sampleRate = cfg_sampleRate config,
          ic_periodSizeInFrames = cfg_periodSizeInFrames config, ic_periodSizeInMilliseconds = 0, ic_periods = 0,
          ic_noPreSilencedOutputBuffer = False, ic_noClip = False, ic_noFixedSizedCallback = False,
          ic_dataCallback = Some (ra_onData now), ic_pUserData = d,
          ic_playback = (if input then unset else side), ic_capture = (if input then side else unset)\<rparr>)"

definition device_config :: "ma_device_type \<Rightarrow> u8 list ptr \<Rightarrow> ma_device_config" where
  "device_config ty devid = (ma_device_config_init ty)\<lparr>cfg_sampleRate := 48000, cfg_periodSizeInFrames := RA_FRAME,
     cfg_lowLatency := True, cfg_format := ma_format_f32, cfg_channels := (if ty = ma_device_type_capture then 1 else 2),
     cfg_pDeviceID := devid\<rparr>"

lemma init_config_ra: "ty \<in> {ma_device_type_playback, ma_device_type_capture} \<Longrightarrow>
  init_config now d (device_config ty devid) = ra_config now (ty = ma_device_type_capture) d"
  by (auto simp: init_config_def device_config_def ma_device_config_init_def ra_config_def Let_def)

text \<open>\<open>ma_device_init\<close> on the zeroed memory of the device, as \<open>open_device\<close> calls it.\<close>

definition init_call :: "'k audio_env \<Rightarrow> ra_device \<Rightarrow> ma_device_config
    \<Rightarrow> ma_result \<times> (ra_device, 'k) ma_device ptr \<times> res_event list" where
  "init_call env d config =
     (let answers = env_device env config; ic = init_config (env_now env) d config
      in ma_device_init answers (Some ic) (Some (zero_device_of answers (config_device answers ic))))"

definition init_and_start :: "'k audio_env \<Rightarrow> ma_device_config \<Rightarrow> ra_device \<times> 'k ma_devices
    \<Rightarrow> ma_result \<times> (ra_device \<times> 'k ma_devices) \<times> ra_trace_event list" where
  "init_and_start env config s = (case s of (d, devs) \<Rightarrow>
     let ty = cfg_deviceType config; answers = env_device env config
     in case init_call env d config of
       (error, pDevice, tr) \<Rightarrow>
         let tr = map (Inside ty) tr
         in if error \<noteq> MA_SUCCESS then (error, (d, devs(ty := map_option (Pair answers) pDevice)), tr)
            else let d = (if ty = ma_device_type_capture then d\<lparr>rd_input_ok := True\<rparr> else d\<lparr>rd_output_ok := True\<rparr>)
                 in case ma_device_start answers pDevice of
                   (error, pDevice) \<Rightarrow> (error, (d, devs(ty := map_option (Pair answers) pDevice)), tr @ [Acquire (Device ty)]))"

definition open_device :: "'k audio_env \<Rightarrow> ma_device_type \<Rightarrow> string ptr \<Rightarrow> ra_device \<times> 'k ma_devices
    \<Rightarrow> ma_result \<times> (ra_device \<times> 'k ma_devices) \<times> ra_trace_event list" where
  "open_device env ty selected s =
     (case select_device env ty selected of
        (error, devid) \<Rightarrow> if error \<noteq> MA_SUCCESS then (error, s, []) else init_and_start env (device_config ty devid) s)"

definition init_capture :: "'k audio_env \<Rightarrow> ra_device \<Rightarrow> ma_result \<times> ra_device \<times> ra_trace_event list" where
  "init_capture env d =
     (case ma_rb_init (env_libc env 0) (sizeof_ra_frame * RA_CAPACITY) NULL NULL (Some (rd_capture d)) of
        (error, rb) \<Rightarrow> if error \<noteq> MA_SUCCESS then (error, d\<lparr>rd_capture := the rb\<rparr>, [])
          else (error, d\<lparr>rd_capture := the rb, rd_capture_ok := True\<rparr>, [Acquire CaptureRing]))"

definition init_playback :: "'k audio_env \<Rightarrow> ra_device \<Rightarrow> ma_result \<times> ra_device \<times> ra_trace_event list" where
  "init_playback env d =
     (case ma_pcm_rb_init (env_libc env 1) ma_format_f32 2 (RA_FRAME * RA_CAPACITY) NULL NULL (Some (rd_playback d)) of
        (error, rb) \<Rightarrow> if error \<noteq> MA_SUCCESS then (error, d\<lparr>rd_playback := the rb\<rparr>, [])
          else (error, d\<lparr>rd_playback := the rb, rd_playback_ok := True\<rparr>, [Acquire PlaybackRing]))"

definition init_reference :: "'k audio_env \<Rightarrow> ra_device \<Rightarrow> ma_result \<times> ra_device \<times> ra_trace_event list" where
  "init_reference env d =
     (case ma_pcm_rb_init (env_libc env 2) ma_format_f32 2 (RA_FRAME * RA_CAPACITY) NULL NULL (Some (rd_reference d)) of
        (error, rb) \<Rightarrow> if error \<noteq> MA_SUCCESS then (error, d\<lparr>rd_reference := the rb\<rparr>, [])
          else (error, d\<lparr>rd_reference := the rb, rd_reference_ok := True\<rparr>, [Acquire ReferenceRing]))"

definition init_monitor :: "'k audio_env \<Rightarrow> ra_device \<Rightarrow> ma_result \<times> ra_device \<times> ra_trace_event list" where
  "init_monitor env d =
     (case ma_pcm_rb_init (env_libc env 3) ma_format_f32 2 (RA_FRAME * RA_CAPACITY) NULL NULL (Some (rd_monitor d)) of
        (error, rb) \<Rightarrow> if error \<noteq> MA_SUCCESS then (error, d\<lparr>rd_monitor := the rb\<rparr>, [])
          else (error, d\<lparr>rd_monitor := the rb, rd_monitor_ok := True\<rparr>, [Acquire MonitorRing]))"

definition init_context :: "'k audio_env \<Rightarrow> ra_device \<Rightarrow> ma_result \<times> ra_device \<times> ra_trace_event list" where
  "init_context env d =
     (if env_context_init env \<noteq> MA_SUCCESS then (env_context_init env, d, [])
      else (MA_SUCCESS, d\<lparr>rd_context_ok := True\<rparr>, [Acquire Context]))"

text \<open>Each step runs only when those before it succeeded; the first failure jumps to \<open>fail\<close>.\<close>

definition open_then :: "ma_result \<times> 's \<times> ra_trace_event list \<Rightarrow> ('s \<Rightarrow> ma_result \<times> 's \<times> ra_trace_event list)
    \<Rightarrow> ma_result \<times> 's \<times> ra_trace_event list" where
  "open_then s f = (case s of (error, d, tr) \<Rightarrow>
     if error \<noteq> MA_SUCCESS then s else case f d of (error', d', tr') \<Rightarrow> (error', d', tr @ tr'))"

definition on_device :: "(ra_device \<Rightarrow> ma_result \<times> ra_device \<times> ra_trace_event list) \<Rightarrow> ra_device \<times> 'k ma_devices
    \<Rightarrow> ma_result \<times> (ra_device \<times> 'k ma_devices) \<times> ra_trace_event list" where
  "on_device f s = (case f (fst s) of (error, d, tr) \<Rightarrow> (error, (d, snd s), tr))"

definition open_steps :: "'k audio_env \<Rightarrow> bool \<Rightarrow> bool \<Rightarrow> string ptr \<Rightarrow> string ptr
    \<Rightarrow> (ra_device \<times> 'k ma_devices \<Rightarrow> ma_result \<times> (ra_device \<times> 'k ma_devices) \<times> ra_trace_event list) list" where
  "open_steps env input output input_id output_id =
     map on_device [init_capture env, init_playback env, init_reference env, init_monitor env, init_context env]
     @ (if output then [open_device env ma_device_type_playback output_id] else [])
     @ (if input then [open_device env ma_device_type_capture input_id] else [])"

definition ra_device_open :: "'k audio_env \<Rightarrow> bool \<Rightarrow> bool \<Rightarrow> string ptr \<Rightarrow> string ptr \<Rightarrow> bool
    \<Rightarrow> ma_result \<times> ra_device ptr \<times> 'k ma_devices \<times> ra_trace_event list" where
  "ra_device_open env input output input_id output_id wake =
     (if \<not> env_calloc env then (MA_OUT_OF_MEMORY, NULL, (\<lambda>_. None), [])
      else case foldl open_then (MA_SUCCESS, (zero_device wake, \<lambda>_. None), [Acquire Memory])
                  (open_steps env input output input_id output_id) of
        (error, (d, devs), tr) \<Rightarrow>
          if error \<noteq> MA_SUCCESS then (error, NULL, devs, tr @ ra_device_close devs (Some d)) else (error, Some d, devs, tr))"


section \<open>Resources\<close>

definition ok_flags :: "ra_device \<Rightarrow> (bool \<times> ra_resource) list" where
  "ok_flags d = [(rd_capture_ok d, CaptureRing), (rd_playback_ok d, PlaybackRing), (rd_reference_ok d, ReferenceRing),
     (rd_monitor_ok d, MonitorRing), (rd_context_ok d, Context), (rd_output_ok d, Device ma_device_type_playback),
     (rd_input_ok d, Device ma_device_type_capture)]"

text \<open>What the flags say is held, in the order it is acquired.\<close>

definition held :: "ra_device \<Rightarrow> ra_resource list" where
  "held d = Memory # map snd (filter fst (ok_flags d))"

definition owned :: "ra_device \<Rightarrow> bool" where
  "owned d \<longleftrightarrow> (rd_capture_ok d \<longrightarrow> ownsBuffer (rd_capture d)) \<and> (rd_playback_ok d \<longrightarrow> ownsBuffer (pcm_rb (rd_playback d)))
     \<and> (rd_reference_ok d \<longrightarrow> ownsBuffer (pcm_rb (rd_reference d))) \<and> (rd_monitor_ok d \<longrightarrow> ownsBuffer (pcm_rb (rd_monitor d)))"

text \<open>Everything but the rings and the flags is as \<open>calloc\<close> left it, and the rings made so
  far are fresh.\<close>

definition as_calloc :: "ra_device \<Rightarrow> bool" where
  "as_calloc d \<longleftrightarrow> (\<exists>w. d = (zero_device w)\<lparr>rd_capture := rd_capture d, rd_playback := rd_playback d,
       rd_reference := rd_reference d, rd_monitor := rd_monitor d, rd_context_ok := rd_context_ok d,
       rd_input_ok := rd_input_ok d, rd_output_ok := rd_output_ok d, rd_capture_ok := rd_capture_ok d,
       rd_playback_ok := rd_playback_ok d, rd_reference_ok := rd_reference_ok d, rd_monitor_ok := rd_monitor_ok d\<rparr>)"

definition fresh_rings :: "ra_device \<Rightarrow> bool" where
  "fresh_rings d \<longleftrightarrow> (rd_capture_ok d \<longrightarrow> rb_fresh 30848 (rd_capture d)) \<and> (rd_playback_ok d \<longrightarrow> pcm_fresh 7680 ma_format_f32 2 (rd_playback d))
     \<and> (rd_reference_ok d \<longrightarrow> pcm_fresh 7680 ma_format_f32 2 (rd_reference d))
     \<and> (rd_monitor_ok d \<longrightarrow> pcm_fresh 7680 ma_format_f32 2 (rd_monitor d))"

text \<open>The events of \<open>device.c\<close> itself, and those inside the device of a type.\<close>

definition own :: "ra_trace_event list \<Rightarrow> ra_trace_event list" where
  "own tr = filter (\<lambda>e. case e of Inside ty x \<Rightarrow> False | _ \<Rightarrow> True) tr"

definition inside :: "ma_device_type \<Rightarrow> ra_trace_event list \<Rightarrow> res_event list" where
  "inside ty tr = concat (map (\<lambda>e. case e of Inside ty' x \<Rightarrow> if ty' = ty then [x] else [] | _ \<Rightarrow> []) tr)"

lemma own_simps [simp]: "own [] = []" "own (tr @ tr') = own tr @ own tr'" "own (Acquire r # tr) = Acquire r # own tr"
  "own (Release r # tr) = Release r # own tr" "own (SetClosing # tr) = SetClosing # own tr" "own (map (Inside ty) xs) = []"
  by (simp_all add: own_def filter_empty_conv)

lemma inside_simps [simp]: "inside ty [] = []" "inside ty (tr @ tr') = inside ty tr @ inside ty tr'" "inside ty (Acquire r # tr) = inside ty tr"
  "inside ty (Release r # tr) = inside ty tr" "inside ty (SetClosing # tr) = inside ty tr"
  "inside ty (map (Inside ty') xs) = (if ty' = ty then xs else [])" "inside ty (map Acquire rs) = []"
proof -
  show "inside ty (map (Inside ty') xs) = (if ty' = ty then xs else [])" by (induction xs) (auto simp: inside_def)
  show "inside ty (map Acquire rs) = []" by (induction rs) (auto simp: inside_def)
qed (simp_all add: inside_def)

lemma own_count: "count_list (own tr) (Acquire r) = count_list tr (Acquire r)" "count_list (own tr) (Release r) = count_list tr (Release r)"
  by (induction tr) (auto simp: own_def split: ra_trace_event.splits)

definition view :: "ma_result \<times> (ra_device \<times> 'k ma_devices) \<times> ra_trace_event list \<Rightarrow> ma_result \<times> ra_device \<times> ra_trace_event list" where
  "view s = (case s of (error, (d, devs), tr) \<Rightarrow> (error, d, own tr))"

text \<open>The state after the first \<open>k\<close> steps: the trace is what the flags say, the flags of later
  steps are not set, and those of earlier ring and context steps are, unless one failed.\<close>

definition open_inv :: "nat \<Rightarrow> ma_result \<times> ra_device \<times> ra_trace_event list \<Rightarrow> bool" where
  "open_inv k s \<longleftrightarrow> (case s of (error, d, tr) \<Rightarrow> tr = map Acquire (held d) \<and> as_calloc d \<and> fresh_rings d
     \<and> (\<forall>f\<in>set (drop k (ok_flags d)). \<not> fst f)
     \<and> (error = MA_SUCCESS \<longrightarrow> (\<forall>f\<in>set (take (min k 5) (ok_flags d)). fst f)))"

lemma pcm_fresh_owns: "pcm_fresh n fmt chs p \<Longrightarrow> ownsBuffer (pcm_rb p)"
  by (simp add: pcm_fresh_def rb_fresh_def)

lemma rb_fresh_owns: "rb_fresh n rb \<Longrightarrow> ownsBuffer rb"
  by (simp add: rb_fresh_def)

lemma fresh_rings_owned: "fresh_rings d \<Longrightarrow> owned d"
  using pcm_fresh_owns rb_fresh_owns unfolding fresh_rings_def owned_def by blast

lemma as_calloc_simps [simp]:
  "as_calloc (zero_device w)"
  "as_calloc d \<Longrightarrow> as_calloc (d\<lparr>rd_capture := q\<rparr>)" "as_calloc d \<Longrightarrow> as_calloc (d\<lparr>rd_playback := r\<rparr>)"
  "as_calloc d \<Longrightarrow> as_calloc (d\<lparr>rd_reference := r\<rparr>)" "as_calloc d \<Longrightarrow> as_calloc (d\<lparr>rd_monitor := r\<rparr>)"
  "as_calloc d \<Longrightarrow> as_calloc (d\<lparr>rd_capture_ok := b\<rparr>)" "as_calloc d \<Longrightarrow> as_calloc (d\<lparr>rd_playback_ok := b\<rparr>)"
  "as_calloc d \<Longrightarrow> as_calloc (d\<lparr>rd_reference_ok := b\<rparr>)" "as_calloc d \<Longrightarrow> as_calloc (d\<lparr>rd_monitor_ok := b\<rparr>)"
  "as_calloc d \<Longrightarrow> as_calloc (d\<lparr>rd_context_ok := b\<rparr>)" "as_calloc d \<Longrightarrow> as_calloc (d\<lparr>rd_input_ok := b\<rparr>)"
  "as_calloc d \<Longrightarrow> as_calloc (d\<lparr>rd_output_ok := b\<rparr>)"
  by (cases d, simp add: as_calloc_def zero_device_def)+

text \<open>A ring initialisation succeeds with a fresh ring or reports an error.\<close>

lemma capture_init_result:
  "\<exists>e rb. ma_rb_init sys 30848 NULL NULL (Some r) = (e, Some rb) \<and> (e = MA_SUCCESS \<longrightarrow> rb_fresh 30848 rb)"
proof (cases "c_malloc sys 30887")
  case None
  then show ?thesis
    by (simp add: ma_rb_init_def ma_rb_init_ex_def ma_allocation_callbacks_init_copy_def Let_def
      ma_aligned_malloc_def ma_malloc_def ma_allocation_callbacks_init_default_def ma_align_def)
next
  case (Some a)
  then show ?thesis using ma_rb_init_ok [of 30848 sys a r] by auto
qed

lemma stereo_init_result:
  "\<exists>e p'. ma_pcm_rb_init sys ma_format_f32 2 7680 NULL NULL (Some p) = (e, Some p')
     \<and> (e = MA_SUCCESS \<longrightarrow> pcm_fresh 7680 ma_format_f32 2 p')"
proof (cases "c_malloc sys 61479")
  case None
  then show ?thesis
    by (simp add: ma_pcm_rb_init_def ma_pcm_rb_init_ex_def ma_rb_init_ex_def ma_allocation_callbacks_init_copy_def Let_def
      ma_aligned_malloc_def ma_malloc_def ma_allocation_callbacks_init_default_def ma_align_def ma_get_bytes_per_frame_def)
next
  case (Some a)
  then show ?thesis
    using ma_pcm_rb_init_ok [of ma_format_f32 2 7680 sys a p] by (auto simp: ma_get_bytes_per_frame_def)
qed


text \<open>Each step keeps the invariant and moves it one step on.\<close>

lemmas open_step_defs = open_inv_def open_then_def ok_flags_def held_def

lemma open_then_keeps:
  assumes "open_inv k s" "k \<le> 7" "\<And>d tr. s = (MA_SUCCESS, d, tr) \<Longrightarrow> open_inv (Suc k) (open_then s f)"
  shows "open_inv (Suc k) (open_then s f)"
proof -
  obtain e d tr where s: "s = (e, d, tr)" by (cases s)
  show ?thesis
  proof (cases "e = MA_SUCCESS")
    case True
    then show ?thesis using assms(3) s by simp
  next
    case False
    have "set (drop (Suc k) (ok_flags d)) \<subseteq> set (drop k (ok_flags d))" by (rule set_drop_subset_set_drop) simp
    then show ?thesis using assms(1) False unfolding s open_inv_def open_then_def by auto
  qed
qed

lemma init_capture_inv: "open_inv 0 s \<Longrightarrow> open_inv 1 (open_then s (init_capture env))"
proof (unfold One_nat_def, rule open_then_keeps)
  fix d tr
  assume i: "open_inv 0 s" and s: "s = (MA_SUCCESS, d, tr)"
  obtain e rb where "ma_rb_init (env_libc env 0) 30848 NULL NULL (Some (rd_capture d)) = (e, Some rb)"
    "e = MA_SUCCESS \<longrightarrow> rb_fresh 30848 rb"
    using capture_init_result by blast
  with i show "open_inv (Suc 0) (open_then s (init_capture env))"
    unfolding s by (auto simp: open_step_defs init_capture_def fresh_rings_def)
qed simp_all

lemma init_playback_inv: "open_inv 1 s \<Longrightarrow> open_inv 2 (open_then s (init_playback env))"
proof (unfold Suc_1 [symmetric], rule open_then_keeps)
  fix d tr
  assume i: "open_inv 1 s" and s: "s = (MA_SUCCESS, d, tr)"
  obtain e p where "ma_pcm_rb_init (env_libc env 1) ma_format_f32 2 7680 NULL NULL (Some (rd_playback d)) = (e, Some p)"
    "e = MA_SUCCESS \<longrightarrow> pcm_fresh 7680 ma_format_f32 2 p"
    using stereo_init_result by blast
  with i show "open_inv (Suc 1) (open_then s (init_playback env))"
    unfolding s by (auto simp: open_step_defs init_playback_def fresh_rings_def)
qed simp_all

lemma init_reference_inv: "open_inv 2 s \<Longrightarrow> open_inv 3 (open_then s (init_reference env))"
proof (unfold numeral_3_eq_3 numeral_2_eq_2, rule open_then_keeps)
  fix d tr
  assume i: "open_inv (Suc (Suc 0)) s" and s: "s = (MA_SUCCESS, d, tr)"
  obtain e p where "ma_pcm_rb_init (env_libc env 2) ma_format_f32 2 7680 NULL NULL (Some (rd_reference d)) = (e, Some p)"
    "e = MA_SUCCESS \<longrightarrow> pcm_fresh 7680 ma_format_f32 2 p"
    using stereo_init_result by blast
  with i show "open_inv (Suc (Suc (Suc 0))) (open_then s (init_reference env))"
    unfolding s by (auto simp: open_step_defs init_reference_def fresh_rings_def)
qed simp_all

lemma init_monitor_inv: "open_inv 3 s \<Longrightarrow> open_inv 4 (open_then s (init_monitor env))"
proof -
  have "open_inv (Suc 3) (open_then s (init_monitor env))" if "open_inv 3 s"
  proof (rule open_then_keeps [OF that])
    fix d tr
    assume s: "s = (MA_SUCCESS, d, tr)"
    obtain e p where "ma_pcm_rb_init (env_libc env 3) ma_format_f32 2 7680 NULL NULL (Some (rd_monitor d)) = (e, Some p)"
      "e = MA_SUCCESS \<longrightarrow> pcm_fresh 7680 ma_format_f32 2 p"
      using stereo_init_result by blast
    with that show "open_inv (Suc 3) (open_then s (init_monitor env))"
      unfolding s by (auto simp: open_step_defs init_monitor_def fresh_rings_def numeral_3_eq_3)
  qed simp
  then show "open_inv 3 s \<Longrightarrow> open_inv 4 (open_then s (init_monitor env))" by simp
qed


lemma fresh_rings_simps [simp]:
  "fresh_rings (d\<lparr>rd_context_ok := b\<rparr>) = fresh_rings d" "fresh_rings (d\<lparr>rd_input_ok := b\<rparr>) = fresh_rings d"
  "fresh_rings (d\<lparr>rd_output_ok := b\<rparr>) = fresh_rings d"
  by (simp_all add: fresh_rings_def)

lemma init_context_inv: "open_inv 4 s \<Longrightarrow> open_inv 5 (open_then s (init_context env))"
proof -
  have "open_inv (Suc 4) (open_then s (init_context env))" if "open_inv 4 s"
  proof (rule open_then_keeps [OF that])
    fix d tr
    assume s: "s = (MA_SUCCESS, d, tr)"
    show "open_inv (Suc 4) (open_then s (init_context env))"
      using that unfolding s by (simp add: open_step_defs init_context_def eval_nat_numeral)
  qed simp
  then show "open_inv 4 s \<Longrightarrow> open_inv 5 (open_then s (init_context env))" by simp
qed

lemma open_device_cases:
  "(\<exists>e devs' tr. open_device env ty sel (d, devs) = (e, (d, devs'), tr) \<and> e \<noteq> MA_SUCCESS \<and> own tr = [])
   \<or> (\<exists>e devs' tr. open_device env ty sel (d, devs) = (e, (if ty = ma_device_type_capture then d\<lparr>rd_input_ok := True\<rparr>
          else d\<lparr>rd_output_ok := True\<rparr>, devs'), tr) \<and> own tr = [Acquire (Device ty)])"
proof -
  have ty: "cfg_deviceType (device_config ty devid) = ty" for devid by (simp add: device_config_def ma_device_config_init_def)
  show ?thesis unfolding open_device_def init_and_start_def Let_def ty
    by (cases "select_device env ty sel"; cases "init_call env d (device_config ty (snd (select_device env ty sel)))";
      cases "ma_device_start (env_device env (device_config ty (snd (select_device env ty sel))))
        (fst (snd (init_call env d (device_config ty (snd (select_device env ty sel))))))") auto
qed

lemma open_output_inv: "open_inv 5 (view s) \<Longrightarrow> open_inv 6 (view (open_then s (open_device env ma_device_type_playback sel)))"
proof -
  assume i: "open_inv 5 (view s)"
  obtain e d devs tr where s: "s = (e, (d, devs), tr)" by (metis prod.exhaust)
  show ?thesis
  proof (cases "e = MA_SUCCESS")
    case True
    show ?thesis using i open_device_cases [of env ma_device_type_playback sel d devs] unfolding s True
      by (elim disjE exE conjE) (simp_all add: view_def open_step_defs eval_nat_numeral)
  next
    case False
    then show ?thesis using i unfolding s by (simp add: view_def open_step_defs eval_nat_numeral)
  qed
qed

lemma open_input_inv: "open_inv 6 (view s) \<Longrightarrow> open_inv 7 (view (open_then s (open_device env ma_device_type_capture sel)))"
proof -
  assume i: "open_inv 6 (view s)"
  obtain e d devs tr where s: "s = (e, (d, devs), tr)" by (metis prod.exhaust)
  show ?thesis
  proof (cases "e = MA_SUCCESS")
    case True
    show ?thesis using i open_device_cases [of env ma_device_type_capture sel d devs] unfolding s True
      by (elim disjE exE conjE) (simp_all add: view_def open_step_defs eval_nat_numeral)
  next
    case False
    then show ?thesis using i unfolding s by (simp add: view_def open_step_defs eval_nat_numeral)
  qed
qed

lemma open_inv_skip: "open_inv 5 s \<Longrightarrow> open_inv 6 s" "open_inv 6 s \<Longrightarrow> open_inv 7 s"
  by (auto simp: open_inv_def ok_flags_def eval_nat_numeral split: prod.splits)

text \<open>The steps on the rings and the context, seen without the devices.\<close>

definition plain_step :: "(ra_device \<Rightarrow> ma_result \<times> ra_device \<times> ra_trace_event list) \<Rightarrow> bool" where
  "plain_step f \<longleftrightarrow> (\<forall>d. case f d of (e, d', tr) \<Rightarrow> own tr = tr \<and> (\<forall>ty. inside ty tr = []) \<and>
     rd_input_ok d' = rd_input_ok d \<and> rd_output_ok d' = rd_output_ok d)"

lemma plain_steps: "plain_step (init_capture env)" "plain_step (init_playback env)" "plain_step (init_reference env)" "plain_step (init_monitor env)"
  "plain_step (init_context env)"
  by (auto simp: plain_step_def init_capture_def init_playback_def init_reference_def init_monitor_def init_context_def split: prod.splits)

lemma view_step: "plain_step f \<Longrightarrow> view (open_then s (on_device f)) = open_then (view s) f"
  by (auto simp: plain_step_def view_def open_then_def on_device_def split: prod.splits)

text \<open>What the devices hold. A device whose flag is set was opened, and closing it releases
  everything; of another, nothing is held, or what a failed \<open>ma_device_init\<close> has left.\<close>

definition dev_flag :: "ma_device_type \<Rightarrow> ra_device \<Rightarrow> bool" where
  "dev_flag ty d \<longleftrightarrow> ty = ma_device_type_capture \<and> rd_input_ok d \<or> ty = ma_device_type_playback \<and> rd_output_ok d"

definition dev_opened :: "'k audio_env \<Rightarrow> ma_device_type \<Rightarrow> 'k ma_devices \<Rightarrow> ra_trace_event list \<Rightarrow> bool" where
  "dev_opened env ty devs tr \<longleftrightarrow> (\<exists>devid dev. devs ty = Some (env_device env (device_config ty devid), dev) \<and>
     (\<forall>r. dev_held r (inside ty tr @ snd (ma_device_uninit (env_device env (device_config ty devid)) (Some dev)))
        = (if r = BackendDevice \<and> \<not> de_onDeviceUninit (env_device env (device_config ty devid)) then 1 else 0)))"

definition dev_failed :: "'k audio_env \<Rightarrow> ma_device_type \<Rightarrow> ma_result \<Rightarrow> ra_trace_event list \<Rightarrow> bool" where
  "dev_failed env ty error tr \<longleftrightarrow> error \<noteq> MA_SUCCESS \<and>
     (\<exists>d devid pDevice. init_call env d (device_config ty devid) = (error, pDevice, inside ty tr))"

definition devs_inv :: "'k audio_env \<Rightarrow> ma_result \<times> (ra_device \<times> 'k ma_devices) \<times> ra_trace_event list \<Rightarrow> bool" where
  "devs_inv env s \<longleftrightarrow> (case s of (error, (d, devs), tr) \<Rightarrow>
     \<forall>ty. if dev_flag ty d then dev_opened env ty devs tr else inside ty tr = [] \<or> dev_failed env ty error tr)"

lemma dev_opened_cong: "inside ty tr' = inside ty tr \<Longrightarrow> devs' ty = devs ty \<Longrightarrow> dev_opened env ty devs' tr' = dev_opened env ty devs tr"
  by (simp add: dev_opened_def)

lemma dev_failed_cong: "inside ty tr' = inside ty tr \<Longrightarrow> dev_failed env ty e tr' = dev_failed env ty e tr"
  by (simp add: dev_failed_def)

lemma dev_failed_success [simp]: "\<not> dev_failed env ty MA_SUCCESS tr"
  by (simp add: dev_failed_def)

lemma devs_invD:
  assumes "devs_inv env (e, (d, devs), tr)"
  shows "dev_flag ty d \<Longrightarrow> dev_opened env ty devs tr" "\<not> dev_flag ty d \<Longrightarrow> inside ty tr = [] \<or> dev_failed env ty e tr"
proof -
  have "if dev_flag ty d then dev_opened env ty devs tr else inside ty tr = [] \<or> dev_failed env ty e tr"
    using assms unfolding devs_inv_def prod.case by (rule spec)
  then show "dev_flag ty d \<Longrightarrow> dev_opened env ty devs tr" "\<not> dev_flag ty d \<Longrightarrow> inside ty tr = [] \<or> dev_failed env ty e tr" by simp_all
qed

lemma devs_inv_cong:
  assumes "devs_inv env (e, (d, devs), tr)" "e = MA_SUCCESS \<or> e' = e" "\<And>ty. inside ty tr' = inside ty tr"
    "\<And>ty. dev_flag ty d' = dev_flag ty d"
  shows "devs_inv env (e', (d', devs), tr')"
proof -
  have "if dev_flag ty d' then dev_opened env ty devs tr' else inside ty tr' = [] \<or> dev_failed env ty e' tr'" for ty
    using devs_invD [OF assms(1), of ty] assms(2,3,4) dev_opened_cong [OF assms(3), of devs ty devs env] dev_failed_cong [OF assms(3), of env ty e]
    by auto
  then show ?thesis by (simp add: devs_inv_def)
qed

lemma devs_inv_step:
  assumes "devs_inv env s" "plain_step f"
  shows "devs_inv env (open_then s (on_device f))"
proof -
  obtain e d devs tr where s: "s = (e, (d, devs), tr)" by (metis prod.exhaust)
  obtain e' d' tr' where f: "f d = (e', d', tr')" by (metis prod.exhaust)
  have "\<forall>ty. inside ty tr' = [] \<and> dev_flag ty d' = dev_flag ty d"
    using assms(2) [unfolded plain_step_def, rule_format, of d] by (simp add: f dev_flag_def)
  then have "devs_inv env (e', (d', devs), tr @ tr')" if "e = MA_SUCCESS" using that assms(1) by (auto simp: s intro: devs_inv_cong)
  then show ?thesis using assms(1) by (simp add: s f open_then_def on_device_def)
qed

lemma init_and_start_devs:
  assumes inv: "devs_inv env (MA_SUCCESS, (d, devs), tr)" and flag: "\<not> dev_flag ty d" and ty: "ty \<in> {ma_device_type_playback, ma_device_type_capture}"
    and i: "init_and_start env (device_config ty devid) (d, devs) = (e, (d', devs'), tr')"
  shows "devs_inv env (e, (d', devs'), tr @ tr')"
proof -
  let ?c = "device_config ty devid"
  let ?a = "env_device env ?c"
  have t: "cfg_deviceType ?c = ty" by (simp add: device_config_def ma_device_config_init_def)
  have nil: "inside ty tr = []" using devs_invD(2) [OF inv flag] by simp
  obtain e0 p0 t0 where c: "init_call env d ?c = (e0, p0, t0)" by (metis prod.exhaust)
  have other: "(if dev_flag ty' d' then dev_opened env ty' devs' (tr @ tr') else inside ty' (tr @ tr') = [] \<or> dev_failed env ty' e (tr @ tr'))"
    if "ty' \<noteq> ty" for ty'
  proof -
    have "inside ty' tr' = []" "dev_flag ty' d' = dev_flag ty' d" "devs' ty' = devs ty'"
      using i that ty c by (auto simp: init_and_start_def Let_def t dev_flag_def split: prod.splits if_splits)
    then show ?thesis using devs_invD [OF inv, of ty'] dev_opened_cong [of ty' "tr @ tr'" tr devs' devs env] by auto
  qed
  have this_ty: "if dev_flag ty d' then dev_opened env ty devs' (tr @ tr') else inside ty (tr @ tr') = [] \<or> dev_failed env ty e (tr @ tr')"
  proof (cases "e0 = MA_SUCCESS")
    case True
    have m: "ma_device_init ?a (Some (init_config (env_now env) d ?c)) (Some (zero_device_of ?a (config_device ?a (init_config (env_now env) d ?c)))) = (MA_SUCCESS, p0, t0)"
      using c True by (simp add: init_call_def Let_def)
    then obtain dev where dev: "p0 = Some dev" "dev_state dev = ma_device_state_stopped" using init_success by blast
    obtain e1 dev1 where st: "ma_device_start ?a (Some dev) = (e1, Some dev1)"
      "snd (ma_device_uninit ?a (Some dev1)) = snd (ma_device_uninit ?a (Some dev))"
      using start_keeps_resources [OF dev(2)] by blast
    have r: "d' = (if ty = ma_device_type_capture then d\<lparr>rd_input_ok := True\<rparr> else d\<lparr>rd_output_ok := True\<rparr>)" "devs' ty = Some (?a, dev1)"
      "inside ty tr' = t0"
      using i by (auto simp: init_and_start_def Let_def t c True dev(1) st(1) split: if_splits)
    have "dev_held x (t0 @ snd (ma_device_uninit ?a (Some dev1))) = (if x = BackendDevice \<and> \<not> de_onDeviceUninit ?a then 1 else 0)" for x
      using init_uninit_balanced [OF m [unfolded dev(1)], of x] st(2) by simp
    then show ?thesis using r ty nil by (auto simp: dev_opened_def dev_flag_def)
  next
    case False
    then have "d' = d" "e = e0" "inside ty tr' = t0" using i by (auto simp: init_and_start_def Let_def t c)
    then show ?thesis using flag nil c False by (auto simp: dev_failed_def)
  qed
  show ?thesis unfolding devs_inv_def prod.case
  proof
    fix ty'
    show "if dev_flag ty' d' then dev_opened env ty' devs' (tr @ tr') else inside ty' (tr @ tr') = [] \<or> dev_failed env ty' e (tr @ tr')"
    proof (cases "ty' = ty")
      case True
      show ?thesis unfolding True by (rule this_ty)
    qed (rule other)
  qed
qed

lemma open_device_devs:
  assumes "devs_inv env s" "\<And>e d devs tr. s = (e, (d, devs), tr) \<Longrightarrow> e = MA_SUCCESS \<Longrightarrow> \<not> dev_flag ty d" "ty \<in> {ma_device_type_playback, ma_device_type_capture}"
  shows "devs_inv env (open_then s (open_device env ty sel))"
proof -
  obtain e d devs tr where s: "s = (e, (d, devs), tr)" by (metis prod.exhaust)
  show ?thesis
  proof (cases "e = MA_SUCCESS \<and> fst (select_device env ty sel) = MA_SUCCESS")
    case True
    obtain e' d' devs' tr' where i: "init_and_start env (device_config ty (snd (select_device env ty sel))) (d, devs) = (e', (d', devs'), tr')"
      by (metis prod.exhaust)
    then have "open_then s (open_device env ty sel) = (e', (d', devs'), tr @ tr')"
      using True by (cases "select_device env ty sel") (simp add: s open_then_def open_device_def)
    moreover have "devs_inv env (MA_SUCCESS, (d, devs), tr)" using assms(1) True s by simp
    ultimately show ?thesis using init_and_start_devs [OF _ _ assms(3) i, of tr] assms(2) [OF s] True by simp
  next
    case False
    moreover have "devs_inv env (e', (d, devs), tr)" if "e = MA_SUCCESS" for e' using that assms(1) by (auto simp: s intro: devs_inv_cong)
    ultimately show ?thesis using assms(1)
      by (cases "select_device env ty sel") (auto simp: s open_then_def open_device_def)
  qed
qed

lemma open_steps_inv:
  fixes env :: "'k audio_env" and wake :: bool
  defines "z \<equiv> (MA_SUCCESS, (zero_device wake, \<lambda>_. None), [Acquire Memory]) :: ma_result \<times> (ra_device \<times> 'k ma_devices) \<times> ra_trace_event list"
  shows "open_inv 7 (view (foldl open_then z (open_steps env input output input_id output_id))) \<and>
    devs_inv env (foldl open_then z (open_steps env input output input_id output_id))"
proof -
  have v: "open_inv 0 (view z)"
    by (simp add: z_def view_def open_step_defs fresh_rings_def) (simp add: zero_device_def)
  have w: "devs_inv env z" by (simp add: z_def devs_inv_def dev_flag_def zero_device_def)
  let ?s = "open_then (open_then (open_then (open_then (open_then z (on_device (init_capture env))) (on_device (init_playback env)))
    (on_device (init_reference env))) (on_device (init_monitor env))) (on_device (init_context env))"
  have s: "open_inv 5 (view ?s)" unfolding view_step [OF plain_steps(1)] view_step [OF plain_steps(2)] view_step [OF plain_steps(3)]
      view_step [OF plain_steps(4)] view_step [OF plain_steps(5)]
    by (intro init_context_inv init_monitor_inv init_reference_inv init_playback_inv init_capture_inv v)
  have sd: "devs_inv env ?s" by (intro devs_inv_step plain_steps w)
  have no: "\<not> dev_flag ma_device_type_playback d" if "?s = (e, (d, devs), tr)" for e d devs tr
    using s unfolding that by (simp add: view_def open_inv_def ok_flags_def dev_flag_def eval_nat_numeral)
  let ?s6 = "if output then open_then ?s (open_device env ma_device_type_playback output_id) else ?s"
  let ?s7 = "if input then open_then ?s6 (open_device env ma_device_type_capture input_id) else ?s6"
  have s6: "open_inv 6 (view ?s6)" using open_inv_skip(1) [OF s] open_output_inv [OF s] by simp
  have sd6: "devs_inv env ?s6" using sd no by (auto intro!: open_device_devs)
  have ni: "\<not> dev_flag ma_device_type_capture d" if "?s6 = (e, (d, devs), tr)" for e d devs tr
    using s6 unfolding that by (simp add: view_def open_inv_def ok_flags_def dev_flag_def eval_nat_numeral)
  have "open_inv 7 (view ?s7)" using open_inv_skip(2) [OF s6] open_input_inv [OF s6] by simp
  moreover have "devs_inv env ?s7" using sd6 ni open_device_devs [OF sd6, of ma_device_type_capture input_id] by auto
  moreover have "foldl open_then z (open_steps env input output input_id output_id) = ?s7"
    by (cases input; cases "output") (simp_all only: open_steps_def list.map foldl_append foldl_Cons foldl_Nil if_True if_False)
  ultimately show ?thesis by simp
qed

text \<open>Closing releases exactly what is held.\<close>

lemma count_opt: "count_list (if b then [x] else []) y = (if b \<and> x = y then 1 else 0)"
  by (cases b; cases "x = y") simp_all

lemma filter_opt: "map snd (filter fst ((b, r) # xs)) = (if b then [r] else []) @ map snd (filter fst xs)"
  by simp

lemma count_none: "(\<And>x. x \<in> set xs \<Longrightarrow> x \<noteq> y) \<Longrightarrow> count_list xs y = 0"
  by (induction xs) auto

lemma uninit_counts: "count_list (uninit_device devs ty) (Release r) = (if r = Device ty then 1 else 0)"
  "count_list (uninit_device devs ty) (Acquire r) = 0"
  by (auto simp: uninit_device_def split: option.splits intro!: count_none)

lemma count_if: "count_list (if b then xs else []) y = (if b then count_list xs y else 0)"
  by simp

lemma close_releases_held:
  assumes "owned d"
  shows "count_list (ra_device_close devs (Some d)) (Release r) = count_list (held d) r"
    "count_list (ra_device_close devs (Some d)) (Acquire r) = 0"
proof -
  have u: "(rd_capture_ok d \<and> ma_rb_uninit (Some (rd_capture d))) = rd_capture_ok d"
    "(rd_playback_ok d \<and> ma_pcm_rb_uninit (Some (rd_playback d))) = rd_playback_ok d"
    "(rd_reference_ok d \<and> ma_pcm_rb_uninit (Some (rd_reference d))) = rd_reference_ok d"
    "(rd_monitor_ok d \<and> ma_pcm_rb_uninit (Some (rd_monitor d))) = rd_monitor_ok d"
    using assms by (auto simp: owned_def ma_rb_uninit_def ma_pcm_rb_uninit_def)
  show "count_list (ra_device_close devs (Some d)) (Release r) = count_list (held d) r"
    unfolding ra_device_close_def option.case u held_def ok_flags_def filter_opt
    by (simp only: count_list.simps count_list_append count_opt count_if uninit_counts) auto
  show "count_list (ra_device_close devs (Some d)) (Acquire r) = 0"
    unfolding ra_device_close_def option.case u
    by (simp only: count_list.simps count_list_append count_opt count_if uninit_counts) simp
qed

lemma close_inside: "inside ty (ra_device_close devs (Some d))
    = (if dev_flag ty d then case devs ty of None \<Rightarrow> [] | Some (env, dev) \<Rightarrow> snd (ma_device_uninit env (Some dev)) else [])"
  by (auto simp: ra_device_close_def uninit_device_def dev_flag_def split: option.splits)

text \<open>After closing, a device that was opened holds nothing, given that the backend can close it.\<close>

definition can_close :: "'k audio_env \<Rightarrow> bool" where
  "can_close env \<longleftrightarrow> (\<forall>config. de_onDeviceUninit (env_device env config))"

lemma opened_close_inside:
  assumes "devs_inv env (e, (d, devs), tr)" "can_close env"
  shows "(\<forall>r. dev_held r (inside ty (tr @ ra_device_close devs (Some d))) = 0) \<or> dev_failed env ty e (tr @ ra_device_close devs (Some d))"
proof (cases "dev_flag ty d")
  case True
  obtain devid dev where "devs ty = Some (env_device env (device_config ty devid), dev)"
    "\<forall>r. dev_held r (inside ty tr @ snd (ma_device_uninit (env_device env (device_config ty devid)) (Some dev))) = 0"
    using devs_invD(1) [OF assms(1) True] assms(2) unfolding dev_opened_def can_close_def by auto
  with True show ?thesis by (simp add: close_inside)
next
  case False
  then have "inside ty (tr @ ra_device_close devs (Some d)) = inside ty tr" by (simp add: close_inside)
  with devs_invD(2) [OF assms(1) False] show ?thesis by (auto simp: dev_failed_def)
qed

lemma count_list_map_Acquire [simp]:
  "count_list (map Acquire rs) (Acquire r) = count_list rs r" "count_list (map Acquire rs) (Release r) = 0"
  by (induction rs) auto

lemma held_distinct: "count_list (held d) r \<le> 1"
  unfolding held_def ok_flags_def filter_opt
  by (simp only: count_list.simps count_list_append count_opt) (cases r, auto)

lemma ra_device_open_cases:
  assumes "ra_device_open env input outp input_id output_id wake = (e, p, devs, tr)"
  obtains "e \<noteq> MA_SUCCESS" "p = NULL" "tr = []" "\<not> env_calloc env"
  | d tr' where "e \<noteq> MA_SUCCESS" "p = NULL" "tr = tr' @ ra_device_close devs (Some d)" "own tr' = map Acquire (held d)" "owned d"
      "devs_inv env (e, (d, devs), tr')"
  | d where "e = MA_SUCCESS" "p = Some d" "own tr = map Acquire (held d)" "owned d" "open_inv 7 (e, d, own tr)" "devs_inv env (e, (d, devs), tr)"
proof -
  obtain e' d devs' tr' where f: "foldl open_then (MA_SUCCESS, (zero_device wake, \<lambda>_. None), [Acquire Memory])
      (open_steps env input outp input_id output_id) = (e', (d, devs'), tr')"
    by (metis prod.exhaust)
  have i: "open_inv 7 (e', d, own tr')" "devs_inv env (e', (d, devs'), tr')"
    using open_steps_inv [of wake env input outp input_id output_id] unfolding f by (simp_all add: view_def)
  then have "own tr' = map Acquire (held d)" "owned d" using fresh_rings_owned by (auto simp: open_inv_def)
  then show thesis
    using assms f i that by (auto simp: ra_device_open_def split: if_splits)
qed

text \<open>A device that opened is ready: empty rings, everything at its start.\<close>

lemma opened_ready:
  assumes "open_inv 7 (MA_SUCCESS, d, tr)"
  shows "ra_inv d" "i < 2 \<Longrightarrow> rd_queue d i = []" "capture_frames (rd_capture d) = []"
    "pcm_contents (rd_reference d) = []" "cap_prefix d = []"
proof -
  have f: "rd_capture_ok d" "rd_playback_ok d" "rd_reference_ok d" "rd_monitor_ok d" and fr: "fresh_rings d"
    using assms by (simp_all add: open_inv_def ok_flags_def eval_nat_numeral)
  obtain w where w: "d = (zero_device w)\<lparr>rd_capture := rd_capture d, rd_playback := rd_playback d,
       rd_reference := rd_reference d, rd_monitor := rd_monitor d, rd_context_ok := rd_context_ok d,
       rd_input_ok := rd_input_ok d, rd_output_ok := rd_output_ok d, rd_capture_ok := rd_capture_ok d,
       rd_playback_ok := rd_playback_ok d, rd_reference_ok := rd_reference_ok d, rd_monitor_ok := rd_monitor_ok d\<rparr>"
    using assms by (auto simp: open_inv_def as_calloc_def)
  have z: "rd_written d = [0, 0]" "rd_consumed d = [0, 0]" "rd_discard d = [0, 0]" "rd_captured d = 0"
    "length (fr_samples (rd_pending d)) = 3840"
    by (subst w, simp add: zero_device_def)+
  have r: "rb_fresh 30848 (rd_capture d)" "pcm_fresh 7680 ma_format_f32 2 (rd_playback d)"
    "pcm_fresh 7680 ma_format_f32 2 (rd_reference d)" "pcm_fresh 7680 ma_format_f32 2 (rd_monitor d)"
    using fr f by (simp_all add: fresh_rings_def)
  have st: "stereo_ring p" "pcm_contents p = []" if "pcm_fresh 7680 ma_format_f32 2 p" for p
    using that by (simp_all add: pcm_fresh_def stereo_ring_def)
  have c: "capture_ring (rd_capture d)" using r(1) by (simp add: rb_fresh_def capture_ring_def)
  show "ra_inv d" using z c st [OF r(2)] st [OF r(3)] st [OF r(4)]
    by (simp add: ra_inv_def rd_ring_ok_def rd_ring_def)
  show "rd_queue d i = []" if "i < 2" using st [OF r(2)] st [OF r(4)] by (simp add: rd_queue_def rd_ring_def)
  show "capture_frames (rd_capture d) = []" using r(1) by (simp add: rb_fresh_def capture_frames_def capture_cells_def)
  show "pcm_contents (rd_reference d) = []" by (rule st [OF r(3)])
  show "cap_prefix d = []" using z by (simp add: cap_prefix_def)
qed

section \<open>Identifier strings are unique\<close>

definition hex_byte :: "u8 \<Rightarrow> string" where
  "hex_byte b = [hex_digits ! unat (drop_bit 4 b), hex_digits ! unat (b AND 15)]"

lemma nibbles_less: "unat (drop_bit 4 b) < 16" "unat (b AND 15) < 16" for b :: u8
proof -
  have "unat b < 256" using unsigned_less [of b] by simp
  then show "unat (drop_bit 4 b) < 16" by (simp add: drop_bit_eq_div unat_div)
  have "b AND 15 = take_bit 4 b" by (simp add: take_bit_eq_mask mask_numeral)
  then show "unat (b AND 15) < 16" by (simp add: take_bit_eq_mod unat_mod)
qed

lemma hex_byte_inj: "hex_byte a = hex_byte b \<Longrightarrow> a = b"
proof -
  assume eq: "hex_byte a = hex_byte b"
  have d: "distinct hex_digits" "length hex_digits = 16" by (simp_all add: hex_digits_def)
  have hi: "drop_bit 4 a = drop_bit 4 b"
    using eq nibbles_less(1) [of a] nibbles_less(1) [of b] nth_eq_iff_index_eq [OF d(1)] d(2)
    by (simp add: hex_byte_def word_unat_eq_iff)
  have lo: "a AND 15 = b AND 15"
    using eq nibbles_less(2) [of a] nibbles_less(2) [of b] nth_eq_iff_index_eq [OF d(1)] d(2)
    by (simp add: hex_byte_def word_unat_eq_iff)
  have "c = push_bit 4 (drop_bit 4 c) + (c AND 15)" for c :: u8
    using bits_ident [of 4 c] by (simp add: take_bit_eq_mask mask_numeral)
  then show "a = b" using hi lo by metis
qed

lemma length_hex_byte: "length (hex_byte b) = 2"
  by (simp add: hex_byte_def)

lemma hex_concat_inj: "concat (map hex_byte xs) = concat (map hex_byte ys) \<Longrightarrow> xs = ys"
proof (induction xs arbitrary: ys)
  case Nil
  then show ?case by (cases ys) (auto simp: hex_byte_def)
next
  case (Cons x xs)
  then obtain y zs where ys: "ys = y # zs" by (cases ys) (auto simp: hex_byte_def)
  have "hex_byte x = hex_byte y" "concat (map hex_byte xs) = concat (map hex_byte zs)"
    using Cons.prems append_eq_append_conv [of "hex_byte x" "hex_byte y"] by (simp_all add: ys length_hex_byte)
  then show ?case using Cons.IH ys hex_byte_inj by auto
qed

lemma id_length_ok: "id_length n bytes \<le> n \<and> (\<forall>i < n. id_length n bytes \<le> i \<longrightarrow> bytes ! i = 0)"
  by (induction n) (auto simp: less_Suc_eq)

lemma id_string_eq: "id_string bytes = concat (map hex_byte (take (id_length (length bytes) bytes) bytes))"
  unfolding id_string_def Let_def hex_byte_def [abs_def] by (rule refl)

lemma id_string_inj:
  assumes "length a = length b" "id_string a = id_string b"
  shows "a = b"
proof -
  let ?n = "id_length (length a) a" and ?m = "id_length (length b) b"
  have t: "take ?n a = take ?m b" using assms(2) unfolding id_string_eq by (rule hex_concat_inj)
  have la: "?n \<le> length a" "\<forall>i < length a. ?n \<le> i \<longrightarrow> a ! i = 0" using id_length_ok by auto
  have lb: "?m \<le> length b" "\<forall>i < length b. ?m \<le> i \<longrightarrow> b ! i = 0" using id_length_ok by auto
  have nm: "?n = ?m" using arg_cong [OF t, of length] la(1) lb(1) by simp
  show ?thesis
  proof (rule nth_equalityI [OF assms(1)])
    fix i
    assume i: "i < length a"
    show "a ! i = b ! i"
    proof (cases "i < ?n")
      case True
      then show ?thesis using t nm by (metis nth_take)
    next
      case False
      then show ?thesis using i la(2) lb(2) nm assms(1) by simp
    qed
  qed
qed

text \<open>The string fits the 513 bytes the callers reserve.\<close>

lemma length_id_string: "length (id_string bytes) \<le> 2 * length bytes"
proof -
  have "length (concat (map hex_byte xs)) = 2 * length xs" for xs
    by (induction xs) (simp_all add: hex_byte_def)
  then show ?thesis using id_length_ok [of "length bytes" bytes] by (simp add: id_string_eq)
qed

text \<open>A listed device is found again by its string.\<close>

lemma select_listed:
  assumes "env_context_init env = MA_SUCCESS"
    and "ma_context_get_devices (env_backend env) (Some empty_context) = (MA_SUCCESS, outs, ins, ctx)"
    and d: "d \<in> set (if ty = ma_device_type_capture then ins else outs)" "id_string (di_id d) \<noteq> []"
    and len: "\<forall>d \<in> set outs \<union> set ins. length (di_id d) = sizeof_ma_device_id"
  shows "select_device env ty (Some (id_string (di_id d))) = (MA_SUCCESS, Some (di_id d))"
proof -
  let ?l = "if ty = ma_device_type_capture then ins else outs"
  have sub: "set ?l \<subseteq> set outs \<union> set ins" by auto
  obtain e where e: "List.find (\<lambda>x. id_string (di_id x) = id_string (di_id d)) ?l = Some e"
    using d(1) by (cases "List.find (\<lambda>x. id_string (di_id x) = id_string (di_id d)) ?l") (auto simp: find_None_iff)
  then have "e \<in> set ?l" "id_string (di_id e) = id_string (di_id d)" by (auto simp: find_Some_iff in_set_conv_nth)
  then have "di_id e = di_id d" using id_string_inj len d(1) sub by (metis subsetD)
  then show ?thesis using e assms(2) d(2) by (simp add: select_device_def)
qed

lemma select_unlisted:
  assumes "ma_context_get_devices (env_backend env) (Some empty_context) = (MA_SUCCESS, outs, ins, ctx)"
    and "x \<noteq> []" "x \<notin> (\<lambda>d. id_string (di_id d)) ` set (if ty = ma_device_type_capture then ins else outs)"
  shows "select_device env ty (Some x) = (MA_NO_DEVICE, NULL)"
proof -
  have "List.find (\<lambda>d. id_string (di_id d) = x) (if ty = ma_device_type_capture then ins else outs) = None"
    using assms(3) by (auto simp: find_None_iff)
  then show ?thesis using assms(1,2) by (simp add: select_device_def)
qed

section \<open>An idle device\<close>

text \<open>The state right after opening, spelt out: empty rings over zeroed buffers.\<close>

definition idle_ring :: ma_pcm_rb where
  "idle_ring = zero_pcm_rb\<lparr>pcm_format := ma_format_f32, pcm_channels := 2,
     pcm_rb := zero_rb\<lparr>pBuffer := replicate 61440 0, subbufferSizeInBytes := 61440, ownsBuffer := True\<rparr>\<rparr>"

definition idle_capture :: ma_rb where
  "idle_capture = zero_rb\<lparr>pBuffer := replicate 30848 0, subbufferSizeInBytes := 30848, ownsBuffer := True\<rparr>"

definition idle_device :: ra_device where
  "idle_device = (zero_device True)\<lparr>rd_capture := idle_capture, rd_playback := idle_ring,
     rd_reference := idle_ring, rd_monitor := idle_ring, rd_capture_ok := True, rd_playback_ok := True,
     rd_reference_ok := True, rd_monitor_ok := True, rd_context_ok := True\<rparr>"

lemma idle_ring_ok: "stereo_ring idle_ring" "pcm_contents idle_ring = []"
  by (simp_all add: stereo_ring_def idle_ring_def pcm_wf_def rb_wf_def rb_view_defs offset_defs pcm_bpf_def
    ma_pcm_rb_get_bpf_def ma_get_bytes_per_frame_def zero_pcm_rb_def zero_rb_def pcm_cap_def pcm_contents_def
   )

lemma idle_capture_ok: "capture_ring idle_capture" "capture_frames idle_capture = []"
  by (simp_all add: capture_ring_def idle_capture_def rb_wf_def rb_view_defs offset_defs zero_rb_def
    capture_frames_def capture_cells_def)

lemma idle_device_ok:
  "ra_inv idle_device" "rd_queue idle_device i = []" "rd_ring idle_device i = idle_ring"
  "rd_written idle_device = [0, 0]" "capture_frames (rd_capture idle_device) = []" "cap_prefix idle_device = []"
  "rd_capture idle_device = idle_capture" "rd_reference idle_device = idle_ring" "rd_epoch idle_device = 0"
  "rd_clock idle_device = 0"
  by (simp_all add: ra_inv_def rd_ring_ok_def rd_ring_def rd_queue_def cap_prefix_def idle_device_def zero_device_def
    idle_ring_ok idle_capture_ok)

definition zero_clock :: "nat \<Rightarrow> fval" where
  "zero_clock t = FNum False 0"

lemma zero_clock_ok: "clock_ok zero_clock"
  by (simp add: clock_ok_def zero_clock_def)

lemma id_string_nonempty: "bytes \<noteq> [] \<Longrightarrow> id_string bytes \<noteq> []"
proof -
  assume "bytes \<noteq> []"
  moreover have "0 < n \<Longrightarrow> 0 < id_length n bytes" for n by (induction n) auto
  ultimately have "take (id_length (length bytes) bytes) bytes \<noteq> []" by auto
  then obtain b bs where "take (id_length (length bytes) bytes) bytes = b # bs" by (cases "take (id_length (length bytes) bytes) bytes") auto
  then show ?thesis by (simp add: id_string_eq hex_byte_def)
qed

text \<open>A device with 960 frames of amplitude one half to play, and an environment with one
  microphone.\<close>

definition half_frame :: "u8 list" where
  "half_frame = [0, 0, 0, 63, 0, 0, 0, 63]"

definition playing_device :: ra_device where
  "playing_device = snd (ra_device_write idle_device (concat (replicate 960 half_frame)) 0)"

lemma playing_device_ok:
  "ra_inv playing_device" "rd_queue playing_device 0 = replicate 960 half_frame" "rd_queue playing_device (Suc 0) = []"
  "rd_written playing_device ! 0 = 960" "length (pcm_contents (rd_ring playing_device 0)) = 960"
proof -
  obtain rb w k where w: "ra_device_write idle_device (concat (replicate 960 half_frame)) 0
      = (of_nat k, (rd_set_ring idle_device 0 rb)\<lparr>rd_written := (rd_written idle_device)[0 := w]\<rparr>)"
    "k = 960" "ra_inv ((rd_set_ring idle_device 0 rb)\<lparr>rd_written := (rd_written idle_device)[0 := w]\<rparr>)"
    "rd_queue ((rd_set_ring idle_device 0 rb)\<lparr>rd_written := (rd_written idle_device)[0 := w]\<rparr>) 0 = replicate 960 half_frame"
    using ra_device_write_ok [OF idle_device_ok(1), of 0 "replicate 960 half_frame"]
    by (auto simp: idle_device_ok idle_ring_ok half_frame_def)
  then have p: "playing_device = (rd_set_ring idle_device 0 rb)\<lparr>rd_written := (rd_written idle_device)[0 := w]\<rparr>"
    by (simp add: playing_device_def)
  show "ra_inv playing_device" "rd_queue playing_device 0 = replicate 960 half_frame" using w(3,4) by (simp_all add: p)
  show "rd_queue playing_device (Suc 0) = []"
    using rd_queue_written_other [of 0 1] by (simp add: p idle_device_ok)
  have c: "rd_consumed playing_device = [0, 0]" "rd_discard playing_device = [0, 0]"
    by (simp_all add: p idle_device_def zero_device_def)
  show l: "length (pcm_contents (rd_ring playing_device 0)) = 960"
    using w(4) c by (simp add: rd_queue_def flip: p)
  show "rd_written playing_device ! 0 = 960"
    using ra_inv_ring [of playing_device 0] w(3) l c by (simp add: rd_ring_ok_def word_unat_eq_iff flip: p)
qed

lemma half_bits: "f32_of_bytes [0, 0, 0, 63] = FNum False (1 / 2)"
  by (simp add: f32_of_bytes_def f32_of_bits_def dec_fval_def dec_mag_def power_int_def power_divide)


lemma half_mix:
  assumes "x < 4"
  shows "mix_clamp (fadd binary32 (f32_at (concat (padded 2 (replicate 960 half_frame))) x) (f32_at (concat (padded 2 [])) x))
    = FNum False (1 / 2)"
proof -
  have p: "concat (padded 2 (replicate 960 half_frame)) = [0, 0, 0, 63, 0, 0, 0, 63, 0, 0, 0, 63, 0, 0, 0, 63]"
    "concat (padded 2 []) = replicate 16 0"
    by (simp_all add: padded_def half_frame_def eval_nat_numeral)
  have "x = 0 \<or> x = 1 \<or> x = 2 \<or> x = 3" using assms by auto
  then have a: "f32_at (concat (padded 2 (replicate 960 half_frame))) x = FNum False (1 / 2)"
    "f32_at (concat (padded 2 [])) x = FNum False 0"
    unfolding p by (auto simp: f32_at_def mem_read_def half_bits eval_nat_numeral)
  have "fmag binary32 (1 / 2)" by (rule fmagI [of _ 1 "-1"]) (simp_all add: power_int_def)
  then show ?thesis
    unfolding a by (simp add: fsval_def fround_exact mix_clamp_def)
qed

definition mic_info :: ma_device_info where
  "mic_info = \<lparr>di_id = 109 # replicate 255 0, di_name = ''mic'', di_isDefault = True\<rparr>"

text \<open>Everything succeeds, the backend takes the format it is asked for, and data is not converted.\<close>

definition plain_env :: "unit dev_env" where
  "plain_env = \<lparr>de_onDeviceInit = Some (\<lambda>ty pb cp. (MA_SUCCESS, pb, cp)), de_onDeviceUninit = True, de_onDeviceRead = True, de_onDeviceWrite = True,
     de_onDeviceDataLoop = False, de_onDeviceStart = Some MA_SUCCESS, de_onDeviceStop = Some MA_SUCCESS, de_mutex_init = MA_SUCCESS,
     de_event_init = (\<lambda>_. MA_SUCCESS), de_converter_init = (\<lambda>_. (MA_SUCCESS, (), True)), de_converter_required = (\<lambda>_. MA_SUCCESS),
     de_malloc = (\<lambda>_. True), de_thread_create = MA_SUCCESS, de_libc = \<lparr>c_malloc = (\<lambda>_. NULL), c_realloc = (\<lambda>_ _. NULL)\<rparr>,
     de_zeroConverter = (), de_zeroRing = idle_ring\<rparr>"

definition mic_env :: "unit audio_env" where
  "mic_env = \<lparr>env_calloc = True, env_libc = \<lambda>_. \<lparr>c_malloc = \<lambda>_. Some 4096, c_realloc = \<lambda>_ _. NULL\<rparr>,
     env_context_init = MA_SUCCESS,
     env_backend = \<lparr>be_enumerate = Some (MA_SUCCESS, [(ma_device_type_capture, mic_info)]), be_realloc_ok = \<lambda>_. True\<rparr>,
     env_now = zero_clock, env_device = \<lambda>_. plain_env\<rparr>"

lemma mic_env_devices:
  "\<exists>ctx. ma_context_get_devices (env_backend mic_env) (Some empty_context) = (MA_SUCCESS, [], [mic_info], Some ctx)"
  using ma_context_get_devices_ok [of "env_backend mic_env" "[(ma_device_type_capture, mic_info)]" empty_context]
  by (simp add: mic_env_def empty_context_def)

end
