(* ===== verification/RaStream.thy ===== *)
theory RaStream
  imports MaDuplexData RaDeviceOpen
begin

text \<open>
  The two devices that \<open>device.c\<close> opens, below the data path of miniaudio: what the backend
  plays and records in terms of the client's queues. The output device is stereo and the
  input device mono, both of 32-bit floats with periods of \<open>RA_FRAME\<close> frames.
\<close>

section \<open>The data callback as an application\<close>

definition ra_client_ok :: "(nat \<Rightarrow> fval) \<Rightarrow> ra_device \<Rightarrow> bool" where
  "ra_client_ok now d \<longleftrightarrow> ra_inv d \<and> clock_ok now"

lemma ra_onData_output:
  assumes "ra_inv d" "unat frames * 8 < 2 ^ 32" "length buf = unat frames * 8"
  shows "\<exists>out d'. ra_onData now (Some buf) NULL frames d = (Some out, d') \<and> length out = unat frames * 8 \<and> ra_inv d' \<and>
    (\<forall>x < 2 * unat frames. f32_at out x = mix_clamp (fadd binary32 (f32_at (concat (padded (unat frames) (rd_queue d 0))) x)
       (f32_at (concat (padded (unat frames) (rd_queue d 1))) x))) \<and>
    (\<forall>i < 2. rd_queue d' i = drop (unat frames) (rd_queue d i))"
proof -
  obtain out d' where o: "callback_output d frames = (out, d')" "length out = unat frames * 8" "ra_inv d'"
    "\<forall>x < 2 * unat frames. f32_at out x = mix_clamp (fadd binary32 (f32_at (concat (padded (unat frames) (rd_queue d 0))) x)
       (f32_at (concat (padded (unat frames) (rd_queue d 1))) x))"
    "\<forall>i < 2. rd_queue d' i = drop (unat frames) (rd_queue d i)"
    using callback_output_ok [OF assms(1,2)] by blast
  then show ?thesis using assms(3) by (simp add: ra_onData_def data_callback_def)
qed

interpretation ra: playback_client "ra_onData now" ra_inv RA_FRAME 8
proof (unfold_locales, goal_cases)
  case (1 c buf)
  then show ?case using ra_onData_output [of c RA_FRAME buf now] by auto
qed

lemma ra_onData_both:
  assumes "ra_client_ok now d" "unat frames * 8 < 2 ^ 32" "length buf = unat frames * 8" "length inp = unat frames * 4"
  shows "\<exists>out d'. ra_onData now (Some buf) (Some inp) frames d = (Some out, d') \<and> length out = unat frames * 8 \<and> ra_client_ok now d'"
proof -
  obtain d1 where d1: "callback_input now d inp frames = Some d1" "ra_inv d1"
    using callback_input_ok [of d inp frames now] assms by (auto simp: ra_client_ok_def)
  obtain out d' where "callback_output d1 frames = (out, d')" "length out = unat frames * 8" "ra_inv d'"
    using callback_output_ok [OF d1(2) assms(2)] by blast
  then show ?thesis using assms(1,3) d1(1) by (simp add: ra_onData_def data_callback_def ra_client_ok_def)
qed

interpretation ra_both: duplex_client "ra_onData now" "ra_client_ok now" RA_FRAME 8 4
proof (unfold_locales, goal_cases)
  case (1 c buf inp)
  then show ?case using ra_onData_both [of now c RA_FRAME buf inp] by simp
qed

section \<open>Playback: what the sound card is given\<close>

text \<open>The mix of the two queues, padded with silence: sample \<open>x\<close> of a stereo stream.\<close>

definition queue_mix :: "ra_device \<Rightarrow> nat \<Rightarrow> nat \<Rightarrow> fval" where
  "queue_mix d n x = mix_clamp (fadd binary32 (f32_at (concat (padded n (rd_queue d 0))) x) (f32_at (concat (padded n (rd_queue d 1))) x))"

lemma queue_mix_add:
  assumes "ra_inv d" "\<forall>i < 2. rd_queue d' i = drop n (rd_queue d i)"
  shows "queue_mix d (n + m) x = (if x < 2 * n then queue_mix d n x else queue_mix d' m (x - 2 * n))"
proof -
  have "f32_at (concat (padded (n + m) (rd_queue d i))) x =
      (if x < 2 * n then f32_at (concat (padded n (rd_queue d i))) x else f32_at (concat (padded m (rd_queue d' i))) (x - 2 * n))" if "i < 2" for i
  proof -
    have "length (concat (padded n (rd_queue d i))) = 4 * (2 * n)"
      using length_concat_padded [of "rd_queue d i" n] rd_queue_frames [OF assms(1) that] by simp
    then show ?thesis using assms(2) that f32_at_append(2) [of "concat (padded n (rd_queue d i))" "2 * n"]
      by (simp add: padded_add f32_at_append(1))
  qed
  then show ?thesis by (simp add: queue_mix_def)
qed

lemma queue_mix_prefix:
  assumes "ra_inv d" "n \<le> m" "x < 2 * n"
  shows "queue_mix d m x = queue_mix d n x"
proof -
  have "f32_at (concat (padded (n + (m - n)) (rd_queue d i))) x = f32_at (concat (padded n (rd_queue d i))) x" if "i < 2" for i
  proof -
    have "length (concat (padded n (rd_queue d i))) = n * 8"
      using length_concat_padded [of "rd_queue d i" n] rd_queue_frames [OF assms(1) that] by simp
    then show ?thesis using assms(3) by (simp add: padded_add f32_at_append(1))
  qed
  then show ?thesis using assms(2) by (simp add: queue_mix_def)
qed

text \<open>A stream of periods of the callback is the queues in order.\<close>

abbreviation ra_period :: "(nat \<Rightarrow> fval) \<Rightarrow> u8 list \<Rightarrow> ra_device \<Rightarrow> u8 list \<times> ra_device" where
  "ra_period now silence \<equiv> client_period (ra_onData now) silence RA_FRAME"

lemma ra_stream:
  assumes "ra_inv d" "length silence = 7680" "client_stream (ra_period now silence) m d = (rest, d')"
  shows "length rest = m * 7680 \<and> ra_inv d' \<and> (\<forall>i < 2. rd_queue d' i = drop (960 * m) (rd_queue d i)) \<and>
    (\<forall>x < 2 * (960 * m). f32_at rest x = queue_mix d (960 * m) x)"
  using assms
proof (induction m arbitrary: d rest)
  case (Suc m)
  obtain out d1 where o: "ra_onData now (Some silence) NULL RA_FRAME d = (Some out, d1)" "length out = 7680" "ra_inv d1"
    "\<forall>x < 2 * 960. f32_at out x = queue_mix d 960 x" "\<forall>i < 2. rd_queue d1 i = drop 960 (rd_queue d i)"
    using ra_onData_output [OF Suc.prems(1), of RA_FRAME silence now] Suc.prems(2) by (auto simp: queue_mix_def)
  then have p: "ra_period now silence d = (out, d1)" by (simp add: client_period_def)
  obtain rest1 where r: "client_stream (ra_period now silence) m d1 = (rest1, d')" "rest = out @ rest1"
    using Suc.prems(3) p by (auto split: prod.splits)
  note ih = Suc.IH [OF o(3) Suc.prems(2) r(1)]
  have "f32_at rest x = queue_mix d (960 * Suc m) x" if "x < 2 * (960 * Suc m)" for x
    using queue_mix_add [OF Suc.prems(1) o(5), of "960 * m" x] ih o(2,4) that
      f32_at_append(1) [of x out rest1] f32_at_append(2) [of out 1920 x rest1] by (simp add: r(2) not_less)
  then show ?case using ih o(2,5) by (simp add: r(2) add.commute)
qed simp

lemma clip_mix: "ma_clip_f32 (mix_clamp v) = mix_clamp v"
  by (cases v) (auto simp: ma_clip_f32_def mix_clamp_def fsval_def)

lemma f32_at_clip_stream:
  "4 * x + 4 \<le> length bs \<Longrightarrow> fval_ok binary32 (ma_clip_f32 (f32_at bs x)) \<Longrightarrow> f32_at (clip_stream bs) x = ma_clip_f32 (f32_at bs x)"
  using f32_at_concat [of x "length bs div 4" "\<lambda>i. ma_clip_f32 (f32_at bs i)" "[]"] by (simp add: clip_stream_def less_eq_div_iff_mult_less_eq Suc_le_eq [symmetric])

lemma queue_mix_ok: "fval_ok binary32 (ma_clip_f32 (queue_mix d n x))"
  unfolding queue_mix_def clip_mix by (intro mix_clamp_ok fadd_ok) simp

text \<open>The output device of \<open>device.c\<close>: its callback, 960 stereo float frames a period, clipping
  and the default volume, and a backend that plays floats.\<close>

definition ra_output_device :: "(nat \<Rightarrow> fval) \<Rightarrow> (ra_device, 'k) ma_device \<Rightarrow> bool" where
  "ra_output_device now dev \<longleftrightarrow> pb_ready (ra_onData now) ra_inv dev \<and> pb_direct dev \<and> dev_clips dev \<and>
     sd_channels (dev_playback dev) = 2 \<and> sd_intermediaryBufferCap (dev_playback dev) = RA_FRAME"

lemma ra_output_same: "ra_output_device now dev \<Longrightarrow> pb_same dev dev' \<Longrightarrow> pb_ready (ra_onData now) ra_inv dev' \<Longrightarrow> ra_output_device now dev'"
  using pb_same_direct [of dev dev'] by (auto simp: ra_output_device_def pb_same_def dev_clips_def)

lemma ra_output_bpf: "ra_output_device now dev \<Longrightarrow> unat (sd_bpf (dev_playback dev)) = 8"
  using bpf_f32 [of dev] by (simp add: ra_output_device_def dev_clips_def)

lemma output_device_plays:
  assumes o: "ra_output_device now dev" and l: "sd_intermediaryBufferLen (dev_playback dev) = 0"
    and rs: "list_all (request_ok 8) rs" "rs \<noteq> []"
  defines "n \<equiv> \<Sum>r\<leftarrow>rs. unat (fst r)"
  shows "\<exists>outs dev'. backend_plays cpu ops rs dev = Some (outs, dev') \<and> map length outs = map (length \<circ> snd) rs \<and>
    (\<forall>x < 2 * n. f32_at (concat outs) x = queue_mix (dev_client dev) n x) \<and>
    (\<forall>i < 2. rd_queue (dev_client dev') i = drop (960 * (n div 960 + 1)) (rd_queue (dev_client dev) i)) \<and> ra_output_device now dev'"
proof -
  let ?pb = "dev_playback dev" and ?d = "dev_client dev"
  have r: "pb_ready (ra_onData now) ra_inv dev" "pb_direct dev" "dev_clips dev" and cap: "sd_intermediaryBufferCap ?pb = RA_FRAME"
    using o by (simp_all add: ra_output_device_def)
  note b = ra_output_bpf [OF o]
  have inv: "ra_inv ?d" and sil: "length (sd_silence ?pb) = 7680"
    using r(1) length_sd_silence [of ?pb] by (simp_all add: pb_ready_def b cap)
  obtain outs bs dev' where p: "backend_plays cpu ops rs dev = Some (outs, dev')" "map length outs = map (length \<circ> snd) rs"
    "concat outs = dev_sound dev bs" "length bs = n * 8" "0 < sd_intermediaryBufferLen (dev_playback dev')"
    "pb_ready (ra_onData now) ra_inv dev'" "pb_same dev dev'" "pb_played (ra_period now (sd_silence ?pb)) dev bs dev'"
    using playback_requests [OF _ r(1,2), of rs] rs ra.playback_client_axioms [of now] unfolding b cap n_def by blast
  note same = pb_same_simps [OF p(7)]
  let ?L = "unat (sd_intermediaryBufferLen (dev_playback dev'))"
  have "sd_unplayed ?pb = []" using l r(1) by (simp add: sd_unplayed_def pb_ready_def sd_wf_def)
  then obtain m rest where m: "client_stream (ra_period now (sd_silence ?pb)) m ?d = (rest, dev_client dev')"
    "rest = bs @ sd_unplayed (dev_playback dev')"
    using p(8) by (auto simp: pb_played_def)
  note st = ra_stream [OF inv sil m(1)]
  have L: "0 < ?L" "?L \<le> 960" using p(5,6) cap unfolding pb_ready_def sd_wf_def same by (simp_all add: word_less_nat_alt)
  have "length (sd_unplayed (dev_playback dev')) = ?L * 8"
    using p(6) unfolding pb_ready_def sd_wf_def sd_unplayed_def same b cap by (simp add: diff_mult_distrib)
  then have tot: "960 * m = n + ?L" using st p(4) m(2) by simp
  have "n = (m - 1) * 960 + (960 - ?L)" "960 - ?L < 960" using tot L by (cases m; simp)+
  then have mn: "m = n div 960 + 1" using tot L by (cases m) simp_all
  have "f32_at (concat outs) x = queue_mix ?d n x" if x: "x < 2 * n" for x
  proof -
    have "f32_at bs x = f32_at rest x" using x p(4) by (simp add: m(2) f32_at_append(1))
    also have "\<dots> = queue_mix ?d (960 * m) x" using st x tot by simp
    also have "\<dots> = queue_mix ?d n x" using tot by (intro queue_mix_prefix [OF inv _ x]) simp
    finally have e: "f32_at bs x = queue_mix ?d n x" .
    have "f32_at (clip_stream bs) x = ma_clip_f32 (f32_at bs x)"
    proof (rule f32_at_clip_stream)
      show "4 * x + 4 \<le> length bs" using x p(4) by simp
      show "fval_ok binary32 (ma_clip_f32 (f32_at bs x))" unfolding e by (rule queue_mix_ok)
    qed
    then show ?thesis using p(3) r(3) by (simp add: dev_sound_def e queue_mix_def clip_mix)
  qed
  then show ?thesis using p(1,2) st ra_output_same [OF o p(7,6)] unfolding mn by blast
qed

section \<open>Capture: what the client receives\<close>

text \<open>A period of the input device is exactly one frame of the client's capture queue.\<close>

lemma ra_onData_input:
  assumes "ra_inv d" "clock_ok now" "length p = 3840" "cap_prefix d = []"
  defines "d' \<equiv> snd (ra_onData now NULL (Some p) RA_FRAME d)"
  shows "ra_inv d'" "cap_prefix d' = []" "rd_epoch d' = rd_epoch d" "rd_clock d' = Suc (rd_clock d)"
    "capture_frames (rd_capture d') = capture_frames (rd_capture d) @
       take (8 - length (capture_frames (rd_capture d))) [\<lparr>fr_epoch = rd_epoch d, fr_time = now (rd_clock d), fr_samples = p\<rparr>]"
proof -
  have fb: "full_blocks p = [p]" "leftover p = []"
    using block_split [OF assms(3), of "[]"] by (simp_all add: block_short)
  have "\<exists>d1. callback_input now d p RA_FRAME = Some d1 \<and> ra_inv d1 \<and> same_but_capture d d1 \<and> cap_prefix d1 = [] \<and> rd_clock d1 = Suc (rd_clock d) \<and>
    capture_frames (rd_capture d1) = capture_frames (rd_capture d) @
       take (8 - length (capture_frames (rd_capture d))) [\<lparr>fr_epoch = rd_epoch d, fr_time = now (rd_clock d), fr_samples = p\<rparr>]"
    using capture_loop_ends [OF assms(1), of RA_FRAME p 0 960 now] assms(2,3,4) fb by (auto simp: callback_input_def stamped_Cons)
  then obtain d1 where d1: "callback_input now d p RA_FRAME = Some d1" "ra_inv d1" "same_but_capture d d1" "cap_prefix d1 = []"
    "rd_clock d1 = Suc (rd_clock d)" "capture_frames (rd_capture d1) = capture_frames (rd_capture d) @
       take (8 - length (capture_frames (rd_capture d))) [\<lparr>fr_epoch = rd_epoch d, fr_time = now (rd_clock d), fr_samples = p\<rparr>]"
    by blast
  have d': "d' = rd_call_wake d1" using d1(1) by (simp add: d'_def ra_onData_def data_callback_def)
  have "rd_epoch d1 = rd_epoch d" using d1(3) by (cases d1) (simp add: same_but_capture_def)
  then show "ra_inv d'" "cap_prefix d' = []" "rd_epoch d' = rd_epoch d" "rd_clock d' = Suc (rd_clock d)"
    "capture_frames (rd_capture d') = capture_frames (rd_capture d) @
       take (8 - length (capture_frames (rd_capture d))) [\<lparr>fr_epoch = rd_epoch d, fr_time = now (rd_clock d), fr_samples = p\<rparr>]"
    using d1 by (simp_all add: d') (simp add: rd_call_wake_def)
qed

lemma ra_feed:
  assumes "ra_inv d" "clock_ok now" "list_all (\<lambda>p. length p = 3840) ps" "cap_prefix d = []"
  defines "d' \<equiv> client_feed (ra_onData now) RA_FRAME ps d"
  shows "ra_inv d' \<and> cap_prefix d' = [] \<and> rd_epoch d' = rd_epoch d \<and> capture_frames (rd_capture d') = capture_frames (rd_capture d) @
    take (8 - length (capture_frames (rd_capture d))) (stamped now (rd_epoch d) (rd_clock d) ps)"
  using assms(1,3,4) unfolding d'_def
proof (induction ps arbitrary: d)
  case (Cons p ps)
  have p: "length p = 3840" using Cons.prems(2) by simp
  note o = ra_onData_input [OF Cons.prems(1) assms(2) p Cons.prems(3)]
  have e: "client_feed (ra_onData now) RA_FRAME (p # ps) d = client_feed (ra_onData now) RA_FRAME ps (snd (ra_onData now NULL (Some p) RA_FRAME d))"
    by (simp add: client_feed_def)
  show ?case using Cons.IH [OF o(1) _ o(2)] Cons.prems(2) unfolding e o
    by (auto simp: stamped_Cons take_Cons' min_def o)
qed (simp add: client_feed_def)

lemma full_blocks_concat:
  "list_all (\<lambda>p. length p = 3840) ps \<Longrightarrow> length r < 3840 \<Longrightarrow> full_blocks (concat ps @ r) = ps"
  by (induction ps) (simp_all add: block_short block_split)

definition ra_input_device :: "(nat \<Rightarrow> fval) \<Rightarrow> (ra_device, 'k) ma_device \<Rightarrow> bool" where
  "ra_input_device now dev \<longleftrightarrow> cp_ready (ra_onData now) dev \<and> cp_direct dev \<and> sd_format (dev_capture dev) = ma_format_f32 \<and>
     sd_channels (dev_capture dev) = 1 \<and> sd_intermediaryBufferCap (dev_capture dev) = RA_FRAME \<and>
     ra_inv (dev_client dev) \<and> cap_prefix (dev_client dev) = [] \<and> clock_ok now"

lemma input_device_records:
  assumes i: "ra_input_device now dev" and rs: "list_all (request_ok 4) rs" "rs \<noteq> []"
  shows "\<exists>dev'. backend_records cpu ops rs dev = Some dev' \<and> ra_input_device now dev' \<and>
    capture_frames (rd_capture (dev_client dev')) = capture_frames (rd_capture (dev_client dev)) @
      take (8 - length (capture_frames (rd_capture (dev_client dev))))
        (stamped now (rd_epoch (dev_client dev)) (rd_clock (dev_client dev)) (full_blocks (sd_uncut (dev_capture dev) @ concat (map snd rs)))) \<and>
    sd_uncut (dev_capture dev') = leftover (sd_uncut (dev_capture dev) @ concat (map snd rs))"
proof -
  let ?cp = "dev_capture dev" and ?d = "dev_client dev"
  have r: "cp_ready (ra_onData now) dev" "cp_direct dev" and d: "ra_inv ?d" "clock_ok now" "cap_prefix ?d = []" and cap: "sd_intermediaryBufferCap ?cp = RA_FRAME"
    using i by (simp_all add: ra_input_device_def)
  have b: "unat (sd_bpf ?cp) = 4" using i by (simp add: ra_input_device_def sd_bpf_def ma_get_bytes_per_frame_def)
  obtain dev' where e: "backend_records cpu ops rs dev = Some dev'" "cp_ready (ra_onData now) dev'" "cp_same dev dev'"
    "sd_intermediaryBufferLen (dev_capture dev') < sd_intermediaryBufferCap (dev_capture dev')" "cp_taken (ra_onData now) dev (concat (map snd rs)) dev'"
    using capture_requests [OF r, of rs cpu ops] rs unfolding b by blast
  obtain ps where ps: "sd_uncut ?cp @ concat (map snd rs) = concat ps @ sd_uncut (dev_capture dev')" "list_all (\<lambda>p. length p = 3840) ps"
    "dev_client dev' = client_feed (ra_onData now) RA_FRAME ps ?d"
    using e(5) unfolding cp_taken_def Let_def cap b by auto
  note same = cp_same_simps [OF e(3)]
  have "length (sd_uncut (dev_capture dev')) < 3840"
    using e(2,4) b cap unfolding cp_ready_def sd_wf_def sd_uncut_def same by (simp add: word_less_nat_alt)
  note fb = full_blocks_concat [OF ps(2) this] and lo = this
  have "leftover (concat ps @ sd_uncut (dev_capture dev')) = sd_uncut (dev_capture dev')"
    using ps(2) lo by (induction ps) (simp_all add: block_short block_split)
  moreover have "ra_input_device now dev'"
    using i e(2,3) ra_feed [OF d(1,2) ps(2) d(3)] ps(3) cp_same_direct [OF e(3)] unfolding ra_input_device_def
    by (auto simp: cp_same_def)
  ultimately show ?thesis using e(1) ra_feed [OF d(1,2) ps(2) d(3)] unfolding ps(1) fb ps(3) [symmetric] by auto
qed

section \<open>The devices that are opened\<close>

lemma ra_config_simps [simp]:
  "ic_deviceType (ra_config now i d) = (if i then ma_device_type_capture else ma_device_type_playback)"
  "ic_periodSizeInFrames (ra_config now i d) = RA_FRAME" "\<not> ic_noFixedSizedCallback (ra_config now i d)"
  "sides_set ma_device_type_capture (config_device env (ra_config now True d))"
  "sides_set ma_device_type_playback (config_device env (ra_config now False d))"
  by (simp_all add: ra_config_def Let_def sides_set_def config_device_def captures_def plays_def)

lemma silent_buffer_wf:
  assumes "unat (sd_bpf sd) = b" "0 < b" "unat cap * b < 2 ^ 32" "0 < unat cap" "unat len \<le> unat cap"
  shows "sd_wf (silent_buffer sd cap len)" "sd_pIntermediaryBuffer (silent_buffer sd cap len) = sd_silence (silent_buffer sd cap len)"
proof -
  have l: "length (ma_silence_pcm_frames (ucast cap) (sd_format sd) (sd_channels sd)) = unat cap * b"
    using length_silence [of "ucast cap" "sd_format sd" "sd_channels sd"] assms(1,3) by (simp add: sd_bpf_def)
  moreover have "unat (cap * sd_bpf sd) = unat cap * b" using assms(1,3) by (simp add: unat_mult_lt)
  ultimately have "mem_write (replicate (unat (cap * sd_bpf sd)) 0) 0 (ma_silence_pcm_frames (ucast cap) (sd_format sd) (sd_channels sd))
      = ma_silence_pcm_frames (ucast cap) (sd_format sd) (sd_channels sd)"
    by (intro mem_write_all) simp
  then show "sd_wf (silent_buffer sd cap len)" "sd_pIntermediaryBuffer (silent_buffer sd cap len) = sd_silence (silent_buffer sd cap len)"
    using l assms by (simp_all add: silent_buffer_def sd_wf_def sd_bpf_def sd_silence_def)
qed

lemma opened_output:
  assumes i: "ma_device_init env (Some (ra_config now False d)) (Some d0) = (MA_SUCCESS, Some dev, tr)"
    and p: "sd_isPassthrough (dev_playback dev)" and inv: "ra_inv d"
  shows "ra_output_device now dev" "sd_intermediaryBufferLen (dev_playback dev) = 0" "dev_client dev = d"
proof -
  note o = init_device [OF i]
  have c: "same_config (config_device env (ra_config now False d)) dev" "dev_state dev = ma_device_state_stopped" using o(1,2) by simp_all
  obtain sd where sd: "dev_playback dev = silent_buffer sd RA_FRAME 0" using o(4) by auto
  have f: "sd_format sd = ma_format_f32" "sd_channels sd = 2"
    using c(1) sd by (simp_all add: same_config_def config_device_def ra_config_def silent_buffer_def)
  then have "sd_wf (dev_playback dev)" unfolding sd by (intro silent_buffer_wf [of _ 8]) (simp_all add: sd_bpf_def ma_get_bytes_per_frame_def)
  then show "ra_output_device now dev" using c p inv f sd
    by (simp add: ra_output_device_def pb_ready_def pb_direct_def dev_clips_def same_config_def config_device_def ra_config_def silent_buffer_def)
  show "sd_intermediaryBufferLen (dev_playback dev) = 0" "dev_client dev = d"
    using c(1) by (simp_all add: sd silent_buffer_def same_config_def config_device_def ra_config_def)
qed

text \<open>A device that records starts with a buffer full of silence.\<close>

lemma opened_input:
  assumes i: "ma_device_init env (Some (ra_config now True d)) (Some d0) = (MA_SUCCESS, Some dev, tr)"
    and p: "sd_isPassthrough (dev_capture dev)" and inv: "ra_inv d" "cap_prefix d = []" "clock_ok now"
  shows "ra_input_device now dev" "sd_uncut (dev_capture dev) = replicate 3840 0" "dev_client dev = d"
proof -
  note o = init_device [OF i]
  have c: "same_config (config_device env (ra_config now True d)) dev" "dev_state dev = ma_device_state_stopped" using o(1,2) by simp_all
  obtain sd where sd: "dev_capture dev = silent_buffer sd RA_FRAME RA_FRAME" using o(3) by (auto simp: captures_def)
  have f: "sd_format sd = ma_format_f32" "sd_channels sd = 1"
    using c(1) sd by (simp_all add: same_config_def config_device_def ra_config_def silent_buffer_def)
  have wf: "sd_wf (dev_capture dev)" "sd_pIntermediaryBuffer (dev_capture dev) = sd_silence (dev_capture dev)"
    unfolding sd using f by (intro silent_buffer_wf [of _ 4]; simp add: sd_bpf_def ma_get_bytes_per_frame_def)+
  then show "ra_input_device now dev" using c p inv f sd
    by (simp add: ra_input_device_def cp_ready_def cp_direct_def same_config_def config_device_def ra_config_def silent_buffer_def)
  show "dev_client dev = d" using c(1) by (simp add: same_config_def config_device_def ra_config_def)
  show "sd_uncut (dev_capture dev) = replicate 3840 0"
    unfolding sd_uncut_def wf(2) using f
    by (simp add: sd silent_buffer_def sd_silence_def sd_bpf_def ma_get_bytes_per_frame_def ma_silence_pcm_frames_def)
qed
section \<open>A backend that works\<close>

definition blank_device :: "(ra_device, unit) ma_device" where
  "blank_device = config_device plain_env (ra_config zero_clock False idle_device)"

lemmas life_defs = ma_device_init_def plain_env_def config_ok_def side_config_ok_def ma__is_channel_map_valid_def init_events_def
  ma_device_post_init_def ma_device__post_init_setup_def device_defaults_def side_defaults_def side_actual_def setup_capture_converter_def
  setup_playback_converter_def setup_input_cache_def init_buffers_def init_capture_buffer_def init_playback_buffer_def init_thread_def and_then_def
  config_descriptor_def config_device_def zero_side_def ma_device_descriptor_is_valid_def captures_def plays_def ma_context_is_backend_asynchronous_def
  silent_buffer_def

lemma plain_opens:
  "\<exists>dev tr. ma_device_init plain_env (Some (ra_config now False d)) (Some d0) = (MA_SUCCESS, Some dev, tr) \<and> sd_isPassthrough (dev_playback dev)"
  "\<exists>dev tr. ma_device_init plain_env (Some (ra_config now True d)) (Some d0) = (MA_SUCCESS, Some dev, tr) \<and> sd_isPassthrough (dev_capture dev)"
  by (simp_all add: life_defs ra_config_def Let_def)
lemma open_then_success: "fst s = MA_SUCCESS \<Longrightarrow> fst (f (fst (snd s))) = MA_SUCCESS \<Longrightarrow> fst (open_then s f) = MA_SUCCESS"
  by (auto simp: open_then_def split: prod.splits)

lemma open_all_success: "fst s = MA_SUCCESS \<Longrightarrow> \<forall>f\<in>set fs. \<forall>d. fst (f d) = MA_SUCCESS \<Longrightarrow> fst (foldl open_then s fs) = MA_SUCCESS"
  by (induction fs arbitrary: s) (simp_all add: open_then_success)

lemma mic_env_rings:
  "fst (init_capture mic_env d) = MA_SUCCESS" "fst (init_playback mic_env d) = MA_SUCCESS" "fst (init_reference mic_env d) = MA_SUCCESS"
  "fst (init_monitor mic_env d) = MA_SUCCESS"
proof -
  have c: "env_libc mic_env i = \<lparr>c_malloc = \<lambda>_. Some 4096, c_realloc = \<lambda>_ _. NULL\<rparr>" for i by (simp add: mic_env_def)
  have r: "\<exists>rb. ma_rb_init (env_libc mic_env i) 30848 NULL NULL (Some r) = (MA_SUCCESS, Some rb)" for i r
    using ma_rb_init_ok [of 30848 "env_libc mic_env i" 4096 r] by (auto simp: c)
  have p: "\<exists>q. ma_pcm_rb_init (env_libc mic_env i) ma_format_f32 2 7680 NULL NULL (Some p) = (MA_SUCCESS, Some q)" for i p
    using ma_pcm_rb_init_ok [of ma_format_f32 2 7680 "env_libc mic_env i" 4096 p] by (auto simp: c ma_get_bytes_per_frame_def)
  show "fst (init_capture mic_env d) = MA_SUCCESS" using r [of 0 "rd_capture d"] by (auto simp: init_capture_def)
  show "fst (init_playback mic_env d) = MA_SUCCESS" using p [of 1 "rd_playback d"] by (auto simp: init_playback_def)
  show "fst (init_reference mic_env d) = MA_SUCCESS" using p [of 2 "rd_reference d"] by (auto simp: init_reference_def)
  show "fst (init_monitor mic_env d) = MA_SUCCESS" using p [of 3 "rd_monitor d"] by (auto simp: init_monitor_def)
qed

lemma mic_env_device: "fst (open_device mic_env ma_device_type_capture None s) = MA_SUCCESS"
proof -
  obtain d devs where s: "s = (d, devs)" by (cases s)
  let ?c = "device_config ma_device_type_capture None"
  obtain dev tr where i: "init_call mic_env d ?c = (MA_SUCCESS, Some dev, tr)" "dev_state dev = ma_device_state_stopped"
  proof -
    let ?d0 = "zero_device_of plain_env (config_device plain_env (ra_config zero_clock True d))"
    obtain dev tr where "ma_device_init plain_env (Some (ra_config zero_clock True d)) (Some ?d0) = (MA_SUCCESS, Some dev, tr)"
      using plain_opens(2) by blast
    with init_success [OF this] show thesis by (intro that [of dev tr]) (simp_all add: init_call_def init_config_ra mic_env_def)
  qed
  have "fst (ma_device_start plain_env (Some dev)) = MA_SUCCESS"
    using i(2) by (simp add: ma_device_start_def ma_context_is_backend_asynchronous_def plain_env_def)
  moreover have "env_device mic_env ?c = plain_env" by (simp add: mic_env_def)
  ultimately show ?thesis using i(1)
    by (auto simp: s open_device_def select_device_def init_and_start_def Let_def split: prod.splits)
qed

lemma mic_env_opens: "fst (ra_device_open mic_env True False None None True) = MA_SUCCESS"
proof -
  have "fst (foldl open_then (MA_SUCCESS, (zero_device True, \<lambda>_. None), [Acquire Memory]) (open_steps mic_env True False None None)) = MA_SUCCESS"
  proof (rule open_all_success)
    have "fst (init_context mic_env d) = MA_SUCCESS" for d by (simp add: init_context_def mic_env_def)
    then show "\<forall>f\<in>set (open_steps mic_env True False None None). \<forall>d. fst (f d) = MA_SUCCESS"
      using mic_env_rings mic_env_device by (simp add: open_steps_def on_device_def split_beta)
  qed simp
  moreover have "env_calloc mic_env" by (simp add: mic_env_def)
  ultimately show ?thesis by (auto simp: ra_device_open_def split: prod.splits)
qed

definition plain_cpu :: ma_cpu where
  "plain_cpu = \<lparr>cpu_simd = simd_sse2, cpu_aligned = True, cpu_draw = id, cpu_badcast = (\<lambda>_. 0)\<rparr>"

definition plain_ops :: "unit converter_ops" where
  "plain_ops = \<lparr>cv_process = (\<lambda>k input n out m. (MA_SUCCESS, n, input, m, k)), cv_required = (\<lambda>k n. n)\<rparr>"

lemma started_output: "ra_output_device now dev \<Longrightarrow> ra_output_device now (dev\<lparr>dev_state := ma_device_state_started\<rparr>)"
  by (simp add: ra_output_device_def pb_ready_def pb_direct_def dev_clips_def)

lemma started_input: "ra_input_device now dev \<Longrightarrow> ra_input_device now (dev\<lparr>dev_state := ma_device_state_started\<rparr>)"
  by (simp add: ra_input_device_def cp_ready_def cp_direct_def)

text \<open>A duplex device with the callback of \<open>device.c\<close>, as it is after opening.\<close>

definition both_device :: "(ra_device, unit) ma_device" where
  "both_device = blank_device\<lparr>dev_type := ma_device_type_duplex, dev_state := ma_device_state_started,
     dev_capture := silent_buffer ((zero_side plain_env)\<lparr>sd_format := ma_format_f32, sd_channels := 1\<rparr>) RA_FRAME RA_FRAME,
     dev_playback := silent_buffer ((zero_side plain_env)\<lparr>sd_format := ma_format_f32, sd_channels := 2\<rparr>) RA_FRAME 0\<rparr>"

lemma both_device_ready:
  "dx_ready (ra_onData zero_clock) (ra_client_ok zero_clock) both_device" "\<not> dev_noFixedSizedCallback both_device"
  "dev_state both_device \<noteq> ma_device_state_stopping" "sd_intermediaryBufferCap (dev_capture both_device) = RA_FRAME"
  "unat (sd_bpf (dev_playback both_device)) = 8" "unat (sd_bpf (dev_capture both_device)) = 4"
proof -
  have "sd_wf (dev_playback both_device)" "sd_wf (dev_capture both_device)" unfolding both_device_def
    by (simp_all, rule silent_buffer_wf(1) [of _ 8]) (simp_all add: sd_bpf_def ma_get_bytes_per_frame_def silent_buffer_wf(1) [of _ 4])
  then show "dx_ready (ra_onData zero_clock) (ra_client_ok zero_clock) both_device" using idle_device_ok zero_clock_ok
    by (simp add: dx_ready_def dx_aligned_def both_device_def blank_device_def config_device_def ra_config_def silent_buffer_def ra_client_ok_def Let_def)
  show "\<not> dev_noFixedSizedCallback both_device" "dev_state both_device \<noteq> ma_device_state_stopping" "sd_intermediaryBufferCap (dev_capture both_device) = RA_FRAME"
    "unat (sd_bpf (dev_playback both_device)) = 8" "unat (sd_bpf (dev_capture both_device)) = 4"
    by (simp_all add: both_device_def blank_device_def config_device_def ra_config_def silent_buffer_def Let_def sd_bpf_def ma_get_bytes_per_frame_def)
qed

end
