(* ===== verification/MaDeviceSync.thy ===== *)
theory MaDeviceSync
  imports MaDevice
begin

text \<open>
  Starting, stopping and closing a device whose backend has a worker thread: the application
  thread in \<open>ma_device_init\<close>, \<open>ma_device_start\<close>, \<open>ma_device_stop\<close> and \<open>ma_device_uninit\<close>, and
  \<open>ma_worker_thread\<close>, as a transition system. Every access to the state of the device, to the
  work result or to an event is one step, those of the assertions too: \<open>MA_ASSERT\<close> is \<open>assert\<close>
  and nothing in the build defines \<open>NDEBUG\<close>, so that a failed assertion ends the process, both
  threads included. The three events are auto-reset. One application
  thread makes the calls, so the lock around starting and stopping is never contended.
\<close>

section \<open>The two threads\<close>

datatype app_pc = AInit | AInitAssert | AIdle "ma_result option"
  | AStart | AStartTest | AStartLocked | AStartAssert | AStartSet | AStartWake | AStartWait | AStartResult | AStartFail ma_result
  | AStop | AStopTest | AStopLocked | AStopAssert | AStopSet | AStopSetAssert | AStopWait | AStopClear
  | AUninit | AUninitSet | AUninitWake | AJoin | ADone

datatype worker_pc = WStopped | WSignal | WWait | WWork | WWoken | WAssert | WStart | WFail ma_result | WFailSignal
  | WStarted | WStartedSignal | WLoop | WStop | WEnd | WExit

record sync_sys =
  y_state :: ma_device_state
  y_wakeupEvent :: bool
  y_startEvent :: bool
  y_stopEvent :: bool
  y_workResult :: ma_result
  y_stops :: nat
  y_aborted :: bool
  y_app :: app_pc
  y_worker :: worker_pc

text \<open>Just after \<open>ma_thread_create\<close> in \<open>ma_device_init\<close>.\<close>

definition sync_init :: sync_sys where
  "sync_init = \<lparr>y_state = ma_device_state_uninitialized, y_wakeupEvent = False, y_startEvent = False, y_stopEvent = False,
     y_workResult = MA_SUCCESS, y_stops = 0, y_aborted = False, y_app = AInit, y_worker = WStopped\<rparr>"

text \<open>\<open>MA_ASSERT\<close> on the state of the device: go on with the next step, or end the process.\<close>

definition ma_assert :: "bool \<Rightarrow> sync_sys \<Rightarrow> sync_sys \<Rightarrow> sync_sys" where
  "ma_assert condition s s' = (if condition then s' else s\<lparr>y_aborted := True\<rparr>)"

text \<open>A step of the application thread: \<open>None\<close> when it is blocked or the process has ended. An idle application makes the call
  \<open>pc\<close>, whichever it is.\<close>

fun app_move :: "app_pc \<Rightarrow> sync_sys \<Rightarrow> sync_sys option" where
  "app_move pc s = (if y_aborted s then None else case y_app s of
     AInit \<Rightarrow> if y_stopEvent s then Some (s\<lparr>y_stopEvent := False, y_app := AInitAssert\<rparr>) else None
   | AInitAssert \<Rightarrow> Some (ma_assert (y_state s = ma_device_state_stopped) s (s\<lparr>y_app := AIdle None\<rparr>))
   | AIdle r \<Rightarrow> if pc \<in> {AStart, AStop, AUninit} then Some (s\<lparr>y_app := pc\<rparr>) else None
   | AStart \<Rightarrow> Some (s\<lparr>y_app := (if y_state s = ma_device_state_uninitialized then AIdle (Some MA_INVALID_OPERATION) else AStartTest)\<rparr>)
   | AStartTest \<Rightarrow> Some (s\<lparr>y_app := (if y_state s = ma_device_state_started then AIdle (Some MA_SUCCESS) else AStartLocked)\<rparr>)
   | AStartLocked \<Rightarrow> Some (s\<lparr>y_app := (if y_state s = ma_device_state_started then AIdle (Some MA_SUCCESS) else AStartAssert)\<rparr>)
   | AStartAssert \<Rightarrow> Some (ma_assert (y_state s = ma_device_state_stopped) s (s\<lparr>y_app := AStartSet\<rparr>))
   | AStartSet \<Rightarrow> Some (s\<lparr>y_state := ma_device_state_starting, y_app := AStartWake\<rparr>)
   | AStartWake \<Rightarrow> Some (s\<lparr>y_wakeupEvent := True, y_app := AStartWait\<rparr>)
   | AStartWait \<Rightarrow> if y_startEvent s then Some (s\<lparr>y_startEvent := False, y_app := AStartResult\<rparr>) else None
   | AStartResult \<Rightarrow> Some (s\<lparr>y_app := (if y_workResult s \<noteq> MA_SUCCESS then AStartFail (y_workResult s) else AIdle (Some MA_SUCCESS))\<rparr>)
   | AStartFail r \<Rightarrow> Some (s\<lparr>y_state := ma_device_state_stopped, y_app := AIdle (Some r)\<rparr>)
   | AStop \<Rightarrow> Some (s\<lparr>y_app := (if y_state s = ma_device_state_uninitialized then AIdle (Some MA_INVALID_OPERATION) else AStopTest)\<rparr>)
   | AStopTest \<Rightarrow> Some (s\<lparr>y_app := (if y_state s = ma_device_state_stopped then AIdle (Some MA_SUCCESS) else AStopLocked)\<rparr>)
   | AStopLocked \<Rightarrow> Some (s\<lparr>y_app := (if y_state s = ma_device_state_stopped then AIdle (Some MA_SUCCESS) else AStopAssert)\<rparr>)
   | AStopAssert \<Rightarrow> Some (ma_assert (y_state s = ma_device_state_started) s (s\<lparr>y_app := AStopSet\<rparr>))
   | AStopSet \<Rightarrow> Some (s\<lparr>y_state := ma_device_state_stopping, y_app := AStopSetAssert\<rparr>)
   | AStopSetAssert \<Rightarrow> Some (ma_assert (y_state s \<noteq> ma_device_state_started) s (s\<lparr>y_app := AStopWait\<rparr>))
   | AStopWait \<Rightarrow> if y_stopEvent s then Some (s\<lparr>y_stopEvent := False, y_app := AStopClear\<rparr>) else None
   | AStopClear \<Rightarrow> Some (s\<lparr>y_app := AIdle (Some MA_SUCCESS)\<rparr>)
   | AUninit \<Rightarrow> Some (s\<lparr>y_app := (if y_state s = ma_device_state_uninitialized then AIdle None else AUninitSet)\<rparr>)
   | AUninitSet \<Rightarrow> Some (s\<lparr>y_state := ma_device_state_uninitialized, y_app := AUninitWake\<rparr>)
   | AUninitWake \<Rightarrow> Some (s\<lparr>y_wakeupEvent := True, y_app := AJoin\<rparr>)
   | AJoin \<Rightarrow> if y_worker s = WExit then Some (s\<lparr>y_app := ADone\<rparr>) else None
   | ADone \<Rightarrow> None)"

text \<open>A step of the worker. The backend answers \<open>r\<close> when it is asked to start or to stop the device. The
  data loop of the backend ends when the device is no longer started; with \<open>faults\<close> it may also
  end by itself, when a read or a write fails.\<close>

fun worker_move :: "bool \<Rightarrow> ma_result \<Rightarrow> sync_sys \<Rightarrow> sync_sys option" where
  "worker_move faults r s = (if y_aborted s then None else case y_worker s of
     WStopped \<Rightarrow> Some (s\<lparr>y_state := ma_device_state_stopped, y_worker := WSignal\<rparr>)
   | WSignal \<Rightarrow> Some (s\<lparr>y_stopEvent := True, y_worker := WWait\<rparr>)
   | WWait \<Rightarrow> if y_wakeupEvent s then Some (s\<lparr>y_wakeupEvent := False, y_worker := WWork\<rparr>) else None
   | WWork \<Rightarrow> Some (s\<lparr>y_workResult := MA_SUCCESS, y_worker := WWoken\<rparr>)
   | WWoken \<Rightarrow> Some (s\<lparr>y_worker := (if y_state s = ma_device_state_uninitialized then WExit else WAssert)\<rparr>)
   | WAssert \<Rightarrow> Some (ma_assert (y_state s = ma_device_state_starting) s (s\<lparr>y_worker := WStart\<rparr>))
   | WStart \<Rightarrow> Some (s\<lparr>y_worker := (if r \<noteq> MA_SUCCESS then WFail r else WStarted)\<rparr>)
   | WFail r \<Rightarrow> Some (s\<lparr>y_workResult := r, y_worker := WFailSignal\<rparr>)
   | WFailSignal \<Rightarrow> Some (s\<lparr>y_startEvent := True, y_worker := WWait\<rparr>)
   | WStarted \<Rightarrow> Some (s\<lparr>y_state := ma_device_state_started, y_worker := WStartedSignal\<rparr>)
   | WStartedSignal \<Rightarrow> Some (s\<lparr>y_startEvent := True, y_worker := WLoop\<rparr>)
   | WLoop \<Rightarrow> if y_state s \<noteq> ma_device_state_started \<or> faults then Some (s\<lparr>y_worker := WStop\<rparr>) else None
   | WStop \<Rightarrow> Some (s\<lparr>y_stops := (if r = MA_SUCCESS then Suc (y_stops s) else y_stops s), y_worker := WEnd\<rparr>)
   | WEnd \<Rightarrow> Some (s\<lparr>y_worker := (if y_state s = ma_device_state_uninitialized then WExit else WStopped)\<rparr>)
   | WExit \<Rightarrow> None)"

declare app_move.simps [simp del] worker_move.simps [simp del]

lemmas app_moves = app_move.simps ma_assert_def and worker_moves = worker_move.simps ma_assert_def

text \<open>The threads interleave.\<close>

inductive app_step :: "sync_sys \<Rightarrow> sync_sys \<Rightarrow> bool" where
  call: "app_move pc s = Some s' \<Longrightarrow> app_step s s'"

inductive worker_step :: "bool \<Rightarrow> sync_sys \<Rightarrow> sync_sys \<Rightarrow> bool" for faults where
  answer: "worker_move faults r s = Some s' \<Longrightarrow> worker_step faults s s'"

inductive_cases app_stepE: "app_step s s'"
inductive_cases worker_stepE: "worker_step faults s s'"

inductive sync_reach :: "bool \<Rightarrow> sync_sys \<Rightarrow> bool" for faults where
  start: "sync_reach faults sync_init"
| app: "sync_reach faults s \<Longrightarrow> app_step s s' \<Longrightarrow> sync_reach faults s'"
| worker: "sync_reach faults s \<Longrightarrow> worker_step faults s s' \<Longrightarrow> sync_reach faults s'"

section \<open>The protocol when the data loop ends only on request\<close>

text \<open>At rest, running, and asked to stop.\<close>

abbreviation at_rest :: "sync_sys \<Rightarrow> bool" where
  "at_rest s \<equiv> y_worker s = WWait \<and> y_state s = ma_device_state_stopped \<and> \<not> y_startEvent s \<and> \<not> y_stopEvent s \<and> \<not> y_wakeupEvent s"

abbreviation running :: "sync_sys \<Rightarrow> bool" where
  "running s \<equiv> y_worker s = WLoop \<and> y_state s = ma_device_state_started \<and> \<not> y_startEvent s \<and> \<not> y_stopEvent s \<and> \<not> y_wakeupEvent s"

abbreviation stopping :: "sync_sys \<Rightarrow> bool" where
  "stopping s \<equiv> \<not> y_startEvent s \<and> \<not> y_wakeupEvent s \<and>
     (y_worker s \<in> {WLoop, WStop, WEnd, WStopped} \<and> y_state s = ma_device_state_stopping \<and> \<not> y_stopEvent s \<or>
      y_worker s = WSignal \<and> y_state s = ma_device_state_stopped \<and> \<not> y_stopEvent s \<or>
      y_worker s = WWait \<and> y_state s = ma_device_state_stopped \<and> y_stopEvent s)"

text \<open>What the worker may be doing while the application is at each point.\<close>

fun sync_inv_at :: "app_pc \<Rightarrow> sync_sys \<Rightarrow> bool" where
  "sync_inv_at AInit s \<longleftrightarrow> \<not> y_startEvent s \<and> \<not> y_wakeupEvent s \<and>
     (y_worker s = WStopped \<and> \<not> y_stopEvent s \<or> y_worker s = WSignal \<and> y_state s = ma_device_state_stopped \<and> \<not> y_stopEvent s
      \<or> y_worker s = WWait \<and> y_state s = ma_device_state_stopped \<and> y_stopEvent s)"
| "sync_inv_at AInitAssert s \<longleftrightarrow> at_rest s"
| "sync_inv_at (AIdle r) s \<longleftrightarrow> at_rest s \<or> running s"
| "sync_inv_at AStart s \<longleftrightarrow> at_rest s \<or> running s"
| "sync_inv_at AStartTest s \<longleftrightarrow> at_rest s \<or> running s"
| "sync_inv_at AStartLocked s \<longleftrightarrow> at_rest s"
| "sync_inv_at AStartAssert s \<longleftrightarrow> at_rest s"
| "sync_inv_at AStartSet s \<longleftrightarrow> at_rest s"
| "sync_inv_at AStartWake s \<longleftrightarrow> y_worker s = WWait \<and> y_state s = ma_device_state_starting \<and> \<not> y_startEvent s \<and> \<not> y_stopEvent s \<and> \<not> y_wakeupEvent s"
| "sync_inv_at AStartWait s \<longleftrightarrow> \<not> y_stopEvent s \<and> y_wakeupEvent s = (y_worker s = WWait \<and> \<not> y_startEvent s) \<and>
     (case y_worker s of
        WWait \<Rightarrow> y_state s = ma_device_state_starting \<and> (y_startEvent s \<longrightarrow> y_workResult s \<noteq> MA_SUCCESS)
      | WWork \<Rightarrow> y_state s = ma_device_state_starting \<and> \<not> y_startEvent s
      | WWoken \<Rightarrow> y_state s = ma_device_state_starting \<and> \<not> y_startEvent s \<and> y_workResult s = MA_SUCCESS
      | WAssert \<Rightarrow> y_state s = ma_device_state_starting \<and> \<not> y_startEvent s \<and> y_workResult s = MA_SUCCESS
      | WStart \<Rightarrow> y_state s = ma_device_state_starting \<and> \<not> y_startEvent s \<and> y_workResult s = MA_SUCCESS
      | WFail r \<Rightarrow> y_state s = ma_device_state_starting \<and> \<not> y_startEvent s \<and> r \<noteq> MA_SUCCESS
      | WFailSignal \<Rightarrow> y_state s = ma_device_state_starting \<and> \<not> y_startEvent s \<and> y_workResult s \<noteq> MA_SUCCESS
      | WStarted \<Rightarrow> y_state s = ma_device_state_starting \<and> \<not> y_startEvent s \<and> y_workResult s = MA_SUCCESS
      | WStartedSignal \<Rightarrow> y_state s = ma_device_state_started \<and> \<not> y_startEvent s \<and> y_workResult s = MA_SUCCESS
      | WLoop \<Rightarrow> y_state s = ma_device_state_started \<and> y_startEvent s \<and> y_workResult s = MA_SUCCESS
      | _ \<Rightarrow> False)"
| "sync_inv_at AStartResult s \<longleftrightarrow> \<not> y_startEvent s \<and> \<not> y_stopEvent s \<and> \<not> y_wakeupEvent s \<and>
     (y_worker s = WWait \<and> y_state s = ma_device_state_starting \<and> y_workResult s \<noteq> MA_SUCCESS \<or>
      y_worker s = WLoop \<and> y_state s = ma_device_state_started \<and> y_workResult s = MA_SUCCESS)"
| "sync_inv_at (AStartFail r) s \<longleftrightarrow> r \<noteq> MA_SUCCESS \<and> y_worker s = WWait \<and> y_state s = ma_device_state_starting \<and>
     \<not> y_startEvent s \<and> \<not> y_stopEvent s \<and> \<not> y_wakeupEvent s"
| "sync_inv_at AStop s \<longleftrightarrow> at_rest s \<or> running s"
| "sync_inv_at AStopTest s \<longleftrightarrow> at_rest s \<or> running s"
| "sync_inv_at AStopLocked s \<longleftrightarrow> running s"
| "sync_inv_at AStopAssert s \<longleftrightarrow> running s"
| "sync_inv_at AStopSet s \<longleftrightarrow> running s"
| "sync_inv_at AStopSetAssert s \<longleftrightarrow> stopping s"
| "sync_inv_at AStopWait s \<longleftrightarrow> stopping s"
| "sync_inv_at AStopClear s \<longleftrightarrow> at_rest s"
| "sync_inv_at AUninit s \<longleftrightarrow> at_rest s \<or> running s"
| "sync_inv_at AUninitSet s \<longleftrightarrow> at_rest s \<or> running s"
| "sync_inv_at AUninitWake s \<longleftrightarrow> y_state s = ma_device_state_uninitialized \<and> \<not> y_wakeupEvent s \<and> y_worker s \<in> {WWait, WLoop, WStop, WEnd, WExit}"
| "sync_inv_at AJoin s \<longleftrightarrow> y_state s = ma_device_state_uninitialized \<and> (y_worker s = WWait \<longrightarrow> y_wakeupEvent s) \<and>
     y_worker s \<in> {WWait, WWork, WWoken, WLoop, WStop, WEnd, WExit}"
| "sync_inv_at ADone s \<longleftrightarrow> y_worker s = WExit"

abbreviation sync_inv :: "sync_sys \<Rightarrow> bool" where
  "sync_inv s \<equiv> \<not> y_aborted s \<and> sync_inv_at (y_app s) s"

lemma app_keeps_inv: "app_step s s' \<Longrightarrow> sync_inv s \<Longrightarrow> sync_inv s'"
  by (erule app_stepE; cases "y_app s") (auto simp: app_moves split: if_splits worker_pc.splits)

lemma worker_keeps_inv: "worker_step False s s' \<Longrightarrow> sync_inv s \<Longrightarrow> sync_inv s'"
  by (erule worker_stepE; cases "y_worker s"; cases "y_app s") (auto simp: worker_moves split: if_splits)

lemma sync_reach_inv: "sync_reach False s \<Longrightarrow> sync_inv s"
proof (induction rule: sync_reach.induct)
  case start
  then show ?case by (simp add: sync_init_def)
next
  case (app s s')
  show ?case by (rule app_keeps_inv [OF app.hyps(2) app.IH])
next
  case (worker s s')
  show ?case by (rule worker_keeps_inv [OF worker.hyps(2) worker.IH])
qed

section \<open>Progress of the worker\<close>

text \<open>The application waits, and the event it waits for is there.\<close>

definition app_waits :: "sync_sys \<Rightarrow> bool" where
  "app_waits s \<longleftrightarrow> y_app s \<in> {AInit, AStartWait, AStopWait, AJoin}"

definition app_released :: "sync_sys \<Rightarrow> bool" where
  "app_released s \<longleftrightarrow> (\<exists>s'. app_step s s')"

fun worker_rank :: "worker_pc \<Rightarrow> nat" where
  "worker_rank WLoop = 13"
| "worker_rank WStop = 12"
| "worker_rank WEnd = 11"
| "worker_rank WStopped = 10"
| "worker_rank WSignal = 9"
| "worker_rank WWait = 8"
| "worker_rank WWork = 7"
| "worker_rank WWoken = 6"
| "worker_rank WAssert = 5"
| "worker_rank WStart = 4"
| "worker_rank (WFail r) = 3"
| "worker_rank WFailSignal = 2"
| "worker_rank WStarted = 2"
| "worker_rank WStartedSignal = 1"
| "worker_rank WExit = 0"

definition wait_over :: "sync_sys \<Rightarrow> bool" where
  "wait_over s \<longleftrightarrow> (case y_app s of AStartWait \<Rightarrow> y_startEvent s | AJoin \<Rightarrow> y_worker s = WExit | _ \<Rightarrow> y_stopEvent s)"

lemma wait_released: "app_waits s \<Longrightarrow> \<not> y_aborted s \<Longrightarrow> app_released s \<longleftrightarrow> wait_over s"
  unfolding app_waits_def app_released_def wait_over_def
  by (auto simp: app_step.simps app_moves split: if_splits)

text \<open>While the application waits for something that has not happened, the worker has a step, and
  every step of the worker brings it closer.\<close>

lemma worker_enabled:
  assumes "sync_inv s" "app_waits s" "\<not> app_released s"
  shows "\<exists>s'. worker_step False s s'"
proof -
  have "\<not> y_aborted s \<and> y_worker s \<noteq> WExit \<and> (y_worker s = WWait \<longrightarrow> y_wakeupEvent s) \<and> (y_worker s = WLoop \<longrightarrow> y_state s \<noteq> ma_device_state_started)"
    using assms wait_released [OF assms(2)] by (auto simp: app_waits_def wait_over_def split: worker_pc.splits)
  then show ?thesis by (cases "y_worker s") (auto simp: worker_step.simps worker_moves)
qed

lemma worker_progress:
  assumes "worker_step False s s'" "sync_inv s" "app_waits s" "\<not> app_released s"
  shows "y_app s' = y_app s" "app_released s' \<or> worker_rank (y_worker s') < worker_rank (y_worker s)"
proof -
  obtain r where mv: "worker_move False r s = Some s'" using assms(1) by (rule worker_stepE)
  then show "y_app s' = y_app s" by (cases "y_worker s") (auto simp: worker_moves split: if_splits)
  then have w: "app_waits s'" using assms(3) by (simp add: app_waits_def)
  have "wait_over s' \<or> worker_rank (y_worker s') < worker_rank (y_worker s)"
    using assms(2,3) mv by (cases "y_worker s"; cases "y_app s")
      (auto simp: worker_moves wait_over_def app_waits_def split: if_splits)
  then show "app_released s' \<or> worker_rank (y_worker s') < worker_rank (y_worker s)" using wait_released [OF w] worker_keeps_inv [OF assms(1,2)] by simp
qed

text \<open>Every way the worker can go leads to a state where the wait is over.\<close>

inductive worker_releases :: "bool \<Rightarrow> sync_sys \<Rightarrow> bool" for faults where
  released: "app_released s \<Longrightarrow> worker_releases faults s"
| onward: "\<exists>s'. worker_step faults s s' \<Longrightarrow> (\<And>s'. worker_step faults s s' \<Longrightarrow> worker_releases faults s') \<Longrightarrow> worker_releases faults s"

lemma wait_ends:
  assumes "sync_inv s" "app_waits s"
  shows "worker_releases False s"
  using assms
proof (induction "worker_rank (y_worker s)" arbitrary: s rule: less_induct)
  case less
  show ?case
  proof (cases "app_released s")
    case False
    show ?thesis
    proof (rule worker_releases.onward)
      show "\<exists>s'. worker_step False s s'" by (rule worker_enabled [OF less.prems False])
      fix s' assume st: "worker_step False s s'"
      note p = worker_progress [OF st less.prems False]
      have "app_waits s'" using less.prems(2) p(1) by (simp add: app_waits_def)
      then show "worker_releases False s'"
        using p(2) less.hyps [OF _ worker_keeps_inv [OF st less.prems(1)]] by (auto intro: worker_releases.released)
    qed
  qed (rule worker_releases.released)
qed

section \<open>Schedules\<close>

datatype sync_move = App app_pc | Worker ma_result

fun sync_run :: "bool \<Rightarrow> sync_move list \<Rightarrow> sync_sys \<Rightarrow> sync_sys option" where
  "sync_run faults [] s = Some s"
| "sync_run faults (App pc # ms) s = (case app_move pc s of None \<Rightarrow> None | Some s' \<Rightarrow> sync_run faults ms s')"
| "sync_run faults (Worker r # ms) s = (case worker_move faults r s of None \<Rightarrow> None | Some s' \<Rightarrow> sync_run faults ms s')"

lemma sync_run_reach: "sync_run faults ms s = Some s' \<Longrightarrow> sync_reach faults s \<Longrightarrow> sync_reach faults s'"
proof (induction ms arbitrary: s)
  case (Cons m ms)
  show ?case
  proof (cases m)
    case (App pc)
    then obtain t where "app_move pc s = Some t" "sync_run faults ms t = Some s'" using Cons.prems(1) by (auto split: option.splits)
    then show ?thesis using Cons.IH sync_reach.app [OF Cons.prems(2)] app_step.call by blast
  next
    case (Worker r)
    then obtain t where "worker_move faults r s = Some t" "sync_run faults ms t = Some s'" using Cons.prems(1) by (auto split: option.splits)
    then show ?thesis using Cons.IH sync_reach.worker [OF Cons.prems(2)] worker_step.answer by blast
  qed
qed simp

section \<open>When the data loop ends by itself\<close>

text \<open>The worker starts, runs, and is started by the application.\<close>

definition start_moves :: "sync_move list" where
  "start_moves = replicate 2 (Worker MA_SUCCESS) @ replicate 9 (App AStart) @ replicate 7 (Worker MA_SUCCESS) @ replicate 2 (App AStart)"

text \<open>The data loop ends by itself and the stopped notification is sent. The application closes the
  device while the worker is between its test of the state and its assignment to it.\<close>

definition race_moves :: "sync_move list" where
  "race_moves = start_moves @ replicate 3 (Worker MA_SUCCESS) @ replicate 4 (App AUninit) @ replicate 6 (Worker MA_SUCCESS)"

text \<open>The data loop ends by itself while the application is in \<open>ma_device_stop\<close>, between its last
  test of the state and the assertion.\<close>

definition stop_moves :: "sync_move list" where
  "stop_moves = start_moves @ replicate 3 (Worker MA_SUCCESS) @ replicate 4 (App AStop) @ [Worker MA_SUCCESS, App AStop]"

text \<open>The data loop ends by itself, the application starts the device again and stops it. Then it
  starts it once more.\<close>

definition stale_moves :: "sync_move list" where
  "stale_moves = start_moves @ replicate 5 (Worker MA_SUCCESS) @ replicate 7 (App AStart) @ replicate 7 (Worker MA_SUCCESS) @ replicate 2 (App AStart)
     @ replicate 9 (App AStop)"

definition restart_moves :: "sync_move list" where
  "restart_moves = stale_moves @ replicate 5 (App AStart)"

lemmas move_lists = start_moves_def race_moves_def stop_moves_def stale_moves_def restart_moves_def

lemma start_moves_run: "\<exists>s. sync_run faults start_moves sync_init = Some s \<and> y_app s = AIdle (Some MA_SUCCESS) \<and> running s"
  by (simp add: move_lists sync_init_def app_moves worker_moves eval_nat_numeral)

lemma race_moves_run:
  "\<exists>s. sync_run True race_moves sync_init = Some s \<and> y_app s = AJoin \<and> y_worker s = WAssert \<and> y_aborted s \<and> y_stops s = 1"
  by (simp add: move_lists sync_init_def app_moves worker_moves eval_nat_numeral)

lemma stop_moves_run:
  "\<exists>s. sync_run True stop_moves sync_init = Some s \<and> y_app s = AStopAssert \<and> y_aborted s"
  by (simp add: move_lists sync_init_def app_moves worker_moves eval_nat_numeral)

lemma stale_moves_run:
  "\<exists>s. sync_run True stale_moves sync_init = Some s \<and> y_app s = AIdle (Some MA_SUCCESS) \<and> y_worker s = WLoop \<and>
     y_state s = ma_device_state_stopping \<and> \<not> y_aborted s"
  by (simp add: move_lists sync_init_def app_moves worker_moves eval_nat_numeral)

lemma restart_moves_run:
  "\<exists>s. sync_run True restart_moves sync_init = Some s \<and> y_app s = AStartAssert \<and> y_aborted s"
  by (simp add: move_lists sync_init_def app_moves worker_moves eval_nat_numeral)

end
