(* ===== verification/MaFilter.thy ===== *)
theory MaFilter
  imports MaPcm
begin

text \<open>
  The low-pass filters of miniaudio: biquad filter, first and second order filters, and the
  filter of any order that is built from them. A frame is the bytes of its samples. The
  members of a coefficient union share their four bytes. The memory of a filter is a list; the
  heap of a preallocated filter is known by its address only. \<open>sizeof\<close> is that of 64-bit targets.
\<close>

unbundle bit_operations_syntax

section \<open>Arithmetic\<close>

text \<open>The functions of the C library that the filters call, on doubles.\<close>

record ma_libm =
  lm_sin :: "fval \<Rightarrow> fval"
  lm_exp :: "fval \<Rightarrow> fval"

abbreviation (input) dlit :: "rat \<Rightarrow> fval" where "dlit \<equiv> frat binary64"
abbreviation (input) dadd :: "fval \<Rightarrow> fval \<Rightarrow> fval" where "dadd \<equiv> fadd binary64"
abbreviation (input) dsub :: "fval \<Rightarrow> fval \<Rightarrow> fval" where "dsub \<equiv> fsub binary64"
abbreviation (input) dmul :: "fval \<Rightarrow> fval \<Rightarrow> fval" where "dmul \<equiv> fmul binary64"
abbreviation (input) ddiv :: "fval \<Rightarrow> fval \<Rightarrow> fval" where "ddiv \<equiv> fdiv binary64"
abbreviation (input) d_u32 :: "u32 \<Rightarrow> fval" where "d_u32 w \<equiv> fofint binary64 (int (unat w))"
abbreviation (input) fadds :: "fval \<Rightarrow> fval \<Rightarrow> fval" where "fadds \<equiv> fadd binary32"
abbreviation (input) fsubs :: "fval \<Rightarrow> fval \<Rightarrow> fval" where "fsubs \<equiv> fsub binary32"
abbreviation (input) fmuls :: "fval \<Rightarrow> fval \<Rightarrow> fval" where "fmuls \<equiv> fmul binary32"

definition MA_PI_D :: fval where
  "MA_PI_D = dlit (314159265358979323846264 / 10 ^ 23)"

definition ma_sind :: "ma_libm \<Rightarrow> fval \<Rightarrow> fval" where
  "ma_sind lm x = lm_sin lm x"

definition ma_cosd :: "ma_libm \<Rightarrow> fval \<Rightarrow> fval" where
  "ma_cosd lm x = ma_sind lm (dsub (dmul MA_PI_D (dlit (1 / 2))) x)"

definition ma_expd :: "ma_libm \<Rightarrow> fval \<Rightarrow> fval" where
  "ma_expd lm x = lm_exp lm x"

text \<open>\<open>ma_align_64\<close> on sizes.\<close>

definition ma_align_64 :: "u64 \<Rightarrow> u64" where
  "ma_align_64 x = (x + 7) AND NOT 7"

text \<open>A loop over frames with a 32-bit counter and a 64-bit bound; \<open>i\<close> is where the pointers are.\<close>

partial_function (option) frames_loop :: "(nat \<Rightarrow> 's \<Rightarrow> 's) \<Rightarrow> u64 \<Rightarrow> u32 \<Rightarrow> nat \<Rightarrow> 's \<Rightarrow> 's option" where
  "frames_loop f frameCount n i s = (if ucast n < frameCount then frames_loop f frameCount (n + 1) (i + 1) (f i s) else Some s)"

section \<open>Biquad filter\<close>

type_synonym ma_biquad_coefficient = u32

abbreviation (input) coef_f32 :: "ma_biquad_coefficient \<Rightarrow> fval" where "coef_f32 \<equiv> f32_of_bits"
abbreviation (input) coef_of_f32 :: "fval \<Rightarrow> ma_biquad_coefficient" where "coef_of_f32 \<equiv> bits_of_f32"
abbreviation (input) MA_BIQUAD_FIXED_POINT_SHIFT :: nat where "MA_BIQUAD_FIXED_POINT_SHIFT \<equiv> 14"

record ma_biquad_config =
  bc_format :: ma_format
  bc_channels :: u32
  bc_b0 :: fval
  bc_b1 :: fval
  bc_b2 :: fval
  bc_a0 :: fval
  bc_a1 :: fval
  bc_a2 :: fval

record ma_biquad =
  bq_format :: ma_format
  bq_channels :: u32
  bq_b0 :: ma_biquad_coefficient
  bq_b1 :: ma_biquad_coefficient
  bq_b2 :: ma_biquad_coefficient
  bq_a1 :: ma_biquad_coefficient
  bq_a2 :: ma_biquad_coefficient
  bq_pR1 :: "ma_biquad_coefficient list"
  bq_pR2 :: "ma_biquad_coefficient list"
  bq_pHeap :: "u64 ptr"
  bq_ownsHeap :: bool

definition zero_biquad :: ma_biquad where
  "zero_biquad = \<lparr>bq_format = ma_format_unknown, bq_channels = 0, bq_b0 = 0, bq_b1 = 0, bq_b2 = 0, bq_a1 = 0, bq_a2 = 0,
     bq_pR1 = [], bq_pR2 = [], bq_pHeap = NULL, bq_ownsHeap = False\<rparr>"

definition ma_biquad_float_to_fp :: "ma_cpu \<Rightarrow> fval \<Rightarrow> s32" where
  "ma_biquad_float_to_fp cpu x = word_of_int (c_cast cpu (- 2147483648) 2147483647 (dmul x (dlit (2 ^ MA_BIQUAD_FIXED_POINT_SHIFT))))"

definition ma_biquad_config_init :: "ma_format \<Rightarrow> u32 \<Rightarrow> fval \<Rightarrow> fval \<Rightarrow> fval \<Rightarrow> fval \<Rightarrow> fval \<Rightarrow> fval \<Rightarrow> ma_biquad_config" where
  "ma_biquad_config_init fmt chs b0 b1 b2 a0 a1 a2 =
     \<lparr>bc_format = fmt, bc_channels = chs, bc_b0 = b0, bc_b1 = b1, bc_b2 = b2, bc_a0 = a0, bc_a1 = a1, bc_a2 = a2\<rparr>"

record ma_biquad_heap_layout =
  bh_sizeInBytes :: u64
  bh_r1Offset :: u64
  bh_r2Offset :: u64

definition ma_biquad_get_heap_layout :: "ma_biquad_config ptr \<Rightarrow> ma_result \<times> ma_biquad_heap_layout" where
  "ma_biquad_get_heap_layout pConfig =
     (let zero = \<lparr>bh_sizeInBytes = 0, bh_r1Offset = 0, bh_r2Offset = 0\<rparr> in
      case pConfig of
        None \<Rightarrow> (MA_INVALID_ARGS, zero)
      | Some c \<Rightarrow>
          if bc_channels c = 0 then (MA_INVALID_ARGS, zero)
          else let r2 = 4 * ucast (bc_channels c)
               in (MA_SUCCESS, \<lparr>bh_sizeInBytes = ma_align_64 (r2 + 4 * ucast (bc_channels c)), bh_r1Offset = 0, bh_r2Offset = r2\<rparr>))"

definition ma_biquad_get_heap_size :: "ma_biquad_config ptr \<Rightarrow> ma_result \<times> u64" where
  "ma_biquad_get_heap_size pConfig =
     (case ma_biquad_get_heap_layout pConfig of (result, l) \<Rightarrow> if result \<noteq> MA_SUCCESS then (result, 0) else (MA_SUCCESS, bh_sizeInBytes l))"

definition ma_biquad_reinit :: "ma_cpu \<Rightarrow> ma_biquad_config ptr \<Rightarrow> ma_biquad ptr \<Rightarrow> ma_result \<times> ma_biquad ptr" where
  "ma_biquad_reinit cpu pConfig pBQ =
     (case (pBQ, pConfig) of
        (Some bq, Some c) \<Rightarrow>
          if feq (bc_a0 c) (FNum False 0) then (MA_INVALID_ARGS, pBQ)
          else if bc_format c \<noteq> ma_format_f32 \<and> bc_format c \<noteq> ma_format_s16 then (MA_INVALID_ARGS, pBQ)
          else if bq_format bq \<noteq> ma_format_unknown \<and> bq_format bq \<noteq> bc_format c then (MA_INVALID_OPERATION, pBQ)
          else if bq_channels bq \<noteq> 0 \<and> bq_channels bq \<noteq> bc_channels c then (MA_INVALID_OPERATION, pBQ)
          else let set = (\<lambda>x. if bc_format c = ma_format_f32 then coef_of_f32 (fcast binary32 (ddiv x (bc_a0 c)))
                              else ma_biquad_float_to_fp cpu (ddiv x (bc_a0 c)))
               in (MA_SUCCESS, Some (bq\<lparr>bq_format := bc_format c, bq_channels := bc_channels c, bq_b0 := set (bc_b0 c), bq_b1 := set (bc_b1 c),
                    bq_b2 := set (bc_b2 c), bq_a1 := set (bc_a1 c), bq_a2 := set (bc_a2 c)\<rparr>))
      | _ \<Rightarrow> (MA_INVALID_ARGS, pBQ))"

definition ma_biquad_init_preallocated :: "ma_cpu \<Rightarrow> ma_biquad_config ptr \<Rightarrow> u64 ptr \<Rightarrow> ma_biquad ptr \<Rightarrow> ma_result \<times> ma_biquad ptr" where
  "ma_biquad_init_preallocated cpu pConfig pHeap pBQ =
     (case pBQ of
        None \<Rightarrow> (MA_INVALID_ARGS, None)
      | Some bq \<Rightarrow>
          (case ma_biquad_get_heap_layout pConfig of (result, l) \<Rightarrow>
             if result \<noteq> MA_SUCCESS then (result, Some zero_biquad)
             else let r = replicate (unat (bc_channels (the pConfig))) 0
                  in ma_biquad_reinit cpu pConfig (Some (zero_biquad\<lparr>bq_pHeap := pHeap, bq_pR1 := r, bq_pR2 := r\<rparr>))))"

definition ma_biquad_init :: "libc \<Rightarrow> ma_cpu \<Rightarrow> ma_biquad_config ptr \<Rightarrow> ma_allocation_callbacks ptr \<Rightarrow> ma_biquad ptr \<Rightarrow> ma_result \<times> ma_biquad ptr" where
  "ma_biquad_init sys cpu pConfig cb pBQ =
     (case ma_biquad_get_heap_size pConfig of (result, sz) \<Rightarrow>
        if result \<noteq> MA_SUCCESS then (result, pBQ)
        else let pHeap = (if sz > 0 then ma_malloc sys sz cb else NULL)
             in if sz > 0 \<and> pHeap = NULL then (MA_OUT_OF_MEMORY, pBQ)
                else case ma_biquad_init_preallocated cpu pConfig pHeap pBQ of (result, pBQ) \<Rightarrow>
                       if result \<noteq> MA_SUCCESS then (result, pBQ) else (MA_SUCCESS, map_option (bq_ownsHeap_update (\<lambda>_. True)) pBQ))"

text \<open>Only the first element of each cache is cleared.\<close>

definition ma_biquad_clear_cache :: "ma_biquad ptr \<Rightarrow> ma_result \<times> ma_biquad ptr" where
  "ma_biquad_clear_cache pBQ =
     (case pBQ of
        None \<Rightarrow> (MA_INVALID_ARGS, None)
      | Some bq \<Rightarrow>
          let z = (if bq_format bq = ma_format_f32 then coef_of_f32 (FNum False 0) else 0)
          in (MA_SUCCESS, Some (bq\<lparr>bq_pR1 := (bq_pR1 bq)[0 := z], bq_pR2 := (bq_pR2 bq)[0 := z]\<rparr>)))"

definition ma_biquad_process_pcm_frame_f32__direct_form_2_transposed :: "ma_biquad \<Rightarrow> u8 list \<Rightarrow> u8 list \<Rightarrow> u8 list \<times> ma_biquad" where
  "ma_biquad_process_pcm_frame_f32__direct_form_2_transposed pBQ pY pX =
     (let b0 = coef_f32 (bq_b0 pBQ); b1 = coef_f32 (bq_b1 pBQ); b2 = coef_f32 (bq_b2 pBQ);
          a1 = coef_f32 (bq_a1 pBQ); a2 = coef_f32 (bq_a2 pBQ)
      in for_count (bq_channels pBQ)
           (\<lambda>c (pY, bq).
              let r1 = coef_f32 (bq_pR1 bq ! c); r2 = coef_f32 (bq_pR2 bq ! c); x = f32_at pX c;
                  y = fadds (fmuls b0 x) r1;
                  r1 = fadds (fsubs (fmuls b1 x) (fmuls a1 y)) r2;
                  r2 = fsubs (fmuls b2 x) (fmuls a2 y)
              in (f32_put pY c y, bq\<lparr>bq_pR1 := (bq_pR1 bq)[c := coef_of_f32 r1], bq_pR2 := (bq_pR2 bq)[c := coef_of_f32 r2]\<rparr>))
           (pY, pBQ))"

definition ma_biquad_process_pcm_frame_f32 :: "ma_biquad \<Rightarrow> u8 list \<Rightarrow> u8 list \<Rightarrow> u8 list \<times> ma_biquad" where
  "ma_biquad_process_pcm_frame_f32 pBQ pY pX = ma_biquad_process_pcm_frame_f32__direct_form_2_transposed pBQ pY pX"

text \<open>Signed 32-bit arithmetic, wrapping; the shift is arithmetic.\<close>

definition ma_biquad_process_pcm_frame_s16__direct_form_2_transposed :: "ma_biquad \<Rightarrow> u8 list \<Rightarrow> u8 list \<Rightarrow> u8 list \<times> ma_biquad" where
  "ma_biquad_process_pcm_frame_s16__direct_form_2_transposed pBQ pY pX =
     (let b0 = bq_b0 pBQ; b1 = bq_b1 pBQ; b2 = bq_b2 pBQ; a1 = bq_a1 pBQ; a2 = bq_a2 pBQ
      in for_count (bq_channels pBQ)
           (\<lambda>c (pY, bq).
              let r1 = bq_pR1 bq ! c; r2 = bq_pR2 bq ! c; x = scast (s16_at pX c) :: s32;
                  y = signed_drop_bit MA_BIQUAD_FIXED_POINT_SHIFT (b0 * x + r1);
                  r1 = b1 * x - a1 * y + r2;
                  r2 = b2 * x - a2 * y
              in (s16_put pY c (word_of_int (if sint y < - 32768 then - 32768 else if sint y > 32767 then 32767 else sint y)),
                  bq\<lparr>bq_pR1 := (bq_pR1 bq)[c := r1], bq_pR2 := (bq_pR2 bq)[c := r2]\<rparr>))
           (pY, pBQ))"

definition ma_biquad_process_pcm_frame_s16 :: "ma_biquad \<Rightarrow> u8 list \<Rightarrow> u8 list \<Rightarrow> u8 list \<times> ma_biquad" where
  "ma_biquad_process_pcm_frame_s16 pBQ pY pX = ma_biquad_process_pcm_frame_s16__direct_form_2_transposed pBQ pY pX"

text \<open>A filter of single frames applied to frame \<open>i\<close> of two buffers, in frames of \<open>z\<close> bytes.\<close>

definition filter_frame :: "('f \<Rightarrow> u8 list \<Rightarrow> u8 list \<Rightarrow> u8 list \<times> 'f) \<Rightarrow> nat \<Rightarrow> u8 list \<Rightarrow> nat \<Rightarrow> u8 list \<times> 'f \<Rightarrow> u8 list \<times> 'f" where
  "filter_frame step z pFramesIn i = (\<lambda>(out, f). case step f (mem_read out (i * z) z) (mem_read pFramesIn (i * z) z) of
     (y, f) \<Rightarrow> (mem_write out (i * z) y, f))"

text \<open>The buffers may be the same; a frame is read before it is written.\<close>

definition ma_biquad_process_pcm_frames :: "ma_biquad ptr \<Rightarrow> u8 list ptr \<Rightarrow> u8 list ptr \<Rightarrow> u64 \<Rightarrow> (ma_result \<times> u8 list ptr \<times> ma_biquad ptr) option" where
  "ma_biquad_process_pcm_frames pBQ pFramesOut pFramesIn frameCount =
     (case (pBQ, pFramesOut, pFramesIn) of
        (Some bq, Some out, Some src) \<Rightarrow>
          let run = (\<lambda>step z. map_option (\<lambda>(out, bq). (MA_SUCCESS, Some out, Some bq))
                (frames_loop (filter_frame step (z * unat (bq_channels bq)) src) frameCount 0 0 (out, bq)))
          in if bq_format bq = ma_format_f32 then run ma_biquad_process_pcm_frame_f32__direct_form_2_transposed 4
             else if bq_format bq = ma_format_s16 then run ma_biquad_process_pcm_frame_s16__direct_form_2_transposed 2
             else Some (MA_INVALID_ARGS, pFramesOut, pBQ)
      | _ \<Rightarrow> Some (MA_INVALID_ARGS, pFramesOut, pBQ))"

definition ma_biquad_get_latency :: "ma_biquad ptr \<Rightarrow> u32" where
  "ma_biquad_get_latency pBQ = (case pBQ of None \<Rightarrow> 0 | Some _ \<Rightarrow> 2)"

section \<open>First order filter\<close>

record ma_lpf1_config =
  lc_format :: ma_format
  lc_channels :: u32
  lc_sampleRate :: u32
  lc_cutoffFrequency :: fval
  lc_q :: fval

type_synonym ma_lpf2_config = ma_lpf1_config

record ma_lpf1 =
  l1_format :: ma_format
  l1_channels :: u32
  l1_a :: ma_biquad_coefficient
  l1_pR1 :: "ma_biquad_coefficient list"
  l1_pHeap :: "u64 ptr"
  l1_ownsHeap :: bool

definition zero_lpf1 :: ma_lpf1 where
  "zero_lpf1 = \<lparr>l1_format = ma_format_unknown, l1_channels = 0, l1_a = 0, l1_pR1 = [], l1_pHeap = NULL, l1_ownsHeap = False\<rparr>"

definition ma_lpf1_config_init :: "ma_format \<Rightarrow> u32 \<Rightarrow> u32 \<Rightarrow> fval \<Rightarrow> ma_lpf1_config" where
  "ma_lpf1_config_init fmt chs sampleRate cutoffFrequency =
     \<lparr>lc_format = fmt, lc_channels = chs, lc_sampleRate = sampleRate, lc_cutoffFrequency = cutoffFrequency, lc_q = dlit (1 / 2)\<rparr>"

definition ma_lpf2_config_init :: "ma_format \<Rightarrow> u32 \<Rightarrow> u32 \<Rightarrow> fval \<Rightarrow> fval \<Rightarrow> ma_lpf2_config" where
  "ma_lpf2_config_init fmt chs sampleRate cutoffFrequency q =
     \<lparr>lc_format = fmt, lc_channels = chs, lc_sampleRate = sampleRate, lc_cutoffFrequency = cutoffFrequency,
      lc_q = (if feq q (FNum False 0) then dlit (707107 / 1000000) else q)\<rparr>"

record ma_lpf1_heap_layout =
  lh_sizeInBytes :: u64
  lh_r1Offset :: u64

definition ma_lpf1_get_heap_layout :: "ma_lpf1_config ptr \<Rightarrow> ma_result \<times> ma_lpf1_heap_layout" where
  "ma_lpf1_get_heap_layout pConfig =
     (let zero = \<lparr>lh_sizeInBytes = 0, lh_r1Offset = 0\<rparr> in
      case pConfig of
        None \<Rightarrow> (MA_INVALID_ARGS, zero)
      | Some c \<Rightarrow>
          if lc_channels c = 0 then (MA_INVALID_ARGS, zero)
          else (MA_SUCCESS, \<lparr>lh_sizeInBytes = ma_align_64 (4 * ucast (lc_channels c)), lh_r1Offset = 0\<rparr>))"

text \<open>On failure the size is left as it was.\<close>

definition ma_lpf1_get_heap_size :: "ma_lpf1_config ptr \<Rightarrow> u64 \<Rightarrow> ma_result \<times> u64" where
  "ma_lpf1_get_heap_size pConfig sz =
     (case ma_lpf1_get_heap_layout pConfig of (result, l) \<Rightarrow> if result \<noteq> MA_SUCCESS then (result, sz) else (MA_SUCCESS, lh_sizeInBytes l))"

definition ma_lpf1_reinit :: "ma_cpu \<Rightarrow> ma_libm \<Rightarrow> ma_lpf1_config ptr \<Rightarrow> ma_lpf1 ptr \<Rightarrow> ma_result \<times> ma_lpf1 ptr" where
  "ma_lpf1_reinit cpu lm pConfig pLPF =
     (case (pLPF, pConfig) of
        (Some f, Some c) \<Rightarrow>
          if lc_format c \<noteq> ma_format_f32 \<and> lc_format c \<noteq> ma_format_s16 then (MA_INVALID_ARGS, pLPF)
          else if l1_format f \<noteq> ma_format_unknown \<and> l1_format f \<noteq> lc_format c then (MA_INVALID_OPERATION, pLPF)
          else if l1_channels f \<noteq> 0 \<and> l1_channels f \<noteq> lc_channels c then (MA_INVALID_OPERATION, pLPF)
          else let a = ma_expd lm (ddiv (dmul (dmul (dlit (- 2)) MA_PI_D) (lc_cutoffFrequency c)) (d_u32 (lc_sampleRate c)))
               in (MA_SUCCESS, Some (f\<lparr>l1_format := lc_format c, l1_channels := lc_channels c,
                    l1_a := (if lc_format c = ma_format_f32 then coef_of_f32 (fcast binary32 a) else ma_biquad_float_to_fp cpu a)\<rparr>))
      | _ \<Rightarrow> (MA_INVALID_ARGS, pLPF))"

definition ma_lpf1_init_preallocated :: "ma_cpu \<Rightarrow> ma_libm \<Rightarrow> ma_lpf1_config ptr \<Rightarrow> u64 ptr \<Rightarrow> ma_lpf1 ptr \<Rightarrow> ma_result \<times> ma_lpf1 ptr" where
  "ma_lpf1_init_preallocated cpu lm pConfig pHeap pLPF =
     (case pLPF of
        None \<Rightarrow> (MA_INVALID_ARGS, None)
      | Some f \<Rightarrow>
          (case ma_lpf1_get_heap_layout pConfig of (result, l) \<Rightarrow>
             if result \<noteq> MA_SUCCESS then (result, Some zero_lpf1)
             else ma_lpf1_reinit cpu lm pConfig
                    (Some (zero_lpf1\<lparr>l1_pHeap := pHeap, l1_pR1 := replicate (unat (lc_channels (the pConfig))) 0\<rparr>))))"

definition ma_lpf1_init :: "libc \<Rightarrow> ma_cpu \<Rightarrow> ma_libm \<Rightarrow> ma_lpf1_config ptr \<Rightarrow> ma_allocation_callbacks ptr \<Rightarrow> ma_lpf1 ptr \<Rightarrow> ma_result \<times> ma_lpf1 ptr" where
  "ma_lpf1_init sys cpu lm pConfig cb pLPF =
     (case ma_lpf1_get_heap_size pConfig 0 of (result, sz) \<Rightarrow>
        if result \<noteq> MA_SUCCESS then (result, pLPF)
        else let pHeap = (if sz > 0 then ma_malloc sys sz cb else NULL)
             in if sz > 0 \<and> pHeap = NULL then (MA_OUT_OF_MEMORY, pLPF)
                else case ma_lpf1_init_preallocated cpu lm pConfig pHeap pLPF of (result, pLPF) \<Rightarrow>
                       if result \<noteq> MA_SUCCESS then (result, pLPF) else (MA_SUCCESS, map_option (l1_ownsHeap_update (\<lambda>_. True)) pLPF))"

text \<open>This clears the coefficient, not the cache.\<close>

definition ma_lpf1_clear_cache :: "ma_lpf1 ptr \<Rightarrow> ma_result \<times> ma_lpf1 ptr" where
  "ma_lpf1_clear_cache pLPF =
     (case pLPF of
        None \<Rightarrow> (MA_INVALID_ARGS, None)
      | Some f \<Rightarrow> (MA_SUCCESS, Some (f\<lparr>l1_a := (if l1_format f = ma_format_f32 then coef_of_f32 (FNum False 0) else 0)\<rparr>)))"

definition ma_lpf1_process_pcm_frame_f32 :: "ma_lpf1 \<Rightarrow> u8 list \<Rightarrow> u8 list \<Rightarrow> u8 list \<times> ma_lpf1" where
  "ma_lpf1_process_pcm_frame_f32 pLPF pY pX =
     (let a = coef_f32 (l1_a pLPF); b = fsubs (FNum False 1) a
      in for_count (l1_channels pLPF)
           (\<lambda>c (pY, f). let y = fadds (fmuls b (f32_at pX c)) (fmuls a (coef_f32 (l1_pR1 f ! c)))
              in (f32_put pY c y, f\<lparr>l1_pR1 := (l1_pR1 f)[c := coef_of_f32 y]\<rparr>))
           (pY, pLPF))"

definition ma_lpf1_process_pcm_frame_s16 :: "ma_lpf1 \<Rightarrow> u8 list \<Rightarrow> u8 list \<Rightarrow> u8 list \<times> ma_lpf1" where
  "ma_lpf1_process_pcm_frame_s16 pLPF pY pX =
     (let a = l1_a pLPF; b = 2 ^ MA_BIQUAD_FIXED_POINT_SHIFT - a
      in for_count (l1_channels pLPF)
           (\<lambda>c (pY, f). let x = scast (s16_at pX c) :: s32; y = signed_drop_bit MA_BIQUAD_FIXED_POINT_SHIFT (b * x + a * (l1_pR1 f ! c))
              in (s16_put pY c (scast y), f\<lparr>l1_pR1 := (l1_pR1 f)[c := y]\<rparr>))
           (pY, pLPF))"

definition ma_lpf1_process_pcm_frames :: "ma_lpf1 ptr \<Rightarrow> u8 list ptr \<Rightarrow> u8 list ptr \<Rightarrow> u64 \<Rightarrow> (ma_result \<times> u8 list ptr \<times> ma_lpf1 ptr) option" where
  "ma_lpf1_process_pcm_frames pLPF pFramesOut pFramesIn frameCount =
     (case (pLPF, pFramesOut, pFramesIn) of
        (Some f, Some out, Some src) \<Rightarrow>
          let run = (\<lambda>step z. map_option (\<lambda>(out, f). (MA_SUCCESS, Some out, Some f))
                (frames_loop (filter_frame step (z * unat (l1_channels f)) src) frameCount 0 0 (out, f)))
          in if l1_format f = ma_format_f32 then run ma_lpf1_process_pcm_frame_f32 4
             else if l1_format f = ma_format_s16 then run ma_lpf1_process_pcm_frame_s16 2
             else Some (MA_INVALID_ARGS, pFramesOut, pLPF)
      | _ \<Rightarrow> Some (MA_INVALID_ARGS, pFramesOut, pLPF))"

definition ma_lpf1_get_latency :: "ma_lpf1 ptr \<Rightarrow> u32" where
  "ma_lpf1_get_latency pLPF = (case pLPF of None \<Rightarrow> 0 | Some _ \<Rightarrow> 1)"

section \<open>Second order filter\<close>

type_synonym ma_lpf2 = ma_biquad

definition ma_lpf2__get_biquad_config :: "ma_libm \<Rightarrow> ma_lpf2_config \<Rightarrow> ma_biquad_config" where
  "ma_lpf2__get_biquad_config lm pConfig =
     (let q = lc_q pConfig;
          w = ddiv (dmul (dmul (dlit 2) MA_PI_D) (lc_cutoffFrequency pConfig)) (d_u32 (lc_sampleRate pConfig));
          s = ma_sind lm w; c = ma_cosd lm w; a = ddiv s (dmul (dlit 2) q)
      in \<lparr>bc_format = lc_format pConfig, bc_channels = lc_channels pConfig,
          bc_b0 = ddiv (dsub (dlit 1) c) (dlit 2), bc_b1 = dsub (dlit 1) c, bc_b2 = ddiv (dsub (dlit 1) c) (dlit 2),
          bc_a0 = dadd (dlit 1) a, bc_a1 = dmul (dlit (- 2)) c, bc_a2 = dsub (dlit 1) a\<rparr>)"

definition ma_lpf2_get_heap_size :: "ma_libm \<Rightarrow> ma_lpf2_config \<Rightarrow> ma_result \<times> u64" where
  "ma_lpf2_get_heap_size lm pConfig = ma_biquad_get_heap_size (Some (ma_lpf2__get_biquad_config lm pConfig))"

definition ma_lpf2_init_preallocated :: "ma_cpu \<Rightarrow> ma_libm \<Rightarrow> ma_lpf2_config ptr \<Rightarrow> u64 ptr \<Rightarrow> ma_lpf2 ptr \<Rightarrow> ma_result \<times> ma_lpf2 ptr" where
  "ma_lpf2_init_preallocated cpu lm pConfig pHeap pLPF =
     (case pLPF of
        None \<Rightarrow> (MA_INVALID_ARGS, None)
      | Some f \<Rightarrow>
          (case pConfig of
             None \<Rightarrow> (MA_INVALID_ARGS, Some zero_biquad)
           | Some c \<Rightarrow> ma_biquad_init_preallocated cpu (Some (ma_lpf2__get_biquad_config lm c)) pHeap (Some zero_biquad)))"

definition ma_lpf2_init :: "libc \<Rightarrow> ma_cpu \<Rightarrow> ma_libm \<Rightarrow> ma_lpf2_config \<Rightarrow> ma_allocation_callbacks ptr \<Rightarrow> ma_lpf2 ptr \<Rightarrow> ma_result \<times> ma_lpf2 ptr" where
  "ma_lpf2_init sys cpu lm pConfig cb pLPF =
     (case ma_lpf2_get_heap_size lm pConfig of (result, sz) \<Rightarrow>
        if result \<noteq> MA_SUCCESS then (result, pLPF)
        else let pHeap = (if sz > 0 then ma_malloc sys sz cb else NULL)
             in if sz > 0 \<and> pHeap = NULL then (MA_OUT_OF_MEMORY, pLPF)
                else case ma_lpf2_init_preallocated cpu lm (Some pConfig) pHeap pLPF of (result, pLPF) \<Rightarrow>
                       if result \<noteq> MA_SUCCESS then (result, pLPF) else (MA_SUCCESS, map_option (bq_ownsHeap_update (\<lambda>_. True)) pLPF))"

definition ma_lpf2_reinit :: "ma_cpu \<Rightarrow> ma_libm \<Rightarrow> ma_lpf2_config ptr \<Rightarrow> ma_lpf2 ptr \<Rightarrow> ma_result \<times> ma_lpf2 ptr" where
  "ma_lpf2_reinit cpu lm pConfig pLPF =
     (case (pLPF, pConfig) of
        (Some f, Some c) \<Rightarrow> ma_biquad_reinit cpu (Some (ma_lpf2__get_biquad_config lm c)) pLPF
      | _ \<Rightarrow> (MA_INVALID_ARGS, pLPF))"

definition ma_lpf2_clear_cache :: "ma_lpf2 ptr \<Rightarrow> ma_result \<times> ma_lpf2 ptr" where
  "ma_lpf2_clear_cache pLPF = (case pLPF of None \<Rightarrow> (MA_INVALID_ARGS, None) | Some f \<Rightarrow> (MA_SUCCESS, snd (ma_biquad_clear_cache pLPF)))"

definition ma_lpf2_process_pcm_frame_s16 :: "ma_lpf2 \<Rightarrow> u8 list \<Rightarrow> u8 list \<Rightarrow> u8 list \<times> ma_lpf2" where
  "ma_lpf2_process_pcm_frame_s16 pLPF pFrameOut pFrameIn = ma_biquad_process_pcm_frame_s16 pLPF pFrameOut pFrameIn"

definition ma_lpf2_process_pcm_frame_f32 :: "ma_lpf2 \<Rightarrow> u8 list \<Rightarrow> u8 list \<Rightarrow> u8 list \<times> ma_lpf2" where
  "ma_lpf2_process_pcm_frame_f32 pLPF pFrameOut pFrameIn = ma_biquad_process_pcm_frame_f32 pLPF pFrameOut pFrameIn"

definition ma_lpf2_process_pcm_frames :: "ma_lpf2 ptr \<Rightarrow> u8 list ptr \<Rightarrow> u8 list ptr \<Rightarrow> u64 \<Rightarrow> (ma_result \<times> u8 list ptr \<times> ma_lpf2 ptr) option" where
  "ma_lpf2_process_pcm_frames pLPF pFramesOut pFramesIn frameCount = ma_biquad_process_pcm_frames pLPF pFramesOut pFramesIn frameCount"

definition ma_lpf2_get_latency :: "ma_lpf2 ptr \<Rightarrow> u32" where
  "ma_lpf2_get_latency pLPF = ma_biquad_get_latency pLPF"

section \<open>Filter of any order\<close>

abbreviation (input) MA_MAX_FILTER_ORDER :: u32 where "MA_MAX_FILTER_ORDER \<equiv> 8"

record ma_lpf_config =
  lfc_format :: ma_format
  lfc_channels :: u32
  lfc_sampleRate :: u32
  lfc_cutoffFrequency :: fval
  lfc_order :: u32

text \<open>The counts of the sub-filters are kept beside the arrays.\<close>

record ma_lpf =
  lpf_format :: ma_format
  lpf_channels :: u32
  lpf_sampleRate :: u32
  lpf1Count :: u32
  lpf2Count :: u32
  pLPF1 :: "ma_lpf1 list"
  pLPF2 :: "ma_lpf2 list"
  lpf_pHeap :: "u64 ptr"
  lpf_ownsHeap :: bool

definition zero_lpf :: ma_lpf where
  "zero_lpf = \<lparr>lpf_format = ma_format_unknown, lpf_channels = 0, lpf_sampleRate = 0, lpf1Count = 0, lpf2Count = 0,
     pLPF1 = [], pLPF2 = [], lpf_pHeap = NULL, lpf_ownsHeap = False\<rparr>"

definition ma_lpf_config_init :: "ma_format \<Rightarrow> u32 \<Rightarrow> u32 \<Rightarrow> fval \<Rightarrow> u32 \<Rightarrow> ma_lpf_config" where
  "ma_lpf_config_init fmt chs sampleRate cutoffFrequency order =
     \<lparr>lfc_format = fmt, lfc_channels = chs, lfc_sampleRate = sampleRate, lfc_cutoffFrequency = cutoffFrequency,
      lfc_order = (if order < MA_MAX_FILTER_ORDER then order else MA_MAX_FILTER_ORDER)\<rparr>"

definition ma_lpf_calculate_sub_lpf_counts :: "u32 \<Rightarrow> u32 \<times> u32" where
  "ma_lpf_calculate_sub_lpf_counts order = (order mod 2, order div 2)"

record ma_lpf_heap_layout =
  fh_sizeInBytes :: u64
  fh_lpf1Offset :: u64
  fh_lpf2Offset :: u64

abbreviation (input) sizeof_ma_lpf1 :: u64 where "sizeof_ma_lpf1 \<equiv> 40"
abbreviation (input) sizeof_ma_lpf2 :: u64 where "sizeof_ma_lpf2 \<equiv> 64"

text \<open>The sizes of the sub-filters are added until one fails.\<close>

primrec add_heap_sizes :: "ma_result \<times> u64 \<Rightarrow> nat \<Rightarrow> u64 \<Rightarrow> ma_result \<times> u64" where
  "add_heap_sizes sz 0 acc = (MA_SUCCESS, acc)"
| "add_heap_sizes sz (Suc n) acc = (if fst sz \<noteq> MA_SUCCESS then (fst sz, acc) else add_heap_sizes sz n (acc + snd sz))"

definition ma_lpf_get_heap_layout :: "ma_libm \<Rightarrow> ma_lpf_config ptr \<Rightarrow> ma_result \<times> ma_lpf_heap_layout" where
  "ma_lpf_get_heap_layout lm pConfig =
     (let zero = \<lparr>fh_sizeInBytes = 0, fh_lpf1Offset = 0, fh_lpf2Offset = 0\<rparr> in
      case pConfig of
        None \<Rightarrow> (MA_INVALID_ARGS, zero)
      | Some c \<Rightarrow>
          if lfc_channels c = 0 then (MA_INVALID_ARGS, zero)
          else if lfc_order c > MA_MAX_FILTER_ORDER then (MA_INVALID_ARGS, zero)
          else let (n1, n2) = ma_lpf_calculate_sub_lpf_counts (lfc_order c);
                   (r1, z1) = ma_lpf1_get_heap_size (Some (ma_lpf1_config_init (lfc_format c) (lfc_channels c) (lfc_sampleRate c) (lfc_cutoffFrequency c))) 0;
                   (r2, z2) = ma_lpf2_get_heap_size lm (ma_lpf2_config_init (lfc_format c) (lfc_channels c) (lfc_sampleRate c) (lfc_cutoffFrequency c)
                                (dlit (707107 / 1000000)))
               in case add_heap_sizes (r1, sizeof_ma_lpf1 + z1) (unat n1) 0 of (result, s1) \<Rightarrow>
                    if result \<noteq> MA_SUCCESS then (result, zero\<lparr>fh_sizeInBytes := s1\<rparr>)
                    else case add_heap_sizes (r2, sizeof_ma_lpf2 + z2) (unat n2) s1 of (result, s2) \<Rightarrow>
                           if result \<noteq> MA_SUCCESS then (result, zero\<lparr>fh_sizeInBytes := s2, fh_lpf2Offset := s1\<rparr>)
                           else (MA_SUCCESS, \<lparr>fh_sizeInBytes = ma_align_64 s2, fh_lpf1Offset = 0, fh_lpf2Offset = s1\<rparr>))"

definition ma_lpf_get_heap_size :: "ma_libm \<Rightarrow> ma_lpf_config ptr \<Rightarrow> ma_result \<times> u64" where
  "ma_lpf_get_heap_size lm pConfig =
     (case ma_lpf_get_heap_layout lm pConfig of (result, l) \<Rightarrow> if result \<noteq> MA_SUCCESS then (result, 0) else (result, fh_sizeInBytes l))"

text \<open>Set up each sub-filter in turn, until one fails.\<close>

fun each_filter :: "(nat \<Rightarrow> 'f ptr \<Rightarrow> ma_result \<times> 'f ptr) \<Rightarrow> nat \<Rightarrow> 'f list \<Rightarrow> ma_result \<times> 'f list" where
  "each_filter setup i [] = (MA_SUCCESS, [])"
| "each_filter setup i (f # fs) = (case setup i (Some f) of (result, f') \<Rightarrow>
     if result \<noteq> MA_SUCCESS then (result, the f' # fs)
     else case each_filter setup (Suc i) fs of (result, fs') \<Rightarrow> (result, the f' # fs'))"

text \<open>The quality of a second order section of a Butterworth filter.\<close>

definition lpf2_q :: "ma_libm \<Rightarrow> u32 \<Rightarrow> u32 \<Rightarrow> u32 \<Rightarrow> fval" where
  "lpf2_q lm order n1 i =
     (let a = (if n1 = 1 then dmul (d_u32 (1 + i * 1)) (ddiv MA_PI_D (d_u32 (order * 1)))
               else dmul (d_u32 (1 + i * 2)) (ddiv MA_PI_D (d_u32 (order * 2))))
      in ddiv (dlit 1) (dmul (dlit 2) (ma_cosd lm a)))"

definition lpf1_setup :: "ma_cpu \<Rightarrow> ma_libm \<Rightarrow> bool \<Rightarrow> ma_lpf_config \<Rightarrow> u64 ptr \<Rightarrow> nat \<Rightarrow> ma_lpf1 ptr \<Rightarrow> ma_result \<times> ma_lpf1 ptr" where
  "lpf1_setup cpu lm isNew c pHeap i f =
     (let config = ma_lpf1_config_init (lfc_format c) (lfc_channels c) (lfc_sampleRate c) (lfc_cutoffFrequency c)
      in if isNew
         then case ma_lpf1_get_heap_size (Some config) 0 of (result, sz) \<Rightarrow>
                if result = MA_SUCCESS then ma_lpf1_init_preallocated cpu lm (Some config) pHeap f else (result, f)
         else ma_lpf1_reinit cpu lm (Some config) f)"

definition lpf2_setup :: "ma_cpu \<Rightarrow> ma_libm \<Rightarrow> bool \<Rightarrow> ma_lpf_config \<Rightarrow> u64 ptr \<Rightarrow> u32 \<Rightarrow> nat \<Rightarrow> ma_lpf2 ptr \<Rightarrow> ma_result \<times> ma_lpf2 ptr" where
  "lpf2_setup cpu lm isNew c pHeap n1 i f =
     (let config = ma_lpf2_config_init (lfc_format c) (lfc_channels c) (lfc_sampleRate c) (lfc_cutoffFrequency c) (lpf2_q lm (lfc_order c) n1 (of_nat i))
      in if isNew
         then case ma_lpf2_get_heap_size lm config of (result, sz) \<Rightarrow>
                if result = MA_SUCCESS then ma_lpf2_init_preallocated cpu lm (Some config) pHeap f else (result, f)
         else ma_lpf2_reinit cpu lm (Some config) f)"

text \<open>The heap of a sub-filter is part of the heap of the filter; a sub-filter does not own it,
  so that there is nothing to release when a later one fails.\<close>

definition ma_lpf_reinit__internal :: "ma_cpu \<Rightarrow> ma_libm \<Rightarrow> ma_lpf_config ptr \<Rightarrow> u64 ptr \<Rightarrow> ma_lpf ptr \<Rightarrow> bool \<Rightarrow> ma_result \<times> ma_lpf ptr" where
  "ma_lpf_reinit__internal cpu lm pConfig pHeap pLPF isNew =
     (case (pLPF, pConfig) of
        (Some f, Some c) \<Rightarrow>
          if lfc_format c \<noteq> ma_format_f32 \<and> lfc_format c \<noteq> ma_format_s16 then (MA_INVALID_ARGS, pLPF)
          else if lpf_format f \<noteq> ma_format_unknown \<and> lpf_format f \<noteq> lfc_format c then (MA_INVALID_OPERATION, pLPF)
          else if lpf_channels f \<noteq> 0 \<and> lpf_channels f \<noteq> lfc_channels c then (MA_INVALID_OPERATION, pLPF)
          else if lfc_order c > MA_MAX_FILTER_ORDER then (MA_INVALID_ARGS, pLPF)
          else let (n1, n2) = ma_lpf_calculate_sub_lpf_counts (lfc_order c)
               in if \<not> isNew \<and> (lpf1Count f \<noteq> n1 \<or> lpf2Count f \<noteq> n2) then (MA_INVALID_OPERATION, pLPF)
                  else let result = (if isNew then fst (ma_lpf_get_heap_layout lm pConfig) else MA_SUCCESS) in
                    if result \<noteq> MA_SUCCESS then (result, pLPF)
                    else let f = (if isNew then f\<lparr>lpf_pHeap := pHeap, pLPF1 := replicate (unat n1) zero_lpf1, pLPF2 := replicate (unat n2) zero_biquad\<rparr> else f)
                         in case each_filter (lpf1_setup cpu lm isNew c pHeap) 0 (pLPF1 f) of (result, fs1) \<Rightarrow>
                              let f = f\<lparr>pLPF1 := fs1\<rparr> in
                              if result \<noteq> MA_SUCCESS then (result, Some f)
                              else case each_filter (lpf2_setup cpu lm isNew c pHeap n1) 0 (pLPF2 f) of (result, fs2) \<Rightarrow>
                                     let f = f\<lparr>pLPF2 := fs2\<rparr> in
                                     if result \<noteq> MA_SUCCESS then (result, Some f)
                                     else (MA_SUCCESS, Some (f\<lparr>lpf1Count := n1, lpf2Count := n2, lpf_format := lfc_format c,
                                            lpf_channels := lfc_channels c, lpf_sampleRate := lfc_sampleRate c\<rparr>))
      | _ \<Rightarrow> (MA_INVALID_ARGS, pLPF))"

definition ma_lpf_init_preallocated :: "ma_cpu \<Rightarrow> ma_libm \<Rightarrow> ma_lpf_config ptr \<Rightarrow> u64 ptr \<Rightarrow> ma_lpf ptr \<Rightarrow> ma_result \<times> ma_lpf ptr" where
  "ma_lpf_init_preallocated cpu lm pConfig pHeap pLPF =
     (case pLPF of
        None \<Rightarrow> (MA_INVALID_ARGS, None)
      | Some f \<Rightarrow> ma_lpf_reinit__internal cpu lm pConfig pHeap (Some zero_lpf) True)"

definition ma_lpf_init :: "libc \<Rightarrow> ma_cpu \<Rightarrow> ma_libm \<Rightarrow> ma_lpf_config ptr \<Rightarrow> ma_allocation_callbacks ptr \<Rightarrow> ma_lpf ptr \<Rightarrow> ma_result \<times> ma_lpf ptr" where
  "ma_lpf_init sys cpu lm pConfig cb pLPF =
     (case ma_lpf_get_heap_size lm pConfig of (result, sz) \<Rightarrow>
        if result \<noteq> MA_SUCCESS then (result, pLPF)
        else let pHeap = (if sz > 0 then ma_malloc sys sz cb else NULL)
             in if sz > 0 \<and> pHeap = NULL then (MA_OUT_OF_MEMORY, pLPF)
                else case ma_lpf_init_preallocated cpu lm pConfig pHeap pLPF of (result, pLPF) \<Rightarrow>
                       if result \<noteq> MA_SUCCESS then (result, pLPF) else (MA_SUCCESS, map_option (lpf_ownsHeap_update (\<lambda>_. True)) pLPF))"

definition ma_lpf_reinit :: "ma_cpu \<Rightarrow> ma_libm \<Rightarrow> ma_lpf_config ptr \<Rightarrow> ma_lpf ptr \<Rightarrow> ma_result \<times> ma_lpf ptr" where
  "ma_lpf_reinit cpu lm pConfig pLPF = ma_lpf_reinit__internal cpu lm pConfig NULL pLPF False"

definition ma_lpf_clear_cache :: "ma_lpf ptr \<Rightarrow> ma_result \<times> ma_lpf ptr" where
  "ma_lpf_clear_cache pLPF =
     (case pLPF of
        None \<Rightarrow> (MA_INVALID_ARGS, None)
      | Some f \<Rightarrow> (MA_SUCCESS, Some (f\<lparr>pLPF1 := map (\<lambda>g. the (snd (ma_lpf1_clear_cache (Some g)))) (pLPF1 f),
                    pLPF2 := map (\<lambda>g. the (snd (ma_lpf2_clear_cache (Some g)))) (pLPF2 f)\<rparr>)))"

text \<open>A frame through a chain of filters.\<close>

fun chain_frame :: "('f \<Rightarrow> u8 list \<Rightarrow> u8 list \<Rightarrow> u8 list \<times> 'f) \<Rightarrow> 'f list \<Rightarrow> u8 list \<Rightarrow> u8 list \<times> 'f list" where
  "chain_frame step [] y = (y, [])"
| "chain_frame step (f # fs) y = (case step f y y of (y, f) \<Rightarrow> case chain_frame step fs y of (y, fs) \<Rightarrow> (y, f # fs))"

definition lpf_frame :: "(ma_lpf1 \<Rightarrow> u8 list \<Rightarrow> u8 list \<Rightarrow> u8 list \<times> ma_lpf1) \<Rightarrow> (ma_lpf2 \<Rightarrow> u8 list \<Rightarrow> u8 list \<Rightarrow> u8 list \<times> ma_lpf2)
    \<Rightarrow> ma_lpf \<Rightarrow> u8 list \<Rightarrow> u8 list \<Rightarrow> u8 list \<times> ma_lpf" where
  "lpf_frame step1 step2 f pY pX =
     (let pY = mem_write pY 0 (mem_read pX 0 (unat (ma_get_bytes_per_frame (lpf_format f) (lpf_channels f))))
      in case chain_frame step1 (pLPF1 f) pY of (pY, fs1) \<Rightarrow>
         case chain_frame step2 (pLPF2 f) pY of (pY, fs2) \<Rightarrow> (pY, f\<lparr>pLPF1 := fs1, pLPF2 := fs2\<rparr>))"

definition ma_lpf_process_pcm_frame_f32 :: "ma_lpf \<Rightarrow> u8 list \<Rightarrow> u8 list \<Rightarrow> u8 list \<times> ma_lpf" where
  "ma_lpf_process_pcm_frame_f32 = lpf_frame ma_lpf1_process_pcm_frame_f32 ma_lpf2_process_pcm_frame_f32"

definition ma_lpf_process_pcm_frame_s16 :: "ma_lpf \<Rightarrow> u8 list \<Rightarrow> u8 list \<Rightarrow> u8 list \<times> ma_lpf" where
  "ma_lpf_process_pcm_frame_s16 = lpf_frame ma_lpf1_process_pcm_frame_s16 ma_lpf2_process_pcm_frame_s16"

text \<open>In place, each filter runs over the whole buffer before the next.\<close>

fun chain_frames :: "('f ptr \<Rightarrow> u8 list ptr \<Rightarrow> u8 list ptr \<Rightarrow> u64 \<Rightarrow> (ma_result \<times> u8 list ptr \<times> 'f ptr) option) \<Rightarrow> u64 \<Rightarrow> 'f list \<Rightarrow> u8 list ptr
    \<Rightarrow> (ma_result \<times> u8 list ptr \<times> 'f list) option" where
  "chain_frames run frameCount [] buf = Some (MA_SUCCESS, buf, [])"
| "chain_frames run frameCount (f # fs) buf =
     (case run (Some f) buf buf frameCount of
        None \<Rightarrow> None
      | Some (result, buf, f') \<Rightarrow>
          if result \<noteq> MA_SUCCESS then Some (result, buf, the f' # fs)
          else map_option (\<lambda>(result, buf, fs). (result, buf, the f' # fs)) (chain_frames run frameCount fs buf))"

text \<open>\<open>pFramesIn = None\<close> says that the output pointer is also the input pointer.\<close>

definition ma_lpf_process_pcm_frames :: "ma_lpf ptr \<Rightarrow> u8 list ptr \<Rightarrow> u8 list option \<Rightarrow> u64 \<Rightarrow> (ma_result \<times> u8 list ptr \<times> ma_lpf ptr) option" where
  "ma_lpf_process_pcm_frames pLPF pFramesOut pFramesIn frameCount =
     (case pLPF of
        None \<Rightarrow> Some (MA_INVALID_ARGS, pFramesOut, None)
      | Some f \<Rightarrow>
          (case pFramesIn of
             None \<Rightarrow>
               (case chain_frames ma_lpf1_process_pcm_frames frameCount (pLPF1 f) pFramesOut of
                  None \<Rightarrow> None
                | Some (result, out, fs1) \<Rightarrow>
                    if result \<noteq> MA_SUCCESS then Some (result, out, Some (f\<lparr>pLPF1 := fs1\<rparr>))
                    else map_option (\<lambda>(result, out, fs2). (result, out, Some (f\<lparr>pLPF1 := fs1, pLPF2 := fs2\<rparr>)))
                           (chain_frames ma_lpf2_process_pcm_frames frameCount (pLPF2 f) out))
           | Some src \<Rightarrow>
               let run = (\<lambda>step. map_option (\<lambda>(out, f). (MA_SUCCESS, Some out, Some f))
                     (frames_loop (filter_frame step (unat (ma_get_bytes_per_frame (lpf_format f) (lpf_channels f))) src) frameCount 0 0 (the pFramesOut, f)))
               in if lpf_format f = ma_format_f32 then run ma_lpf_process_pcm_frame_f32
                  else if lpf_format f = ma_format_s16 then run ma_lpf_process_pcm_frame_s16
                  else Some (MA_INVALID_OPERATION, pFramesOut, pLPF)))"

definition ma_lpf_get_latency :: "ma_lpf ptr \<Rightarrow> u32" where
  "ma_lpf_get_latency pLPF = (case pLPF of None \<Rightarrow> 0 | Some f \<Rightarrow> lpf2Count f * 2 + lpf1Count f)"

section \<open>Releasing\<close>

text \<open>The addresses given back to the allocator.\<close>

definition ma_biquad_uninit :: "ma_biquad ptr \<Rightarrow> u64 ptr list" where
  "ma_biquad_uninit pBQ = (case pBQ of None \<Rightarrow> [] | Some bq \<Rightarrow> if bq_ownsHeap bq then [bq_pHeap bq] else [])"

definition ma_lpf1_uninit :: "ma_lpf1 ptr \<Rightarrow> u64 ptr list" where
  "ma_lpf1_uninit pLPF = (case pLPF of None \<Rightarrow> [] | Some f \<Rightarrow> if l1_ownsHeap f then [l1_pHeap f] else [])"

definition ma_lpf2_uninit :: "ma_lpf2 ptr \<Rightarrow> u64 ptr list" where
  "ma_lpf2_uninit pLPF = (case pLPF of None \<Rightarrow> [] | Some f \<Rightarrow> ma_biquad_uninit pLPF)"

definition ma_lpf_uninit :: "ma_lpf ptr \<Rightarrow> u64 ptr list" where
  "ma_lpf_uninit pLPF = (case pLPF of None \<Rightarrow> [] | Some f \<Rightarrow>
     concat (map (\<lambda>g. ma_lpf1_uninit (Some g)) (pLPF1 f)) @ concat (map (\<lambda>g. ma_lpf2_uninit (Some g)) (pLPF2 f))
     @ (if lpf_ownsHeap f then [lpf_pHeap f] else []))"

section \<open>Resetting\<close>

text \<open>Clearing the cache of a filter keeps what the second order sections remember of every channel but
  the first, and everything that the first order section remembers.\<close>

lemma clear_cache_keeps:
  assumes "ma_lpf_clear_cache (Some f) = (MA_SUCCESS, Some f')"
  shows "\<And>i c. i < length (pLPF2 f) \<Longrightarrow> 0 < c \<Longrightarrow> bq_pR1 (pLPF2 f' ! i) ! c = bq_pR1 (pLPF2 f ! i) ! c \<and> bq_pR2 (pLPF2 f' ! i) ! c = bq_pR2 (pLPF2 f ! i) ! c"
    and "\<And>i. i < length (pLPF1 f) \<Longrightarrow> l1_pR1 (pLPF1 f' ! i) = l1_pR1 (pLPF1 f ! i)"
    and "\<And>i. i < length (pLPF1 f) \<Longrightarrow> l1_format (pLPF1 f ! i) \<noteq> ma_format_f32 \<Longrightarrow> l1_a (pLPF1 f' ! i) = 0"
    and "\<And>i. i < length (pLPF1 f) \<Longrightarrow> l1_channels (pLPF1 f' ! i) = l1_channels (pLPF1 f ! i)"
  using assms by (auto simp: ma_lpf_clear_cache_def ma_lpf1_clear_cache_def ma_lpf2_clear_cache_def ma_biquad_clear_cache_def Let_def)

lemma sint_in_s32: "- 2147483648 \<le> z \<Longrightarrow> z < 2147483648 \<Longrightarrow> sint (word_of_int z :: s32) = z"
  by (simp add: signed_of_int signed_take_bit_int_eq_self)

lemma fold_fst: "(\<And>c y f. fst (step c (y, f)) = g c y) \<Longrightarrow> fst (fold step cs (y, f)) = fold g cs y"
proof (induction cs arbitrary: y f)
  case (Cons c cs)
  obtain y' f' where s: "step c (y, f) = (y', f')" by fastforce
  then have "y' = g c y" using Cons.prems [of c y f] by simp
  then show ?case using Cons.IH [OF Cons.prems, of y' f'] s by simp
qed simp

text \<open>Without its coefficient the first order filter passes every sample on.\<close>

lemma lpf1_passes:
  assumes "l1_a f = 0" "length pX = 2 * unat (l1_channels f)" "length pY = length pX"
  shows "fst (ma_lpf1_process_pcm_frame_s16 f pY pX) = pX"
proof -
  have x: "(scast (signed_drop_bit 14 (16384 * scast (x :: s16) :: s32)) :: s16) = x" for x
  proof -
    have "sint (16384 * scast x :: s32) = 16384 * sint x"
    proof -
      have "(16384 * scast x :: s32) = word_of_int (16384 * sint x)" by simp
      moreover have "- 2147483648 \<le> 16384 * sint x" "16384 * sint x < 2147483648" using sint_ge [of x] sint_lt [of x] by simp_all
      ultimately show ?thesis by (simp only: sint_in_s32)
    qed
    then have "sint (signed_drop_bit 14 (16384 * scast x :: s32)) = sint x" by (simp add: sint_signed_drop_bit_eq drop_bit_eq_div)
    then have "(scast (signed_drop_bit 14 (16384 * scast x :: s32)) :: s16) = word_of_int (sint x)" unfolding scast_eq by (simp only:)
    then show ?thesis by simp
  qed
  have "fst (ma_lpf1_process_pcm_frame_s16 f pY pX) = fold (\<lambda>c y. s16_put y c (s16_at pX c)) [0..<unat (l1_channels f)] pY"
    unfolding ma_lpf1_process_pcm_frame_s16_def for_count_def Let_def by (rule fold_fst) (simp add: assms(1) x split: prod.split)
  also have "\<dots> = for_count (l1_channels f) (\<lambda>c y. s16_put y c (s16_at pX c)) pY" by (simp only: for_count_def)
  also have "\<dots> = concat (map (\<lambda>i. le_bytes 2 (unat (s16_at pX i))) [0..<unat (l1_channels f)])"
    using assms(2,3) by (subst s16_loop) simp_all
  also have "\<dots> = pX"
    using assms(2) by (subst concat_map_upt_cong [where h = "\<lambda>i. mem_read pX (2 * i) 2"]) (simp_all add: mem_read_bytes concat_reads)
  finally show ?thesis .
qed

end
