(* ===== verification/MaResampler.thy ===== *)
theory MaResampler
  imports MaFilter
begin

text \<open>
  The linear resampler of miniaudio. Its timer says, in units of one over the output rate, how
  far the next output frame is from the frames it has loaded; whole units are input frames to
  load. The previous and the next input frame are the bytes of their samples.
\<close>

section \<open>State\<close>

lemma unat_next: "i < n \<Longrightarrow> unat (i + 1) = Suc (unat i)" for i n :: "'a::len word"
proof -
  assume "i < n"
  moreover have "unat n < 2 ^ LENGTH('a)" by (rule unsigned_less)
  ultimately have "Suc (unat i) < 2 ^ LENGTH('a)" unfolding word_less_nat_alt by linarith
  then show ?thesis using unat_add_lt [of i 1] by simp
qed

lemma count_up: "i < n \<Longrightarrow> unat n - unat (i + 1) < unat n - unat i" for i n :: "'a::len word"
  using unat_next [of i n] by (simp add: word_less_nat_alt)

record ma_linear_resampler_config =
  rc_format :: ma_format
  rc_channels :: u32
  rc_sampleRateIn :: u32
  rc_sampleRateOut :: u32
  rc_lpfOrder :: u32
  rc_lpfNyquistFactor :: fval

record ma_linear_resampler =
  lr_config :: ma_linear_resampler_config
  lr_inAdvanceInt :: u32
  lr_inAdvanceFrac :: u32
  lr_inTimeInt :: u32
  lr_inTimeFrac :: u32
  lr_x0 :: "u8 list"
  lr_x1 :: "u8 list"
  lr_lpf :: ma_lpf
  lr_pHeap :: "u64 ptr"
  lr_ownsHeap :: bool

abbreviation (input) lr_in :: "ma_linear_resampler \<Rightarrow> u32" where "lr_in r \<equiv> rc_sampleRateIn (lr_config r)"
abbreviation (input) lr_out :: "ma_linear_resampler \<Rightarrow> u32" where "lr_out r \<equiv> rc_sampleRateOut (lr_config r)"
abbreviation (input) lr_channels :: "ma_linear_resampler \<Rightarrow> u32" where "lr_channels r \<equiv> rc_channels (lr_config r)"

definition zero_resampler :: ma_linear_resampler where
  "zero_resampler = \<lparr>lr_config = \<lparr>rc_format = ma_format_unknown, rc_channels = 0, rc_sampleRateIn = 0, rc_sampleRateOut = 0, rc_lpfOrder = 0,
       rc_lpfNyquistFactor = FNum False 0\<rparr>, lr_inAdvanceInt = 0, lr_inAdvanceFrac = 0, lr_inTimeInt = 0, lr_inTimeFrac = 0,
     lr_x0 = [], lr_x1 = [], lr_lpf = zero_lpf, lr_pHeap = NULL, lr_ownsHeap = False\<rparr>"

text \<open>\<open>MA_DEFAULT_RESAMPLER_LPF_ORDER\<close> is 4.\<close>

definition ma_linear_resampler_config_init :: "ma_format \<Rightarrow> u32 \<Rightarrow> u32 \<Rightarrow> u32 \<Rightarrow> ma_linear_resampler_config" where
  "ma_linear_resampler_config_init fmt chs sampleRateIn sampleRateOut =
     \<lparr>rc_format = fmt, rc_channels = chs, rc_sampleRateIn = sampleRateIn, rc_sampleRateOut = sampleRateOut,
      rc_lpfOrder = (if 4 < MA_MAX_FILTER_ORDER then 4 else MA_MAX_FILTER_ORDER), rc_lpfNyquistFactor = FNum False 1\<rparr>"

function ma_gcf_u32 :: "u32 \<Rightarrow> u32 \<Rightarrow> u32" where
  "ma_gcf_u32 a b = (if b = 0 then a else ma_gcf_u32 b (a mod b))"
  by pat_completeness auto
termination
  by (relation "measure (\<lambda>(a, b). unat b)") (auto simp: unat_mod word_neq_0_conv word_less_nat_alt)

section \<open>Opening and setting the rate\<close>

definition ma_linear_resampler_adjust_timer_for_new_rate :: "ma_linear_resampler \<Rightarrow> u32 \<Rightarrow> u32 \<Rightarrow> ma_linear_resampler" where
  "ma_linear_resampler_adjust_timer_for_new_rate r oldSampleRateOut newSampleRateOut =
     (let oldRateTimeWhole = lr_inTimeFrac r div oldSampleRateOut; oldRateTimeFract = lr_inTimeFrac r mod oldSampleRateOut;
          frac = oldRateTimeWhole * newSampleRateOut + oldRateTimeFract * newSampleRateOut div oldSampleRateOut
      in r\<lparr>lr_inTimeInt := lr_inTimeInt r + frac div lr_out r, lr_inTimeFrac := frac mod lr_out r\<rparr>)"

definition ma_linear_resampler_set_rate_internal :: "ma_cpu \<Rightarrow> ma_libm \<Rightarrow> ma_linear_resampler ptr \<Rightarrow> u64 ptr \<Rightarrow> u32 \<Rightarrow> u32 \<Rightarrow> bool
    \<Rightarrow> ma_result \<times> ma_linear_resampler ptr" where
  "ma_linear_resampler_set_rate_internal cpu lm pResampler pHeap sampleRateIn sampleRateOut isResamplerAlreadyInitialized =
     (case pResampler of
        None \<Rightarrow> (MA_INVALID_ARGS, None)
      | Some r \<Rightarrow>
          if sampleRateIn = 0 \<or> sampleRateOut = 0 then (MA_INVALID_ARGS, pResampler)
          else let oldSampleRateOut = lr_out r;
                   gcf = ma_gcf_u32 sampleRateIn sampleRateOut;
                   rin = sampleRateIn div gcf; rout = sampleRateOut div gcf;
                   r = r\<lparr>lr_config := (lr_config r)\<lparr>rc_sampleRateIn := rin, rc_sampleRateOut := rout\<rparr>\<rparr>
               in if rc_lpfOrder (lr_config r) > MA_MAX_FILTER_ORDER then (MA_INVALID_ARGS, Some r)
                  else let lpfSampleRate = (if rin > rout then rin else rout);
                           lpfCutoffFrequency = dmul (dmul (d_u32 (if rin < rout then rin else rout)) (dlit (1 / 2))) (rc_lpfNyquistFactor (lr_config r));
                           lpfConfig = ma_lpf_config_init (rc_format (lr_config r)) (lr_channels r) lpfSampleRate lpfCutoffFrequency (rc_lpfOrder (lr_config r));
                           (result, lpf) = (if isResamplerAlreadyInitialized then ma_lpf_reinit cpu lm (Some lpfConfig) (Some (lr_lpf r))
                                            else ma_lpf_init_preallocated cpu lm (Some lpfConfig) pHeap (Some (lr_lpf r)));
                           r = r\<lparr>lr_lpf := the lpf\<rparr>
                       in if result \<noteq> MA_SUCCESS then (result, Some r)
                          else (MA_SUCCESS, Some (ma_linear_resampler_adjust_timer_for_new_rate
                                  (r\<lparr>lr_inAdvanceInt := rin div rout, lr_inAdvanceFrac := rin mod rout\<rparr>) oldSampleRateOut rout)))"

record ma_linear_resampler_heap_layout =
  rh_sizeInBytes :: u64
  rh_x0Offset :: u64
  rh_x1Offset :: u64
  rh_lpfOffset :: u64

definition ma_linear_resampler_get_heap_layout :: "ma_libm \<Rightarrow> ma_linear_resampler_config ptr \<Rightarrow> ma_result \<times> ma_linear_resampler_heap_layout" where
  "ma_linear_resampler_get_heap_layout lm pConfig =
     (let zero = \<lparr>rh_sizeInBytes = 0, rh_x0Offset = 0, rh_x1Offset = 0, rh_lpfOffset = 0\<rparr> in
      case pConfig of
        None \<Rightarrow> (MA_INVALID_ARGS, zero)
      | Some c \<Rightarrow>
          if rc_format c \<noteq> ma_format_f32 \<and> rc_format c \<noteq> ma_format_s16 then (MA_INVALID_ARGS, zero)
          else if rc_channels c = 0 then (MA_INVALID_ARGS, zero)
          else let frame = (if rc_format c = ma_format_f32 then 4 else 2) * ucast (rc_channels c);
                   l = zero\<lparr>rh_sizeInBytes := frame + frame, rh_x1Offset := frame, rh_lpfOffset := ma_align_64 (frame + frame)\<rparr>
               in case ma_lpf_get_heap_size lm (Some (ma_lpf_config_init (rc_format c) (rc_channels c) 1 (dlit 1) (rc_lpfOrder c))) of (result, lpfSize) \<Rightarrow>
                    if result \<noteq> MA_SUCCESS then (result, l)
                    else (MA_SUCCESS, l\<lparr>rh_sizeInBytes := ma_align_64 (rh_sizeInBytes l + lpfSize)\<rparr>))"

definition ma_linear_resampler_get_heap_size :: "ma_libm \<Rightarrow> ma_linear_resampler_config ptr \<Rightarrow> ma_result \<times> u64" where
  "ma_linear_resampler_get_heap_size lm pConfig =
     (case ma_linear_resampler_get_heap_layout lm pConfig of (result, l) \<Rightarrow> if result \<noteq> MA_SUCCESS then (result, 0) else (MA_SUCCESS, rh_sizeInBytes l))"

text \<open>The heap of the filter starts at an offset in the heap of the resampler.\<close>

definition ma_linear_resampler_init_preallocated :: "ma_cpu \<Rightarrow> ma_libm \<Rightarrow> ma_linear_resampler_config ptr \<Rightarrow> u64 ptr \<Rightarrow> ma_linear_resampler ptr
    \<Rightarrow> ma_result \<times> ma_linear_resampler ptr" where
  "ma_linear_resampler_init_preallocated cpu lm pConfig pHeap pResampler =
     (case pResampler of
        None \<Rightarrow> (MA_INVALID_ARGS, None)
      | Some _ \<Rightarrow>
          (case ma_linear_resampler_get_heap_layout lm pConfig of (result, l) \<Rightarrow>
             if result \<noteq> MA_SUCCESS then (result, Some zero_resampler)
             else let c = the pConfig; frame = replicate ((if rc_format c = ma_format_f32 then 4 else 2) * unat (rc_channels c)) 0
                  in case ma_linear_resampler_set_rate_internal cpu lm
                            (Some (zero_resampler\<lparr>lr_config := c, lr_pHeap := pHeap, lr_x0 := frame, lr_x1 := frame\<rparr>))
                            (map_option (\<lambda>p. p + rh_lpfOffset l) pHeap) (rc_sampleRateIn c) (rc_sampleRateOut c) False of
                       (result, r) \<Rightarrow> if result \<noteq> MA_SUCCESS then (result, r)
                                      else (MA_SUCCESS, map_option (\<lambda>r. r\<lparr>lr_inTimeInt := 1, lr_inTimeFrac := 0\<rparr>) r)))"

definition ma_linear_resampler_init :: "libc \<Rightarrow> ma_cpu \<Rightarrow> ma_libm \<Rightarrow> ma_linear_resampler_config ptr \<Rightarrow> ma_allocation_callbacks ptr
    \<Rightarrow> ma_linear_resampler ptr \<Rightarrow> ma_result \<times> ma_linear_resampler ptr" where
  "ma_linear_resampler_init sys cpu lm pConfig cb pResampler =
     (case ma_linear_resampler_get_heap_size lm pConfig of (result, sz) \<Rightarrow>
        if result \<noteq> MA_SUCCESS then (result, pResampler)
        else let pHeap = (if sz > 0 then ma_malloc sys sz cb else NULL)
             in if sz > 0 \<and> pHeap = NULL then (MA_OUT_OF_MEMORY, pResampler)
                else case ma_linear_resampler_init_preallocated cpu lm pConfig pHeap pResampler of (result, r) \<Rightarrow>
                       if result \<noteq> MA_SUCCESS then (result, r) else (MA_SUCCESS, map_option (lr_ownsHeap_update (\<lambda>_. True)) r))"

definition ma_linear_resampler_uninit :: "ma_linear_resampler ptr \<Rightarrow> u64 ptr list" where
  "ma_linear_resampler_uninit pResampler =
     (case pResampler of None \<Rightarrow> [] | Some r \<Rightarrow> ma_lpf_uninit (Some (lr_lpf r)) @ (if lr_ownsHeap r then [lr_pHeap r] else []))"

section \<open>Processing\<close>

definition ma_linear_resampler_mix_s16 :: "s16 \<Rightarrow> s16 \<Rightarrow> s32 \<Rightarrow> nat \<Rightarrow> s16" where
  "ma_linear_resampler_mix_s16 x y a shift =
     (let b = scast x * (push_bit shift 1 - a); c = scast y * a; r = b + c in scast (signed_drop_bit shift r :: s32))"

definition ma_linear_resampler_interpolate_frame_s16 :: "ma_linear_resampler \<Rightarrow> u8 list \<Rightarrow> u8 list" where
  "ma_linear_resampler_interpolate_frame_s16 r pFrameOut =
     (let a = push_bit 12 (lr_inTimeFrac r) div lr_out r
      in for_count (lr_channels r) (\<lambda>c out. s16_put out c (ma_linear_resampler_mix_s16 (s16_at (lr_x0 r) c) (s16_at (lr_x1 r) c) a 12)) pFrameOut)"

definition ma_mix_f32_fast :: "fval \<Rightarrow> fval \<Rightarrow> fval \<Rightarrow> fval" where
  "ma_mix_f32_fast x y a = (let r0 = fsubs y x; r1 = fmuls r0 a in fadds x r1)"

definition ma_linear_resampler_interpolate_frame_f32 :: "ma_linear_resampler \<Rightarrow> u8 list \<Rightarrow> u8 list" where
  "ma_linear_resampler_interpolate_frame_f32 r pFrameOut =
     (let a = fdiv binary32 (fofint binary32 (int (unat (lr_inTimeFrac r)))) (fofint binary32 (int (unat (lr_out r))))
      in for_count (lr_channels r) (\<lambda>c out. f32_put out c (ma_mix_f32_fast (f32_at (lr_x0 r) c) (f32_at (lr_x1 r) c) a)) pFrameOut)"

text \<open>The next input frame, of samples of \<open>z\<close> bytes, becomes \<open>x1\<close>; zeros without an input.\<close>

definition load_frame :: "nat \<Rightarrow> u8 list ptr \<Rightarrow> nat \<Rightarrow> ma_linear_resampler \<Rightarrow> ma_linear_resampler" where
  "load_frame z pFramesIn i r =
     (let n = unat (lr_channels r)
      in for_count (lr_channels r)
           (\<lambda>c r. r\<lparr>lr_x0 := elem_copy z (lr_x0 r) c (lr_x1 r) c,
                    lr_x1 := (case pFramesIn of Some src \<Rightarrow> elem_copy z (lr_x1 r) c src (i * n + c)
                                              | None \<Rightarrow> mem_write (lr_x1 r) (z * c) (replicate z 0))\<rparr>) r)"

text \<open>Filtering applies to the input when the rate goes down and to the output when it goes up,
  and not at all when the rates are the same.\<close>

definition filter_input :: "(ma_lpf \<Rightarrow> u8 list \<Rightarrow> u8 list \<Rightarrow> u8 list \<times> ma_lpf) \<Rightarrow> ma_linear_resampler \<Rightarrow> ma_linear_resampler" where
  "filter_input lpf r = (if lr_in r \<noteq> lr_out r then case lpf (lr_lpf r) (lr_x1 r) (lr_x1 r) of (x1, f) \<Rightarrow> r\<lparr>lr_x1 := x1, lr_lpf := f\<rparr> else r)"

definition filter_output :: "(ma_lpf \<Rightarrow> u8 list \<Rightarrow> u8 list \<Rightarrow> u8 list \<times> ma_lpf) \<Rightarrow> u8 list \<Rightarrow> ma_linear_resampler \<Rightarrow> u8 list \<times> ma_linear_resampler" where
  "filter_output lpf y r = (if lr_in r \<noteq> lr_out r then case lpf (lr_lpf r) y y of (y, f) \<Rightarrow> (y, r\<lparr>lr_lpf := f\<rparr>) else (y, r))"

definition emit_frame :: "nat \<Rightarrow> (ma_linear_resampler \<Rightarrow> u8 list \<Rightarrow> u8 list \<times> ma_linear_resampler) \<Rightarrow> nat \<Rightarrow> u8 list ptr \<Rightarrow> ma_linear_resampler
    \<Rightarrow> u8 list ptr \<times> ma_linear_resampler" where
  "emit_frame z frame i pFramesOut r =
     (case pFramesOut of
        None \<Rightarrow> (None, r)
      | Some out \<Rightarrow> let n = z * unat (lr_channels r)
                    in case frame r (mem_read out (i * n) n) of (y, r) \<Rightarrow> (Some (mem_write out (i * n) y), r))"

text \<open>The inner loop loads frames while the timer has whole units and there is input.\<close>

function load_loop :: "(nat \<Rightarrow> ma_linear_resampler \<Rightarrow> ma_linear_resampler) \<Rightarrow> u64 \<Rightarrow> u64 \<Rightarrow> ma_linear_resampler \<Rightarrow> u64 \<times> ma_linear_resampler" where
  "load_loop load frameCountIn framesProcessedIn r =
     (if lr_inTimeInt r > 0 \<and> frameCountIn > framesProcessedIn
      then let r = load (unat framesProcessedIn) r
           in load_loop load frameCountIn (framesProcessedIn + 1) (r\<lparr>lr_inTimeInt := lr_inTimeInt r - 1\<rparr>)
      else (framesProcessedIn, r))"
  by pat_completeness auto
termination
  by (relation "measure (\<lambda>(_, n, i, _). unat n - unat i)") (simp_all add: count_up)

definition advance_time :: "ma_linear_resampler \<Rightarrow> ma_linear_resampler" where
  "advance_time r =
     (let r = r\<lparr>lr_inTimeInt := lr_inTimeInt r + lr_inAdvanceInt r, lr_inTimeFrac := lr_inTimeFrac r + lr_inAdvanceFrac r\<rparr>
      in if lr_inTimeFrac r \<ge> lr_out r then r\<lparr>lr_inTimeFrac := lr_inTimeFrac r - lr_out r, lr_inTimeInt := lr_inTimeInt r + 1\<rparr> else r)"

function resample_loop :: "(nat \<Rightarrow> ma_linear_resampler \<Rightarrow> ma_linear_resampler) \<Rightarrow> (nat \<Rightarrow> u8 list ptr \<Rightarrow> ma_linear_resampler \<Rightarrow> u8 list ptr \<times> ma_linear_resampler)
    \<Rightarrow> u64 \<Rightarrow> u64 \<Rightarrow> u64 \<Rightarrow> u64 \<Rightarrow> u8 list ptr \<Rightarrow> ma_linear_resampler \<Rightarrow> u64 \<times> u64 \<times> u8 list ptr \<times> ma_linear_resampler" where
  "resample_loop load emit frameCountIn frameCountOut framesProcessedIn framesProcessedOut pFramesOut r =
     (if framesProcessedOut < frameCountOut
      then case load_loop load frameCountIn framesProcessedIn r of (framesProcessedIn, r) \<Rightarrow>
             if lr_inTimeInt r > 0 then (framesProcessedIn, framesProcessedOut, pFramesOut, r)
             else case emit (unat framesProcessedOut) pFramesOut r of (pFramesOut, r) \<Rightarrow>
                    resample_loop load emit frameCountIn frameCountOut framesProcessedIn (framesProcessedOut + 1) pFramesOut (advance_time r)
      else (framesProcessedIn, framesProcessedOut, pFramesOut, r))"
  by pat_completeness auto
termination
  by (relation "measure (\<lambda>(_, _, _, n, _, i, _, _). unat n - unat i)") (simp_all add: count_up)

text \<open>The loop bodies of the four variants.\<close>

definition s16_downsample_load :: "u8 list ptr \<Rightarrow> nat \<Rightarrow> ma_linear_resampler \<Rightarrow> ma_linear_resampler" where
  "s16_downsample_load pFramesIn i r = filter_input ma_lpf_process_pcm_frame_s16 (load_frame 2 pFramesIn i r)"

definition s16_downsample_emit :: "nat \<Rightarrow> u8 list ptr \<Rightarrow> ma_linear_resampler \<Rightarrow> u8 list ptr \<times> ma_linear_resampler" where
  "s16_downsample_emit = emit_frame 2 (\<lambda>r y. (ma_linear_resampler_interpolate_frame_s16 r y, r))"

definition s16_upsample_emit :: "nat \<Rightarrow> u8 list ptr \<Rightarrow> ma_linear_resampler \<Rightarrow> u8 list ptr \<times> ma_linear_resampler" where
  "s16_upsample_emit = emit_frame 2 (\<lambda>r y. filter_output ma_lpf_process_pcm_frame_s16 (ma_linear_resampler_interpolate_frame_s16 r y) r)"

definition f32_downsample_load :: "u8 list ptr \<Rightarrow> nat \<Rightarrow> ma_linear_resampler \<Rightarrow> ma_linear_resampler" where
  "f32_downsample_load pFramesIn i r = filter_input ma_lpf_process_pcm_frame_f32 (load_frame 4 pFramesIn i r)"

definition f32_downsample_emit :: "nat \<Rightarrow> u8 list ptr \<Rightarrow> ma_linear_resampler \<Rightarrow> u8 list ptr \<times> ma_linear_resampler" where
  "f32_downsample_emit = emit_frame 4 (\<lambda>r y. (ma_linear_resampler_interpolate_frame_f32 r y, r))"

definition f32_upsample_emit :: "nat \<Rightarrow> u8 list ptr \<Rightarrow> ma_linear_resampler \<Rightarrow> u8 list ptr \<times> ma_linear_resampler" where
  "f32_upsample_emit = emit_frame 4 (\<lambda>r y. filter_output ma_lpf_process_pcm_frame_f32 (ma_linear_resampler_interpolate_frame_f32 r y) r)"

text \<open>Processing takes the input and its frame count, the output and its frame count, and returns
  the frames consumed, the frames produced, the output and the resampler.\<close>

type_synonym resample_proc = "ma_linear_resampler \<Rightarrow> u8 list ptr \<Rightarrow> u64 \<Rightarrow> u8 list ptr \<Rightarrow> u64 \<Rightarrow> u64 \<times> u64 \<times> u8 list ptr \<times> ma_linear_resampler"

definition ma_linear_resampler_process_pcm_frames_s16_downsample :: resample_proc where
  "ma_linear_resampler_process_pcm_frames_s16_downsample r pFramesIn frameCountIn pFramesOut frameCountOut =
     resample_loop (s16_downsample_load pFramesIn) s16_downsample_emit frameCountIn frameCountOut 0 0 pFramesOut r"

definition ma_linear_resampler_process_pcm_frames_s16_upsample :: resample_proc where
  "ma_linear_resampler_process_pcm_frames_s16_upsample r pFramesIn frameCountIn pFramesOut frameCountOut =
     resample_loop (load_frame 2 pFramesIn) s16_upsample_emit frameCountIn frameCountOut 0 0 pFramesOut r"

definition ma_linear_resampler_process_pcm_frames_s16 :: resample_proc where
  "ma_linear_resampler_process_pcm_frames_s16 r pFramesIn frameCountIn pFramesOut frameCountOut =
     (if lr_in r > lr_out r then ma_linear_resampler_process_pcm_frames_s16_downsample r pFramesIn frameCountIn pFramesOut frameCountOut
      else ma_linear_resampler_process_pcm_frames_s16_upsample r pFramesIn frameCountIn pFramesOut frameCountOut)"

definition ma_linear_resampler_process_pcm_frames_f32_downsample :: resample_proc where
  "ma_linear_resampler_process_pcm_frames_f32_downsample r pFramesIn frameCountIn pFramesOut frameCountOut =
     resample_loop (f32_downsample_load pFramesIn) f32_downsample_emit frameCountIn frameCountOut 0 0 pFramesOut r"

definition ma_linear_resampler_process_pcm_frames_f32_upsample :: resample_proc where
  "ma_linear_resampler_process_pcm_frames_f32_upsample r pFramesIn frameCountIn pFramesOut frameCountOut =
     resample_loop (load_frame 4 pFramesIn) f32_upsample_emit frameCountIn frameCountOut 0 0 pFramesOut r"

definition ma_linear_resampler_process_pcm_frames_f32 :: resample_proc where
  "ma_linear_resampler_process_pcm_frames_f32 r pFramesIn frameCountIn pFramesOut frameCountOut =
     (if lr_in r > lr_out r then ma_linear_resampler_process_pcm_frames_f32_downsample r pFramesIn frameCountIn pFramesOut frameCountOut
      else ma_linear_resampler_process_pcm_frames_f32_upsample r pFramesIn frameCountIn pFramesOut frameCountOut)"

definition ma_linear_resampler_process_pcm_frames :: "ma_linear_resampler ptr \<Rightarrow> u8 list ptr \<Rightarrow> u64 \<Rightarrow> u8 list ptr \<Rightarrow> u64
    \<Rightarrow> ma_result \<times> u64 \<times> u64 \<times> u8 list ptr \<times> ma_linear_resampler ptr" where
  "ma_linear_resampler_process_pcm_frames pResampler pFramesIn frameCountIn pFramesOut frameCountOut =
     (case pResampler of
        None \<Rightarrow> (MA_INVALID_ARGS, frameCountIn, frameCountOut, pFramesOut, None)
      | Some r \<Rightarrow>
          if rc_format (lr_config r) = ma_format_s16
          then (case ma_linear_resampler_process_pcm_frames_s16 r pFramesIn frameCountIn pFramesOut frameCountOut of
                  (i, n, out, r) \<Rightarrow> (MA_SUCCESS, i, n, out, Some r))
          else if rc_format (lr_config r) = ma_format_f32
          then (case ma_linear_resampler_process_pcm_frames_f32 r pFramesIn frameCountIn pFramesOut frameCountOut of
                  (i, n, out, r) \<Rightarrow> (MA_SUCCESS, i, n, out, Some r))
          else (MA_INVALID_ARGS, frameCountIn, frameCountOut, pFramesOut, pResampler))"

section \<open>Rates, counts and reset\<close>

definition ma_linear_resampler_set_rate :: "ma_cpu \<Rightarrow> ma_libm \<Rightarrow> ma_linear_resampler ptr \<Rightarrow> u32 \<Rightarrow> u32 \<Rightarrow> ma_result \<times> ma_linear_resampler ptr" where
  "ma_linear_resampler_set_rate cpu lm pResampler sampleRateIn sampleRateOut =
     ma_linear_resampler_set_rate_internal cpu lm pResampler NULL sampleRateIn sampleRateOut True"

definition ma_linear_resampler_set_rate_ratio :: "ma_cpu \<Rightarrow> ma_libm \<Rightarrow> ma_linear_resampler ptr \<Rightarrow> fval \<Rightarrow> ma_result \<times> ma_linear_resampler ptr" where
  "ma_linear_resampler_set_rate_ratio cpu lm pResampler ratioInOut =
     (case pResampler of
        None \<Rightarrow> (MA_INVALID_ARGS, None)
      | Some _ \<Rightarrow>
          if fle ratioInOut (FNum False 0) then (MA_INVALID_ARGS, pResampler)
          else let d = 1000000; n = word_of_int (c_cast cpu 0 4294967295 (fmuls ratioInOut (fofint binary32 1000000)))
               in if n = 0 then (MA_INVALID_ARGS, pResampler) else ma_linear_resampler_set_rate cpu lm pResampler n d)"

definition ma_linear_resampler_get_input_latency :: "ma_linear_resampler ptr \<Rightarrow> u64" where
  "ma_linear_resampler_get_input_latency pResampler =
     (case pResampler of None \<Rightarrow> 0 | Some r \<Rightarrow> 1 + ucast (ma_lpf_get_latency (Some (lr_lpf r))))"

definition ma_linear_resampler_get_output_latency :: "ma_linear_resampler ptr \<Rightarrow> u64" where
  "ma_linear_resampler_get_output_latency pResampler =
     (case pResampler of None \<Rightarrow> 0 | Some r \<Rightarrow> ma_linear_resampler_get_input_latency pResampler * ucast (lr_out r) div ucast (lr_in r))"

definition ma_linear_resampler_get_required_input_frame_count :: "ma_linear_resampler ptr \<Rightarrow> u64 \<Rightarrow> ma_result \<times> u64" where
  "ma_linear_resampler_get_required_input_frame_count pResampler outputFrameCount =
     (case pResampler of
        None \<Rightarrow> (MA_INVALID_ARGS, 0)
      | Some r \<Rightarrow>
          if outputFrameCount = 0 then (MA_SUCCESS, 0)
          else let n = outputFrameCount - 1
               in (MA_SUCCESS, ucast (lr_inTimeInt r) + n * ucast (lr_inAdvanceInt r)
                     + (ucast (lr_inTimeFrac r) + n * ucast (lr_inAdvanceFrac r)) div ucast (lr_out r)))"

definition ma_linear_resampler_get_expected_output_frame_count :: "ma_linear_resampler ptr \<Rightarrow> u64 \<Rightarrow> ma_result \<times> u64" where
  "ma_linear_resampler_get_expected_output_frame_count pResampler inputFrameCount =
     (case pResampler of
        None \<Rightarrow> (MA_INVALID_ARGS, 0)
      | Some r \<Rightarrow>
          let n = inputFrameCount * ucast (lr_out r) div ucast (lr_in r);
              preliminaryInputFrameCountFromFrac = (ucast (lr_inTimeFrac r) + n * ucast (lr_inAdvanceFrac r)) div ucast (lr_out r);
              preliminaryInputFrameCount = ucast (lr_inTimeInt r) + n * ucast (lr_inAdvanceInt r) + preliminaryInputFrameCountFromFrac
          in (MA_SUCCESS, if preliminaryInputFrameCount \<le> inputFrameCount then n + 1 else n))"

definition ma_linear_resampler_reset :: "ma_linear_resampler ptr \<Rightarrow> ma_result \<times> ma_linear_resampler ptr" where
  "ma_linear_resampler_reset pResampler =
     (case pResampler of
        None \<Rightarrow> (MA_INVALID_ARGS, None)
      | Some r \<Rightarrow>
          let z = (if rc_format (lr_config r) = ma_format_f32 then 4 else 2);
              zero = (\<lambda>x. for_count (lr_channels r) (\<lambda>c x. mem_write x (z * c) (replicate z 0)) x)
          in (MA_SUCCESS, Some (r\<lparr>lr_inTimeInt := 1, lr_inTimeFrac := 0, lr_x0 := zero (lr_x0 r), lr_x1 := zero (lr_x1 r),
                lr_lpf := the (snd (ma_lpf_clear_cache (Some (lr_lpf r))))\<rparr>)))"

declare ma_gcf_u32.simps [simp del] load_loop.simps [simp del] resample_loop.simps [simp del]

section \<open>The timer\<close>

text \<open>A resampler whose rates are set and whose timer is in range.\<close>

definition lr_wf :: "ma_linear_resampler \<Rightarrow> bool" where
  "lr_wf r \<longleftrightarrow> 0 < lr_in r \<and> 0 < lr_out r \<and> unat (lr_out r) \<le> 2 ^ 31 \<and> lr_inTimeFrac r < lr_out r \<and>
     lr_inAdvanceInt r = lr_in r div lr_out r \<and> lr_inAdvanceFrac r = lr_in r mod lr_out r"

definition lr_time :: "ma_linear_resampler \<Rightarrow> nat" where
  "lr_time r = unat (lr_inTimeInt r) * unat (lr_out r) + unat (lr_inTimeFrac r)"

text \<open>What a body of the loops must leave alone.\<close>

definition lr_timing :: "ma_linear_resampler \<Rightarrow> u32 \<times> u32 \<times> u32 \<times> u32 \<times> ma_linear_resampler_config" where
  "lr_timing r = (lr_inTimeInt r, lr_inTimeFrac r, lr_inAdvanceInt r, lr_inAdvanceFrac r, lr_config r)"

lemma lr_timing_cong: "lr_timing r = lr_timing r' \<Longrightarrow> lr_wf r = lr_wf r' \<and> lr_time r = lr_time r'"
  by (simp add: lr_timing_def lr_wf_def lr_time_def)

lemma lr_timing_simps:
  "lr_timing r = lr_timing r' \<Longrightarrow> lr_inTimeInt r = lr_inTimeInt r'" "lr_timing r = lr_timing r' \<Longrightarrow> lr_config r = lr_config r'"
  by (simp_all add: lr_timing_def)

lemma advance_time_wf:
  assumes "lr_wf r" "lr_inTimeInt r = 0"
  shows "lr_wf (advance_time r)" "lr_time (advance_time r) = lr_time r + unat (lr_in r)" "lr_config (advance_time r) = lr_config r"
proof -
  let ?o = "unat (lr_out r)" and ?i = "unat (lr_in r)" and ?t = "unat (lr_inTimeFrac r)"
  have o: "0 < ?o" "?o \<le> 2147483648" "?t < ?o" using assms(1) by (simp_all add: lr_wf_def word_less_nat_alt)
  have a: "unat (lr_inAdvanceInt r) = ?i div ?o" "unat (lr_inAdvanceFrac r) = ?i mod ?o"
    using assms(1) by (simp_all add: lr_wf_def unat_div unat_mod)
  have m: "?i mod ?o < ?o" using o(1) by simp
  have "?t + ?i mod ?o < 4294967296" using o m by linarith
  then have f: "unat (lr_inTimeFrac r + lr_inAdvanceFrac r) = ?t + ?i mod ?o" using a by (subst unat_add_lt) simp_all
  have i1: "?i div ?o + 1 < 4294967296" if "?o \<le> ?t + ?i mod ?o"
  proof -
    have "2 \<le> ?o" using that o m by (cases "?o = 1") auto
    then have "?i div ?o \<le> ?i div 2" by (simp add: div_le_mono2)
    moreover have "?i div 2 < 2147483648" by (rule less_mult_imp_div_less) simp
    ultimately show ?thesis by linarith
  qed
  show "lr_config (advance_time r) = lr_config r" by (simp add: advance_time_def Let_def)
  have m2: "?t + ?i mod ?o - ?o < ?o" using o m by linarith
  show "lr_wf (advance_time r)" using assms f o m a m2
    by (auto simp: advance_time_def Let_def lr_wf_def word_le_nat_alt word_less_nat_alt unat_diff_le)
  show "lr_time (advance_time r) = lr_time r + ?i"
  proof (cases "?o \<le> ?t + ?i mod ?o")
    case True
    have "unat (lr_inAdvanceInt r + 1) = ?i div ?o + 1" using i1 [OF True] a by (subst unat_add_lt) simp_all
    then have "lr_time (advance_time r) = (?i div ?o + 1) * ?o + (?t + ?i mod ?o - ?o)" using True f assms(2)
      by (simp add: advance_time_def Let_def lr_time_def word_le_nat_alt unat_diff_le)
    also have "\<dots> = ?i div ?o * ?o + ?o + (?t + ?i mod ?o - ?o)" by simp
    also have "\<dots> = ?t + (?i div ?o * ?o + ?i mod ?o)" using True by linarith
    finally show ?thesis using assms(2) by (simp add: lr_time_def)
  next
    case False
    then have "lr_time (advance_time r) = ?i div ?o * ?o + (?t + ?i mod ?o)" using f assms(2) a
      by (simp add: advance_time_def Let_def lr_time_def word_le_nat_alt)
    then show ?thesis using assms(2) by (simp add: lr_time_def)
  qed
qed

text \<open>The number of output frames that \<open>a\<close> input frames allow: frame \<open>k\<close> can be made when the time
  \<open>t + k * ri\<close> lies before \<open>(a + 1) * ro\<close>.\<close>

definition out_count :: "nat \<Rightarrow> nat \<Rightarrow> nat \<Rightarrow> nat \<Rightarrow> nat" where
  "out_count ri ro a t = ((a + 1) * ro - t + (ri - 1)) div ri"

lemma out_count_0: "0 < ri \<Longrightarrow> (a + 1) * ro \<le> t \<Longrightarrow> out_count ri ro a t = 0"
  by (simp add: out_count_def)

lemma out_count_Suc:
  assumes "0 < ri" "t < (a + 1) * ro"
  shows "out_count ri ro a t = Suc (out_count ri ro a (t + ri))"
proof -
  define d where "d = (a + 1) * ro - t"
  have d: "0 < d" using assms(2) by (simp add: d_def)
  have "(d + (ri - 1)) div ri = Suc ((d - ri + (ri - 1)) div ri)"
  proof (cases "ri \<le> d")
    case True
    then have "d + (ri - 1) = (d - ri + (ri - 1)) + ri" by linarith
    then show ?thesis using assms(1) by (simp only: div_add_self2 [OF less_imp_neq [THEN not_sym]] Suc_eq_plus1)
  next
    case False
    have "(d + (ri - 1)) div ri = 1"
    proof (rule div_nat_eqI)
      have "ri * Suc 1 = ri + ri" by simp
      then show "ri * 1 \<le> d + (ri - 1)" "d + (ri - 1) < ri * Suc 1" using d False assms(1) by linarith+
    qed
    moreover have "(d - ri + (ri - 1)) div ri = 0" using False assms(1) by (intro div_less) linarith
    ultimately show ?thesis by simp
  qed
  moreover have "(a + 1) * ro - (t + ri) = d - ri" by (simp add: d_def)
  ultimately show ?thesis by (simp only: out_count_def d_def)
qed

lemma out_count_shift: "k \<le> a \<Longrightarrow> out_count ri ro a (k * ro + t) = out_count ri ro (a - k) t"
proof -
  assume "k \<le> a"
  then have "(a + 1) * ro - (k * ro + t) = (a - k + 1) * ro - t" by (simp add: algebra_simps diff_mult_distrib)
  then show ?thesis by (simp only: out_count_def)
qed

text \<open>Frame \<open>k\<close> can be made exactly if the input covers its time.\<close>

lemma less_out_count: "0 < ri \<Longrightarrow> 0 < ro \<Longrightarrow> k < out_count ri ro a t \<longleftrightarrow> (t + k * ri) div ro \<le> a"
proof (induction k arbitrary: t)
  case 0
  have "t div ro \<le> a \<longleftrightarrow> t < (a + 1) * ro" using 0 by (simp add: less_Suc_eq_le [symmetric] div_less_iff_less_mult)
  then show ?case using 0 out_count_0 [of ri a ro t] out_count_Suc [of ri t a ro] by (cases "t < (a + 1) * ro") auto
next
  case (Suc k)
  show ?case
  proof (cases "t < (a + 1) * ro")
    case True
    then show ?thesis using Suc out_count_Suc [of ri t a ro] by (simp add: add.assoc)
  next
    case False
    then have "\<not> t div ro < Suc a" using Suc by (simp add: div_less_iff_less_mult)
    moreover have "t div ro \<le> (t + Suc k * ri) div ro" by (simp add: div_le_mono)
    ultimately show ?thesis using False Suc out_count_0 [of ri a ro t] by simp
  qed
qed

locale resampler_bodies =
  fixes load :: "nat \<Rightarrow> ma_linear_resampler \<Rightarrow> ma_linear_resampler"
    and emit :: "nat \<Rightarrow> u8 list ptr \<Rightarrow> ma_linear_resampler \<Rightarrow> u8 list ptr \<times> ma_linear_resampler"
  assumes load_timing: "lr_timing (load i r) = lr_timing r"
    and emit_timing: "lr_timing (snd (emit i out r)) = lr_timing r"
begin

lemma load_loop_timing:
  assumes "unat i \<le> unat n" "lr_wf r"
  shows "\<exists>j r'. load_loop load n i r = (j, r') \<and> unat j = unat i + min (unat (lr_inTimeInt r)) (unat n - unat i) \<and> lr_wf r' \<and>
    lr_config r' = lr_config r \<and> lr_inTimeFrac r' = lr_inTimeFrac r \<and>
    unat (lr_inTimeInt r') = unat (lr_inTimeInt r) - min (unat (lr_inTimeInt r)) (unat n - unat i)"
  using assms
proof (induction "unat n - unat i" arbitrary: i r rule: less_induct)
  case less
  show ?case
  proof (cases "lr_inTimeInt r > 0 \<and> n > i")
    case True
    define r1 where "r1 = (load (unat i) r)\<lparr>lr_inTimeInt := lr_inTimeInt (load (unat i) r) - 1\<rparr>"
    have t: "lr_timing (load (unat i) r) = lr_timing r" by (rule load_timing)
    then have r1: "lr_config r1 = lr_config r" "lr_inTimeFrac r1 = lr_inTimeFrac r" "lr_inTimeInt r1 = lr_inTimeInt r - 1" "lr_wf r1"
      using less.prems(2) by (simp_all add: r1_def lr_timing_def lr_wf_def)
    have u: "unat (lr_inTimeInt r - 1) = unat (lr_inTimeInt r) - 1" using True by (simp add: unat_diff_le word_le_nat_alt word_less_nat_alt)
    have i: "unat (i + 1) = Suc (unat i)" using True unat_next [of i n] by simp
    have n: "unat i < unat n" "0 < unat (lr_inTimeInt r)" using True by (simp_all add: word_less_nat_alt)
    have "\<exists>j r'. load_loop load n (i + 1) r1 = (j, r') \<and> unat j = unat (i + 1) + min (unat (lr_inTimeInt r1)) (unat n - unat (i + 1)) \<and> lr_wf r' \<and>
      lr_config r' = lr_config r1 \<and> lr_inTimeFrac r' = lr_inTimeFrac r1 \<and>
      unat (lr_inTimeInt r') = unat (lr_inTimeInt r1) - min (unat (lr_inTimeInt r1)) (unat n - unat (i + 1))"
      by (rule less.hyps) (use i n r1 in simp_all)
    moreover have "load_loop load n i r = load_loop load n (i + 1) r1"
      using True by (subst load_loop.simps) (simp add: r1_def Let_def)
    ultimately show ?thesis using i n r1 u by (auto simp: min_def)
  next
    case False
    then have "load_loop load n i r = (i, r)" by (subst load_loop.simps) auto
    moreover have "min (unat (lr_inTimeInt r)) (unat n - unat i) = 0" using False less.prems(1) by (auto simp: word_less_nat_alt)
    ultimately show ?thesis using less.prems(2) by simp
  qed
qed

text \<open>With \<open>a\<close> input frames left and \<open>b\<close> output frames wanted.\<close>

lemma resample_loop_timing:
  assumes "unat pin \<le> unat cin" "unat pout \<le> unat cout" "lr_wf r"
  defines "ri \<equiv> unat (lr_in r)" and "ro \<equiv> unat (lr_out r)" and "a \<equiv> unat cin - unat pin" and "b \<equiv> unat cout - unat pout"
  shows "\<exists>pin' pout' out' r'. resample_loop load emit cin cout pin pout out r = (pin', pout', out', r') \<and>
    unat pout' = unat pout + min b (out_count ri ro a (lr_time r)) \<and>
    unat pin' = unat pin + (if b = 0 then 0 else if b \<le> out_count ri ro a (lr_time r) then (lr_time r + (b - 1) * ri) div ro else a) \<and>
    lr_wf r' \<and> lr_config r' = lr_config r \<and>
    lr_time r' + (unat pin' - unat pin) * ro = lr_time r + min b (out_count ri ro a (lr_time r)) * ri"
  using assms(1-3) unfolding ri_def ro_def a_def b_def
proof (induction "unat cout - unat pout" arbitrary: pin pout out r)
  case 0
  then have "resample_loop load emit cin cout pin pout out r = (pin, pout, out, r)" by (subst resample_loop.simps) (simp add: word_less_nat_alt)
  then show ?case using 0 by simp
next
  case (Suc k)
  let ?ri = "unat (lr_in r)" and ?ro = "unat (lr_out r)" and ?a = "unat cin - unat pin" and ?t = "unat (lr_inTimeInt r)" and ?f = "unat (lr_inTimeFrac r)"
  have pos: "0 < ?ri" "0 < ?ro" "?f < ?ro" using Suc.prems(3) by (simp_all add: lr_wf_def word_less_nat_alt)
  have less: "pout < cout" using Suc.hyps(2) by (simp add: word_less_nat_alt)
  obtain pin1 r1 where l: "load_loop load cin pin r = (pin1, r1)" "unat pin1 = unat pin + min ?t ?a" "lr_wf r1" "lr_config r1 = lr_config r"
    "lr_inTimeFrac r1 = lr_inTimeFrac r" "unat (lr_inTimeInt r1) = ?t - min ?t ?a"
    using load_loop_timing [OF Suc.prems(1,3)] by blast
  show ?case
  proof (cases "?t \<le> ?a")
    case False
    then have i: "0 < lr_inTimeInt r1" using l(6) by (simp add: word_less_nat_alt)
    have "(?a + 1) * ?ro \<le> ?t * ?ro" using False by (intro mult_le_mono1) simp
    then have "(?a + 1) * ?ro \<le> lr_time r" by (simp add: lr_time_def)
    then have c: "out_count ?ri ?ro ?a (lr_time r) = 0" using pos by (simp add: out_count_0)
    have e: "resample_loop load emit cin cout pin pout out r = (pin1, pout, out, r1)"
      using less l(1) i by (subst resample_loop.simps) simp
    have "(?t - ?a) * ?ro + ?a * ?ro = ?t * ?ro" using False by (simp flip: add_mult_distrib)
    moreover have "lr_time r1 = (?t - ?a) * ?ro + ?f" using l False by (simp add: lr_time_def)
    ultimately have t: "lr_time r1 + ?a * ?ro = lr_time r" unfolding lr_time_def by linarith
    show ?thesis using e c t l False Suc.hyps(2) by (simp add: min_def)
  next
    case True
    obtain out2 r2 where em: "emit (unat pout) out r1 = (out2, r2)" by fastforce
    have tm: "lr_timing r2 = lr_timing r1" using emit_timing [of "unat pout" out r1] em by simp
    have i1: "lr_inTimeInt r1 = 0" using True l(6) by (simp add: unat_eq_zero)
    have w2: "lr_wf r2" "lr_time r2 = ?f" "lr_inTimeInt r2 = 0" "lr_config r2 = lr_config r"
      using lr_timing_cong [OF tm] lr_timing_simps [OF tm] l(3-5) i1 by (simp_all add: lr_time_def)
    define r3 where "r3 = advance_time r2"
    have w3: "lr_wf r3" "lr_time r3 = ?f + ?ri" "lr_config r3 = lr_config r"
      using advance_time_wf [OF w2(1,3)] w2 by (simp_all add: r3_def)
    have e: "resample_loop load emit cin cout pin pout out r = resample_loop load emit cin cout pin1 (pout + 1) out2 r3"
      using less l(1) i1 em by (subst resample_loop.simps) (simp add: r3_def)
    have o1: "unat (pout + 1) = Suc (unat pout)" using unat_next [OF less] .
    have pin1: "unat pin1 = unat pin + ?t" "unat cin - unat pin1 = ?a - ?t" using l(2) True by simp_all
    have c: "out_count ?ri ?ro ?a (lr_time r) = Suc (out_count ?ri ?ro (?a - ?t) (lr_time r3))"
    proof -
      have "?f < (?a - ?t + 1) * ?ro" using pos(3) by (simp add: trans_less_add1)
      then show ?thesis using out_count_shift [OF True, of ?ri ?ro ?f] out_count_Suc [OF pos(1)] w3(2) by (simp add: lr_time_def)
    qed
    have k: "unat cout - unat (pout + 1) = k" using Suc.hyps(2) o1 by simp
    have "unat pin1 \<le> unat cin" "unat (pout + 1) \<le> unat cout" using pin1 True Suc.prems(1) o1 less by (simp_all add: word_less_nat_alt)
    from Suc.hyps(1) [OF k [symmetric] this w3(1), of out2, unfolded w3(3) pin1(2) k]
    obtain pin' pout' out' r' where h: "resample_loop load emit cin cout pin1 (pout + 1) out2 r3 = (pin', pout', out', r')"
      "unat pout' = unat (pout + 1) + min k (out_count ?ri ?ro (?a - ?t) (lr_time r3))"
      "unat pin' = unat pin1 + (if k = 0 then 0 else if k \<le> out_count ?ri ?ro (?a - ?t) (lr_time r3) then (lr_time r3 + (k - 1) * ?ri) div ?ro else ?a - ?t)"
      "lr_wf r'" "lr_config r' = lr_config r"
      "lr_time r' + (unat pin' - unat pin1) * ?ro = lr_time r3 + min k (out_count ?ri ?ro (?a - ?t) (lr_time r3)) * ?ri" by blast
    have sum: "(lr_time r + k * ?ri) div ?ro = ?t + (?f + k * ?ri) div ?ro"
      using pos(2) by (simp add: lr_time_def add.assoc)
    have kk: "(lr_time r3 + (k - 1) * ?ri) div ?ro = (?f + k * ?ri) div ?ro" if "0 < k"
      using that w3(2) by (cases k) (simp_all add: add.assoc)
    have "unat pin' = unat pin + (if Suc k \<le> out_count ?ri ?ro ?a (lr_time r) then (lr_time r + k * ?ri) div ?ro else ?a)"
      using h(3) c pin1 True sum kk pos(3) by (cases "k = 0") (auto simp: div_less)
    moreover have "lr_time r' + (unat pin' - unat pin) * ?ro = lr_time r + min (Suc k) (out_count ?ri ?ro ?a (lr_time r)) * ?ri"
    proof -
      have "unat pin' - unat pin = ?t + (unat pin' - unat pin1)" using h(3) pin1 by simp
      then show ?thesis using h(6) w3(2) c by (simp add: lr_time_def algebra_simps)
    qed
    moreover have "unat pout' = unat pout + min (Suc k) (out_count ?ri ?ro ?a (lr_time r))" using h(2) o1 c by simp
    moreover have "resample_loop load emit cin cout pin pout out r = (pin', pout', out', r')" using e h(1) by simp
    ultimately show ?thesis using h(4,5) unfolding Suc.hyps(2) [symmetric]
      by - (rule exI [of _ pin'], rule exI [of _ pout'], rule exI [of _ out'], rule exI [of _ r'], simp del: min_Suc_Suc)
  qed
qed

end

section \<open>The four variants\<close>

lemma for_count_inv: "P s \<Longrightarrow> (\<And>i s. P s \<Longrightarrow> P (f i s)) \<Longrightarrow> P (for_count n f s)"
proof -
  assume s: "P s" and f: "\<And>i s. P s \<Longrightarrow> P (f i s)"
  have "P s \<Longrightarrow> P (fold f is s)" for "is" s by (induction "is" arbitrary: s) (simp_all add: f)
  from this [OF s] show ?thesis unfolding for_count_def .
qed

lemma load_frame_timing: "lr_timing (load_frame z pFramesIn i r) = lr_timing r"
  unfolding load_frame_def Let_def by (rule for_count_inv) (simp_all add: lr_timing_def)

lemma filter_timing: "lr_timing (filter_input lpf r) = lr_timing r" "lr_timing (snd (filter_output lpf y r)) = lr_timing r"
  by (simp_all add: filter_input_def filter_output_def lr_timing_def split: prod.splits)

lemma emit_frame_timing: "(\<And>y. lr_timing (snd (frame r y)) = lr_timing r) \<Longrightarrow> lr_timing (snd (emit_frame z frame i out r)) = lr_timing r"
  by (auto simp: emit_frame_def Let_def split: option.split prod.split) (metis snd_conv)

lemmas body_timing = load_frame_timing filter_timing emit_frame_timing

interpretation s16_down: resampler_bodies "s16_downsample_load pFramesIn" s16_downsample_emit for pFramesIn
  by unfold_locales (simp_all add: s16_downsample_load_def s16_downsample_emit_def body_timing)

interpretation s16_up: resampler_bodies "load_frame 2 pFramesIn" s16_upsample_emit for pFramesIn
  by unfold_locales (simp_all add: s16_upsample_emit_def body_timing)

interpretation f32_down: resampler_bodies "f32_downsample_load pFramesIn" f32_downsample_emit for pFramesIn
  by unfold_locales (simp_all add: f32_downsample_load_def f32_downsample_emit_def body_timing)

interpretation f32_up: resampler_bodies "load_frame 4 pFramesIn" f32_upsample_emit for pFramesIn
  by unfold_locales (simp_all add: f32_upsample_emit_def body_timing)

text \<open>\<open>n\<close> output frames are made from \<open>i\<close> input frames, of \<open>a\<close> available and \<open>b\<close> wanted.\<close>

definition resampled :: "ma_linear_resampler \<Rightarrow> nat \<Rightarrow> nat \<Rightarrow> nat \<Rightarrow> nat \<Rightarrow> ma_linear_resampler \<Rightarrow> bool" where
  "resampled r a b i n r' \<longleftrightarrow> (let ri = unat (lr_in r); ro = unat (lr_out r); c = out_count ri ro a (lr_time r) in
     n = min b c \<and> i = (if b = 0 then 0 else if b \<le> c then (lr_time r + (b - 1) * ri) div ro else a) \<and>
     lr_wf r' \<and> lr_config r' = lr_config r \<and> lr_time r' + i * ro = lr_time r + n * ri)"

definition lr_format_ok :: "ma_linear_resampler \<Rightarrow> bool" where
  "lr_format_ok r \<longleftrightarrow> rc_format (lr_config r) = ma_format_s16 \<or> rc_format (lr_config r) = ma_format_f32"

lemma process_timing:
  assumes "lr_wf r" "lr_format_ok r"
  obtains i n out' r' where "ma_linear_resampler_process_pcm_frames (Some r) pFramesIn cin out cout = (MA_SUCCESS, i, n, out', Some r')"
    "resampled r (unat cin) (unat cout) (unat i) (unat n) r'"
proof -
  have le: "unat (0 :: u64) \<le> unat cin" "unat (0 :: u64) \<le> unat cout" by simp_all
  note bodies = s16_down.resample_loop_timing [OF le assms(1), of pFramesIn out] s16_up.resample_loop_timing [OF le assms(1), of pFramesIn out]
    f32_down.resample_loop_timing [OF le assms(1), of pFramesIn out] f32_up.resample_loop_timing [OF le assms(1), of pFramesIn out]
  show thesis
  proof (cases "rc_format (lr_config r) = ma_format_s16")
    case True
    then show thesis using bodies(1,2) that
      by (cases "lr_in r > lr_out r")
        (auto simp: ma_linear_resampler_process_pcm_frames_def ma_linear_resampler_process_pcm_frames_s16_def resampled_def Let_def
          ma_linear_resampler_process_pcm_frames_s16_downsample_def ma_linear_resampler_process_pcm_frames_s16_upsample_def)
  next
    case False
    then have "rc_format (lr_config r) = ma_format_f32" using assms(2) by (simp add: lr_format_ok_def)
    then show thesis using bodies(3,4) that
      by (cases "lr_in r > lr_out r")
        (auto simp: ma_linear_resampler_process_pcm_frames_def ma_linear_resampler_process_pcm_frames_f32_def resampled_def Let_def
          ma_linear_resampler_process_pcm_frames_f32_downsample_def ma_linear_resampler_process_pcm_frames_f32_upsample_def)
  qed
qed

section \<open>Predicting the counts\<close>

lemma advance_split:
  assumes "lr_wf r"
  shows "unat (lr_inTimeInt r) + n * unat (lr_inAdvanceInt r) + (unat (lr_inTimeFrac r) + n * unat (lr_inAdvanceFrac r)) div unat (lr_out r)
    = (lr_time r + n * unat (lr_in r)) div unat (lr_out r)"
proof -
  let ?o = "unat (lr_out r)" and ?i = "unat (lr_in r)" and ?t = "unat (lr_inTimeInt r)" and ?f = "unat (lr_inTimeFrac r)"
  have o: "0 < ?o" and a: "unat (lr_inAdvanceInt r) = ?i div ?o" "unat (lr_inAdvanceFrac r) = ?i mod ?o"
    using assms by (simp_all add: lr_wf_def word_less_nat_alt unat_div unat_mod)
  have "lr_time r + n * ?i = (?f + n * (?i mod ?o)) + (?t + n * (?i div ?o)) * ?o"
  proof -
    have "n * ?i = n * (?i div ?o * ?o + ?i mod ?o)" by (simp only: div_mult_mod_eq)
    also have "\<dots> = n * (?i mod ?o) + n * (?i div ?o) * ?o" by (simp only: distrib_left mult.assoc add.commute)
    finally show ?thesis by (simp only: lr_time_def distrib_right)
  qed
  then show ?thesis using o a by simp
qed

text \<open>The sum in the code does not wrap for fewer than \<open>2 ^ 32\<close> frames.\<close>

lemma predicted_sum:
  assumes "lr_wf r" "unat n < 4294967295"
  shows "unat (ucast (lr_inTimeInt r) + n * ucast (lr_inAdvanceInt r)
      + (ucast (lr_inTimeFrac r) + n * ucast (lr_inAdvanceFrac r)) div ucast (lr_out r) :: u64)
    = (lr_time r + unat n * unat (lr_in r)) div unat (lr_out r)"
proof -
  let ?o = "unat (lr_out r)" and ?t = "unat (lr_inTimeInt r)" and ?f = "unat (lr_inTimeFrac r)"
    and ?a = "unat (lr_inAdvanceInt r)" and ?b = "unat (lr_inAdvanceFrac r)" and ?n = "unat n"
  have b: "?b < ?o" "?f < ?o" "?o \<le> 2147483648" using assms(1) by (simp_all add: lr_wf_def word_less_nat_alt unat_mod)
  have "?n * ?a \<le> 4294967294 * 4294967295" using assms(2) unat_lt_u32 [of "lr_inAdvanceInt r"] by (intro mult_le_mono) linarith+
  moreover have "?n * ?b \<le> 4294967294 * 2147483648" using assms(2) b by (intro mult_le_mono) linarith+
  moreover have "?t < 4294967296" by simp
  moreover have q: "(?f + ?n * ?b) div ?o \<le> ?n + 1"
  proof -
    have "?n * ?b \<le> ?n * ?o" using b by (intro mult_le_mono) simp_all
    then have "?f + ?n * ?b \<le> (?n + 1) * ?o" unfolding distrib_right using b by linarith
    then have "(?f + ?n * ?b) div ?o \<le> (?n + 1) * ?o div ?o" by (rule div_le_mono)
    then show ?thesis using b by simp
  qed
  ultimately have bounds: "?n * ?a < 18446744073709551616" "?n * ?b < 18446744073709551616" "?f + ?n * ?b < 18446744073709551616"
    "?t + ?n * ?a < 18446744073709551616" "?t + ?n * ?a + (?f + ?n * ?b) div ?o < 18446744073709551616"
    using b assms(2) by linarith+
  then have f: "unat (ucast (lr_inTimeFrac r) + n * ucast (lr_inAdvanceFrac r) :: u64) = ?f + ?n * ?b"
    by (simp add: unat_add_lt unat_mult_lt)
  have t: "unat (ucast (lr_inTimeInt r) + n * ucast (lr_inAdvanceInt r) :: u64) = ?t + ?n * ?a"
    using bounds by (simp add: unat_add_lt unat_mult_lt)
  have "unat (ucast (lr_inTimeInt r) + n * ucast (lr_inAdvanceInt r)
      + (ucast (lr_inTimeFrac r) + n * ucast (lr_inAdvanceFrac r)) div ucast (lr_out r) :: u64) = ?t + ?n * ?a + (?f + ?n * ?b) div ?o"
    using bounds(5) by (subst unat_add_lt) (simp_all add: unat_div f t)
  then show ?thesis using advance_split [OF assms(1), of ?n] by simp
qed

lemma required_input:
  assumes "lr_wf r" "0 < k" "unat k \<le> 4294967295"
  obtains m where "ma_linear_resampler_get_required_input_frame_count (Some r) k = (MA_SUCCESS, m)"
    "unat m = (lr_time r + (unat k - 1) * unat (lr_in r)) div unat (lr_out r)"
proof -
  have k: "unat (k - 1) = unat k - 1" "unat (k - 1) < 4294967295" using assms(2,3) by (simp_all add: unat_diff_le word_le_nat_alt word_less_nat_alt)
  show thesis using assms(2) predicted_sum [OF assms(1) k(2)] k(1)
    by (intro that) (auto simp: ma_linear_resampler_get_required_input_frame_count_def Let_def)
qed

text \<open>The promise of the prediction: with that many frames all the output is made, with fewer it is not.\<close>

lemma required_input_exact:
  assumes "lr_wf r" "lr_format_ok r" "0 < k" "unat k \<le> 4294967295"
    and "ma_linear_resampler_get_required_input_frame_count (Some r) k = (MA_SUCCESS, m)"
  shows "\<exists>out' r'. ma_linear_resampler_process_pcm_frames (Some r) pFramesIn m out k = (MA_SUCCESS, m, k, out', Some r')"
    and "m' < m \<Longrightarrow> \<exists>n out' r'. ma_linear_resampler_process_pcm_frames (Some r) pFramesIn m' out k = (MA_SUCCESS, m', n, out', Some r') \<and> n < k"
proof -
  let ?ri = "unat (lr_in r)" and ?ro = "unat (lr_out r)"
  have pos: "0 < ?ri" "0 < ?ro" "0 < unat k" using assms(1,3) by (simp_all add: lr_wf_def word_less_nat_alt)
  have m: "unat m = (lr_time r + (unat k - 1) * ?ri) div ?ro" using required_input [OF assms(1,3,4)] assms(5) by auto
  note c = less_out_count [OF pos(1,2), of "unat k - 1" _ "lr_time r"]
  show "\<exists>out' r'. ma_linear_resampler_process_pcm_frames (Some r) pFramesIn m out k = (MA_SUCCESS, m, k, out', Some r')"
  proof -
    obtain i n out' r' where p: "ma_linear_resampler_process_pcm_frames (Some r) pFramesIn m out k = (MA_SUCCESS, i, n, out', Some r')"
      "resampled r (unat m) (unat k) (unat i) (unat n) r'" using process_timing [OF assms(1,2)] .
    have "unat k \<le> out_count ?ri ?ro (unat m) (lr_time r)" using c [of "unat m"] m pos(3) by simp
    then have "unat i = unat m" "unat n = unat k" using p(2) pos(3) m by (simp_all add: resampled_def Let_def)
    then have "i = m" "n = k" by (simp_all add: word_unat_eq_iff)
    then show ?thesis using p(1) by simp
  qed
  show "\<exists>n out' r'. ma_linear_resampler_process_pcm_frames (Some r) pFramesIn m' out k = (MA_SUCCESS, m', n, out', Some r') \<and> n < k" if "m' < m"
  proof -
    obtain i n out' r' where p: "ma_linear_resampler_process_pcm_frames (Some r) pFramesIn m' out k = (MA_SUCCESS, i, n, out', Some r')"
      "resampled r (unat m') (unat k) (unat i) (unat n) r'" using process_timing [OF assms(1,2)] .
    have "out_count ?ri ?ro (unat m') (lr_time r) < unat k" using c [of "unat m'"] m that pos(3) by (simp add: word_less_nat_alt)
    then have "unat i = unat m'" "unat n < unat k" using p(2) pos(3) by (simp_all add: resampled_def Let_def)
    then have "i = m'" "n < k" by (simp_all add: word_unat_eq_iff word_less_nat_alt)
    then show ?thesis using p(1) by simp
  qed
qed

text \<open>The other prediction starts from the ratio of the rates, corrected by at most one frame. It is exact
  while the timer is between one input frame and one input frame and one output frame.\<close>

lemma out_count_estimate:
  assumes "0 < ri" "0 < ro" "ro \<le> t" "t < ro + ri"
  shows "out_count ri ro a t = (if (t + a * ro div ri * ri) div ro \<le> a then a * ro div ri + 1 else a * ro div ri)"
proof -
  let ?n = "a * ro div ri"
  have n: "?n * ri \<le> a * ro" "a * ro < (?n + 1) * ri"
    using assms(1) mod_less_divisor [of ri "a * ro"] div_mult_mod_eq [of "a * ro" ri] by (simp, unfold distrib_right) linarith
  have "\<not> ?n + 1 < out_count ri ro a t"
  proof -
    have "(a + 1) * ro \<le> t + (?n + 1) * ri" using n(2) assms(3) unfolding distrib_right by linarith
    then have "a + 1 \<le> (t + (?n + 1) * ri) div ro" using assms(2) by (simp add: div_le_mono less_eq_div_iff_mult_less_eq)
    then show ?thesis using less_out_count [OF assms(1,2), of "?n + 1" a t] by simp
  qed
  moreover have "?n \<le> out_count ri ro a t"
  proof (cases ?n)
    case (Suc k)
    have "t + k * ri < (a + 1) * ro"
    proof -
      have "k * ri + ri \<le> a * ro" using n(1) Suc by simp
      then show ?thesis using assms(4) unfolding distrib_right by linarith
    qed
    then have "(t + k * ri) div ro \<le> a" using assms(2) by (simp add: div_less_iff_less_mult less_Suc_eq_le [symmetric])
    then have "k < out_count ri ro a t" using less_out_count [OF assms(1,2)] by blast
    then show ?thesis using Suc by simp
  qed simp
  moreover have "?n < out_count ri ro a t \<longleftrightarrow> (t + ?n * ri) div ro \<le> a" by (rule less_out_count [OF assms(1,2)])
  ultimately show ?thesis by auto
qed

lemma expected_output:
  assumes "lr_wf r" "unat m * unat (lr_out r) < 4294967295 * unat (lr_in r)" "unat (lr_out r) \<le> lr_time r" "lr_time r < unat (lr_out r) + unat (lr_in r)"
    and "unat m \<le> 4294967295"
  obtains n where "ma_linear_resampler_get_expected_output_frame_count (Some r) m = (MA_SUCCESS, n)"
    "unat n = out_count (unat (lr_in r)) (unat (lr_out r)) (unat m) (lr_time r)"
proof -
  let ?ri = "unat (lr_in r)" and ?ro = "unat (lr_out r)"
  have pos: "0 < ?ri" "0 < ?ro" "?ro \<le> 2147483648" using assms(1) by (simp_all add: lr_wf_def word_less_nat_alt)
  define k :: u64 where "k = m * ucast (lr_out r) div ucast (lr_in r)"
  have "unat m * ?ro \<le> 4294967295 * 2147483648" using assms(5) pos by (intro mult_le_mono) simp_all
  then have k: "unat k = unat m * ?ro div ?ri" by (simp add: k_def unat_div unat_mult_lt)
  have k': "unat k < 4294967295" unfolding k using assms(2) by (intro less_mult_imp_div_less) (simp add: mult.commute)
  define p :: u64 where "p = ucast (lr_inTimeInt r) + k * ucast (lr_inAdvanceInt r)
      + (ucast (lr_inTimeFrac r) + k * ucast (lr_inAdvanceFrac r)) div ucast (lr_out r)"
  have p: "unat p = (lr_time r + unat k * ?ri) div ?ro" unfolding p_def by (rule predicted_sum [OF assms(1) k'])
  have "unat (k + 1) = unat k + 1" using k' by (subst unat_add_lt) simp_all
  then have "unat (if p \<le> m then k + 1 else k) = out_count ?ri ?ro (unat m) (lr_time r)"
    using out_count_estimate [OF pos(1,2) assms(3,4), of "unat m"] p k by (simp add: word_le_nat_alt)
  then show thesis
    by (intro that [of "if p \<le> m then k + 1 else k"])
      (simp_all add: ma_linear_resampler_get_expected_output_frame_count_def Let_def k_def [symmetric] p_def [symmetric])
qed

text \<open>A call that makes less than was wanted leaves the timer in that range.\<close>

lemma ran_dry:
  assumes "lr_wf r" "lr_time r < unat (lr_out r) + unat (lr_in r)" "resampled r a b i n r'" "n < b"
  shows "i = a" "unat (lr_out r') \<le> lr_time r'" "lr_time r' < unat (lr_out r') + unat (lr_in r')" "lr_wf r'" "lr_config r' = lr_config r"
proof -
  let ?ri = "unat (lr_in r)" and ?ro = "unat (lr_out r)" and ?c = "out_count (unat (lr_in r)) (unat (lr_out r)) a (lr_time r)"
  have pos: "0 < ?ri" "0 < ?ro" using assms(1) by (simp_all add: lr_wf_def word_less_nat_alt)
  have n: "n = ?c" "?c < b" using assms(3,4) by (simp_all add: resampled_def Let_def)
  then show i: "i = a" using assms(3) by (simp add: resampled_def Let_def)
  show w: "lr_wf r'" "lr_config r' = lr_config r" using assms(3) by (simp_all add: resampled_def Let_def)
  have t: "lr_time r' + a * ?ro = lr_time r + n * ?ri" using assms(3) i by (simp add: resampled_def Let_def)
  have "\<not> (lr_time r + n * ?ri) div ?ro \<le> a" using less_out_count [OF pos, of n a "lr_time r"] n by simp
  then have "\<not> lr_time r + n * ?ri < (a + 1) * ?ro" using pos by (simp add: less_Suc_eq_le [symmetric] div_less_iff_less_mult)
  then show "unat (lr_out r') \<le> lr_time r'" using t w(2) unfolding distrib_right by simp
  show "lr_time r' < unat (lr_out r') + unat (lr_in r')"
  proof (cases n)
    case 0
    then show ?thesis using t w(2) assms(2) by simp
  next
    case (Suc k)
    then have "(lr_time r + k * ?ri) div ?ro \<le> a" using less_out_count [OF pos, of k a "lr_time r"] n by simp
    then have "lr_time r + k * ?ri < (a + 1) * ?ro" using pos by (simp add: less_Suc_eq_le [symmetric] div_less_iff_less_mult)
    then show ?thesis using t w(2) Suc unfolding distrib_right by simp
  qed
qed

text \<open>Between calls the timer stays below one input frame and one output frame.\<close>

definition lr_ok :: "ma_linear_resampler \<Rightarrow> bool" where
  "lr_ok r \<longleftrightarrow> lr_wf r \<and> lr_format_ok r \<and> lr_time r < unat (lr_out r) + unat (lr_in r)"

lemma resampled_ok:
  assumes "lr_ok r" "resampled r a b i n r'"
  shows "lr_ok r'"
proof -
  let ?ri = "unat (lr_in r)" and ?ro = "unat (lr_out r)"
  have ok: "lr_wf r" "lr_time r < ?ro + ?ri" "lr_format_ok r" using assms(1) by (simp_all add: lr_ok_def)
  have w: "lr_wf r'" "lr_config r' = lr_config r" "lr_time r' + i * ?ro = lr_time r + n * ?ri"
    using assms(2) unfolding resampled_def Let_def by blast+
  have "lr_time r' < unat (lr_out r') + unat (lr_in r')"
  proof (cases "n < b")
    case True
    then show ?thesis using ran_dry(3) [OF ok(1,2) assms(2)] by simp
  next
    case False
    then have b: "n = b" "b \<noteq> 0 \<Longrightarrow> i = (lr_time r + (b - 1) * ?ri) div ?ro" "b = 0 \<Longrightarrow> i = 0"
      using assms(2) by (auto simp: resampled_def Let_def split: if_splits)
    show ?thesis
    proof (cases b)
      case 0
      then show ?thesis using w ok(2) b by simp
    next
      case (Suc k)
      have o: "0 < ?ro" using ok(1) by (simp add: lr_wf_def word_less_nat_alt)
      have "lr_time r' + (lr_time r + k * ?ri) div ?ro * ?ro = (lr_time r + k * ?ri) + ?ri" using w(3) b Suc by simp
      moreover have "(lr_time r + k * ?ri) div ?ro * ?ro + (lr_time r + k * ?ri) mod ?ro = lr_time r + k * ?ri" by (rule div_mult_mod_eq)
      moreover have "(lr_time r + k * ?ri) mod ?ro < ?ro" using o by simp
      ultimately show ?thesis unfolding w(2) by linarith
    qed
  qed
  then show ?thesis using w ok(3) by (simp add: lr_ok_def lr_format_ok_def)
qed

text \<open>Any sequence of calls: input, input frames, output, output frames.\<close>

fun process_calls :: "(u8 list ptr \<times> u64 \<times> u8 list ptr \<times> u64) list \<Rightarrow> ma_linear_resampler ptr \<Rightarrow> ma_linear_resampler ptr" where
  "process_calls [] r = r"
| "process_calls ((pFramesIn, cin, out, cout) # cs) r =
     (case ma_linear_resampler_process_pcm_frames r pFramesIn cin out cout of (_, _, _, _, r') \<Rightarrow> process_calls cs r')"

lemma process_calls_ok: "lr_ok r \<Longrightarrow> \<exists>r'. process_calls cs (Some r) = Some r' \<and> lr_ok r' \<and> lr_config r' = lr_config r"
proof (induction cs arbitrary: r)
  case (Cons c cs)
  obtain pFramesIn cin out cout where c: "c = (pFramesIn, cin, out, cout)" by (cases c)
  have "lr_wf r" "lr_format_ok r" using Cons.prems by (simp_all add: lr_ok_def)
  then obtain i n out' r' where p: "ma_linear_resampler_process_pcm_frames (Some r) pFramesIn cin out cout = (MA_SUCCESS, i, n, out', Some r')"
    "resampled r (unat cin) (unat cout) (unat i) (unat n) r'" using process_timing by blast
  moreover have "lr_config r' = lr_config r" using p(2) by (simp add: resampled_def Let_def)
  ultimately show ?case using Cons.IH [OF resampled_ok [OF Cons.prems p(2)]] c by simp
qed simp

section \<open>Opening\<close>

lemma gcf_is_gcd: "unat (ma_gcf_u32 a b) = gcd (unat a) (unat b)"
proof (induction a b rule: ma_gcf_u32.induct)
  case (1 a b)
  show ?case
  proof (cases "b = 0")
    case True
    then show ?thesis by (subst ma_gcf_u32.simps) simp
  next
    case False
    then show ?thesis using 1 by (subst ma_gcf_u32.simps) (simp add: unat_mod gcd_red_nat [of "unat a" "unat b"])
  qed
qed

lemma reduced_rates:
  assumes "0 < a" "0 < b"
  shows "0 < a div ma_gcf_u32 a b" "0 < b div ma_gcf_u32 a b" "unat (b div ma_gcf_u32 a b) \<le> unat b"
  using assms by (simp_all add: word_less_nat_alt unat_div gcf_is_gcd div_greater_zero_iff dvd_imp_le)

lemma adjust_timer_wf:
  assumes "0 < lr_in r" "0 < lr_out r" "unat (lr_out r) \<le> 2 ^ 31" "lr_inAdvanceInt r = lr_in r div lr_out r" "lr_inAdvanceFrac r = lr_in r mod lr_out r"
  shows "lr_wf (ma_linear_resampler_adjust_timer_for_new_rate r old new)"
  using assms by (simp add: ma_linear_resampler_adjust_timer_for_new_rate_def Let_def lr_wf_def word_less_nat_alt unat_mod)

text \<open>Setting a rate, at opening or later, gives a resampler in range.\<close>

lemma set_rate_wf:
  assumes "ma_linear_resampler_set_rate_internal cpu lm (Some r) pHeap rIn rOut again = (MA_SUCCESS, p)" "unat rOut \<le> 2 ^ 31"
  shows "\<exists>r'. p = Some r' \<and> lr_wf r' \<and> rc_format (lr_config r') = rc_format (lr_config r) \<and> rc_channels (lr_config r') = rc_channels (lr_config r) \<and>
    lr_in r' = rIn div ma_gcf_u32 rIn rOut \<and> lr_out r' = rOut div ma_gcf_u32 rIn rOut"
proof -
  have pos: "0 < rIn" "0 < rOut" using assms(1) by (auto simp: ma_linear_resampler_set_rate_internal_def word_neq_0_conv split: if_splits)
  note g = reduced_rates [OF pos]
  have le: "unat (rOut div ma_gcf_u32 rIn rOut) \<le> 2 ^ 31" using g(3) assms(2) by simp
  show ?thesis using assms(1) pos g le
    by (auto simp: ma_linear_resampler_set_rate_internal_def Let_def split: if_splits prod.splits intro!: adjust_timer_wf)
      (simp_all add: ma_linear_resampler_adjust_timer_for_new_rate_def Let_def)
qed

lemma opened_ok:
  assumes "ma_linear_resampler_init_preallocated cpu lm (Some c) pHeap p0 = (MA_SUCCESS, p)" "unat (rc_sampleRateOut c) \<le> 2 ^ 31"
  shows "\<exists>r. p = Some r \<and> lr_ok r \<and> lr_inTimeInt r = 1 \<and> lr_inTimeFrac r = 0 \<and> rc_format (lr_config r) = rc_format c \<and>
    lr_in r = rc_sampleRateIn c div ma_gcf_u32 (rc_sampleRateIn c) (rc_sampleRateOut c) \<and>
    lr_out r = rc_sampleRateOut c div ma_gcf_u32 (rc_sampleRateIn c) (rc_sampleRateOut c)"
proof -
  obtain l where l: "ma_linear_resampler_get_heap_layout lm (Some c) = (MA_SUCCESS, l)"
    using assms(1) by (auto simp: ma_linear_resampler_init_preallocated_def split: option.splits prod.splits if_splits)
  then have f: "rc_format c = ma_format_f32 \<or> rc_format c = ma_format_s16"
    by (auto simp: ma_linear_resampler_get_heap_layout_def Let_def split: if_splits prod.splits)
  define z where "z = zero_resampler\<lparr>lr_config := c, lr_pHeap := pHeap,
    lr_x0 := replicate ((if rc_format c = ma_format_f32 then 4 else 2) * unat (rc_channels c)) 0,
    lr_x1 := replicate ((if rc_format c = ma_format_f32 then 4 else 2) * unat (rc_channels c)) 0\<rparr>"
  obtain p1 where s: "ma_linear_resampler_set_rate_internal cpu lm (Some z) (map_option (\<lambda>p. p + rh_lpfOffset l) pHeap)
      (rc_sampleRateIn c) (rc_sampleRateOut c) False = (MA_SUCCESS, p1)" "p = map_option (\<lambda>r. r\<lparr>lr_inTimeInt := 1, lr_inTimeFrac := 0\<rparr>) p1"
    using assms(1) l unfolding z_def by (auto simp: ma_linear_resampler_init_preallocated_def Let_def split: option.splits prod.splits if_splits)
  from set_rate_wf [OF s(1) assms(2)] obtain r where r: "p1 = Some r" "lr_wf r" "rc_format (lr_config r) = rc_format c"
    "lr_in r = rc_sampleRateIn c div ma_gcf_u32 (rc_sampleRateIn c) (rc_sampleRateOut c)"
    "lr_out r = rc_sampleRateOut c div ma_gcf_u32 (rc_sampleRateIn c) (rc_sampleRateOut c)" by (auto simp: z_def)
  have "0 < lr_in r" "0 < lr_out r" using r(2) by (simp_all add: lr_wf_def)
  with r f s(2) show ?thesis
    by (auto simp: lr_ok_def lr_wf_def lr_format_ok_def lr_time_def word_less_nat_alt)
qed

section \<open>Interpolation of 16 bit samples\<close>

lemma s16_bounds: "- 32768 \<le> sint (x :: s16)" "sint (x :: s16) \<le> 32767"
  using sint_ge [of x] sint_lt [of x] by simp_all

lemma sint_scast_s16: "- 32768 \<le> sint w \<Longrightarrow> sint w \<le> 32767 \<Longrightarrow> sint (scast w :: s16) = sint w" for w :: s32
  unfolding scast_eq signed_of_int of_int_eq_id id_apply by (rule signed_take_bit_int_eq_self) simp_all

text \<open>The weighted mean of two samples lies between them.\<close>

lemma weighted_between:
  fixes x y a :: int
  assumes "0 \<le> a" "a \<le> 4096"
  shows "min x y \<le> (x * (4096 - a) + y * a) div 4096" "(x * (4096 - a) + y * a) div 4096 \<le> max x y"
proof -
  have "min x y * (4096 - a) + min x y * a \<le> x * (4096 - a) + y * a" using assms by (intro add_mono mult_right_mono) simp_all
  then have "min x y * 4096 \<le> x * (4096 - a) + y * a" by (simp add: right_diff_distrib)
  then have "min x y * 4096 div 4096 \<le> (x * (4096 - a) + y * a) div 4096" by (rule zdiv_mono1) simp
  then show "min x y \<le> (x * (4096 - a) + y * a) div 4096" by simp
  have "x * (4096 - a) + y * a \<le> max x y * (4096 - a) + max x y * a" using assms by (intro add_mono mult_right_mono) simp_all
  then have "x * (4096 - a) + y * a \<le> max x y * 4096" by (simp add: right_diff_distrib)
  then have "(x * (4096 - a) + y * a) div 4096 \<le> max x y * 4096 div 4096" by (rule zdiv_mono1) simp
  then show "(x * (4096 - a) + y * a) div 4096 \<le> max x y" by simp
qed

lemma mix_s16:
  assumes "uint a \<le> 4096"
  shows "sint (ma_linear_resampler_mix_s16 x y a 12) = (sint x * (4096 - uint a) + sint y * uint a) div 4096"
proof -
  define r where "r = sint x * (4096 - uint a) + sint y * uint a"
  have b: "- 32768 \<le> r div 4096" "r div 4096 \<le> 32767"
    using weighted_between [OF uint_ge_0 assms, of "sint x" "sint y"] s16_bounds [of x] s16_bounds [of y] unfolding r_def by linarith+
  then have rr: "- 2147483648 \<le> r" "r < 2147483648" by linarith+
  have w: "scast x * (4096 - a) + scast y * a = (word_of_int r :: s32)"
    by (simp add: r_def)
  have "sint (signed_drop_bit 12 (word_of_int r :: s32)) = r div 4096"
    using rr by (simp add: sint_signed_drop_bit_eq sint_in_s32 drop_bit_eq_div)
  then show ?thesis using b w by (simp add: ma_linear_resampler_mix_s16_def Let_def push_bit_of_1 sint_scast_s16 r_def [symmetric])
qed

lemma interpolate_s16:
  assumes "lr_wf r" "unat (lr_inTimeFrac r) < 2 ^ 20" "2 * unat (lr_channels r) \<le> length out" "c < unat (lr_channels r)"
  defines "v \<equiv> sint (s16_at (ma_linear_resampler_interpolate_frame_s16 r out) c)"
  shows "min (sint (s16_at (lr_x0 r) c)) (sint (s16_at (lr_x1 r) c)) \<le> v" "v \<le> max (sint (s16_at (lr_x0 r) c)) (sint (s16_at (lr_x1 r) c))"
proof -
  let ?f = "unat (lr_inTimeFrac r)" and ?o = "unat (lr_out r)"
  have o: "?f < ?o" using assms(1) by (simp add: lr_wf_def word_less_nat_alt)
  define a where "a = push_bit 12 (lr_inTimeFrac r) div lr_out r"
  have "unat (push_bit 12 (lr_inTimeFrac r)) = ?f * 4096" using assms(2) by (simp add: push_bit_eq_mult unat_mult_lt mult.commute)
  then have "unat a = ?f * 4096 div ?o" by (simp add: a_def unat_div)
  also have "\<dots> \<le> 4096" using o div_le_mono [of "?f * 4096" "4096 * ?o" ?o] by simp
  finally have "unat a \<le> 4096" .
  then have "int (unat a) \<le> int 4096" by (simp only: of_nat_le_iff)
  then have a: "uint a \<le> 4096" by simp
  have "s16_at (ma_linear_resampler_interpolate_frame_s16 r out) c = ma_linear_resampler_mix_s16 (s16_at (lr_x0 r) c) (s16_at (lr_x1 r) c) a 12"
    unfolding ma_linear_resampler_interpolate_frame_s16_def Let_def a_def [symmetric] s16_loop [OF assms(3)] s16_at_concat [OF assms(4)] ..
  then have "v = (sint (s16_at (lr_x0 r) c) * (4096 - uint a) + sint (s16_at (lr_x1 r) c) * uint a) div 4096"
    by (simp add: v_def mix_s16 [OF a])
  then show "min (sint (s16_at (lr_x0 r) c)) (sint (s16_at (lr_x1 r) c)) \<le> v" "v \<le> max (sint (s16_at (lr_x0 r) c)) (sint (s16_at (lr_x1 r) c))"
    using weighted_between [of "uint a"] a by simp_all
qed

section \<open>Changing the rate\<close>

text \<open>The product in the adjustment of the timer wraps: setting the rate that is already set moves the timer
  from nine tenths of an input frame to almost nothing.\<close>

lemma adjust_timer_wraps:
  "lr_inTimeFrac r = 900000 \<Longrightarrow> lr_out r = 1000000 \<Longrightarrow> lr_inTimeFrac (ma_linear_resampler_adjust_timer_for_new_rate r 1000000 1000000) = 2351"
  by (simp add: ma_linear_resampler_adjust_timer_for_new_rate_def Let_def)

lemma opens_without_filter:
  assumes "rc_lpfOrder c = 0" "rc_format c = ma_format_s16 \<or> rc_format c = ma_format_f32" "rc_channels c \<noteq> 0" "rc_sampleRateIn c \<noteq> 0" "rc_sampleRateOut c \<noteq> 0"
  shows "\<exists>p. ma_linear_resampler_init_preallocated cpu lm (Some c) pHeap (Some r0) = (MA_SUCCESS, p)"
proof -
  have l: "\<exists>l. ma_lpf_get_heap_layout lm (Some (ma_lpf_config_init (rc_format c) (rc_channels c) sr f 0)) = (MA_SUCCESS, l)" for sr f
    using assms(3) by (simp add: ma_lpf_get_heap_layout_def ma_lpf_config_init_def ma_lpf_calculate_sub_lpf_counts_def split: prod.split)
  have i: "\<exists>f'. ma_lpf_init_preallocated cpu lm (Some (ma_lpf_config_init (rc_format c) (rc_channels c) sr f 0)) h (Some g) = (MA_SUCCESS, f')" for sr f h g
    using assms(2) l [of sr f]
    by (auto simp: ma_lpf_init_preallocated_def ma_lpf_reinit__internal_def ma_lpf_config_init_def ma_lpf_calculate_sub_lpf_counts_def zero_lpf_def Let_def)
  have "\<exists>z. ma_lpf_get_heap_size lm (Some (ma_lpf_config_init (rc_format c) (rc_channels c) 1 (dlit 1) 0)) = (MA_SUCCESS, z)"
    using l [of 1 "dlit 1"] by (auto simp: ma_lpf_get_heap_size_def)
  then have "\<exists>l. ma_linear_resampler_get_heap_layout lm (Some c) = (MA_SUCCESS, l)"
    using assms(1-3) by (auto simp: ma_linear_resampler_get_heap_layout_def Let_def)
  then obtain l where l: "ma_linear_resampler_get_heap_layout lm (Some c) = (MA_SUCCESS, l)" by blast
  have s: "\<exists>p. ma_linear_resampler_set_rate_internal cpu lm (Some r) h (rc_sampleRateIn c) (rc_sampleRateOut c) False = (MA_SUCCESS, p)" if "lr_config r = c" for r h
  proof -
    have "fst (ma_lpf_init_preallocated cpu lm (Some (ma_lpf_config_init (rc_format c) (rc_channels c) sr f 0)) h (Some g)) = MA_SUCCESS" for sr f g
      using i [of sr f h g] by auto
    then show ?thesis using assms(1,4,5) that by (simp add: ma_linear_resampler_set_rate_internal_def Let_def case_prod_beta)
  qed
  show ?thesis unfolding ma_linear_resampler_init_preallocated_def l Let_def
    using s [of "zero_resampler\<lparr>lr_config := c, lr_pHeap := pHeap,
      lr_x0 := replicate ((if rc_format c = ma_format_f32 then 4 else 2) * unat (rc_channels c)) 0,
      lr_x1 := replicate ((if rc_format c = ma_format_f32 then 4 else 2) * unat (rc_channels c)) 0\<rparr>" "map_option (\<lambda>p. p + rh_lpfOffset l) pHeap"] by auto
qed

section \<open>Runs of an opened resampler\<close>

lemma predicted_after_dry:
  assumes "ma_linear_resampler_init_preallocated cpu lm (Some c) pHeap p0 = (MA_SUCCESS, p)" "unat (rc_sampleRateOut c) \<le> 2 ^ 31"
    and "ma_linear_resampler_process_pcm_frames (process_calls cs p) src0 cin out0 cout = (MA_SUCCESS, i, n, out1, p1)" "n < cout"
    and "unat m \<le> 4294967295" "unat m * unat (rc_sampleRateOut c) < 4294967295 * unat (rc_sampleRateIn c)"
  shows "i = cin \<and> (\<exists>e. ma_linear_resampler_get_expected_output_frame_count p1 m = (MA_SUCCESS, e) \<and>
    (e < cout' \<longrightarrow> (\<exists>out' p'. ma_linear_resampler_process_pcm_frames p1 src m out cout' = (MA_SUCCESS, m, e, out', p'))))"
proof -
  obtain r where r: "p = Some r" "lr_ok r" "lr_in r = rc_sampleRateIn c div ma_gcf_u32 (rc_sampleRateIn c) (rc_sampleRateOut c)"
    "lr_out r = rc_sampleRateOut c div ma_gcf_u32 (rc_sampleRateIn c) (rc_sampleRateOut c)" using opened_ok [OF assms(1,2)] by blast
  obtain r1 where r1: "process_calls cs p = Some r1" "lr_ok r1" "lr_config r1 = lr_config r" using process_calls_ok [OF r(2)] r(1) by blast
  have ok: "lr_wf r1" "lr_format_ok r1" "lr_time r1 < unat (lr_out r1) + unat (lr_in r1)" using r1(2) by (simp_all add: lr_ok_def)
  obtain r2 where r2: "p1 = Some r2" "resampled r1 (unat cin) (unat cout) (unat i) (unat n) r2"
    using process_timing [OF ok(1,2), of src0 cin out0 cout] assms(3) r1(1) by auto
  note dry = ran_dry [OF ok(1,3) r2(2) assms(4) [unfolded word_less_nat_alt]]
  let ?g = "gcd (unat (rc_sampleRateIn c)) (unat (rc_sampleRateOut c))"
  have u: "unat (lr_in r2) = unat (rc_sampleRateIn c) div ?g" "unat (lr_out r2) = unat (rc_sampleRateOut c) div ?g"
    using dry(5) r1(3) r(3,4) by (simp_all add: unat_div gcf_is_gcd)
  have g: "unat (rc_sampleRateIn c) = unat (lr_in r2) * ?g" "unat (rc_sampleRateOut c) = unat (lr_out r2) * ?g" using u by simp_all
  have "unat m * unat (lr_out r2) * ?g < 4294967295 * unat (lr_in r2) * ?g" using assms(6) g by (simp only: mult.assoc)
  then have b: "unat m * unat (lr_out r2) < 4294967295 * unat (lr_in r2)" by (simp only: mult_less_cancel2)
  obtain e where e: "ma_linear_resampler_get_expected_output_frame_count (Some r2) m = (MA_SUCCESS, e)"
    "unat e = out_count (unat (lr_in r2)) (unat (lr_out r2)) (unat m) (lr_time r2)"
    using expected_output [OF dry(4) b dry(2,3) assms(5)] .
  have "\<exists>out' p'. ma_linear_resampler_process_pcm_frames p1 src m out cout' = (MA_SUCCESS, m, e, out', p')" if "e < cout'"
  proof -
    have "lr_format_ok r2" using ok(2) dry(5) by (simp add: lr_format_ok_def)
    from process_timing [OF dry(4) this, of src m out cout'] obtain i' n' out' r' where
      q: "ma_linear_resampler_process_pcm_frames (Some r2) src m out cout' = (MA_SUCCESS, i', n', out', Some r')"
      "resampled r2 (unat m) (unat cout') (unat i') (unat n') r'" .
    have "unat n' = unat e" "unat i' = unat m" using q(2) e(2) that by (simp_all add: resampled_def Let_def word_less_nat_alt)
    then have "n' = e" "i' = m" by (simp_all add: word_unat_eq_iff)
    then show ?thesis using q(1) r2(1) by simp
  qed
  moreover have "i = cin" using dry(1) by (simp add: word_unat_eq_iff)
  ultimately show ?thesis using e(1) r2(1) by blast
qed

text \<open>From 16 kHz to 48 kHz, one channel of 16 bit samples, no filter.\<close>

definition tripling :: ma_linear_resampler_config where
  "tripling = \<lparr>rc_format = ma_format_s16, rc_channels = 1, rc_sampleRateIn = 16000, rc_sampleRateOut = 48000, rc_lpfOrder = 0, rc_lpfNyquistFactor = FNum False 1\<rparr>"

lemma tripling_opens: "\<exists>p. ma_linear_resampler_init_preallocated cpu lm (Some tripling) pHeap (Some r0) = (MA_SUCCESS, p)"
  by (rule opens_without_filter) (simp_all add: tripling_def)

lemma tripling_opened:
  assumes "ma_linear_resampler_init_preallocated cpu lm (Some tripling) pHeap p0 = (MA_SUCCESS, p)"
  obtains r where "p = Some r" "lr_ok r" "lr_time r = 3" "lr_in r = 1" "lr_out r = 3"
proof -
  have g: "ma_gcf_u32 16000 48000 = 16000" by (simp add: ma_gcf_u32.simps)
  have "unat (rc_sampleRateOut tripling) \<le> 2 ^ 31" by (simp add: tripling_def)
  from opened_ok [OF assms this] obtain r where r: "p = Some r" "lr_ok r" "lr_inTimeInt r = 1" "lr_inTimeFrac r = 0" "lr_in r = 1" "lr_out r = 3"
    by (auto simp: tripling_def g)
  moreover from r have "lr_time r = 3" by (simp add: lr_time_def)
  ultimately show thesis using that by blast
qed

text \<open>A call at these rates, by the counts alone.\<close>

lemma tripling_process:
  assumes "lr_ok r" "lr_in r = 1" "lr_out r = 3"
  obtains i n out' r' where "ma_linear_resampler_process_pcm_frames (Some r) src cin out cout = (MA_SUCCESS, i, n, out', Some r')"
    "lr_ok r'" "lr_in r' = 1" "lr_out r' = 3" "resampled r (unat cin) (unat cout) (unat i) (unat n) r'"
proof -
  have ok: "lr_wf r" "lr_format_ok r" using assms(1) by (simp_all add: lr_ok_def)
  obtain i n out' r' where p: "ma_linear_resampler_process_pcm_frames (Some r) src cin out cout = (MA_SUCCESS, i, n, out', Some r')"
    "resampled r (unat cin) (unat cout) (unat i) (unat n) r'" using process_timing [OF ok, of src cin out cout] .
  moreover have "lr_config r' = lr_config r" using p(2) by (simp add: resampled_def Let_def)
  ultimately show thesis using that resampled_ok [OF assms(1) p(2)] assms(2,3) by simp
qed

lemma tripling_runs_dry:
  assumes "ma_linear_resampler_init_preallocated cpu lm (Some tripling) pHeap p0 = (MA_SUCCESS, p)"
  shows "\<exists>n out1 p1. ma_linear_resampler_process_pcm_frames p src 4 out 100 = (MA_SUCCESS, 4, n, out1, p1) \<and> n < 100"
proof -
  obtain r where r: "p = Some r" "lr_ok r" "lr_time r = 3" "lr_in r = 1" "lr_out r = 3" using tripling_opened [OF assms] .
  obtain i n out' r' where q: "ma_linear_resampler_process_pcm_frames (Some r) src 4 out 100 = (MA_SUCCESS, i, n, out', Some r')"
    "resampled r (unat (4 :: u64)) (unat (100 :: u64)) (unat i) (unat n) r'" using tripling_process [OF r(2,4,5)] .
  then have "unat i = unat (4 :: u64)" "unat n < unat (100 :: u64)" using r by (simp_all add: resampled_def Let_def out_count_def)
  then have "i = 4" "n < 100" by (simp_all add: word_unat_eq_iff word_less_nat_alt)
  then show ?thesis using q(1) r(1) by blast
qed

lemma tripling_underestimates:
  "\<exists>p out1 p1 out2 p2. ma_linear_resampler_init_preallocated cpu lm (Some tripling) NULL (Some zero_resampler) = (MA_SUCCESS, p) \<and>
    ma_linear_resampler_process_pcm_frames p src 1 out 1 = (MA_SUCCESS, 1, 1, out1, p1) \<and>
    ma_linear_resampler_get_expected_output_frame_count p1 1 = (MA_SUCCESS, 4) \<and>
    ma_linear_resampler_process_pcm_frames p1 src' 1 out' 10 = (MA_SUCCESS, 1, 5, out2, p2)"
proof -
  obtain p where p: "ma_linear_resampler_init_preallocated cpu lm (Some tripling) NULL (Some zero_resampler) = (MA_SUCCESS, p)" using tripling_opens by blast
  obtain r where r: "p = Some r" "lr_ok r" "lr_time r = 3" "lr_in r = 1" "lr_out r = 3" using tripling_opened [OF p] .
  obtain i n out1 r1 where q: "ma_linear_resampler_process_pcm_frames (Some r) src 1 out 1 = (MA_SUCCESS, i, n, out1, Some r1)"
    "lr_ok r1" "lr_in r1 = 1" "lr_out r1 = 3" "resampled r (unat (1 :: u64)) (unat (1 :: u64)) (unat i) (unat n) r1" using tripling_process [OF r(2,4,5)] .
  have 1: "unat i = unat (1 :: u64)" "unat n = unat (1 :: u64)" "lr_time r1 = 1" using q(5) r by (simp_all add: resampled_def Let_def out_count_def)
  have t: "lr_inTimeInt r1 = 0" "lr_inTimeFrac r1 = 1"
  proof -
    have "unat (lr_inTimeInt r1) * 3 + unat (lr_inTimeFrac r1) = 1" using 1(3) q(4) by (simp add: lr_time_def)
    then have "unat (lr_inTimeInt r1) = 0" "unat (lr_inTimeFrac r1) = 1" by presburger+
    then show "lr_inTimeInt r1 = 0" "lr_inTimeFrac r1 = 1" by (simp_all add: word_unat_eq_iff)
  qed
  have e: "ma_linear_resampler_get_expected_output_frame_count (Some r1) 1 = (MA_SUCCESS, 4)"
    using t q(2-4) by (simp add: ma_linear_resampler_get_expected_output_frame_count_def Let_def lr_ok_def lr_wf_def)
  obtain i' n' out2 r2 where q': "ma_linear_resampler_process_pcm_frames (Some r1) src' 1 out' 10 = (MA_SUCCESS, i', n', out2, Some r2)"
    "resampled r1 (unat (1 :: u64)) (unat (10 :: u64)) (unat i') (unat n') r2" using tripling_process [OF q(2-4)] .
  have "unat i' = unat (1 :: u64)" "unat n' = unat (5 :: u64)" using q'(2) 1(3) q(3,4) by (simp_all add: resampled_def Let_def out_count_def)
  with 1 have "i = 1" "n = 1" "i' = 1" "n' = 5" by (simp_all add: word_unat_eq_iff)
  then show ?thesis using p q(1) q'(1) e r(1) by blast
qed

text \<open>A frame in the middle of 100 and 200, and a filter of order three in the middle of a sound, for two channels.\<close>

definition halfway :: ma_linear_resampler where
  "halfway = zero_resampler\<lparr>lr_config := \<lparr>rc_format = ma_format_s16, rc_channels = 1, rc_sampleRateIn = 1, rc_sampleRateOut = 2, rc_lpfOrder = 0,
       rc_lpfNyquistFactor = FNum False 1\<rparr>, lr_inAdvanceFrac := 1, lr_inTimeFrac := 1, lr_x0 := [100, 0], lr_x1 := [200, 0]\<rparr>"

lemma halfway_ok: "lr_wf halfway" "lr_inTimeFrac halfway = 1" "lr_channels halfway = 1" "s16_at (lr_x0 halfway) 0 = 100" "s16_at (lr_x1 halfway) 0 = 200"
  by (simp_all add: halfway_def zero_resampler_def lr_wf_def s16_at_def mem_read_def)

definition ringing :: ma_lpf where
  "ringing = zero_lpf\<lparr>lpf_format := ma_format_s16, lpf_channels := 2, lpf1Count := 1, lpf2Count := 1,
     pLPF1 := [zero_lpf1\<lparr>l1_format := ma_format_s16, l1_channels := 2, l1_a := 1000, l1_pR1 := [5, 6]\<rparr>],
     pLPF2 := [zero_biquad\<lparr>bq_format := ma_format_s16, bq_channels := 2, bq_b0 := 9, bq_pR1 := [33, 77], bq_pR2 := [44, 88]\<rparr>]\<rparr>"

definition plain_libm :: ma_libm where
  "plain_libm = \<lparr>lm_sin = \<lambda>x. x, lm_exp = \<lambda>x. x\<rparr>"

end
