(* ===== verification/RbSpsc.thy ===== *)
theory RbSpsc
  imports MaRb
begin

text \<open>
  One producer thread and one consumer thread on the same \<open>ma_rb\<close>, step by step: each loads the
  other side's cursor, computes its grant from that possibly stale value, copies byte by byte,
  and stores its own cursor. The step relation runs the code's own acquire and commit functions;
  a stale cursor enters an acquire as the cursor of the ring it is given. Every atomic access and
  every byte of a \<open>memcpy\<close> is one step.
\<close>

section \<open>The threads\<close>

datatype producer =
  P_idle
| P_snap u32 "u8 list"        \<comment> \<open>read offset loaded, bytes to send\<close>
| P_fill nat "u8 list" nat    \<comment> \<open>granted region, bytes for it, bytes copied\<close>

datatype consumer =
  C_idle
| C_snap u32 u64              \<comment> \<open>write offset loaded, bytes wanted\<close>
| C_fetch nat nat "u8 list"   \<comment> \<open>granted region, its size, bytes copied\<close>

record spsc =
  sp_rb :: ma_rb
  sp_prod :: producer
  sp_cons :: consumer
  sp_sent :: "u8 list"
  sp_recv :: "u8 list"

inductive prod_step :: "spsc \<Rightarrow> spsc \<Rightarrow> bool" where
  p_load: "sp_prod s = P_idle \<Longrightarrow> length xs < 2 ^ 64 \<Longrightarrow>
    prod_step s (s\<lparr>sp_prod := P_snap (encodedReadOffset (sp_rb s)) xs\<rparr>)"
| p_acquire: "sp_prod s = P_snap r xs \<Longrightarrow>
    ma_rb_acquire_write (Some (sp_rb s\<lparr>encodedReadOffset := r\<rparr>)) (Some (of_nat (length xs))) (Some NULL)
      = (MA_SUCCESS, Some n, Some (Some p), Some rb') \<Longrightarrow>
    prod_step s (s\<lparr>sp_prod := P_fill (unat p) (take (unat n) xs) 0\<rparr>)"
| p_byte: "sp_prod s = P_fill p ys j \<Longrightarrow> j < length ys \<Longrightarrow>
    prod_step s (s\<lparr>sp_rb := sp_rb s\<lparr>pBuffer := (pBuffer (sp_rb s))[p + j := ys ! j]\<rparr>, sp_prod := P_fill p ys (Suc j)\<rparr>)"
| p_commit: "sp_prod s = P_fill p ys (length ys) \<Longrightarrow>
    ma_rb_commit_write (Some (sp_rb s)) (of_nat (length ys)) = (MA_SUCCESS, Some rb') \<Longrightarrow>
    prod_step s (s\<lparr>sp_rb := rb', sp_prod := P_idle, sp_sent := sp_sent s @ ys\<rparr>)"

inductive cons_step :: "spsc \<Rightarrow> spsc \<Rightarrow> bool" where
  c_load: "sp_cons s = C_idle \<Longrightarrow> cons_step s (s\<lparr>sp_cons := C_snap (encodedWriteOffset (sp_rb s)) want\<rparr>)"
| c_acquire: "sp_cons s = C_snap w want \<Longrightarrow>
    ma_rb_acquire_read (Some (sp_rb s\<lparr>encodedWriteOffset := w\<rparr>)) (Some want) (Some NULL)
      = (MA_SUCCESS, Some n, Some (Some p)) \<Longrightarrow>
    cons_step s (s\<lparr>sp_cons := C_fetch (unat p) (unat n) []\<rparr>)"
| c_byte: "sp_cons s = C_fetch p k got \<Longrightarrow> length got < k \<Longrightarrow>
    cons_step s (s\<lparr>sp_cons := C_fetch p k (got @ [pBuffer (sp_rb s) ! (p + length got)])\<rparr>)"
| c_commit: "sp_cons s = C_fetch p k got \<Longrightarrow> length got = k \<Longrightarrow>
    ma_rb_commit_read (Some (sp_rb s)) (of_nat k) = (MA_SUCCESS, Some rb') \<Longrightarrow>
    cons_step s (s\<lparr>sp_rb := rb', sp_cons := C_idle, sp_recv := sp_recv s @ got\<rparr>)"

definition spsc_step :: "spsc \<Rightarrow> spsc \<Rightarrow> bool" where
  "spsc_step s s' \<longleftrightarrow> prod_step s s' \<or> cons_step s s'"

definition spsc_start :: "ma_rb \<Rightarrow> spsc" where
  "spsc_start rb = \<lparr>sp_rb = rb, sp_prod = P_idle, sp_cons = C_idle, sp_sent = rb_contents rb, sp_recv = []\<rparr>"

inductive_cases prod_stepE: "prod_step s s'"
inductive_cases cons_stepE: "cons_step s s'"

section \<open>The invariant\<close>

fun prod_ok :: "ma_rb \<Rightarrow> producer \<Rightarrow> bool" where
  "prod_ok rb P_idle \<longleftrightarrow> True"
| "prod_ok rb (P_snap r xs) \<longleftrightarrow> rb_wf (rb\<lparr>encodedReadOffset := r\<rparr>) \<and> length xs < 2 ^ 64
     \<and> rb_writable (rb\<lparr>encodedReadOffset := r\<rparr>) \<le> rb_writable rb"
| "prod_ok rb (P_fill p ys j) \<longleftrightarrow> p = rb_wr rb \<and> length ys \<le> rb_writable rb \<and> j \<le> length ys
     \<and> mem_read (pBuffer rb) p j = take j ys"

fun cons_ok :: "ma_rb \<Rightarrow> consumer \<Rightarrow> bool" where
  "cons_ok rb C_idle \<longleftrightarrow> True"
| "cons_ok rb (C_snap w want) \<longleftrightarrow> rb_wf (rb\<lparr>encodedWriteOffset := w\<rparr>)
     \<and> rb_readable (rb\<lparr>encodedWriteOffset := w\<rparr>) \<le> rb_readable rb"
| "cons_ok rb (C_fetch p k got) \<longleftrightarrow> p = rb_rd rb \<and> k \<le> rb_readable rb \<and> length got \<le> k
     \<and> got = take (length got) (rb_contents rb)"

definition spsc_inv :: "spsc \<Rightarrow> bool" where
  "spsc_inv s \<longleftrightarrow> rb_wf (sp_rb s) \<and> \<not> clearOnWriteAcquire (sp_rb s) \<and> sp_recv s @ rb_contents (sp_rb s) = sp_sent s
     \<and> prod_ok (sp_rb s) (sp_prod s) \<and> cons_ok (sp_rb s) (sp_cons s)"

text \<open>Bytes outside the contents do not matter to them.\<close>

lemma buffer_views [simp]:
  "rb_rd (rb\<lparr>pBuffer := m\<rparr>) = rb_rd rb" "rb_wr (rb\<lparr>pBuffer := m\<rparr>) = rb_wr rb" "rb_same (rb\<lparr>pBuffer := m\<rparr>) = rb_same rb"
  "rb_readable (rb\<lparr>pBuffer := m\<rparr>) = rb_readable rb" "rb_writable (rb\<lparr>pBuffer := m\<rparr>) = rb_writable rb"
  by (simp_all add: rb_view_defs offset_defs)

lemma rb_wf_buffer: "length m = length (pBuffer rb) \<Longrightarrow> rb_wf (rb\<lparr>pBuffer := m\<rparr>) = rb_wf rb"
  by (simp add: rb_wf_def)

lemma free_byte_contents:
  assumes "rb_wf rb" "j < rb_writable rb"
  shows "rb_contents (rb\<lparr>pBuffer := (pBuffer rb)[rb_wr rb + j := b]\<rparr>) = rb_contents rb"
proof -
  have i: "rb_wr rb + j < rb_cap rb" "rb_cap rb \<le> length (pBuffer rb)" using rb_region_bounds [OF assms(1)] assms(2) by simp_all
  have keep: "mem_read ((pBuffer rb)[rb_wr rb + j := b]) a n = mem_read (pBuffer rb) a n"
    if "a + n \<le> rb_wr rb + j \<or> rb_wr rb + j < a" for a n
    using that by (rule disjE) (auto simp: mem_read_def drop_update_swap drop_update_cancel)
  have "rb_contents (rb\<lparr>pBuffer := (pBuffer rb)[rb_wr rb + j := b]\<rparr>)
      = (if rb_same rb then mem_read ((pBuffer rb)[rb_wr rb + j := b]) (rb_rd rb) (rb_wr rb - rb_rd rb)
         else mem_read ((pBuffer rb)[rb_wr rb + j := b]) (rb_rd rb) (rb_cap rb - rb_rd rb)
           @ mem_read ((pBuffer rb)[rb_wr rb + j := b]) 0 (rb_wr rb))"
    by (simp add: rb_contents_def)
  also have "\<dots> = rb_contents rb"
  proof (cases "rb_same rb")
    case False
    then have "rb_wr rb + j < rb_rd rb" using assms(2) by (simp add: rb_writable_def)
    then show ?thesis using False by (simp add: rb_contents_def keep)
  qed (use assms in \<open>simp add: rb_contents_def keep rb_wf_def\<close>)
  finally show ?thesis .
qed

text \<open>What one side does only enlarges what the other may use.\<close>

lemma writable_grows:
  assumes "rb_wf rb" "k \<le> rb_readable rb"
  shows "rb_writable rb \<le> rb_writable (rb_advance_read rb k)"
proof -
  have le: "rb_rd rb + k \<le> rb_cap rb" using rb_region_bounds(1) [OF assms(1)] assms(2) by simp
  show ?thesis
    using rb_advance_read_view [OF assms(1) le] rb_cap_simps(1) [of rb k] assms
    by (auto simp: rb_writable_def rb_readable_def rb_wf_def split: if_splits)
qed

lemma readable_grows:
  assumes "rb_wf rb" "k \<le> rb_writable rb"
  shows "rb_readable rb \<le> rb_readable (rb_advance_write rb k)"
proof -
  have le: "rb_wr rb + k \<le> rb_cap rb" using rb_region_bounds(2) [OF assms(1)] assms(2) by simp
  show ?thesis
    using rb_advance_write_view [OF assms(1) le] rb_cap_simps(2) [of rb k] assms
    by (auto simp: rb_writable_def rb_readable_def rb_wf_def split: if_splits)
qed

lemma stale_read_simps [simp]:
  "(rb_advance_read rb k)\<lparr>encodedReadOffset := r\<rparr> = rb\<lparr>encodedReadOffset := r\<rparr>"
  "(rb_advance_write rb k)\<lparr>encodedWriteOffset := w\<rparr> = rb\<lparr>encodedWriteOffset := w\<rparr>"
  "clearOnWriteAcquire (rb_advance_read rb k) = clearOnWriteAcquire rb"
  "clearOnWriteAcquire (rb_advance_write rb k) = clearOnWriteAcquire rb"
  by (simp_all add: rb_advance_read_def rb_advance_write_def)

lemma prod_ok_consume:
  assumes "rb_wf rb" "k \<le> rb_readable rb" "prod_ok rb p"
  shows "prod_ok (rb_advance_read rb k) p"
proof -
  have le: "rb_rd rb + k \<le> rb_cap rb" using rb_region_bounds(1) [OF assms(1)] assms(2) by simp
  show ?thesis
    using assms(3) writable_grows [OF assms(1,2)] rb_advance_read_view [OF assms(1) le] by (cases p) auto
qed

lemma cons_ok_put:
  assumes "rb_wf rb" "k \<le> rb_writable rb" "cons_ok rb c" "rb_contents rb' = rb_contents rb @ ys" "rb' = rb_advance_write rb k"
  shows "cons_ok rb' c"
proof -
  have le: "rb_wr rb + k \<le> rb_cap rb" using rb_region_bounds(2) [OF assms(1)] assms(2) by simp
  have g: "got = take (length got) (rb_contents rb @ ys)" if "got = take (length got) (rb_contents rb)" for got
    using that by (metis append_take_drop_id length_append length_take min_def take_append nat_le_linear add.right_neutral diff_is_0_eq take0 append_Nil2)
  show ?thesis
    using assms(3) readable_grows [OF assms(1,2)] rb_advance_write_view [OF assms(1) le] g assms(4)
    by (cases c) (auto simp: assms(5))
qed

lemma prod_step_inv:
  assumes "prod_step s s'" "spsc_inv s"
  shows "spsc_inv s'"
  using assms(1)
proof cases
  case (p_load xs)
  then show ?thesis using assms(2) by (simp add: spsc_inv_def)
next
  case (p_acquire r xs n p rb')
  let ?rb = "sp_rb s\<lparr>encodedReadOffset := r\<rparr>"
  have ok: "rb_wf ?rb" "rb_writable ?rb \<le> rb_writable (sp_rb s)" "\<not> clearOnWriteAcquire ?rb" "length xs < 2 ^ 64"
    using assms(2) p_acquire(2) by (auto simp: spsc_inv_def)
  have n: "n = of_nat (min (length xs) (rb_writable ?rb))" "p = ma_rb__get_write_ptr ?rb"
    using p_acquire(3) ma_rb_acquire_write_ok [OF ok(1,3), of "of_nat (length xs)" NULL] ok(4) by (auto simp: unat_of_nat)
  have "unat n = min (length xs) (rb_writable ?rb)" using n(1) ok(4) by (simp add: unat_of_nat)
  moreover have "unat p = rb_wr (sp_rb s)" using n(2) by (simp add: rb_wr_def offset_defs)
  ultimately show ?thesis using assms(2) ok(2) p_acquire by (auto simp: spsc_inv_def)
next
  case (p_byte p ys j)
  then have ok: "rb_wf (sp_rb s)" "p = rb_wr (sp_rb s)" "length ys \<le> rb_writable (sp_rb s)" "mem_read (pBuffer (sp_rb s)) p j = take j ys"
    using assms(2) by (auto simp: spsc_inv_def)
  let ?m = "(pBuffer (sp_rb s))[p + j := ys ! j]"
  have lt: "p + j < length (pBuffer (sp_rb s))" using rb_region_bounds(2,3) [OF ok(1)] ok(2,3) p_byte(3) by simp
  have "rb_contents (sp_rb s\<lparr>pBuffer := ?m\<rparr>) = rb_contents (sp_rb s)"
    using free_byte_contents [OF ok(1), of j "ys ! j"] ok(2,3) p_byte(3) by simp
  moreover have "mem_read ?m p (Suc j) = take (Suc j) ys"
    using ok(4) lt p_byte(3) by (simp add: mem_read_def take_Suc_conv_app_nth drop_update_swap)
  moreover have "cons_ok (sp_rb s\<lparr>pBuffer := ?m\<rparr>) (sp_cons s)"
    using assms(2) calculation(1) by (cases "sp_cons s") (auto simp: spsc_inv_def rb_wf_def rb_view_defs offset_defs)
  ultimately show ?thesis using assms(2) p_byte ok by (simp add: spsc_inv_def rb_wf_buffer)
next
  case (p_commit p ys rb')
  then have ok: "rb_wf (sp_rb s)" "p = rb_wr (sp_rb s)" "length ys \<le> rb_writable (sp_rb s)" "mem_read (pBuffer (sp_rb s)) p (length ys) = ys"
    using assms(2) by (auto simp: spsc_inv_def)
  note b = rb_region_bounds(2,3) [OF ok(1)]
  have len: "unat (of_nat (length ys) :: u64) = length ys" using ok(1,3) b(1) by (simp add: unat_of_nat rb_wf_def)
  have rb': "rb' = rb_advance_write (sp_rb s) (length ys)"
    using ma_rb_commit_write_ok [of "sp_rb s" "of_nat (length ys)"] p_commit(3) len b(1) ok(3) by simp
  have "mem_write (pBuffer (sp_rb s)) (rb_wr (sp_rb s)) ys = pBuffer (sp_rb s)"
    using ok(2,4) by (metis mem_read_def mem_write_def append_take_drop_id drop_drop add.commute)
  then have c: "rb_wf rb'" "rb_contents rb' = rb_contents (sp_rb s) @ ys"
    using rb_put_contents [OF ok(1,3)] by (simp_all add: rb')
  have "cons_ok rb' (sp_cons s)" using cons_ok_put [OF ok(1,3) _ c(2) rb'] assms(2) by (simp add: spsc_inv_def)
  then show ?thesis using p_commit assms(2) c by (auto simp: spsc_inv_def rb')
qed

lemma cons_step_inv:
  assumes "cons_step s s'" "spsc_inv s"
  shows "spsc_inv s'"
  using assms(1)
proof cases
  case (c_load want)
  then show ?thesis using assms(2) by (simp add: spsc_inv_def)
next
  case (c_acquire w want n p)
  let ?rb = "sp_rb s\<lparr>encodedWriteOffset := w\<rparr>"
  have ok: "rb_wf ?rb" "rb_readable ?rb \<le> rb_readable (sp_rb s)"
    using assms(2) c_acquire(2) by (auto simp: spsc_inv_def)
  have n: "n = of_nat (min (unat want) (rb_readable ?rb))" "p = ma_rb__get_read_ptr ?rb"
    using c_acquire(3) ma_rb_acquire_read_ok [OF ok(1), of want NULL] by auto
  have "unat n \<le> rb_readable ?rb"
    using n(1) unat_lt_u64 [of want] by (simp add: unat_of_nat take_bit_eq_mod min_def)
  moreover have "unat p = rb_rd (sp_rb s)" using n(2) by (simp add: rb_rd_def offset_defs)
  ultimately show ?thesis using assms(2) ok(2) c_acquire by (auto simp: spsc_inv_def)
next
  case (c_byte p k got)
  then have ok: "rb_wf (sp_rb s)" "p = rb_rd (sp_rb s)" "k \<le> rb_readable (sp_rb s)" "got = take (length got) (rb_contents (sp_rb s))"
    using assms(2) by (auto simp: spsc_inv_def)
  note b = rb_region_bounds(1,3) [OF ok(1)]
  have "take k (rb_contents (sp_rb s)) ! length got = mem_read (pBuffer (sp_rb s)) p k ! length got"
    using rb_read_region [OF ok(1,3)] ok(2) by simp
  also have "\<dots> = pBuffer (sp_rb s) ! (p + length got)" using c_byte(3) ok(2,3) b by (simp add: mem_read_def)
  finally have "rb_contents (sp_rb s) ! length got = pBuffer (sp_rb s) ! (p + length got)" using c_byte(3) by simp
  moreover have "length got < length (rb_contents (sp_rb s))" using c_byte(3) ok(1,3) rb_readable_le by fastforce
  ultimately have "got @ [pBuffer (sp_rb s) ! (p + length got)] = take (Suc (length got)) (rb_contents (sp_rb s))"
    using ok(4) by (metis take_Suc_conv_app_nth)
  then show ?thesis using assms(2) c_byte by (auto simp: spsc_inv_def min_def)
next
  case (c_commit p k got rb')
  then have ok: "rb_wf (sp_rb s)" "p = rb_rd (sp_rb s)" "k \<le> rb_readable (sp_rb s)" "got = take k (rb_contents (sp_rb s))"
    using assms(2) by (auto simp: spsc_inv_def)
  note b = rb_region_bounds(1) [OF ok(1)]
  have len: "unat (of_nat k :: u64) = k" using ok(1,3) b by (simp add: unat_of_nat rb_wf_def)
  have rb': "rb' = rb_advance_read (sp_rb s) k"
    using ma_rb_commit_read_ok [of "sp_rb s" "of_nat k"] c_commit(4) len b ok(3) by simp
  note c = rb_advance_read_contents [OF ok(1,3)]
  have "prod_ok rb' (sp_prod s)" using prod_ok_consume [OF ok(1,3)] assms(2) by (simp add: spsc_inv_def rb')
  moreover have "sp_recv s @ got @ drop k (rb_contents (sp_rb s)) = sp_sent s"
    using assms(2) ok(4) by (simp add: spsc_inv_def)
  ultimately show ?thesis using c_commit assms(2) c by (auto simp: spsc_inv_def rb')
qed

section \<open>Runs\<close>

inductive spsc_reach :: "ma_rb \<Rightarrow> spsc \<Rightarrow> bool" for rb where
  start: "spsc_reach rb (spsc_start rb)"
| step: "spsc_reach rb s \<Longrightarrow> spsc_step s s' \<Longrightarrow> spsc_reach rb s'"

lemma spsc_reach_inv:
  assumes "spsc_reach rb s" "rb_wf rb" "\<not> clearOnWriteAcquire rb"
  shows "spsc_inv s"
  using assms(1)
proof induction
  case start
  then show ?case using assms(2,3) by (simp add: spsc_inv_def spsc_start_def)
next
  case (step s s')
  then show ?case using prod_step_inv cons_step_inv by (auto simp: spsc_step_def)
qed

text \<open>The bytes the consumer is reading are none the producer is writing.\<close>

lemma regions_disjoint:
  assumes "rb_wf rb" "k \<le> rb_readable rb" "n \<le> rb_writable rb"
  shows "{rb_rd rb..<rb_rd rb + k} \<inter> {rb_wr rb..<rb_wr rb + n} = {}"
  using assms by (auto simp: rb_readable_def rb_writable_def rb_wf_def split: if_splits)

lemma spsc_race_free:
  assumes "spsc_inv s" "sp_prod s = P_fill p ys j" "sp_cons s = C_fetch c k got"
  shows "{c..<c + k} \<inter> {p..<p + length ys} = {}"
  using regions_disjoint [of "sp_rb s" k "length ys"] assms by (simp add: spsc_inv_def)

text \<open>Neither thread ever waits for the other: each has a next step in every state.\<close>

lemma prod_progress:
  assumes "spsc_inv s"
  shows "\<exists>s'. prod_step s s'"
proof (cases "sp_prod s")
  case P_idle
  then show ?thesis using p_load [of s "[]"] by auto
next
  case (P_snap r xs)
  let ?rb = "sp_rb s\<lparr>encodedReadOffset := r\<rparr>"
  have "rb_wf ?rb" "\<not> clearOnWriteAcquire ?rb" using assms P_snap by (auto simp: spsc_inv_def)
  from ma_rb_acquire_write_ok [OF this, of "of_nat (length xs)" NULL] p_acquire [OF P_snap] show ?thesis by blast
next
  case (P_fill p ys j)
  then have ok: "rb_wf (sp_rb s)" "length ys \<le> rb_writable (sp_rb s)" "j \<le> length ys" using assms by (auto simp: spsc_inv_def)
  show ?thesis
  proof (cases "j < length ys")
    case True
    then show ?thesis using p_byte [OF P_fill] by blast
  next
    case False
    then have j: "j = length ys" using ok(3) by simp
    have "rb_wr (sp_rb s) + unat (of_nat (length ys) :: u64) \<le> rb_cap (sp_rb s)"
      using rb_region_bounds(2) [OF ok(1)] ok(1,2) by (simp add: unat_of_nat rb_wf_def)
    from ma_rb_commit_write_ok [OF this] p_commit [of s p ys] P_fill j show ?thesis by blast
  qed
qed

lemma cons_progress:
  assumes "spsc_inv s"
  shows "\<exists>s'. cons_step s s'"
proof (cases "sp_cons s")
  case C_idle
  then show ?thesis using c_load [of s] by auto
next
  case (C_snap w want)
  have "rb_wf (sp_rb s\<lparr>encodedWriteOffset := w\<rparr>)" using assms C_snap by (auto simp: spsc_inv_def)
  from ma_rb_acquire_read_ok [OF this, of want NULL] c_acquire [OF C_snap] show ?thesis by blast
next
  case (C_fetch p k got)
  then have ok: "rb_wf (sp_rb s)" "k \<le> rb_readable (sp_rb s)" "length got \<le> k" using assms by (auto simp: spsc_inv_def)
  show ?thesis
  proof (cases "length got < k")
    case True
    then show ?thesis using c_byte [OF C_fetch] by blast
  next
    case False
    then have j: "length got = k" using ok(3) by simp
    have "rb_rd (sp_rb s) + unat (of_nat k :: u64) \<le> rb_cap (sp_rb s)"
      using rb_region_bounds(1) [OF ok(1)] ok(1,2) by (simp add: unat_of_nat rb_wf_def)
    from ma_rb_commit_read_ok [OF this] c_commit [OF C_fetch j] show ?thesis by blast
  qed
qed

text \<open>A small ring whose contents wrap, and a state of it in which both threads copy.\<close>

definition tiny_rb :: ma_rb where
  "tiny_rb = zero_rb\<lparr>pBuffer := [1, 2, 3, 4, 5, 6, 7, 8], subbufferSizeInBytes := 8,
     encodedReadOffset := 6, encodedWriteOffset := 0x80000001\<rparr>"

definition tiny_busy :: spsc where
  "tiny_busy = \<lparr>sp_rb = tiny_rb, sp_prod = P_fill 1 [9, 9] 0, sp_cons = C_fetch 6 2 [], sp_sent = [7, 8, 1], sp_recv = []\<rparr>"

lemma tiny_rb_ok: "rb_wf tiny_rb" "\<not> clearOnWriteAcquire tiny_rb" "rb_contents tiny_rb = [7, 8, 1]"
  by (simp_all add: tiny_rb_def rb_view_defs offset_defs zero_rb_def mem_read_def)

lemma tiny_busy_reached: "spsc_reach tiny_rb tiny_busy"
proof -
  let ?s = "\<lambda>p c. \<lparr>sp_rb = tiny_rb, sp_prod = p, sp_cons = c, sp_sent = [7, 8, 1], sp_recv = []\<rparr>"
  have v: "rb_writable tiny_rb = 5" "rb_readable tiny_rb = 2" "ma_rb__get_write_ptr tiny_rb = 1" "ma_rb__get_read_ptr tiny_rb = 6"
    "tiny_rb\<lparr>encodedReadOffset := 6\<rparr> = tiny_rb" "tiny_rb\<lparr>encodedWriteOffset := 0x80000001\<rparr> = tiny_rb"
    by (simp_all add: tiny_rb_def rb_view_defs offset_defs zero_rb_def)
  have s0: "spsc_reach tiny_rb (?s P_idle C_idle)"
    using spsc_reach.start [of tiny_rb] by (simp add: spsc_start_def tiny_rb_ok)
  have s1: "spsc_reach tiny_rb (?s (P_snap 6 [9, 9]) C_idle)"
    using spsc_reach.step [OF s0] p_load [of "?s P_idle C_idle" "[9, 9]"] by (simp add: spsc_step_def tiny_rb_def)
  have s2: "spsc_reach tiny_rb (?s (P_fill 1 [9, 9] 0) C_idle)"
    using spsc_reach.step [OF s1] p_acquire [of "?s (P_snap 6 [9, 9]) C_idle" 6 "[9, 9]" 2 1 tiny_rb]
      ma_rb_acquire_write_ok [OF tiny_rb_ok(1,2), of 2 NULL] by (simp add: spsc_step_def v)
  have s3: "spsc_reach tiny_rb (?s (P_fill 1 [9, 9] 0) (C_snap 0x80000001 5))"
    using spsc_reach.step [OF s2] c_load [of "?s (P_fill 1 [9, 9] 0) C_idle", where want = 5] by (simp add: spsc_step_def tiny_rb_def)
  show ?thesis
    using spsc_reach.step [OF s3] cons_step.c_acquire [of "?s (P_fill 1 [9, 9] 0) (C_snap 0x80000001 5)" "0x80000001" 5 2 6]
      ma_rb_acquire_read_ok [OF tiny_rb_ok(1), of 5 NULL] by (simp add: spsc_step_def v tiny_busy_def)
qed

end
