(* ===== verification/SpxBase.thy ===== *)
theory SpxBase
  imports CFloat "HOL-Library.Monad_Syntax"
begin

text \<open>
  What the SpeexDSP sources share in the floating-point build: the arithmetic macros of arch.h
  and pseudofloat.h (\<open>spx_word16_t\<close>, \<open>spx_word32_t\<close> and \<open>spx_float_t\<close> are all \<open>float\<close>, every shift is
  the identity), \<open>WORD2INT\<close> with its rounding, the allocator of os_support.h, and the laws of loops
  over arrays. The mathematical
  functions of the C library are parameters.
\<close>

section \<open>Arithmetic\<close>

text \<open>Single precision, double precision, and the conversions between them and from integers.\<close>

abbreviation (input) fadd32 :: "fval \<Rightarrow> fval \<Rightarrow> fval" where "fadd32 \<equiv> fadd binary32"
abbreviation (input) fsub32 :: "fval \<Rightarrow> fval \<Rightarrow> fval" where "fsub32 \<equiv> fsub binary32"
abbreviation (input) fmul32 :: "fval \<Rightarrow> fval \<Rightarrow> fval" where "fmul32 \<equiv> fmul binary32"
abbreviation (input) fdiv32 :: "fval \<Rightarrow> fval \<Rightarrow> fval" where "fdiv32 \<equiv> fdiv binary32"
abbreviation (input) fadd64 :: "fval \<Rightarrow> fval \<Rightarrow> fval" where "fadd64 \<equiv> fadd binary64"
abbreviation (input) fsub64 :: "fval \<Rightarrow> fval \<Rightarrow> fval" where "fsub64 \<equiv> fsub binary64"
abbreviation (input) fmul64 :: "fval \<Rightarrow> fval \<Rightarrow> fval" where "fmul64 \<equiv> fmul binary64"
abbreviation (input) fdiv64 :: "fval \<Rightarrow> fval \<Rightarrow> fval" where "fdiv64 \<equiv> fdiv binary64"
abbreviation (input) to_f32 :: "fval \<Rightarrow> fval" where "to_f32 \<equiv> fcast binary32"
abbreviation (input) to_f64 :: "fval \<Rightarrow> fval" where "to_f64 \<equiv> fcast binary64"
abbreviation (input) f0 :: fval where "f0 \<equiv> FNum False 0"
abbreviation (input) f1 :: fval where "f1 \<equiv> FNum False 1"

text \<open>A \<open>float\<close> literal, a \<open>double\<close> literal, an integer operand of a \<open>float\<close> and of a \<open>double\<close>
  operation.\<close>

abbreviation (input) lit32 :: "rat \<Rightarrow> fval" where "lit32 \<equiv> frat binary32"
abbreviation (input) lit64 :: "rat \<Rightarrow> fval" where "lit64 \<equiv> frat binary64"
abbreviation (input) nat32 :: "nat \<Rightarrow> fval" where "nat32 n \<equiv> fofint binary32 (int n)"
abbreviation (input) nat64 :: "nat \<Rightarrow> fval" where "nat64 n \<equiv> fofint binary64 (int n)"

section \<open>The environment\<close>

text \<open>The functions of the C library that the code calls, on doubles, and the result that the
  platform gives to a conversion to an integer type whose value is out of range.\<close>

record spx_env =
  m_cos :: "fval \<Rightarrow> fval"
  m_sin :: "fval \<Rightarrow> fval"
  m_exp :: "fval \<Rightarrow> fval"
  m_sqrt :: "fval \<Rightarrow> fval"
  m_atan :: "fval \<Rightarrow> fval"
  m_log :: "fval \<Rightarrow> fval"
  m_pow :: "fval \<Rightarrow> fval \<Rightarrow> fval"
  env_badcast :: "fval \<Rightarrow> int"

section \<open>Rounding to 16 bit\<close>

fun ffloor :: "fval \<Rightarrow> fval" where
  "ffloor (FNum s m) = (let k = \<lfloor>fsval s m\<rfloor> in FNum (if k = 0 then s else k < 0) (of_int \<bar>k\<bar>))"
| "ffloor v = v"

definition WORD2INT :: "spx_env \<Rightarrow> fval \<Rightarrow> s16" where
  "WORD2INT env x =
     (if flt x (lit32 (- 65535 / 2)) then - 32768
      else if flt (lit32 (65533 / 2)) x then 32767
      else word_of_int (case ftoint (- 32768) 32767 (ffloor (fadd64 (lit64 (1 / 2)) x)) of
             Some i \<Rightarrow> i | None \<Rightarrow> env_badcast env x))"

section \<open>\<open>WORD2INT\<close> rounds to nearest\<close>

lemma fmag_scaled:
  assumes "0 \<le> k" "k < 2 ^ prec F" "emin F \<le> - int n" "- int n \<le> emax F"
  shows "fmag F (of_int k / 2 ^ n)"
proof -
  have "of_int k / 2 ^ n = of_int k * (2 :: rat) powi (- int n)" by (simp add: power_int_minus field_simps)
  then show ?thesis unfolding fmag_def using assms by blast
qed

text \<open>A \<open>float\<close> of magnitude at least 1/4 is a multiple of \<open>2 ^ -26\<close>.\<close>

lemma f32_grid:
  assumes "fmag binary32 m" "1 / 4 \<le> m"
  obtains k :: int where "m = of_int k / 2 ^ 26"
proof -
  have m: "0 < m" using assms by simp
  have "flog2 (1 / 4) = -2" by (rule flog2_unique) (simp_all add: power_int_minus)
  then have "-2 \<le> flog2 m" using flog2_mono [of "1 / 4" m] assms(2) by simp
  then have "-26 \<le> ulp_exp binary32 m" by (simp add: ulp_exp_def)
  then obtain k where k: "m = of_int k * 2 powi (-26)"
    using fmag_multiple [OF fmt_ok_binary(1) assms(1) m] by blast
  have "(2 :: rat) powi (-26) = 1 / 2 ^ 26" by (simp add: power_int_minus)
  then show thesis using that [of k] k by simp
qed

lemma f64_grid: "\<bar>k\<bar> < 2 ^ 53 \<Longrightarrow> fmag binary64 (\<bar>of_int k :: rat\<bar> / 2 ^ 26)"
  using fmag_scaled [of "\<bar>k\<bar>" binary64 26] by simp

lemma lit64_half: "lit64 (1 / 2) = FNum False (1 / 2)"
proof -
  have "fmag binary64 (1 / 2)" using fmag_scaled [of 1 binary64 1] by simp
  then show ?thesis using fround_exact [of binary64 "1 / 2" False] by (simp add: frat_def)
qed

lemma round_floor:
  assumes m: "fmag binary32 m" and range: "- 32768 \<le> fsval s m" "fsval s m \<le> 32767"
  defines "r \<equiv> 1 / 2 + fsval s m"
  shows "\<exists>h. fadd64 (lit64 (1 / 2)) (FNum s m) = FNum (r < 0) h \<and> \<lfloor>fsval (r < 0) h\<rfloor> = \<lfloor>r\<rfloor> \<and> 0 \<le> h"
proof (cases "r = 0")
  case True
  then show ?thesis by (simp add: lit64_half r_def fsval_def)
next
  case False
  then have add: "fadd64 (lit64 (1 / 2)) (FNum s m) = fround binary64 (r < 0) \<bar>r\<bar>"
    by (simp add: lit64_half r_def fsval_def Let_def)
  have m0: "0 \<le> m" using fmag_nonneg [OF m] .
  show ?thesis
  proof (cases "1 / 4 \<le> m")
    case True
    obtain k where k: "m = of_int k / 2 ^ 26" using f32_grid [OF m True] .
    define j where "j = 2 ^ 25 + (if s then - k else k)"
    have r: "r = of_int j / 2 ^ 26" by (simp add: r_def fsval_def k j_def add_divide_distrib)
    have "m \<le> 32768" using range m0 by (auto simp: fsval_def split: if_splits)
    then have "of_int k \<le> (of_int (2 ^ 41) :: rat)" by (simp add: k divide_le_eq)
    then have "k \<le> 2 ^ 41" by (simp only: of_int_le_iff)
    moreover have "0 \<le> k" using m0 by (simp add: k zero_le_divide_iff)
    ultimately have "\<bar>j\<bar> < 2 ^ 53" by (auto simp: j_def)
    then have "fmag binary64 \<bar>r\<bar>" using f64_grid [of j] by (simp add: r)
    then show ?thesis using add fround_exact [of binary64 "\<bar>r\<bar>" "r < 0"] by (auto simp: fsval_def)
  next
    case False
    then have b: "1 / 4 \<le> r" "r \<le> 3 / 4" using m0 by (auto simp: r_def fsval_def)
    have g: "fmag binary64 (1 / 4)" "fmag binary64 (3 / 4)"
      using fmag_scaled [of 1 binary64 2] fmag_scaled [of 3 binary64 2] by simp_all
    obtain h where h: "fround binary64 False r = FNum False h" "1 / 4 \<le> h" "h \<le> 3 / 4"
      using fround_bounds [OF fmt_ok_binary(2) g(1) b(1) g(2) b(2)] by blast
    then have "\<lfloor>h\<rfloor> = 0" "\<lfloor>r\<rfloor> = 0" using b by (simp_all add: floor_eq_iff)
    with add h b show ?thesis by (auto simp: fsval_def)
  qed
qed

lemma lit_bounds: "lit32 (- (65535 / 2)) = FNum True (65535 / 2)" "lit32 (65533 / 2) = FNum False (65533 / 2)"
proof -
  have "fmag binary32 (65535 / 2)" "fmag binary32 (65533 / 2)"
    using fmag_scaled [of 65535 binary32 1] fmag_scaled [of 65533 binary32 1] by simp_all
  then show "lit32 (- (65535 / 2)) = FNum True (65535 / 2)" "lit32 (65533 / 2) = FNum False (65533 / 2)"
    using fround_exact [OF fmt_ok_binary(1)] by (simp_all add: frat_def)
qed

lemma ftoint_ffloor:
  assumes "\<lfloor>fsval s h\<rfloor> = t" "lo \<le> t" "t \<le> hi"
  shows "ftoint lo hi (ffloor (FNum s h)) = Some t"
  using assms by (cases "t = 0"; cases "t < 0") (simp_all add: Let_def)

lemma WORD2INT_rounds:
  assumes m: "fmag binary32 m"
  shows "sint (WORD2INT env (FNum s m)) = max (- 32768) (min 32767 \<lfloor>fsval s m + 1 / 2\<rfloor>)"
proof -
  let ?v = "fsval s m"
  consider "?v < - 65535 / 2" | "65533 / 2 < ?v" | "- 65535 / 2 \<le> ?v" "?v \<le> 65533 / 2" by linarith
  then show ?thesis
  proof cases
    case 1
    then have "\<lfloor>?v + 1 / 2\<rfloor> < - 32767" by (simp add: floor_less_iff)
    with 1 show ?thesis by (simp add: WORD2INT_def lit_bounds fsval_def)
  next
    case 2
    then have "32767 \<le> \<lfloor>?v + 1 / 2\<rfloor>" by (simp add: le_floor_iff)
    with 2 show ?thesis by (simp add: WORD2INT_def lit_bounds fsval_def)
  next
    case 3
    have f: "- 32767 \<le> \<lfloor>?v + 1 / 2\<rfloor>" "\<lfloor>?v + 1 / 2\<rfloor> \<le> 32767" using 3 by (simp_all add: le_floor_iff floor_le_iff)
    obtain h where h: "fadd64 (lit64 (1 / 2)) (FNum s m) = FNum (1 / 2 + ?v < 0) h" "\<lfloor>fsval (1 / 2 + ?v < 0) h\<rfloor> = \<lfloor>1 / 2 + ?v\<rfloor>"
      using round_floor [OF m] 3 by force
    define t where "t = \<lfloor>?v + 1 / 2\<rfloor>"
    have t: "\<lfloor>fsval (1 / 2 + ?v < 0) h\<rfloor> = t" using h(2) by (simp only: t_def add.commute)
    have ft: "- 32768 \<le> t" "t \<le> 32767" using f unfolding t_def [symmetric] by linarith+
    have "ftoint (- 32768) 32767 (ffloor (fadd64 (lit64 (1 / 2)) (FNum s m))) = Some t"
      unfolding h(1) by (rule ftoint_ffloor [OF t ft])
    moreover have "sint (word_of_int t :: s16) = t" using ft by (simp add: sint_sbintrunc' signed_take_bit_int_eq_self)
    ultimately show ?thesis using 3 ft unfolding t_def [symmetric] by (simp add: WORD2INT_def lit_bounds fsval_def)
  qed
qed

section \<open>Arrays\<close>

text \<open>Writing a stretch of an array from an index on; \<open>for (i=0;i<n;i++) a[i] = v;\<close>.\<close>

definition splice :: "nat \<Rightarrow> 'a list \<Rightarrow> 'a list \<Rightarrow> 'a list" where
  "splice k ys a = fold (\<lambda>i a. a[k + i := ys ! i]) [0..<length ys] a"

definition fill :: "nat \<Rightarrow> 'a \<Rightarrow> 'a list \<Rightarrow> 'a list" where
  "fill n v a = fold (\<lambda>i a. a[i := v]) [0..<n] a"

lemma fold_keeps: "(\<And>x s. P (f x s) = P s) \<Longrightarrow> P (fold f xs s) = P s"
  by (induction xs arbitrary: s) auto

lemma fold_keeps_pred: "P s \<Longrightarrow> (\<And>x s. P s \<Longrightarrow> P (f x s)) \<Longrightarrow> P (fold f xs s)"
  by (induction xs arbitrary: s) auto

lemma length_fold_upd [simp]: "length (fold (\<lambda>i a. a[g i := h i a]) xs a) = length a"
  by (rule fold_keeps) simp

lemma length_fold_upd2 [simp]: "length (fold (\<lambda>i a. a[g i := h i a, g' i := h' i a]) xs a) = length a"
  by (rule fold_keeps) simp

lemma length_fold_fold_upd [simp]: "length (fold (\<lambda>j. fold (\<lambda>i a. a[g i j := h i j a]) (ys j)) xs a) = length a"
  by (rule fold_keeps) simp

lemma length_fold_pair [simp]: "length (fst (fold (\<lambda>i p. ((fst p)[i := g i p], h i p)) xs z)) = length (fst z)"
  by (rule fold_keeps) simp

lemma length_splice [simp]: "length (splice k ys a) = length a"
  by (simp add: splice_def)

lemma length_fill [simp]: "length (fill n v a) = length a"
  by (simp add: fill_def)

lemma fold_fill:
  assumes "n \<le> length a"
  shows "fold (\<lambda>i a. a[length xs + i := f i]) [0..<n] (xs @ a) = xs @ map f [0..<n] @ drop n a"
  using assms
proof (induction n)
  case (Suc n)
  then have "drop n a = a ! n # drop (Suc n) a" by (simp add: Cons_nth_drop_Suc)
  with Suc show ?case by (simp add: list_update_append)
qed simp

lemma fill_eq: "n \<le> length a \<Longrightarrow> fill n v a = replicate n v @ drop n a"
  using fold_fill [of n a "[]" "\<lambda>_. v"] by (simp add: fill_def map_replicate_const)

lemma splice_eq:
  assumes "k + length ys \<le> length a"
  shows "splice k ys a = take k a @ ys @ drop (k + length ys) a"
  using fold_fill [of "length ys" "drop k a" "take k a" "\<lambda>i. ys ! i"] assms by (simp add: splice_def map_nth add.commute)

section \<open>Allocation\<close>

text \<open>The size that a caller passes to \<open>speex_alloc\<close> is a product of \<open>int\<close> factors, computed from the
  left, times the size of an element. When a partial product overflows, or the size does not fit the
  \<open>int\<close> parameter, there is no block of the wanted size and no caller notices: the model stops there.
  Otherwise the block is zeroed. The memory of the machine is taken to suffice, because no caller
  tests the result.\<close>

fun int_product :: "nat \<Rightarrow> nat list \<Rightarrow> nat option" where
  "int_product acc [] = Some acc"
| "int_product acc (n # ns) = (if acc * n < 2 ^ 31 then int_product (acc * n) ns else None)"

definition speex_alloc :: "nat list \<Rightarrow> nat \<Rightarrow> 'a \<Rightarrow> 'a list option" where
  "speex_alloc factors sizeof zero =
     (case int_product 1 factors of None \<Rightarrow> None
      | Some n \<Rightarrow> if n * sizeof < 2 ^ 31 then Some (replicate n zero) else None)"

lemma int_product_eq: "int_product acc ns = Some n \<Longrightarrow> n = acc * prod_list ns"
  by (induction ns arbitrary: acc) (auto simp: mult.assoc [symmetric] split: if_splits)

lemma prod_list_pos: "\<forall>n \<in> set ns. 0 < n \<Longrightarrow> 0 < prod_list ns" for ns :: "nat list"
  by (induction ns) auto

lemma int_product_fits: "\<forall>n \<in> set ns. 0 < n \<Longrightarrow> acc * prod_list ns < 2 ^ 31 \<Longrightarrow> int_product acc ns = Some (acc * prod_list ns)"
proof (induction ns arbitrary: acc)
  case (Cons n ns)
  have "1 \<le> prod_list ns" using prod_list_pos [of ns] Cons.prems(1) by simp
  then have "acc * n * 1 \<le> acc * n * prod_list ns" by (intro mult_le_mono2)
  then have "acc * n < 2 ^ 31" "acc * n * prod_list ns < 2 ^ 31" using Cons.prems(2) unfolding prod_list.Cons mult.assoc by linarith+
  with Cons.IH [of "acc * n"] Cons.prems(1) show ?case by (simp add: mult.assoc)
qed simp

lemma speex_alloc_eq: "speex_alloc ns k z = Some a \<Longrightarrow> a = replicate (prod_list ns) z"
  by (auto simp: speex_alloc_def dest: int_product_eq split: option.splits if_splits)

lemma speex_alloc_fits: "\<forall>n \<in> set ns. 0 < n \<Longrightarrow> 0 < k \<Longrightarrow> prod_list ns * k < 2 ^ 31 \<Longrightarrow> speex_alloc ns k z = Some (replicate (prod_list ns) z)"
proof -
  assume a: "\<forall>n \<in> set ns. 0 < n" "0 < k" "prod_list ns * k < 2 ^ 31"
  have "prod_list ns * 1 \<le> prod_list ns * k" using a(2) by (intro mult_le_mono2) simp
  with a(3) have "1 * prod_list ns < 2 ^ 31" by linarith
  from int_product_fits [OF a(1) this] have "int_product 1 ns = Some (prod_list ns)" by simp
  with a(3) show ?thesis by (simp add: speex_alloc_def)
qed

lemma speex_alloc_big: "2 ^ 31 \<le> prod_list ns * k \<Longrightarrow> speex_alloc ns k z = None"
  by (auto simp: speex_alloc_def dest: int_product_eq split: option.splits)

lemma alloc_bind_Some: "speex_alloc ns k z \<bind> f = Some y \<longleftrightarrow> speex_alloc ns k z \<noteq> None \<and> f (replicate (prod_list ns) z) = Some y"
  by (cases "speex_alloc ns k z") (auto dest: speex_alloc_eq)

end
