(* ===== verification/SpxFft.thy ===== *)
theory SpxFft
  imports SpxBase
begin

text \<open>
  The real FFT of smallft.c and its wrappers of fftwrap.c (the \<open>USE_SMALLFT\<close> build). The running
  indices \<open>t0\<close>, \<open>t1\<close>, ... of the C loops are written as what they are in each iteration, e.g.
  \<open>k * ido\<close> for an index that starts at 0 and grows by \<open>ido\<close>. The code calls the general-radix
  passes with three names for one array and two for the other, which are two arrays here.
\<close>

section \<open>Tables\<close>

abbreviation (input) ntryh :: "nat list" where "ntryh \<equiv> [4, 2, 3, 5]"

text \<open>\<open>ifac\<close> with a new factor 2 moved to the front.\<close>

definition ifac_front2 :: "nat \<Rightarrow> nat list \<Rightarrow> nat list" where
  "ifac_front2 nf ifac =
     (fold (\<lambda>i f. f[nf - i + 1 + 1 := f ! (nf - i + 1)]) [1..<nf] ifac)[2 := 2]"

text \<open>The search from label L104: \<open>ntry\<close> is the divisor that is tried, \<open>j\<close> its number.\<close>

partial_function (option) drfti_factor :: "nat \<Rightarrow> nat \<Rightarrow> nat \<Rightarrow> nat \<Rightarrow> nat list \<Rightarrow> (nat \<times> nat list) option" where
  "drfti_factor j ntry nl nf ifac =
     (if nl mod ntry \<noteq> 0
      then let j = j + 1; ntry = (if j < 4 then ntryh ! j else ntry + 2)
           in drfti_factor j ntry nl nf ifac
      else let nf = nf + 1; ifac = ifac[nf + 1 := ntry]; nl = nl div ntry;
               ifac = (if ntry \<noteq> 2 \<or> nf = 1 then ifac else ifac_front2 nf ifac)
           in if nl \<noteq> 1 then drfti_factor j ntry nl nf ifac else Some (nf, ifac))"

text \<open>The loop over \<open>j\<close>: one row of cosines and sines from index \<open>is\<close> on.\<close>

definition drfti_row :: "spx_env \<Rightarrow> fval \<Rightarrow> nat \<Rightarrow> nat \<Rightarrow> fval list \<Rightarrow> fval list" where
  "drfti_row env argld ido is wa =
     fst (fold (\<lambda>ii (wa, i, fi).
            let fi = fadd32 fi f1; arg = fmul32 fi argld
            in (wa[i := to_f32 (m_cos env arg), i + 1 := to_f32 (m_sin env arg)], i + 2, fi))
          (filter even [2..<ido]) (wa, is, f0))"

abbreviation (input) tpi :: fval where "tpi \<equiv> lit32 (628318530717958648 / 100000000000000000)"

definition drfti_tables :: "spx_env \<Rightarrow> nat \<Rightarrow> nat \<Rightarrow> nat list \<Rightarrow> fval list \<Rightarrow> fval list" where
  "drfti_tables env n nf ifac wa =
     (let argh = fdiv32 tpi (nat32 n)
      in fst (fold (\<lambda>k1 (wa, is, l1).
           let ip = ifac ! (k1 + 2); l2 = l1 * ip; ido = n div l2;
               (wa, is) = fold (\<lambda>j (wa, is). (drfti_row env (fmul32 (nat32 ((j + 1) * l1)) argh) ido is wa, is + ido)) [0..<ip - 1] (wa, is)
           in (wa, is, l2)) [0..<nf - 1] (wa, 0, 1)))"

definition drfti1 :: "spx_env \<Rightarrow> nat \<Rightarrow> fval list \<Rightarrow> nat list \<Rightarrow> (fval list \<times> nat list) option" where
  "drfti1 env n wa ifac =
     (case drfti_factor 0 4 n 0 ifac of
        None \<Rightarrow> None
      | Some (nf, ifac) \<Rightarrow>
          let ifac = ifac[0 := n, 1 := nf] in Some (drfti_tables env n nf ifac wa, ifac))"

definition fdrffti :: "spx_env \<Rightarrow> nat \<Rightarrow> fval list \<Rightarrow> nat list \<Rightarrow> (fval list \<times> nat list) option" where
  "fdrffti env n wsave ifac =
     (if n = 1 then Some (wsave, ifac)
      else map_option (\<lambda>(wa, ifac). (take n wsave @ wa, ifac)) (drfti1 env n (drop n wsave) ifac))"

section \<open>Forward passes\<close>

text \<open>The inner index \<open>i\<close> of the passes, and the two nestings in which the general passes run
  over \<open>k\<close> and \<open>i\<close>.\<close>

abbreviation (input) evens :: "nat \<Rightarrow> nat list" where "evens ido \<equiv> filter even [2..<ido]"

definition loop_ki :: "bool \<Rightarrow> nat \<Rightarrow> nat \<Rightarrow> (nat \<Rightarrow> nat \<Rightarrow> 's \<Rightarrow> 's) \<Rightarrow> 's \<Rightarrow> 's" where
  "loop_ki i_outer l1 ido f s =
     (if i_outer then fold (\<lambda>i. fold (\<lambda>k. f k i) [0..<l1]) (evens ido) s
      else fold (\<lambda>k. fold (\<lambda>i. f k i) (evens ido)) [0..<l1] s)"

text \<open>The three loops of \<open>dradf2\<close>: the first, the one over \<open>i\<close>, and the one at label L105.\<close>

definition dradf2_first :: "nat \<Rightarrow> nat \<Rightarrow> fval list \<Rightarrow> fval list \<Rightarrow> fval list \<Rightarrow> fval list" where
  "dradf2_first ido l1 cc ch wa1 =
     (let t0 = l1 * ido in fold (\<lambda>k ch. let t1 = k * ido; t2 = t0 + k * ido; t3 = 2 * ido
                 in ch[2 * t1 := fadd32 (cc ! t1) (cc ! t2), 2 * t1 + t3 - 1 := fsub32 (cc ! t1) (cc ! t2)]) [0..<l1] ch)"

definition dradf2_mid :: "nat \<Rightarrow> nat \<Rightarrow> fval list \<Rightarrow> fval list \<Rightarrow> fval list \<Rightarrow> fval list" where
  "dradf2_mid ido l1 cc ch wa1 =
     (let t0 = l1 * ido in fold (\<lambda>k ch. fold (\<lambda>i ch.
                 let t1 = k * ido; t3 = t0 + k * ido + i; t4 = 2 * t1 + 2 * ido - i; t5 = t1 + i; t6 = t1 + t1 + i;
                     tr2 = fadd32 (fmul32 (wa1 ! (i - 2)) (cc ! (t3 - 1))) (fmul32 (wa1 ! (i - 1)) (cc ! t3));
                     ti2 = fsub32 (fmul32 (wa1 ! (i - 2)) (cc ! t3)) (fmul32 (wa1 ! (i - 1)) (cc ! (t3 - 1)))
                 in ch[t6 := fadd32 (cc ! t5) ti2, t4 := fsub32 ti2 (cc ! t5),
                       t6 - 1 := fadd32 (cc ! (t5 - 1)) tr2, t4 - 1 := fsub32 (cc ! (t5 - 1)) tr2]) (evens ido) ch) [0..<l1] ch)"

definition dradf2_last :: "nat \<Rightarrow> nat \<Rightarrow> fval list \<Rightarrow> fval list \<Rightarrow> fval list \<Rightarrow> fval list" where
  "dradf2_last ido l1 cc ch wa1 =
     (let t0 = l1 * ido in fold (\<lambda>k ch. let t1 = ido + k * (2 * ido); t2 = ido - 1 + t0 + k * ido; t3 = ido - 1 + k * ido
                 in ch[t1 := fneg (cc ! t2), t1 - 1 := cc ! t3]) [0..<l1] ch)"

definition dradf2 :: "nat \<Rightarrow> nat \<Rightarrow> fval list \<Rightarrow> fval list \<Rightarrow> fval list \<Rightarrow> fval list" where
  "dradf2 ido l1 cc ch wa1 =
     (let ch = dradf2_first ido l1 cc ch wa1
      in if ido < 2 then ch
         else if ido = 2 then dradf2_last ido l1 cc ch wa1
         else let ch = dradf2_mid ido l1 cc ch wa1 in if ido mod 2 = 1 then ch else dradf2_last ido l1 cc ch wa1)"

abbreviation (input) hsqt2 :: fval where "hsqt2 \<equiv> lit32 (70710678118654752 / 100000000000000000)"

text \<open>The three loops of \<open>dradf4\<close>: the first, the one over \<open>i\<close>, and the one at label L105.\<close>

definition dradf4_first :: "nat \<Rightarrow> nat \<Rightarrow> fval list \<Rightarrow> fval list \<Rightarrow> fval list \<Rightarrow> fval list \<Rightarrow> fval list \<Rightarrow> fval list" where
  "dradf4_first ido l1 cc ch wa1 wa2 wa3 =
     (let t0 = l1 * ido in fold (\<lambda>k ch. let t1 = t0 + k * ido; t4 = 2 * t0 + k * ido; t2 = t0 + 2 * t0 + k * ido; t3 = k * ido;
                     tr1 = fadd32 (cc ! t1) (cc ! t2); tr2 = fadd32 (cc ! t3) (cc ! t4); t5 = 4 * t3
                 in ch[t5 := fadd32 tr1 tr2, 4 * ido + t5 - 1 := fsub32 tr2 tr1,
                       t5 + 2 * ido - 1 := fsub32 (cc ! t3) (cc ! t4), t5 + 2 * ido := fsub32 (cc ! t2) (cc ! t1)]) [0..<l1] ch)"

definition dradf4_mid :: "nat \<Rightarrow> nat \<Rightarrow> fval list \<Rightarrow> fval list \<Rightarrow> fval list \<Rightarrow> fval list \<Rightarrow> fval list \<Rightarrow> fval list" where
  "dradf4_mid ido l1 cc ch wa1 wa2 wa3 =
     (let t0 = l1 * ido in fold (\<lambda>k ch. fold (\<lambda>i ch.
                 let t1 = k * ido; t2 = t1 + i; t4 = 4 * t1 + i; t6 = 2 * ido; t5 = t6 + 4 * t1 - i;
                     a = t2 + t0; b = a + t0; c = b + t0;
                     cr2 = fadd32 (fmul32 (wa1 ! (i - 2)) (cc ! (a - 1))) (fmul32 (wa1 ! (i - 1)) (cc ! a));
                     ci2 = fsub32 (fmul32 (wa1 ! (i - 2)) (cc ! a)) (fmul32 (wa1 ! (i - 1)) (cc ! (a - 1)));
                     cr3 = fadd32 (fmul32 (wa2 ! (i - 2)) (cc ! (b - 1))) (fmul32 (wa2 ! (i - 1)) (cc ! b));
                     ci3 = fsub32 (fmul32 (wa2 ! (i - 2)) (cc ! b)) (fmul32 (wa2 ! (i - 1)) (cc ! (b - 1)));
                     cr4 = fadd32 (fmul32 (wa3 ! (i - 2)) (cc ! (c - 1))) (fmul32 (wa3 ! (i - 1)) (cc ! c));
                     ci4 = fsub32 (fmul32 (wa3 ! (i - 2)) (cc ! c)) (fmul32 (wa3 ! (i - 1)) (cc ! (c - 1)));
                     tr1 = fadd32 cr2 cr4; tr4 = fsub32 cr4 cr2; ti1 = fadd32 ci2 ci4; ti4 = fsub32 ci2 ci4;
                     ti2 = fadd32 (cc ! t2) ci3; ti3 = fsub32 (cc ! t2) ci3;
                     tr2 = fadd32 (cc ! (t2 - 1)) cr3; tr3 = fsub32 (cc ! (t2 - 1)) cr3
                 in ch[t4 - 1 := fadd32 tr1 tr2, t4 := fadd32 ti1 ti2,
                       t5 - 1 := fsub32 tr3 ti4, t5 := fsub32 tr4 ti3,
                       t4 + t6 - 1 := fadd32 ti4 tr3, t4 + t6 := fadd32 tr4 ti3,
                       t5 + t6 - 1 := fsub32 tr2 tr1, t5 + t6 := fsub32 ti1 ti2]) (evens ido) ch) [0..<l1] ch)"

definition dradf4_last :: "nat \<Rightarrow> nat \<Rightarrow> fval list \<Rightarrow> fval list \<Rightarrow> fval list \<Rightarrow> fval list \<Rightarrow> fval list \<Rightarrow> fval list" where
  "dradf4_last ido l1 cc ch wa1 wa2 wa3 =
     (let t0 = l1 * ido in fold (\<lambda>k ch.
                 let t1 = t0 + ido - 1 + k * ido; t2 = t0 + ido - 1 + 2 * t0 + k * ido; t3 = 4 * ido; t4 = ido + k * t3; t5 = 2 * ido; t6 = ido + k * ido;
                     ti1 = fmul32 (fneg hsqt2) (fadd32 (cc ! t1) (cc ! t2)); tr1 = fmul32 hsqt2 (fsub32 (cc ! t1) (cc ! t2))
                 in ch[t4 - 1 := fadd32 tr1 (cc ! (t6 - 1)), t4 + t5 - 1 := fsub32 (cc ! (t6 - 1)) tr1,
                       t4 := fsub32 ti1 (cc ! (t1 + t0)), t4 + t5 := fadd32 ti1 (cc ! (t1 + t0))]) [0..<l1] ch)"

definition dradf4 :: "nat \<Rightarrow> nat \<Rightarrow> fval list \<Rightarrow> fval list \<Rightarrow> fval list \<Rightarrow> fval list \<Rightarrow> fval list \<Rightarrow> fval list" where
  "dradf4 ido l1 cc ch wa1 wa2 wa3 =
     (let ch = dradf4_first ido l1 cc ch wa1 wa2 wa3
      in if ido < 2 then ch
         else if ido = 2 then dradf4_last ido l1 cc ch wa1 wa2 wa3
         else let ch = dradf4_mid ido l1 cc ch wa1 wa2 wa3 in if ido mod 2 = 1 then ch else dradf4_last ido l1 cc ch wa1 wa2 wa3)"

text \<open>The general radix. \<open>rot\<close> is one step of the recurrence for the cosines and sines.\<close>

definition rot :: "fval \<Rightarrow> fval \<Rightarrow> fval \<times> fval \<Rightarrow> fval \<times> fval" where
  "rot dc ds z = (case z of (ar, ai) \<Rightarrow>
     (fsub32 (fmul32 dc ar) (fmul32 ds ai), fadd32 (fmul32 dc ai) (fmul32 ds ar)))"

abbreviation (input) tpi_g :: fval where "tpi_g \<equiv> lit32 (6283185307179586 / 1000000000000000)"

definition ip_cos :: "spx_env \<Rightarrow> nat \<Rightarrow> fval" where
  "ip_cos env ip = to_f32 (m_cos env (fdiv32 tpi_g (nat32 ip)))"

definition ip_sin :: "spx_env \<Rightarrow> nat \<Rightarrow> fval" where
  "ip_sin env ip = to_f32 (m_sin env (fdiv32 tpi_g (nat32 ip)))"

text \<open>The loop over \<open>l\<close> of both general passes: it combines the planes of \<open>src\<close> into \<open>dst\<close>.\<close>

definition radix_planes :: "spx_env \<Rightarrow> nat \<Rightarrow> nat \<Rightarrow> fval list \<Rightarrow> fval list \<Rightarrow> fval list" where
  "radix_planes env ip idl1 src dst =
     (let ipph = (ip + 1) div 2; t3 = (ip - 1) * idl1
      in fst (fold (\<lambda>l (dst, z1).
           let t1 = l * idl1; t2 = (ip - l) * idl1;
               z1 = rot (ip_cos env ip) (ip_sin env ip) z1; (ar1, ai1) = z1;
               dst = fold (\<lambda>ik dst. dst[t1 + ik := fadd32 (src ! ik) (fmul32 ar1 (src ! (idl1 + ik))),
                                        t2 + ik := fmul32 ai1 (src ! (t3 + ik))]) [0..<idl1] dst;
               (dst, z2) = fold (\<lambda>j (dst, z2).
                 let t4 = j * idl1; t5 = (ip - j) * idl1; z2 = rot ar1 ai1 z2; (ar2, ai2) = z2
                 in (fold (\<lambda>ik dst.
                       let dst = dst[t1 + ik := fadd32 (dst ! (t1 + ik)) (fmul32 ar2 (src ! (t4 + ik)))]
                       in dst[t2 + ik := fadd32 (dst ! (t2 + ik)) (fmul32 ai2 (src ! (t5 + ik)))]) [0..<idl1] dst, z2)) [2..<ipph] (dst, z1)
           in (dst, z1)) [1..<ipph] (dst, (f1, f0))))"

text \<open>From the start of \<open>dradfg\<close> to label L119, which the code skips when \<open>ido\<close> is 1.\<close>

definition dradfg_twiddle :: "nat \<Rightarrow> nat \<Rightarrow> nat \<Rightarrow> nat \<Rightarrow> fval list \<Rightarrow> fval list \<Rightarrow> fval list \<Rightarrow> fval list \<times> fval list" where
  "dradfg_twiddle ido ip l1 idl1 c ch wa =
     (let t0 = l1 * ido; nbd = (ido - 1) div 2; ipph = (ip + 1) div 2;
          ch = fold (\<lambda>ik ch. ch[ik := c ! ik]) [0..<idl1] ch;
          ch = fold (\<lambda>j. fold (\<lambda>k ch. ch[j * t0 + k * ido := c ! (j * t0 + k * ido)]) [0..<l1]) [1..<ip] ch;
          ch = fold (\<lambda>j. loop_ki (\<not> nbd > l1) l1 ido (\<lambda>k i ch.
                 let idij = (j - 1) * ido + i - 1; t3 = j * t0 + k * ido + i
                 in ch[t3 - 1 := fadd32 (fmul32 (wa ! (idij - 1)) (c ! (t3 - 1))) (fmul32 (wa ! idij) (c ! t3)),
                       t3 := fsub32 (fmul32 (wa ! (idij - 1)) (c ! t3)) (fmul32 (wa ! idij) (c ! (t3 - 1)))])) [1..<ip] ch;
          c = fold (\<lambda>j. loop_ki (nbd < l1) l1 ido (\<lambda>k i c.
                 let t5 = j * t0 + k * ido + i; t6 = (ip - j) * t0 + k * ido + i
                 in c[t5 - 1 := fadd32 (ch ! (t5 - 1)) (ch ! (t6 - 1)), t6 - 1 := fsub32 (ch ! t5) (ch ! t6),
                      t5 := fadd32 (ch ! t5) (ch ! t6), t6 := fsub32 (ch ! (t6 - 1)) (ch ! (t5 - 1))])) [1..<ipph] c
      in (c, ch))"

text \<open>From label L132 or the code before it to the end: the result, reordered into \<open>cc\<close>.\<close>

definition dradfg_store :: "nat \<Rightarrow> nat \<Rightarrow> nat \<Rightarrow> fval list \<Rightarrow> fval list \<Rightarrow> fval list" where
  "dradfg_store ido ip l1 cc ch =
     (let t0 = l1 * ido; t10 = ip * ido; nbd = (ido - 1) div 2; ipph = (ip + 1) div 2;
          cc = (if ido < l1
                then fold (\<lambda>i. fold (\<lambda>k cc. cc[k * t10 + i := ch ! (k * ido + i)]) [0..<l1]) [0..<ido] cc
                else fold (\<lambda>k. fold (\<lambda>i cc. cc[k * t10 + i := ch ! (k * ido + i)]) [0..<ido]) [0..<l1] cc);
          cc = fold (\<lambda>j. fold (\<lambda>k cc. let t5 = j * (2 * ido) + k * t10
                 in cc[t5 - 1 := ch ! (j * t0 + k * ido), t5 := ch ! ((ip - j) * t0 + k * ido)]) [0..<l1]) [1..<ipph] cc
      in if ido = 1 then cc
         else fold (\<lambda>j. loop_ki (nbd < l1) l1 ido (\<lambda>k i cc.
                let t6 = j * (2 * ido) + k * t10 - i; t7 = j * (2 * ido) + k * t10 + i;
                    t8 = j * t0 + k * ido + i; t9 = (ip - j) * t0 + k * ido + i
                in cc[t7 - 1 := fadd32 (ch ! (t8 - 1)) (ch ! (t9 - 1)), t6 - 1 := fsub32 (ch ! (t8 - 1)) (ch ! (t9 - 1)),
                      t7 := fadd32 (ch ! t8) (ch ! t9), t6 := fsub32 (ch ! t9) (ch ! t8)])) [1..<ipph] cc)"

definition dradfg :: "spx_env \<Rightarrow> nat \<Rightarrow> nat \<Rightarrow> nat \<Rightarrow> nat \<Rightarrow> fval list \<Rightarrow> fval list \<Rightarrow> fval list \<Rightarrow> fval list \<times> fval list" where
  "dradfg env ido ip l1 idl1 c ch wa =
     (let t0 = l1 * ido; ipph = (ip + 1) div 2;
          (c, ch) = (if ido = 1 then (c, ch) else dradfg_twiddle ido ip l1 idl1 c ch wa);
          c = fold (\<lambda>ik c. c[ik := ch ! ik]) [0..<idl1] c;
          c = fold (\<lambda>j. fold (\<lambda>k c. let t3 = j * t0 + k * ido; t4 = ip * idl1 - j * t0 + k * ido
                in c[t3 := fadd32 (ch ! t3) (ch ! t4), t4 := fsub32 (ch ! t4) (ch ! t3)]) [0..<l1]) [1..<ipph] c;
          ch = radix_planes env ip idl1 c ch;
          ch = fold (\<lambda>j. fold (\<lambda>ik ch. ch[ik := fadd32 (ch ! ik) (c ! (j * idl1 + ik))]) [0..<idl1]) [1..<ipph] ch
      in (dradfg_store ido ip l1 c ch, ch))"

text \<open>One factor of \<open>drftf1\<close>: \<open>na\<close> says which of the two arrays holds the data.\<close>

definition drftf1_pass :: "spx_env \<Rightarrow> nat \<Rightarrow> fval list \<Rightarrow> nat list \<Rightarrow> nat \<Rightarrow> nat \<Rightarrow>
    nat \<times> nat \<times> nat \<times> fval list \<times> fval list \<Rightarrow> nat \<times> nat \<times> nat \<times> fval list \<times> fval list" where
  "drftf1_pass env n wa ifac nf k1 = (\<lambda>(na, l2, iw, c, ch).
     let kh = nf - k1; ip = ifac ! (kh + 1); l1 = l2 div ip; ido = n div l2; idl1 = ido * l1;
         iw = iw - (ip - 1) * ido; na = 1 - na; w = (\<lambda>ix. drop (ix - 1) wa)
     in if ip = 4
        then let ix2 = iw + ido; ix3 = ix2 + ido
             in if na \<noteq> 0 then (na, l1, iw, dradf4 ido l1 ch c (w iw) (w ix2) (w ix3), ch)
                else (na, l1, iw, c, dradf4 ido l1 c ch (w iw) (w ix2) (w ix3))
        else if ip = 2
        then if na \<noteq> 0 then (na, l1, iw, dradf2 ido l1 ch c (w iw), ch) else (na, l1, iw, c, dradf2 ido l1 c ch (w iw))
        else let na = (if ido = 1 then 1 - na else na)
             in if na \<noteq> 0 then (let (ch, c) = dradfg env ido ip l1 idl1 ch c (w iw) in (0, l1, iw, c, ch))
                else (let (c, ch) = dradfg env ido ip l1 idl1 c ch (w iw) in (1, l1, iw, c, ch)))"

definition drftf1 :: "spx_env \<Rightarrow> nat \<Rightarrow> fval list \<Rightarrow> fval list \<Rightarrow> fval list \<Rightarrow> nat list \<Rightarrow> fval list \<times> fval list" where
  "drftf1 env n c ch wa ifac =
     (let nf = ifac ! 1;
          (na, l2, iw, c, ch) = fold (drftf1_pass env n wa ifac nf) [0..<nf] (1, n, n, c, ch)
      in if na = 1 then (c, ch) else (fold (\<lambda>i c. c[i := ch ! i]) [0..<n] c, ch))"

section \<open>Backward passes\<close>

text \<open>The three loops of \<open>dradb2\<close>: the first, the one over \<open>i\<close>, and the one at label L105.\<close>

definition dradb2_first :: "nat \<Rightarrow> nat \<Rightarrow> fval list \<Rightarrow> fval list \<Rightarrow> fval list \<Rightarrow> fval list" where
  "dradb2_first ido l1 cc ch wa1 =
     (let t0 = l1 * ido in fold (\<lambda>k ch. let t1 = k * ido; t2 = 2 * t1; t3 = 2 * ido - 1
                 in ch[t1 := fadd32 (cc ! t2) (cc ! (t3 + t2)), t1 + t0 := fsub32 (cc ! t2) (cc ! (t3 + t2))]) [0..<l1] ch)"

definition dradb2_mid :: "nat \<Rightarrow> nat \<Rightarrow> fval list \<Rightarrow> fval list \<Rightarrow> fval list \<Rightarrow> fval list" where
  "dradb2_mid ido l1 cc ch wa1 =
     (let t0 = l1 * ido in fold (\<lambda>k ch. fold (\<lambda>i ch.
                 let t1 = k * ido; t2 = 2 * t1; t3 = t1 + i; t4 = t2 + i; t5 = t2 + 2 * ido - i; t6 = t0 + t1 + i;
                     tr2 = fsub32 (cc ! (t4 - 1)) (cc ! (t5 - 1)); ti2 = fadd32 (cc ! t4) (cc ! t5)
                 in ch[t3 - 1 := fadd32 (cc ! (t4 - 1)) (cc ! (t5 - 1)), t3 := fsub32 (cc ! t4) (cc ! t5),
                       t6 - 1 := fsub32 (fmul32 (wa1 ! (i - 2)) tr2) (fmul32 (wa1 ! (i - 1)) ti2),
                       t6 := fadd32 (fmul32 (wa1 ! (i - 2)) ti2) (fmul32 (wa1 ! (i - 1)) tr2)]) (evens ido) ch) [0..<l1] ch)"

definition dradb2_last :: "nat \<Rightarrow> nat \<Rightarrow> fval list \<Rightarrow> fval list \<Rightarrow> fval list \<Rightarrow> fval list" where
  "dradb2_last ido l1 cc ch wa1 =
     (let t0 = l1 * ido in fold (\<lambda>k ch. let t1 = ido - 1 + k * ido; t2 = ido - 1 + k * (2 * ido)
                 in ch[t1 := fadd32 (cc ! t2) (cc ! t2), t1 + t0 := fneg (fadd32 (cc ! (t2 + 1)) (cc ! (t2 + 1)))]) [0..<l1] ch)"

definition dradb2 :: "nat \<Rightarrow> nat \<Rightarrow> fval list \<Rightarrow> fval list \<Rightarrow> fval list \<Rightarrow> fval list" where
  "dradb2 ido l1 cc ch wa1 =
     (let ch = dradb2_first ido l1 cc ch wa1
      in if ido < 2 then ch
         else if ido = 2 then dradb2_last ido l1 cc ch wa1
         else let ch = dradb2_mid ido l1 cc ch wa1 in if ido mod 2 = 1 then ch else dradb2_last ido l1 cc ch wa1)"

abbreviation (input) taur :: fval where "taur \<equiv> FNum True (1 / 2)"
abbreviation (input) taui :: fval where "taui \<equiv> lit32 (8660254037844386 / 10000000000000000)"

definition dradb3 :: "nat \<Rightarrow> nat \<Rightarrow> fval list \<Rightarrow> fval list \<Rightarrow> fval list \<Rightarrow> fval list \<Rightarrow> fval list" where
  "dradb3 ido l1 cc ch wa1 wa2 =
     (let t0 = l1 * ido; t2 = 2 * t0; t4 = ido + 2 * ido;
          ch = fold (\<lambda>k ch. let t1 = k * ido; t3 = 2 * ido + k * t4; t5 = k * t4;
                     tr2 = fadd32 (cc ! (t3 - 1)) (cc ! (t3 - 1)); cr2 = fadd32 (cc ! t5) (fmul32 taur tr2);
                     ci3 = fmul32 taui (fadd32 (cc ! t3) (cc ! t3))
                 in ch[t1 := fadd32 (cc ! t5) tr2, t1 + t0 := fsub32 cr2 ci3, t1 + t2 := fadd32 cr2 ci3]) [0..<l1] ch
      in if ido = 1 then ch
         else fold (\<lambda>k. fold (\<lambda>i ch.
                let t1 = k * ido; t3 = 2 * ido; t7 = t1 + 2 * t1 + i; t5 = t1 + 2 * t1 + t3 + i; t6 = t1 + 2 * t1 + t3 - i;
                    t8 = t1 + i; t9 = t1 + t0 + i; t10 = t1 + t0 + t0 + i;
                    tr2 = fadd32 (cc ! (t5 - 1)) (cc ! (t6 - 1)); cr2 = fadd32 (cc ! (t7 - 1)) (fmul32 taur tr2);
                    ti2 = fsub32 (cc ! t5) (cc ! t6); ci2 = fadd32 (cc ! t7) (fmul32 taur ti2);
                    cr3 = fmul32 taui (fsub32 (cc ! (t5 - 1)) (cc ! (t6 - 1))); ci3 = fmul32 taui (fadd32 (cc ! t5) (cc ! t6));
                    dr2 = fsub32 cr2 ci3; dr3 = fadd32 cr2 ci3; di2 = fadd32 ci2 cr3; di3 = fsub32 ci2 cr3
                in ch[t8 - 1 := fadd32 (cc ! (t7 - 1)) tr2, t8 := fadd32 (cc ! t7) ti2,
                      t9 - 1 := fsub32 (fmul32 (wa1 ! (i - 2)) dr2) (fmul32 (wa1 ! (i - 1)) di2),
                      t9 := fadd32 (fmul32 (wa1 ! (i - 2)) di2) (fmul32 (wa1 ! (i - 1)) dr2),
                      t10 - 1 := fsub32 (fmul32 (wa2 ! (i - 2)) dr3) (fmul32 (wa2 ! (i - 1)) di3),
                      t10 := fadd32 (fmul32 (wa2 ! (i - 2)) di3) (fmul32 (wa2 ! (i - 1)) dr3)]) (evens ido)) [0..<l1] ch)"

abbreviation (input) sqrt2 :: fval where "sqrt2 \<equiv> lit32 (1414213562373095 / 1000000000000000)"

text \<open>The three loops of \<open>dradb4\<close>: the first, the one over \<open>i\<close>, and the one at label L105.\<close>

definition dradb4_first :: "nat \<Rightarrow> nat \<Rightarrow> fval list \<Rightarrow> fval list \<Rightarrow> fval list \<Rightarrow> fval list \<Rightarrow> fval list \<Rightarrow> fval list" where
  "dradb4_first ido l1 cc ch wa1 wa2 wa3 =
     (let t0 = l1 * ido; t6 = 2 * ido in fold (\<lambda>k ch. let t1 = k * ido; t3 = k * (4 * ido); t4 = t3 + t6; t4' = t4 + t6;
                     tr3 = fadd32 (cc ! (t4 - 1)) (cc ! (t4 - 1)); tr4 = fadd32 (cc ! t4) (cc ! t4);
                     tr1 = fsub32 (cc ! t3) (cc ! (t4' - 1)); tr2 = fadd32 (cc ! t3) (cc ! (t4' - 1))
                 in ch[t1 := fadd32 tr2 tr3, t1 + t0 := fsub32 tr1 tr4, t1 + t0 + t0 := fsub32 tr2 tr3,
                       t1 + t0 + t0 + t0 := fadd32 tr1 tr4]) [0..<l1] ch)"

definition dradb4_mid :: "nat \<Rightarrow> nat \<Rightarrow> fval list \<Rightarrow> fval list \<Rightarrow> fval list \<Rightarrow> fval list \<Rightarrow> fval list \<Rightarrow> fval list" where
  "dradb4_mid ido l1 cc ch wa1 wa2 wa3 =
     (let t0 = l1 * ido; t6 = 2 * ido in fold (\<lambda>k. fold (\<lambda>i ch.
                 let t1 = k * ido; t2 = 4 * t1 + i; t3 = 4 * t1 + t6 + i; t4 = 4 * t1 + t6 - i; t5 = 4 * t1 + t6 + t6 - i; t7 = t1 + i;
                     ti1 = fadd32 (cc ! t2) (cc ! t5); ti2 = fsub32 (cc ! t2) (cc ! t5);
                     ti3 = fsub32 (cc ! t3) (cc ! t4); tr4 = fadd32 (cc ! t3) (cc ! t4);
                     tr1 = fsub32 (cc ! (t2 - 1)) (cc ! (t5 - 1)); tr2 = fadd32 (cc ! (t2 - 1)) (cc ! (t5 - 1));
                     ti4 = fsub32 (cc ! (t3 - 1)) (cc ! (t4 - 1)); tr3 = fadd32 (cc ! (t3 - 1)) (cc ! (t4 - 1));
                     cr3 = fsub32 tr2 tr3; ci3 = fsub32 ti2 ti3; cr2 = fsub32 tr1 tr4; cr4 = fadd32 tr1 tr4;
                     ci2 = fadd32 ti1 ti4; ci4 = fsub32 ti1 ti4; a = t7 + t0; b = a + t0; c = b + t0
                 in ch[t7 - 1 := fadd32 tr2 tr3, t7 := fadd32 ti2 ti3,
                       a - 1 := fsub32 (fmul32 (wa1 ! (i - 2)) cr2) (fmul32 (wa1 ! (i - 1)) ci2),
                       a := fadd32 (fmul32 (wa1 ! (i - 2)) ci2) (fmul32 (wa1 ! (i - 1)) cr2),
                       b - 1 := fsub32 (fmul32 (wa2 ! (i - 2)) cr3) (fmul32 (wa2 ! (i - 1)) ci3),
                       b := fadd32 (fmul32 (wa2 ! (i - 2)) ci3) (fmul32 (wa2 ! (i - 1)) cr3),
                       c - 1 := fsub32 (fmul32 (wa3 ! (i - 2)) cr4) (fmul32 (wa3 ! (i - 1)) ci4),
                       c := fadd32 (fmul32 (wa3 ! (i - 2)) ci4) (fmul32 (wa3 ! (i - 1)) cr4)]) (evens ido)) [0..<l1] ch)"

definition dradb4_last :: "nat \<Rightarrow> nat \<Rightarrow> fval list \<Rightarrow> fval list \<Rightarrow> fval list \<Rightarrow> fval list \<Rightarrow> fval list \<Rightarrow> fval list" where
  "dradb4_last ido l1 cc ch wa1 wa2 wa3 =
     (let t0 = l1 * ido; t6 = 2 * ido in fold (\<lambda>k ch.
                 let t2 = 4 * ido; t1 = ido + k * t2; t3 = ido - 1 + k * ido; t4 = ido + 2 * ido + k * t2;
                     ti1 = fadd32 (cc ! t1) (cc ! t4); ti2 = fsub32 (cc ! t4) (cc ! t1);
                     tr1 = fsub32 (cc ! (t1 - 1)) (cc ! (t4 - 1)); tr2 = fadd32 (cc ! (t1 - 1)) (cc ! (t4 - 1))
                 in ch[t3 := fadd32 tr2 tr2, t3 + t0 := fmul32 sqrt2 (fsub32 tr1 ti1), t3 + t0 + t0 := fadd32 ti2 ti2,
                       t3 + t0 + t0 + t0 := fmul32 (fneg sqrt2) (fadd32 tr1 ti1)]) [0..<l1] ch)"

definition dradb4 :: "nat \<Rightarrow> nat \<Rightarrow> fval list \<Rightarrow> fval list \<Rightarrow> fval list \<Rightarrow> fval list \<Rightarrow> fval list \<Rightarrow> fval list" where
  "dradb4 ido l1 cc ch wa1 wa2 wa3 =
     (let ch = dradb4_first ido l1 cc ch wa1 wa2 wa3
      in if ido < 2 then ch
         else if ido = 2 then dradb4_last ido l1 cc ch wa1 wa2 wa3
         else let ch = dradb4_mid ido l1 cc ch wa1 wa2 wa3 in if ido mod 2 = 1 then ch else dradb4_last ido l1 cc ch wa1 wa2 wa3)"

text \<open>\<open>dradbg\<close> up to label L116: the planes of the half-complex input, in \<open>ch\<close>.\<close>

definition dradbg_load :: "nat \<Rightarrow> nat \<Rightarrow> nat \<Rightarrow> fval list \<Rightarrow> fval list \<Rightarrow> fval list" where
  "dradbg_load ido ip l1 cc ch =
     (let t0 = l1 * ido; t10 = ip * ido; nbd = (ido - 1) div 2; ipph = (ip + 1) div 2;
          ch = (if ido < l1
                then fold (\<lambda>i. fold (\<lambda>k ch. ch[i + k * ido := cc ! (i + k * t10)]) [0..<l1]) [0..<ido] ch
                else fold (\<lambda>k. fold (\<lambda>i ch. ch[k * ido + i := cc ! (k * t10 + i)]) [0..<ido]) [0..<l1] ch);
          ch = fold (\<lambda>j. fold (\<lambda>k ch. let t6 = j * (2 * ido) + k * t10
                 in ch[j * t0 + k * ido := fadd32 (cc ! (t6 - 1)) (cc ! (t6 - 1)),
                       (ip - j) * t0 + k * ido := fadd32 (cc ! t6) (cc ! t6)]) [0..<l1]) [1..<ipph] ch
      in if ido = 1 then ch
         else fold (\<lambda>j. loop_ki (nbd < l1) l1 ido (\<lambda>k i ch.
                let t5 = j * t0 + k * ido + i; t6 = (ip - j) * t0 + k * ido + i;
                    t9 = j * (2 * ido) + k * t10 + i; t11 = j * (2 * ido) + k * t10 - i
                in ch[t5 - 1 := fadd32 (cc ! (t9 - 1)) (cc ! (t11 - 1)), t6 - 1 := fsub32 (cc ! (t9 - 1)) (cc ! (t11 - 1)),
                      t5 := fsub32 (cc ! t9) (cc ! t11), t6 := fadd32 (cc ! t9) (cc ! t11)])) [1..<ipph] ch)"

text \<open>Its end, from label L132 on, when \<open>ido\<close> is not 1: the twiddle factors, into \<open>c\<close>.\<close>

definition dradbg_twiddle :: "nat \<Rightarrow> nat \<Rightarrow> nat \<Rightarrow> nat \<Rightarrow> fval list \<Rightarrow> fval list \<Rightarrow> fval list \<Rightarrow> fval list" where
  "dradbg_twiddle ido ip l1 idl1 c ch wa =
     (let t0 = l1 * ido; nbd = (ido - 1) div 2;
          c = fold (\<lambda>ik c. c[ik := ch ! ik]) [0..<idl1] c;
          c = fold (\<lambda>j. fold (\<lambda>k c. c[j * t0 + k * ido := ch ! (j * t0 + k * ido)]) [0..<l1]) [1..<ip] c
      in fold (\<lambda>j. loop_ki (\<not> nbd > l1) l1 ido (\<lambda>k i c.
           let idij = (j - 1) * ido + i - 1; t3 = j * t0 + k * ido + i
           in c[t3 - 1 := fsub32 (fmul32 (wa ! (idij - 1)) (ch ! (t3 - 1))) (fmul32 (wa ! idij) (ch ! t3)),
                t3 := fadd32 (fmul32 (wa ! (idij - 1)) (ch ! t3)) (fmul32 (wa ! idij) (ch ! (t3 - 1)))])) [1..<ip] c)"

definition dradbg :: "spx_env \<Rightarrow> nat \<Rightarrow> nat \<Rightarrow> nat \<Rightarrow> nat \<Rightarrow> fval list \<Rightarrow> fval list \<Rightarrow> fval list \<Rightarrow> fval list \<times> fval list" where
  "dradbg env ido ip l1 idl1 c ch wa =
     (let t0 = l1 * ido; nbd = (ido - 1) div 2; ipph = (ip + 1) div 2;
          ch = dradbg_load ido ip l1 c ch;
          c = radix_planes env ip idl1 ch c;
          ch = fold (\<lambda>j. fold (\<lambda>ik ch. ch[ik := fadd32 (ch ! ik) (ch ! (j * idl1 + ik))]) [0..<idl1]) [1..<ipph] ch;
          ch = fold (\<lambda>j. fold (\<lambda>k ch. let t3 = j * t0 + k * ido; t4 = (ip - j) * t0 + k * ido
                 in ch[t3 := fsub32 (c ! t3) (c ! t4), t4 := fadd32 (c ! t3) (c ! t4)]) [0..<l1]) [1..<ipph] ch
      in if ido = 1 then (c, ch)
         else let ch = fold (\<lambda>j. loop_ki (nbd < l1) l1 ido (\<lambda>k i ch.
                     let t5 = j * t0 + k * ido + i; t6 = (ip - j) * t0 + k * ido + i
                     in ch[t5 - 1 := fsub32 (c ! (t5 - 1)) (c ! t6), t6 - 1 := fadd32 (c ! (t5 - 1)) (c ! t6),
                           t5 := fadd32 (c ! t5) (c ! (t6 - 1)), t6 := fsub32 (c ! t5) (c ! (t6 - 1))])) [1..<ipph] ch
              in (dradbg_twiddle ido ip l1 idl1 c ch wa, ch))"

definition drftb1_pass :: "spx_env \<Rightarrow> nat \<Rightarrow> fval list \<Rightarrow> nat list \<Rightarrow> nat \<Rightarrow>
    nat \<times> nat \<times> nat \<times> fval list \<times> fval list \<Rightarrow> nat \<times> nat \<times> nat \<times> fval list \<times> fval list" where
  "drftb1_pass env n wa ifac k1 = (\<lambda>(na, l1, iw, c, ch).
     let ip = ifac ! (k1 + 2); l2 = ip * l1; ido = n div l2; idl1 = ido * l1; ix2 = iw + ido; ix3 = ix2 + ido;
         w = (\<lambda>ix. drop (ix - 1) wa); iw' = iw + (ip - 1) * ido
     in if ip = 4
        then if na \<noteq> 0 then (1 - na, l2, iw', dradb4 ido l1 ch c (w iw) (w ix2) (w ix3), ch)
             else (1 - na, l2, iw', c, dradb4 ido l1 c ch (w iw) (w ix2) (w ix3))
        else if ip = 2
        then if na \<noteq> 0 then (1 - na, l2, iw', dradb2 ido l1 ch c (w iw), ch) else (1 - na, l2, iw', c, dradb2 ido l1 c ch (w iw))
        else if ip = 3
        then if na \<noteq> 0 then (1 - na, l2, iw', dradb3 ido l1 ch c (w iw) (w ix2), ch)
             else (1 - na, l2, iw', c, dradb3 ido l1 c ch (w iw) (w ix2))
        else let (c, ch) = (if na \<noteq> 0 then prod.swap (dradbg env ido ip l1 idl1 ch c (w iw)) else dradbg env ido ip l1 idl1 c ch (w iw))
             in (if ido = 1 then 1 - na else na, l2, iw', c, ch))"

definition drftb1 :: "spx_env \<Rightarrow> nat \<Rightarrow> fval list \<Rightarrow> fval list \<Rightarrow> fval list \<Rightarrow> nat list \<Rightarrow> fval list \<times> fval list" where
  "drftb1 env n c ch wa ifac =
     (let nf = ifac ! 1;
          (na, l1, iw, c, ch) = fold (drftb1_pass env n wa ifac) [0..<nf] (0, 1, 1, c, ch)
      in if na = 0 then (c, ch) else (fold (\<lambda>i c. c[i := ch ! i]) [0..<n] c, ch))"

section \<open>The lookup table and the wrappers\<close>

record drft_lookup =
  l_n :: nat
  l_trigcache :: "fval list"
  l_splitcache :: "nat list"

definition spx_drft_forward :: "spx_env \<Rightarrow> drft_lookup \<Rightarrow> fval list \<Rightarrow> fval list \<times> drft_lookup" where
  "spx_drft_forward env l data =
     (if l_n l = 1 then (data, l)
      else let (c, ch) = drftf1 env (l_n l) data (take (l_n l) (l_trigcache l)) (drop (l_n l) (l_trigcache l)) (l_splitcache l)
           in (c, l\<lparr>l_trigcache := ch @ drop (l_n l) (l_trigcache l)\<rparr>))"

definition spx_drft_backward :: "spx_env \<Rightarrow> drft_lookup \<Rightarrow> fval list \<Rightarrow> fval list \<times> drft_lookup" where
  "spx_drft_backward env l data =
     (if l_n l = 1 then (data, l)
      else let (c, ch) = drftb1 env (l_n l) data (take (l_n l) (l_trigcache l)) (drop (l_n l) (l_trigcache l)) (l_splitcache l)
           in (c, l\<lparr>l_trigcache := ch @ drop (l_n l) (l_trigcache l)\<rparr>))"

definition spx_drft_init :: "spx_env \<Rightarrow> nat \<Rightarrow> drft_lookup option" where
  "spx_drft_init env n =
     do {
       trigcache \<leftarrow> speex_alloc [3, n] 4 f0;
       splitcache \<leftarrow> speex_alloc [32] 4 0;
       (trig, split) \<leftarrow> fdrffti env n trigcache splitcache;
       Some \<lparr>l_n = n, l_trigcache = trig, l_splitcache = split\<rparr>
     }"

definition spx_fft_init :: "spx_env \<Rightarrow> nat \<Rightarrow> drft_lookup option" where
  "spx_fft_init env n = spx_drft_init env n"

text \<open>\<open>spx_fft\<close> scales by 1/n into the output and transforms it in place; \<open>spx_ifft\<close> copies and
  transforms back. \<open>out\<close> is the buffer before the call. The table is returned, because the
  transforms use its first \<open>n\<close> entries as scratch space.\<close>

definition spx_fft :: "spx_env \<Rightarrow> drft_lookup \<Rightarrow> fval list \<Rightarrow> fval list \<Rightarrow> fval list \<times> drft_lookup" where
  "spx_fft env table inp out =
     (let scale = to_f32 (fdiv64 f1 (nat64 (l_n table)));
          (ys, table) = spx_drft_forward env table (map (\<lambda>i. fmul32 scale (inp ! i)) [0..<l_n table])
      in (splice 0 ys out, table))"

definition spx_ifft :: "spx_env \<Rightarrow> drft_lookup \<Rightarrow> fval list \<Rightarrow> fval list \<Rightarrow> fval list \<times> drft_lookup" where
  "spx_ifft env table inp out =
     (let (ys, table) = spx_drft_backward env table (map (\<lambda>i. inp ! i) [0..<l_n table])
      in (splice 0 ys out, table))"

definition spx_fft_float :: "spx_env \<Rightarrow> drft_lookup \<Rightarrow> fval list \<Rightarrow> fval list \<Rightarrow> fval list \<times> drft_lookup" where
  "spx_fft_float env table inp out = spx_fft env table inp out"

definition spx_ifft_float :: "spx_env \<Rightarrow> drft_lookup \<Rightarrow> fval list \<Rightarrow> fval list \<Rightarrow> fval list \<times> drft_lookup" where
  "spx_ifft_float env table inp out = spx_ifft env table inp out"

section \<open>Factorisation\<close>

definition ifactors :: "nat \<Rightarrow> nat list \<Rightarrow> nat list" where
  "ifactors nf ifac = take nf (drop 2 ifac)"

lemma shift_up:
  assumes "m < nf" "nf + 1 < length f"
  defines "g \<equiv> fold (\<lambda>i f. f[nf - i + 1 + 1 := f ! (nf - i + 1)]) [1..<Suc m] f"
  shows "length g = length f" "p < length f \<Longrightarrow> g ! p = (if nf + 1 - m < p \<and> p \<le> nf + 1 then f ! (p - 1) else f ! p)"
proof -
  show "length g = length f" by (simp add: g_def)
  show "p < length f \<Longrightarrow> g ! p = (if nf + 1 - m < p \<and> p \<le> nf + 1 then f ! (p - 1) else f ! p)"
    using assms(1) unfolding g_def
  proof (induction m arbitrary: p)
    case (Suc m)
    let ?g = "fold (\<lambda>i f. f[nf - i + 1 + 1 := f ! (nf - i + 1)]) [1..<Suc m] f"
    have l: "length ?g = length f" by simp
    have "\<not> nf + 1 - m < nf - Suc m + 1" "nf - Suc m + 1 < length f" using Suc.prems assms(2) by arith+
    then have q: "?g ! (nf - Suc m + 1) = f ! (nf - Suc m + 1)" using Suc.IH [of "nf - Suc m + 1"] Suc.prems by auto
    have "fold (\<lambda>i f. f[nf - i + 1 + 1 := f ! (nf - i + 1)]) [1..<Suc (Suc m)] f = ?g[nf - Suc m + 2 := f ! (nf - Suc m + 1)]"
      using q by simp
    moreover have "nf + 1 - Suc m < p \<and> p \<le> nf + 1 \<longleftrightarrow> p = nf - Suc m + 2 \<or> nf + 1 - m < p \<and> p \<le> nf + 1"
      using Suc.prems by arith
    ultimately show ?case using Suc.IH [of p] Suc.prems l by (auto simp del: upt_Suc simp: nth_list_update)
  qed auto
qed

lemma ifactors_front2:
  assumes "1 < nf" "nf + 1 < length f"
  shows "ifactors nf (ifac_front2 nf f) = 2 # take (nf - 1) (drop 2 f)" "length (ifac_front2 nf f) = length f"
proof -
  let ?g = "fold (\<lambda>i f. f[nf - i + 1 + 1 := f ! (nf - i + 1)]) [1..<nf] f"
  have g: "length ?g = length f" "\<And>p. p < length f \<Longrightarrow> ?g ! p = (if 2 < p \<and> p \<le> nf + 1 then f ! (p - 1) else f ! p)"
    using shift_up [of "nf - 1" nf f] assms by simp_all
  show "length (ifac_front2 nf f) = length f" using g(1) by (simp add: ifac_front2_def)
  show "ifactors nf (ifac_front2 nf f) = 2 # take (nf - 1) (drop 2 f)"
  proof (rule nth_equalityI)
    show "length (ifactors nf (ifac_front2 nf f)) = length (2 # take (nf - 1) (drop 2 f))"
      using assms g(1) by (simp add: ifactors_def ifac_front2_def)
    fix i assume "i < length (ifactors nf (ifac_front2 nf f))"
    then show "ifactors nf (ifac_front2 nf f) ! i = (2 # take (nf - 1) (drop 2 f)) ! i"
      using assms g by (cases i) (simp_all add: ifactors_def ifac_front2_def)
  qed
qed

lemma ifactors_snoc:
  assumes "nf + 2 < length f"
  shows "ifactors (nf + 1) (f[nf + 2 := v]) = ifactors nf f @ [v]"
  using assms by (simp add: ifactors_def take_Suc_conv_app_nth drop_update_swap)

text \<open>One factor found.\<close>

definition ifac_add :: "nat \<Rightarrow> nat \<Rightarrow> nat list \<Rightarrow> nat list" where
  "ifac_add nf ntry ifac =
     (let ifac = ifac[nf + 1 + 1 := ntry] in if ntry \<noteq> 2 \<or> nf + 1 = 1 then ifac else ifac_front2 (nf + 1) ifac)"

lemma ifac_add:
  assumes "nf + 2 < length f"
  shows "prod_list (ifactors (nf + 1) (ifac_add nf v f)) = v * prod_list (ifactors nf f)"
    "set (ifactors (nf + 1) (ifac_add nf v f)) = insert v (set (ifactors nf f))" "length (ifac_add nf v f) = length f"
proof -
  have *: "ifactors (nf + 1) (ifac_front2 (nf + 1) (f[nf + 2 := 2])) = 2 # ifactors nf f" if "0 < nf"
    using that assms ifactors_front2(1) [of "nf + 1" "f[nf + 2 := 2]"] by (simp add: ifactors_def drop_update_swap)
  show "prod_list (ifactors (nf + 1) (ifac_add nf v f)) = v * prod_list (ifactors nf f)"
    "set (ifactors (nf + 1) (ifac_add nf v f)) = insert v (set (ifactors nf f))"
    using assms * ifactors_snoc [OF assms] by (cases "v = 2"; cases "nf = 0"; simp add: ifac_add_def Let_def)+
  show "length (ifac_add nf v f) = length f"
    using assms ifactors_front2(2) [of "nf + 1" "f[nf + 2 := v]"] by (auto simp: ifac_add_def Let_def)
qed

lemma drfti_factor_step:
  "drfti_factor j ntry nl nf ifac =
    (if ntry dvd nl
     then if nl div ntry = 1 then Some (nf + 1, ifac_add nf ntry ifac)
          else drfti_factor j ntry (nl div ntry) (nf + 1) (ifac_add nf ntry ifac)
     else drfti_factor (j + 1) (if j + 1 < 4 then ntryh ! (j + 1) else ntry + 2) nl nf ifac)"
  by (subst drfti_factor.simps) (auto simp: ifac_add_def Let_def dvd_eq_mod_eq_0)

text \<open>A search succeeds from a state when it returns, the new list still has the old factors, and
  the new ones, all at least 2, multiply to what was left.\<close>

definition factored :: "nat \<Rightarrow> nat \<Rightarrow> nat list \<Rightarrow> (nat \<times> nat list) option \<Rightarrow> bool" where
  "factored nl nf f r \<longleftrightarrow>
     (\<exists>nf' f'. r = Some (nf', f') \<and> length f' = length f \<and> nf' + 2 \<le> length f \<and>
        prod_list (ifactors nf' f') = nl * prod_list (ifactors nf f) \<and>
        (\<forall>v \<in> set (ifactors nf' f'). v \<in> set (ifactors nf f) \<or> 2 \<le> v))"

definition room :: "nat \<Rightarrow> nat \<Rightarrow> nat list \<Rightarrow> bool" where
  "room nl nf f \<longleftrightarrow> 2 \<le> nl \<and> length f = 32 \<and> nl * 2 ^ nf < 2 ^ 31"

lemma room_next:
  assumes "room nl nf f" "2 \<le> v" "v dvd nl"
  shows "nf + 2 < length f" "nl div v \<noteq> 1 \<Longrightarrow> room (nl div v) (nf + 1) (ifac_add nf v f)" "nl div v < nl"
proof -
  have nl: "2 \<le> nl" "nl * 2 ^ nf < 2 ^ 31" using assms by (auto simp: room_def)
  have "2 ^ (nf + 1) \<le> nl * 2 ^ nf" using nl(1) by simp
  also have "\<dots> < 2 ^ 31" by (rule nl(2))
  finally have "(2 :: nat) ^ (nf + 1) < 2 ^ 31" .
  then have "nf + 1 < 31" by (rule power_less_imp_less_exp [rotated]) simp
  then show l: "nf + 2 < length f" using assms by (simp add: room_def)
  obtain q where q: "nl = v * q" using assms(3) by blast
  have d: "nl div v = q" using q assms(2) by simp
  have "0 < q" using q nl(1) by (cases q) auto
  then show "nl div v < nl" using d q assms(2) by simp
  have "q * 2 ^ (nf + 1) \<le> nl * 2 ^ nf" using q assms(2) by simp
  then have "q * 2 ^ (nf + 1) < 2 ^ 31" using nl(2) by (rule le_less_trans)
  moreover have "length (ifac_add nf v f) = 32" using assms(1) ifac_add(3) [OF l] by (simp add: room_def)
  ultimately show "nl div v \<noteq> 1 \<Longrightarrow> room (nl div v) (nf + 1) (ifac_add nf v f)"
    unfolding room_def d using \<open>0 < q\<close> by linarith
qed

lemma factored_found:
  assumes r: "room nl nf f" and v: "2 \<le> v" "v dvd nl"
    and rec: "nl div v \<noteq> 1 \<Longrightarrow> factored (nl div v) (nf + 1) (ifac_add nf v f) (drfti_factor j v (nl div v) (nf + 1) (ifac_add nf v f))"
  shows "factored nl nf f (drfti_factor j v nl nf f)"
proof -
  note l = room_next(1) [OF r v] and a = ifac_add [OF room_next(1) [OF r v], of v]
  have q: "nl div v * (v * p) = nl * p" for p using v(2) by (metis dvd_div_mult_self mult.assoc)
  show ?thesis
  proof (cases "nl div v = 1")
    case True
    then have "nl = v" using v(2) by (metis dvd_div_mult_self mult_1)
    then show ?thesis using True v a l by (subst drfti_factor_step) (auto simp: factored_def)
  next
    case False
    with rec obtain nf' f' where "drfti_factor j v (nl div v) (nf + 1) (ifac_add nf v f) = Some (nf', f')" "length f' = length f"
      "nf' + 2 \<le> length f" "prod_list (ifactors nf' f') = nl * prod_list (ifactors nf f)"
      "\<forall>w \<in> set (ifactors nf' f'). w \<in> insert v (set (ifactors nf f)) \<or> 2 \<le> w"
      using a q by (auto simp: factored_def)
    then show ?thesis using False v by (subst drfti_factor_step) (auto simp: factored_def)
  qed
qed

text \<open>The odd divisors, from 3 on.\<close>

lemma factor_odd:
  assumes "room nl nf f" "2 \<le> j" "odd ntry" "3 \<le> ntry" "j = 2 \<longrightarrow> ntry = 3" "\<forall>d. 2 \<le> d \<and> d < ntry \<longrightarrow> \<not> d dvd nl"
  shows "factored nl nf f (drfti_factor j ntry nl nf f)"
  using assms
proof (induction "2 * nl - ntry" arbitrary: nl nf f j ntry rule: less_induct)
  case less
  have nl: "2 \<le> nl" using less.prems(1) by (simp add: room_def)
  have le: "ntry \<le> nl" using less.prems(6) nl by (metis dvd_refl not_le)
  show ?case
  proof (cases "ntry dvd nl")
    case True
    show ?thesis
    proof (rule factored_found)
      assume "nl div ntry \<noteq> 1"
      then have r: "room (nl div ntry) (nf + 1) (ifac_add nf ntry f)" and lt: "nl div ntry < nl"
        using room_next [OF less.prems(1) _ True] less.prems(4) by auto
      have nd: "\<forall>d. 2 \<le> d \<and> d < ntry \<longrightarrow> \<not> d dvd nl div ntry" using less.prems(6) True by (metis dvd_div_mult_self dvd_mult2)
      show "factored (nl div ntry) (nf + 1) (ifac_add nf ntry f) (drfti_factor j ntry (nl div ntry) (nf + 1) (ifac_add nf ntry f))"
        by (rule less.hyps [OF _ r less.prems(2-5) nd]) (use lt le in arith)
    qed (use less.prems True in auto)
  next
    case False
    have odd: "odd nl" using less.prems(4,6) by (metis Suc_1 Suc_le_lessD eval_nat_numeral(3) le_refl)
    have neq: "nl \<noteq> ntry" using False by auto
    then have nl2: "ntry + 2 \<le> nl" using le odd less.prems(3) by (metis Suc_leI add_2_eq_Suc' even_Suc le_antisym not_less_eq_eq)
    have nd: "\<forall>d. 2 \<le> d \<and> d < ntry + 2 \<longrightarrow> \<not> d dvd nl"
    proof (intro allI impI)
      fix d assume d: "2 \<le> d \<and> d < ntry + 2"
      consider "d < ntry" | "d = ntry" | "d = ntry + 1" using d by linarith
      then show "\<not> d dvd nl" using less.prems(3,6) False odd d by cases (auto dest: dvd_trans [rotated])
    qed
    let ?t = "if j + 1 < 4 then ntryh ! (j + 1) else ntry + 2"
    have t: "?t = ntry + 2" using less.prems(2,5) by auto
    have "factored nl nf f (drfti_factor (j + 1) (ntry + 2) nl nf f)"
      by (rule less.hyps [OF _ less.prems(1) _ _ _ _ nd]) (use nl2 less.prems in auto)
    then show ?thesis using False t by (subst drfti_factor_step) simp
  qed
qed

lemma factor_two: "room nl nf f \<Longrightarrow> factored nl nf f (drfti_factor 1 2 nl nf f)"
proof (induction nl arbitrary: nf f rule: less_induct)
  case (less nl)
  show ?case
  proof (cases "2 dvd nl")
    case True
    show ?thesis by (rule factored_found [OF less.prems _ True]) (use less room_next [OF less.prems _ True] in auto)
  next
    case False
    have "\<not> d dvd nl" if "2 \<le> d \<and> d < 3" for d
    proof -
      have "d = 2" using that by linarith
      with False show ?thesis by simp
    qed
    then have "factored nl nf f (drfti_factor 2 3 nl nf f)" by (intro factor_odd [OF less.prems]) auto
    then show ?thesis using False by (subst drfti_factor_step) (simp add: numeral_eq_Suc)
  qed
qed

lemma factor_four: "room nl nf f \<Longrightarrow> factored nl nf f (drfti_factor 0 4 nl nf f)"
proof (induction nl arbitrary: nf f rule: less_induct)
  case (less nl)
  show ?case
  proof (cases "4 dvd nl")
    case True
    show ?thesis by (rule factored_found [OF less.prems _ True]) (use less room_next [OF less.prems _ True] in auto)
  next
    case False
    then show ?thesis using factor_two [OF less.prems] by (subst drfti_factor_step) simp
  qed
qed

lemma drfti1_returns:
  assumes "2 \<le> n" "n < 2 ^ 31" "length ifac = 32"
  obtains wa' ifac' nf where "drfti1 env n wa ifac = Some (wa', ifac')" "ifac' ! 0 = n" "ifac' ! 1 = nf" "nf \<le> 30" "length ifac' = 32"
    "prod_list (ifactors nf ifac') = n" "\<forall>v \<in> set (ifactors nf ifac'). 2 \<le> v"
proof -
  have "room n 0 ifac" using assms by (simp add: room_def)
  from factor_four [OF this] obtain nf f' where f: "drfti_factor 0 4 n 0 ifac = Some (nf, f')" "length f' = 32" "nf + 2 \<le> 32"
    "prod_list (ifactors nf f') = n" "\<forall>v \<in> set (ifactors nf f'). 2 \<le> v"
    using assms(3) by (auto simp: factored_def ifactors_def)
  have "ifactors nf (f'[0 := n, 1 := nf]) = ifactors nf f'" by (simp add: ifactors_def)
  with f show thesis by (intro that [of "drfti_tables env n nf (f'[0 := n, 1 := nf]) wa" "f'[0 := n, 1 := nf]" nf]) (simp_all add: drfti1_def Let_def)
qed

lemma drft_init_alloc:
  assumes "1 \<le> n" "12 * n < 2 ^ 31"
  shows "spx_drft_init env n = map_option (\<lambda>(trig, split). \<lparr>l_n = n, l_trigcache = trig, l_splitcache = split\<rparr>)
    (fdrffti env n (replicate (3 * n) f0) (replicate 32 0))"
  using assms by (cases "fdrffti env n (replicate (3 * n) f0) (replicate 32 0)")
    (auto simp: spx_drft_init_def speex_alloc_fits)

lemma drft_init_big: "2 ^ 31 \<le> 12 * n \<Longrightarrow> spx_drft_init env n = None"
  using speex_alloc_big [of "[3, n]" 4 f0] by (simp add: spx_drft_init_def)

lemma drft_init_returns:
  assumes "1 \<le> n" "12 * n < 2 ^ 31"
  obtains l where "spx_drft_init env n = Some l" "l_n l = n" "length (l_splitcache l) = 32"
    "n \<noteq> 1 \<Longrightarrow> l_splitcache l ! 1 \<le> 30 \<and> prod_list (ifactors (l_splitcache l ! 1) (l_splitcache l)) = n \<and>
       (\<forall>v \<in> set (ifactors (l_splitcache l ! 1) (l_splitcache l)). 2 \<le> v)"
proof (cases "n = 1")
  case True
  then show thesis by (intro that [of "\<lparr>l_n = n, l_trigcache = replicate (3 * n) f0, l_splitcache = replicate 32 0\<rparr>"])
    (simp_all add: drft_init_alloc fdrffti_def)
next
  case False
  then have "2 \<le> n" and small: "n < 2 ^ 31" using assms by simp_all
  then obtain wa' ifac' nf where "drfti1 env n (drop n (replicate (3 * n) f0)) (replicate 32 0) = Some (wa', ifac')" "ifac' ! 0 = n" "ifac' ! 1 = nf" "nf \<le> 30" "length ifac' = 32"
    "prod_list (ifactors nf ifac') = n" "\<forall>v \<in> set (ifactors nf ifac'). 2 \<le> v"
    using drfti1_returns [of n "replicate 32 0" env "drop n (replicate (3 * n) f0)"] small length_replicate by metis
  then show thesis using False
    by (intro that [of "\<lparr>l_n = n, l_trigcache = take n (replicate (3 * n) f0) @ wa', l_splitcache = ifac'\<rparr>"])
      (use assms in \<open>simp_all add: drft_init_alloc fdrffti_def\<close>)
qed

text \<open>The table of coefficients keeps its size.\<close>

lemma length_drfti_row [simp]: "length (drfti_row env argld ido is wa) = length wa"
  unfolding drfti_row_def Let_def by (rule fold_keeps_pred [where P = "\<lambda>s. length (fst s) = length wa", of "(wa, _)"]) auto

lemma length_drfti_rows: "length (fst (fold (\<lambda>j (wa, is). (drfti_row env (a j) ido is wa, is + ido)) js s)) = length (fst s)"
  by (rule fold_keeps) (simp add: split_beta)

lemma length_drfti_tables [simp]: "length (drfti_tables env n nf ifac wa) = length wa"
  unfolding drfti_tables_def Let_def
proof (rule fold_keeps_pred [where P = "\<lambda>s. length (fst s) = length wa"], goal_cases)
  case (2 k1 s)
  then show ?case using length_drfti_rows [of env _ _ _ "(fst s, fst (snd s))"] by (simp only: split_beta fst_conv snd_conv)
qed simp

lemma drft_trig_length: "spx_drft_init env n = Some l \<Longrightarrow> length (l_trigcache l) = 3 * n"
  by (auto simp: spx_drft_init_def bind_eq_Some_conv fdrffti_def drfti1_def Let_def split: if_splits option.splits dest!: speex_alloc_eq)

section \<open>Exact transforms of 2 and 4 samples\<close>

definition fint :: "int \<Rightarrow> fval" where
  "fint k = FNum (k < 0) (of_int \<bar>k\<bar>)"

lemma fmag_abs_int: "\<bar>k\<bar> < 2 ^ 24 \<Longrightarrow> fmag binary32 (of_int \<bar>k\<bar>)"
  using fmag_int [of binary32 "nat \<bar>k\<bar>"] by (simp add: of_nat_nat)

lemma fofint_fint: "\<bar>k\<bar> < 2 ^ 24 \<Longrightarrow> fofint binary32 k = fint k"
  using fround_exact [OF fmt_ok_binary(1) fmag_abs_int] by (simp add: fofint_def fint_def)

lemma fsval_fint: "fsval (k < 0) (of_int \<bar>k\<bar>) = of_int k"
  by (simp add: fsval_def)

lemma fadd_int_zero:
  assumes "\<bar>a + b\<bar> < 2 ^ 24" "s \<longleftrightarrow> a < 0" "t \<and> a = 0 \<and> b = 0 \<longrightarrow> \<not> s" "b \<noteq> 0 \<longrightarrow> t = (b < 0)"
  shows "fadd32 (FNum s (of_int \<bar>a\<bar>)) (FNum t (of_int \<bar>b\<bar>)) = fint (a + b)"
proof -
  have "fround binary32 (a + b < 0) (of_int \<bar>a + b\<bar>) = fint (a + b)"
    using fround_exact [OF fmt_ok_binary(1) fmag_abs_int [OF assms(1)]] by (simp add: fint_def)
  moreover have v: "fsval s (of_int \<bar>a\<bar>) + fsval t (of_int \<bar>b\<bar>) = of_int (a + b)" using assms(2-4) by (cases "b = 0") (auto simp: fsval_def)
  moreover have "s \<and> t \<Longrightarrow> a + b \<noteq> 0" using assms(2-4) by (cases "b = 0") auto
  ultimately show ?thesis unfolding fadd.simps v Let_def of_int_0_eq_iff of_int_less_0_iff of_int_abs [symmetric] by (auto simp: fint_def)
qed

lemma fadd_fint: "\<bar>a + b\<bar> < 2 ^ 24 \<Longrightarrow> fadd32 (fint a) (fint b) = fint (a + b)"
  using fadd_int_zero [of a b "a < 0" "b < 0"] by (simp add: fint_def)

lemma fsub_fint: "\<bar>a - b\<bar> < 2 ^ 24 \<Longrightarrow> fsub32 (fint a) (fint b) = fint (a - b)"
proof -
  assume "\<bar>a - b\<bar> < 2 ^ 24"
  moreover have "b \<noteq> 0 \<longrightarrow> (\<not> b < 0) = (0 < b)" by auto
  ultimately show ?thesis using fadd_int_zero [of a "- b" "a < 0" "\<not> b < 0"] by (simp add: fint_def fsub_def)
qed

lemma s16_range: "\<bar>sint (x :: s16)\<bar> \<le> 32768"
  using sint_ge [of x] sint_lt [of x] by simp

lemma ifac_add_first: "ifac_add 0 v (replicate 32 0) = [0, 0, v] @ replicate 29 0"
  by (simp add: ifac_add_def eval_nat_numeral)

lemma drft_table_2: "spx_drft_init env 2 = Some \<lparr>l_n = 2, l_trigcache = replicate 6 f0, l_splitcache = [2, 1, 2] @ replicate 29 0\<rparr>"
proof -
  have "drfti_factor 0 4 2 0 (replicate 32 0) = Some (1, [0, 0, 2] @ replicate 29 0)"
    by (subst drfti_factor_step, subst drfti_factor_step) (simp add: ifac_add_first)
  then show ?thesis by (simp add: drft_init_alloc fdrffti_def drfti1_def drfti_tables_def flip: replicate_add)
qed

lemma drft_table_4: "spx_drft_init env 4 = Some \<lparr>l_n = 4, l_trigcache = replicate 12 f0, l_splitcache = [4, 1, 4] @ replicate 29 0\<rparr>"
proof -
  have "drfti_factor 0 4 4 0 (replicate 32 0) = Some (1, [0, 0, 4] @ replicate 29 0)"
    by (subst drfti_factor_step) (simp add: ifac_add_first)
  then show ?thesis by (simp add: drft_init_alloc fdrffti_def drfti1_def drfti_tables_def flip: replicate_add)
qed

lemma forward_2:
  "spx_drft_forward env \<lparr>l_n = 2, l_trigcache = replicate 6 f0, l_splitcache = [2, 1, 2] @ replicate 29 0\<rparr> [a, b] =
    ([fadd32 a b, fsub32 a b], \<lparr>l_n = 2, l_trigcache = [fadd32 a b, fsub32 a b] @ replicate 4 f0, l_splitcache = [2, 1, 2] @ replicate 29 0\<rparr>)"
  by (simp add: spx_drft_forward_def drftf1_def drftf1_pass_def dradf2_def dradf2_first_def Let_def eval_nat_numeral)

lemma backward_2:
  "fst (spx_drft_backward env \<lparr>l_n = 2, l_trigcache = [x, y] @ replicate 4 f0, l_splitcache = [2, 1, 2] @ replicate 29 0\<rparr> [a, b]) =
    [fadd32 a b, fsub32 a b]"
  by (simp add: spx_drft_backward_def drftb1_def drftb1_pass_def dradb2_def dradb2_first_def Let_def eval_nat_numeral)

lemma dradf4_single:
  "dradf4 1 1 [a, b, c, d] [x, y, z, w] w1 w2 w3 =
    [fadd32 (fadd32 b d) (fadd32 a c), fsub32 a c, fsub32 d b, fsub32 (fadd32 a c) (fadd32 b d)]"
proof -
  have "dradf4 1 1 [a, b, c, d] [x, y, z, w] w1 w2 w3 =
    [x, y, z, w][0 := fadd32 (fadd32 b d) (fadd32 a c), 3 := fsub32 (fadd32 a c) (fadd32 b d), 1 := fsub32 a c, 2 := fsub32 d b]"
    by (simp add: dradf4_def dradf4_first_def Let_def)
  then show ?thesis by (simp add: numeral_eq_Suc)
qed

lemma dradb4_single:
  "dradb4 1 1 [a, b, c, d] [x, y, z, w] w1 w2 w3 =
    [fadd32 (fadd32 a d) (fadd32 b b), fsub32 (fsub32 a d) (fadd32 c c), fsub32 (fadd32 a d) (fadd32 b b), fadd32 (fsub32 a d) (fadd32 c c)]"
proof -
  have "dradb4 1 1 [a, b, c, d] [x, y, z, w] w1 w2 w3 =
    [x, y, z, w][0 := fadd32 (fadd32 a d) (fadd32 b b), 1 := fsub32 (fsub32 a d) (fadd32 c c), 2 := fsub32 (fadd32 a d) (fadd32 b b),
      3 := fadd32 (fsub32 a d) (fadd32 c c)]"
    by (simp add: dradb4_def dradb4_first_def Let_def)
  then show ?thesis by (simp add: numeral_eq_Suc)
qed

lemma replicate_4: "replicate 4 x = [x, x, x, x]"
  by (simp add: numeral_eq_Suc)

lemma copy_4: "fold (\<lambda>i c. c[i := [p, q, r, s] ! i]) [0..<4] [a, b, c, d] = [p, q, r, s]"
  by (simp add: numeral_eq_Suc)

lemma forward_4:
  "spx_drft_forward env \<lparr>l_n = 4, l_trigcache = replicate 12 f0, l_splitcache = [4, 1, 4] @ replicate 29 0\<rparr> [a, b, c, d] =
    (let ys = [fadd32 (fadd32 b d) (fadd32 a c), fsub32 a c, fsub32 d b, fsub32 (fadd32 a c) (fadd32 b d)]
     in (ys, \<lparr>l_n = 4, l_trigcache = ys @ replicate 8 f0, l_splitcache = [4, 1, 4] @ replicate 29 0\<rparr>))"
  using dradf4_single by (simp add: spx_drft_forward_def drftf1_def drftf1_pass_def replicate_4 copy_4 Let_def)

lemma backward_4:
  "fst (spx_drft_backward env \<lparr>l_n = 4, l_trigcache = [x, y, z, w] @ replicate 8 f0, l_splitcache = [4, 1, 4] @ replicate 29 0\<rparr> [a, b, c, d]) =
    [fadd32 (fadd32 a d) (fadd32 b b), fsub32 (fsub32 a d) (fadd32 c c), fsub32 (fadd32 a d) (fadd32 b b), fadd32 (fsub32 a d) (fadd32 c c)]"
  using dradb4_single by (simp add: spx_drft_backward_def drftb1_def drftb1_pass_def copy_4 Let_def)

definition s16_floats :: "s16 list \<Rightarrow> fval list" where
  "s16_floats xs = map (\<lambda>x. fofint binary32 (sint x)) xs"

lemma s16_fint: "fofint binary32 (sint (x :: s16)) = fint (sint x)"
  using s16_range [of x] by (intro fofint_fint) simp

lemma round_trip_2:
  assumes "spx_drft_init env 2 = Some l"
  shows "fst (spx_drft_backward env (snd (spx_drft_forward env l (s16_floats [a, b]))) (fst (spx_drft_forward env l (s16_floats [a, b])))) =
    map (\<lambda>x. fofint binary32 (2 * sint x)) [a, b]"
proof -
  have r: "\<bar>sint a\<bar> \<le> 32768" "\<bar>sint b\<bar> \<le> 32768" by (rule s16_range)+
  have l: "l = \<lparr>l_n = 2, l_trigcache = replicate 6 f0, l_splitcache = [2, 1, 2] @ replicate 29 0\<rparr>" using assms drft_table_2 by simp
  have "fofint binary32 (2 * sint x) = fint (2 * sint x)" if "\<bar>sint x\<bar> \<le> 32768" for x :: s16 by (rule fofint_fint) (use that in simp)
  then show ?thesis using r
    unfolding l s16_floats_def list.map s16_fint forward_2 backward_2 fst_conv snd_conv
    by (simp add: fadd_fint fsub_fint)
qed

lemma round_trip_4:
  assumes "spx_drft_init env 4 = Some l"
  shows "fst (spx_drft_backward env (snd (spx_drft_forward env l (s16_floats [a, b, c, d]))) (fst (spx_drft_forward env l (s16_floats [a, b, c, d])))) =
    map (\<lambda>x. fofint binary32 (4 * sint x)) [a, b, c, d]"
proof -
  have r: "\<bar>sint a\<bar> \<le> 32768" "\<bar>sint b\<bar> \<le> 32768" "\<bar>sint c\<bar> \<le> 32768" "\<bar>sint d\<bar> \<le> 32768" by (rule s16_range)+
  have l: "l = \<lparr>l_n = 4, l_trigcache = replicate 12 f0, l_splitcache = [4, 1, 4] @ replicate 29 0\<rparr>" using assms drft_table_4 by simp
  have "fofint binary32 (4 * sint x) = fint (4 * sint x)" if "\<bar>sint x\<bar> \<le> 32768" for x :: s16 by (rule fofint_fint) (use that in simp)
  then show ?thesis using r
    unfolding l s16_floats_def list.map s16_fint forward_4 Let_def fst_conv snd_conv backward_4
    by (simp add: fadd_fint fsub_fint)
qed

lemma length_spx_fft [simp]:
  "length (fst (spx_fft env table inp out)) = length out" "length (fst (spx_ifft env table inp out)) = length out"
  by (simp_all add: spx_fft_def spx_ifft_def Let_def split_beta)

end
