(* ===== verification/SpxEcho.thy ===== *)
theory SpxEcho
  imports SpxFft
begin

text \<open>
  The echo canceller of mdf.c (floating-point build, two-path filter): its state, the spectral
  helpers, initialisation, reset, one frame of cancellation, the playback buffer and the control
  function. Arrays are lists of floats; a pointer into an array is the tail of its list, and what
  a helper writes through a pointer is spliced back. Samples are 16-bit words.
\<close>

section \<open>State\<close>

record SpeexEchoState =
  es_frame_size :: nat
  es_window_size :: nat
  es_M :: nat
  es_cancel_count :: int
  es_adapted :: bool
  es_saturated :: int
  es_screwed_up :: int
  es_C :: nat
  es_K :: nat
  es_sampling_rate :: int
  es_spec_average :: fval
  es_beta0 :: fval
  es_beta_max :: fval
  es_sum_adapt :: fval
  es_leak_estimate :: fval
  es_e :: "fval list"
  es_x :: "fval list"
  es_X :: "fval list"
  es_input :: "fval list"
  es_y :: "fval list"
  es_last_y :: "fval list"
  es_Y :: "fval list"
  es_E :: "fval list"
  es_PHI :: "fval list"
  es_W :: "fval list"
  es_foreground :: "fval list"
  es_Davg1 :: fval
  es_Davg2 :: fval
  es_Dvar1 :: fval
  es_Dvar2 :: fval
  es_power :: "fval list"
  es_power_1 :: "fval list"
  es_wtmp :: "fval list"
  es_Rf :: "fval list"
  es_Yf :: "fval list"
  es_Xf :: "fval list"
  es_Eh :: "fval list"
  es_Yh :: "fval list"
  es_Pey :: fval
  es_Pyy :: fval
  es_window :: "fval list"
  es_prop :: "fval list"
  es_fft_table :: drft_lookup
  es_memX :: "fval list"
  es_memD :: "fval list"
  es_memE :: "fval list"
  es_preemph :: fval
  es_notch_radius :: fval
  es_notch_mem :: "fval list"
  es_play_buf :: "s16 list"
  es_play_buf_pos :: nat
  es_play_buf_started :: bool

abbreviation (input) PLAYBACK_DELAY :: nat where "PLAYBACK_DELAY \<equiv> 2"

section \<open>Helpers\<close>

text \<open>The loop of the notch filter over the samples of one channel.\<close>

fun notch_loop :: "fval \<Rightarrow> fval \<Rightarrow> fval list \<Rightarrow> fval \<Rightarrow> fval \<Rightarrow> fval list \<times> fval \<times> fval" where
  "notch_loop radius den2 [] mem0 mem1 = ([], mem0, mem1)"
| "notch_loop radius den2 (vin # vs) mem0 mem1 =
     (let vout = fadd32 mem0 vin;
          mem0' = fadd32 mem1 (fmul32 (FNum False 2) (fadd32 (fneg vin) (fmul32 radius vout)));
          mem1' = fsub32 vin (fmul32 den2 vout);
          (out, m0, m1) = notch_loop radius den2 vs mem0' mem1'
      in (fmul32 radius vout # out, m0, m1))"

definition filter_dc_notch16 :: "s16 list \<Rightarrow> fval \<Rightarrow> nat \<Rightarrow> fval \<times> fval \<Rightarrow> nat \<Rightarrow> fval list \<times> fval \<times> fval" where
  "filter_dc_notch16 inp radius len mem stride =
     (let r1 = to_f64 (fsub32 f1 radius);
          den2 = to_f32 (fadd64 (to_f64 (fmul32 radius radius)) (fmul64 (fmul64 (lit64 (7 / 10)) r1) r1))
      in notch_loop radius den2 (map (\<lambda>i. fofint binary32 (sint (inp ! (i * stride)))) [0..<len]) (fst mem) (snd mem))"

definition mdf_inner_prod :: "fval list \<Rightarrow> fval list \<Rightarrow> nat \<Rightarrow> fval" where
  "mdf_inner_prod x y len =
     fold (\<lambda>k sum. fadd32 sum (fadd32 (fadd32 f0 (fmul32 (x ! (2 * k)) (y ! (2 * k))))
            (fmul32 (x ! (2 * k + 1)) (y ! (2 * k + 1))))) [0..<len div 2] f0"

text \<open>The loop \<open>for (i=1,j=1; i<N-1; i+=2,j++)\<close> over the pairs of a half-complex vector, and what
  follows it with the final \<open>i\<close> and \<open>j\<close>.\<close>

function ps_loop :: "fval list \<Rightarrow> nat \<Rightarrow> nat \<Rightarrow> nat \<Rightarrow> fval list \<Rightarrow> fval list" where
  "ps_loop X N i j ps =
     (if i + 1 < N
      then ps_loop X N (i + 2) (j + 1) (ps[j := fadd32 (fmul32 (X ! i) (X ! i)) (fmul32 (X ! (i + 1)) (X ! (i + 1)))])
      else ps[j := fmul32 (X ! i) (X ! i)])"
  by pat_completeness auto
termination by (relation "measure (\<lambda>(X, N, i, j, ps). N - i)") auto

definition power_spectrum :: "fval list \<Rightarrow> fval list \<Rightarrow> nat \<Rightarrow> fval list" where
  "power_spectrum X ps N = ps_loop X N 1 1 (ps[0 := fmul32 (X ! 0) (X ! 0)])"

function psa_loop :: "fval list \<Rightarrow> nat \<Rightarrow> nat \<Rightarrow> nat \<Rightarrow> fval list \<Rightarrow> fval list" where
  "psa_loop X N i j ps =
     (if i + 1 < N
      then psa_loop X N (i + 2) (j + 1)
             (ps[j := fadd32 (ps ! j) (fadd32 (fmul32 (X ! i) (X ! i)) (fmul32 (X ! (i + 1)) (X ! (i + 1))))])
      else ps[j := fadd32 (ps ! j) (fmul32 (X ! i) (X ! i))])"
  by pat_completeness auto
termination by (relation "measure (\<lambda>(X, N, i, j, ps). N - i)") auto

definition power_spectrum_accum :: "fval list \<Rightarrow> fval list \<Rightarrow> nat \<Rightarrow> fval list" where
  "power_spectrum_accum X ps N = psa_loop X N 1 1 (ps[0 := fadd32 (ps ! 0) (fmul32 (X ! 0) (X ! 0))])"

function sma_loop :: "fval list \<Rightarrow> fval list \<Rightarrow> nat \<Rightarrow> nat \<Rightarrow> fval list \<Rightarrow> fval list" where
  "sma_loop X Y N i acc =
     (if i + 1 < N
      then let a = fsub32 (fmul32 (X ! i) (Y ! i)) (fmul32 (X ! (i + 1)) (Y ! (i + 1)));
               b = fadd32 (fmul32 (X ! (i + 1)) (Y ! i)) (fmul32 (X ! i) (Y ! (i + 1)))
           in sma_loop X Y N (i + 2) (acc[i := fadd32 (acc ! i) a, i + 1 := fadd32 (acc ! (i + 1)) b])
      else acc[i := fadd32 (acc ! i) (fmul32 (X ! i) (Y ! i))])"
  by pat_completeness auto
termination by (relation "measure (\<lambda>(X, Y, N, i, acc). N - i)") (auto simp: Let_def)

definition spectral_mul_accum :: "fval list \<Rightarrow> fval list \<Rightarrow> fval list \<Rightarrow> nat \<Rightarrow> nat \<Rightarrow> fval list" where
  "spectral_mul_accum X Y acc N M =
     fold (\<lambda>j acc. let Xj = drop (j * N) X; Yj = drop (j * N) Y
              in sma_loop Xj Yj N 1 (acc[0 := fadd32 (acc ! 0) (fmul32 (Xj ! 0) (Yj ! 0))]))
       [0..<M] (fill N f0 acc)"

function wsmc_loop :: "fval list \<Rightarrow> fval \<Rightarrow> fval list \<Rightarrow> fval list \<Rightarrow> nat \<Rightarrow> nat \<Rightarrow> nat \<Rightarrow> fval list \<Rightarrow> fval list" where
  "wsmc_loop w p X Y N i j pr =
     (let W = fmul32 p (w ! j)
      in if i + 1 < N
         then wsmc_loop w p X Y N (i + 2) (j + 1)
                (pr[i := fmul32 W (fadd32 (fmul32 (X ! i) (Y ! i)) (fmul32 (X ! (i + 1)) (Y ! (i + 1)))),
                      i + 1 := fmul32 W (fadd32 (fmul32 (fneg (X ! (i + 1))) (Y ! i)) (fmul32 (X ! i) (Y ! (i + 1))))])
         else pr[i := fmul32 W (fmul32 (X ! i) (Y ! i))])"
  by pat_completeness auto
termination by (relation "measure (\<lambda>(w, p, X, Y, N, i, j, pr). N - i)") (auto simp: Let_def)

definition weighted_spectral_mul_conj :: "fval list \<Rightarrow> fval \<Rightarrow> fval list \<Rightarrow> fval list \<Rightarrow> fval list \<Rightarrow> nat \<Rightarrow> fval list" where
  "weighted_spectral_mul_conj w p X Y pr N =
     wsmc_loop w p X Y N 1 1 (pr[0 := fmul32 (fmul32 p (w ! 0)) (fmul32 (X ! 0) (Y ! 0))])"

declare ps_loop.simps [simp del] psa_loop.simps [simp del] sma_loop.simps [simp del] wsmc_loop.simps [simp del]

definition mdf_adjust_prop :: "spx_env \<Rightarrow> fval list \<Rightarrow> nat \<Rightarrow> nat \<Rightarrow> nat \<Rightarrow> fval list \<Rightarrow> fval list" where
  "mdf_adjust_prop env W N M P prop =
     (let (prop1, max_sum) = fold (\<lambda>i (prop, max_sum).
            let tmp = fold (\<lambda>p tmp. fold (\<lambda>j tmp.
                        let w = W ! (p * N * M + i * N + j) in fadd32 tmp (fmul32 w w)) [0..<N] tmp) [0..<P] f1;
                v = to_f32 (m_sqrt env (to_f64 tmp))
            in (prop[i := v], if flt max_sum v then v else max_sum)) [0..<M] (prop, f1);
          (prop2, prop_sum) = fold (\<lambda>i (prop, sum).
            let v = fadd32 (prop ! i) (fmul32 (lit32 (1 / 10)) max_sum) in (prop[i := v], fadd32 sum v)) [0..<M] (prop1, f1)
      in fold (\<lambda>i prop. prop[i := fdiv32 (fmul32 (lit32 (99 / 100)) (prop ! i)) prop_sum]) [0..<M] prop2)"

section \<open>Initialisation, reset, control\<close>

definition set_rate :: "int \<Rightarrow> SpeexEchoState \<Rightarrow> SpeexEchoState" where
  "set_rate rate st =
     (let fs = nat32 (es_frame_size st); r = fofint binary32 rate
      in st\<lparr>es_sampling_rate := rate,
            es_spec_average := fdiv32 fs r,
            es_beta0 := fdiv32 (fmul32 (FNum False 2) fs) r,
            es_beta_max := fdiv32 (fmul32 (FNum False (1 / 2)) fs) r\<rparr>)"

definition set_notch :: "SpeexEchoState \<Rightarrow> SpeexEchoState" where
  "set_notch st = st\<lparr>es_notch_radius :=
     (if es_sampling_rate st < 12000 then to_f32 (lit64 (9 / 10))
      else if es_sampling_rate st < 24000 then to_f32 (lit64 (982 / 1000))
      else to_f32 (lit64 (992 / 1000)))\<rparr>"

abbreviation (input) M_PI :: fval where "M_PI \<equiv> lit64 (314159265358979323846 / 100000000000000000000)"

definition echo_window :: "spx_env \<Rightarrow> nat \<Rightarrow> fval list" where
  "echo_window env N = map (\<lambda>i. to_f32 (fsub64 (lit64 (1 / 2)) (fmul64 (lit64 (1 / 2))
     (m_cos env (fdiv64 (fmul64 (fmul64 (FNum False 2) M_PI) (nat64 i)) (nat64 N)))))) [0..<N]"

definition echo_prop :: "spx_env \<Rightarrow> nat \<Rightarrow> fval list \<Rightarrow> fval list" where
  "echo_prop env M prop =
     (let decay = to_f32 (m_exp env (to_f64 (fneg (fdiv32 (to_f32 (lit64 (24 / 10))) (nat32 M)))));
          p0 = to_f32 (lit64 (7 / 10));
          (prop, sum) = fold (\<lambda>i (prop, sum). let v = fmul32 (prop ! (i - 1)) decay in (prop[i := v], fadd32 sum v))
             [1..<M] (prop[0 := p0], p0)
      in map (\<lambda>v. fdiv32 (fmul32 (lit32 (8 / 10)) v) sum) prop)"

text \<open>The sizes are products of \<open>int\<close>s. Without a filter block (\<open>M\<close> is 0) the code writes \<open>prop[0]\<close> into an
  empty array: the model stops there, as it does when a size does not fit.\<close>

definition speex_echo_state_init_mc :: "spx_env \<Rightarrow> nat \<Rightarrow> nat \<Rightarrow> nat \<Rightarrow> nat \<Rightarrow> SpeexEchoState option" where
  "speex_echo_state_init_mc env frame_size filter_length nb_mic nb_speakers =
     (let C = nb_mic; K = nb_speakers; N = 2 * frame_size; M = (filter_length + frame_size - 1) div frame_size
      in if M = 0 \<or> 2 ^ 31 \<le> filter_length + frame_size then None else do {
        fft_table \<leftarrow> spx_fft_init env N;
        e \<leftarrow> speex_alloc [C, N] 4 f0;
        x \<leftarrow> speex_alloc [K, N] 4 f0;
        input \<leftarrow> speex_alloc [C, frame_size] 4 f0;
        y \<leftarrow> speex_alloc [C, N] 4 f0;
        last_y \<leftarrow> speex_alloc [C, N] 4 f0;
        Yf \<leftarrow> speex_alloc [frame_size + 1] 4 f0;
        Rf \<leftarrow> speex_alloc [frame_size + 1] 4 f0;
        Xf \<leftarrow> speex_alloc [frame_size + 1] 4 f0;
        Yh \<leftarrow> speex_alloc [frame_size + 1] 4 f0;
        Eh \<leftarrow> speex_alloc [frame_size + 1] 4 f0;
        X \<leftarrow> speex_alloc [K, M + 1, N] 4 f0;
        Y \<leftarrow> speex_alloc [C, N] 4 f0;
        E \<leftarrow> speex_alloc [C, N] 4 f0;
        W \<leftarrow> speex_alloc [C, K, M, N] 4 f0;
        foreground \<leftarrow> speex_alloc [M, N, C, K] 4 f0;
        PHI \<leftarrow> speex_alloc [N] 4 f0;
        power \<leftarrow> speex_alloc [frame_size + 1] 4 f0;
        power_1 \<leftarrow> speex_alloc [frame_size + 1] 4 f0;
        window \<leftarrow> speex_alloc [N] 4 f0;
        prop \<leftarrow> speex_alloc [M] 4 f0;
        wtmp \<leftarrow> speex_alloc [N] 4 f0;
        memX \<leftarrow> speex_alloc [K] 4 f0;
        memD \<leftarrow> speex_alloc [C] 4 f0;
        memE \<leftarrow> speex_alloc [C] 4 f0;
        notch_mem \<leftarrow> speex_alloc [2, C] 4 f0;
        play_buf \<leftarrow> speex_alloc [K, PLAYBACK_DELAY + 1, frame_size] 2 0;
        Some (set_notch (set_rate 8000
        \<lparr>es_frame_size = frame_size, es_window_size = N, es_M = M, es_cancel_count = 0, es_adapted = False, es_saturated = 0,
         es_screwed_up = 0, es_C = C, es_K = K, es_sampling_rate = 8000, es_spec_average = f0, es_beta0 = f0, es_beta_max = f0,
         es_sum_adapt = f0, es_leak_estimate = f0, es_e = e, es_x = x, es_X = X, es_input = input, es_y = y,
         es_last_y = last_y, es_Y = Y, es_E = E, es_PHI = PHI, es_W = fill (N * M * K * C) f0 W, es_foreground = foreground,
         es_Davg1 = f0, es_Davg2 = f0, es_Dvar1 = f0, es_Dvar2 = f0, es_power = power, es_power_1 = fill (frame_size + 1) f1 power_1,
         es_wtmp = wtmp, es_Rf = Rf, es_Yf = Yf, es_Xf = Xf, es_Eh = Eh, es_Yh = Yh, es_Pey = f1, es_Pyy = f1,
         es_window = splice 0 (echo_window env N) window, es_prop = echo_prop env M prop, es_fft_table = fft_table,
         es_memX = memX, es_memD = memD, es_memE = memE, es_preemph = to_f32 (lit64 (9 / 10)), es_notch_radius = f0,
         es_notch_mem = notch_mem, es_play_buf = play_buf, es_play_buf_pos = PLAYBACK_DELAY * frame_size,
         es_play_buf_started = False\<rparr>))
      })"

definition speex_echo_state_init :: "spx_env \<Rightarrow> nat \<Rightarrow> nat \<Rightarrow> SpeexEchoState option" where
  "speex_echo_state_init env frame_size filter_length = speex_echo_state_init_mc env frame_size filter_length 1 1"

definition speex_echo_state_reset :: "SpeexEchoState \<Rightarrow> SpeexEchoState" where
  "speex_echo_state_reset st =
     (let N = es_window_size st; M = es_M st; C = es_C st; K = es_K st; n = es_frame_size st
      in st\<lparr>es_cancel_count := 0, es_screwed_up := 0,
            es_W := fill (N * M) f0 (es_W st), es_foreground := fill (N * M) f0 (es_foreground st),
            es_X := fill (N * (M + 1)) f0 (es_X st),
            es_power := fill (n + 1) f0 (es_power st), es_power_1 := fill (n + 1) f1 (es_power_1 st),
            es_Eh := fill (n + 1) f0 (es_Eh st), es_Yh := fill (n + 1) f0 (es_Yh st),
            es_last_y := fill n f0 (es_last_y st), es_E := fill (N * C) f0 (es_E st), es_x := fill (N * K) f0 (es_x st),
            es_notch_mem := fill (2 * C) f0 (es_notch_mem st), es_memD := fill C f0 (es_memD st),
            es_memE := fill C f0 (es_memE st), es_memX := fill K f0 (es_memX st),
            es_saturated := 0, es_adapted := False, es_sum_adapt := f0, es_Pey := f1, es_Pyy := f1,
            es_Davg1 := f0, es_Davg2 := f0, es_Dvar1 := f0, es_Dvar2 := f0,
            es_play_buf := fill (3 * n) 0 (es_play_buf st), es_play_buf_pos := PLAYBACK_DELAY * n,
            es_play_buf_started := False\<rparr>)"

section \<open>One frame of cancellation\<close>

text \<open>Reading a stretch of an array through a pointer into it; counting loops.\<close>

definition seg :: "nat \<Rightarrow> nat \<Rightarrow> 'a list \<Rightarrow> 'a list" where
  "seg k n a = take n (drop k a)"

abbreviation (input) for_state :: "nat \<Rightarrow> (nat \<Rightarrow> 'a \<Rightarrow> 'a) \<Rightarrow> 'a \<Rightarrow> 'a" where
  "for_state n f s \<equiv> fold f [0..<n] s"

abbreviation (input) down_state :: "nat \<Rightarrow> (nat \<Rightarrow> 'a \<Rightarrow> 'a) \<Rightarrow> 'a \<Rightarrow> 'a" where
  "down_state n f s \<equiv> fold f (rev [0..<n]) s"

subsection \<open>Microphone and far-end input\<close>

definition echo_preemph :: "nat \<Rightarrow> nat \<Rightarrow> SpeexEchoState \<Rightarrow> SpeexEchoState" where
  "echo_preemph chan i st =
     (let k = chan * es_frame_size st + i;
          v = es_input st ! k;
          tmp32 = fsub32 v (fmul32 (es_preemph st) (es_memD st ! chan))
      in st\<lparr>es_memD := (es_memD st)[chan := v], es_input := (es_input st)[k := tmp32]\<rparr>)"

definition echo_mic_input :: "s16 list \<Rightarrow> nat \<Rightarrow> SpeexEchoState \<Rightarrow> SpeexEchoState" where
  "echo_mic_input inp chan st =
     (let n = es_frame_size st;
          (out, m0, m1) = filter_dc_notch16 (drop chan inp) (es_notch_radius st) n
             (es_notch_mem st ! (2 * chan), es_notch_mem st ! (2 * chan + 1)) (es_C st);
          st = st\<lparr>es_input := splice (chan * n) out (es_input st),
                  es_notch_mem := (es_notch_mem st)[2 * chan := m0, 2 * chan + 1 := m1]\<rparr>
      in for_state n (echo_preemph chan) st)"

definition echo_far_sample :: "s16 list \<Rightarrow> nat \<Rightarrow> nat \<Rightarrow> SpeexEchoState \<Rightarrow> SpeexEchoState" where
  "echo_far_sample far_end speak i st =
     (let n = es_frame_size st; k = speak * es_window_size st + i;
          x = (es_x st)[k := es_x st ! (k + n)];
          f = fofint binary32 (sint (far_end ! (i * es_K st + speak)));
          tmp32 = fsub32 f (fmul32 (es_preemph st) (es_memX st ! speak))
      in st\<lparr>es_x := x[k + n := tmp32], es_memX := (es_memX st)[speak := f]\<rparr>)"

definition echo_far_input :: "s16 list \<Rightarrow> SpeexEchoState \<Rightarrow> SpeexEchoState" where
  "echo_far_input far_end st =
     for_state (es_K st) (\<lambda>speak st. for_state (es_frame_size st) (echo_far_sample far_end speak) st) st"

text \<open>Shift the spectra of one loudspeaker by a frame and transform the new one.\<close>

definition echo_far_spectrum :: "spx_env \<Rightarrow> nat \<Rightarrow> SpeexEchoState \<Rightarrow> SpeexEchoState" where
  "echo_far_spectrum env speak st =
     (let N = es_window_size st; K = es_K st;
          X = down_state (es_M st) (\<lambda>j X. for_state N (\<lambda>i X.
                X[(j + 1) * N * K + speak * N + i := X ! (j * N * K + speak * N + i)]) X) (es_X st);
          (Xs, fft_table) = spx_fft env (es_fft_table st) (drop (speak * N) (es_x st)) (seg (speak * N) N X)
      in st\<lparr>es_X := splice (speak * N) Xs X, es_fft_table := fft_table\<rparr>)"

text \<open>The energy of the newest far-end frames and their power spectra; the code runs this loop
  twice, adding to the same sum.\<close>

definition echo_far_power :: "fval \<Rightarrow> SpeexEchoState \<Rightarrow> fval \<times> SpeexEchoState" where
  "echo_far_power Sxx st =
     for_state (es_K st) (\<lambda>speak (Sxx, st).
       let N = es_window_size st; n = es_frame_size st; x = drop (speak * N + n) (es_x st)
       in (fadd32 Sxx (mdf_inner_prod x x n),
           st\<lparr>es_Xf := power_spectrum_accum (drop (speak * N) (es_X st)) (es_Xf st) N\<rparr>)) (Sxx, st)"

subsection \<open>Foreground filter\<close>

text \<open>\<open>spectral_mul_accum\<close> and \<open>spx_ifft\<close> into the segments of two arrays: the response of a
  filter \<open>w\<close> for one microphone.\<close>

definition echo_response :: "spx_env \<Rightarrow> SpeexEchoState \<Rightarrow> fval list \<Rightarrow> nat \<Rightarrow> fval list \<Rightarrow> fval list \<times> fval list \<times> drft_lookup" where
  "echo_response env st w chan dst =
     (let N = es_window_size st; M = es_M st; K = es_K st;
          Yc = spectral_mul_accum (es_X st) (drop (chan * N * K * M) w) (seg (chan * N) N (es_Y st)) N (M * K);
          (ys, fft_table) = spx_ifft env (es_fft_table st) Yc (seg (chan * N) N dst)
      in (splice (chan * N) Yc (es_Y st), splice (chan * N) ys dst, fft_table))"

definition echo_foreground :: "spx_env \<Rightarrow> SpeexEchoState \<Rightarrow> fval \<times> SpeexEchoState" where
  "echo_foreground env st =
     for_state (es_C st) (\<lambda>chan (Sff, st).
       let N = es_window_size st; n = es_frame_size st;
           (Y, e0, fft_table) = echo_response env st (es_foreground st) chan (es_e st);
           e = for_state n (\<lambda>i e. e[chan * N + i := fsub32 (es_input st ! (chan * n + i)) (e ! (chan * N + i + n))]) e0
       in (fadd32 Sff (mdf_inner_prod (drop (chan * N) e) (drop (chan * N) e) n), st\<lparr>es_Y := Y, es_e := e, es_fft_table := fft_table\<rparr>)) (f0, st)"

subsection \<open>Weight update\<close>

definition echo_gradient_block :: "nat \<Rightarrow> nat \<Rightarrow> nat \<Rightarrow> SpeexEchoState \<Rightarrow> SpeexEchoState" where
  "echo_gradient_block chan speak j st =
     (let N = es_window_size st; M = es_M st; K = es_K st;
          PHI = weighted_spectral_mul_conj (es_power_1 st) (es_prop st ! j) (drop ((j + 1) * N * K + speak * N) (es_X st))
                  (drop (chan * N) (es_E st)) (es_PHI st) N;
          o' = chan * N * K * M + j * N * K + speak * N
      in st\<lparr>es_PHI := PHI, es_W := for_state N (\<lambda>i W. W[o' + i := fadd32 (W ! (o' + i)) (PHI ! i)]) (es_W st)\<rparr>)"

definition echo_gradient :: "SpeexEchoState \<Rightarrow> SpeexEchoState" where
  "echo_gradient st =
     (if es_saturated st = 0
      then for_state (es_C st) (\<lambda>chan st. for_state (es_K st) (\<lambda>speak st.
             down_state (es_M st) (echo_gradient_block chan speak) st) st) st
      else st\<lparr>es_saturated := es_saturated st - 1\<rparr>)"

text \<open>The blocks that the alternating update constrains in the frame numbered \<open>cancel_count\<close>.\<close>

definition aumdf_selects :: "int \<Rightarrow> nat \<Rightarrow> nat \<Rightarrow> bool" where
  "aumdf_selects cancel_count M j \<longleftrightarrow> j = 0 \<or> cancel_count mod (int M - 1) = int j - 1"

definition echo_constrain_block :: "spx_env \<Rightarrow> nat \<Rightarrow> nat \<Rightarrow> nat \<Rightarrow> SpeexEchoState \<Rightarrow> SpeexEchoState" where
  "echo_constrain_block env chan speak j st =
     (if aumdf_selects (es_cancel_count st) (es_M st) j
      then let N = es_window_size st; M = es_M st; K = es_K st; n = es_frame_size st;
               o' = chan * N * K * M + j * N * K + speak * N;
               (wtmp, fft_table) = spx_ifft env (es_fft_table st) (drop o' (es_W st)) (es_wtmp st);
               wtmp = fold (\<lambda>i w. w[i := f0]) [n..<N] wtmp;
               (Ws, fft_table) = spx_fft env fft_table wtmp (seg o' N (es_W st))
           in st\<lparr>es_wtmp := wtmp, es_W := splice o' Ws (es_W st), es_fft_table := fft_table\<rparr>
      else st)"

definition echo_constrain :: "spx_env \<Rightarrow> SpeexEchoState \<Rightarrow> SpeexEchoState" where
  "echo_constrain env st =
     for_state (es_C st) (\<lambda>chan st. for_state (es_K st) (\<lambda>speak st.
       for_state (es_M st) (echo_constrain_block env chan speak) st) st) st"

definition echo_clear_spectra :: "SpeexEchoState \<Rightarrow> SpeexEchoState" where
  "echo_clear_spectra st =
     (let k = es_frame_size st + 1
      in st\<lparr>es_Rf := fill k f0 (es_Rf st), es_Yf := fill k f0 (es_Yf st), es_Xf := fill k f0 (es_Xf st)\<rparr>)"

subsection \<open>Background filter and the two-path logic\<close>

text \<open>The differences between two stretches of \<open>n\<close> samples, stored at the start of the error
  buffer of a channel.\<close>

definition echo_background :: "spx_env \<Rightarrow> SpeexEchoState \<Rightarrow> fval \<times> fval \<times> SpeexEchoState" where
  "echo_background env st =
     for_state (es_C st) (\<lambda>chan (Dbf, See, st).
       let N = es_window_size st; n = es_frame_size st; k = chan * N;
           (Y, y, fft_table) = echo_response env st (es_W st) chan (es_y st);
           e1 = for_state n (\<lambda>i e. e[k + i := fsub32 (e ! (k + i + n)) (y ! (k + i + n))]) (es_e st);
           Dbf = fadd32 Dbf (fadd32 (nat32 10) (mdf_inner_prod (drop k e1) (drop k e1) n));
           e2 = for_state n (\<lambda>i e. e[k + i := fsub32 (es_input st ! (chan * n + i)) (y ! (k + i + n))]) e1;
           See = fadd32 See (mdf_inner_prod (drop k e2) (drop k e2) n)
       in (Dbf, See, st\<lparr>es_Y := Y, es_y := y, es_e := e2, es_fft_table := fft_table\<rparr>)) (f0, f0, st)"

definition ABS32 :: "fval \<Rightarrow> fval" where
  "ABS32 x = (if flt x f0 then fneg x else x)"

definition echo_averages :: "fval \<Rightarrow> fval \<Rightarrow> fval \<Rightarrow> SpeexEchoState \<Rightarrow> SpeexEchoState" where
  "echo_averages Sff See Dbf st =
     (let d = fsub32 Sff See; c4 = lit32 (4 / 10); c15 = lit32 (15 / 100)
      in st\<lparr>es_Davg1 := fadd32 (fmul32 (lit32 (6 / 10)) (es_Davg1 st)) (fmul32 c4 d),
            es_Davg2 := fadd32 (fmul32 (lit32 (85 / 100)) (es_Davg2 st)) (fmul32 c15 d),
            es_Dvar1 := fadd32 (fmul32 (lit32 (36 / 100)) (es_Dvar1 st)) (fmul32 (fmul32 c4 Sff) (fmul32 c4 Dbf)),
            es_Dvar2 := fadd32 (fmul32 (lit32 (7225 / 10000)) (es_Dvar2 st)) (fmul32 (fmul32 c15 Sff) (fmul32 c15 Dbf))\<rparr>)"

definition update_foreground :: "fval \<Rightarrow> fval \<Rightarrow> fval \<Rightarrow> SpeexEchoState \<Rightarrow> bool" where
  "update_foreground Sff See Dbf st \<longleftrightarrow>
     (let d = fsub32 Sff See
      in flt (fmul32 Sff Dbf) (fmul32 d (ABS32 d))
       \<or> flt (fmul32 (FNum False (1 / 2)) (es_Dvar1 st)) (fmul32 (es_Davg1 st) (ABS32 (es_Davg1 st)))
       \<or> flt (fmul32 (FNum False (1 / 4)) (es_Dvar2 st)) (fmul32 (es_Davg2 st) (ABS32 (es_Davg2 st))))"

definition reset_background :: "fval \<Rightarrow> fval \<Rightarrow> fval \<Rightarrow> SpeexEchoState \<Rightarrow> bool" where
  "reset_background Sff See Dbf st \<longleftrightarrow>
     (let d = fsub32 Sff See; c = FNum False 4
      in flt (fmul32 c (fmul32 Sff Dbf)) (fmul32 (fneg d) (ABS32 d))
       \<or> flt (fmul32 c (es_Dvar1 st)) (fmul32 (fneg (es_Davg1 st)) (ABS32 (es_Davg1 st)))
       \<or> flt (fmul32 c (es_Dvar2 st)) (fmul32 (fneg (es_Davg2 st)) (ABS32 (es_Davg2 st))))"

text \<open>The loops that copy one filter to the other.\<close>

definition copy_weights :: "nat \<Rightarrow> fval list \<Rightarrow> fval list \<Rightarrow> fval list" where
  "copy_weights n src dst = fold (\<lambda>i d. d[i := src ! i]) [0..<n] dst"

definition echo_clear_averages :: "SpeexEchoState \<Rightarrow> SpeexEchoState" where
  "echo_clear_averages st = st\<lparr>es_Davg1 := f0, es_Davg2 := f0, es_Dvar1 := f0, es_Dvar2 := f0\<rparr>"

definition echo_promote :: "SpeexEchoState \<Rightarrow> SpeexEchoState" where
  "echo_promote st =
     (let N = es_window_size st; n = es_frame_size st;
          e = for_state (es_C st) (\<lambda>chan e. for_state n (\<lambda>i e. let k = chan * N + i + n in
                e[k := fadd32 (fmul32 (es_window st ! (i + n)) (e ! k)) (fmul32 (es_window st ! i) (es_y st ! k))]) e) (es_e st)
      in (echo_clear_averages st)\<lparr>es_foreground := copy_weights (N * es_M st * es_C st * es_K st) (es_W st) (es_foreground st), es_e := e\<rparr>)"

definition echo_backtrack_chan :: "nat \<Rightarrow> SpeexEchoState \<Rightarrow> SpeexEchoState" where
  "echo_backtrack_chan chan st =
     (let N = es_window_size st; n = es_frame_size st;
          y = for_state n (\<lambda>i y. y[chan * N + i + n := es_e st ! (chan * N + i + n)]) (es_y st);
          e = for_state n (\<lambda>i e. e[chan * N + i := fsub32 (es_input st ! (chan * n + i)) (y ! (chan * N + i + n))]) (es_e st)
      in st\<lparr>es_y := y, es_e := e\<rparr>)"

definition echo_backtrack :: "SpeexEchoState \<Rightarrow> SpeexEchoState" where
  "echo_backtrack st =
     (let W = copy_weights (es_window_size st * es_M st * es_C st * es_K st) (es_foreground st) (es_W st)
      in echo_clear_averages (for_state (es_C st) echo_backtrack_chan (st\<lparr>es_W := W\<rparr>)))"

definition echo_two_path :: "fval \<Rightarrow> fval \<Rightarrow> fval \<Rightarrow> SpeexEchoState \<Rightarrow> fval \<times> SpeexEchoState" where
  "echo_two_path Sff See Dbf st =
     (let st = echo_averages Sff See Dbf st
      in if update_foreground Sff See Dbf st then (See, echo_promote st)
         else if reset_background Sff See Dbf st then (Sff, echo_backtrack st)
         else (See, st))"

subsection \<open>Output and correlations\<close>

definition echo_out_sample :: "spx_env \<Rightarrow> s16 list \<Rightarrow> nat \<Rightarrow> nat \<Rightarrow> s16 list \<times> SpeexEchoState \<Rightarrow> s16 list \<times> SpeexEchoState" where
  "echo_out_sample env inp chan i = (\<lambda>(out, st).
     let N = es_window_size st; n = es_frame_size st; C = es_C st;
         tmp_out = fsub32 (es_input st ! (chan * n + i)) (es_e st ! (chan * N + i + n));
         tmp_out = fadd32 tmp_out (fmul32 (es_preemph st) (es_memE st ! chan));
         v = sint (inp ! (i * C + chan));
         sat = (if (v \<le> - 32000 \<or> v \<ge> 32000) \<and> es_saturated st = 0 then 1 else es_saturated st)
     in (out[i * C + chan := WORD2INT env tmp_out],
         st\<lparr>es_saturated := sat, es_memE := (es_memE st)[chan := tmp_out]\<rparr>))"

definition echo_output :: "spx_env \<Rightarrow> s16 list \<Rightarrow> nat \<Rightarrow> s16 list \<times> fval \<times> fval \<times> fval \<times> SpeexEchoState \<Rightarrow> s16 list \<times> fval \<times> fval \<times> fval \<times> SpeexEchoState" where
  "echo_output env inp chan = (\<lambda>(out, Sey, Syy, Sdd, st0).
     let N = es_window_size st0; n = es_frame_size st0; k = chan * N;
         (out, st) = for_state n (echo_out_sample env inp chan) (out, st0);
         e = for_state n (\<lambda>i e. e[k + i + n := e ! (k + i), k + i := f0]) (es_e st);
         en = drop (k + n) e; yn = drop (k + n) (es_y st); d = drop (chan * n) (es_input st);
         (Es, fft_table) = spx_fft env (es_fft_table st) (drop k e) (seg k N (es_E st));
         E = splice k Es (es_E st);
         y = for_state n (\<lambda>i y. y[i + k := f0]) (es_y st);
         (Ys, fft_table) = spx_fft env fft_table (drop k y) (seg k N (es_Y st));
         Y = splice k Ys (es_Y st)
     in (out, fadd32 Sey (mdf_inner_prod en yn n), fadd32 Syy (mdf_inner_prod yn yn n), fadd32 Sdd (mdf_inner_prod d d n),
         st\<lparr>es_e := e, es_E := E, es_y := y, es_Y := Y, es_fft_table := fft_table,
            es_Rf := power_spectrum_accum (drop k E) (es_Rf st) N,
            es_Yf := power_spectrum_accum (drop k Y) (es_Yf st) N\<rparr>))"

subsection \<open>Sanity check\<close>

text \<open>The new value of \<open>screwed_up\<close>, and the output, which a failed check silences.\<close>

definition echo_insane :: "nat \<Rightarrow> fval \<Rightarrow> fval \<Rightarrow> fval \<Rightarrow> fval \<Rightarrow> bool" where
  "echo_insane N Syy Sxx See Sff \<longleftrightarrow>
     \<not> (fle f0 Syy \<and> fle f0 Sxx \<and> fle f0 See) \<or>
     \<not> (let lim = fmul64 (nat64 N) (nat64 1000000000) in flt Sff lim \<and> flt Syy lim \<and> flt Sxx lim)"

definition echo_sanity :: "fval \<Rightarrow> fval \<Rightarrow> fval \<Rightarrow> fval \<Rightarrow> fval \<Rightarrow> s16 list \<times> SpeexEchoState \<Rightarrow> s16 list \<times> SpeexEchoState" where
  "echo_sanity Syy Sxx See Sff Sdd = (\<lambda>(out, st).
     let N = es_window_size st
     in if echo_insane N Syy Sxx See Sff
        then (fill (es_frame_size st * es_C st) 0 out, st\<lparr>es_screwed_up := es_screwed_up st + 50\<rparr>)
        else if flt (fadd32 Sdd (fmul32 (nat32 N) (nat32 10000))) Sff
        then (out, st\<lparr>es_screwed_up := es_screwed_up st + 1\<rparr>)
        else (out, st\<lparr>es_screwed_up := 0\<rparr>))"

subsection \<open>Leakage and adaptation rate\<close>

definition echo_smooth_power :: "SpeexEchoState \<Rightarrow> SpeexEchoState" where
  "echo_smooth_power st =
     (let ss = to_f32 (fdiv64 (lit64 (35 / 100)) (nat64 (es_M st))); ss_1 = fsub32 f1 ss
      in st\<lparr>es_power := for_state (es_frame_size st + 1) (\<lambda>j p.
           p[j := fadd32 (fadd32 (fmul32 ss_1 (p ! j)) f1) (fmul32 ss (es_Xf st ! j))]) (es_power st)\<rparr>)"

definition echo_correlate :: "SpeexEchoState \<Rightarrow> fval \<times> fval \<times> SpeexEchoState" where
  "echo_correlate st =
     down_state (es_frame_size st + 1) (\<lambda>j (Pey, Pyy, st).
       let Eh = fsub32 (es_Rf st ! j) (es_Eh st ! j);
           Yh = fsub32 (es_Yf st ! j) (es_Yh st ! j);
           a = es_spec_average st; b = fsub32 f1 a
       in (fadd32 Pey (fmul32 Eh Yh), fadd32 Pyy (fmul32 Yh Yh),
           st\<lparr>es_Eh := (es_Eh st)[j := fadd32 (fmul32 b (es_Eh st ! j)) (fmul32 a (es_Rf st ! j))],
              es_Yh := (es_Yh st)[j := fadd32 (fmul32 b (es_Yh st ! j)) (fmul32 a (es_Yf st ! j))]\<rparr>)) (f1, f1, st)"

definition echo_leak :: "spx_env \<Rightarrow> fval \<Rightarrow> fval \<Rightarrow> fval \<Rightarrow> fval \<Rightarrow> SpeexEchoState \<Rightarrow> SpeexEchoState" where
  "echo_leak env Pey Pyy Syy See st =
     (let Pyy = to_f32 (m_sqrt env Pyy);
          Pey = fdiv32 Pey Pyy;
          bmax = fmul32 (es_beta_max st) See;
          tmp32 = fmul32 (es_beta0 st) Syy;
          tmp32 = (if flt bmax tmp32 then bmax else tmp32);
          alpha = fdiv32 tmp32 See;
          alpha_1 = fsub32 f1 alpha;
          sPey = fadd32 (fmul32 alpha_1 (es_Pey st)) (fmul32 alpha Pey);
          sPyy = fadd32 (fmul32 alpha_1 (es_Pyy st)) (fmul32 alpha Pyy);
          sPyy = (if flt sPyy f1 then f1 else sPyy);
          minPey = fmul32 (lit32 (5 / 1000)) sPyy;
          sPey = (if flt sPey minPey then minPey else sPey);
          sPey = (if flt sPyy sPey then sPyy else sPey);
          leak = fdiv32 sPey sPyy;
          leak = (if flt (nat32 16383) leak then nat32 32767 else leak)
      in st\<lparr>es_Pey := sPey, es_Pyy := sPyy, es_leak_estimate := leak\<rparr>)"

definition echo_RER :: "fval \<Rightarrow> fval \<Rightarrow> fval \<Rightarrow> fval \<Rightarrow> fval \<Rightarrow> fval" where
  "echo_RER leak Sxx Syy See Sey =
     (let RER = to_f32 (fdiv64 (fadd64 (fmul64 (lit64 (1 / 10000)) Sxx) (fmul64 (FNum False 3) (fmul32 leak Syy))) See);
          bound = fdiv32 (fmul32 Sey Sey) (fadd32 f1 (fmul32 See Syy));
          RER = (if flt RER bound then bound else RER)
      in if flt (FNum False (1 / 2)) RER then FNum False (1 / 2) else RER)"

definition echo_rate_adapted :: "fval \<Rightarrow> SpeexEchoState \<Rightarrow> SpeexEchoState" where
  "echo_rate_adapted RER st =
     st\<lparr>es_power_1 := for_state (es_frame_size st + 1) (\<lambda>i p.
       let r = fmul32 (es_leak_estimate st) (es_Yf st ! i);
           e = fadd32 (es_Rf st ! i) f1;
           half_e = fmul64 (FNum False (1 / 2)) e;
           r = (if flt half_e r then to_f32 half_e else r);
           r = to_f32 (fadd64 (fmul64 (lit64 (7 / 10)) r) (fmul64 (lit64 (3 / 10)) (fmul32 RER e)))
       in p[i := fdiv32 r (fmul32 e (fadd32 (es_power st ! i) (nat32 10)))]) (es_power_1 st)\<rparr>"

definition echo_rate_initial :: "fval \<Rightarrow> fval \<Rightarrow> SpeexEchoState \<Rightarrow> SpeexEchoState" where
  "echo_rate_initial Sxx See st =
     (let adapt_rate =
            (if flt (fmul32 (nat32 (es_window_size st)) (nat32 1000)) Sxx
             then let tmp32 = fmul32 (FNum False (1 / 4)) Sxx; q = fmul64 (FNum False (1 / 4)) See;
                      tmp32 = (if flt q tmp32 then to_f32 q else tmp32)
                  in fdiv32 tmp32 See
             else f0)
      in st\<lparr>es_power_1 := for_state (es_frame_size st + 1) (\<lambda>i p.
              p[i := fdiv32 adapt_rate (fadd32 (es_power st ! i) (nat32 10))]) (es_power_1 st),
            es_sum_adapt := fadd32 (es_sum_adapt st) adapt_rate\<rparr>)"

definition echo_last_y :: "s16 list \<Rightarrow> s16 list \<Rightarrow> SpeexEchoState \<Rightarrow> SpeexEchoState" where
  "echo_last_y inp out st =
     (let n = es_frame_size st;
          ly = for_state n (\<lambda>i l. l[i := l ! (n + i)]) (es_last_y st)
      in st\<lparr>es_last_y := (if es_adapted st
           then for_state n (\<lambda>i l. l[n + i := fofint binary32 (sint (inp ! i) - sint (out ! i))]) ly
           else ly)\<rparr>)"

definition echo_adapt :: "spx_env \<Rightarrow> s16 list \<Rightarrow> s16 list \<Rightarrow> fval \<Rightarrow> fval \<Rightarrow> fval \<Rightarrow> fval \<Rightarrow> SpeexEchoState \<Rightarrow> SpeexEchoState" where
  "echo_adapt env inp out Sxx0 Syy See0 Sey st =
     (let floor' = fmul32 (nat32 (es_window_size st)) (nat32 100);
          See = (if flt floor' See0 then See0 else floor');
          (Sxx, st) = echo_far_power Sxx0 st;
          (Pey, Pyy, st) = echo_correlate (echo_smooth_power st);
          st = echo_leak env Pey Pyy Syy See st;
          leak = es_leak_estimate st;
          RER = echo_RER leak Sxx Syy See Sey;
          st = (if \<not> es_adapted st \<and> flt (nat32 (es_M st)) (es_sum_adapt st) \<and>
                   flt (fmul32 (lit32 (3 / 100)) Syy) (fmul32 leak Syy)
                then st\<lparr>es_adapted := True\<rparr> else st);
          st = (if es_adapted st then echo_rate_adapted RER st else echo_rate_initial Sxx See st)
      in echo_last_y inp out st)"

subsection \<open>The whole frame\<close>

definition echo_filter :: "spx_env \<Rightarrow> s16 list \<Rightarrow> s16 list \<Rightarrow> s16 list \<Rightarrow> SpeexEchoState \<Rightarrow>
    (fval \<times> fval \<times> fval \<times> fval \<times> fval \<times> fval) \<times> s16 list \<times> SpeexEchoState" where
  "echo_filter env inp far_end out st =
     (let st = st\<lparr>es_cancel_count := es_cancel_count st + 1\<rparr>;
          st = for_state (es_C st) (echo_mic_input inp) st;
          st = echo_far_input far_end st;
          st = for_state (es_K st) (echo_far_spectrum env) st;
          (Sxx, st) = echo_far_power f0 st;
          (Sff, st) = echo_foreground env st;
          st = (if es_adapted st
                then st\<lparr>es_prop := mdf_adjust_prop env (es_W st) (es_window_size st) (es_M st) (es_C st * es_K st) (es_prop st)\<rparr>
                else st);
          st = echo_clear_spectra (echo_constrain env (echo_gradient st));
          (Dbf, See, st) = echo_background env st;
          (See, st) = echo_two_path Sff See Dbf st;
          (out, Sey, Syy, Sdd, st) = for_state (es_C st) (echo_output env inp) (out, f0, f0, f0, st)
      in ((Sxx, Sff, See, Sey, Syy, Sdd), out, st))"

definition speex_echo_cancellation :: "spx_env \<Rightarrow> s16 list \<Rightarrow> s16 list \<Rightarrow> s16 list \<Rightarrow> SpeexEchoState \<Rightarrow> s16 list \<times> SpeexEchoState" where
  "speex_echo_cancellation env inp far_end out st =
     (let ((Sxx, Sff, See, Sey, Syy, Sdd), out, st) = echo_filter env inp far_end out st;
          (out, st) = echo_sanity Syy Sxx See Sff Sdd (out, st)
      in if es_screwed_up st \<ge> 50 then (out, speex_echo_state_reset st)
         else (out, echo_adapt env inp out Sxx Syy See Sey st))"

definition speex_echo_cancel :: "spx_env \<Rightarrow> s16 list \<Rightarrow> s16 list \<Rightarrow> s16 list \<Rightarrow> SpeexEchoState \<Rightarrow> s16 list \<times> SpeexEchoState" where
  "speex_echo_cancel env inp far_end out st = speex_echo_cancellation env inp far_end out st"

section \<open>Playback buffer\<close>

datatype spx_warning = NoPlaybackFrame | BufferCorruption | DiscardedFirst | AutoFilling | HadToDiscard

text \<open>The result also carries the warnings that the call prints.\<close>

definition speex_echo_capture :: "spx_env \<Rightarrow> s16 list \<Rightarrow> s16 list \<Rightarrow> SpeexEchoState \<Rightarrow> s16 list \<times> spx_warning list \<times> SpeexEchoState" where
  "speex_echo_capture env rec out st =
     (let st = st\<lparr>es_play_buf_started := True\<rparr>; n = es_frame_size st
      in if es_play_buf_pos st \<ge> n
         then let (out, st) = speex_echo_cancellation env rec (es_play_buf st) out st;
                  pos = es_play_buf_pos st - n
              in (out, [], st\<lparr>es_play_buf_pos := pos,
                              es_play_buf := for_state pos (\<lambda>i b. b[i := b ! (i + n)]) (es_play_buf st)\<rparr>)
         else let ws = [NoPlaybackFrame] @ (if es_play_buf_pos st \<noteq> 0 then [BufferCorruption] else [])
              in (for_state n (\<lambda>i out. out[i := rec ! i]) out, ws, st\<lparr>es_play_buf_pos := 0\<rparr>))"

definition speex_echo_playback :: "s16 list \<Rightarrow> SpeexEchoState \<Rightarrow> spx_warning list \<times> SpeexEchoState" where
  "speex_echo_playback play st =
     (let n = es_frame_size st;
          put = (\<lambda>st. st\<lparr>es_play_buf := for_state n (\<lambda>i b. b[es_play_buf_pos st + i := play ! i]) (es_play_buf st),
                        es_play_buf_pos := es_play_buf_pos st + n\<rparr>)
      in if \<not> es_play_buf_started st then ([DiscardedFirst], st)
         else if es_play_buf_pos st \<le> PLAYBACK_DELAY * n
         then let st = put st
              in if es_play_buf_pos st \<le> (PLAYBACK_DELAY - 1) * n then ([AutoFilling], put st) else ([], st)
         else ([HadToDiscard], st))"

section \<open>Residual echo and control\<close>

text \<open>A \<open>float\<close> converted to \<open>spx_int32_t\<close> and back; out of range the conversion is undefined and
  the result is the platform's.\<close>

definition spx_int32_cast :: "spx_env \<Rightarrow> fval \<Rightarrow> int" where
  "spx_int32_cast env x = (case ftoint (- 2147483648) 2147483647 x of Some i \<Rightarrow> i | None \<Rightarrow> env_badcast env x)"

definition speex_echo_get_residual :: "spx_env \<Rightarrow> fval list \<Rightarrow> SpeexEchoState \<Rightarrow> fval list \<times> SpeexEchoState" where
  "speex_echo_get_residual env residual_echo st =
     (let N = es_window_size st;
          y = for_state N (\<lambda>i y. y[i := fmul32 (es_window st ! i) (es_last_y st ! i)]) (es_y st);
          (Y, fft_table) = spx_fft env (es_fft_table st) y (es_Y st);
          res = power_spectrum Y residual_echo N;
          leak2 = (if flt (FNum False (1 / 2)) (es_leak_estimate st) then f1 else fmul32 (FNum False 2) (es_leak_estimate st))
      in (for_state (es_frame_size st + 1) (\<lambda>i r. r[i := fofint binary32 (spx_int32_cast env (fmul32 leak2 (r ! i)))]) res,
          st\<lparr>es_y := y, es_Y := Y, es_fft_table := fft_table\<rparr>))"

datatype echo_request =
    EchoGetFrameSize | EchoSetSamplingRate int | EchoGetSamplingRate
  | EchoGetImpulseResponseSize | EchoGetImpulseResponse | EchoUnknown int

text \<open>The value written through \<open>ptr\<close>, when the request writes one, and the return value.\<close>

definition echo_impulse_response :: "spx_env \<Rightarrow> SpeexEchoState \<Rightarrow> int list \<times> SpeexEchoState" where
  "echo_impulse_response env st =
     fold (\<lambda>j (filt, st).
       let (wtmp, fft_table) = spx_ifft env (es_fft_table st) (drop (j * es_window_size st) (es_W st)) (es_wtmp st)
       in (filt @ map (\<lambda>i. spx_int32_cast env (fmul32 (nat32 32767) (wtmp ! i))) [0..<es_frame_size st], st\<lparr>es_wtmp := wtmp, es_fft_table := fft_table\<rparr>))
       [0..<es_M st] ([], st)"

fun speex_echo_ctl :: "spx_env \<Rightarrow> echo_request \<Rightarrow> SpeexEchoState \<Rightarrow> int \<times> int list \<times> SpeexEchoState" where
  "speex_echo_ctl env EchoGetFrameSize st = (0, [int (es_frame_size st)], st)"
| "speex_echo_ctl env (EchoSetSamplingRate rate) st = (0, [], set_notch (set_rate rate st))"
| "speex_echo_ctl env EchoGetSamplingRate st = (0, [es_sampling_rate st], st)"
| "speex_echo_ctl env EchoGetImpulseResponseSize st = (0, [int (es_M st * es_frame_size st)], st)"
| "speex_echo_ctl env EchoGetImpulseResponse st = (let (filt, st) = echo_impulse_response env st in (0, filt, st))"
| "speex_echo_ctl env (EchoUnknown request) st = (- 1, [], st)"

end
