(* ===== verification/SpxPreproc.thy ===== *)
theory SpxPreproc
  imports SpxEcho
begin

text \<open>
  The filter bank of filterbank.c and the preprocessor of preprocess.c (floating-point build):
  noise suppression, residual echo suppression, automatic gain control and voice detection on
  one frame. The preprocessor holds a pointer to an echo canceller, which other calls change between
  frames: it is an address, and a run takes the store of cancellers and returns it.
\<close>

section \<open>Filter bank\<close>

record FilterBank =
  bank_left :: "int list"
  bank_right :: "int list"
  filter_left :: "fval list"
  filter_right :: "fval list"
  fb_scaling :: "fval list"
  nb_banks :: nat
  fb_len :: nat

definition toBARK :: "spx_env \<Rightarrow> fval \<Rightarrow> fval" where
  "toBARK env n =
     fadd64 (fadd64 (fmul64 (lit32 (131 / 10)) (m_atan env (fmul32 (lit32 (74 / 100000)) n)))
                    (fmul64 (lit32 (224 / 100)) (m_atan env (fmul32 (fmul32 n n) (lit32 (185 / 10000000000))))))
            (fmul32 (lit32 (1 / 10000)) n)"

text \<open>The bands and weights of one frequency.\<close>

definition bank_entry :: "spx_env \<Rightarrow> nat \<Rightarrow> fval \<Rightarrow> fval \<Rightarrow> int \<times> fval" where
  "bank_entry env banks mel_interval mel =
     (let id1 = spx_int32_cast env (ffloor (fdiv32 mel mel_interval))
      in if int banks - 2 < id1 then (int banks - 2, f1)
         else (id1, fdiv32 (fsub32 mel (fmul32 (fofint binary32 id1) mel_interval)) mel_interval))"

definition bank_scaling :: "nat \<Rightarrow> int list \<Rightarrow> int list \<Rightarrow> fval list \<Rightarrow> fval list \<Rightarrow> fval list \<Rightarrow> fval list" where
  "bank_scaling len left right fl fr scaling =
     map (\<lambda>v. fdiv32 f1 v)
       (fold (\<lambda>i sc. let sc = sc[nat (left ! i) := fadd32 (sc ! nat (left ! i)) (fl ! i)]
                     in sc[nat (right ! i) := fadd32 (sc ! nat (right ! i)) (fr ! i)]) [0..<len] scaling)"

text \<open>The loop over the frequencies ends at the first one above the highest band.\<close>

definition bank_fill :: "spx_env \<Rightarrow> nat \<Rightarrow> fval \<Rightarrow> nat \<Rightarrow> int list \<times> int list \<times> fval list \<times> fval list
    \<Rightarrow> int list \<times> int list \<times> fval list \<times> fval list" where
  "bank_fill env banks sampling len arrays =
     (let df = fdiv32 sampling (fmul32 (nat32 2) (nat32 len));
          max_mel = to_f32 (toBARK env (fdiv32 sampling (FNum False 2)));
          mel_interval = fdiv32 max_mel (nat32 (banks - 1));
          mel = (\<lambda>i. to_f32 (toBARK env (fmul32 (nat32 i) df)))
      in fold (\<lambda>i (bl, br, fl, fr).
           let (id1, val) = bank_entry env banks mel_interval (mel i)
           in (bl[i := id1], br[i := id1 + 1], fl[i := fsub32 f1 val], fr[i := val]))
           (takeWhile (\<lambda>i. \<not> flt max_mel (mel i)) [0..<len]) arrays)"

definition filterbank_new :: "spx_env \<Rightarrow> nat \<Rightarrow> fval \<Rightarrow> nat \<Rightarrow> FilterBank option" where
  "filterbank_new env banks sampling len =
     do {
       bl \<leftarrow> speex_alloc [len] 4 0;
       br \<leftarrow> speex_alloc [len] 4 0;
       fl \<leftarrow> speex_alloc [len] 4 f0;
       fr \<leftarrow> speex_alloc [len] 4 f0;
       scaling \<leftarrow> speex_alloc [banks] 4 f0;
       let (bl, br, fl, fr) = bank_fill env banks sampling len (bl, br, fl, fr);
       Some \<lparr>bank_left = bl, bank_right = br, filter_left = fl, filter_right = fr,
         fb_scaling = bank_scaling len bl br fl fr scaling, nb_banks = banks, fb_len = len\<rparr>
     }"

definition filterbank_accum :: "FilterBank \<Rightarrow> fval list \<Rightarrow> fval list \<Rightarrow> fval list" where
  "filterbank_accum bank ps mel =
     fold (\<lambda>i mel. let l = nat (bank_left bank ! i); r = nat (bank_right bank ! i);
                       mel = mel[l := fadd32 (mel ! l) (fmul32 (filter_left bank ! i) (ps ! i))]
                   in mel[r := fadd32 (mel ! r) (fmul32 (filter_right bank ! i) (ps ! i))])
       [0..<fb_len bank] (fill (nb_banks bank) f0 mel)"

definition filterbank_compute_bank32 :: "FilterBank \<Rightarrow> fval list \<Rightarrow> fval list \<Rightarrow> fval list" where
  "filterbank_compute_bank32 bank ps mel = filterbank_accum bank ps mel"

definition filterbank_compute_psd16 :: "FilterBank \<Rightarrow> fval list \<Rightarrow> fval list \<Rightarrow> fval list" where
  "filterbank_compute_psd16 bank mel ps =
     fold (\<lambda>i ps. let tmp = fmul32 (mel ! nat (bank_left bank ! i)) (filter_left bank ! i);
                      tmp = fadd32 tmp (fmul32 (mel ! nat (bank_right bank ! i)) (filter_right bank ! i))
                  in ps[i := tmp]) [0..<fb_len bank] ps"

definition filterbank_compute_bank :: "FilterBank \<Rightarrow> fval list \<Rightarrow> fval list \<Rightarrow> fval list" where
  "filterbank_compute_bank bank ps mel =
     fold (\<lambda>i mel. mel[i := fmul32 (mel ! i) (fb_scaling bank ! i)]) [0..<nb_banks bank] (filterbank_accum bank ps mel)"

definition filterbank_compute_psd :: "FilterBank \<Rightarrow> fval list \<Rightarrow> fval list \<Rightarrow> fval list" where
  "filterbank_compute_psd bank mel ps =
     fold (\<lambda>i ps. let ps = ps[i := fmul32 (mel ! nat (bank_left bank ! i)) (filter_left bank ! i)]
                  in ps[i := fadd32 (ps ! i) (fmul32 (mel ! nat (bank_right bank ! i)) (filter_right bank ! i))]) [0..<fb_len bank] ps"

definition filterbank_psy_smooth :: "FilterBank \<Rightarrow> fval list \<Rightarrow> fval list \<Rightarrow> fval list \<Rightarrow> fval list" where
  "filterbank_psy_smooth bank ps msk bark =
     (let bark = filterbank_compute_bank bank ps bark;
          bark = fold (\<lambda>i b. b[i := fadd32 (b ! i) (fmul32 (lit32 (50119 / 100000)) (b ! (i - 1)))]) [1..<nb_banks bank] bark;
          bark = fold (\<lambda>i b. b[i := fadd32 (b ! i) (fmul32 (lit32 (34145 / 100000)) (b ! (i + 1)))]) (rev [0..<nb_banks bank - 1]) bark
      in filterbank_compute_psd bank bark msk)"

section \<open>Preprocessor state\<close>

abbreviation (input) NB_BANDS :: nat where "NB_BANDS \<equiv> 24"

record SpeexPreprocessState =
  pp_frame_size :: nat
  pp_ps_size :: nat
  pp_sampling_rate :: int
  pp_nbands :: nat
  pp_bank :: FilterBank
  pp_denoise_enabled :: int
  pp_vad_enabled :: int
  pp_dereverb_enabled :: int
  pp_reverb_decay :: fval
  pp_reverb_level :: fval
  pp_speech_prob_start :: fval
  pp_speech_prob_continue :: fval
  pp_noise_suppress :: int
  pp_echo_suppress :: int
  pp_echo_suppress_active :: int
  pp_echo_state :: "nat option"
  pp_speech_prob :: fval
  pp_frame :: "fval list"
  pp_ft :: "fval list"
  pp_ps :: "fval list"
  pp_gain2 :: "fval list"
  pp_gain_floor :: "fval list"
  pp_window :: "fval list"
  pp_noise :: "fval list"
  pp_reverb_estimate :: "fval list"
  pp_old_ps :: "fval list"
  pp_gain :: "fval list"
  pp_prior :: "fval list"
  pp_post :: "fval list"
  pp_S :: "fval list"
  pp_Smin :: "fval list"
  pp_Stmp :: "fval list"
  pp_update_prob :: "bool list"
  pp_zeta :: "fval list"
  pp_echo_noise :: "fval list"
  pp_residual_echo :: "fval list"
  pp_inbuf :: "fval list"
  pp_outbuf :: "fval list"
  pp_agc_enabled :: int
  pp_agc_level :: fval
  pp_loudness_accum :: fval
  pp_loudness_weight :: "fval list"
  pp_loudness :: fval
  pp_agc_gain :: fval
  pp_max_gain :: fval
  pp_max_increase_step :: fval
  pp_max_decrease_step :: fval
  pp_prev_loudness :: fval
  pp_init_max :: fval
  pp_nb_adapt :: int
  pp_was_speech :: bool
  pp_min_count :: int
  pp_fft_lookup :: drft_lookup

section \<open>Gains\<close>

definition spx_cos_norm :: "spx_env \<Rightarrow> fval \<Rightarrow> fval" where
  "spx_cos_norm env x = m_cos env (fmul64 (fmul64 (FNum False (1 / 2)) M_PI) x)"

definition conj_window_at :: "spx_env \<Rightarrow> nat \<Rightarrow> nat \<Rightarrow> fval" where
  "conj_window_at env len i =
     (let x = fdiv32 (fmul32 (FNum False 4) (nat32 i)) (nat32 len);
          (x, inv) = (if flt x f1 then (x, False)
                      else if flt x (FNum False 2) then (fsub32 (FNum False 2) x, True)
                      else if flt x (FNum False 3) then (fsub32 x (FNum False 2), True)
                      else (fadd32 (fsub32 (FNum False 2) x) (FNum False 2), False));
          x = fmul32 (lit32 (1271903 / 1000000)) x;
          h = fsub64 (FNum False (1 / 2)) (fmul64 (FNum False (1 / 2)) (spx_cos_norm env x));
          tmp = to_f32 (fmul64 h h);
          tmp = (if inv then fsub32 f1 tmp else tmp)
      in to_f32 (m_sqrt env tmp))"

definition conj_window :: "spx_env \<Rightarrow> nat \<Rightarrow> fval list \<Rightarrow> fval list" where
  "conj_window env len w = fold (\<lambda>i w. w[i := conj_window_at env len i]) [0..<len] w"

definition hypergeom_table :: "fval list" where
  "hypergeom_table = map (\<lambda>n. lit32 (of_nat n / 100000))
     [82157, 102017, 120461, 137534, 153363, 168092, 181865, 194811, 207038, 218638, 229688, 240255, 250391, 260144,
      269551, 278647, 287458, 296015, 304333, 312431, 320326]"

definition hypergeom_gain :: "spx_env \<Rightarrow> fval \<Rightarrow> fval" where
  "hypergeom_gain env xx =
     (let x = fmul32 f1 xx; x2 = fmul32 (FNum False 2) x; integer = to_f32 (ffloor x2); ind = spx_int32_cast env integer
      in if ind < 0 then f1
         else if 19 < ind then to_f32 (fmul64 f1 (fadd64 f1 (fdiv64 (lit64 (1296 / 10000)) x)))
         else let frac = fsub32 x2 integer;
                  v = fadd32 (fmul32 (fsub32 f1 frac) (hypergeom_table ! nat ind)) (fmul32 frac (hypergeom_table ! (nat ind + 1)))
              in to_f32 (fdiv64 (fmul32 f1 v) (m_sqrt env (fadd32 x (lit32 (1 / 10000))))))"

definition qcurve :: "fval \<Rightarrow> fval" where
  "qcurve x = fdiv32 f1 (fadd32 f1 (fdiv32 (lit32 (15 / 100)) (fmul32 f1 x)))"

definition compute_gain_floor :: "spx_env \<Rightarrow> int \<Rightarrow> int \<Rightarrow> fval list \<Rightarrow> fval list \<Rightarrow> fval list \<Rightarrow> nat \<Rightarrow> fval list" where
  "compute_gain_floor env noise_suppress effective_echo_suppress noise echo gain_floor len =
     (let noise_floor = to_f32 (m_exp env (fmul32 (lit32 (2302585 / 10000000)) (fofint binary32 noise_suppress)));
          echo_floor = to_f32 (m_exp env (fmul32 (lit32 (2302585 / 10000000)) (fofint binary32 effective_echo_suppress)))
      in fold (\<lambda>i g. g[i := to_f32 (fdiv64
            (fmul64 f1 (m_sqrt env (fadd32 (fmul32 noise_floor (noise ! i)) (fmul32 echo_floor (echo ! i)))))
            (m_sqrt env (fadd32 (fadd32 f1 (noise ! i)) (echo ! i))))]) [0..<len] gain_floor)"

section \<open>Initialisation\<close>

definition loudness_weight_at :: "spx_env \<Rightarrow> int \<Rightarrow> nat \<Rightarrow> nat \<Rightarrow> fval" where
  "loudness_weight_at env sampling_rate N i =
     (let ff = to_f32 (fdiv64 (fmul64 (fmul64 (nat32 i) (FNum False (1 / 2))) (fofint binary64 sampling_rate)) (nat32 N));
          d = fsub32 ff (nat32 3800);
          e = m_exp env (fdiv32 (fmul32 (fmul32 (FNum True (1 / 2)) d) d) (nat32 900000));
          a = fsub32 (lit32 (35 / 100)) (fdiv32 (fmul32 (lit32 (35 / 100)) ff) (nat32 16000));
          w = to_f32 (fadd64 a (fmul64 (lit32 (73 / 100)) e));
          w = (if flt w (lit32 (1 / 100)) then lit32 (1 / 100) else w)
      in fmul32 w w)"

definition agc_step :: "spx_env \<Rightarrow> fval \<Rightarrow> fval \<Rightarrow> nat \<Rightarrow> int \<Rightarrow> fval" where
  "agc_step env c rate frame_size sampling_rate =
     to_f32 (m_exp env (fdiv64 (fmul64 (fmul64 c rate) (nat64 frame_size)) (fofint binary64 sampling_rate)))"

text \<open>With \<open>ps_size\<close> equal to \<open>frame_size\<close>, \<open>N3\<close> is \<open>N\<close> and \<open>N4\<close> is 0; the loop for a positive \<open>N4\<close>
  shifts the second half of the window.\<close>

definition pp_window_init :: "spx_env \<Rightarrow> nat \<Rightarrow> nat \<Rightarrow> nat \<Rightarrow> fval list \<Rightarrow> fval list" where
  "pp_window_init env N N3 N4 window =
     (let w = conj_window env (2 * N3) window;
          w = fold (\<lambda>i w. w[i := f1]) [2 * N3..<2 * N] w
      in if 0 < N4 then fold (\<lambda>i w. w[i + N3 + N4 := w ! (i + N3), i + N3 := f1]) (rev [0..<N3]) w else w)"

definition speex_preprocess_state_init :: "spx_env \<Rightarrow> nat \<Rightarrow> int \<Rightarrow> SpeexPreprocessState option" where
  "speex_preprocess_state_init env frame_size sampling_rate =
     (let N = frame_size; N3 = 2 * N - frame_size; N4 = frame_size - N3; M = NB_BANDS
      in do {
        bank \<leftarrow> filterbank_new env M (fofint binary32 sampling_rate) N;
        frame \<leftarrow> speex_alloc [2, N] 4 f0;
        window \<leftarrow> speex_alloc [2, N] 4 f0;
        ft \<leftarrow> speex_alloc [2, N] 4 f0;
        ps \<leftarrow> speex_alloc [N + M] 4 f0;
        noise \<leftarrow> speex_alloc [N + M] 4 f0;
        echo_noise \<leftarrow> speex_alloc [N + M] 4 f0;
        residual_echo \<leftarrow> speex_alloc [N + M] 4 f0;
        reverb_estimate \<leftarrow> speex_alloc [N + M] 4 f0;
        old_ps \<leftarrow> speex_alloc [N + M] 4 f0;
        prior \<leftarrow> speex_alloc [N + M] 4 f0;
        post \<leftarrow> speex_alloc [N + M] 4 f0;
        gain \<leftarrow> speex_alloc [N + M] 4 f0;
        gain2 \<leftarrow> speex_alloc [N + M] 4 f0;
        gain_floor \<leftarrow> speex_alloc [N + M] 4 f0;
        zeta \<leftarrow> speex_alloc [N + M] 4 f0;
        S \<leftarrow> speex_alloc [N] 4 f0;
        Smin \<leftarrow> speex_alloc [N] 4 f0;
        Stmp \<leftarrow> speex_alloc [N] 4 f0;
        update_prob \<leftarrow> speex_alloc [N] 4 False;
        inbuf \<leftarrow> speex_alloc [N3] 4 f0;
        outbuf \<leftarrow> speex_alloc [N3] 4 f0;
        loudness_weight \<leftarrow> speex_alloc [N] 4 f0;
        fft_lookup \<leftarrow> spx_fft_init env (2 * N);
        Some
        \<lparr>pp_frame_size = frame_size, pp_ps_size = N, pp_sampling_rate = sampling_rate, pp_nbands = M,
         pp_bank = bank, pp_denoise_enabled = 1, pp_vad_enabled = 0,
         pp_dereverb_enabled = 0, pp_reverb_decay = f0, pp_reverb_level = f0, pp_speech_prob_start = lit32 (35 / 100),
         pp_speech_prob_continue = lit32 (20 / 100), pp_noise_suppress = - 15, pp_echo_suppress = - 40,
         pp_echo_suppress_active = - 15, pp_echo_state = None, pp_speech_prob = f0, pp_frame = frame,
         pp_ft = ft, pp_ps = ps, pp_gain2 = gain2, pp_gain_floor = gain_floor,
         pp_window = pp_window_init env N N3 N4 window, pp_noise = fill (N + M) f1 noise,
         pp_reverb_estimate = fill (N + M) f0 reverb_estimate, pp_old_ps = fill (N + M) f1 old_ps,
         pp_gain = fill (N + M) f1 gain, pp_prior = fill (N + M) f1 prior, pp_post = fill (N + M) f1 post,
         pp_S = S, pp_Smin = Smin, pp_Stmp = Stmp, pp_update_prob = fill N True update_prob,
         pp_zeta = zeta, pp_echo_noise = echo_noise, pp_residual_echo = residual_echo,
         pp_inbuf = fill N3 f0 inbuf, pp_outbuf = fill N3 f0 outbuf, pp_agc_enabled = 0, pp_agc_level = nat32 8000,
         pp_loudness_accum = f0, pp_loudness_weight = splice 0 (map (loudness_weight_at env sampling_rate N) [0..<N]) loudness_weight,
         pp_loudness = to_f32 (lit64 (1 / 1000000000000000)), pp_agc_gain = f1, pp_max_gain = nat32 30,
         pp_max_increase_step = agc_step env (lit32 (11513 / 100000)) (nat64 12) frame_size sampling_rate,
         pp_max_decrease_step = agc_step env (fneg (lit32 (11513 / 100000))) (nat64 40) frame_size sampling_rate,
         pp_prev_loudness = f1, pp_init_max = f1, pp_nb_adapt = 0, pp_was_speech = False, pp_min_count = 0,
         pp_fft_lookup = fft_lookup\<rparr>
      })"

section \<open>One frame\<close>

subsection \<open>Automatic gain control\<close>

definition agc_loudness :: "SpeexPreprocessState \<Rightarrow> fval" where
  "agc_loudness st =
     fold (\<lambda>i l. fadd32 l (fmul32 (fmul32 (fmul32 (FNum False 2) (nat32 (pp_ps_size st))) (pp_ps st ! i)) (pp_loudness_weight st ! i)))
       [2..<pp_ps_size st] f1"

definition agc_track :: "spx_env \<Rightarrow> fval \<Rightarrow> fval \<Rightarrow> SpeexPreprocessState \<Rightarrow> SpeexPreprocessState" where
  "agc_track env Pframe loudness st =
     (if flt (lit32 (3 / 10)) Pframe
      then let rate = to_f32 (fmul64 (fmul64 (lit64 (3 / 100)) Pframe) Pframe); r1 = fsub32 f1 rate
           in st\<lparr>pp_loudness := to_f32 (fadd64 (fmul32 r1 (pp_loudness st))
                   (fmul64 rate (m_pow env (fmul32 (lit32 (1 / 1000)) loudness) (FNum False 5)))),
                 pp_loudness_accum := fadd32 (fmul32 r1 (pp_loudness_accum st)) rate,
                 pp_init_max := (if flt (pp_init_max st) (pp_max_gain st) \<and> 20 < pp_nb_adapt st
                   then fmul32 (pp_init_max st) (fadd32 f1 (fmul32 (fmul32 (lit32 (1 / 10)) Pframe) Pframe)) else pp_init_max st)\<rparr>
      else st)"

definition agc_target :: "spx_env \<Rightarrow> SpeexPreprocessState \<Rightarrow> fval" where
  "agc_target env st =
     to_f32 (fmul64 (fmul32 (lit32 (1 / 1000)) (pp_agc_level st))
       (m_pow env (fdiv64 (pp_loudness st) (fadd64 (lit64 (1 / 10000)) (pp_loudness_accum st))) (fdiv32 (FNum True 1) (FNum False 5))))"

definition agc_clamp :: "fval \<Rightarrow> fval \<Rightarrow> SpeexPreprocessState \<Rightarrow> fval" where
  "agc_clamp loudness target st =
     (let up = fmul32 (pp_max_increase_step st) (pp_agc_gain st); dn = fmul32 (pp_max_decrease_step st) (pp_agc_gain st);
          t = (if flt up target then up else target);
          t = (if flt t dn \<and> flt loudness (fmul32 (nat32 10) (pp_prev_loudness st)) then dn else t);
          t = (if flt (pp_max_gain st) t then pp_max_gain st else t)
      in if flt (pp_init_max st) t then pp_init_max st else t)"

definition speex_compute_agc :: "spx_env \<Rightarrow> fval \<Rightarrow> SpeexPreprocessState \<Rightarrow> SpeexPreprocessState" where
  "speex_compute_agc env Pframe st =
     (let loudness = to_f32 (m_sqrt env (agc_loudness st));
          st = agc_track env Pframe loudness st;
          target = agc_target env st;
          st = (if flt (FNum False (1 / 2)) Pframe \<and> 20 < pp_nb_adapt st \<or> flt target (pp_agc_gain st)
                then st\<lparr>pp_agc_gain := agc_clamp loudness target st\<rparr> else st)
      in st\<lparr>pp_ft := fold (\<lambda>i ft. ft[i := fmul32 (ft ! i) (pp_agc_gain st)]) [0..<2 * pp_ps_size st] (pp_ft st),
            pp_prev_loudness := loudness\<rparr>)"

subsection \<open>Analysis and noise tracking\<close>

definition preprocess_analysis :: "spx_env \<Rightarrow> s16 list \<Rightarrow> SpeexPreprocessState \<Rightarrow> SpeexPreprocessState" where
  "preprocess_analysis env x st =
     (let N = pp_ps_size st; n = pp_frame_size st; N3 = 2 * N - n; N4 = n - N3;
          xf = (\<lambda>i. fofint binary32 (sint (x ! i)));
          frame = fold (\<lambda>i f. f[i := pp_inbuf st ! i]) [0..<N3] (pp_frame st);
          frame = fold (\<lambda>i f. f[N3 + i := xf i]) [0..<n] frame;
          inbuf = fold (\<lambda>i b. b[i := xf (N4 + i)]) [0..<N3] (pp_inbuf st);
          frame = fold (\<lambda>i f. f[i := fmul32 (f ! i) (pp_window st ! i)]) [0..<2 * N] frame;
          (ft, fft_lookup) = spx_fft env (pp_fft_lookup st) frame (pp_ft st);
          ps = (pp_ps st)[0 := fmul32 (ft ! 0) (ft ! 0)];
          ps = fold (\<lambda>i ps. ps[i := fadd32 (fmul32 (ft ! (2 * i - 1)) (ft ! (2 * i - 1))) (fmul32 (ft ! (2 * i)) (ft ! (2 * i)))]) [1..<N] ps;
          ps = splice N (filterbank_compute_bank32 (pp_bank st) ps (drop N ps)) ps
      in st\<lparr>pp_frame := frame, pp_inbuf := inbuf, pp_ft := ft, pp_fft_lookup := fft_lookup, pp_ps := ps\<rparr>)"

abbreviation (input) MIN32 :: "fval \<Rightarrow> fval \<Rightarrow> fval" where "MIN32 a b \<equiv> (if flt a b then a else b)"
abbreviation (input) MAX32 :: "fval \<Rightarrow> fval \<Rightarrow> fval" where "MAX32 a b \<equiv> (if flt b a then a else b)"

definition pp_min_range :: "int \<Rightarrow> int" where
  "pp_min_range nb_adapt = (if nb_adapt < 100 then 15 else if nb_adapt < 1000 then 50 else if nb_adapt < 10000 then 150 else 300)"

definition pp_smooth_S :: "nat \<Rightarrow> fval list \<Rightarrow> fval list \<Rightarrow> fval list" where
  "pp_smooth_S N ps S =
     (let c8 = lit32 (8 / 10); c5 = lit32 (5 / 100); c1 = lit32 (1 / 10); c2 = lit32 (2 / 10);
          S = fold (\<lambda>i S. S[i := fadd32 (fadd32 (fadd32 (fmul32 c8 (S ! i)) (fmul32 c5 (ps ! (i - 1)))) (fmul32 c1 (ps ! i))) (fmul32 c5 (ps ! (i + 1)))])
                [1..<N - 1] S;
          S = S[0 := fadd32 (fmul32 c8 (S ! 0)) (fmul32 c2 (ps ! 0))]
      in S[N - 1 := fadd32 (fmul32 c8 (S ! (N - 1))) (fmul32 c2 (ps ! (N - 1)))])"

definition update_noise_prob :: "SpeexPreprocessState \<Rightarrow> SpeexPreprocessState" where
  "update_noise_prob st =
     (let N = pp_ps_size st; S = pp_smooth_S N (pp_ps st) (pp_S st);
          (Smin, Stmp) = (if pp_nb_adapt st = 1 then (fill N f0 (pp_Smin st), fill N f0 (pp_Stmp st)) else (pp_Smin st, pp_Stmp st));
          restart = pp_min_range (pp_nb_adapt st) < pp_min_count st;
          Smin = fold (\<lambda>i m. m[i := MIN32 (if restart then Stmp ! i else m ! i) (S ! i)]) [0..<N] Smin;
          Stmp = fold (\<lambda>i m. m[i := if restart then S ! i else MIN32 (m ! i) (S ! i)]) [0..<N] Stmp
      in st\<lparr>pp_S := S, pp_Smin := Smin, pp_Stmp := Stmp, pp_min_count := (if restart then 0 else pp_min_count st),
            pp_update_prob := fold (\<lambda>i u. u[i := flt (Smin ! i) (fmul32 (lit32 (4 / 10)) (S ! i))]) [0..<N] (pp_update_prob st)\<rparr>)"

subsection \<open>The run\<close>

type_synonym echo_store = "nat \<Rightarrow> SpeexEchoState"

text \<open>Residual echo: fetched from the canceller when there is one, cleared when it is absurd.\<close>

definition run_echo_noise :: "spx_env \<Rightarrow> echo_store \<Rightarrow> SpeexPreprocessState \<Rightarrow> echo_store \<times> SpeexPreprocessState" where
  "run_echo_noise env heap st =
     (let N = pp_ps_size st
      in case pp_echo_state st of
           Some a \<Rightarrow>
             let (res, es) = speex_echo_get_residual env (pp_residual_echo st) (heap a);
                 res = (if fle f0 (res ! 0) \<and> flt (res ! 0) (fmul32 (nat32 N) (nat32 1000000000)) then res else fill N f0 res);
                 en = fold (\<lambda>i e. e[i := MAX32 (fmul32 (lit32 (6 / 10)) (e ! i)) (res ! i)]) [0..<N] (pp_echo_noise st);
                 en = splice N (filterbank_compute_bank32 (pp_bank st) en (drop N en)) en
             in (heap(a := es), st\<lparr>pp_residual_echo := res, pp_echo_noise := en\<rparr>)
         | None \<Rightarrow> (heap, st\<lparr>pp_echo_noise := fill (N + pp_nbands st) f0 (pp_echo_noise st)\<rparr>))"

definition run_noise_update :: "fval \<Rightarrow> SpeexPreprocessState \<Rightarrow> SpeexPreprocessState" where
  "run_noise_update beta st =
     (let N = pp_ps_size st; beta_1 = fsub32 f1 beta; ps = pp_ps st;
          noise = fold (\<lambda>i v. if \<not> pp_update_prob st ! i \<or> flt (ps ! i) (v ! i)
                    then v[i := MAX32 f0 (fadd32 (fmul32 beta_1 (v ! i)) (fmul32 beta (ps ! i)))] else v) [0..<N] (pp_noise st)
      in st\<lparr>pp_noise := splice N (filterbank_compute_bank32 (pp_bank st) noise (drop N noise)) noise\<rparr>)"

definition run_snr :: "nat \<Rightarrow> SpeexPreprocessState \<Rightarrow> SpeexPreprocessState" where
  "run_snr i st =
     (let ps = pp_ps st ! i; old = pp_old_ps st ! i;
          tot_noise = fadd32 (fadd32 (fadd32 f1 (pp_noise st ! i)) (pp_echo_noise st ! i)) (pp_reverb_estimate st ! i);
          post = fsub32 (fdiv32 ps tot_noise) f1;
          post = MIN32 post (nat32 100);
          ratio = fdiv32 old (fadd32 old tot_noise);
          gamma = fadd32 (lit32 (1 / 10)) (fmul32 (lit32 (89 / 100)) (fmul32 ratio ratio));
          prior = fadd32 (fmul32 gamma (MAX32 f0 post)) (fmul32 (fsub32 f1 gamma) (fdiv32 old tot_noise));
          prior = MIN32 prior (nat32 100)
      in st\<lparr>pp_post := (pp_post st)[i := post], pp_prior := (pp_prior st)[i := prior]\<rparr>)"

definition run_zeta :: "SpeexPreprocessState \<Rightarrow> SpeexPreprocessState" where
  "run_zeta st =
     (let N = pp_ps_size st; p = pp_prior st; c7 = lit32 (7 / 10); c3 = lit32 (3 / 10); c15 = lit32 (15 / 100); c075 = lit32 (75 / 1000);
          edge = (\<lambda>i z. z[i := fadd32 (fmul32 c7 (z ! i)) (fmul32 c3 (p ! i))]);
          z = edge 0 (pp_zeta st);
          z = fold (\<lambda>i z. z[i := fadd32 (fadd32 (fadd32 (fmul32 c7 (z ! i)) (fmul32 c15 (p ! i))) (fmul32 c075 (p ! (i - 1)))) (fmul32 c075 (p ! (i + 1)))])
                [1..<N - 1] z
      in st\<lparr>pp_zeta := fold edge [N - 1..<N + pp_nbands st] z\<rparr>)"

definition run_Pframe :: "SpeexPreprocessState \<Rightarrow> fval" where
  "run_Pframe st =
     (let Zframe = fold (\<lambda>i z. fadd32 z (pp_zeta st ! i)) [pp_ps_size st..<pp_ps_size st + pp_nbands st] f0
      in fadd32 (lit32 (1 / 10)) (fmul32 (lit32 (899 / 1000)) (qcurve (fdiv32 Zframe (nat32 (pp_nbands st))))))"

text \<open>\<open>effective_echo_suppress\<close> is a float that the call of \<open>compute_gain_floor\<close> converts to an int.\<close>

definition run_gain_floor :: "spx_env \<Rightarrow> fval \<Rightarrow> SpeexPreprocessState \<Rightarrow> SpeexPreprocessState" where
  "run_gain_floor env Pframe st =
     (let N = pp_ps_size st;
          eff = fadd32 (fmul32 (fsub32 f1 Pframe) (fofint binary32 (pp_echo_suppress st))) (fmul32 Pframe (fofint binary32 (pp_echo_suppress_active st)));
          gf = compute_gain_floor env (pp_noise_suppress st) (spx_int32_cast env eff) (drop N (pp_noise st)) (drop N (pp_echo_noise st))
                 (drop N (pp_gain_floor st)) (pp_nbands st)
      in st\<lparr>pp_gain_floor := splice N gf (pp_gain_floor st)\<rparr>)"

text \<open>The gain of one band, and of one frequency.\<close>

definition em_gain :: "spx_env \<Rightarrow> nat \<Rightarrow> SpeexPreprocessState \<Rightarrow> fval \<times> fval" where
  "em_gain env i st =
     (let prior_ratio = fdiv32 (pp_prior st ! i) (fadd32 (pp_prior st ! i) f1);
          theta = fmul32 prior_ratio (fadd32 f1 (pp_post st ! i))
      in (MIN32 f1 (fmul32 prior_ratio (hypergeom_gain env theta)), theta))"

definition save_old_ps :: "nat \<Rightarrow> fval \<Rightarrow> SpeexPreprocessState \<Rightarrow> fval list" where
  "save_old_ps i g st = (pp_old_ps st)[i := fadd32 (fmul32 (lit32 (2 / 10)) (pp_old_ps st ! i))
     (fmul32 (fmul32 (lit32 (8 / 10)) (fmul32 g g)) (pp_ps st ! i))]"

definition run_band_gain :: "spx_env \<Rightarrow> fval \<Rightarrow> nat \<Rightarrow> SpeexPreprocessState \<Rightarrow> SpeexPreprocessState" where
  "run_band_gain env Pframe i st =
     (let (g, theta) = em_gain env i st;
          P1 = fadd32 (lit32 (199 / 1000)) (fmul32 (lit32 (8 / 10)) (qcurve (pp_zeta st ! i)));
          q = fsub32 f1 (fmul32 Pframe P1);
          v = fmul64 (fmul32 (fdiv32 q (fsub32 f1 q)) (fadd32 f1 (pp_prior st ! i))) (m_exp env (fneg theta))
      in st\<lparr>pp_gain := (pp_gain st)[i := g], pp_old_ps := save_old_ps i g st,
            pp_gain2 := (pp_gain2 st)[i := to_f32 (fdiv64 f1 (fadd64 f1 v))]\<rparr>)"

definition run_linear_gain :: "spx_env \<Rightarrow> nat \<Rightarrow> SpeexPreprocessState \<Rightarrow> SpeexPreprocessState" where
  "run_linear_gain env i st =
     (let g = fst (em_gain env i st); p = pp_gain2 st ! i; fl = pp_gain_floor st ! i;
          g = (if flt (pp_gain st ! i) (fmul32 (lit32 (333 / 1000)) g) then fmul32 (nat32 3) (pp_gain st ! i) else g);
          gf = (if flt g fl then fl else g);
          tmp = to_f32 (fadd64 (fmul64 p (m_sqrt env gf)) (fmul64 (fsub32 f1 p) (m_sqrt env fl)))
      in st\<lparr>pp_gain := (pp_gain st)[i := gf], pp_old_ps := save_old_ps i g st, pp_gain2 := (pp_gain2 st)[i := fmul32 tmp tmp]\<rparr>)"

definition run_gains :: "spx_env \<Rightarrow> fval \<Rightarrow> SpeexPreprocessState \<Rightarrow> SpeexPreprocessState" where
  "run_gains env Pframe st =
     (let N = pp_ps_size st; k = N + pp_nbands st;
          st = fold (run_band_gain env Pframe) [N..<k] st;
          psd = (\<lambda>a. filterbank_compute_psd16 (pp_bank st) (drop N a) a);
          st = st\<lparr>pp_gain2 := psd (pp_gain2 st), pp_gain := psd (pp_gain st), pp_gain_floor := psd (pp_gain_floor st)\<rparr>;
          st = fold (run_linear_gain env) [0..<N] st
      in if pp_denoise_enabled st = 0 then st\<lparr>pp_gain2 := fill k f1 (pp_gain2 st)\<rparr> else st)"

definition run_apply :: "SpeexPreprocessState \<Rightarrow> SpeexPreprocessState" where
  "run_apply st =
     (let N = pp_ps_size st; g = pp_gain2 st;
          ft = fold (\<lambda>i ft. ft[2 * i - 1 := fmul32 (g ! i) (ft ! (2 * i - 1)), 2 * i := fmul32 (g ! i) (ft ! (2 * i))]) [1..<N] (pp_ft st);
          ft = ft[0 := fmul32 (g ! 0) (ft ! 0)]
      in st\<lparr>pp_ft := ft[2 * N - 1 := fmul32 (g ! (N - 1)) (ft ! (2 * N - 1))]\<rparr>)"

text \<open>With gain control, a frame that would clip is scaled down.\<close>

definition run_damp :: "nat \<Rightarrow> fval list \<Rightarrow> fval list" where
  "run_damp N frame =
     (let max_sample = fold (\<lambda>i m. if flt m (fabs (frame ! i)) then fabs (frame ! i) else m) [0..<2 * N] f0
      in if flt (nat32 28000) max_sample
         then let damp = fdiv32 (nat32 28000) max_sample in fold (\<lambda>i f. f[i := fmul32 (f ! i) damp]) [0..<2 * N] frame
         else frame)"

definition run_synthesis :: "spx_env \<Rightarrow> s16 list \<Rightarrow> SpeexPreprocessState \<Rightarrow> s16 list \<times> SpeexPreprocessState" where
  "run_synthesis env x st =
     (let N = pp_ps_size st; n = pp_frame_size st; N3 = 2 * N - n; N4 = n - N3;
          (frame, fft_lookup) = spx_ifft env (pp_fft_lookup st) (pp_ft st) (pp_frame st);
          frame = (if pp_agc_enabled st \<noteq> 0 then run_damp N frame else frame);
          frame = fold (\<lambda>i f. f[i := fmul32 (f ! i) (pp_window st ! i)]) [0..<2 * N] frame;
          x = fold (\<lambda>i x. x[i := WORD2INT env (fadd32 (pp_outbuf st ! i) (frame ! i))]) [0..<N3] x;
          x = fold (\<lambda>i x. x[N3 + i := word_of_int (spx_int32_cast env (frame ! (N3 + i)))]) [0..<N4] x
      in (x, st\<lparr>pp_frame := frame, pp_fft_lookup := fft_lookup,
                pp_outbuf := fold (\<lambda>i b. b[i := frame ! (n + i)]) [0..<N3] (pp_outbuf st)\<rparr>))"

definition run_vad :: "fval \<Rightarrow> SpeexPreprocessState \<Rightarrow> int \<times> SpeexPreprocessState" where
  "run_vad Pframe st =
     (let st = st\<lparr>pp_speech_prob := Pframe\<rparr>
      in if pp_vad_enabled st \<noteq> 0
         then if flt (pp_speech_prob_start st) Pframe \<or> pp_was_speech st \<and> flt (pp_speech_prob_continue st) Pframe
              then (1, st\<lparr>pp_was_speech := True\<rparr>) else (0, st\<lparr>pp_was_speech := False\<rparr>)
         else (1, st))"

definition run_count :: "SpeexPreprocessState \<Rightarrow> SpeexPreprocessState" where
  "run_count st = (let k = pp_nb_adapt st + 1 in st\<lparr>pp_nb_adapt := (if 20000 < k then 20000 else k), pp_min_count := pp_min_count st + 1\<rparr>)"

definition run_beta :: "SpeexPreprocessState \<Rightarrow> fval" where
  "run_beta st = (let q = fdiv32 f1 (fofint binary32 (pp_nb_adapt st)) in if flt q (lit64 (3 / 100)) then to_f32 (lit64 (3 / 100)) else q)"

text \<open>The call: the return value, the frame, the store of cancellers and the new state.\<close>

definition speex_preprocess_run :: "spx_env \<Rightarrow> s16 list \<Rightarrow> echo_store \<Rightarrow> SpeexPreprocessState \<Rightarrow>
    int \<times> s16 list \<times> echo_store \<times> SpeexPreprocessState" where
  "speex_preprocess_run env x heap st =
     (let st = run_count st; beta = run_beta st; k = pp_ps_size st + pp_nbands st;
          (heap, st) = run_echo_noise env heap st;
          st = run_noise_update beta (update_noise_prob (preprocess_analysis env x st));
          st = (if pp_nb_adapt st = 1 then st\<lparr>pp_old_ps := fold (\<lambda>i a. a[i := pp_ps st ! i]) [0..<k] (pp_old_ps st)\<rparr> else st);
          st = run_zeta (fold run_snr [0..<k] st);
          Pframe = run_Pframe st;
          st = run_apply (run_gains env Pframe (run_gain_floor env Pframe st));
          st = (if pp_agc_enabled st \<noteq> 0 then speex_compute_agc env Pframe st else st);
          (x, st) = run_synthesis env x st;
          (r, st) = run_vad Pframe st
      in (r, x, heap, st))"

definition speex_preprocess :: "spx_env \<Rightarrow> s16 list \<Rightarrow> echo_store \<Rightarrow> SpeexPreprocessState \<Rightarrow>
    int \<times> s16 list \<times> echo_store \<times> SpeexPreprocessState" where
  "speex_preprocess env x heap st = speex_preprocess_run env x heap st"

definition speex_preprocess_estimate_update :: "spx_env \<Rightarrow> s16 list \<Rightarrow> SpeexPreprocessState \<Rightarrow> SpeexPreprocessState" where
  "speex_preprocess_estimate_update env x st =
     (let st = st\<lparr>pp_min_count := pp_min_count st + 1\<rparr>;
          st = update_noise_prob (preprocess_analysis env x st);
          N = pp_ps_size st; n = pp_frame_size st; N3 = 2 * N - n; ps = pp_ps st;
          noise = fold (\<lambda>i v. if \<not> pp_update_prob st ! i \<or> flt (ps ! i) (v ! i)
                    then v[i := fadd32 (fmul32 (lit32 (95 / 100)) (v ! i)) (fmul32 (lit32 (5 / 100)) (ps ! i))] else v) [1..<N - 1] (pp_noise st)
      in st\<lparr>pp_noise := noise,
            pp_outbuf := fold (\<lambda>i b. b[i := fmul32 (fofint binary32 (sint (x ! (n - N3 + i)))) (pp_window st ! (n + i))]) [0..<N3] (pp_outbuf st),
            pp_old_ps := fold (\<lambda>i a. a[i := ps ! i]) [0..<N + pp_nbands st] (pp_old_ps st),
            pp_reverb_estimate := fold (\<lambda>i r. r[i := fmul32 (pp_reverb_decay st) (r ! i)]) [0..<N] (pp_reverb_estimate st)\<rparr>)"

section \<open>Control\<close>

text \<open>The requests with the value that \<open>ptr\<close> points to when the call reads it, and what the call
  leaves there. \<open>OTHER_REQUEST\<close> is every number with no case of its own.\<close>

datatype pp_request =
    SET_DENOISE int | GET_DENOISE | SET_AGC int | GET_AGC | SET_VAD int | GET_VAD
  | SET_AGC_LEVEL fval | GET_AGC_LEVEL | SET_DEREVERB int | GET_DEREVERB
  | SET_DEREVERB_LEVEL | GET_DEREVERB_LEVEL | SET_DEREVERB_DECAY | GET_DEREVERB_DECAY
  | SET_PROB_START int | GET_PROB_START | SET_PROB_CONTINUE int | GET_PROB_CONTINUE
  | SET_NOISE_SUPPRESS int | GET_NOISE_SUPPRESS | SET_ECHO_SUPPRESS int | GET_ECHO_SUPPRESS
  | SET_ECHO_SUPPRESS_ACTIVE int | GET_ECHO_SUPPRESS_ACTIVE | SET_ECHO_STATE "nat option" | GET_ECHO_STATE
  | SET_AGC_INCREMENT int | GET_AGC_INCREMENT | SET_AGC_DECREMENT int | GET_AGC_DECREMENT
  | SET_AGC_MAX_GAIN int | GET_AGC_MAX_GAIN | GET_AGC_LOUDNESS | GET_AGC_GAIN
  | GET_PSD_SIZE | GET_PSD | GET_NOISE_PSD_SIZE | GET_NOISE_PSD | GET_PROB
  | SET_AGC_TARGET int | GET_AGC_TARGET | OTHER_REQUEST int

datatype pp_reply = Untouched | Int32 int | Float fval | Int32s "int list" | Pointer "nat option"

definition level_clamp :: "fval \<Rightarrow> fval" where
  "level_clamp v = (let v = (if flt v f1 then f1 else v) in if flt (nat32 32768) v then nat32 32768 else v)"

text \<open>The step per frame of a rate in dB per second, in single precision up to the call of \<open>exp\<close>, and
  its way back in double precision.\<close>

definition ctl_step :: "spx_env \<Rightarrow> int \<Rightarrow> SpeexPreprocessState \<Rightarrow> fval" where
  "ctl_step env v st = to_f32 (m_exp env (fdiv32 (fmul32 (fmul32 (lit32 (11513 / 100000)) (fofint binary32 v)) (nat32 (pp_frame_size st)))
     (fofint binary32 (pp_sampling_rate st))))"

definition ctl_rate :: "spx_env \<Rightarrow> fval \<Rightarrow> SpeexPreprocessState \<Rightarrow> int" where
  "ctl_rate env step st = spx_int32_cast env (ffloor (fadd64 (lit64 (1 / 2)) (fdiv64 (fmul64 (fmul64 (lit64 (86858 / 10000)) (m_log env step))
     (fofint binary64 (pp_sampling_rate st))) (nat64 (pp_frame_size st)))))"

definition ctl_decibel :: "spx_env \<Rightarrow> fval \<Rightarrow> int" where
  "ctl_decibel env g = spx_int32_cast env (ffloor (fadd64 (lit64 (1 / 2)) (fmul64 (lit64 (86858 / 10000)) (m_log env g))))"

definition percent_clamp :: "int \<Rightarrow> int" where
  "percent_clamp v = (let v = (if 0 > v then 0 else v) in if 100 < v then 100 else v)"

definition set_percent :: "int \<Rightarrow> fval" where
  "set_percent v = fdiv32 (fmul32 f1 (fofint binary32 v)) (nat32 100)"

definition get_percent :: "spx_env \<Rightarrow> fval \<Rightarrow> int" where
  "get_percent env p = spx_int32_cast env (fmul32 p (nat32 100))"

text \<open>The return value, what is stored through \<open>ptr\<close>, and the state (the two warnings are left out). The negation of the smallest
  \<open>int\<close>, which overflows, is written \<open>- \<bar>v\<bar>\<close> for both signs: twice negated it is itself when it wraps.\<close>

fun speex_preprocess_ctl :: "spx_env \<Rightarrow> pp_request \<Rightarrow> SpeexPreprocessState \<Rightarrow> int \<times> pp_reply \<times> SpeexPreprocessState" where
  "speex_preprocess_ctl env (SET_DENOISE v) st = (0, Untouched, st\<lparr>pp_denoise_enabled := v\<rparr>)"
| "speex_preprocess_ctl env GET_DENOISE st = (0, Int32 (pp_denoise_enabled st), st)"
| "speex_preprocess_ctl env (SET_AGC v) st = (0, Untouched, st\<lparr>pp_agc_enabled := v\<rparr>)"
| "speex_preprocess_ctl env GET_AGC st = (0, Int32 (pp_agc_enabled st), st)"
| "speex_preprocess_ctl env (SET_AGC_LEVEL v) st = (0, Untouched, st\<lparr>pp_agc_level := level_clamp v\<rparr>)"
| "speex_preprocess_ctl env GET_AGC_LEVEL st = (0, Float (pp_agc_level st), st)"
| "speex_preprocess_ctl env (SET_AGC_INCREMENT v) st = (0, Untouched, st\<lparr>pp_max_increase_step := ctl_step env v st\<rparr>)"
| "speex_preprocess_ctl env GET_AGC_INCREMENT st = (0, Int32 (ctl_rate env (pp_max_increase_step st) st), st)"
| "speex_preprocess_ctl env (SET_AGC_DECREMENT v) st = (0, Untouched, st\<lparr>pp_max_decrease_step := ctl_step env v st\<rparr>)"
| "speex_preprocess_ctl env GET_AGC_DECREMENT st = (0, Int32 (ctl_rate env (pp_max_decrease_step st) st), st)"
| "speex_preprocess_ctl env (SET_AGC_MAX_GAIN v) st =
     (0, Untouched, st\<lparr>pp_max_gain := to_f32 (m_exp env (fmul32 (lit32 (11513 / 100000)) (fofint binary32 v)))\<rparr>)"
| "speex_preprocess_ctl env GET_AGC_MAX_GAIN st = (0, Int32 (ctl_decibel env (pp_max_gain st)), st)"
| "speex_preprocess_ctl env (SET_VAD v) st = (0, Untouched, st\<lparr>pp_vad_enabled := v\<rparr>)"
| "speex_preprocess_ctl env GET_VAD st = (0, Int32 (pp_vad_enabled st), st)"
| "speex_preprocess_ctl env (SET_DEREVERB v) st =
     (0, Untouched, st\<lparr>pp_dereverb_enabled := v, pp_reverb_estimate := fill (pp_ps_size st) f0 (pp_reverb_estimate st)\<rparr>)"
| "speex_preprocess_ctl env GET_DEREVERB st = (0, Int32 (pp_dereverb_enabled st), st)"
| "speex_preprocess_ctl env SET_DEREVERB_LEVEL st = (0, Untouched, st)"
| "speex_preprocess_ctl env GET_DEREVERB_LEVEL st = (0, Untouched, st)"
| "speex_preprocess_ctl env SET_DEREVERB_DECAY st = (0, Untouched, st)"
| "speex_preprocess_ctl env GET_DEREVERB_DECAY st = (0, Untouched, st)"
| "speex_preprocess_ctl env (SET_PROB_START v) st =
     (0, Int32 (percent_clamp v), st\<lparr>pp_speech_prob_start := set_percent (percent_clamp v)\<rparr>)"
| "speex_preprocess_ctl env GET_PROB_START st = (0, Int32 (get_percent env (pp_speech_prob_start st)), st)"
| "speex_preprocess_ctl env (SET_PROB_CONTINUE v) st =
     (0, Int32 (percent_clamp v), st\<lparr>pp_speech_prob_continue := set_percent (percent_clamp v)\<rparr>)"
| "speex_preprocess_ctl env GET_PROB_CONTINUE st = (0, Int32 (get_percent env (pp_speech_prob_continue st)), st)"
| "speex_preprocess_ctl env (SET_NOISE_SUPPRESS v) st = (0, Untouched, st\<lparr>pp_noise_suppress := - \<bar>v\<bar>\<rparr>)"
| "speex_preprocess_ctl env GET_NOISE_SUPPRESS st = (0, Int32 (pp_noise_suppress st), st)"
| "speex_preprocess_ctl env (SET_ECHO_SUPPRESS v) st = (0, Untouched, st\<lparr>pp_echo_suppress := - \<bar>v\<bar>\<rparr>)"
| "speex_preprocess_ctl env GET_ECHO_SUPPRESS st = (0, Int32 (pp_echo_suppress st), st)"
| "speex_preprocess_ctl env (SET_ECHO_SUPPRESS_ACTIVE v) st = (0, Untouched, st\<lparr>pp_echo_suppress_active := - \<bar>v\<bar>\<rparr>)"
| "speex_preprocess_ctl env GET_ECHO_SUPPRESS_ACTIVE st = (0, Int32 (pp_echo_suppress_active st), st)"
| "speex_preprocess_ctl env (SET_ECHO_STATE v) st = (0, Untouched, st\<lparr>pp_echo_state := v\<rparr>)"
| "speex_preprocess_ctl env GET_ECHO_STATE st = (0, Pointer (pp_echo_state st), st)"
| "speex_preprocess_ctl env GET_AGC_LOUDNESS st = (0, Int32 (spx_int32_cast env (m_pow env (pp_loudness st) (fdiv64 f1 (FNum False 5)))), st)"
| "speex_preprocess_ctl env GET_AGC_GAIN st = (0, Int32 (ctl_decibel env (pp_agc_gain st)), st)"
| "speex_preprocess_ctl env GET_PSD_SIZE st = (0, Int32 (int (pp_ps_size st)), st)"
| "speex_preprocess_ctl env GET_NOISE_PSD_SIZE st = (0, Int32 (int (pp_ps_size st)), st)"
| "speex_preprocess_ctl env GET_PSD st = (0, Int32s (map (spx_int32_cast env) (take (pp_ps_size st) (pp_ps st))), st)"
| "speex_preprocess_ctl env GET_NOISE_PSD st = (0, Int32s (map (spx_int32_cast env) (take (pp_ps_size st) (pp_noise st))), st)"
| "speex_preprocess_ctl env GET_PROB st = (0, Int32 (get_percent env (pp_speech_prob st)), st)"
| "speex_preprocess_ctl env (SET_AGC_TARGET v) st = (0, Untouched, st\<lparr>pp_agc_level := level_clamp (fofint binary32 v)\<rparr>)"
| "speex_preprocess_ctl env GET_AGC_TARGET st = (0, Int32 (spx_int32_cast env (pp_agc_level st)), st)"
| "speex_preprocess_ctl env (OTHER_REQUEST r) st = (- 1, Untouched, st)"

end
