(* ===== verification/SpxEchoInv.thy ===== *)
theory SpxEchoInv
  imports SpxEcho
begin

text \<open>
  What holds of the echo canceller of \<open>SpxEcho\<close>: which parts of the state a frame leaves alone, the
  invariant of the reachable states, the playback buffer as a refinement of an abstract queue,
  what a reset keeps, and the schedule of the alternating constraint.
\<close>

section \<open>The shape of a state\<close>

text \<open>The sizes of a state and of its arrays. No operation changes them.\<close>

definition es_shape :: "SpeexEchoState \<Rightarrow> nat list" where
  "es_shape st =
     [es_frame_size st, es_window_size st, es_M st, es_C st, es_K st, length (es_e st), length (es_x st), length (es_X st),
      length (es_input st), length (es_y st), length (es_last_y st), length (es_Y st), length (es_E st), length (es_PHI st),
      length (es_W st), length (es_foreground st), length (es_power st), length (es_power_1 st), length (es_wtmp st),
      length (es_Rf st), length (es_Yf st), length (es_Xf st), length (es_Eh st), length (es_Yh st), length (es_window st),
      length (es_prop st), length (es_memX st), length (es_memD st), length (es_memE st), length (es_notch_mem st),
      length (es_play_buf st)]"

text \<open>The shape that \<open>speex_echo_state_init_mc\<close> allocates.\<close>

definition alloc_shape :: "nat \<Rightarrow> nat \<Rightarrow> nat \<Rightarrow> nat \<Rightarrow> nat list" where
  "alloc_shape n M C K = (let N = 2 * n in
     [n, N, M, C, K, C * N, K * N, K * (M + 1) * N, C * n, C * N, C * N, C * N, C * N, N, C * K * M * N, M * N * C * K,
      n + 1, n + 1, N, n + 1, n + 1, n + 1, n + 1, n + 1, N, M, K, C, C, 2 * C, K * 3 * n])"

lemma length_ps_loop [simp]: "length (ps_loop X N i j ps) = length ps"
  by (induction X N i j ps rule: ps_loop.induct) (subst ps_loop.simps, simp)

lemma length_psa_loop [simp]: "length (psa_loop X N i j ps) = length ps"
  by (induction X N i j ps rule: psa_loop.induct) (subst psa_loop.simps, simp)

lemma length_sma_loop [simp]: "length (sma_loop X Y N i acc) = length acc"
  by (induction X Y N i acc rule: sma_loop.induct) (subst sma_loop.simps, simp add: Let_def)

lemma length_wsmc_loop [simp]: "length (wsmc_loop w p X Y N i j acc) = length acc"
  by (induction w p X Y N i j acc rule: wsmc_loop.induct) (subst wsmc_loop.simps, simp add: Let_def)

lemma length_spectra [simp]:
  "length (power_spectrum X ps N) = length ps"
  "length (power_spectrum_accum X ps N) = length ps"
  "length (weighted_spectral_mul_conj w p X Y acc N) = length acc"
  by (simp_all add: power_spectrum_def power_spectrum_accum_def weighted_spectral_mul_conj_def)

lemma length_mdf_adjust_prop [simp]: "length (mdf_adjust_prop env W N M P prop) = length prop"
  unfolding mdf_adjust_prop_def Let_def by (simp add: case_prod_unfold)

section \<open>What a frame of filtering leaves alone\<close>

text \<open>The parts of a state that the filter never touches: sizes, the playback buffer, the sanity
  counter, and the settings.\<close>

definition es_keep :: "SpeexEchoState \<Rightarrow> nat list \<times> (s16 list \<times> nat \<times> bool) \<times> int \<times> int" where
  "es_keep st = (es_shape st, (es_play_buf st, es_play_buf_pos st, es_play_buf_started st), es_screwed_up st, es_sampling_rate st)"

abbreviation (input) keep_leak :: "SpeexEchoState \<Rightarrow> (nat list \<times> (s16 list \<times> nat \<times> bool) \<times> int \<times> int) \<times> fval" where
  "keep_leak st \<equiv> (es_keep st, es_leak_estimate st)"

abbreviation (input) keep_sat :: "SpeexEchoState \<Rightarrow> ((nat list \<times> (s16 list \<times> nat \<times> bool) \<times> int \<times> int) \<times> fval) \<times> int" where
  "keep_sat st \<equiv> (keep_leak st, es_saturated st)"

lemmas keep_simps = es_keep_def es_shape_def Let_def

lemma keep_mic: "keep_sat (echo_mic_input inp chan st) = keep_sat st"
proof -
  have "keep_sat (fold (echo_preemph chan) xs s) = keep_sat s" for xs s
    by (rule fold_keeps) (simp add: echo_preemph_def keep_simps)
  then show ?thesis by (simp add: echo_mic_input_def keep_simps split_beta)
qed

lemma keep_far: "keep_sat (echo_far_input far st) = keep_sat st"
  unfolding echo_far_input_def by (intro fold_keeps) (simp add: echo_far_sample_def keep_simps)

lemma keep_spectrum: "keep_sat (echo_far_spectrum env speak st) = keep_sat st"
  by (simp add: echo_far_spectrum_def keep_simps split_beta)

lemma keep_far_power: "keep_sat (snd (echo_far_power Sxx st)) = keep_sat st"
  unfolding echo_far_power_def
  by (rule fold_keeps [of "\<lambda>x. keep_sat (snd x)", THEN trans]) (simp_all add: split_beta keep_simps)

lemma keep_foreground: "keep_sat (snd (echo_foreground env st)) = keep_sat st"
  unfolding echo_foreground_def
  by (rule fold_keeps [of "\<lambda>x. keep_sat (snd x)", THEN trans]) (simp_all add: split_beta keep_simps echo_response_def)

lemma keep_background: "keep_sat (snd (snd (echo_background env st))) = keep_sat st"
  unfolding echo_background_def
  by (rule fold_keeps [of "\<lambda>x. keep_sat (snd (snd x))", THEN trans]) (simp_all add: split_beta keep_simps echo_response_def)

lemma keep_constrain: "keep_sat (echo_constrain env st) = keep_sat st"
  unfolding echo_constrain_def
  by (intro fold_keeps) (simp add: echo_constrain_block_def keep_simps split_beta)

lemma keep_gradient: "keep_leak (echo_gradient st) = keep_leak st"
proof -
  have "keep_leak (fold (\<lambda>chan st. fold (\<lambda>speak st. fold (echo_gradient_block chan speak) (zs chan speak st) st) (ys st) st) xs st) = keep_leak st"
    for xs ys zs by (intro fold_keeps) (simp add: echo_gradient_block_def keep_simps)
  then show ?thesis by (auto simp: echo_gradient_def keep_simps)
qed

lemma keep_path_steps:
  "keep_sat (echo_averages Sff See Dbf st) = keep_sat st"
  "keep_sat (echo_clear_averages st) = keep_sat st"
  "keep_sat (echo_promote st) = keep_sat st"
  "keep_sat (echo_backtrack_chan chan st) = keep_sat st"
  by (simp_all add: echo_averages_def echo_clear_averages_def echo_promote_def echo_backtrack_chan_def copy_weights_def keep_simps)

lemma keep_backtrack: "keep_sat (echo_backtrack st) = keep_sat st"
proof -
  have "keep_sat (fold echo_backtrack_chan xs s) = keep_sat s" for xs s
    by (rule fold_keeps) (rule keep_path_steps)
  then show ?thesis
    using keep_path_steps(2) by (simp add: echo_backtrack_def Let_def copy_weights_def) (simp add: keep_simps)
qed

lemma keep_two_path: "keep_sat (snd (echo_two_path Sff See Dbf st)) = keep_sat st"
  using keep_path_steps keep_backtrack by (simp add: echo_two_path_def Let_def)

lemma keep_output: "keep_leak (snd (snd (snd (snd (echo_output env inp chan z))))) = keep_leak (snd (snd (snd (snd z))))"
proof -
  have "keep_leak (snd (fold (echo_out_sample env inp chan) xs s)) = keep_leak (snd s)" for xs s
    by (rule fold_keeps [of "\<lambda>x. keep_leak (snd x)"]) (simp add: echo_out_sample_def split_beta keep_simps)
  then show ?thesis by (simp add: echo_output_def split_beta keep_simps)
qed

abbreviation (input) keep_set :: "SpeexEchoState \<Rightarrow> (nat list \<times> (s16 list \<times> nat \<times> bool) \<times> int \<times> int) \<times> int" where
  "keep_set st \<equiv> (es_keep st, es_saturated st)"

lemma keep_adapt_steps:
  "keep_set (echo_smooth_power st) = keep_set st"
  "keep_set (snd (snd (echo_correlate st))) = keep_set st"
  "keep_set (echo_leak env Pey Pyy Syy See st) = keep_set st"
  "keep_set (echo_rate_adapted RER st) = keep_set st"
  "keep_set (echo_rate_initial Sxx See st) = keep_set st"
  "keep_set (echo_last_y inp out st) = keep_set st"
proof -
  show "keep_set (snd (snd (echo_correlate st))) = keep_set st"
    unfolding echo_correlate_def
    by (rule fold_keeps [of "\<lambda>x. keep_set (snd (snd x))", THEN trans]) (simp_all add: split_beta keep_simps)
qed (simp_all add: echo_smooth_power_def echo_leak_def echo_rate_adapted_def echo_rate_initial_def echo_last_y_def keep_simps)

lemma keep_adapt: "keep_set (echo_adapt env inp out Sxx Syy See Sey st) = keep_set st"
proof -
  have "keep_set (s\<lparr>es_adapted := True\<rparr>) = keep_set s" for s by (simp add: keep_simps)
  then show ?thesis
    using keep_adapt_steps keep_far_power by (simp add: echo_adapt_def Let_def split_beta)
qed

lemma keep_filter: "keep_leak (snd (snd (echo_filter env inp far out st))) = keep_leak st"
proof -
  have m: "keep_leak (fold (echo_mic_input inp) xs s) = keep_leak s" for xs s
    by (rule fold_keeps) (use keep_mic in simp)
  have sp: "keep_leak (fold (echo_far_spectrum env) xs s) = keep_leak s" for xs s
    by (rule fold_keeps) (use keep_spectrum in simp)
  have o: "keep_leak (snd (snd (snd (snd (fold (echo_output env inp) xs z))))) = keep_leak (snd (snd (snd (snd z))))" for xs z
    by (rule fold_keeps [of "\<lambda>z. keep_leak (snd (snd (snd (snd z))))"]) (rule keep_output)
  have u: "keep_leak (st\<lparr>es_cancel_count := c\<rparr>) = keep_leak st" "keep_leak (s\<lparr>es_prop := mdf_adjust_prop env W N M P (es_prop s)\<rparr>) = keep_leak s"
    "keep_leak (echo_clear_spectra s) = keep_leak s" for c s W N M P
    by (simp_all add: echo_clear_spectra_def keep_simps)
  show ?thesis
    using m sp o u keep_far keep_far_power keep_foreground keep_gradient keep_constrain keep_background keep_two_path
    by (simp add: echo_filter_def Let_def split_beta)
qed

section \<open>The adaptation freeze\<close>

abbreviation (input) flag01 :: "SpeexEchoState \<Rightarrow> bool" where
  "flag01 st \<equiv> es_saturated st \<in> {0, 1}"

lemma sat_gradient: "flag01 st \<Longrightarrow> flag01 (echo_gradient st)"
proof -
  have "es_saturated (fold (\<lambda>chan st. fold (\<lambda>speak st. fold (echo_gradient_block chan speak) (zs chan speak st) st) (ys st) st) xs st) = es_saturated st"
    for xs ys zs by (intro fold_keeps) (simp add: echo_gradient_block_def Let_def)
  then show "flag01 st \<Longrightarrow> flag01 (echo_gradient st)" by (auto simp: echo_gradient_def)
qed

lemma sat_output: "flag01 (snd (snd (snd (snd z)))) \<Longrightarrow> flag01 (snd (snd (snd (snd (echo_output env inp chan z)))))"
proof -
  have "flag01 (snd s) \<Longrightarrow> flag01 (snd (fold (echo_out_sample env inp chan) xs s))" for xs s
    by (rule fold_keeps_pred [of "\<lambda>x. flag01 (snd x)"]) (auto simp: echo_out_sample_def split_beta Let_def)
  then show "flag01 (snd (snd (snd (snd z)))) \<Longrightarrow> flag01 (snd (snd (snd (snd (echo_output env inp chan z)))))"
    by (simp add: echo_output_def split_beta Let_def)
qed

lemma sat_filter: "flag01 st \<Longrightarrow> flag01 (snd (snd (echo_filter env inp far out st)))"
proof -
  assume st: "flag01 st"
  have m: "es_saturated (fold (echo_mic_input inp) xs s) = es_saturated s" for xs s
    by (rule fold_keeps) (use keep_mic in simp)
  have sp: "es_saturated (fold (echo_far_spectrum env) xs s) = es_saturated s" for xs s
    by (rule fold_keeps) (use keep_spectrum in simp)
  have o: "flag01 s \<Longrightarrow> flag01 (snd (snd (snd (snd (fold (echo_output env inp) xs (a, b, c, d, s))))))" for xs a b c d s
    by (rule fold_keeps_pred [of "\<lambda>z. flag01 (snd (snd (snd (snd z))))"]) (simp, rule sat_output)
  have c: "es_saturated (echo_clear_spectra s) = es_saturated s" for s by (simp add: echo_clear_spectra_def Let_def)
  have g: "flag01 s \<Longrightarrow> flag01 (echo_clear_spectra (echo_constrain env (echo_gradient s)))" for s
    using sat_gradient keep_constrain c by simp
  show ?thesis
    unfolding echo_filter_def Let_def split_beta
    apply (simp only: fst_conv snd_conv)
    apply (rule o)
    using keep_two_path keep_background
    apply (simp)
    using g st m sp keep_far keep_far_power keep_foreground by simp
qed

section \<open>The leakage estimate\<close>

definition unit_fval :: "fval \<Rightarrow> bool" where
  "unit_fval v \<longleftrightarrow> (case v of FNaN \<Rightarrow> True | FInf s \<Rightarrow> False | FNum s m \<Rightarrow> 0 \<le> fsval s m \<and> fsval s m \<le> 1)"

lemma fmag_01: "fmag binary32 0" "fmag binary32 1"
  using fmag_int [of binary32 1] by simp_all

lemma fdiv_unit:
  assumes "fval_ok binary32 a" "fval_ok binary32 b" "\<not> flt b f1" "\<not> flt a f0" "\<not> flt b a"
  shows "unit_fval (fdiv32 a b)"
proof (cases "(binary32, a, b)" rule: fdiv.cases)
  case (6 F s m t n)
  have nn: "0 \<le> m" "0 \<le> n" using 6 assms(1,2) fmag_nonneg by auto
  then have b: "1 \<le> n" "\<not> t" using 6 assms(3) by (auto simp: fsval_def not_less split: if_splits)
  moreover have a: "m \<le> n" "s \<longrightarrow> m = 0" using 6 assms(4,5) nn b by (auto simp: fsval_def not_less split: if_splits)
  ultimately have q: "0 \<le> m / n" "m / n \<le> 1" using nn by auto
  obtain r where "fround binary32 s (m / n) = FNum s r" "0 \<le> r" "r \<le> 1"
    using fround_bounds [OF _ fmag_01(1) q(1) fmag_01(2) q(2)] by auto
  moreover have "s \<Longrightarrow> fround binary32 s (m / n) = FNum s 0" using a by (simp add: fround_def)
  ultimately show ?thesis using 6 b by (auto simp: unit_fval_def fsval_def)
qed (use assms in \<open>auto simp: unit_fval_def fsval_def split: if_splits\<close>)

lemma flt_neg_ge1: "\<not> flt b f1 \<Longrightarrow> \<not> flt b f0"
  by (cases b) (auto simp: fsval_def split: if_splits)

lemma flt_neg_trans: "\<not> flt s m \<Longrightarrow> \<not> flt m f0 \<Longrightarrow> m \<noteq> FNaN \<Longrightarrow> \<not> flt s f0"
  by (cases s; cases m) (auto simp: fsval_def split: if_splits)

lemma fmul_pos_ge1:
  assumes "fval_ok binary32 b" "\<not> flt b f1" "b \<noteq> FNaN" "c = FNum False k" "0 < k"
  shows "\<not> flt (fmul32 c b) f0" "fmul32 c b \<noteq> FNaN"
proof -
  have *: "\<not> flt (fround binary32 False r) f0 \<and> fround binary32 False r \<noteq> FNaN" if "0 \<le> r" for r
  proof (cases "fround binary32 False r")
    case (FNum s q)
    then have "\<not> s" by (auto simp: fround_def Let_def split: if_splits)
    moreover have "0 \<le> q" using fround_ok [OF _ that, of binary32 False] FNum fmag_nonneg by simp
    ultimately show ?thesis using FNum by (simp add: fsval_def)
  qed (auto simp: fround_def Let_def split: if_splits)
  have "\<not> flt (fmul32 c b) f0 \<and> fmul32 c b \<noteq> FNaN"
  proof (cases b)
    case (FNum t n)
    then have n: "0 \<le> n" using assms(1) fmag_nonneg by auto
    with FNum assms(2) have "\<not> t" by (auto simp: fsval_def)
    with n FNum assms(4,5) * [of "k * n"] show ?thesis by simp
  qed (use assms in simp_all)
  then show "\<not> flt (fmul32 c b) f0" "fmul32 c b \<noteq> FNaN" by simp_all
qed

lemma unit_not_big: "unit_fval v \<Longrightarrow> \<not> flt (nat32 16383) v"
proof -
  have "fmag binary32 (of_nat 16383)" by (rule fmag_int) simp_all
  then have "nat32 16383 = FNum False 16383" using fround_exact [of binary32 16383 False] by (simp add: fofint_def)
  then show "unit_fval v \<Longrightarrow> \<not> flt (nat32 16383) v" by (cases v) (auto simp: unit_fval_def fsval_def)
qed

lemma leak_clamp:
  assumes ok: "fval_ok binary32 x" "fval_ok binary32 y" and c: "c = FNum False k" "0 < k" "fval_ok binary32 c"
  defines "b \<equiv> if flt y f1 then f1 else y"
  defines "m \<equiv> fmul32 c b"
  defines "a0 \<equiv> if flt x m then m else x"
  shows "unit_fval (fdiv32 (if flt b a0 then b else a0) b)"
proof (cases "b = FNaN")
  case True
  then show ?thesis by (cases "if flt b a0 then b else a0") (simp_all add: unit_fval_def)
next
  case False
  have b: "fval_ok binary32 b" "\<not> flt b f1" using ok fmag_01 by (auto simp: b_def fsval_def)
  note m = fmul_pos_ge1 [OF b False c(1,2), folded m_def]
  have a0: "fval_ok binary32 a0" "\<not> flt a0 f0"
    using ok(1) m flt_neg_trans fmul_ok [of binary32 c b] b(1) c(3) by (auto simp: a0_def m_def)
  show ?thesis
  proof (rule fdiv_unit)
    show "\<not> flt b (if flt b a0 then b else a0)" by (cases b) auto
  qed (use b a0 flt_neg_ge1 in auto)
qed

lemma lit_005: "\<exists>k. lit32 (5 / 1000) = FNum False k \<and> 0 < k"
  by (rule exI [of _ "10737418 / 2 ^ 31"]) code_simp

lemma echo_leak_unit: "unit_fval (es_leak_estimate (echo_leak env Pey Pyy Syy See st))"
proof -
  obtain k where k: "lit32 (5 / 1000) = FNum False k" "0 < k" using lit_005 by blast
  have "fval_ok binary32 (lit32 (5 / 1000))" by (rule frat_ok) simp
  note c = leak_clamp [OF fadd_ok fadd_ok k(1,2) this, unfolded k(1) [symmetric], OF fmt_ok_binary(1) fmt_ok_binary(1)]
  show ?thesis unfolding echo_leak_def Let_def using c unit_not_big by simp
qed

section \<open>The invariant\<close>

definition echo_inv :: "nat \<Rightarrow> nat \<Rightarrow> nat \<Rightarrow> nat \<Rightarrow> SpeexEchoState \<Rightarrow> bool" where
  "echo_inv n M C K st \<longleftrightarrow>
     es_shape st = alloc_shape n M C K \<and> 0 \<le> es_screwed_up st \<and> es_screwed_up st < 50 \<and> flag01 st \<and>
     unit_fval (es_leak_estimate st) \<and> es_play_buf_pos st \<in> {0, n, 2 * n, 3 * n}"

lemma unit_f0: "unit_fval f0" by (simp add: unit_fval_def fsval_def)

lemma shape_sizes:
  assumes "es_shape st = alloc_shape n M C K"
  shows "es_frame_size st = n" "es_window_size st = 2 * n" "es_M st = M" "es_C st = C" "es_K st = K" "length (es_play_buf st) = K * 3 * n"
  using assms by (simp_all add: es_shape_def alloc_shape_def Let_def)

lemma length_echo_prop [simp]: "length (echo_prop env M prop) = length prop"
  by (simp add: echo_prop_def Let_def case_prod_unfold)

text \<open>What creation allocates, when it succeeds.\<close>

lemma echo_init_alloc:
  assumes "speex_echo_state_init_mc env n fl C K = Some st"
  shows "\<exists>l. let N = 2 * n; M = (fl + n - 1) div n; n1 = n + 1 in st = set_notch (set_rate 8000
        \<lparr>es_frame_size = n, es_window_size = N, es_M = M, es_cancel_count = 0, es_adapted = False, es_saturated = 0,
         es_screwed_up = 0, es_C = C, es_K = K, es_sampling_rate = 8000, es_spec_average = f0, es_beta0 = f0, es_beta_max = f0,
         es_sum_adapt = f0, es_leak_estimate = f0, es_e = replicate (C * N) f0, es_x = replicate (K * N) f0,
         es_X = replicate (K * (M + 1) * N) f0, es_input = replicate (C * n) f0, es_y = replicate (C * N) f0,
         es_last_y = replicate (C * N) f0, es_Y = replicate (C * N) f0, es_E = replicate (C * N) f0, es_PHI = replicate N f0,
         es_W = replicate (C * K * M * N) f0, es_foreground = replicate (M * N * C * K) f0,
         es_Davg1 = f0, es_Davg2 = f0, es_Dvar1 = f0, es_Dvar2 = f0, es_power = replicate n1 f0, es_power_1 = replicate n1 f1,
         es_wtmp = replicate N f0, es_Rf = replicate n1 f0, es_Yf = replicate n1 f0, es_Xf = replicate n1 f0,
         es_Eh = replicate n1 f0, es_Yh = replicate n1 f0, es_Pey = f1, es_Pyy = f1, es_window = echo_window env N,
         es_prop = echo_prop env M (replicate M f0), es_fft_table = l, es_memX = replicate K f0, es_memD = replicate C f0,
         es_memE = replicate C f0, es_preemph = to_f32 (lit64 (9 / 10)), es_notch_radius = f0, es_notch_mem = replicate (2 * C) f0,
         es_play_buf = replicate (K * (PLAYBACK_DELAY + 1) * n) 0, es_play_buf_pos = PLAYBACK_DELAY * n,
         es_play_buf_started = False\<rparr>)"
proof -
  have w: "splice 0 (echo_window env N) (replicate N f0) = echo_window env N" for N by (simp add: splice_eq echo_window_def)
  have f: "fill k v (replicate k u) = replicate k v" for k and u v :: fval by (simp add: fill_eq)
  have c: "fill (2 * n * M * K * C) v (replicate (C * K * M * 2 * n) u) = replicate (C * K * M * 2 * n) v" for M and u v :: fval
    using f [of "2 * n * M * K * C" v u] by (simp add: mult_ac)
  obtain l where l: "spx_fft_init env (2 * n) = Some l" using assms
    by (cases "spx_fft_init env (2 * n)") (simp_all add: speex_echo_state_init_mc_def Let_def split: if_splits)
  from assms show ?thesis
    unfolding speex_echo_state_init_mc_def Let_def l bind.bind_lunit
    by (intro exI [of _ l]) (simp only: alloc_bind_Some option.inject option.distinct prod_list.Cons prod_list.Nil mult_1_right w c f
      mult.assoc [symmetric] split: if_splits)
qed

lemma echo_inv_init:
  assumes "speex_echo_state_init_mc env n fl C K = Some st"
  shows "echo_inv n ((fl + n - 1) div n) C K st"
  using echo_init_alloc [OF assms] unit_f0
  by (auto simp: echo_inv_def set_notch_def set_rate_def es_shape_def alloc_shape_def echo_window_def Let_def)

lemma bind_total: "a \<noteq> None \<Longrightarrow> (\<And>x. f x \<noteq> None) \<Longrightarrow> Option.bind a f \<noteq> None"
  by (cases a) auto

text \<open>Creation succeeds when the largest array fits.\<close>

lemma echo_init_returns:
  assumes pos: "0 < n" "0 < fl" "0 < C" "0 < K" and "24 * n < 2 ^ 31" "fl + n < 2 ^ 31"
    and big: "C * K * ((fl + n - 1) div n + 1) * (2 * n) * 4 < 2 ^ 31"
  shows "\<exists>st. speex_echo_state_init_mc env n fl C K = Some st"
proof -
  define M where "M = (fl + n - 1) div n"
  have M: "0 < M" unfolding M_def using pos by (simp add: div_greater_zero_iff)
  obtain n' M' C' K' where suc: "n = Suc n'" "M = Suc M'" "C = Suc C'" "K = Suc K'"
    using pos M by (metis gr0_implies_Suc)
  have fits: "speex_alloc ns k z \<noteq> None" if "\<forall>n \<in> set ns. 0 < n" "0 < k" "prod_list ns * k \<le> C * K * (M + 1) * (2 * n) * 4"
    for ns k and z :: 'b
    using speex_alloc_fits [OF that(1,2), of z] le_less_trans [OF that(3) big [folded M_def]] by simp
  have fft: "spx_fft_init env (2 * n) \<noteq> None"
    using drft_init_returns [of "2 * n" env] assms(1,5) by (auto simp: spx_fft_init_def)
  have ok: "\<not> (M = 0 \<or> 2 ^ 31 \<le> fl + n)" using M assms(6) by simp
  have "speex_echo_state_init_mc env n fl C K \<noteq> None"
    unfolding speex_echo_state_init_mc_def Let_def M_def [symmetric] if_not_P [OF ok]
    by (intro bind_total fft fits; simp add: suc algebra_simps)
  then show ?thesis by blast
qed

lemma shape_reset: "es_shape (speex_echo_state_reset st) = es_shape st"
  by (simp add: speex_echo_state_reset_def es_shape_def Let_def)

lemma echo_inv_reset:
  assumes "es_shape st = alloc_shape n M C K" "unit_fval (es_leak_estimate st)"
  shows "echo_inv n M C K (speex_echo_state_reset st)"
  using assms shape_reset [of st] shape_sizes(1) [OF assms(1)]
  by (simp add: echo_inv_def speex_echo_state_reset_def Let_def)

text \<open>How a frame ends: with a reset, or with the adaptation.\<close>

lemma leak_last: "es_leak_estimate (echo_last_y inp out st) = es_leak_estimate st"
  "es_leak_estimate (echo_rate_adapted RER st) = es_leak_estimate st"
  "es_leak_estimate (echo_rate_initial Sxx See st) = es_leak_estimate st"
  by (simp_all add: echo_last_y_def echo_rate_adapted_def echo_rate_initial_def Let_def)

lemma leak_adapt: "unit_fval (es_leak_estimate (echo_adapt env inp out Sxx Syy See Sey st))"
  using echo_leak_unit by (simp add: echo_adapt_def Let_def split_beta leak_last)

lemma keep_sanity:
  "es_keep ((snd (echo_sanity Syy Sxx See Sff Sdd (out, st)))\<lparr>es_screwed_up := es_screwed_up st\<rparr>) = es_keep st"
  "es_saturated (snd (echo_sanity Syy Sxx See Sff Sdd (out, st))) = es_saturated st"
  "es_leak_estimate (snd (echo_sanity Syy Sxx See Sff Sdd (out, st))) = es_leak_estimate st"
  by (simp_all add: echo_sanity_def keep_simps)

lemma screwed_sanity: "0 \<le> es_screwed_up st \<Longrightarrow> 0 \<le> es_screwed_up (snd (echo_sanity Syy Sxx See Sff Sdd (out, st)))"
  by (simp add: echo_sanity_def Let_def)

text \<open>Whether the frame ends with a reset.\<close>

definition echo_slapped :: "spx_env \<Rightarrow> s16 list \<Rightarrow> s16 list \<Rightarrow> s16 list \<Rightarrow> SpeexEchoState \<Rightarrow> bool" where
  "echo_slapped env inp far_end out st =
     (let ((Sxx, Sff, See, Sey, Syy, Sdd), out, st) = echo_filter env inp far_end out st
      in es_screwed_up (snd (echo_sanity Syy Sxx See Sff Sdd (out, st))) \<ge> 50)"

lemma cancellation_cases:
  obtains (reset) s out' where "echo_slapped env inp far out st"
      "speex_echo_cancellation env inp far out st = (out', speex_echo_state_reset s)"
      "es_shape s = es_shape st" "es_leak_estimate s = es_leak_estimate st"
  | (adapt) s where "\<not> echo_slapped env inp far out st"
      "snd (speex_echo_cancellation env inp far out st) = s"
      "es_shape s = es_shape st" "es_play_buf s = es_play_buf st" "es_play_buf_pos s = es_play_buf_pos st"
      "es_play_buf_started s = es_play_buf_started st" "unit_fval (es_leak_estimate s)" "es_screwed_up s < 50"
      "0 \<le> es_screwed_up st \<Longrightarrow> 0 \<le> es_screwed_up s" "flag01 st \<Longrightarrow> flag01 s"
proof -
  obtain Sxx Sff See Sey Syy Sdd out1 st1 where f: "echo_filter env inp far out st = ((Sxx, Sff, See, Sey, Syy, Sdd), out1, st1)"
    using prod_cases6 by (metis prod.exhaust)
  obtain out2 st2 where s: "echo_sanity Syy Sxx See Sff Sdd (out1, st1) = (out2, st2)" by fastforce
  have k1: "es_keep st1 = es_keep st" "es_leak_estimate st1 = es_leak_estimate st"
    using keep_filter [of env inp far out st] by (simp_all add: f)
  have k2: "es_keep (st2\<lparr>es_screwed_up := es_screwed_up st1\<rparr>) = es_keep st1" "es_leak_estimate st2 = es_leak_estimate st1"
    "es_saturated st2 = es_saturated st1"
    using keep_sanity [where Syy = Syy and Sxx = Sxx and See = See and Sff = Sff and Sdd = Sdd and out = out1 and st = st1] by (simp_all add: s)
  have sl: "echo_slapped env inp far out st = (es_screwed_up st2 \<ge> 50)" by (simp add: echo_slapped_def f s)
  have sh: "es_shape st2 = es_shape st" using k1(1) k2(1) by (simp add: es_keep_def es_shape_def)
  show thesis
  proof (cases "es_screwed_up st2 \<ge> 50")
    case True
    then have "speex_echo_cancellation env inp far out st = (out2, speex_echo_state_reset st2)"
      by (simp add: speex_echo_cancellation_def f s)
    with True sl sh k1 k2 show thesis by (intro reset [of out2 st2]) auto
  next
    case False
    let ?s = "echo_adapt env inp out2 Sxx Syy See Sey st2"
    have c: "snd (speex_echo_cancellation env inp far out st) = ?s"
      using False by (simp add: speex_echo_cancellation_def f s)
    have k3: "es_keep ?s = es_keep st2" "es_saturated ?s = es_saturated st2" using keep_adapt by simp_all
    have sat: "flag01 st \<Longrightarrow> flag01 st2" using sat_filter [of st env inp far out] k2(3) by (simp add: f)
    have pos: "0 \<le> es_screwed_up st \<Longrightarrow> 0 \<le> es_screwed_up st2"
      using screwed_sanity [of st1 Syy Sxx See Sff Sdd out1] k1(1) by (simp add: s es_keep_def)
    have pb: "es_play_buf ?s = es_play_buf st" "es_play_buf_pos ?s = es_play_buf_pos st" "es_play_buf_started ?s = es_play_buf_started st"
      using k3(1) k2(1) k1(1) by (simp_all add: es_keep_def)
    have sh3: "es_shape ?s = es_shape st" "es_screwed_up ?s = es_screwed_up st2" using k3(1) sh by (simp_all add: es_keep_def)
    show thesis
    proof (rule adapt [OF _ c sh3(1) pb leak_adapt])
      show "\<not> echo_slapped env inp far out st" "es_screwed_up ?s < 50" using False sl sh3(2) by simp_all
      show "0 \<le> es_screwed_up st \<Longrightarrow> 0 \<le> es_screwed_up ?s" using pos sh3(2) by simp
      show "flag01 st \<Longrightarrow> flag01 ?s" using sat k3(2) by simp
    qed
  qed
qed

lemma echo_inv_cancellation:
  assumes "echo_inv n M C K st"
  shows "echo_inv n M C K (snd (speex_echo_cancellation env inp far out st))"
proof (cases rule: cancellation_cases [of env inp far out st])
  case (reset s out')
  then show ?thesis using echo_inv_reset [of s n M C K] assms by (simp add: echo_inv_def)
next
  case (adapt s)
  then show ?thesis using assms by (simp add: echo_inv_def)
qed

lemma reset_pos: "es_play_buf_pos (speex_echo_state_reset s) = 2 * es_frame_size s"
  "es_play_buf_started (speex_echo_state_reset s) = False"
  by (simp_all add: speex_echo_state_reset_def Let_def)

lemma echo_inv_capture:
  assumes "echo_inv n M C K st"
  shows "echo_inv n M C K (snd (snd (speex_echo_capture env rec out st)))"
proof -
  have n: "es_frame_size st = n" using assms shape_sizes(1) by (simp add: echo_inv_def)
  let ?st = "st\<lparr>es_play_buf_started := True\<rparr>"
  have i: "echo_inv n M C K ?st" using assms by (simp add: echo_inv_def es_shape_def)
  let ?c = "snd (speex_echo_cancellation env rec (es_play_buf st) out ?st)"
  have c: "echo_inv n M C K ?c" using echo_inv_cancellation [OF i] .
  have n2: "es_frame_size ?c = n" using c shape_sizes(1) by (simp add: echo_inv_def)
  show ?thesis
    using assms c n n2 by (auto simp: speex_echo_capture_def Let_def split_beta echo_inv_def es_shape_def)
qed

lemma echo_inv_playback:
  assumes "echo_inv n M C K st"
  shows "echo_inv n M C K (snd (speex_echo_playback play st))"
proof -
  have n: "es_frame_size st = n" using assms shape_sizes(1) by (simp add: echo_inv_def)
  then show ?thesis
    using assms by (auto simp: speex_echo_playback_def Let_def echo_inv_def es_shape_def)
qed

lemma echo_inv_rest:
  assumes "echo_inv n M C K st"
  shows "echo_inv n M C K (speex_echo_state_reset st)" "echo_inv n M C K (snd (speex_echo_get_residual env res st))"
    "echo_inv n M C K (snd (snd (speex_echo_ctl env req st)))"
proof -
  show "echo_inv n M C K (speex_echo_state_reset st)" using echo_inv_reset assms by (simp add: echo_inv_def)
  show "echo_inv n M C K (snd (speex_echo_get_residual env res st))"
    using assms by (simp add: speex_echo_get_residual_def echo_inv_def es_shape_def Let_def split_beta)
  have "echo_inv n M C K (snd (echo_impulse_response env st))"
    unfolding echo_impulse_response_def
    by (rule fold_keeps_pred [of "\<lambda>x. echo_inv n M C K (snd x)"]) (use assms in \<open>auto simp: split_beta Let_def echo_inv_def es_shape_def\<close>)
  then show "echo_inv n M C K (snd (snd (speex_echo_ctl env req st)))"
    using assms by (cases req) (auto simp: split_beta Let_def echo_inv_def es_shape_def set_notch_def set_rate_def)
qed

text \<open>The states that a sequence of calls reaches.\<close>

inductive echo_reach :: "spx_env \<Rightarrow> nat \<Rightarrow> nat \<Rightarrow> nat \<Rightarrow> nat \<Rightarrow> SpeexEchoState \<Rightarrow> bool"
  for env n fl C K where
  reach_init: "speex_echo_state_init_mc env n fl C K = Some st \<Longrightarrow> echo_reach env n fl C K st"
| reach_cancel: "echo_reach env n fl C K st \<Longrightarrow> echo_reach env n fl C K (snd (speex_echo_cancellation env inp far out st))"
| reach_capture: "echo_reach env n fl C K st \<Longrightarrow> echo_reach env n fl C K (snd (snd (speex_echo_capture env rec out st)))"
| reach_playback: "echo_reach env n fl C K st \<Longrightarrow> echo_reach env n fl C K (snd (speex_echo_playback play st))"
| reach_reset: "echo_reach env n fl C K st \<Longrightarrow> echo_reach env n fl C K (speex_echo_state_reset st)"
| reach_residual: "echo_reach env n fl C K st \<Longrightarrow> echo_reach env n fl C K (snd (speex_echo_get_residual env res st))"
| reach_ctl: "echo_reach env n fl C K st \<Longrightarrow> echo_reach env n fl C K (snd (snd (speex_echo_ctl env req st)))"

lemma echo_reach_inv: "echo_reach env n fl C K st \<Longrightarrow> echo_inv n ((fl + n - 1) div n) C K st"
proof (induction rule: echo_reach.induct)
  case (reach_init st)
  then show ?case by (rule echo_inv_init)
qed (simp_all add: echo_inv_cancellation echo_inv_capture echo_inv_playback echo_inv_rest)

section \<open>The playback buffer as a queue\<close>

definition playq :: "SpeexEchoState \<Rightarrow> s16 list" where
  "playq st = take (es_play_buf_pos st) (es_play_buf st)"

lemma shift_down:
  assumes "m + n \<le> length b"
  shows "fold (\<lambda>i b. b[i := b ! (i + n)]) [0..<m] b = take m (drop n b) @ drop m b"
  using assms
proof (induction m)
  case (Suc m)
  then have d: "drop m b = b ! m # drop (Suc m) b" by (simp add: Cons_nth_drop_Suc)
  have "(take m (drop n b) @ drop m b) ! (m + n) = b ! (m + n)" using Suc.prems by (simp add: nth_append)
  moreover have "take (Suc m) (drop n b) = take m (drop n b) @ [b ! (m + n)]" using Suc.prems by (simp add: take_Suc_conv_app_nth add.commute)
  ultimately show ?case using Suc by (simp add: list_update_append d)
qed simp

lemma put_frame:
  assumes "k + n \<le> length b" "n \<le> length play"
  shows "take (k + n) (fold (\<lambda>i b. b[k + i := play ! i]) [0..<n] b) = take k b @ take n play"
proof -
  have "fold (\<lambda>i b. b[k + i := play ! i]) [0..<n] b = take k b @ map ((!) play) [0..<n] @ drop (k + n) b"
    using fold_fill [of n "drop k b" "take k b" "(!) play"] assms by (simp add: add.commute)
  moreover have "map ((!) play) [0..<n] = take n play" using assms by (simp add: list_eq_iff_nth_eq)
  ultimately show ?thesis using assms by simp
qed

text \<open>\<open>put_play\<close> is what \<open>speex_echo_playback\<close> does to store one frame.\<close>

definition put_play :: "s16 list \<Rightarrow> SpeexEchoState \<Rightarrow> SpeexEchoState" where
  "put_play play st = st\<lparr>es_play_buf := fold (\<lambda>i b. b[es_play_buf_pos st + i := play ! i]) [0..<es_frame_size st] (es_play_buf st),
     es_play_buf_pos := es_play_buf_pos st + es_frame_size st\<rparr>"

lemma put_play_simps [simp]:
  "es_frame_size (put_play play st) = es_frame_size st" "length (es_play_buf (put_play play st)) = length (es_play_buf st)"
  "es_play_buf_pos (put_play play st) = es_play_buf_pos st + es_frame_size st"
  by (simp_all add: put_play_def)

lemma playback_put:
  "snd (speex_echo_playback play st) =
    (if \<not> es_play_buf_started st \<or> 2 * es_frame_size st < es_play_buf_pos st then st
     else if es_play_buf_pos st = 0 \<or> es_frame_size st = 0 then put_play play (put_play play st) else put_play play st)"
  by (auto simp: speex_echo_playback_def put_play_def Let_def)

lemma playq_put:
  assumes "es_play_buf_pos st + es_frame_size st \<le> length (es_play_buf st)" "es_frame_size st \<le> length play"
  shows "playq (put_play play st) = playq st @ take (es_frame_size st) play"
  using put_frame [OF assms] by (simp add: playq_def put_play_def)

lemma inv_room:
  assumes "echo_inv n M C K st" "1 \<le> K"
  shows "es_frame_size st = n" "3 * n \<le> length (es_play_buf st)" "length (playq st) = es_play_buf_pos st"
    "es_play_buf_pos st \<in> {0, n, 2 * n, 3 * n}"
proof -
  show n: "es_frame_size st = n" and p: "es_play_buf_pos st \<in> {0, n, 2 * n, 3 * n}" using assms shape_sizes by (auto simp: echo_inv_def)
  have "length (es_play_buf st) = K * (3 * n)" using assms shape_sizes(6) by (simp add: echo_inv_def)
  then show l: "3 * n \<le> length (es_play_buf st)" using assms(2) by simp
  show "length (playq st) = es_play_buf_pos st" using l p by (auto simp: playq_def)
qed

lemma playback_queue:
  assumes inv: "echo_inv n M C K st" and pos: "0 < n" "1 \<le> K" "n \<le> length play"
  shows "playq (snd (speex_echo_playback play st)) =
    (if \<not> es_play_buf_started st \<or> 2 * n < length (playq st) then playq st
     else playq st @ take n play @ (if playq st = [] then take n play else []))"
proof -
  note r = inv_room [OF inv pos(2)]
  have "playq st = [] \<longleftrightarrow> es_play_buf_pos st = 0" using r(3) by (metis length_0_conv)
  moreover have "playq (put_play play (put_play play st)) = playq st @ take n play @ take n play" if "es_play_buf_pos st = 0"
    using playq_put [of "put_play play st" play] playq_put [of st play] r that pos by simp
  moreover have "playq (put_play play st) = playq st @ take n play" if "es_play_buf_pos st \<le> 2 * n"
    using playq_put [of st play] r that pos by simp
  ultimately show ?thesis using r pos by (auto simp: playback_put)
qed

lemma capture_cancel:
  assumes "n = es_frame_size st" "n \<le> es_play_buf_pos st" "es_frame_size c = n"
    "snd (speex_echo_cancellation env rec (es_play_buf st) out (st\<lparr>es_play_buf_started := True\<rparr>)) = c"
    "es_play_buf_pos c \<le> length (es_play_buf c)" "n \<le> es_play_buf_pos c"
  shows "playq (snd (snd (speex_echo_capture env rec out st))) = drop n (playq c)"
    "es_play_buf_started (snd (snd (speex_echo_capture env rec out st))) = es_play_buf_started c"
proof -
  let ?m = "es_play_buf_pos c - n"
  have "fold (\<lambda>i b. b[i := b ! (i + n)]) [0..<?m] (es_play_buf c) = take ?m (drop n (es_play_buf c)) @ drop ?m (es_play_buf c)"
    by (rule shift_down) (use assms in simp)
  then show "playq (snd (snd (speex_echo_capture env rec out st))) = drop n (playq c)"
    "es_play_buf_started (snd (snd (speex_echo_capture env rec out st))) = es_play_buf_started c"
    using assms by (simp_all add: speex_echo_capture_def Let_def split_beta playq_def drop_take)
qed

lemma capture_queue:
  fixes env rec out
  assumes inv: "echo_inv n M C K st" and pos: "0 < n" "1 \<le> K" and avail: "playq st \<noteq> []"
  defines "st' \<equiv> snd (snd (speex_echo_capture env rec out st))"
  shows "if echo_slapped env rec (es_play_buf st) out (st\<lparr>es_play_buf_started := True\<rparr>)
    then playq st' = replicate n 0 \<and> \<not> es_play_buf_started st'
    else playq st' = drop n (playq st) \<and> es_play_buf_started st'"
proof -
  let ?st = "st\<lparr>es_play_buf_started := True\<rparr>"
  note r = inv_room [OF inv pos(2)]
  have "es_play_buf_pos st \<noteq> 0" using avail by (auto simp: playq_def)
  then have p: "n \<le> es_play_buf_pos st" using r(4) by auto
  have sh: "es_shape ?st = es_shape st" by (simp add: es_shape_def)
  show ?thesis
  proof (cases rule: cancellation_cases [of env rec "es_play_buf st" out ?st])
    case (reset s o')
    have s: "es_frame_size s = n" "length (es_play_buf s) = length (es_play_buf st)" using reset(3) r(1) by (simp_all add: es_shape_def)
    let ?c = "speex_echo_state_reset s"
    have c: "es_frame_size ?c = n" "es_play_buf_pos ?c = 2 * n" "es_play_buf ?c = replicate (3 * n) 0 @ drop (3 * n) (es_play_buf s)"
      "\<not> es_play_buf_started ?c"
      using s r(2) by (simp_all add: speex_echo_state_reset_def Let_def fill_eq)
    have "playq ?c = replicate (2 * n) 0" using c by (simp add: playq_def)
    moreover have "snd (speex_echo_cancellation env rec (es_play_buf st) out ?st) = ?c" using reset(2) by simp
    ultimately show ?thesis
      using reset(1) capture_cancel [of n st ?c env rec out] r p c by (simp add: st'_def)
  next
    case (adapt s)
    have s: "es_frame_size s = n" "playq s = playq st" "es_play_buf_pos s \<le> length (es_play_buf s)" "n \<le> es_play_buf_pos s"
      using adapt(3-5) r p by (auto simp: es_shape_def playq_def)
    then show ?thesis
      using adapt(1,6) capture_cancel [of n st s env rec out] adapt(2) r(1) p by (simp add: st'_def)
  qed
qed

section \<open>Reset and a fresh state\<close>

text \<open>With one microphone and one loudspeaker, what a reset leaves of the state.\<close>

lemma reset_mono:
  assumes "echo_inv n ((fl + n - 1) div n) 1 1 st" "speex_echo_state_init env n fl = Some fresh"
  shows "speex_echo_state_reset st = fresh\<lparr>es_leak_estimate := es_leak_estimate st, es_prop := es_prop st,
     es_last_y := replicate n f0 @ drop n (es_last_y st),
     es_sampling_rate := es_sampling_rate st, es_spec_average := es_spec_average st, es_beta0 := es_beta0 st,
     es_beta_max := es_beta_max st, es_notch_radius := es_notch_radius st, es_preemph := es_preemph st, es_window := es_window st,
     es_e := es_e st, es_input := es_input st, es_y := es_y st, es_Y := es_Y st, es_PHI := es_PHI st, es_wtmp := es_wtmp st,
     es_Rf := es_Rf st, es_Yf := es_Yf st, es_Xf := es_Xf st, es_fft_table := es_fft_table st\<rparr>"
proof -
  have l: "es_shape st = alloc_shape n ((fl + n - 1) div n) 1 1" using assms by (simp add: echo_inv_def)
  then have s: "es_frame_size st = n" "es_window_size st = 2 * n" "es_M st = (fl + n - 1) div n" "es_C st = 1" "es_K st = 1"
    "length (es_W st) = (fl + n - 1) div n * (2 * n)" "length (es_foreground st) = (fl + n - 1) div n * (2 * n)"
    "length (es_X st) = ((fl + n - 1) div n + 1) * (2 * n)" "length (es_power st) = n + 1" "length (es_power_1 st) = n + 1"
    "length (es_Eh st) = n + 1" "length (es_Yh st) = n + 1" "length (es_last_y st) = 2 * n" "length (es_E st) = 2 * n"
    "length (es_x st) = 2 * n" "length (es_notch_mem st) = 2" "length (es_memD st) = 1" "length (es_memE st) = 1" "length (es_memX st) = 1"
    "length (es_play_buf st) = 3 * n"
    by (simp_all add: es_shape_def alloc_shape_def Let_def)
  show ?thesis
    by (rule SpeexEchoState.equality)
      (use s echo_init_alloc [OF assms(2) [unfolded speex_echo_state_init_def]] in \<open>auto simp: speex_echo_state_reset_def
        set_notch_def set_rate_def Let_def fill_eq mult.commute\<close>)
qed

lemma fill_beyond: "n \<le> i \<Longrightarrow> fill n v a ! i = a ! i"
proof (induction n)
  case (Suc n)
  then show ?case by (simp add: fill_def)
qed (simp add: fill_def)

lemma reset_other_channels:
  assumes "es_window_size st * es_M st \<le> i"
  shows "es_W (speex_echo_state_reset st) ! i = es_W st ! i" "es_foreground (speex_echo_state_reset st) ! i = es_foreground st ! i"
  using assms by (simp_all add: speex_echo_state_reset_def Let_def fill_beyond)

section \<open>The alternating constraint\<close>

lemma mod_hits_once:
  fixes c d :: int
  assumes "0 \<le> r" "r < d"
  shows "\<exists>!k :: nat. int k < d \<and> (c + int k) mod d = r"
proof -
  define k where "k = nat ((r - c) mod d)"
  have k: "int k = (r - c) mod d" using assms by (simp add: k_def)
  show ?thesis
  proof (rule ex1I [of _ k])
    show "int k < d \<and> (c + int k) mod d = r" using assms by (simp add: k mod_simps)
  next
    fix k' :: nat assume *: "int k' < d \<and> (c + int k') mod d = r"
    then have "(r - c) mod d = (c + int k' - c) mod d" by (metis mod_diff_left_eq)
    then show "k' = k" using * k by simp
  qed
qed

lemma aumdf_once:
  assumes "1 \<le> j" "j < M"
  shows "\<exists>!k. k < M - 1 \<and> aumdf_selects (c + int k) M j"
proof -
  have "k < M - 1 \<and> aumdf_selects (c + int k) M j \<longleftrightarrow> int k < int M - 1 \<and> (c + int k) mod (int M - 1) = int j - 1" for k
    using assms by (auto simp: aumdf_selects_def)
  with mod_hits_once [of "int j - 1" "int M - 1" c] assms show ?thesis by simp
qed

section \<open>The abstract queue\<close>

text \<open>What the header promises of \<open>speex_echo_capture\<close> and \<open>speex_echo_playback\<close>: a bounded queue of
  frames. \<open>CaptureReset\<close> is a capture whose frame ends with a reset of the canceller.\<close>

datatype pq_op = Play "s16 list" | Capture | CaptureReset

fun pq_step :: "nat \<Rightarrow> pq_op \<Rightarrow> bool \<times> s16 list \<Rightarrow> bool \<times> s16 list" where
  "pq_step n (Play f) (started, q) =
     (started, if \<not> started \<or> 2 * n < length q then q else q @ take n f @ (if q = [] then take n f else []))"
| "pq_step n Capture (started, q) = (True, drop n q)"
| "pq_step n CaptureReset (started, q) = (False, replicate n 0)"

definition pq_abs :: "SpeexEchoState \<Rightarrow> bool \<times> s16 list" where
  "pq_abs st = (es_play_buf_started st, playq st)"

definition capture_op :: "spx_env \<Rightarrow> s16 list \<Rightarrow> s16 list \<Rightarrow> SpeexEchoState \<Rightarrow> pq_op" where
  "capture_op env rec out st =
     (if playq st \<noteq> [] \<and> echo_slapped env rec (es_play_buf st) out (st\<lparr>es_play_buf_started := True\<rparr>) then CaptureReset else Capture)"

lemma started_playback: "es_play_buf_started (snd (speex_echo_playback play st)) = es_play_buf_started st"
  by (simp add: playback_put put_play_def)

lemma capture_underrun:
  assumes inv: "echo_inv n M C K st" and pos: "0 < n" "1 \<le> K" and q: "playq st = []"
    and len: "n \<le> length rec" "length out = n"
  shows "speex_echo_capture env rec out st = (take n rec, [NoPlaybackFrame], st\<lparr>es_play_buf_started := True\<rparr>)"
proof -
  note r = inv_room [OF inv pos(2)]
  have p: "es_play_buf_pos st = 0" using r(3) q by simp
  have "fold (\<lambda>i out. out[i := rec ! i]) [0..<n] out = take n rec"
    using fold_fill [of n out "[]" "(!) rec"] len by (simp add: list_eq_iff_nth_eq)
  with p r(1) pos show ?thesis by (simp add: speex_echo_capture_def Let_def)
qed

lemma pq_refines:
  assumes inv: "echo_inv n M C K st" and pos: "0 < n" "1 \<le> K"
  shows "n \<le> length play \<Longrightarrow> pq_abs (snd (speex_echo_playback play st)) = pq_step n (Play play) (pq_abs st)"
    and "pq_abs (snd (snd (speex_echo_capture env rec out st))) = pq_step n (capture_op env rec out st) (pq_abs st)"
proof -
  show "n \<le> length play \<Longrightarrow> pq_abs (snd (speex_echo_playback play st)) = pq_step n (Play play) (pq_abs st)"
    using playback_queue [OF inv pos] by (simp add: pq_abs_def started_playback)
  show "pq_abs (snd (snd (speex_echo_capture env rec out st))) = pq_step n (capture_op env rec out st) (pq_abs st)"
  proof (cases "playq st = []")
    case True
    then have "es_play_buf_pos st = 0" using inv_room(3) [OF inv pos(2)] by simp
    with True pos inv_room(1) [OF inv pos(2)] show ?thesis
      by (simp add: pq_abs_def capture_op_def speex_echo_capture_def Let_def playq_def)
  next
    case False
    from capture_queue [OF inv pos False, of env rec out] False show ?thesis by (auto simp: pq_abs_def capture_op_def split: if_splits)
  qed
qed

text \<open>In the steady state a played frame is the reference of the second capture after it.\<close>

lemma reference_abs: "n \<le> length (snd (pq_abs s)) \<Longrightarrow> take n (es_play_buf s) = take n (snd (pq_abs s))"
  by (auto simp: pq_abs_def playq_def min_def split: if_splits)

lemma pq_delay_first:
  assumes inv: "echo_inv n M C K st" and pos: "0 < n" "1 \<le> K" and q: "pq_abs st = (True, a)" "length a = n" and len: "length f = n"
  shows "take n (es_play_buf (snd (speex_echo_playback f st))) = a" "pq_abs (snd (speex_echo_playback f st)) = (True, a @ f)"
proof -
  show p1: "pq_abs (snd (speex_echo_playback f st)) = (True, a @ f)" using pq_refines(1) [OF inv pos, of f] q len pos by auto
  show "take n (es_play_buf (snd (speex_echo_playback f st))) = a" using reference_abs [of n "snd (speex_echo_playback f st)"] p1 q by simp
qed

lemma pq_delay:
  assumes inv: "echo_inv n M C K st" and pos: "0 < n" "1 \<le> K"
    and q: "pq_abs st = (True, a)" "length a = n" and len: "length f = n" "length g = n"
  defines "st1 \<equiv> snd (speex_echo_playback f st)"
  assumes c: "capture_op env rec out st1 = Capture"
  shows "take n (es_play_buf (snd (speex_echo_playback g (snd (snd (speex_echo_capture env rec out st1)))))) = f"
proof -
  have i1: "echo_inv n M C K st1" unfolding st1_def by (rule echo_inv_playback [OF inv])
  note p1 = pq_delay_first(2) [OF inv pos q len(1), folded st1_def]
  let ?st2 = "snd (snd (speex_echo_capture env rec out st1))"
  have i2: "echo_inv n M C K ?st2" by (rule echo_inv_capture [OF i1])
  have p2: "pq_abs ?st2 = (True, f)" using pq_refines(2) [OF i1 pos, of env rec out] p1 c q by simp
  let ?st3 = "snd (speex_echo_playback g ?st2)"
  have p3: "pq_abs ?st3 = (True, f @ g)" using pq_refines(1) [OF i2 pos, of g] p2 len pos by auto
  show "take n (es_play_buf ?st3) = f" using reference_abs [of n ?st3] p3 len by simp
qed

text \<open>An environment to run the code in: rough mathematical functions.\<close>

definition tiny_env :: spx_env where
  "tiny_env = \<lparr>m_cos = (\<lambda>_. f1), m_sin = (\<lambda>_. f0), m_exp = (\<lambda>x. x), m_sqrt = (\<lambda>x. x), m_atan = (\<lambda>x. x), m_log = (\<lambda>x. x),
     m_pow = (\<lambda>x y. x), env_badcast = (\<lambda>_. 0)\<rparr>"

end
