(* ===== verification/SpxPreprocInv.thy ===== *)
theory SpxPreprocInv
  imports SpxPreproc SpxEchoInv
begin

text \<open>
  What the preprocessor guarantees: the arrays keep their sizes and the counters and settings their
  ranges in every reachable state, the automatic gain never exceeds its limits, voice detection is a
  two-threshold state machine, the filter bank stays inside its arrays, and what the control
  requests read back of what they set.
\<close>

section \<open>Shape of a state\<close>

definition pp_shape :: "SpeexPreprocessState \<Rightarrow> nat list" where
  "pp_shape st =
     [pp_frame_size st, pp_ps_size st, pp_nbands st, length (pp_frame st), length (pp_ft st), length (pp_ps st), length (pp_gain2 st),
      length (pp_gain_floor st), length (pp_window st), length (pp_noise st), length (pp_reverb_estimate st), length (pp_old_ps st),
      length (pp_gain st), length (pp_prior st), length (pp_post st), length (pp_S st), length (pp_Smin st), length (pp_Stmp st),
      length (pp_update_prob st), length (pp_zeta st), length (pp_echo_noise st), length (pp_residual_echo st), length (pp_inbuf st),
      length (pp_outbuf st), length (pp_loudness_weight st)]"

text \<open>The shape that creation allocates for frames of \<open>n\<close> samples.\<close>

definition pp_alloc_shape :: "nat \<Rightarrow> nat list" where
  "pp_alloc_shape n = (let k = n + 24 in
     [n, n, 24, 2 * n, 2 * n, k, k, k, 2 * n, k, k, k, k, k, k, n, n, n, n, k, k, k, n, n, n])"

lemma length_bank32 [simp]: "length (filterbank_compute_bank32 bank ps mel) = length mel"
  unfolding filterbank_compute_bank32_def filterbank_accum_def Let_def by (rule fold_keeps [THEN trans]) simp_all

lemma length_psd16 [simp]: "length (filterbank_compute_psd16 bank mel ps) = length ps"
  by (simp add: filterbank_compute_psd16_def Let_def)

lemma length_compute_gain_floor [simp]: "length (compute_gain_floor env a b noise echo gf n) = length gf"
  by (simp add: compute_gain_floor_def Let_def)

lemma length_pp_smooth_S [simp]: "length (pp_smooth_S N ps S) = length S"
  by (simp add: pp_smooth_S_def Let_def)

lemma length_run_damp [simp]: "length (run_damp N frame) = length frame"
  by (simp add: run_damp_def Let_def)

lemma length_fold_if_upd [simp]: "length (fold (\<lambda>i a. if p i a then a[g i := h i a] else a) xs a) = length a"
  by (rule fold_keeps) simp

lemma length_pp_window_init [simp]: "length (pp_window_init env N N3 N4 w) = length w"
  by (simp add: pp_window_init_def conj_window_def Let_def)

section \<open>What the stages of a frame leave alone\<close>

definition pp_keep :: "SpeexPreprocessState \<Rightarrow>
    nat list \<times> (int \<times> int) \<times> (int \<times> fval \<times> fval \<times> bool) \<times> (int \<times> int \<times> int) \<times> (int \<times> fval \<times> fval) \<times> fval \<times> FilterBank" where
  "pp_keep st = (pp_shape st, (pp_nb_adapt st, pp_min_count st),
     (pp_vad_enabled st, pp_speech_prob_start st, pp_speech_prob_continue st, pp_was_speech st),
     (pp_noise_suppress st, pp_echo_suppress st, pp_echo_suppress_active st), (pp_agc_enabled st, pp_agc_level st, pp_max_gain st), pp_agc_gain st, pp_bank st)"

lemmas pp_keep_simps = pp_keep_def pp_shape_def Let_def

lemma keep_echo_noise: "pp_keep (snd (run_echo_noise env heap st)) = pp_keep st"
  by (simp add: run_echo_noise_def pp_keep_simps split_beta speex_echo_get_residual_def split: option.split)

lemma keep_analysis: "pp_keep (preprocess_analysis env x st) = pp_keep st"
  by (simp add: preprocess_analysis_def pp_keep_simps split_beta)

lemma keep_noise_update: "pp_keep (run_noise_update beta st) = pp_keep st"
  by (simp add: run_noise_update_def pp_keep_simps)

lemma keep_snr: "pp_keep (fold run_snr is st) = pp_keep st"
  by (rule fold_keeps) (simp add: run_snr_def pp_keep_simps)

lemma keep_zeta: "pp_keep (run_zeta st) = pp_keep st"
  by (simp add: run_zeta_def pp_keep_simps)

lemma keep_gain_floor: "pp_keep (run_gain_floor env Pframe st) = pp_keep st"
  by (simp add: run_gain_floor_def pp_keep_simps)

lemma keep_band_gain: "pp_keep (fold (run_band_gain env Pframe) is st) = pp_keep st"
  by (rule fold_keeps) (simp add: run_band_gain_def pp_keep_simps save_old_ps_def split_beta)

lemma keep_linear_gain: "pp_keep (fold (run_linear_gain env) is st) = pp_keep st"
  by (rule fold_keeps) (simp add: run_linear_gain_def pp_keep_simps save_old_ps_def)

lemma keep_gains: "pp_keep (run_gains env Pframe st) = pp_keep st"
proof -
  have psd: "pp_keep (s\<lparr>pp_gain2 := filterbank_compute_psd16 b m (pp_gain2 s), pp_gain := filterbank_compute_psd16 b' m' (pp_gain s),
      pp_gain_floor := filterbank_compute_psd16 b'' m'' (pp_gain_floor s)\<rparr>) = pp_keep s" for s b m b' m' b'' m''
    by (simp add: pp_keep_simps)
  have fl: "pp_keep (s\<lparr>pp_gain2 := fill k v (pp_gain2 s)\<rparr>) = pp_keep s" for s k v by (simp add: pp_keep_simps)
  show ?thesis by (simp add: run_gains_def Let_def fl keep_linear_gain psd keep_band_gain)
qed

lemma keep_apply: "pp_keep (run_apply st) = pp_keep st"
  by (simp add: run_apply_def pp_keep_simps)

lemma keep_synthesis: "pp_keep (snd (run_synthesis env x st)) = pp_keep st"
  by (simp add: run_synthesis_def pp_keep_simps split_beta)

lemmas keep_stages = keep_echo_noise keep_analysis keep_noise_update keep_snr keep_zeta keep_gain_floor keep_gains keep_apply keep_synthesis

text \<open>Counting a frame and restarting the search for the minimum, on the kept part alone.\<close>

fun keep_count :: "'s \<times> (int \<times> int) \<times> 'r \<Rightarrow> 's \<times> (int \<times> int) \<times> 'r" where
  "keep_count (s, (k, c), r) = (s, (min 20000 (k + 1), c + 1), r)"

fun keep_restart :: "'s \<times> (int \<times> int) \<times> 'r \<Rightarrow> 's \<times> (int \<times> int) \<times> 'r" where
  "keep_restart (s, (k, c), r) = (s, (k, if pp_min_range k < c then 0 else c), r)"

lemma keep_run_count: "pp_keep (run_count st) = keep_count (pp_keep st)"
  by (simp add: run_count_def pp_keep_simps min_def)

lemma keep_noise_prob: "pp_keep (update_noise_prob st) = keep_restart (pp_keep st)"
  by (simp add: update_noise_prob_def pp_keep_simps split_beta)

text \<open>The gain control changes nothing of the kept part but the gain.\<close>

lemma keep_agc: "pp_keep (speex_compute_agc env Pframe st) = pp_keep (st\<lparr>pp_agc_gain := pp_agc_gain (speex_compute_agc env Pframe st)\<rparr>)"
proof -
  have "pp_keep (agc_track env Pframe l st) = pp_keep st" for l by (simp add: agc_track_def pp_keep_simps)
  then show ?thesis by (simp add: speex_compute_agc_def Let_def) (auto simp: pp_keep_simps)
qed

text \<open>A frame is the stages before the gain control, the gain control when it is on, the synthesis and
  the voice decision.\<close>

lemma run_stages:
  obtains P s where "pp_keep s = keep_restart (keep_count (pp_keep st))"
    and "let s' = snd (run_synthesis env x (if pp_agc_enabled s \<noteq> 0 then speex_compute_agc env P s else s))
         in fst (speex_preprocess_run env x heap st) = fst (run_vad P s') \<and>
            snd (snd (snd (speex_preprocess_run env x heap st))) = snd (run_vad P s')"
proof -
  define c where "c = run_count st"
  define s2 where "s2 = run_noise_update (run_beta c) (update_noise_prob (preprocess_analysis env x (snd (run_echo_noise env heap c))))"
  define k where "k = pp_ps_size c + pp_nbands c"
  define s3 where "s3 = (if pp_nb_adapt s2 = 1 then s2\<lparr>pp_old_ps := fold (\<lambda>i a. a[i := pp_ps s2 ! i]) [0..<k] (pp_old_ps s2)\<rparr> else s2)"
  define s4 where "s4 = run_zeta (fold run_snr [0..<k] s3)"
  define P where "P = run_Pframe s4"
  define s where "s = run_apply (run_gains env P (run_gain_floor env P s4))"
  have "pp_keep s3 = pp_keep s2" by (simp add: s3_def pp_keep_simps)
  then have "pp_keep s = keep_restart (keep_count (pp_keep st))"
    by (simp add: s_def s4_def s2_def c_def keep_stages keep_noise_prob keep_run_count)
  moreover have "speex_preprocess_run env x heap st =
      (let (x', s') = run_synthesis env x (if pp_agc_enabled s \<noteq> 0 then speex_compute_agc env P s else s); (r, s'') = run_vad P s'
       in (r, x', fst (run_echo_noise env heap c), s''))"
    unfolding speex_preprocess_run_def Let_def s_def P_def s4_def s3_def k_def s2_def c_def by (simp add: split_beta)
  ultimately show thesis using that [of s P] by (simp add: Let_def split_beta)
qed

section \<open>Automatic gain\<close>

lemma flt_trans: "flt a b \<Longrightarrow> flt b c \<Longrightarrow> flt a c"
  by (cases a; cases b; cases c) (auto simp: flt.simps)

text \<open>A changed gain is within both limits, also when one of them is not a number.\<close>

lemma agc_clamp_bounded:
  "\<not> flt (pp_max_gain st) (agc_clamp l t st)" "\<not> flt (pp_init_max st) (agc_clamp l t st)"
proof -
  have irr: "\<not> flt a a" for a by (cases a) (auto simp: flt.simps)
  show "\<not> flt (pp_max_gain st) (agc_clamp l t st)" "\<not> flt (pp_init_max st) (agc_clamp l t st)"
    unfolding agc_clamp_def Let_def by (auto simp: irr dest: flt_trans)
qed

lemma agc_gain_cases:
  fixes env Pframe st
  defines "st' \<equiv> speex_compute_agc env Pframe st"
  shows "pp_agc_gain st' = pp_agc_gain st \<or>
    \<not> flt (pp_max_gain st) (pp_agc_gain st') \<and> \<not> flt (pp_init_max st') (pp_agc_gain st')"
proof -
  define l where "l = to_f32 (m_sqrt env (agc_loudness st))"
  define s where "s = agc_track env Pframe l st"
  have s: "pp_agc_gain s = pp_agc_gain st" "pp_max_gain s = pp_max_gain st" by (simp_all add: s_def agc_track_def Let_def)
  have "pp_init_max st' = pp_init_max s" "pp_agc_gain st' = pp_agc_gain s \<or> pp_agc_gain st' = agc_clamp l (agc_target env s) s"
    by (simp_all add: st'_def speex_compute_agc_def Let_def s_def l_def)
  then show ?thesis using agc_clamp_bounded [of s l "agc_target env s"] s by auto
qed

lemma run_gain_cases:
  fixes env x heap st
  defines "st' \<equiv> snd (snd (snd (speex_preprocess_run env x heap st)))"
  shows "pp_max_gain st' = pp_max_gain st"
    "pp_agc_gain st' = pp_agc_gain st \<or> \<not> flt (pp_max_gain st) (pp_agc_gain st')"
    "pp_agc_enabled st = 0 \<Longrightarrow> pp_agc_gain st' = pp_agc_gain st"
proof -
  obtain P s where k: "pp_keep s = keep_restart (keep_count (pp_keep st))"
    and r: "st' = snd (run_vad P (snd (run_synthesis env x (if pp_agc_enabled s \<noteq> 0 then speex_compute_agc env P s else s))))"
    unfolding st'_def by (rule run_stages [of st env x heap]) (simp add: Let_def)
  define s2 where "s2 = (if pp_agc_enabled s \<noteq> 0 then speex_compute_agc env P s else s)"
  have s: "pp_agc_gain s = pp_agc_gain st" "pp_max_gain s = pp_max_gain st" "pp_agc_enabled s = pp_agc_enabled st"
    using k by (simp_all add: pp_keep_def)
  have "pp_keep (snd (run_synthesis env x s2)) = pp_keep s2" by (rule keep_synthesis)
  then have e: "pp_agc_gain st' = pp_agc_gain s2" "pp_max_gain st' = pp_max_gain s2"
    unfolding r s2_def [symmetric] by (simp_all add: run_vad_def Let_def pp_keep_def)
  have "pp_max_gain s2 = pp_max_gain s"
    using keep_agc [of env P s] by (simp add: s2_def pp_keep_def)
  with e s show "pp_max_gain st' = pp_max_gain st" by simp
  show "pp_agc_gain st' = pp_agc_gain st \<or> \<not> flt (pp_max_gain st) (pp_agc_gain st')"
    using agc_gain_cases [of env P s] e s by (auto simp: s2_def)
  show "pp_agc_enabled st = 0 \<Longrightarrow> pp_agc_gain st' = pp_agc_gain st"
    using e s by (simp add: s2_def)
qed

section \<open>Voice detection\<close>

lemma run_vad_machine:
  fixes env x heap st
  defines "r \<equiv> fst (speex_preprocess_run env x heap st)" and "st' \<equiv> snd (snd (snd (speex_preprocess_run env x heap st)))"
  shows "r = (if pp_vad_enabled st = 0 \<or> flt (pp_speech_prob_start st) (pp_speech_prob st') \<or>
                 pp_was_speech st \<and> flt (pp_speech_prob_continue st) (pp_speech_prob st') then 1 else 0)"
    and "pp_was_speech st' = (if pp_vad_enabled st = 0 then pp_was_speech st else r = 1)"
proof -
  obtain P s where k: "pp_keep s = keep_restart (keep_count (pp_keep st))"
    and r: "let s' = snd (run_synthesis env x (if pp_agc_enabled s \<noteq> 0 then speex_compute_agc env P s else s))
         in r = fst (run_vad P s') \<and> st' = snd (run_vad P s')"
    unfolding r_def st'_def by (rule run_stages)
  define s2 where "s2 = snd (run_synthesis env x (if pp_agc_enabled s \<noteq> 0 then speex_compute_agc env P s else s))"
  have e: "r = fst (run_vad P s2)" "st' = snd (run_vad P s2)" using r by (simp_all add: s2_def Let_def)
  have "pp_vad_enabled s2 = pp_vad_enabled st" "pp_speech_prob_start s2 = pp_speech_prob_start st"
    "pp_speech_prob_continue s2 = pp_speech_prob_continue st" "pp_was_speech s2 = pp_was_speech st"
    using keep_synthesis [of env x "if pp_agc_enabled s \<noteq> 0 then speex_compute_agc env P s else s"] keep_agc [of env P s] k
    by (simp_all add: s2_def pp_keep_def split: if_splits)
  then show "r = (if pp_vad_enabled st = 0 \<or> flt (pp_speech_prob_start st) (pp_speech_prob st') \<or>
                 pp_was_speech st \<and> flt (pp_speech_prob_continue st) (pp_speech_prob st') then 1 else 0)"
    and "pp_was_speech st' = (if pp_vad_enabled st = 0 then pp_was_speech st else r = 1)"
    by (simp_all add: e run_vad_def Let_def)
qed

section \<open>Calls\<close>

datatype pp_call = CallRun "s16 list" echo_store | CallUpdate "s16 list" | CallCtl pp_request

fun pp_exec :: "spx_env \<Rightarrow> pp_call \<Rightarrow> SpeexPreprocessState \<Rightarrow> SpeexPreprocessState" where
  "pp_exec env (CallRun x heap) st = snd (snd (snd (speex_preprocess env x heap st)))"
| "pp_exec env (CallUpdate x) st = speex_preprocess_estimate_update env x st"
| "pp_exec env (CallCtl req) st = snd (snd (speex_preprocess_ctl env req st))"

definition pp_level_ok :: "fval \<Rightarrow> bool" where
  "pp_level_ok v \<longleftrightarrow> \<not> flt v f1 \<and> \<not> flt (nat32 32768) v"

definition pp_inv :: "nat \<Rightarrow> SpeexPreprocessState \<Rightarrow> bool" where
  "pp_inv n st \<longleftrightarrow>
     pp_shape st = pp_alloc_shape n \<and> 0 \<le> pp_nb_adapt st \<and> pp_nb_adapt st \<le> 20000 \<and> 0 \<le> pp_min_count st \<and> pp_min_count st \<le> 300 \<and>
     pp_noise_suppress st \<le> 0 \<and> pp_echo_suppress st \<le> 0 \<and> pp_echo_suppress_active st \<le> 0 \<and> pp_level_ok (pp_agc_level st)"

lemma numeral_exact: "numeral k < (2 ^ 24 :: int) \<Longrightarrow> fofint binary32 (numeral k) = FNum False (numeral k)"
  using fofint_fint [of "numeral k"] by (simp add: fint_def)

lemma pp_level_clamp: "pp_level_ok (level_clamp v)"
  by (cases v) (auto simp: pp_level_ok_def level_clamp_def Let_def numeral_exact fsval_def)

lemma pp_min_range_bounds: "0 \<le> pp_min_range k" "pp_min_range k \<le> 300"
  by (simp_all add: pp_min_range_def)

text \<open>The invariant on the kept part.\<close>

lemma pp_inv_keep:
  assumes "pp_inv n st" "fst (pp_keep st') = fst (pp_keep st)"
    "0 \<le> pp_nb_adapt st' \<and> pp_nb_adapt st' \<le> 20000" "0 \<le> pp_min_count st' \<and> pp_min_count st' \<le> 300"
    "fst (snd (snd (snd (pp_keep st')))) = fst (snd (snd (snd (pp_keep st))))" "pp_agc_level st' = pp_agc_level st"
  shows "pp_inv n st'"
  using assms by (simp add: pp_inv_def pp_keep_def)

lemma pp_inv_init:
  assumes "speex_preprocess_state_init env n rate = Some st"
  shows "pp_inv n st" "pp_agc_gain st = f1" "pp_max_gain st = nat32 30"
proof -
  have "pp_level_ok (nat32 8000)" by (simp add: pp_level_ok_def numeral_exact fsval_def)
  with assms show "pp_inv n st" "pp_agc_gain st = f1" "pp_max_gain st = nat32 30"
    by (auto simp: speex_preprocess_state_init_def Let_def bind_eq_Some_conv pp_inv_def pp_shape_def pp_alloc_shape_def dest!: speex_alloc_eq)
qed

lemma pp_init_returns:
  assumes "0 < n" "24 * n < 2 ^ 31"
  shows "\<exists>st. speex_preprocess_state_init env n rate = Some st"
proof -
  obtain l where "spx_drft_init env (2 * n) = Some l" using drft_init_returns [of "2 * n" env] assms by auto
  then show ?thesis using assms
    by (simp add: speex_preprocess_state_init_def filterbank_new_def spx_fft_init_def speex_alloc_fits split_beta Let_def)
qed

text \<open>The transform of two frames is the largest allocation.\<close>

lemma pp_init_big: "2 ^ 31 \<le> 24 * n \<Longrightarrow> speex_preprocess_state_init env n rate = None"
  using drft_init_big [of "2 * n" env]
  by (auto simp: speex_preprocess_state_init_def spx_fft_init_def Let_def bind_eq_None_conv)

lemma pp_inv_run:
  assumes "pp_inv n st"
  shows "pp_inv n (pp_exec env (CallRun x heap) st)"
proof -
  obtain P s where k: "pp_keep s = keep_restart (keep_count (pp_keep st))"
    and r: "pp_exec env (CallRun x heap) st = snd (run_vad P (snd (run_synthesis env x (if pp_agc_enabled s \<noteq> 0 then speex_compute_agc env P s else s))))"
    by (rule run_stages [of st env x heap]) (simp add: Let_def speex_preprocess_def)
  define s2 where "s2 = snd (run_synthesis env x (if pp_agc_enabled s \<noteq> 0 then speex_compute_agc env P s else s))"
  have s: "pp_inv n s" 
    using assms pp_min_range_bounds [of "min 20000 (pp_nb_adapt st + 1)"] k
    by (intro pp_inv_keep [OF assms]) (auto simp: pp_keep_def pp_inv_def)
  have "fst (pp_keep s2) = fst (pp_keep s) \<and> fst (snd (pp_keep s2)) = fst (snd (pp_keep s)) \<and>
      fst (snd (snd (snd (pp_keep s2)))) = fst (snd (snd (snd (pp_keep s)))) \<and> pp_agc_level s2 = pp_agc_level s"
    using keep_synthesis [of env x "if pp_agc_enabled s \<noteq> 0 then speex_compute_agc env P s else s"] keep_agc [of env P s]
    by (simp add: s2_def pp_keep_def pp_shape_def split: if_splits)
  then have "pp_inv n s2" using s by (intro pp_inv_keep [OF s]) (auto simp: pp_keep_def pp_inv_def)
  moreover have "pp_inv n (snd (run_vad P s2)) = pp_inv n s2" by (simp add: run_vad_def Let_def pp_inv_def pp_shape_def)
  ultimately show ?thesis using r by (simp add: s2_def)
qed

lemma pp_inv_update:
  assumes "pp_inv n st"
  shows "pp_inv n (pp_exec env (CallUpdate x) st)"
proof -
  define s where "s = update_noise_prob (preprocess_analysis env x (st\<lparr>pp_min_count := pp_min_count st + 1\<rparr>))"
  have k: "pp_keep s = keep_restart (pp_keep (st\<lparr>pp_min_count := pp_min_count st + 1\<rparr>))"
    by (simp add: s_def keep_noise_prob keep_analysis)
  then have s: "pp_inv n s"
    using assms pp_min_range_bounds [of "pp_nb_adapt st"] by (intro pp_inv_keep [OF assms]) (auto simp: pp_keep_def pp_inv_def pp_shape_def)
  show ?thesis
    using s by (simp add: speex_preprocess_estimate_update_def Let_def s_def [symmetric] pp_inv_def pp_shape_def)
qed

lemma pp_inv_ctl: "pp_inv n st \<Longrightarrow> pp_inv n (pp_exec env (CallCtl req) st)"
  by (cases req) (simp_all add: pp_inv_def pp_shape_def pp_level_clamp)

lemma pp_inv_call: "pp_inv n st \<Longrightarrow> pp_inv n (pp_exec env c st)"
  by (cases c) (simp_all only: pp_inv_run pp_inv_update pp_inv_ctl)

lemma pp_inv_calls: "pp_inv n st \<Longrightarrow> pp_inv n (fold (pp_exec env) cs st)"
  by (rule fold_keeps_pred) (auto intro: pp_inv_call)

text \<open>Without a change of its maximum, the gain never exceeds it.\<close>

definition sets_max_gain :: "pp_call \<Rightarrow> bool" where
  "sets_max_gain c = (case c of CallCtl (SET_AGC_MAX_GAIN v) \<Rightarrow> True | _ \<Rightarrow> False)"

lemma gain_call:
  assumes "\<not> sets_max_gain c" "\<not> flt (pp_max_gain st) (pp_agc_gain st)"
  shows "pp_max_gain (pp_exec env c st) = pp_max_gain st \<and> \<not> flt (pp_max_gain st) (pp_agc_gain (pp_exec env c st))"
proof (cases c)
  case (CallRun x heap)
  then show ?thesis using run_gain_cases [where env = env and x = x and heap = heap and st = st] assms(2) by (auto simp: speex_preprocess_def)
next
  case (CallUpdate x)
  define s where "s = update_noise_prob (preprocess_analysis env x (st\<lparr>pp_min_count := pp_min_count st + 1\<rparr>))"
  have "pp_keep s = keep_restart (pp_keep (st\<lparr>pp_min_count := pp_min_count st + 1\<rparr>))"
    by (simp add: s_def keep_noise_prob keep_analysis)
  then have "pp_max_gain s = pp_max_gain st" "pp_agc_gain s = pp_agc_gain st" by (simp_all add: pp_keep_def)
  then show ?thesis using assms(2) CallUpdate by (simp add: speex_preprocess_estimate_update_def Let_def s_def [symmetric])
next
  case (CallCtl req)
  with assms show ?thesis by (cases req) (simp_all add: sets_max_gain_def)
qed

lemma gain_calls:
  assumes "\<forall>c\<in>set cs. \<not> sets_max_gain c" "\<not> flt (pp_max_gain st) (pp_agc_gain st)"
  shows "pp_max_gain (fold (pp_exec env) cs st) = pp_max_gain st \<and> \<not> flt (pp_max_gain st) (pp_agc_gain (fold (pp_exec env) cs st))"
  using assms
proof (induction cs arbitrary: st)
  case (Cons c cs)
  then show ?case using gain_call [where c = c and st = st and env = env] Cons.IH [of "pp_exec env c st"] by simp
qed simp

section \<open>Percentages\<close>

text \<open>The places of \<open>p / 100\<close> and of the product, and the value read back.\<close>

definition pct_n :: "int \<Rightarrow> nat" where
  "pct_n p = (if 100 \<le> p then 23 else if 50 \<le> p then 24 else if 25 \<le> p then 25 else if 13 \<le> p then 26 else if 7 \<le> p then 27
     else if 4 \<le> p then 28 else if 2 \<le> p then 29 else 30)"

definition pct_m :: "int \<Rightarrow> nat \<Rightarrow> nat" where
  "pct_m c n = (let d = (\<lambda>j. 2 ^ j * 2 ^ n \<le> c) in
     if d 6 then 17 else if d 5 then 18 else if d 4 then 19 else if d 3 then 20 else if d 2 then 21 else if d 1 then 22 else if d 0 then 23 else 24)"

definition pct_ok :: "int \<Rightarrow> bool" where
  "pct_ok p = (let n = pct_n p; k = rdiv_even (p * 2 ^ n) 100; c = k * 100; b = 2 ^ n; m = pct_m c n; r = rdiv_even (c * 2 ^ m) b
     in 2 ^ 23 * 100 \<le> p * 2 ^ n \<and> p * 2 ^ n < 2 ^ 24 * 100 \<and> 2 ^ 23 * b \<le> c * 2 ^ m \<and> c * 2 ^ m < 2 ^ 24 * b \<and>
        r div 2 ^ m = (if p = 53 \<or> p = 59 then p - 1 else p))"

lemma pct_all: "list_all pct_ok [1..100]"
  by code_simp

lemma spx_int32_small: "0 \<le> \<lfloor>r\<rfloor> \<Longrightarrow> \<lfloor>r\<rfloor> < 2 ^ 31 \<Longrightarrow> spx_int32_cast env (FNum False r) = \<lfloor>r\<rfloor>"
  by (simp add: spx_int32_cast_def Let_def)

lemma percent_round_trip:
  assumes "0 \<le> p" "p \<le> 100"
  shows "get_percent env (set_percent p) = (if p = 53 \<or> p = 59 then p - 1 else p)"
proof (cases "p = 0")
  case True
  have z: "fround binary32 s 0 = FNum s 0" "fofint binary32 0 = FNum False 0" for s by (simp_all add: fofint_def fround_def)
  with True show ?thesis by (simp add: get_percent_def set_percent_def z numeral_exact spx_int32_small)
next
  case False
  define n k where "n = pct_n p" and "k = rdiv_even (p * 2 ^ n) 100"
  define m r where "m = pct_m (k * 100) n" and "r = rdiv_even (k * 100 * 2 ^ m) (2 ^ n)"
  have "pct_ok p" using pct_all assms False by (simp add: list_all_iff del: upto_rec_numeral)
  then have ok: "2 ^ 23 * 100 \<le> p * 2 ^ n" "p * 2 ^ n < 2 ^ 24 * 100" "2 ^ 23 * 2 ^ n \<le> k * 100 * 2 ^ m" "k * 100 * 2 ^ m < 2 ^ 24 * 2 ^ n"
    "r div 2 ^ m = (if p = 53 \<or> p = 59 then p - 1 else p)"
    unfolding pct_ok_def Let_def n_def k_def m_def r_def by blast+
  have nm: "n < 140" "m < 140" by (simp_all add: n_def m_def pct_n_def pct_m_def Let_def)
  have p: "fofint binary32 p = FNum False (of_int p)" using fofint_fint [of p] assms by (simp add: fint_def)
  have "fround binary32 False (of_int p) = FNum False (of_int p)" using p assms by (simp add: fofint_def)
  then have d: "set_percent p = fround binary32 False (of_int p / of_int 100)"
    using False by (simp add: set_percent_def p numeral_exact)
  have s: "set_percent p = FNum False (of_int k / 2 ^ n)"
    unfolding d k_def by (rule fround_ratio) (use nm ok in simp_all)
  have "fmul32 (set_percent p) (nat32 100) = fround binary32 False (of_int (k * 100) / of_int (2 ^ n))"
    by (simp add: s numeral_exact)
  also have "\<dots> = FNum False (of_int r / 2 ^ m)" unfolding r_def by (rule fround_ratio) (use nm ok in simp_all)
  finally have "get_percent env (set_percent p) = spx_int32_cast env (FNum False (of_int r / of_int (2 ^ m)))" by (simp add: get_percent_def)
  also have "\<dots> = r div 2 ^ m"
    unfolding floor_divide_of_int_eq [of r "2 ^ m", where 'a = rat, symmetric]
    by (rule spx_int32_small) (unfold floor_divide_of_int_eq ok(5), use assms False in auto)
  finally show ?thesis using ok(5) by simp
qed

section \<open>Filter bank\<close>

text \<open>What the code needs of \<open>atan\<close>: on a number that is not negative its result is between 0 and 2.\<close>

definition atan_ok :: "spx_env \<Rightarrow> bool" where
  "atan_ok env \<longleftrightarrow> (\<forall>x\<ge>0. fbetween 0 2 (m_atan env (FNum False x)))"

lemma atan_between: "atan_ok env \<Longrightarrow> fbetween a b v \<Longrightarrow> 0 \<le> a \<Longrightarrow> fbetween 0 2 (m_atan env v)"
  unfolding atan_ok_def fbetween_def by fastforce

lemma fmag32_pow: "n \<le> 100 \<Longrightarrow> fmag binary32 (2 ^ n)" "n \<le> 100 \<Longrightarrow> fmag binary32 (1 / 2 ^ n)"
  "n \<le> 100 \<Longrightarrow> fmag binary64 (2 ^ n)" "n \<le> 100 \<Longrightarrow> fmag binary64 (1 / 2 ^ n)"
  using fmag_pow2 [of n binary32] fmag_pow2 [of n binary64] fmag_scaled [of 1 binary32 n] fmag_scaled [of 1 binary64 n] by simp_all

lemma toBARK_between:
  assumes at: "atan_ok env" and n: "fbetween lo (2 ^ 47) n" and lo: "lo = 0 \<or> lo = 1"
  shows "fbetween (lo / 2 ^ 14) (2 ^ 35) (toBARK env n)"
proof -
  note mags = fmag32_pow
  have lo': "0 \<le> lo" "fmag binary32 (lo / 2 ^ 14)" "fmag binary64 (lo / 2 ^ 14)" using lo mags [of 14] by auto
  have "fbetween 0 (2 ^ 0) (lit32 (74 / 100000))" by (rule frat_between) (use mags [of 0] in auto)
  then have "fbetween 0 (2 ^ 47) (fmul32 (lit32 (74 / 100000)) n)"
    by (rule fmul_between [OF _ n]) (use lo' mags [of 47] in auto)
  then have a1: "fbetween 0 2 (m_atan env (fmul32 (lit32 (74 / 100000)) n))" by (rule atan_between [OF at]) simp
  have "fbetween 0 (2 ^ 4) (lit32 (131 / 10))" by (rule frat_between) (use mags [of 4] in auto)
  then have t1: "fbetween 0 (2 ^ 5) (fmul64 (lit32 (131 / 10)) (m_atan env (fmul32 (lit32 (74 / 100000)) n)))"
    by (rule fmul_between [OF _ a1]) (use mags [of 5] in auto)
  have "fbetween 0 (2 ^ 94) (fmul32 n n)" by (rule fmul_between [OF n n]) (use lo' mags [of 94] in auto)
  moreover have "fbetween 0 (2 ^ 0) (lit32 (185 / 10000000000))" by (rule frat_between) (use mags [of 0] in auto)
  ultimately have "fbetween 0 (2 ^ 94) (fmul32 (fmul32 n n) (lit32 (185 / 10000000000)))"
    by (rule fmul_between) (use mags [of 94] in auto)
  then have a2: "fbetween 0 2 (m_atan env (fmul32 (fmul32 n n) (lit32 (185 / 10000000000))))" by (rule atan_between [OF at]) simp
  have "fbetween 0 (2 ^ 2) (lit32 (224 / 100))" by (rule frat_between) (use mags [of 2] in auto)
  then have t2: "fbetween 0 (2 ^ 5) (fmul64 (lit32 (224 / 100)) (m_atan env (fmul32 (fmul32 n n) (lit32 (185 / 10000000000)))))"
    by (rule fmul_between [OF _ a2]) (use mags [of 5] in auto)
  have s: "fbetween 0 (2 ^ 6) (fadd64 (fmul64 (lit32 (131 / 10)) (m_atan env (fmul32 (lit32 (74 / 100000)) n)))
      (fmul64 (lit32 (224 / 100)) (m_atan env (fmul32 (fmul32 n n) (lit32 (185 / 10000000000))))))"
    by (rule fadd_between [OF t1 t2]) (use mags [of 6] in auto)
  have "fbetween (1 / 2 ^ 14) (1 / 2 ^ 13) (lit32 (1 / 10000))" by (rule frat_between) (use mags [of 14] mags [of 13] in auto)
  then have t3: "fbetween (lo / 2 ^ 14) (2 ^ 34) (fmul32 (lit32 (1 / 10000)) n)"
    by (rule fmul_between [OF _ n]) (use lo' mags [of 34] in auto)
  show ?thesis unfolding toBARK_def by (rule fadd_between [OF s t3]) (use lo' mags [of 35] in auto)
qed

text \<open>A \<open>float\<close> that is not tiny divided by 32 is a \<open>float\<close>.\<close>

lemma fmag_div32:
  assumes "fmag binary32 m" "1 / 2 ^ 14 \<le> m"
  shows "fmag binary32 (m / 32)"
proof -
  obtain k q where k: "m = of_int k * 2 powi q" "0 \<le> k" "k < 2 ^ 24" "-149 \<le> q" "q \<le> 104"
    using assms(1) by (auto simp: fmag_def)
  have "-144 \<le> q"
  proof (rule ccontr)
    assume "\<not> -144 \<le> q"
    then have "m \<le> of_int (2 ^ 24) * 2 powi (-144)" unfolding k(1)
      by (intro mult_mono powi2_mono) (use k in simp_all)
    also have "\<dots> < 1 / 2 ^ 14" by (simp add: power_int_minus)
    finally show False using assms(2) by simp
  qed
  moreover have "m / 32 = of_int k * 2 powi (q - 5)" by (simp add: k(1) power_int_diff)
  ultimately show ?thesis using k by (intro fmagI [of _ k "q - 5"]) auto
qed

lemma nat32_between: "k < 2 ^ 24 \<Longrightarrow> fbetween (of_nat k) (of_nat k) (nat32 k)"
  using fofint_fint [of "int k"] by (auto simp: fint_def fbetween_def)

lemma bank_entry_range:
  assumes M: "fmag binary32 M" "1 / 2 ^ 14 \<le> M" and mel: "fbetween 0 (2 ^ 35) mel" "\<not> flt (FNum False M) mel"
    and banks: "2 \<le> banks" "banks \<le> 33"
  shows "fst (bank_entry env banks (fdiv32 (FNum False M) (nat32 (banks - 1))) mel) \<in> {0..int banks - 2}"
proof -
  have M0: "0 < M" using M(2) by (rule less_le_trans [rotated]) simp
  have b: "fbetween 1 32 (nat32 (banks - 1))" by (rule fbetween_mono [OF nat32_between]) (use banks in simp_all)
  have i: "fbetween (M / 32) M (fdiv32 (FNum False M) (nat32 (banks - 1)))"
    by (rule fdiv_between [OF _ b, of M M]) (use M M0 fmag_div32 [OF M] in \<open>auto simp: fbetween_def\<close>)
  have m: "fbetween 0 M mel" using mel M0 by (auto simp: fbetween_def fsval_def)
  have "fbetween 0 (2 ^ 5) (fdiv32 mel (fdiv32 (FNum False M) (nat32 (banks - 1))))"
    by (rule fdiv_between [OF m i]) (use M0 fmag32_pow(1) [of 5] in auto)
  then obtain h where h: "fdiv32 mel (fdiv32 (FNum False M) (nat32 (banks - 1))) = FNum False h" "0 \<le> h" "h \<le> 32"
    by (auto simp: fbetween_def)
  have "0 \<le> \<lfloor>h\<rfloor>" "\<lfloor>h\<rfloor> < 33" using h by (simp_all add: floor_less_iff)
  then have "spx_int32_cast env (ffloor (FNum False h)) = \<lfloor>h\<rfloor>"
    by (cases "\<lfloor>h\<rfloor> = 0") (auto simp: spx_int32_cast_def Let_def fsval_def)
  then show ?thesis using h banks by (simp add: bank_entry_def Let_def)
qed

definition bank_ok :: "FilterBank \<Rightarrow> bool" where
  "bank_ok fb \<longleftrightarrow> length (bank_left fb) = fb_len fb \<and> length (bank_right fb) = fb_len fb \<and>
     length (filter_left fb) = fb_len fb \<and> length (filter_right fb) = fb_len fb \<and>
     list_all (\<lambda>b. 0 \<le> b \<and> b < int (nb_banks fb)) (bank_left fb @ bank_right fb)"

lemma filterbank_new_ok:
  assumes at: "atan_ok env" and rate: "2 \<le> rate" "rate < 2 ^ 24" and len: "1 \<le> len" "len < 2 ^ 23" and banks: "2 \<le> banks" "banks \<le> 33"
    and bank: "filterbank_new env banks (fofint binary32 rate) len = Some bank"
  shows "bank_ok bank"
proof -
  define df max_mel mel where "df = fdiv32 (fofint binary32 rate) (fmul32 (nat32 2) (nat32 len))"
    and "max_mel = to_f32 (toBARK env (fdiv32 (fofint binary32 rate) (FNum False 2)))"
    and "mel = (\<lambda>i. to_f32 (toBARK env (fmul32 (nat32 i) df)))"
  note mags = fmag32_pow
  have r: "fbetween 2 (2 ^ 24) (fofint binary32 rate)" using fofint_fint [of rate] rate by (auto simp: fint_def fbetween_def)
  have "fbetween 1 (2 ^ 23) (fdiv32 (fofint binary32 rate) (FNum False 2))"
    by (rule fdiv_between [OF r, of 2 2]) (use mags [of 0] mags [of 23] in \<open>auto simp: fbetween_def\<close>)
  then have "fbetween 1 (2 ^ 47) (fdiv32 (fofint binary32 rate) (FNum False 2))" by (rule fbetween_mono) simp_all
  then have tb: "fbetween (1 / 2 ^ 14) (2 ^ 35) (toBARK env (fdiv32 (fofint binary32 rate) (FNum False 2)))"
    using toBARK_between [OF at, of 1] by simp
  then have "fbetween (1 / 2 ^ 14) (2 ^ 35) max_mel" unfolding max_mel_def
    by (rule fcast_between) (use mags [of 14] mags [of 35] in auto)
  moreover have "fval_ok binary32 max_mel" using tb by (auto simp: max_mel_def fbetween_def intro!: fround_ok)
  ultimately obtain M where M: "max_mel = FNum False M" "fmag binary32 M" "1 / 2 ^ 14 \<le> M" by (auto simp: fbetween_def)
  have "fbetween 1 (2 ^ 24) (fmul32 (nat32 2) (nat32 len))"
    by (rule fmul_between [OF nat32_between nat32_between]) (use len mags [of 0] mags [of 24] in auto)
  with r have df: "fbetween 0 (2 ^ 24) df" unfolding df_def by (rule fdiv_between) (use mags [of 24] in auto)
  have mel: "fbetween 0 (2 ^ 35) (mel i)" if "i < len" for i
  proof -
    have "fbetween 0 (2 ^ 23) (nat32 i)" by (rule fbetween_mono [OF nat32_between]) (use that len in auto)
    then have "fbetween 0 (2 ^ 47) (fmul32 (nat32 i) df)"
      by (rule fmul_between [OF _ df]) (use mags [of 47] in auto)
    then show ?thesis unfolding mel_def
      by (intro fcast_between) (use toBARK_between [OF at, of 0] mags [of 35] in auto)
  qed
  let ?P = "\<lambda>(bl, br, fl, fr). length bl = len \<and> length br = len \<and> length fl = len \<and> length fr = len \<and>
    list_all (\<lambda>b. 0 \<le> b \<and> b < int banks) (bl @ br)"
  define iv where "iv = fdiv32 max_mel (nat32 (banks - 1))"
  have rng: "fst (bank_entry env banks iv (mel i)) \<in> {0..int banks - 2}" if "i < len" "\<not> flt max_mel (mel i)" for i
    using bank_entry_range [OF M(2,3) mel _ banks] that unfolding iv_def M(1) by blast
  let ?f = "\<lambda>i (bl, br, fl, fr). case bank_entry env banks iv (mel i) of (id1, val) \<Rightarrow>
             (bl[i := id1], br[i := id1 + 1], fl[i := fsub32 f1 val], fr[i := val])"
  define z where "z = fold ?f (takeWhile (\<lambda>i. \<not> flt max_mel (mel i)) [0..<len]) (replicate len 0, replicate len 0, replicate len f0, replicate len f0)"
  have "?P z" unfolding z_def
  proof (rule fold_invariant [where Q = "\<lambda>i. i < len \<and> \<not> flt max_mel (mel i)"])
    show "x < len \<and> \<not> flt max_mel (mel x)" if "x \<in> set (takeWhile (\<lambda>i. \<not> flt max_mel (mel i)) [0..<len])" for x
      using set_takeWhileD [OF that] by simp
    show "?P (replicate len 0, replicate len 0, replicate len f0, replicate len f0)" using banks by (auto simp: list_all_iff)
    show "?P (?f i s)" if "i < len \<and> \<not> flt max_mel (mel i)" "?P s" for i s
      using that rng [of i]
      by (auto simp: split_beta Let_def list_all_iff dest!: set_update_subset_insert [THEN subsetD])
  qed
  moreover have "bank_fill env banks (fofint binary32 rate) len (replicate len 0, replicate len 0, replicate len f0, replicate len f0) = z"
    unfolding bank_fill_def Let_def df_def [symmetric] max_mel_def [symmetric] iv_def [symmetric] z_def mel_def ..
  ultimately show ?thesis using bank
    by (auto simp: filterbank_new_def bind_eq_Some_conv bank_ok_def split_beta dest!: speex_alloc_eq)
qed

lemma pp_bank_call: "pp_bank (pp_exec env c st) = pp_bank st"
proof (cases c)
  case (CallRun x heap)
  obtain P s where k: "pp_keep s = keep_restart (keep_count (pp_keep st))"
    and r: "pp_exec env c st = snd (run_vad P (snd (run_synthesis env x (if pp_agc_enabled s \<noteq> 0 then speex_compute_agc env P s else s))))"
    by (rule run_stages [of st env x heap]) (simp add: Let_def speex_preprocess_def CallRun)
  have "pp_bank (snd (run_synthesis env x (if pp_agc_enabled s \<noteq> 0 then speex_compute_agc env P s else s))) = pp_bank s"
    using keep_synthesis [of env x "if pp_agc_enabled s \<noteq> 0 then speex_compute_agc env P s else s"] keep_agc [of env P s]
    by (simp add: pp_keep_def split: if_splits)
  then show ?thesis using k by (simp add: r run_vad_def Let_def pp_keep_def)
next
  case (CallUpdate x)
  have "pp_keep (update_noise_prob (preprocess_analysis env x s)) = keep_restart (pp_keep s)" for s
    by (simp add: keep_noise_prob keep_analysis)
  from this [of "st\<lparr>pp_min_count := pp_min_count st + 1\<rparr>"] CallUpdate show ?thesis
    by (simp add: speex_preprocess_estimate_update_def Let_def pp_keep_def)
next
  case (CallCtl req)
  then show ?thesis by (cases req) simp_all
qed

lemma pp_bank_calls: "pp_bank (fold (pp_exec env) cs st) = pp_bank st"
  by (rule fold_keeps) (rule pp_bank_call)

lemma pp_bank_init:
  assumes "speex_preprocess_state_init env n rate = Some st"
  shows "filterbank_new env 24 (fofint binary32 rate) n = Some (pp_bank st)"
  using assms by (auto simp: speex_preprocess_state_init_def Let_def bind_eq_Some_conv)

lemma filterbank_new_sizes: "filterbank_new env b r n = Some bank \<Longrightarrow> nb_banks bank = b \<and> fb_len bank = n"
  by (auto simp: filterbank_new_def bind_eq_Some_conv split_beta)

end
