(* ===== verification/Spec2Isabelle.thy ===== *)
theory Spec2Isabelle
  imports RaStream MaDeviceSync MaResampler RbSpsc SpxPreprocInv
begin

text \<open>
  Verification of Resona's native audio layer: the capture and playback device of the desktop
  client (\<open>src/native/client-audio/device.c\<close>) and the parts of miniaudio
  (\<open>src/native/client-audio/miniaudio.h\<close>, compiled into it) that it rests on, and the echo
  canceller and preprocessor of SpeexDSP (\<open>src/native/speexdsp\<close>) that processes what it captures.

  The program. A client thread and the audio thread of the operating system share an
  \<open>ra_device\<close>: four ring buffers (captured frames, playback, monitor, and the playback reference
  for echo cancellation), two pairs of counters that let the client discard queued audio without
  touching a live ring, and flags. The audio thread runs \<open>data_callback\<close>: it cuts microphone
  samples into frames of 960, stamped with a time and the current epoch, and mixes the playback
  and monitor queues into the output. The client writes frames, reads captured frames and the
  reference, changes the epoch, discards, opens, lists and closes.

  The theories, in the order the code is layered.

  \<^item> \<open>Prelude\<close>: C types as words, pointers as options, \<open>memcpy\<close> as \<open>mem_read\<close> and
    \<open>mem_write\<close>, the named collections and the word and list lemmas the others share.
  \<^item> \<open>CFloat\<close>: IEEE binary32 and binary64 as exact rationals rounded once to nearest even, with
    infinities, NaN, comparisons, conversions and the byte encoding; rounding keeps
    representable bounds (\<open>fround_bounds\<close>), encodings round-trip.
  \<^item> \<open>MaBase\<close>: result codes, sample formats, the allocation callbacks and the aligned allocator.
  \<^item> \<open>RingSpec\<close>: the interface of a ring buffer, locale \<open>ring_fifo\<close>, with the client loops
    (read or write until done or nothing more is granted) verified against it.
  \<^item> \<open>MaRb\<close>: \<open>ma_rb\<close>, every operation at the width of the code (31-bit offsets with a turn flag in
    bit 31), the invariant \<open>rb_wf\<close>, the abstraction \<open>rb_contents\<close>, and the interpretation of
    \<open>ring_fifo\<close> for bytes.
  \<^item> \<open>MaPcmRb\<close>: \<open>ma_pcm_rb\<close> in frames over \<open>ma_rb\<close>, the interpretation of \<open>ring_fifo\<close> for frames,
    the ring as a data source, and the priming of the duplex ring.
  \<^item> \<open>MaPcm\<close>: sample format conversion, dithering, processor dispatch, interleaving.
  \<^item> \<open>MaContext\<close>: collecting the devices a backend enumerates.
  \<^item> \<open>RaDevice\<close>: the device state, the data and notification callbacks and the client operations,
    with the invariant \<open>ra_inv\<close> and a lemma for each operation.
  \<^item> \<open>RaCallback\<close>: the whole callback, the events a run is made of, the refinement of each event to
    abstract queues, and runs.
  \<^item> \<open>RaDeviceOpen\<close>: identifiers, listing, opening with every failure exit, closing, over the
    \<open>ma_device_init\<close>, \<open>ma_device_start\<close> and \<open>ma_device_uninit\<close> of \<open>MaDeviceLife\<close>, with a trace of
    acquired and released resources.
  \<^item> \<open>RbSpsc\<close>: a producer and a consumer thread on one \<open>ma_rb\<close>, interleaved at every atomic access
    and every byte copied; the step relation runs the code's acquire and commit with stale cursors.
  \<^item> \<open>SpxBase\<close>, \<open>SpxFft\<close>: the arithmetic of SpeexDSP's floating-point build, the rounding of
    samples, the allocator, and the real FFT of smallft.c with its wrappers; the factor search ends
    (\<open>drft_init_returns\<close>) and small transforms invert exactly.
  \<^item> \<open>SpxEcho\<close>, \<open>SpxEchoInv\<close>: the echo canceller of mdf.c, and its invariant, playback queue, reset
    and update schedule. The client calls it through the Rust layer, on frames that \<open>RaDevice\<close>
    captures and the reference it records.
  \<^item> \<open>SpxPreproc\<close>, \<open>SpxPreprocInv\<close>: the filter bank of filterbank.c and the preprocessor of
    preprocess.c (noise and residual echo suppression, gain control, voice detection, control);
    its invariant over all sequences of calls, the bound of the gain, the voice detection as a
    two-threshold machine, the range of the band indices, and what control requests read back.
  \<^item> \<open>MaVolume\<close>: copying, clipping, volume and mixing of frames in every format.
  \<^item> \<open>MaDevice\<close>: \<open>ma_device\<close> and its data path, from a request of the backend through conversion,
    volume, clipping and the fixed-size periods to the data callback of the application.
  \<^item> \<open>MaDeviceData\<close>, \<open>MaDuplexData\<close>: what the data path does to a stream. The application is an
    interface (locales \<open>playback_client\<close> and \<open>duplex_client\<close>: a callback that keeps its invariant and
    the length of the output): requests of any sizes are served from whole periods, in order,
    every call returns, and the two buffers of a duplex device stay aligned.
  \<^item> \<open>MaDeviceLife\<close>: \<open>ma_device_init\<close> and \<open>ma_device_uninit\<close> with a trace of resources: closing gives
    back what opening acquired; which failures leak.
  \<^item> \<open>MaDeviceSync\<close>: the application against the worker thread as a transition system, its
    invariant (no assertion fails), the end of every wait, and the races and failed assertions when a
    data loop ends by itself.
  \<^item> \<open>RaStream\<close>: device.c on top of it: the interfaces interpreted on \<open>data_callback\<close> (\<open>ra\<close>, \<open>ra_both\<close>),
    and the whole way between the backend and the queues of the client.
  \<^item> \<open>MaFilter\<close>, \<open>MaResampler\<close>: the low-pass filters and the linear resampler. The timing of the four
    processing loops is proved once (locale \<open>resampler_bodies\<close>, interpreted on each variant): how many
    frames a call consumes and produces, and when the predictions of the code are exact.

  Correspondence. A definition has the name of the C function it translates. Where a C function
  has loops, each loop is a function of its own next to it; where it has long straight-line parts,
  these are definitions named after it. Functions take and return the objects they change; error
  codes are the numbers of the enumeration. An atomic access of the device is one step, and the
  callback and each client call are the steps of a run: this is the interleaving the code is
  written for, since producer and consumer of a ring never change the same cursor.

  Loops and fuel. Loops are recursive functions with a termination proof, or a fold where the
  counter is as wide as its bound. The capture loop advances by what fits in the pending frame,
  which could be nothing in a state outside the invariant; it is written with fuel, one unit per
  sample, and \<open>capture_loop_ends\<close> shows that under the invariant this is enough. Two conversion loops count with a 32-bit variable
  to a 64-bit bound, and the search for the factors of a transform size depends on the size: they
  are partial functions and \<open>None\<close> is a call that does not return; \<open>fft_tables_are_built\<close> shows that
  the search returns. The loops of the device's data path depend on the application and on the
  data converter and are partial functions as well; the theorems on streams include that they
  return.

  Failures of the program itself. An assertion is live (no build file defines \<open>NDEBUG\<close>): in the
  start/stop protocol a failed one ends the process (\<open>y_aborted\<close>). SpeexDSP passes sizes through the \<open>int\<close>
  parameter of \<open>speex_alloc\<close> and tests no result: where a size does not fit, creating a state is \<open>None\<close>; where it
  fits, the machine is taken to have the memory. A \<open>ma_device_init\<close> that fails leaks, and opening a
  device of device.c is proved to leave exactly that behind and nothing of its own.

  Parameters. The C heap (\<open>libc\<close>: an address or failure), the clock, the backend's enumeration and
  its answers, the result of the initialisation of a context, the data converter with its own state
  (\<open>converter_ops\<close>), the creation of threads, locks and events (\<open>dev_env\<close>), the vector unit, the evaluation order of function
  arguments, the mathematical functions of the C library (\<open>spx_env\<close>), and the result of a
  float-to-integer cast C leaves undefined. Floating-point expressions are evaluated in the type
  C gives them, without fused operations.

  Not modelled. What a failing \<open>ma_context_init\<close> keeps; SpeexDSP's fixed-point build, the freeing of
  its states, and the overflow of its frame counter after 2^31 frames; the operating-system backends and the implementation of threads,
  events and timers in miniaudio; its data converter and channel mixing; the
  flush-to-zero mode around the callback, device names and the log; a device that creates its
  own context; the parts of miniaudio that device.c compiles out, weak memory ordering (every atomic access is a step of
  one global order), and the Rust and Go programs around the library.
\<close>

text \<open>C1. An output callback plays the playback queue plus the monitor queue, sample by sample in binary32, clamped to [-1,1], with silence where a queue is short; it consumes exactly those frames from both queues and records the unmixed playback as reference.\<close>

theorem callback_plays_mix:
  assumes "ra_inv d" "unat frames * 8 < 2 ^ 32" "length buf = unat frames * 8"
  shows "\<exists>out d'. data_callback now d (Some buf) NULL frames = Some (Some out, d') \<and> length out = unat frames * 8 \<and> ra_inv d'
    \<and> (\<forall>x < 2 * unat frames. f32_at out x = mix_clamp (fadd binary32
         (f32_at (concat (padded (unat frames) (rd_queue d 0))) x) (f32_at (concat (padded (unat frames) (rd_queue d 1))) x)))
    \<and> (\<forall>i < 2. rd_queue d' i = drop (unat frames) (rd_queue d i))
    \<and> pcm_contents (rd_reference d') = pcm_contents (rd_reference d)
         @ take (RA_FRAME * RA_CAPACITY - length (pcm_contents (rd_reference d))) (padded (unat frames) (rd_queue d 0))
    \<and> capture_frames (rd_capture d') = capture_frames (rd_capture d) \<and> cap_prefix d' = cap_prefix d"
proof -
  obtain out d1 where o: "callback_output d frames = (out, d1)" "length out = unat frames * 8" "ra_inv d1"
    "\<forall>x < 2 * unat frames. f32_at out x = mix_clamp (fadd binary32
         (f32_at (concat (padded (unat frames) (rd_queue d 0))) x) (f32_at (concat (padded (unat frames) (rd_queue d 1))) x))"
    "\<forall>i < 2. rd_queue d1 i = drop (unat frames) (rd_queue d i)"
    "pcm_contents (rd_reference d1) = pcm_contents (rd_reference d)
         @ take (7680 - length (pcm_contents (rd_reference d))) (padded (unat frames) (rd_queue d 0))"
    "same_but_output d d1"
    using callback_output_ok [OF assms(1,2)] by blast
  then have "data_callback now d (Some buf) NULL frames = Some (Some out, rd_call_wake d1)"
    using assms(3) by (simp add: data_callback_def)
  then show ?thesis
    using o same_but_output_capture [OF o(7)] by (intro exI [of _ out] exI [of _ "rd_call_wake d1"]) simp
qed

theorem callback_plays_mix_witness:
  "\<exists>out d'. data_callback zero_clock playing_device (Some (replicate 16 0)) NULL 2 = Some (Some out, d')
     \<and> rd_queue d' 0 = replicate 958 half_frame \<and> rd_queue d' 1 = [] \<and> (\<forall>x < 4. f32_at out x = FNum False (1 / 2))"
proof -
  obtain out d' where o: "data_callback zero_clock playing_device (Some (replicate 16 0)) NULL 2 = Some (Some out, d')"
    "\<forall>x < 2 * unat (2 :: u32). f32_at out x = mix_clamp (fadd binary32
       (f32_at (concat (padded (unat (2 :: u32)) (rd_queue playing_device 0))) x)
       (f32_at (concat (padded (unat (2 :: u32)) (rd_queue playing_device 1))) x))"
    "\<forall>i < 2. rd_queue d' i = drop (unat (2 :: u32)) (rd_queue playing_device i)"
    using callback_plays_mix [OF playing_device_ok(1), of 2 "replicate 16 0" zero_clock] by auto
  have "f32_at out x = FNum False (1 / 2)" if "x < 4" for x
    using that o(2) half_mix [OF that] by (simp add: playing_device_ok)
  moreover have "rd_queue d' 0 = replicate 958 half_frame" "rd_queue d' 1 = []"
    using o(3) by (simp_all add: playing_device_ok)
  ultimately show ?thesis using o(1) by blast
qed

text \<open>C2. An input callback appends its samples to the partial frame of the current epoch, cuts the result into frames of 960 samples stamped with consecutive clock readings and that epoch, stores them in order while the capture ring has room for eight, and keeps the rest as the new partial frame.\<close>

theorem callback_cuts_frames:
  assumes "ra_inv d" "clock_ok now" "length samples = unat frames * 4"
  shows "\<exists>d'. data_callback now d NULL (Some samples) frames = Some (NULL, d') \<and> ra_inv d'
    \<and> cap_prefix d' = leftover (cap_prefix d @ samples)
    \<and> capture_frames (rd_capture d') = capture_frames (rd_capture d)
        @ take (RA_CAPACITY - length (capture_frames (rd_capture d)))
            (stamped now (rd_epoch d) (rd_clock d) (full_blocks (cap_prefix d @ samples)))
    \<and> (\<forall>i. rd_queue d' i = rd_queue d i) \<and> rd_reference d' = rd_reference d"
proof -
  obtain d1 where c: "callback_input now d samples frames = Some d1" "ra_inv d1" "same_but_capture d d1"
    "cap_prefix d1 = leftover (cap_prefix d @ samples)"
    "capture_frames (rd_capture d1) = capture_frames (rd_capture d) @ take (8 - length (capture_frames (rd_capture d)))
        (stamped now (rd_epoch d) (rd_clock d) (full_blocks (cap_prefix d @ samples)))"
    using callback_input_ok [OF assms(1,3,2)] by blast
  then have "data_callback now d NULL (Some samples) frames = Some (NULL, rd_call_wake d1)"
    by (simp add: data_callback_def)
  then show ?thesis using c same_but_capture_queue [OF c(3)] by simp
qed

theorem callback_cuts_frames_witness:
  "\<exists>d'. data_callback zero_clock idle_device NULL (Some (replicate 4000 7)) 1000 = Some (NULL, d') \<and> ra_inv d'
     \<and> cap_prefix d' = replicate 160 7
     \<and> capture_frames (rd_capture d') = [\<lparr>fr_epoch = 0, fr_time = FNum False 0, fr_samples = replicate 3840 7\<rparr>]"
proof -
  have bl: "full_blocks (replicate 4000 7) = [replicate 3840 7]" "leftover (replicate 4000 7) = replicate 160 (7 :: u8)"
    using block_split [of "replicate 3840 7" "replicate 160 7"] by (simp_all add: block_short flip: replicate_add)
  show ?thesis
    using callback_cuts_frames [OF idle_device_ok(1) zero_clock_ok, of "replicate 4000 7" 1000]
    by (auto simp: idle_device_ok idle_capture_ok bl stamped_Cons zero_clock_def)
qed

text \<open>C3. Over every interleaving of client calls and callbacks from an opened device, the device invariant holds, and the frames a route has played followed by those still queued are a subsequence, in order and without duplicates, of the frames written to it.\<close>

theorem runs_are_queues:
  assumes "route_run now i d0 ws ps d" "ra_inv d0" "clock_ok now" "i < 2" "rd_queue d0 i = []"
  shows "ra_inv d \<and> subseq (ps @ rd_queue d i) ws"
  by (rule route_run_subseq [OF assms])

theorem runs_are_queues_witness:
  "route_run zero_clock 0 idle_device ([] @ offered 0 (EvWrite 0 (replicate 960 half_frame))) ([] @ []) playing_device
   \<and> ra_inv playing_device \<and> subseq (([] @ []) @ rd_queue playing_device 0) ([] @ replicate 960 half_frame)"
proof -
  have "ev_ok (EvWrite 0 (replicate 960 half_frame)) idle_device"
    by (simp add: idle_device_ok half_frame_def)
  from route_run.intros(2) [OF route_run.intros(1) this, of zero_clock playing_device 0]
  have r: "route_run zero_clock 0 idle_device ([] @ offered 0 (EvWrite 0 (replicate 960 half_frame))) ([] @ []) playing_device"
    by (simp add: playing_device_def)
  from runs_are_queues [OF r idle_device_ok(1) zero_clock_ok] r show ?thesis
    by (simp add: idle_device_ok)
qed

text \<open>C4. The output device as device.c opens it, once started, on a backend that needs no conversion: over any sequence of backend requests of any sizes, the buffers returned are filled completely and their concatenation is, sample for sample, the mix of the playback and monitor queues in order (silence after their end), and the queues are consumed in whole periods of 960 frames, to the end of the period after the last frame played.\<close>

theorem speaker_plays_queues:
  assumes "ma_device_init env (Some (ra_config now False d)) (Some d0) = (MA_SUCCESS, Some dev, tr)" "sd_isPassthrough (dev_playback dev)"
    and "ra_inv d" "list_all (request_ok 8) rs" "rs \<noteq> []"
  shows "\<exists>outs dev'. backend_plays cpu ops rs (dev\<lparr>dev_state := ma_device_state_started\<rparr>) = Some (outs, dev') \<and>
    map length outs = map (length \<circ> snd) rs \<and>
    (\<forall>x < 2 * (\<Sum>r\<leftarrow>rs. unat (fst r)). f32_at (concat outs) x = queue_mix d (\<Sum>r\<leftarrow>rs. unat (fst r)) x) \<and>
    (\<forall>i < 2. rd_queue (dev_client dev') i = drop (960 * ((\<Sum>r\<leftarrow>rs. unat (fst r)) div 960 + 1)) (rd_queue d i))"
proof -
  note o = opened_output [OF assms(1-3)]
  have l: "sd_intermediaryBufferLen (dev_playback (dev\<lparr>dev_state := ma_device_state_started\<rparr>)) = 0" using o(2) by simp
  from output_device_plays [OF started_output [OF o(1)] l assms(4,5), of cpu ops] o(3) show ?thesis by auto
qed

theorem speaker_plays_queues_witness:
  "\<exists>dev outs dev'. backend_plays plain_cpu plain_ops [(480, replicate 3840 0), (700, replicate 5600 0)] dev = Some (outs, dev') \<and>
    f32_at (concat outs) 5 = queue_mix playing_device 1180 5 \<and> rd_queue (dev_client dev') 0 = []"
proof -
  obtain dev tr where "ma_device_init plain_env (Some (ra_config zero_clock False playing_device)) (Some blank_device) = (MA_SUCCESS, Some dev, tr)"
    "sd_isPassthrough (dev_playback dev)" using plain_opens(1) by blast
  then obtain outs dev' where "backend_plays plain_cpu plain_ops [(480, replicate 3840 0), (700, replicate 5600 0)] (dev\<lparr>dev_state := ma_device_state_started\<rparr>) = Some (outs, dev')"
    and x: "\<forall>x < 2360. f32_at (concat outs) x = queue_mix playing_device 1180 x" and q: "\<forall>i < 2. rd_queue (dev_client dev') i = drop 1920 (rd_queue playing_device i)"
    using speaker_plays_queues [OF _ _ playing_device_ok(1), of plain_env zero_clock blank_device dev tr "[(480, replicate 3840 0), (700, replicate 5600 0)]" plain_cpu plain_ops]
    by (auto simp: request_ok_def simp del: backend_plays.simps)
  moreover have "f32_at (concat outs) 5 = queue_mix playing_device 1180 5" using x by simp
  moreover have "rd_queue (dev_client dev') 0 = []" using q playing_device_ok(2) by simp
  ultimately show ?thesis by blast
qed

text \<open>C5. The input device as device.c opens it, once started, on a backend that needs no conversion: whatever the sizes in which the backend delivers the recording, each period of 960 samples becomes exactly one captured frame, stamped in order, until the queue of eight is full; the first frame is a period of silence that was never recorded, because the buffer of the device starts full.\<close>

theorem microphone_fills_frames:
  assumes "ma_device_init env (Some (ra_config now True d)) (Some d0) = (MA_SUCCESS, Some dev, tr)" "sd_isPassthrough (dev_capture dev)"
    and "ra_inv d" "cap_prefix d = []" "clock_ok now" "list_all (request_ok 4) rs" "rs \<noteq> []"
  shows "\<exists>dev'. backend_records cpu ops rs (dev\<lparr>dev_state := ma_device_state_started\<rparr>) = Some dev' \<and>
    capture_frames (rd_capture (dev_client dev')) = capture_frames (rd_capture d) @
      take (8 - length (capture_frames (rd_capture d)))
        (stamped now (rd_epoch d) (rd_clock d) (replicate 3840 0 # full_blocks (concat (map snd rs))))"
proof -
  note o = opened_input [OF assms(1-5)]
  have "full_blocks (replicate 3840 0 @ concat (map snd rs)) = replicate 3840 0 # full_blocks (concat (map snd rs))" by (rule block_split(1)) simp
  then show ?thesis using input_device_records [OF started_input [OF o(1)] assms(6,7), of cpu ops] o(2,3) by auto
qed

theorem microphone_fills_frames_witness:
  "\<exists>(dev :: (ra_device, unit) ma_device) dev'. backend_records plain_cpu plain_ops [(960, replicate 3840 7)] dev = Some dev' \<and>
    map fr_samples (capture_frames (rd_capture (dev_client dev'))) = [replicate 3840 0, replicate 3840 7]"
proof -
  obtain dev tr where "ma_device_init plain_env (Some (ra_config zero_clock True idle_device)) (Some blank_device) = (MA_SUCCESS, Some dev, tr)"
    "sd_isPassthrough (dev_capture dev)" using plain_opens(2) by blast
  moreover have "full_blocks (replicate 3840 7) = [replicate 3840 7]" using block_split(1) [of "replicate 3840 7" "[]"] by (simp add: block_short)
  ultimately obtain dev' where "backend_records plain_cpu plain_ops [(960, replicate 3840 7)] (dev\<lparr>dev_state := ma_device_state_started\<rparr>) = Some dev'"
    "map fr_samples (capture_frames (rd_capture (dev_client dev'))) = [replicate 3840 0, replicate 3840 7]"
    using microphone_fills_frames [of plain_env zero_clock idle_device blank_device dev tr "[(960, replicate 3840 7)]" plain_cpu plain_ops] idle_device_ok zero_clock_ok
    by (auto simp: request_ok_def stamped_Cons simp del: backend_records.simps)
  then show ?thesis by (intro exI conjI)
qed

text \<open>C6. With a worker thread and a data loop that ends only on request, in every interleaving of one application thread and the worker at the granularity of single accesses: when ma_device_stop returns the device is stopped and the worker waits; when ma_device_start succeeds the device is started; between calls the device is at rest or running with no event left over; and while ma_device_uninit waits for the worker the device stays uninitialised, so that the worker ends. No assertion on the state of the device, in either thread, ever fails.\<close>

theorem start_stop_protocol:
  assumes "sync_reach False s"
  shows "(y_app s = AStopClear \<longrightarrow> y_state s = ma_device_state_stopped \<and> y_worker s = WWait) \<and>
    (y_app s = AStartResult \<and> y_workResult s = MA_SUCCESS \<longrightarrow> y_state s = ma_device_state_started) \<and>
    (y_app s = AIdle r \<longrightarrow> at_rest s \<or> running s) \<and>
    (y_app s = AJoin \<longrightarrow> y_state s = ma_device_state_uninitialized) \<and> (y_app s = ADone \<longrightarrow> y_worker s = WExit) \<and> \<not> y_aborted s"
  using sync_reach_inv [OF assms] by auto

theorem start_stop_protocol_witness:
  "\<exists>s. sync_run False start_moves sync_init = Some s \<and> y_app s = AIdle (Some MA_SUCCESS) \<and> (at_rest s \<or> running s)"
proof -
  obtain s where "sync_run False start_moves sync_init = Some s" "y_app s = AIdle (Some MA_SUCCESS)" using start_moves_run by blast
  moreover from sync_run_reach [OF this(1) sync_reach.start] have "sync_reach False s" .
  ultimately show ?thesis using start_stop_protocol [of s "Some MA_SUCCESS"] by blast
qed

text \<open>C7. With a data loop that ends only on request, no wait of the application is for ever: in every reachable state where ma_device_init, ma_device_start, ma_device_stop or ma_device_uninit waits, every way the worker can proceed, whatever the backend answers, leads in finitely many steps to the event that ends the wait.\<close>

theorem device_waits_end:
  assumes "sync_reach False s" "y_app s \<in> {AInit, AStartWait, AStopWait, AJoin}"
  shows "worker_releases False s"
  using wait_ends [OF sync_reach_inv [OF assms(1)]] assms(2) by (simp add: app_waits_def)

theorem device_waits_end_witness: "worker_releases False sync_init"
  using device_waits_end [OF sync_reach.start] by (simp add: sync_init_def)

text \<open>C8. Opening a miniaudio device and closing it gives back every resource exactly once, for every device type, backend and configuration for which opening succeeds: the lock, the three events, the converters, the cache, the buffers, the worker thread, the duplex ring, and the device of the backend if the backend can close it.\<close>

theorem open_close_balanced:
  assumes "ma_device_init env (Some cfg) (Some d0) = (MA_SUCCESS, Some dev, tr)"
  shows "dev_held r (tr @ snd (ma_device_uninit env (Some dev))) = (if r = BackendDevice \<and> \<not> de_onDeviceUninit env then 1 else 0)"
  by (rule init_uninit_balanced [OF assms])

theorem open_close_balanced_witness:
  "\<exists>dev tr. ma_device_init plain_env (Some (ra_config zero_clock False idle_device)) (Some blank_device) = (MA_SUCCESS, Some dev, tr) \<and>
    dev_held PlaybackConverter (tr @ snd (ma_device_uninit plain_env (Some dev))) = 0"
proof -
  obtain dev tr where i: "ma_device_init plain_env (Some (ra_config zero_clock False idle_device)) (Some blank_device) = (MA_SUCCESS, Some dev, tr)"
    using plain_opens(1) by blast
  with open_close_balanced [OF i, of PlaybackConverter] show ?thesis by auto
qed

text \<open>C9. A duplex device with fixed-size callbacks keeps its two buffers in lock step: every call returns and leaves the device ready for the next one, with nothing changed but the two buffers and the state of the application; what is left to play is again exactly the room left for recording; the input, after what was left of the previous calls, is cut into periods of exactly the size of the buffer and a rest; and the output is the previous remainder followed by the answers of the application to those periods, in order.\<close>

theorem duplex_periods_align:
  assumes "duplex_client onData ok (sd_intermediaryBufferCap (dev_capture dev)) (unat (sd_bpf (dev_playback dev))) (unat (sd_bpf (dev_capture dev)))"
    and "dx_ready onData ok dev" "\<not> dev_noFixedSizedCallback dev" "dev_state dev \<noteq> ma_device_state_stopping" "0 < N"
    and "length input = unat N * unat (sd_bpf (dev_capture dev))" "length out = unat N * unat (sd_bpf (dev_playback dev))"
  shows "\<exists>bs dev' ps outs. ma_device__on_data (Some out) (Some input) N dev = Some (Some bs, dev') \<and> length bs = length out \<and>
    dx_ready onData ok dev' \<and> dx_same dev dev' \<and>
    unat (sd_intermediaryBufferLen (dev_playback dev')) = unat (sd_intermediaryBufferCap (dev_capture dev')) - unat (sd_intermediaryBufferLen (dev_capture dev')) \<and>
    list_all (\<lambda>p. length p = unat (sd_intermediaryBufferCap (dev_capture dev)) * unat (sd_bpf (dev_capture dev))) ps \<and>
    client_duplex onData (sd_silence (dev_playback dev)) (sd_intermediaryBufferCap (dev_capture dev)) ps (dev_client dev) = (outs, dev_client dev') \<and>
    sd_uncut (dev_capture dev) @ input = concat ps @ sd_uncut (dev_capture dev') \<and>
    sd_unplayed (dev_playback dev) @ concat outs = bs @ sd_unplayed (dev_playback dev')"
proof -
  obtain bs dev' where d: "ma_device__on_data (Some out) (Some input) N dev = Some (Some bs, dev')" "length bs = length out"
    "dx_ready onData ok dev'" "dx_same dev dev'" "dx_moved onData dev input bs dev'"
    using duplex_on_data [OF assms] by blast
  from d(3) have "unat (sd_intermediaryBufferLen (dev_playback dev')) = unat (sd_intermediaryBufferCap (dev_capture dev')) - unat (sd_intermediaryBufferLen (dev_capture dev'))"
    by (simp add: dx_ready_def dx_aligned_def Let_def)
  with d show ?thesis unfolding dx_moved_def Let_def by blast
qed

theorem duplex_periods_align_witness:
  "\<exists>bs dev'. ma_device__on_data (Some (replicate 4000 0)) (Some (replicate 2000 1)) 500 both_device = Some (Some bs, dev') \<and> length bs = 4000"
  using duplex_periods_align [of "ra_onData zero_clock" "ra_client_ok zero_clock" both_device 500 "replicate 2000 1" "replicate 4000 0"]
    ra_both.duplex_client_axioms [of zero_clock] both_device_ready by auto

text \<open>C10. Every operation a client or the audio thread performs keeps the invariant and acts on each route as the abstract queue says: a write appends a prefix of its frames, a discard empties the queue, an output callback removes the frames it plays, everything else leaves it alone.\<close>

theorem ops_refine_queues:
  assumes "ra_inv d" "ev_ok ev d" "clock_ok now"
  shows "\<exists>d'. ra_exec now ev d = Some d' \<and> ra_inv d' \<and> (\<forall>i < 2. queue_spec i ev (rd_queue d i) (rd_queue d' i))"
  by (rule ra_exec_refines [OF assms])

theorem ops_refine_queues_witness:
  "\<exists>d'. ra_exec zero_clock EvDiscard playing_device = Some d' \<and> ra_inv d' \<and> rd_queue d' 0 = []
     \<and> rd_queue playing_device 0 = replicate 960 half_frame"
  using ops_refine_queues [OF playing_device_ok(1) _ zero_clock_ok, of EvDiscard] by (simp add: playing_device_ok)

text \<open>C11. With a producer and a consumer thread on the same ring, interleaved at every atomic access and every byte copied, what the consumer has received followed by what is in the ring is always exactly what the producer has sent: nothing lost, duplicated, reordered or torn, although each side works with stale cursors of the other.\<close>

theorem spsc_is_fifo:
  assumes "spsc_reach rb s" "rb_wf rb" "\<not> clearOnWriteAcquire rb"
  shows "rb_wf (sp_rb s) \<and> sp_recv s @ rb_contents (sp_rb s) = sp_sent s"
  using spsc_reach_inv [OF assms] by (simp add: spsc_inv_def)

theorem spsc_is_fifo_witness: "rb_wf (sp_rb tiny_busy) \<and> sp_recv tiny_busy @ rb_contents (sp_rb tiny_busy) = [7, 8, 1]"
  using spsc_is_fifo [OF tiny_busy_reached tiny_rb_ok(1,2)] by (simp add: tiny_busy_def)

text \<open>C12. In every reachable state, the region the producer is filling and the region the consumer is copying from share no byte.\<close>

theorem spsc_no_data_race:
  assumes "spsc_reach rb s" "rb_wf rb" "\<not> clearOnWriteAcquire rb"
    and "sp_prod s = P_fill p ys j" "sp_cons s = C_fetch c k got"
  shows "{c..<c + k} \<inter> {p..<p + length ys} = {}"
  using spsc_race_free [OF spsc_reach_inv [OF assms(1-3)] assms(4,5)] .

theorem spsc_no_data_race_witness: "{6..<6 + 2} \<inter> {1..<1 + length [9, 9 :: u8]} = {}"
  by (rule spsc_no_data_race [OF tiny_busy_reached tiny_rb_ok(1,2)]) (simp_all add: tiny_busy_def)

text \<open>C13. In every reachable state both threads have a next step of their own: acquire and commit always succeed, and neither thread ever waits for the other.\<close>

theorem spsc_never_blocks:
  assumes "spsc_reach rb s" "rb_wf rb" "\<not> clearOnWriteAcquire rb"
  shows "(\<exists>s'. prod_step s s') \<and> (\<exists>s'. cons_step s s')"
  using prod_progress cons_progress spsc_reach_inv [OF assms] by blast

theorem spsc_never_blocks_witness: "(\<exists>s'. prod_step tiny_busy s') \<and> (\<exists>s'. cons_step tiny_busy s')"
  by (rule spsc_never_blocks [OF tiny_busy_reached tiny_rb_ok(1,2)])

text \<open>C14. After a discard, what is written next is all that will be played: the queue of the route is exactly the accepted frames of the new write, however many old frames are still in the ring, and their number is what the ring has room for.\<close>

theorem discard_keeps_new_route:
  assumes "ra_inv d" "i < 2" "length fs = RA_FRAME" "\<forall>f\<in>set fs. length f = 8" "unat (rd_written d ! i) + RA_FRAME < 2 ^ 64"
  shows "\<exists>k d'. ra_device_write (ra_device_discard d) (concat fs) i = (of_nat k, d')
    \<and> k = min RA_FRAME (RA_FRAME * RA_CAPACITY - length (pcm_contents (rd_ring d i))) \<and> ra_inv d' \<and> rd_queue d' i = take k fs"
proof -
  note dis = ra_device_discard_ok [OF assms(1)]
  have "unat (rd_written (ra_device_discard d) ! i) + 960 < 2 ^ 64"
    using assms(5) by (simp add: ra_device_discard_eq [OF assms(1)])
  from ra_device_write_ok [OF dis(1) assms(2-4) this] show ?thesis
    using dis(2) [OF assms(2)] dis(3) [of i] by auto
qed

theorem discard_keeps_new_route_witness:
  "\<exists>d'. ra_device_write (ra_device_discard playing_device) (concat (replicate 960 (replicate 8 1))) 0 = (960, d')
     \<and> ra_inv d' \<and> rd_queue d' 0 = replicate 960 (replicate 8 1)"
  using discard_keeps_new_route [OF playing_device_ok(1), of 0 "replicate 960 (replicate 8 1)"]
  by (auto simp: playing_device_ok)





text \<open>C17. Acquiring a write region of a well-formed ring grants min(request, contiguous space); filling and committing it appends exactly those bytes to the ring contents and keeps the ring well-formed.\<close>

theorem ring_write_appends:
  assumes "rb_wf rb" "\<not> clearOnWriteAcquire rb" "length xs = min (unat n) (rb_writable rb)"
  shows "\<exists>k rb'. ma_rb_acquire_write (Some rb) (Some n) (Some NULL)
        = (MA_SUCCESS, Some k, Some (Some (ma_rb__get_write_ptr rb)), Some rb) \<and> unat k = length xs
    \<and> ma_rb_commit_write (Some (rb\<lparr>pBuffer := mem_write (pBuffer rb) (unat (ma_rb__get_write_ptr rb)) xs\<rparr>)) k
        = (MA_SUCCESS, Some rb')
    \<and> rb_wf rb' \<and> rb_contents rb' = rb_contents rb @ xs \<and> rb_cap rb' = rb_cap rb"
  by (rule ring_write_cycle [OF assms])

theorem ring_write_appends_witness:
  "\<exists>k rb'. ma_rb_acquire_write (Some idle_capture) (Some 3) (Some NULL)
        = (MA_SUCCESS, Some k, Some (Some (ma_rb__get_write_ptr idle_capture)), Some idle_capture) \<and> unat k = 3
    \<and> ma_rb_commit_write (Some (idle_capture\<lparr>pBuffer := mem_write (pBuffer idle_capture)
         (unat (ma_rb__get_write_ptr idle_capture)) [1, 2, 3]\<rparr>)) k = (MA_SUCCESS, Some rb')
    \<and> rb_wf rb' \<and> rb_contents rb' = [1, 2, 3]"
proof -
  have w: "rb_wf idle_capture" "\<not> clearOnWriteAcquire idle_capture" using idle_capture_ok(1) by (simp_all add: capture_ring_def)
  have "rb_writable idle_capture = 30848" "rb_contents idle_capture = []"
    by (simp_all add: rb_writable_def idle_capture_def rb_view_defs offset_defs zero_rb_def)
  with ring_write_appends [OF w, of "[1, 2, 3]" 3] show ?thesis by auto
qed

text \<open>C18. Acquiring a read region of a well-formed ring grants min(request, contiguous data) and points at exactly the oldest bytes; committing it removes them and keeps the ring well-formed.\<close>

theorem ring_read_consumes:
  assumes "rb_wf rb"
  shows "\<exists>k rb'. ma_rb_acquire_read (Some rb) (Some n) (Some NULL)
        = (MA_SUCCESS, Some k, Some (Some (ma_rb__get_read_ptr rb))) \<and> unat k = min (unat n) (rb_readable rb)
    \<and> mem_read (pBuffer rb) (unat (ma_rb__get_read_ptr rb)) (unat k) = take (unat k) (rb_contents rb)
    \<and> ma_rb_commit_read (Some rb) k = (MA_SUCCESS, Some rb')
    \<and> rb_wf rb' \<and> rb_contents rb' = drop (unat k) (rb_contents rb) \<and> rb_cap rb' = rb_cap rb"
  by (rule ring_read_cycle [OF assms])

theorem ring_read_consumes_witness:
  "\<exists>rb'. ma_rb_commit_read (Some (zero_rb\<lparr>pBuffer := [1, 2, 3, 4, 5, 6, 7, 8], subbufferSizeInBytes := 8,
       encodedReadOffset := 6, encodedWriteOffset := 0x80000001\<rparr>)) 2 = (MA_SUCCESS, Some rb')
     \<and> rb_wf rb' \<and> rb_contents rb' = [1]"
proof -
  let ?rb = "zero_rb\<lparr>pBuffer := [1, 2, 3, 4, 5, 6, 7, 8], subbufferSizeInBytes := 8,
    encodedReadOffset := 6, encodedWriteOffset := 0x80000001\<rparr>"
  have r: "rb_wf ?rb" "rb_readable ?rb = 2" "rb_contents ?rb = [7, 8, 1]"
    by (simp_all add: rb_readable_def rb_view_defs offset_defs zero_rb_def mem_read_def)
  obtain k rb' where k: "unat k = 2" "ma_rb_commit_read (Some ?rb) k = (MA_SUCCESS, Some rb')" "rb_wf rb'" "rb_contents rb' = [1]"
    using ring_read_consumes [OF r(1), of 5] by (auto simp: r)
  then have "k = 2" by (simp add: word_unat_eq_iff)
  with k show ?thesis by auto
qed

text \<open>C19. When the cursors are on different turns, a seek past the readable data puts the read cursor ahead of the write cursor, although it reports success.\<close>

theorem seek_read_can_overtake:
  assumes "rb_wf rb" "\<not> rb_same rb" "length (rb_contents rb) < unat off" "unat off \<le> rb_cap rb"
  shows "\<exists>rb'. ma_rb_seek_read (Some rb) off = (MA_SUCCESS, Some rb') \<and> rb_same rb' \<and> rb_wr rb' < rb_rd rb'"
  by (rule ma_rb_seek_read_overtakes [OF assms])

theorem seek_read_can_overtake_witness:
  "\<exists>rb'. ma_rb_seek_read (Some (zero_rb\<lparr>pBuffer := replicate 8 0, subbufferSizeInBytes := 8,
       encodedReadOffset := 6, encodedWriteOffset := 0x80000001\<rparr>)) 7 = (MA_SUCCESS, Some rb')
     \<and> rb_same rb' \<and> rb_wr rb' < rb_rd rb'"
proof -
  let ?rb = "zero_rb\<lparr>pBuffer := replicate 8 0, subbufferSizeInBytes := 8, encodedReadOffset := 6,
    encodedWriteOffset := 0x80000001\<rparr>"
  have "rb_wf ?rb" "\<not> rb_same ?rb" "length (rb_contents ?rb) < unat (7 :: u64)" "unat (7 :: u64) \<le> rb_cap ?rb"
    by (simp_all add: rb_view_defs offset_defs zero_rb_def mem_read_def)
  then show ?thesis by (rule seek_read_can_overtake)
qed

text \<open>C20. Initialising the duplex ring overruns it whenever five periods at the application rate and one frame more are shorter than two periods at the internal rate (an application rate of a third of the internal one and periods of at least four frames, say): for every format, channel count, pair of rates and period with sizes in range, and memory available, ma_duplex_rb_init reports success, but it has moved the write cursor past the whole buffer; the ring claims two periods of data in a buffer that has room for fewer, and is not well-formed.\<close>

theorem duplex_ring_overrun:
  assumes "0 < unat (ma_get_bytes_per_frame fmt chs)" "0 < unat rate" "0 < unat internal" "\<forall>n. c_malloc sys n \<noteq> NULL"
    and "5 * unat period * unat rate div unat internal + 1 < 2 * unat period"
    and "5 * unat period < 2 ^ 32" "2 * unat period * unat (ma_get_bytes_per_frame fmt chs) \<le> 0x7FFFFFE0"
  shows "\<exists>p'. ma_duplex_rb_init sys fmt chs rate internal period NULL (Some p) = (MA_SUCCESS, Some p')
    \<and> unat (ma_pcm_rb_available_read (Some p')) = 2 * unat period \<and> pcm_cap p' < 2 * unat period \<and> \<not> pcm_wf p'"
  by (rule ma_duplex_rb_init_laps [OF assms])

theorem duplex_ring_overrun_witness:
  "\<exists>p'. ma_duplex_rb_init \<lparr>c_malloc = \<lambda>_. Some 4096, c_realloc = \<lambda>_ _. NULL\<rparr> ma_format_f32 1 16000 48000 480 NULL (Some zero_pcm_rb)
     = (MA_SUCCESS, Some p') \<and> unat (ma_pcm_rb_available_read (Some p')) = 960 \<and> \<not> pcm_wf p'"
  using duplex_ring_overrun [of ma_format_f32 1 16000 48000 "\<lparr>c_malloc = \<lambda>_. Some 4096, c_realloc = \<lambda>_ _. NULL\<rparr>" 480 zero_pcm_rb]
  by (auto simp: ma_get_bytes_per_frame_def)

text \<open>C21. Converting samples of an integer format to a wider integer format and back without dithering restores every byte, for all six pairs of formats, on every processor and whatever the dither mode of the widening.\<close>

theorem pcm_widening_lossless:
  assumes "wider a b" "length src = unat (ma_get_bytes_per_sample a) * unat n"
    and "length tmp = unat (ma_get_bytes_per_sample b) * unat n" "length dst = length src"
  shows "\<exists>tmp'. ma_pcm_convert cpu tmp b src a n dm lcg = Some (tmp', lcg)
    \<and> ma_pcm_convert cpu dst a tmp' b n ma_dither_mode_none lcg = Some (src, lcg)"
  by (rule pcm_widen_narrow [OF assms])

theorem pcm_widening_lossless_witness:
  "\<exists>tmp'. ma_pcm_convert \<lparr>cpu_simd = simd_sse2, cpu_aligned = True, cpu_draw = id, cpu_badcast = \<lambda>_. 0\<rparr>
       (replicate 6 0) ma_format_s24 [7, 128, 0, 255] ma_format_s16 2 ma_dither_mode_triangle g_maLCG = Some (tmp', g_maLCG)
     \<and> ma_pcm_convert \<lparr>cpu_simd = simd_sse2, cpu_aligned = True, cpu_draw = id, cpu_badcast = \<lambda>_. 0\<rparr>
       [0, 0, 0, 0] ma_format_s16 tmp' ma_format_s24 2 ma_dither_mode_none g_maLCG = Some ([7, 128, 0, 255], g_maLCG)"
  by (rule pcm_widening_lossless) simp_all

text \<open>C22. The conversion from float to 16 bit unrolled four times, with its four dither values drawn ahead and its leftover loop, computes exactly what the plain loop computes, for every count, dither mode and generator state.\<close>

theorem pcm_unrolled_is_reference: "ma_pcm_f32_to_s16__optimized = ma_pcm_f32_to_s16__reference"
  by (rule f32_s16_unrolled)



text \<open>C24. The conversion from float to 32 bit returns exactly when the sample count fits in 32 bits: its counter is 32 bits wide, so a larger count is never reached.\<close>

theorem f32_to_s32_returns_iff: "(\<exists>out. ma_pcm_f32_to_s32 cpu dst src count dm = Some out) \<longleftrightarrow> unat count < 2 ^ 32"
  by (rule f32_to_s32_total)

text \<open>C25. In every state that a sequence of calls on an echo canceller reaches (creation, cancellation, capture, playback, reset, residual, control), whatever the samples and whatever NaNs or infinities the filters produce: the sanity counter is between 0 and 49, the saturation counter is 0 or 1, the leakage estimate is a NaN or between 0 and 1, and the playback buffer holds 0 to 3 whole frames.\<close>

theorem echo_state_invariant:
  assumes "echo_reach env n fl C K st"
  shows "0 \<le> es_screwed_up st \<and> es_screwed_up st < 50 \<and> es_saturated st \<in> {0, 1} \<and> unit_fval (es_leak_estimate st)
    \<and> es_play_buf_pos st \<in> {0, n, 2 * n, 3 * n} \<and> es_frame_size st = n \<and> length (es_play_buf st) = K * 3 * n"
  using echo_reach_inv [OF assms] shape_sizes by (auto simp: echo_inv_def)

theorem echo_state_invariant_witness:
  "\<exists>st. speex_echo_state_init_mc tiny_env 160 1600 1 1 = Some st \<and>
     es_screwed_up (snd (speex_echo_cancellation tiny_env (replicate 160 7) (replicate 160 9) (replicate 160 0) st)) < 50 \<and>
     unit_fval (es_leak_estimate (snd (speex_echo_cancellation tiny_env (replicate 160 7) (replicate 160 9) (replicate 160 0) st)))"
proof -
  obtain st where st: "speex_echo_state_init_mc tiny_env 160 1600 1 1 = Some st" using echo_init_returns [of 160 1600 1 1 tiny_env] by auto
  show ?thesis using st echo_state_invariant [OF reach_cancel [OF reach_init [OF st]]] by blast
qed

text \<open>C26. The playback buffer refines a bounded queue of frames: playback appends a frame (twice when the queue is empty, not at all when it holds three frames or no capture has happened yet), capture removes the oldest one, and a capture that ends in a reset leaves one frame of silence and stops accepting playback until the next capture.\<close>

theorem echo_buffer_is_queue:
  assumes "echo_inv n M C K st" "0 < n" "1 \<le> K" "n \<le> length play"
  shows "pq_abs (snd (speex_echo_playback play st)) = pq_step n (Play play) (pq_abs st)
    \<and> pq_abs (snd (snd (speex_echo_capture env rec out st))) = pq_step n (capture_op env rec out st) (pq_abs st)"
  using pq_refines [OF assms(1-3)] assms(4) by simp

theorem echo_buffer_is_queue_witness:
  "\<exists>st. speex_echo_state_init_mc tiny_env 2 8 1 1 = Some st \<and>
     pq_abs (snd (speex_echo_playback [5, 6] (st\<lparr>es_play_buf_started := True, es_play_buf_pos := 0\<rparr>))) = (True, [5, 6, 5, 6])"
proof -
  obtain st where st: "speex_echo_state_init_mc tiny_env 2 8 1 1 = Some st" using echo_init_returns [of 2 8 1 1 tiny_env] by auto
  let ?st = "st\<lparr>es_play_buf_started := True, es_play_buf_pos := 0\<rparr>"
  have "echo_inv 2 4 1 1 ?st" using echo_inv_init [OF st] by (simp add: echo_inv_def es_shape_def)
  then show ?thesis
    using st echo_buffer_is_queue [of 2 4 1 1 ?st "[5, 6]"] by (simp add: pq_abs_def playq_def)
qed

text \<open>C27. With one microphone and one loudspeaker, exactly what a reset leaves of the old state: compared with a newly created canceller, the settings, the window, the FFT table and scratch buffers, but also the leakage estimate, the proportional step sizes and the newest half of the echo history survive.\<close>

theorem echo_reset_keeps:
  assumes "echo_reach env n fl 1 1 st" "speex_echo_state_init env n fl = Some fresh"
  shows "speex_echo_state_reset st = fresh\<lparr>es_leak_estimate := es_leak_estimate st, es_prop := es_prop st,
     es_last_y := replicate n f0 @ drop n (es_last_y st),
     es_sampling_rate := es_sampling_rate st, es_spec_average := es_spec_average st, es_beta0 := es_beta0 st,
     es_beta_max := es_beta_max st, es_notch_radius := es_notch_radius st, es_preemph := es_preemph st, es_window := es_window st,
     es_e := es_e st, es_input := es_input st, es_y := es_y st, es_Y := es_Y st, es_PHI := es_PHI st, es_wtmp := es_wtmp st,
     es_Rf := es_Rf st, es_Yf := es_Yf st, es_Xf := es_Xf st, es_fft_table := es_fft_table st\<rparr>"
  by (rule reset_mono [OF echo_reach_inv [OF assms(1)] assms(2)])

theorem echo_reset_keeps_witness:
  "\<exists>fresh. speex_echo_state_init tiny_env 2 8 = Some fresh \<and>
     es_W (speex_echo_state_reset (snd (speex_echo_cancellation tiny_env [1, 2] [3, 4] [0, 0] fresh))) = es_W fresh \<and>
     es_leak_estimate (speex_echo_state_reset (snd (speex_echo_cancellation tiny_env [1, 2] [3, 4] [0, 0] fresh)))
       = es_leak_estimate (snd (speex_echo_cancellation tiny_env [1, 2] [3, 4] [0, 0] fresh))"
proof -
  obtain fresh where f: "speex_echo_state_init_mc tiny_env 2 8 1 1 = Some fresh" using echo_init_returns [of 2 8 1 1 tiny_env] by auto
  then have i: "speex_echo_state_init tiny_env 2 8 = Some fresh" by (simp add: speex_echo_state_init_def)
  show ?thesis
    using i echo_reset_keeps [OF reach_cancel [OF reach_init [OF f]] i] by (intro exI [of _ fresh]) simp
qed

text \<open>C28. A reset clears only the first N*M weights of the background and foreground filters, those of one microphone and one loudspeaker: the weights of every other channel pair survive it.\<close>

theorem echo_reset_skips_channels:
  assumes "es_window_size st * es_M st \<le> i"
  shows "es_W (speex_echo_state_reset st) ! i = es_W st ! i \<and> es_foreground (speex_echo_state_reset st) ! i = es_foreground st ! i"
  using reset_other_channels [OF assms] by simp

theorem echo_reset_skips_channels_witness:
  "\<exists>st. speex_echo_state_init_mc tiny_env 1 1 2 1 = Some st \<and> length (es_W st) = 4 \<and>
     es_W (speex_echo_state_reset (st\<lparr>es_W := [f1, f1, f1, FNaN]\<rparr>)) ! 3 = FNaN"
proof -
  obtain st where st: "speex_echo_state_init_mc tiny_env 1 1 2 1 = Some st" using echo_init_returns [of 1 1 2 1 tiny_env] by auto
  have s: "es_shape st = alloc_shape 1 1 2 1" using echo_inv_init [OF st] by (simp add: echo_inv_def)
  then have "length (es_W st) = 4" by (simp add: es_shape_def alloc_shape_def Let_def)
  then show ?thesis
    using st echo_reset_skips_channels [of "st\<lparr>es_W := [f1, f1, f1, FNaN]\<rparr>" 3] shape_sizes [OF s] by (intro exI [of _ st]) simp
qed

text \<open>C29. The tables of a transform of n samples, n at least 1, are built exactly when the 12n bytes asked of the allocator fit its int parameter, that is for n up to 178,956,970 (given that the machine has the memory, which the code does not test): the search for the factors then ends, at most 30 factors fit the table of 32 entries, each is at least 2, and they multiply to n; for a larger n no table of the wanted size exists.\<close>

theorem fft_tables_are_built:
  assumes "1 \<le> n"
  shows "if n \<le> 178956970
     then \<exists>l. spx_fft_init env n = Some l \<and> l_n l = n \<and> length (l_trigcache l) = 3 * n \<and> length (l_splitcache l) = 32 \<and>
       (n = 1 \<or> l_splitcache l ! 1 \<le> 30 \<and> prod_list (ifactors (l_splitcache l ! 1) (l_splitcache l)) = n
          \<and> list_all (\<lambda>v. 2 \<le> v) (ifactors (l_splitcache l ! 1) (l_splitcache l)))
     else spx_fft_init env n = None"
proof (cases "n \<le> 178956970")
  case True
  then have "12 * n < 2 ^ 31" by simp
  with drft_init_returns [OF assms] obtain l where l: "spx_drft_init env n = Some l" "l_n l = n" "length (l_splitcache l) = 32"
    "n \<noteq> 1 \<Longrightarrow> l_splitcache l ! 1 \<le> 30 \<and> prod_list (ifactors (l_splitcache l ! 1) (l_splitcache l)) = n \<and>
       (\<forall>v \<in> set (ifactors (l_splitcache l ! 1) (l_splitcache l)). 2 \<le> v)" by blast
  show ?thesis using l True drft_trig_length [OF l(1)] by (simp add: spx_fft_init_def list_all_iff) blast
next
  case False
  then have "2 ^ 31 \<le> 12 * n" by simp
  from drft_init_big [OF this] False show ?thesis by (simp add: spx_fft_init_def)
qed

theorem fft_tables_are_built_witness: "\<exists>l. spx_fft_init tiny_env 320 = Some l \<and> prod_list (ifactors (l_splitcache l ! 1) (l_splitcache l)) = 320"
  using fft_tables_are_built [of 320 tiny_env] by auto

text \<open>C30. Creating a preprocessor for frames of at least one sample gives a state exactly when every size passed to the allocator fits its int parameter, that is for frames of up to 89,478,485 samples (given that the machine has the memory, which the code does not test). In every state that any sequence of calls (frames, noise updates, control requests, with any samples and arguments) then reaches, every array has the size it was allocated with, the counters nb_adapt and min_count stay in 0..20000 and 0..300 (so neither int overflows however long the stream), the three suppression levels are not positive, and the gain control level is in [1, 32768] or a NaN.\<close>

theorem preproc_state_invariant:
  assumes "0 < n"
  shows "if n \<le> 89478485
     then \<exists>st0. speex_preprocess_state_init env n rate = Some st0 \<and>
       (\<forall>cs. let st = fold (pp_exec env) cs st0 in
          pp_shape st = pp_alloc_shape n \<and> pp_nb_adapt st \<in> {0..20000} \<and> pp_min_count st \<in> {0..300} \<and>
          pp_noise_suppress st \<le> 0 \<and> pp_echo_suppress st \<le> 0 \<and> pp_echo_suppress_active st \<le> 0 \<and>
          \<not> flt (pp_agc_level st) (FNum False 1) \<and> \<not> flt (FNum False 32768) (pp_agc_level st))
     else speex_preprocess_state_init env n rate = None"
proof (cases "n \<le> 89478485")
  case True
  then obtain st0 where s: "speex_preprocess_state_init env n rate = Some st0" using pp_init_returns [OF assms, of env rate] by auto
  have "pp_inv n (fold (pp_exec env) cs st0)" for cs by (rule pp_inv_calls [OF pp_inv_init(1) [OF s]])
  with s True show ?thesis by (auto simp: Let_def pp_inv_def pp_level_ok_def numeral_exact)
qed (simp add: pp_init_big)

theorem preproc_state_invariant_witness:
  "\<exists>st0. speex_preprocess_state_init tiny_env 480 48000 = Some st0 \<and>
     pp_min_count (fold (pp_exec tiny_env) (replicate 100000 (CallUpdate (replicate 480 3))) st0) \<le> 300"
proof -
  obtain st0 where s: "speex_preprocess_state_init tiny_env 480 48000 = Some st0"
    and i: "\<forall>cs. pp_min_count (fold (pp_exec tiny_env) cs st0) \<in> {0..300}"
    using preproc_state_invariant [of 480 tiny_env 48000] by (auto simp: Let_def)
  show ?thesis using s i [rule_format, of "replicate 100000 (CallUpdate (replicate 480 3))"] by (auto simp del: fold_replicate)
qed

text \<open>C31. Automatic gain control never amplifies past its maximum: a frame leaves the gain as it was or at most the maximum gain, without gain control it leaves it as it was, and as long as no request changes the maximum, the gain of every reachable state is at most 30 (or a NaN).\<close>

theorem agc_gain_bounded:
  assumes "speex_preprocess_state_init env n rate = Some st0" "\<forall>c\<in>set cs. \<not> sets_max_gain c"
  shows "\<not> flt (FNum False 30) (pp_agc_gain (fold (pp_exec env) cs st0)) \<and>
    (\<forall>st x heap. let st' = snd (snd (snd (speex_preprocess_run env x heap st)))
       in (pp_agc_gain st' = pp_agc_gain st \<or> pp_agc_enabled st \<noteq> 0 \<and> \<not> flt (pp_max_gain st) (pp_agc_gain st')) \<and> pp_max_gain st' = pp_max_gain st)"
proof -
  have "\<not> flt (pp_max_gain st0) (pp_agc_gain st0)" using pp_inv_init(2,3) [OF assms(1)] by (simp add: numeral_exact fsval_def)
  then have "\<not> flt (FNum False 30) (pp_agc_gain (fold (pp_exec env) cs st0))"
    using gain_calls [OF assms(2), of st0 env] pp_inv_init(3) [OF assms(1)] by (simp add: numeral_exact)
  moreover have "let st' = snd (snd (snd (speex_preprocess_run env x heap st)))
      in (pp_agc_gain st' = pp_agc_gain st \<or> pp_agc_enabled st \<noteq> 0 \<and> \<not> flt (pp_max_gain st) (pp_agc_gain st')) \<and> pp_max_gain st' = pp_max_gain st"
    for st x heap unfolding Let_def using run_gain_cases [where env = env and x = x and heap = heap and st = st] by blast
  ultimately show ?thesis by blast
qed

theorem agc_gain_bounded_witness:
  "\<exists>st0. speex_preprocess_state_init tiny_env 160 16000 = Some st0 \<and>
     \<not> flt (FNum False 30) (pp_agc_gain (fold (pp_exec tiny_env) (CallCtl (SET_AGC 1) # replicate 500 (CallUpdate (replicate 160 30000))) st0))"
proof -
  obtain st0 where s: "speex_preprocess_state_init tiny_env 160 16000 = Some st0" using pp_init_returns [of 160 tiny_env 16000] by auto
  have "\<forall>c\<in>set (CallCtl (SET_AGC 1) # replicate 500 (CallUpdate (replicate 160 30000))). \<not> sets_max_gain c"
    by (simp add: sets_max_gain_def)
  then show ?thesis using s agc_gain_bounded [OF s] by blast
qed

text \<open>C32. The two voice detection thresholds are set in percent, limited to 0..100 (the limited value is stored back through the pointer), and read back in percent: the value read back is the value set, except that 53 reads back as 52 and 59 as 58, because the division and the multiplication by 100 are rounded to float and the result is then truncated.\<close>

theorem prob_percent_read_back:
  "let p = max 0 (min 100 v); q = (if p = 53 \<or> p = 59 then p - 1 else p);
       (r, reply, st1) = speex_preprocess_ctl env (SET_PROB_START v) st;
       (r', reply', st2) = speex_preprocess_ctl env (SET_PROB_CONTINUE v) st
   in reply = Int32 p \<and> reply' = Int32 p \<and>
      speex_preprocess_ctl env GET_PROB_START st1 = (0, Int32 q, st1) \<and>
      speex_preprocess_ctl env GET_PROB_CONTINUE st2 = (0, Int32 q, st2)"
proof -
  have "percent_clamp v = max 0 (min 100 v)" by (simp add: percent_clamp_def Let_def)
  then show ?thesis using percent_round_trip [of "max 0 (min 100 v)" env] by (simp add: Let_def)
qed

text \<open>C33. For every sampling rate from 2 to 2^24-1 and every frame size below 2^23, the filter bank that the preprocessor builds assigns each frequency to bands inside the band arrays, and it stays so in every reachable state: no pass over the spectrum reads or writes outside the 24 bands. The only thing asked of the C library is that atan of a non-negative number is between 0 and 2.\<close>

theorem filter_bank_in_range:
  assumes "atan_ok env" "2 \<le> rate" "rate < 2 ^ 24" "1 \<le> n" "n < 2 ^ 23"
  shows "\<exists>st0. speex_preprocess_state_init env n rate = Some st0 \<and>
    (\<forall>cs. let st = fold (pp_exec env) cs st0; bank = pp_bank st in
       length (bank_left bank) = n \<and> length (bank_right bank) = n \<and> length (filter_left bank) = n \<and> length (filter_right bank) = n \<and>
       length (pp_ps st) = n + 24 \<and> length (pp_noise st) = n + 24 \<and> length (pp_gain st) = n + 24 \<and>
       (\<forall>i < n. bank_left bank ! i \<in> {0..<24} \<and> bank_right bank ! i \<in> {0..<24}))"
proof -
  obtain st0 where s: "speex_preprocess_state_init env n rate = Some st0" using pp_init_returns [of n env rate] assms(4,5) by auto
  have sz: "nb_banks (pp_bank st0) = 24" "fb_len (pp_bank st0) = n"
    using filterbank_new_sizes [OF pp_bank_init [OF s]] by simp_all
  have ok: "bank_ok (pp_bank st0)" by (rule filterbank_new_ok [OF _ _ _ _ _ _ _ pp_bank_init [OF s]]) (use assms in simp_all)
  have i: "pp_shape (fold (pp_exec env) cs st0) = pp_alloc_shape n" for cs
    using pp_inv_calls [OF pp_inv_init(1) [OF s]] by (simp add: pp_inv_def)
  have l: "length (pp_ps st) = n + 24 \<and> length (pp_noise st) = n + 24 \<and> length (pp_gain st) = n + 24"
    if "pp_shape st = pp_alloc_shape n" for st using that by (simp add: pp_shape_def pp_alloc_shape_def Let_def)
  have "list_all (\<lambda>b. 0 \<le> b \<and> b < 24) (bank_left (pp_bank st0))" "list_all (\<lambda>b. 0 \<le> b \<and> b < 24) (bank_right (pp_bank st0))"
    using ok by (simp_all add: bank_ok_def sz)
  then show ?thesis using s ok l [OF i] by (simp add: Let_def pp_bank_calls bank_ok_def sz) (simp add: list_all_length)
qed

theorem filter_bank_in_range_witness:
  "\<exists>st0. speex_preprocess_state_init (tiny_env\<lparr>m_atan := \<lambda>_. FNum False 1\<rparr>) 480 48000 = Some st0 \<and> bank_right (pp_bank st0) ! 479 < 24"
proof -
  let ?e = "tiny_env\<lparr>m_atan := \<lambda>_. FNum False 1\<rparr>"
  have "atan_ok ?e" by (simp add: atan_ok_def fbetween_def)
  then obtain st0 where s: "speex_preprocess_state_init ?e 480 48000 = Some st0"
    "\<forall>cs. let st = fold (pp_exec ?e) cs st0; bank = pp_bank st in
       length (bank_left bank) = 480 \<and> length (bank_right bank) = 480 \<and> length (filter_left bank) = 480 \<and> length (filter_right bank) = 480 \<and>
       length (pp_ps st) = 480 + 24 \<and> length (pp_noise st) = 480 + 24 \<and> length (pp_gain st) = 480 + 24 \<and>
       (\<forall>i < 480. bank_left bank ! i \<in> {0..<24} \<and> bank_right bank ! i \<in> {0..<24})"
    using filter_bank_in_range [of ?e 48000 480] by auto
  from s(2) [rule_format, of "[]"] s(1) show ?thesis by (auto simp: Let_def)
qed

text \<open>C34. When the data loop ends by itself (a read or a write failed), the start/stop protocol breaks in four ways. The application closes the device after the stopped notification, between the test of the state by the worker and its assignment of the stopped state: the worker takes the wake-up for a start and fails the assertion that the device is starting, which ends the process while ma_device_uninit waits. The application stops the device while the worker assigns the stopped state: ma_device_stop fails its assertion that the device is started. The unclaimed stop event lets a later ma_device_stop return successfully while the device is still stopping and the worker in its loop; and starting the device then fails the assertion of ma_device_start that it is stopped.\<close>

theorem data_loop_end_races:
  "(\<exists>s. sync_reach True s \<and> y_stops s = 1 \<and> y_app s = AJoin \<and> y_worker s = WAssert \<and> y_aborted s) \<and>
   (\<exists>s. sync_reach True s \<and> y_app s = AStopAssert \<and> y_aborted s) \<and>
   (\<exists>s. sync_reach True s \<and> y_app s = AIdle (Some MA_SUCCESS) \<and> y_worker s = WLoop \<and> y_state s = ma_device_state_stopping \<and> \<not> y_aborted s) \<and>
   (\<exists>s. sync_reach True s \<and> y_app s = AStartAssert \<and> y_aborted s)"
  using race_moves_run stop_moves_run stale_moves_run restart_moves_run sync_run_reach [OF _ sync_reach.start, of True] by blast

text \<open>C35. A failed ma_device_init leaks. When the backend cannot open the device the stop event is not destroyed; when a later step fails (post-initialisation, an allocation, the worker thread, the duplex ring), ma_device_uninit is called on a device still in the uninitialised state and returns at once, so that the lock, the three events and the device of the backend stay open, and no later ma_device_uninit can release them.\<close>

theorem failed_init_leaks:
  assumes "ma_device_init env (Some cfg) (Some d0) = (result, pDevice, tr)" "result \<noteq> MA_SUCCESS"
    and "de_onDeviceInit env = Some onDeviceInit" "config_ok cfg" "init_events env = (MA_SUCCESS, trE)"
    and "onDeviceInit (ic_deviceType cfg) (config_descriptor cfg (ic_playback cfg)) (config_descriptor cfg (ic_capture cfg)) = (r0, pb, cp)"
  shows "dev_held StopEvent (tr @ snd (ma_device_uninit env pDevice)) = 1 \<and>
    (r0 = MA_SUCCESS \<longrightarrow> (\<forall>r \<in> {StartStopLock, WakeupEvent, StartEvent, BackendDevice}. dev_held r (tr @ snd (ma_device_uninit env pDevice)) = 1))"
proof (cases "r0 = MA_SUCCESS")
  case True
  with failed_setup_leaks [OF assms(1-5), of pb cp] assms(6) show ?thesis by simp
next
  case False
  with failed_open_leaks [OF assms(3-6), of d0] assms(1) show ?thesis by auto
qed

theorem failed_init_leaks_witness:
  "case ma_device_init (plain_env\<lparr>de_thread_create := - 1\<rparr>) (Some (ra_config zero_clock False idle_device)) (Some blank_device) of
     (result, pDevice, tr) \<Rightarrow> result = - 1 \<and> dev_held BackendDevice (tr @ snd (ma_device_uninit (plain_env\<lparr>de_thread_create := - 1\<rparr>) pDevice)) = 1"
proof -
  let ?env = "plain_env\<lparr>de_thread_create := - 1\<rparr>" and ?cfg = "ra_config zero_clock False idle_device"
  obtain pDevice tr where i: "ma_device_init ?env (Some ?cfg) (Some blank_device) = (- 1, pDevice, tr)"
    by (simp add: life_defs ma_device_uninit_def ra_config_def Let_def)
  have "config_ok ?cfg" by (simp add: config_ok_def side_config_ok_def ra_config_def Let_def ma__is_channel_map_valid_def)
  moreover have "init_events ?env = (MA_SUCCESS, snd (init_events ?env))" by (simp add: init_events_def plain_env_def)
  ultimately have "dev_held BackendDevice (tr @ snd (ma_device_uninit ?env pDevice)) = 1"
    using failed_init_leaks [OF i, of "\<lambda>ty pb cp. (MA_SUCCESS, pb, cp)"] by (simp add: plain_env_def)
  with i show ?thesis by simp
qed

text \<open>C36. After opening a linear resampler at any two rates (of at most 2^31) and any sequence of calls that process frames, the number of input frames it says it needs for 1 to 2^32-1 output frames is exact: with that many frames a call consumes all of them and produces all the output, and with fewer it consumes all of them and produces less.\<close>

theorem resampler_needs_exactly:
  assumes "ma_linear_resampler_init_preallocated cpu lm (Some c) pHeap p0 = (MA_SUCCESS, p)" "unat (rc_sampleRateOut c) \<le> 2 ^ 31"
    and "0 < k" "unat k \<le> 4294967295" "ma_linear_resampler_get_required_input_frame_count (process_calls cs p) k = (MA_SUCCESS, m)"
  shows "(\<exists>out' p'. ma_linear_resampler_process_pcm_frames (process_calls cs p) src m out k = (MA_SUCCESS, m, k, out', p')) \<and>
    (\<forall>m' < m. \<exists>n out' p'. ma_linear_resampler_process_pcm_frames (process_calls cs p) src m' out k = (MA_SUCCESS, m', n, out', p') \<and> n < k)"
proof -
  obtain r where "p = Some r" "lr_ok r" using opened_ok [OF assms(1,2)] by blast
  then obtain r' where r: "process_calls cs p = Some r'" "lr_wf r'" "lr_format_ok r'" using process_calls_ok [of r cs] by (auto simp: lr_ok_def)
  show ?thesis using required_input_exact [OF r(2,3) assms(3,4) assms(5) [unfolded r(1)]] unfolding r(1) by blast
qed

theorem resampler_needs_exactly_witness:
  "\<exists>p m out' p'. ma_linear_resampler_init_preallocated plain_cpu plain_libm (Some tripling) NULL (Some zero_resampler) = (MA_SUCCESS, p) \<and>
    ma_linear_resampler_get_required_input_frame_count p 7 = (MA_SUCCESS, m) \<and>
    ma_linear_resampler_process_pcm_frames p NULL m NULL 7 = (MA_SUCCESS, m, 7, out', p')"
proof -
  obtain p where p: "ma_linear_resampler_init_preallocated plain_cpu plain_libm (Some tripling) NULL (Some zero_resampler) = (MA_SUCCESS, p)"
    using tripling_opens by blast
  obtain r where r: "p = Some r" using opened_ok [OF p] by (auto simp: tripling_def)
  obtain m where m: "ma_linear_resampler_get_required_input_frame_count (process_calls [] p) 7 = (MA_SUCCESS, m)"
    by (simp add: r ma_linear_resampler_get_required_input_frame_count_def Let_def)
  show ?thesis using resampler_needs_exactly [OF p _ _ _ m, of NULL NULL] p m by (auto simp: tripling_def)
qed

text \<open>C37. Whenever a call that processes frames with a linear resampler (opened with an output rate of at most 2^31) ends because the input has run out, all of the input was consumed, and the number of output frames it then predicts for a next input of at most 2^32-1 frames, whose length at the output rate stays below 2^32-1 frames, is exact: a call with that input and more room than predicted consumes the input and produces the predicted number of frames.\<close>

theorem resampler_predicts_output:
  assumes "ma_linear_resampler_init_preallocated cpu lm (Some c) pHeap p0 = (MA_SUCCESS, p)" "unat (rc_sampleRateOut c) \<le> 2 ^ 31"
    and "ma_linear_resampler_process_pcm_frames (process_calls cs p) src0 cin out0 cout = (MA_SUCCESS, i, n, out1, p1)" "n < cout"
    and "unat m \<le> 4294967295" "unat m * unat (rc_sampleRateOut c) < 4294967295 * unat (rc_sampleRateIn c)"
  shows "i = cin \<and> (\<exists>e. ma_linear_resampler_get_expected_output_frame_count p1 m = (MA_SUCCESS, e) \<and>
    (e < cout' \<longrightarrow> (\<exists>out' p'. ma_linear_resampler_process_pcm_frames p1 src m out cout' = (MA_SUCCESS, m, e, out', p'))))"
  using predicted_after_dry [OF assms(1-3) _ assms(5,6), of cout' src out] assms(4) by blast

theorem resampler_predicts_output_witness:
  "\<exists>p i n out1 p1 e out' p'. ma_linear_resampler_init_preallocated plain_cpu plain_libm (Some tripling) NULL (Some zero_resampler) = (MA_SUCCESS, p) \<and>
    ma_linear_resampler_process_pcm_frames p NULL 4 NULL 100 = (MA_SUCCESS, i, n, out1, p1) \<and>
    ma_linear_resampler_get_expected_output_frame_count p1 5 = (MA_SUCCESS, e) \<and>
    (e < 100 \<longrightarrow> ma_linear_resampler_process_pcm_frames p1 NULL 5 NULL 100 = (MA_SUCCESS, 5, e, out', p'))"
proof -
  obtain p where p: "ma_linear_resampler_init_preallocated plain_cpu plain_libm (Some tripling) NULL (Some zero_resampler) = (MA_SUCCESS, p)"
    using tripling_opens by blast
  obtain n out1 p1 where q: "ma_linear_resampler_process_pcm_frames (process_calls [] p) NULL 4 NULL 100 = (MA_SUCCESS, 4, n, out1, p1)" "n < 100"
    using tripling_runs_dry [OF p, of NULL NULL] by auto
  show ?thesis using resampler_predicts_output [OF p _ q, of 5 100 NULL NULL] p q(1) by (auto simp: tripling_def)
qed

text \<open>C38. When a call of the linear resampler ends because the output is full, the number of output frames it predicts for the next input can be too small: resampling 16 kHz to 48 kHz, after one input and one output frame, the prediction for one more input frame is four frames while a call produces five, although a comment says the estimate is exact or corrected by one.\<close>

theorem resampler_underestimates:
  "\<exists>p out1 p1 out2 p2. ma_linear_resampler_init_preallocated cpu lm (Some tripling) NULL (Some zero_resampler) = (MA_SUCCESS, p) \<and>
    ma_linear_resampler_process_pcm_frames p src 1 out 1 = (MA_SUCCESS, 1, 1, out1, p1) \<and>
    ma_linear_resampler_get_expected_output_frame_count p1 1 = (MA_SUCCESS, 4) \<and>
    ma_linear_resampler_process_pcm_frames p1 src' 1 out' 10 = (MA_SUCCESS, 1, 5, out2, p2)"
  by (rule tripling_underestimates)

text \<open>C39. The 16 bit interpolation of the resampler never overflows or overshoots: while the reduced time fraction is below 2^20, every sample of an interpolated frame lies between the corresponding samples of the two input frames.\<close>

theorem interpolation_between:
  assumes "lr_wf r" "unat (lr_inTimeFrac r) < 2 ^ 20" "2 * unat (lr_channels r) \<le> length out" "ch < unat (lr_channels r)"
  shows "sint (s16_at (ma_linear_resampler_interpolate_frame_s16 r out) ch)
    \<in> {min (sint (s16_at (lr_x0 r) ch)) (sint (s16_at (lr_x1 r) ch)) .. max (sint (s16_at (lr_x0 r) ch)) (sint (s16_at (lr_x1 r) ch))}"
  using interpolate_s16 [OF assms] by simp

theorem interpolation_between_witness:
  "sint (s16_at (ma_linear_resampler_interpolate_frame_s16 halfway [0, 0]) 0) \<in> {100..200}"
  using interpolation_between [of halfway "[0, 0]" 0] halfway_ok by simp

text \<open>C40. Clearing the caches of a low-pass filter (as resetting the resampler does) is wrong twice: the second order sections keep what they remember of every channel but the first, and the first order section keeps its memory and loses its coefficient instead, so that the next 16 bit frame after the clear is passed through unfiltered.\<close>

theorem filter_reset_incomplete:
  assumes "ma_lpf_clear_cache (Some f) = (MA_SUCCESS, Some f')"
  shows "(i < length (pLPF2 f) \<and> 0 < ch \<longrightarrow> bq_pR1 (pLPF2 f' ! i) ! ch = bq_pR1 (pLPF2 f ! i) ! ch \<and> bq_pR2 (pLPF2 f' ! i) ! ch = bq_pR2 (pLPF2 f ! i) ! ch) \<and>
    (j < length (pLPF1 f) \<and> l1_format (pLPF1 f ! j) = ma_format_s16 \<and> length pX = 2 * unat (l1_channels (pLPF1 f ! j)) \<longrightarrow>
       l1_pR1 (pLPF1 f' ! j) = l1_pR1 (pLPF1 f ! j) \<and> fst (ma_lpf1_process_pcm_frame_s16 (pLPF1 f' ! j) pX pX) = pX)"
  using clear_cache_keeps [OF assms] lpf1_passes [of "pLPF1 f' ! j" pX pX] by auto

theorem filter_reset_incomplete_witness:
  "fst (ma_lpf1_process_pcm_frame_s16 (pLPF1 (the (snd (ma_lpf_clear_cache (Some ringing)))) ! 0) [1, 2, 3, 4] [1, 2, 3, 4]) = [1, 2, 3, 4] \<and>
   bq_pR1 (pLPF2 (the (snd (ma_lpf_clear_cache (Some ringing)))) ! 0) ! 1 = 77"
  using filter_reset_incomplete [of ringing "the (snd (ma_lpf_clear_cache (Some ringing)))" 0 1 0 "[1, 2, 3, 4]"]
  by (simp add: ringing_def ma_lpf_clear_cache_def)

end
